(* ===== verification/Prelude.thy ===== *)
theory Prelude
  imports Main "HOL-Library.Word" "HOL-Library.Monad_Syntax" "HOL-Library.Sublist"
begin

text \<open>
  Shared vocabulary of the development: the C integer types and the byte buffers of the
  program, bounds-checked memory accesses, little-endian numbers, and the C string
  functions the sources call. A computation that would leave the object it works on (an
  out-of-bounds access or a NULL dereference) is the value \<^term>\<open>None\<close>; every value the C
  code returns, error codes included, is under \<^term>\<open>Some\<close>.
\<close>

unbundle bit_operations_syntax

type_synonym u8 = "8 word"
type_synonym u16 = "16 word"
type_synonym u32 = "32 word"
type_synonym u64 = "64 word"
type_synonym bytes = "8 word list"

named_theorems mem_simps \<open>bounds-checked reads and writes\<close>
named_theorems le_simps \<open>little-endian encodings\<close>
named_theorems cstr_simps \<open>C string functions\<close>


section \<open>Arithmetic of \<open>size_t\<close>\<close>

text \<open>
  Positions and sizes are natural numbers below \<open>2 ^ 64\<close>; the wrap-around of the C
  additions and subtractions on \<open>size_t\<close> is written out.
\<close>

definition size_add :: "nat \<Rightarrow> nat \<Rightarrow> nat" where
  "size_add a b = (a + b) mod 2 ^ 64"

definition size_sub :: "nat \<Rightarrow> nat \<Rightarrow> nat" where
  "size_sub a b = (a + (2 ^ 64 - b mod 2 ^ 64)) mod 2 ^ 64"

lemma size_add_exact [simp]: "a + b < 2 ^ 64 \<Longrightarrow> size_add a b = a + b"
  by (simp add: size_add_def)

lemma size_sub_exact [simp]:
  assumes "b \<le> a" "a < 2 ^ 64" shows "size_sub a b = a - b"
proof -
  have "b mod 2 ^ 64 = b" using assms by simp
  then have "a + (2 ^ 64 - b mod 2 ^ 64) = (a - b) + 2 ^ 64" using assms by linarith
  then have "size_sub a b = (a - b + 2 ^ 64) mod 2 ^ 64" by (simp only: size_sub_def)
  also have "\<dots> = a - b" using assms by (simp only: mod_add_self2) simp
  finally show ?thesis .
qed


section \<open>Bounds-checked memory\<close>

definition mem_at :: "'a list \<Rightarrow> nat \<Rightarrow> 'a option" where
  "mem_at xs i = (if i < length xs then Some (xs ! i) else None)"

definition mem_read :: "'a list \<Rightarrow> nat \<Rightarrow> nat \<Rightarrow> 'a list option" where
  "mem_read xs off n = (if off + n \<le> length xs then Some (take n (drop off xs)) else None)"

definition mem_write :: "'a list \<Rightarrow> nat \<Rightarrow> 'a list \<Rightarrow> 'a list option" where
  "mem_write xs off ys =
     (if off + length ys \<le> length xs
      then Some (take off xs @ ys @ drop (off + length ys) xs) else None)"

lemma mem_at_Some [mem_simps]: "i < length xs \<Longrightarrow> mem_at xs i = Some (xs ! i)"
  by (simp add: mem_at_def)

lemma mem_read_Some [mem_simps]:
  "off + n \<le> length xs \<Longrightarrow> mem_read xs off n = Some (take n (drop off xs))"
  by (simp add: mem_read_def)

lemma mem_read_None [mem_simps]: "length xs < off + n \<Longrightarrow> mem_read xs off n = None"
  by (simp add: mem_read_def)

lemma mem_write_None [mem_simps]: "length xs < off + length ys \<Longrightarrow> mem_write xs off ys = None"
  by (simp add: mem_write_def)

lemma mem_read_SomeD: "mem_read xs off n = Some ys \<Longrightarrow>
    off + n \<le> length xs \<and> ys = take n (drop off xs) \<and> length ys = n"
  by (auto simp: mem_read_def split: if_splits)

lemma mem_write_SomeD: "mem_write xs off ys = Some zs \<Longrightarrow>
    off + length ys \<le> length xs \<and> length zs = length xs"
  by (auto simp: mem_write_def split: if_splits)

lemma mem_write_append [mem_simps]:
  "length ys = length old \<Longrightarrow> mem_write (pre @ old @ post) (length pre) ys = Some (pre @ ys @ post)"
  by (simp add: mem_write_def)

lemma mem_write_read_same:
  assumes "mem_write xs off ys = Some zs"
  shows "mem_read zs off (length ys) = Some ys"
  using assms by (auto simp: mem_write_def mem_read_def split: if_splits)


section \<open>Little-endian numbers\<close>

lemma unat_bound: "unat (w :: 'a::len word) < 2 ^ LENGTH('a)"
  by (rule unsigned_less)

lemma of_nat_u32_inverse: "n < 2 ^ 32 \<Longrightarrow> unat (of_nat n :: u32) = n"
  by (simp add: unat_of_nat)

fun le_nat :: "bytes \<Rightarrow> nat" where
  "le_nat [] = 0"
| "le_nat (b # bs) = unat b + 256 * le_nat bs"

fun le_bytes :: "nat \<Rightarrow> nat \<Rightarrow> bytes" where
  "le_bytes 0 n = []"
| "le_bytes (Suc k) n = of_nat (n mod 256) # le_bytes k (n div 256)"

lemma length_le_bytes [simp]: "length (le_bytes k n) = k"
  by (induction k arbitrary: n) auto

lemma le_nat_bound: "le_nat bs < 256 ^ length bs"
proof (induction bs)
  case Nil
  then show ?case by simp
next
  case (Cons b bs)
  have "unat b < 256" using unat_bound [of b] by simp
  with Cons show ?case by simp
qed

lemma le_nat_le_bytes [le_simps]: "n < 256 ^ k \<Longrightarrow> le_nat (le_bytes k n) = n"
proof (induction k arbitrary: n)
  case 0
  then show ?case by simp
next
  case (Suc k)
  have "n div 256 < 256 ^ k" using Suc.prems by (simp add: less_mult_imp_div_less mult.commute)
  moreover have "unat (of_nat (n mod 256) :: 8 word) = n mod 256"
    by (simp add: unat_of_nat)
  ultimately show ?case by (simp add: Suc.IH)
qed

lemma le_bytes_le_nat [le_simps]: "le_bytes (length bs) (le_nat bs) = bs"
proof (induction bs)
  case Nil
  then show ?case by simp
next
  case (Cons b bs)
  have b: "unat b < 256" using unat_bound [of b] by simp
  then have "(unat b + 256 * le_nat bs) mod 256 = unat b" by simp
  moreover have "(unat b + 256 * le_nat bs) div 256 = le_nat bs" using b by simp
  ultimately show ?case by (simp add: Cons.IH)
qed

lemma le_nat_append: "le_nat (xs @ ys) = le_nat xs + 256 ^ length xs * le_nat ys"
  by (induction xs) (simp_all add: algebra_simps)

text \<open>The bytes of a machine word, as a \<open>memcpy\<close> from a word variable yields them.\<close>

definition word_bytes :: "'a::len word \<Rightarrow> bytes" where
  "word_bytes w = le_bytes (LENGTH('a) div 8) (unat w)"

definition word_of_bytes :: "bytes \<Rightarrow> 'a::len word" where
  "word_of_bytes bs = of_nat (le_nat bs)"

lemma length_word_bytes [simp]: "length (word_bytes (w :: 'a::len word)) = LENGTH('a) div 8"
  by (simp add: word_bytes_def)

lemma word_of_bytes_word_bytes [le_simps]:
  assumes "8 dvd LENGTH('a::len)"
  shows "word_of_bytes (word_bytes (w :: 'a word)) = w"
proof -
  have "(256::nat) ^ (LENGTH('a) div 8) = 2 ^ (8 * (LENGTH('a) div 8))"
    by (simp only: power_mult) simp
  then have "unat w < 256 ^ (LENGTH('a) div 8)" using assms unat_bound [of w] by simp
  then show ?thesis by (simp add: word_bytes_def word_of_bytes_def le_nat_le_bytes)
qed

lemma word_of_bytes_zero [simp]: "word_of_bytes [] = 0"
  by (simp add: word_of_bytes_def)


section \<open>C strings\<close>

text \<open>
  A NUL-terminated C string is the list of its characters without the terminator.
  \<open>strstr\<close> and \<open>strchr\<close> return the suffix the C pointer designates.
\<close>

definition bytes_of_string :: "string \<Rightarrow> bytes" where
  "bytes_of_string s = map of_char s"

fun strstr :: "'a list \<Rightarrow> 'a list \<Rightarrow> 'a list option" where
  "strstr [] pat = (if pat = [] then Some [] else None)"
| "strstr (c # s) pat = (if prefix pat (c # s) then Some (c # s) else strstr s pat)"

fun strchr :: "'a list \<Rightarrow> 'a \<Rightarrow> 'a list option" where
  "strchr [] c = None"
| "strchr (d # s) c = (if d = c then Some (d # s) else strchr s c)"

text \<open>
  \<open>strncmp (a, b, n) == 0\<close> on the bytes from two pointers on: the comparison stops after
  \<open>n\<close> bytes or at a common terminator.
\<close>

fun strncmp_eq :: "nat \<Rightarrow> 'a::zero list \<Rightarrow> 'a list \<Rightarrow> bool" where
  "strncmp_eq 0 as bs = True"
| "strncmp_eq (Suc n) (a # as) (b # bs) = (a = b \<and> (a = 0 \<or> strncmp_eq n as bs))"
| "strncmp_eq (Suc n) as bs = False"

lemma length_bytes_of_string [simp]: "length (bytes_of_string s) = length s"
  by (simp add: bytes_of_string_def)

lemma strstr_SomeD: "strstr s pat = Some t \<Longrightarrow> prefix pat t \<and> suffix t s"
  by (induction s) (auto split: if_splits simp: suffix_Cons)

lemma strstr_None_iff: "strstr s pat = None \<longleftrightarrow> \<not> sublist pat s"
  by (induction s) (auto simp: sublist_Cons_right)

lemma sublist_strstr: "sublist pat s \<longleftrightarrow> strstr s pat \<noteq> None"
  by (simp add: strstr_None_iff)

lemma strchr_SomeD: "strchr s c = Some t \<Longrightarrow> suffix t s \<and> (\<exists>t'. t = c # t')"
  by (induction s) (auto split: if_splits simp: suffix_Cons)

lemma strchr_None_iff: "strchr s c = None \<longleftrightarrow> c \<notin> set s"
  by (induction s) auto

lemma strstr_length: "strstr s pat = Some t \<Longrightarrow> length t \<le> length s"
  using strstr_SomeD suffix_length_le by blast

lemma strchr_length: "strchr s c = Some t \<Longrightarrow> length t \<le> length s \<and> t \<noteq> []"
  by (auto dest!: strchr_SomeD dest: suffix_length_le)

lemma strchr_tl_length: "strchr s c = Some t \<Longrightarrow> length t - 1 < length s"
  using strchr_length [of s c t] by (cases t) auto

lemma strchr_append [cstr_simps]: "c \<notin> set xs \<Longrightarrow> strchr (xs @ c # ys) c = Some (c # ys)"
  by (induction xs) auto

lemma strncmp_eq_full:
  "0 \<notin> set as \<Longrightarrow> 0 \<notin> set bs \<Longrightarrow> length as < n \<Longrightarrow>
   strncmp_eq n (as @ [0]) (bs @ [0]) \<longleftrightarrow> as = bs"
proof (induction as arbitrary: n bs)
  case Nil
  then show ?case by (cases n; cases bs) auto
next
  case (Cons a as)
  then obtain m where "n = Suc m" "length as < m" by (cases n) auto
  with Cons show ?case by (cases bs) auto
qed

lemma strncmp_eq_prefix:
  "0 \<notin> set as \<Longrightarrow> n \<le> length as \<Longrightarrow> n \<le> length bs \<Longrightarrow>
   strncmp_eq n as bs \<longleftrightarrow> take n as = take n bs"
proof (induction as arbitrary: n bs)
  case Nil
  then show ?case by simp
next
  case (Cons a as)
  then show ?case by (cases n; cases bs) auto
qed


section \<open>Lists\<close>

lemma take_before: "take (length (xs @ ys) - length ys) (xs @ ys) = xs"
  by simp

lemma drop_eq_append_nth:
  "drop pos xs = ys @ zs \<Longrightarrow> i < length ys \<Longrightarrow> pos + i < length xs \<and> xs ! (pos + i) = ys ! i"
proof -
  assume a: "drop pos xs = ys @ zs" and i: "i < length ys"
  have "length xs - pos = length ys + length zs" using a by (metis length_append length_drop)
  then have "pos + i < length xs" using i by simp
  moreover have "xs ! (pos + i) = drop pos xs ! i" using calculation by simp
  ultimately show ?thesis using a i by (simp add: nth_append)
qed

lemma drop_eq_append_take:
  assumes "drop pos xs = ys @ zs"
  shows "pos + length ys \<le> length xs \<or> ys = []"
    and "take (length ys) (drop pos xs) = ys"
    and "drop (pos + length ys) xs = zs"
proof -
  have "length xs - pos = length ys + length zs" using assms by (metis length_append length_drop)
  then show "pos + length ys \<le> length xs \<or> ys = []" by (cases ys) auto
  show "take (length ys) (drop pos xs) = ys" by (simp add: assms)
  show "drop (pos + length ys) xs = zs"
    using assms by (metis add.commute append_eq_conv_conj drop_drop)
qed


section \<open>Folding a fallible step over a list\<close>

fun foldM :: "('a \<Rightarrow> 's \<Rightarrow> 's option) \<Rightarrow> 'a list \<Rightarrow> 's \<Rightarrow> 's option" where
  "foldM f [] s = Some s"
| "foldM f (x # xs) s = Option.bind (f x s) (foldM f xs)"

lemma foldM_append: "foldM f (xs @ ys) s = Option.bind (foldM f xs s) (foldM f ys)"
  by (induction xs arbitrary: s) (auto split: bind_split)

lemma foldM_pure: "(\<And>x s. x \<in> set xs \<Longrightarrow> f x s = Some (g x s)) \<Longrightarrow> foldM f xs s = Some (fold g xs s)"
  by (induction xs arbitrary: s) auto

lemma foldM_inv:
  assumes "foldM f xs s = Some t" "P s" "\<And>x s s'. P s \<Longrightarrow> f x s = Some s' \<Longrightarrow> P s'"
  shows "P t"
  using assms(1,2) by (induction xs arbitrary: s) (auto split: bind_splits intro: assms(3))

end
