(* ===== verification/Binary_Blob.thy ===== *)
theory Binary_Blob
  imports Prelude
begin

text \<open>
  The byte reader of the attestation sample, \<open>attestation/samples/src/binary_blob.c\<close>: a
  buffer with its length, and little-endian reads that advance a cursor. A read past the
  end yields zero and leaves the cursor where it was. The reads are one interface, the
  locale \<open>blob_reader\<close>; the four integer readers are its interpretations.
\<close>

record binary_blob =
  blob_data :: bytes
  blob_length :: nat
  blob_base :: nat

definition binary_blob_init :: "bytes option \<Rightarrow> nat \<Rightarrow> nat \<Rightarrow> binary_blob option" where
  "binary_blob_init data len base =
     (case data of
        None \<Rightarrow> None
      | Some d \<Rightarrow>
          if len = 0 then None
          else Some \<lparr>blob_data = d, blob_length = len, blob_base = base\<rparr>)"

definition check_boundary :: "binary_blob \<Rightarrow> nat \<Rightarrow> nat \<Rightarrow> bool" where
  "check_boundary blob pos n = (\<not> size_add pos n > blob_length blob)"

definition binary_blob_get_uint16 :: "binary_blob \<Rightarrow> nat \<Rightarrow> (u16 \<times> nat) option" where
  "binary_blob_get_uint16 blob pos =
     (if \<not> check_boundary blob pos 2 then Some (0, pos)
      else do {
        b0 \<leftarrow> mem_at (blob_data blob) pos;
        b1 \<leftarrow> mem_at (blob_data blob) (pos + 1);
        Some (ucast b0 OR push_bit 8 (ucast b1), size_add pos 2)
      })"

definition binary_blob_get_uint8 :: "binary_blob \<Rightarrow> nat \<Rightarrow> (u8 \<times> nat) option" where
  "binary_blob_get_uint8 blob pos =
     (if \<not> check_boundary blob pos 1 then Some (0, pos)
      else do {
        b \<leftarrow> mem_at (blob_data blob) pos;
        Some (b, size_add pos 1)
      })"

definition binary_blob_get_uint32 :: "binary_blob \<Rightarrow> nat \<Rightarrow> (u32 \<times> nat) option" where
  "binary_blob_get_uint32 blob pos =
     (if \<not> check_boundary blob pos 4 then Some (0, pos)
      else do {
        bs \<leftarrow> mem_read (blob_data blob) pos 4;
        Some (word_of_bytes bs, size_add pos 4)
      })"

text \<open>The loop of the 64-bit read, \<open>value |= (uint64_t) data[pos + i] << (i * 8)\<close>.\<close>

fun uint64_loop :: "bytes \<Rightarrow> nat \<Rightarrow> nat \<Rightarrow> nat \<Rightarrow> u64 \<Rightarrow> u64 option" where
  "uint64_loop data pos 0 i acc = Some acc"
| "uint64_loop data pos (Suc n) i acc =
     do {
       b \<leftarrow> mem_at data (pos + i);
       uint64_loop data pos n (Suc i) (acc OR push_bit (i * 8) (ucast b))
     }"

definition binary_blob_get_uint64 :: "binary_blob \<Rightarrow> nat \<Rightarrow> (u64 \<times> nat) option" where
  "binary_blob_get_uint64 blob pos =
     (if \<not> check_boundary blob pos 8 then Some (0, pos)
      else do {
        v \<leftarrow> uint64_loop (blob_data blob) pos 8 0 0;
        Some (v, size_add pos 8)
      })"

definition binary_blob_get_bytes :: "binary_blob \<Rightarrow> nat \<Rightarrow> nat \<Rightarrow> (bytes \<times> nat) option" where
  "binary_blob_get_bytes blob pos count =
     (if \<not> check_boundary blob pos count then Some (replicate count 0, pos)
      else do {
        bs \<leftarrow> mem_read (blob_data blob) pos count;
        Some (bs, size_add pos count)
      })"


section \<open>Well-formed blobs\<close>

definition blob_wf :: "binary_blob \<Rightarrow> bool" where
  "blob_wf blob \<longleftrightarrow> length (blob_data blob) = blob_length blob \<and> blob_length blob < 2 ^ 64"

lemma blob_wf_length: "blob_wf b \<Longrightarrow> length (blob_data b) = blob_length b"
  by (simp add: blob_wf_def)

lemma check_boundary_iff:
  "pos + n < 2 ^ 64 \<Longrightarrow> check_boundary b pos n \<longleftrightarrow> pos + n \<le> blob_length b"
  by (simp add: check_boundary_def not_less)

lemma check_boundary_in: "blob_wf b \<Longrightarrow> pos + n \<le> blob_length b \<Longrightarrow> check_boundary b pos n"
  by (simp add: check_boundary_iff blob_wf_def)

lemma size_add_in: "blob_wf b \<Longrightarrow> pos + n \<le> blob_length b \<Longrightarrow> size_add pos n = pos + n"
  by (simp add: blob_wf_def)

lemma binary_blob_init_wf:
  assumes "binary_blob_init data len base = Some b" "data = Some d" "length d = len" "len < 2 ^ 64"
  shows "blob_wf b"
  using assms by (auto simp: binary_blob_init_def blob_wf_def split: if_splits)


section \<open>Shifts and ors are little-endian sums\<close>

lemma or_push_bit_eq_plus:
  fixes a :: "'a::len word"
  assumes "unat a < 2 ^ n"
  shows "a OR push_bit n b = a + push_bit n b"
proof -
  have "\<not> bit a k" if "n \<le> k" for k
  proof -
    have "take_bit n a = a" using assms
      by (metis take_bit_nat_eq_self_iff unsigned_take_bit_eq unsigned_word_eqI)
    then show ?thesis using that by (metis bit_take_bit_iff not_le)
  qed
  then show ?thesis by (intro disjunctive_add [symmetric]) (auto simp: bit_push_bit_iff)
qed

lemma uint64_step:
  assumes "unat acc < 256 ^ i" "i < 8"
  shows "unat (acc OR push_bit (i * 8) (ucast (b :: u8)) :: u64) = unat acc + 256 ^ i * unat b"
    and "unat (acc OR push_bit (i * 8) (ucast b) :: u64) < 256 ^ Suc i"
proof -
  have p: "(256::nat) ^ i = 2 ^ (i * 8)"
    by (subst mult.commute) (simp add: power_mult)
  have b: "unat b < 256" using unat_bound [of b] by simp
  have lt: "unat acc + 256 ^ i * unat b < 256 ^ Suc i"
  proof -
    have "unat acc + 256 ^ i * unat b < 256 ^ i * (unat b + 1)"
      using assms(1) by (simp add: algebra_simps)
    also have "\<dots> \<le> 256 ^ i * 256" using b by (intro mult_le_mono2) simp
    finally show ?thesis by (simp add: mult.commute)
  qed
  also have "(256::nat) ^ Suc i \<le> 256 ^ 8"
    by (intro power_increasing) (use assms(2) in auto)
  finally have lt64: "unat acc + 256 ^ i * unat b < 2 ^ 64" by simp
  have "acc OR push_bit (i * 8) (ucast b) = acc + push_bit (i * 8) (ucast b)"
    using assms(1) p by (intro or_push_bit_eq_plus) simp
  also have "\<dots> = of_nat (unat acc + 256 ^ i * unat b)"
    by (simp add: push_bit_eq_mult p mult.commute)
  finally have e: "acc OR push_bit (i * 8) (ucast b) = (of_nat (unat acc + 256 ^ i * unat b) :: u64)" .
  show 1: "unat (acc OR push_bit (i * 8) (ucast b) :: u64) = unat acc + 256 ^ i * unat b"
    unfolding e unat_of_nat using lt64 by simp
  show "unat (acc OR push_bit (i * 8) (ucast b) :: u64) < 256 ^ Suc i"
    unfolding 1 by (rule lt)
qed

lemma uint64_loop_le:
  assumes "pos + i + n \<le> length data" "i + n \<le> 8" "unat acc < 256 ^ i"
  shows "\<exists>v. uint64_loop data pos n i acc = Some v \<and>
             unat v = unat acc + 256 ^ i * le_nat (take n (drop (pos + i) data))"
  using assms
proof (induction n arbitrary: i acc)
  case 0
  then show ?case by simp
next
  case (Suc n)
  let ?b = "data ! (pos + i)"
  let ?acc = "acc OR push_bit (i * 8) (ucast ?b) :: u64"
  have st: "unat ?acc = unat acc + 256 ^ i * unat ?b" "unat ?acc < 256 ^ Suc i"
    using uint64_step [of acc i ?b] Suc.prems by auto
  obtain v where v: "uint64_loop data pos n (Suc i) ?acc = Some v"
      "unat v = unat ?acc + 256 ^ Suc i * le_nat (take n (drop (pos + Suc i) data))"
    using Suc.IH [of "Suc i" ?acc] Suc.prems st(2) by auto
  have "take (Suc n) (drop (pos + i) data) = ?b # take n (drop (pos + Suc i) data)"
    using Suc.prems by (simp add: Cons_nth_drop_Suc [symmetric])
  then show ?case using v st Suc.prems by (simp add: mem_at_def algebra_simps)
qed


section \<open>The reader interface\<close>

text \<open>
  What a client of the readers relies on: a full read decodes the next \<open>width\<close> bytes as a
  little-endian number and moves the cursor past them; a read that does not fit yields
  zero and does not move.
\<close>

locale blob_reader =
  fixes get :: "binary_blob \<Rightarrow> nat \<Rightarrow> ('a::len word \<times> nat) option"
    and width :: nat
  assumes get_short: "\<not> check_boundary b pos width \<Longrightarrow> get b pos = Some (0, pos)"
    and get_full: "blob_wf b \<Longrightarrow> pos + width \<le> blob_length b \<Longrightarrow>
          get b pos = Some (word_of_bytes (take width (drop pos (blob_data b))), pos + width)"
    and width_pos: "0 < width"
begin

lemma get_total:
  assumes "blob_wf b" "pos + width < 2 ^ 64"
  shows "\<exists>v pos'. get b pos = Some (v, pos')"
proof (cases "pos + width \<le> blob_length b")
  case True
  then show ?thesis using get_full assms(1) by blast
next
  case False
  then show ?thesis using get_short [of b pos] assms(2) by (auto simp: check_boundary_iff)
qed

lemma get_cursor:
  assumes "blob_wf b" "pos + width < 2 ^ 64" "get b pos = Some (v, pos')"
  shows "pos' = (if pos + width \<le> blob_length b then pos + width else pos)"
proof (cases "pos + width \<le> blob_length b")
  case True
  then show ?thesis using get_full [OF assms(1) True] assms(3) by simp
next
  case False
  then show ?thesis using get_short [of b pos] assms by (auto simp: check_boundary_iff)
qed

lemma get_mono:
  assumes "blob_wf b" "blob_length b + width < 2 ^ 64" "pos \<le> blob_length b"
  obtains v pos' where "get b pos = Some (v, pos')" "pos \<le> pos'" "pos' \<le> blob_length b"
    "pos + width \<le> blob_length b \<Longrightarrow> pos' = pos + width"
    "blob_length b < pos + width \<Longrightarrow> pos' = pos \<and> v = 0"
proof (cases "pos + width \<le> blob_length b")
  case True
  then show ?thesis using get_full [OF assms(1) True] that by simp
next
  case False
  then have "get b pos = Some (0, pos)"
    using get_short [of b pos] assms by (auto simp: check_boundary_iff)
  then show ?thesis using False assms that by simp
qed

lemma get_encoded:
  assumes "blob_wf b" "drop pos (blob_data b) = bs @ rest" "length bs = width"
  shows "get b pos = Some (word_of_bytes bs, pos + width)"
    and "drop (pos + width) (blob_data b) = rest"
    and "pos + width \<le> blob_length b"
proof -
  note d = drop_eq_append_take [OF assms(2)]
  show le: "pos + width \<le> blob_length b"
    using d(1) assms width_pos by (auto simp: blob_wf_def)
  show "get b pos = Some (word_of_bytes bs, pos + width)"
    using get_full [OF assms(1) le] d(2) assms(3) by simp
  show "drop (pos + width) (blob_data b) = rest" using d(3) assms(3) by simp
qed

end

interpretation u8: blob_reader binary_blob_get_uint8 1
proof unfold_locales
  fix b :: binary_blob and pos :: nat
  assume wf: "blob_wf b" and le: "pos + 1 \<le> blob_length b"
  have "take 1 (drop pos (blob_data b)) = [blob_data b ! pos]"
    using wf le by (simp add: blob_wf_def take_Suc hd_drop_conv_nth)
  then show "binary_blob_get_uint8 b pos
      = Some (word_of_bytes (take 1 (drop pos (blob_data b))), pos + 1)"
    using wf le check_boundary_in [OF wf le] size_add_in [OF wf le]
    by (simp add: binary_blob_get_uint8_def mem_at_def blob_wf_def word_of_bytes_def)
qed (simp_all add: binary_blob_get_uint8_def)

interpretation u16: blob_reader binary_blob_get_uint16 2
proof unfold_locales
  fix b :: binary_blob and pos :: nat
  assume wf: "blob_wf b" and le: "pos + 2 \<le> blob_length b"
  let ?d = "blob_data b"
  have t: "take 2 (drop pos ?d) = [?d ! pos, ?d ! (pos + 1)]"
    using wf le by (simp add: blob_wf_def numeral_2_eq_2 Cons_nth_drop_Suc [symmetric])
  have lt: "unat (ucast (?d ! pos) :: u16) < 2 ^ 8"
    using unat_bound [of "?d ! pos"] le_less_trans [OF take_bit_nat_less_eq_self]
    by (simp add: unsigned_ucast_eq)
  have "(ucast (?d ! pos) OR push_bit 8 (ucast (?d ! (pos + 1))) :: u16)
      = word_of_bytes [?d ! pos, ?d ! (pos + 1)]"
    unfolding or_push_bit_eq_plus [OF lt] word_of_bytes_def
    by (simp add: push_bit_eq_mult mult.commute)
  then show "binary_blob_get_uint16 b pos = Some (word_of_bytes (take 2 (drop pos ?d)), pos + 2)"
    using wf le check_boundary_in [OF wf le] size_add_in [OF wf le]
    by (simp add: binary_blob_get_uint16_def mem_at_def blob_wf_def t)
qed (simp_all add: binary_blob_get_uint16_def)

interpretation u32: blob_reader binary_blob_get_uint32 4
proof unfold_locales
  fix b :: binary_blob and pos :: nat
  assume wf: "blob_wf b" and le: "pos + 4 \<le> blob_length b"
  show "binary_blob_get_uint32 b pos
      = Some (word_of_bytes (take 4 (drop pos (blob_data b))), pos + 4)"
    using wf le check_boundary_in [OF wf le] size_add_in [OF wf le]
    by (simp add: binary_blob_get_uint32_def mem_read_def blob_wf_def)
qed (simp_all add: binary_blob_get_uint32_def)

interpretation u64: blob_reader binary_blob_get_uint64 8
proof unfold_locales
  fix b :: binary_blob and pos :: nat
  assume wf: "blob_wf b" and le: "pos + 8 \<le> blob_length b"
  obtain v where v: "uint64_loop (blob_data b) pos 8 0 0 = Some v"
      "unat v = le_nat (take 8 (drop pos (blob_data b)))"
    using uint64_loop_le [of pos 0 8 "blob_data b" 0] wf le by (auto simp: blob_wf_def)
  have "v = word_of_bytes (take 8 (drop pos (blob_data b)))"
    by (simp add: word_of_bytes_def flip: v(2))
  then show "binary_blob_get_uint64 b pos
      = Some (word_of_bytes (take 8 (drop pos (blob_data b))), pos + 8)"
    using check_boundary_in [OF wf le] size_add_in [OF wf le] v(1)
    by (simp add: binary_blob_get_uint64_def)
qed (simp_all add: binary_blob_get_uint64_def)


section \<open>Block reads\<close>

lemma get_bytes_full:
  "blob_wf b \<Longrightarrow> pos + n \<le> blob_length b \<Longrightarrow>
   binary_blob_get_bytes b pos n = Some (take n (drop pos (blob_data b)), pos + n)"
  by (simp add: binary_blob_get_bytes_def check_boundary_in size_add_in mem_read_def blob_wf_length)

lemma get_bytes_short:
  "pos + n < 2 ^ 64 \<Longrightarrow> blob_length b < pos + n \<Longrightarrow>
   binary_blob_get_bytes b pos n = Some (replicate n 0, pos)"
  by (simp add: binary_blob_get_bytes_def check_boundary_iff)

lemma get_bytes_cursor:
  assumes "blob_wf b" "pos + n < 2 ^ 64"
  obtains bs pos' where "binary_blob_get_bytes b pos n = Some (bs, pos')" "length bs = n"
    "pos' = (if pos + n \<le> blob_length b then pos + n else pos)"
proof (cases "pos + n \<le> blob_length b")
  case True
  have "length (take n (drop pos (blob_data b))) = n"
    using True assms(1) by (simp add: blob_wf_length)
  then show ?thesis using get_bytes_full [OF assms(1) True] True that by simp
next
  case False
  then show ?thesis using get_bytes_short [of pos n b] assms(2) that by simp
qed

lemma get_bytes_encoded:
  assumes "blob_wf b" "drop pos (blob_data b) = bs @ rest" "pos \<le> blob_length b"
  shows "binary_blob_get_bytes b pos (length bs) = Some (bs, pos + length bs)"
    and "drop (pos + length bs) (blob_data b) = rest"
    and "pos + length bs \<le> blob_length b"
proof -
  note d = drop_eq_append_take [OF assms(2)]
  show le: "pos + length bs \<le> blob_length b" using d(1) assms by (auto simp: blob_wf_def)
  show "binary_blob_get_bytes b pos (length bs) = Some (bs, pos + length bs)"
    using get_bytes_full [OF assms(1) le] d(2) by simp
  show "drop (pos + length bs) (blob_data b) = rest" by (rule d(3))
qed


section \<open>Properties\<close>

text \<open>
  The 64-bit read, a loop of shifts and ors, is the little-endian value of the next eight
  bytes and advances the cursor by eight; when fewer bytes remain it is zero and the cursor
  stays. No access leaves the buffer.
\<close>

theorem get_uint64_little_endian:
  assumes "blob_wf b" "pos \<le> blob_length b" "blob_length b + 8 < 2 ^ 64"
  shows "binary_blob_get_uint64 b pos =
     Some (if pos + 8 \<le> blob_length b
           then (of_nat (le_nat (take 8 (drop pos (blob_data b)))), pos + 8) else (0, pos))"
proof (cases "pos + 8 \<le> blob_length b")
  case True
  then show ?thesis using u64.get_full [OF assms(1) True] by (simp add: word_of_bytes_def)
next
  case False
  then show ?thesis using u64.get_short [of b pos] assms by (simp add: check_boundary_iff)
qed

theorem get_uint64_little_endian_witness:
  "binary_blob_get_uint64 \<lparr>blob_data = [1, 2, 0, 0, 0, 0, 0, 1, 9], blob_length = 9, blob_base = 0\<rparr> 0 =
     Some (0x0100000000000201, 8)"
  using get_uint64_little_endian
    [of "\<lparr>blob_data = [1, 2, 0, 0, 0, 0, 0, 1, 9], blob_length = 9, blob_base = 0\<rparr>" 0]
  by (simp add: blob_wf_def)

end
