(* ===== verification/Rem.thy ===== *)
theory Rem
  imports Prelude
begin

text \<open>
  Runtime extensible measurements, \<open>attestation/samples/src/rem.c\<close> and \<open>update_rem\<close> of
  \<open>event_log.c\<close>: four 32-byte registers, each extended by hashing its value with a digest.
  The hash is OpenSSL's and a parameter \<open>sha\<close> (\<^term>\<open>None\<close> when one of the EVP calls
  fails). The locale \<open>register_bank\<close> states what a replay needs of the registers: an update
  extends the addressed register and leaves the others alone.
\<close>

abbreviation (input) REM_COUNT :: nat where "REM_COUNT \<equiv> 4"
abbreviation (input) REM_LENGTH_BYTES :: nat where "REM_LENGTH_BYTES \<equiv> 32"
abbreviation (input) SHA256_DIGEST_LENGTH :: nat where "SHA256_DIGEST_LENGTH \<equiv> 32"

type_synonym sha_fun = "bytes \<Rightarrow> bytes option"

record rem_t =
  rem_data :: bytes

definition rem_init :: "rem_t \<Rightarrow> rem_t" where
  "rem_init rem = rem\<lparr>rem_data := replicate REM_LENGTH_BYTES 0\<rparr>"

definition rem_compare :: "rem_t \<Rightarrow> rem_t \<Rightarrow> bool" where
  "rem_compare rem1 rem2 =
     (take REM_LENGTH_BYTES (rem_data rem1) = take REM_LENGTH_BYTES (rem_data rem2))"

definition update_rem :: "sha_fun \<Rightarrow> rem_t \<Rightarrow> bytes \<Rightarrow> rem_t" where
  "update_rem sha rem digest =
     (case sha (rem_data rem @ digest) of
        None \<Rightarrow> rem
      | Some hash \<Rightarrow> rem\<lparr>rem_data := take REM_LENGTH_BYTES hash\<rparr>)"

text \<open>The registers of an event log, \<open>rem_t rems[REM_COUNT]\<close>, after initialisation.\<close>

definition init_rems :: "rem_t list" where
  "init_rems = replicate REM_COUNT \<lparr>rem_data = replicate REM_LENGTH_BYTES 0\<rparr>"

definition rem_wf :: "rem_t \<Rightarrow> bool" where
  "rem_wf rem \<longleftrightarrow> length (rem_data rem) = REM_LENGTH_BYTES"

definition rems_wf :: "rem_t list \<Rightarrow> bool" where
  "rems_wf rems \<longleftrightarrow> length rems = REM_COUNT \<and> list_all rem_wf rems"

text \<open>What OpenSSL documents of SHA-256: when the calls succeed the digest has 32 bytes.\<close>

definition sha_ok :: "sha_fun \<Rightarrow> bool" where
  "sha_ok sha \<longleftrightarrow> (\<forall>m d. sha m = Some d \<longrightarrow> length d = SHA256_DIGEST_LENGTH)"

lemma init_rems_wf [simp]: "rems_wf init_rems"
  by (simp add: init_rems_def rems_wf_def rem_wf_def list_all_iff)

lemma rem_init_wf [simp]: "rem_wf (rem_init r)"
  by (simp add: rem_init_def rem_wf_def)

lemma update_rem_wf: "sha_ok sha \<Longrightarrow> rem_wf r \<Longrightarrow> rem_wf (update_rem sha r d)"
  by (auto simp: update_rem_def rem_wf_def sha_ok_def split: option.splits)

lemma rem_compare_iff: "rem_wf r \<Longrightarrow> rem_wf s \<Longrightarrow> rem_compare r s \<longleftrightarrow> rem_data r = rem_data s"
  by (simp add: rem_compare_def rem_wf_def)

lemma rem_t_eqI: "rem_data r = rem_data s \<Longrightarrow> r = (s :: rem_t)"
  by (cases r, cases s) simp


section \<open>Banks of extensible registers\<close>

locale register_bank =
  fixes regs :: nat
    and extend :: "nat \<Rightarrow> 'd \<Rightarrow> 'b \<Rightarrow> 'b"
    and reg :: "nat \<Rightarrow> 'b \<Rightarrow> 'r"
    and chain :: "'r \<Rightarrow> 'd \<Rightarrow> 'r"
    and inv :: "'b \<Rightarrow> bool"
  assumes extend_same: "inv b \<Longrightarrow> i < regs \<Longrightarrow> reg i (extend i d b) = chain (reg i b) d"
    and extend_other: "inv b \<Longrightarrow> i < regs \<Longrightarrow> j < regs \<Longrightarrow> i \<noteq> j \<Longrightarrow>
          reg j (extend i d b) = reg j b"
    and extend_inv: "inv b \<Longrightarrow> i < regs \<Longrightarrow> inv (extend i d b)"
begin

definition run :: "(nat \<times> 'd) list \<Rightarrow> 'b \<Rightarrow> 'b" where
  "run evs b = fold (\<lambda>(i, d) b. if i < regs then extend i d b else b) evs b"

lemma run_Nil [simp]: "run [] b = b"
  by (simp add: run_def)

lemma run_Cons [simp]: "run ((i, d) # evs) b = run evs (if i < regs then extend i d b else b)"
  by (simp add: run_def)

lemma run_append: "run (xs @ ys) b = run ys (run xs b)"
  by (simp add: run_def)

lemma run_inv: "inv b \<Longrightarrow> inv (run evs b)"
  by (induction evs arbitrary: b) (auto simp: extend_inv)

text \<open>A register holds the chain of exactly the digests addressed to it, in order.\<close>

lemma run_reg:
  "inv b \<Longrightarrow> i < regs \<Longrightarrow>
   reg i (run evs b) = foldl chain (reg i b) (map snd (filter (\<lambda>(j, d). j = i) evs))"
proof (induction evs arbitrary: b)
  case Nil
  then show ?case by simp
next
  case (Cons e evs)
  obtain j d where e: "e = (j, d)" by (cases e)
  show ?case
  proof (cases "j < regs")
    case True
    then have "inv (extend j d b)" using Cons.prems(1) by (rule extend_inv [rotated])
    note IH = Cons.IH [OF this Cons.prems(2)]
    show ?thesis
      using True IH Cons.prems extend_same [of b i d] extend_other [of b j i d]
      by (cases "j = i") (simp_all add: e)
  next
    case False
    then show ?thesis using Cons by (auto simp: e)
  qed
qed

end

definition extend_rems :: "sha_fun \<Rightarrow> nat \<Rightarrow> bytes \<Rightarrow> rem_t list \<Rightarrow> rem_t list" where
  "extend_rems sha i d rems = rems[i := update_rem sha (rems ! i) d]"

interpretation rem_bank: register_bank REM_COUNT "extend_rems sha" "\<lambda>i rems. rems ! i"
    "update_rem sha" "\<lambda>rems. length rems = REM_COUNT" for sha
  by unfold_locales (simp_all add: extend_rems_def)

lemma extend_rems_wf:
  "sha_ok sha \<Longrightarrow> rems_wf rems \<Longrightarrow> i < REM_COUNT \<Longrightarrow> rems_wf (extend_rems sha i d rems)"
  by (auto simp: rems_wf_def extend_rems_def list_all_length update_rem_wf nth_list_update)

end
