(* ===== verification/Event_Log.thy ===== *)
theory Event_Log
  imports Binary_Blob Rem
begin

text \<open>
  The CCEL event log parser, \<open>attestation/samples/src/event_log.c\<close>: one log entry is read
  from the blob at a cursor by \<open>process_event_log_entry\<close>. \<open>malloc\<close> is the parameter
  \<open>malloc_ok\<close> (whether an allocation of that many bytes succeeds); a NULL pointer of the
  entry is \<^term>\<open>None\<close>. Accesses outside a buffer make the whole call \<^term>\<open>None\<close>.
\<close>

section \<open>Data\<close>

abbreviation (input) EVENT_LOG_MAGIC :: u32 where "EVENT_LOG_MAGIC \<equiv> 0xFFFFFFFF"
abbreviation (input) EV_NO_ACTION :: u32 where "EV_NO_ACTION \<equiv> 0x3"
abbreviation (input) EV_IPL :: u32 where "EV_IPL \<equiv> 0xd"
abbreviation (input) EV_EFI_BOOT_SERVICES_APPLICATION :: u32
  where "EV_EFI_BOOT_SERVICES_APPLICATION \<equiv> 0x80000003"

abbreviation (input) TPM_ALG_SHA256 :: u16 where "TPM_ALG_SHA256 \<equiv> 0xB"

record algorithm_info =
  algoid :: u16
  digestsize :: u16

record event_log_entry =
  rem_index :: u32
  event_type :: u32
  digest_count :: u32
  alg_ids :: "u16 list option"
  digests :: "bytes option"
  event_size :: u32
  event :: "bytes option"
  algorithms_number :: u32
  algorithms :: "algorithm_info list option"

definition zero_entry :: event_log_entry where
  "zero_entry = \<lparr>rem_index = 0, event_type = 0, digest_count = 0, alg_ids = None,
     digests = None, event_size = 0, event = None, algorithms_number = 0, algorithms = None\<rparr>"

record event_log =
  log_blob :: binary_blob
  log_base :: nat
  log_length :: nat
  log_rems :: "rem_t list"

text \<open>Register numbers in the log start at 1, indices of \<open>rems\<close> at 0.\<close>

definition rem_of_register :: "u32 \<Rightarrow> u32" where
  "rem_of_register reg = (if reg > 0 then reg - 1 else 0)"

definition get_digest_size :: "u16 \<Rightarrow> int" where
  "get_digest_size alg =
     (if alg = 0x4 then 20 else if alg = 0xB then 32 else if alg = 0xC then 48
      else if alg = 0xD then 64 else 0)"


section \<open>Reading one entry\<close>

text \<open>The algorithm table of the Spec ID event.\<close>

fun read_algorithms :: "binary_blob \<Rightarrow> nat \<Rightarrow> nat \<Rightarrow> (algorithm_info list \<times> nat) option" where
  "read_algorithms blob 0 pos = Some ([], pos)"
| "read_algorithms blob (Suc n) pos =
     do {
       (a, pos) \<leftarrow> binary_blob_get_uint16 blob pos;
       (s, pos) \<leftarrow> binary_blob_get_uint16 blob pos;
       (rest, pos) \<leftarrow> read_algorithms blob n pos;
       Some (\<lparr>algoid = a, digestsize = s\<rparr> # rest, pos)
     }"

text \<open>
  The digest loop. The buffer \<open>entry->digests\<close> is written at offset
  \<open>i * SHA256_DIGEST_LENGTH\<close>, a product of 32-bit integers.
\<close>

fun read_digests ::
  "binary_blob \<Rightarrow> nat \<Rightarrow> nat \<Rightarrow> nat \<Rightarrow> u16 list \<Rightarrow> bytes \<Rightarrow> (nat \<times> u16 list \<times> bytes) option"
where
  "read_digests blob 0 i pos ids buf = Some (pos, ids, buf)"
| "read_digests blob (Suc n) i pos ids buf =
     do {
       (a, pos) \<leftarrow> binary_blob_get_uint16 blob pos;
       (d, pos) \<leftarrow> binary_blob_get_bytes blob pos SHA256_DIGEST_LENGTH;
       buf \<leftarrow> mem_write buf (i * SHA256_DIGEST_LENGTH mod 2 ^ 32) d;
       read_digests blob n (Suc i) pos (ids @ [a]) buf
     }"

text \<open>The Spec ID (\<open>EV_NO_ACTION\<close>) branch, after the three header words.\<close>

definition process_no_action ::
  "(nat \<Rightarrow> bool) \<Rightarrow> binary_blob \<Rightarrow> nat \<Rightarrow> nat \<Rightarrow> event_log_entry \<Rightarrow>
   (bool \<times> nat \<times> event_log_entry) option"
where
  "process_no_action malloc_ok blob initial_pos pos entry =
     do {
       let pos = size_add pos 20;
       (_, pos) \<leftarrow> binary_blob_get_bytes blob pos 24;
       (k, pos) \<leftarrow> binary_blob_get_uint32 blob pos;
       let entry = entry\<lparr>algorithms_number := k\<rparr>;
       if \<not> malloc_ok (unat k * 4) then Some (False, pos, entry)
       else do {
         (algs, pos) \<leftarrow> read_algorithms blob (unat k) pos;
         (vendorsize, pos) \<leftarrow> binary_blob_get_uint8 blob pos;
         let pos = size_add pos (unat vendorsize);
         let sz = (of_nat (size_sub pos initial_pos) :: u32);
         let entry = entry\<lparr>algorithms := Some algs, event_size := sz\<rparr>;
         if sz > 0 \<and> malloc_ok (unat sz) then do {
           bs \<leftarrow> mem_read (blob_data blob) initial_pos (unat sz);
           Some (True, pos, entry\<lparr>event := Some bs\<rparr>)
         } else Some (True, pos, entry)
       }
     }"

text \<open>The event size, the size guard and the copy of the whole event.\<close>

definition process_event_data ::
  "(nat \<Rightarrow> bool) \<Rightarrow> binary_blob \<Rightarrow> nat \<Rightarrow> nat \<Rightarrow> event_log_entry \<Rightarrow>
   (bool \<times> nat \<times> event_log_entry) option"
where
  "process_event_data malloc_ok blob initial_pos pos entry =
     do {
       (sz, pos) \<leftarrow> binary_blob_get_uint32 blob pos;
       if sz > 0 \<and> sz > 10240 then
         Some (False, pos, entry\<lparr>digests := None, alg_ids := None\<rparr>)
       else do {
         let hdr = size_sub pos initial_pos;
         let total = (of_nat (size_add hdr (unat sz)) :: u32);
         let entry = entry\<lparr>event_size := total\<rparr>;
         if total > 0 then
           if \<not> malloc_ok (unat total) then
             Some (False, pos, entry\<lparr>digests := None, alg_ids := None\<rparr>)
           else do {
             h \<leftarrow> mem_read (blob_data blob) initial_pos hdr;
             buf \<leftarrow> mem_write (replicate (unat total) 0) 0 h;
             if sz > 0 then do {
               (d, pos) \<leftarrow> binary_blob_get_bytes blob pos (unat sz);
               buf \<leftarrow> mem_write buf hdr d;
               Some (True, pos, entry\<lparr>event := Some buf\<rparr>)
             } else Some (True, pos, entry\<lparr>event := Some buf\<rparr>)
           }
         else Some (True, pos, entry)
       }
     }"

text \<open>
  The digest array of an ordinary event. The allocation size
  \<open>entry->digest_count * SHA256_DIGEST_LENGTH\<close> is computed in 32 bits.
\<close>

definition process_digests ::
  "(nat \<Rightarrow> bool) \<Rightarrow> binary_blob \<Rightarrow> nat \<Rightarrow> event_log_entry \<Rightarrow>
   (bool \<times> nat \<times> event_log_entry) option"
where
  "process_digests malloc_ok blob pos entry =
     (let k = digest_count entry in
      if k > 0 then
        let dsize = unat (k * 32) in
        if \<not> malloc_ok dsize \<or> \<not> malloc_ok (unat k * 2) then Some (False, pos, entry)
        else do {
          (pos, ids, buf) \<leftarrow> read_digests blob (unat k) 0 pos [] (replicate dsize 0);
          Some (True, pos, entry\<lparr>digests := Some buf, alg_ids := Some ids\<rparr>)
        }
      else Some (True, pos, entry))"

definition process_event_log_entry ::
  "(nat \<Rightarrow> bool) \<Rightarrow> binary_blob \<Rightarrow> nat \<Rightarrow> (bool \<times> nat \<times> event_log_entry) option"
where
  "process_event_log_entry malloc_ok blob initial_pos =
     (if initial_pos \<ge> blob_length blob then Some (False, initial_pos, zero_entry)
      else do {
        (reg, pos) \<leftarrow> binary_blob_get_uint32 blob initial_pos;
        (ty, pos) \<leftarrow> binary_blob_get_uint32 blob pos;
        let entry = zero_entry\<lparr>event_type := ty\<rparr>;
        if reg = EVENT_LOG_MAGIC \<and> ty = EVENT_LOG_MAGIC then Some (False, pos, entry)
        else do {
          let entry = entry\<lparr>rem_index := rem_of_register reg\<rparr>;
          (k, pos) \<leftarrow> binary_blob_get_uint32 blob pos;
          let entry = entry\<lparr>digest_count := k\<rparr>;
          if ty = EV_NO_ACTION then process_no_action malloc_ok blob initial_pos pos entry
          else do {
            (ok, pos, entry) \<leftarrow> process_digests malloc_ok blob pos entry;
            if \<not> ok then Some (False, pos, entry)
            else process_event_data malloc_ok blob initial_pos pos entry
          }
        }
      })"

text \<open>\<open>event_log_init\<close>: \<open>file\<close> is what reading the event log file yields.\<close>

definition event_log_init :: "bytes option \<Rightarrow> nat \<Rightarrow> event_log option" where
  "event_log_init file base =
     (case file of
        None \<Rightarrow> None
      | Some data \<Rightarrow>
          (case binary_blob_init (Some data) (length data) base of
             None \<Rightarrow> None
           | Some blob \<Rightarrow> Some \<lparr>log_blob = blob, log_base = base,
               log_length = length data, log_rems = init_rems\<rparr>))"


section \<open>Walking the log\<close>

text \<open>
  Every consumer of the log (\<open>event_log_process\<close>, the two passes of \<open>event_log_replay\<close>,
  the two passes of \<open>firmware_log_state_extract\<close>) calls \<open>process_event_log_entry\<close> with a
  cursor until it fails or the cursor reaches the end. \<open>log_entries\<close> is the sequence of
  entries such a loop sees; \<^term>\<open>None\<close> when an access faults or the loop never ends.
\<close>

partial_function (option) log_entries ::
  "(nat \<Rightarrow> bool) \<Rightarrow> binary_blob \<Rightarrow> nat \<Rightarrow> event_log_entry list option"
where
  "log_entries malloc_ok blob pos =
     (if pos < blob_length blob then
        Option.bind (process_event_log_entry malloc_ok blob pos) (\<lambda>(ok, pos', e).
          if \<not> ok then Some []
          else Option.bind (log_entries malloc_ok blob pos') (\<lambda>es. Some (e # es)))
      else Some [])"

text \<open>
  The shape \<open>while (process_event_log_entry (log, &pos, &entry)) body\<close>, for a body that
  updates a state \<open>'s\<close>.
\<close>

partial_function (option) log_fold ::
  "(nat \<Rightarrow> bool) \<Rightarrow> binary_blob \<Rightarrow> (event_log_entry \<Rightarrow> 's \<Rightarrow> 's option) \<Rightarrow> nat \<Rightarrow> 's \<Rightarrow> 's option"
where
  "log_fold malloc_ok blob f pos s =
     Option.bind (process_event_log_entry malloc_ok blob pos) (\<lambda>(ok, pos', e).
       if \<not> ok then Some s
       else Option.bind (f e s) (\<lambda>s'. log_fold malloc_ok blob f pos' s'))"

text \<open>
  \<open>event_log_process\<close> prints each entry. What the loop reads while printing is kept: the
  first algorithm id and as many digest bytes as that algorithm has.
\<close>

definition print_entry :: "event_log_entry \<Rightarrow> unit option" where
  "print_entry e =
     do {
       _ \<leftarrow> (if event_type e = 0x3
             then (if algorithms_number e = 0 then Some []
                   else do { algs \<leftarrow> algorithms e; mem_read algs 0 (unat (algorithms_number e)) })
             else Some []);
       if digest_count e > 0 then
         do {
           ids \<leftarrow> alg_ids e;
           a \<leftarrow> mem_at ids 0;
           if get_digest_size a > 0 then
             do {
               d \<leftarrow> digests e;
               _ \<leftarrow> mem_read d 0 (nat (get_digest_size a));
               Some ()
             }
           else Some ()
         }
       else Some ()
     }"

partial_function (option) event_log_process_loop ::
  "(nat \<Rightarrow> bool) \<Rightarrow> binary_blob \<Rightarrow> nat \<Rightarrow> nat \<Rightarrow> nat option"
where
  "event_log_process_loop malloc_ok blob pos entry_count =
     (if pos < blob_length blob then
        Option.bind (process_event_log_entry malloc_ok blob pos) (\<lambda>(ok, pos', e).
          if \<not> ok then Some entry_count
          else Option.bind (print_entry e) (\<lambda>_.
            event_log_process_loop malloc_ok blob pos' (Suc entry_count)))
      else Some entry_count)"

definition event_log_process :: "(nat \<Rightarrow> bool) \<Rightarrow> event_log \<Rightarrow> bool option" where
  "event_log_process malloc_ok log =
     Option.bind (event_log_process_loop malloc_ok (log_blob log) 0 0) (\<lambda>_. Some True)"



section \<open>Every walk is a fold over the entries\<close>

definition log_done :: "(nat \<Rightarrow> bool) \<Rightarrow> binary_blob \<Rightarrow> nat \<Rightarrow> bool" where
  "log_done malloc_ok b pos \<longleftrightarrow> blob_length b \<le> pos \<or>
     (\<exists>pos' e. process_event_log_entry malloc_ok b pos = Some (False, pos', e))"

text \<open>A proof rule for what holds of every finished walk of the log.\<close>

lemma log_entries_Some_induct [consumes 1, case_names stop entry]:
  assumes "log_entries malloc_ok b pos = Some es"
    and stop: "\<And>pos. log_done malloc_ok b pos \<Longrightarrow> P pos []"
    and entry: "\<And>pos pos' e es. pos < blob_length b \<Longrightarrow>
          process_event_log_entry malloc_ok b pos = Some (True, pos', e) \<Longrightarrow>
          P pos' es \<Longrightarrow> P pos (e # es)"
  shows "P pos es"
proof -
  let ?Q = "\<lambda>mo bb p ys. mo = malloc_ok \<and> bb = b \<longrightarrow> P p ys"
  have "?Q malloc_ok b pos es"
  proof (rule log_entries.raw_induct [where P = ?Q, OF _ assms(1)], intro impI)
    fix f :: "(nat \<Rightarrow> bool) \<Rightarrow> binary_blob \<Rightarrow> nat \<Rightarrow> event_log_entry list option"
      and mo :: "nat \<Rightarrow> bool" and bb :: binary_blob and p ys
    assume IH: "\<And>mo bb p ys. f mo bb p = Some ys \<Longrightarrow> ?Q mo bb p ys"
      and eq: "(if p < blob_length bb then
        Option.bind (process_event_log_entry mo bb p) (\<lambda>(ok, pos', e).
          if \<not> ok then Some []
          else Option.bind (f mo bb pos') (\<lambda>es. Some (e # es)))
        else Some []) = Some ys" and "mo = malloc_ok \<and> bb = b"
    then show "P p ys"
      by (auto split: if_splits bind_splits prod.splits intro!: stop entry simp: log_done_def)
  qed
  then show ?thesis by simp
qed


lemma process_past_end:
  "blob_length b \<le> pos \<Longrightarrow> process_event_log_entry malloc_ok b pos = Some (False, pos, zero_entry)"
  by (simp add: process_event_log_entry_def)

lemma log_fold_done: "log_done malloc_ok b pos \<Longrightarrow> log_fold malloc_ok b f pos s = Some s"
  by (subst log_fold.simps) (auto simp: log_done_def process_past_end)

lemma log_fold_entries:
  "log_entries malloc_ok b pos = Some es \<Longrightarrow> log_fold malloc_ok b f pos s = foldM f es s"
proof (induction arbitrary: s rule: log_entries_Some_induct)
  case (stop pos)
  then show ?case by (simp add: log_fold_done)
next
  case (entry pos pos' e es)
  then show ?case by (subst log_fold.simps) (auto split: bind_split)
qed

end
