(* ===== verification/Event_Codec.thy ===== *)
theory Event_Codec
  imports Event_Log
begin

text \<open>
  The contents of an event log apart from the parser: the events a firmware writes, their
  byte encoding, and that \<open>process_event_log_entry\<close> reads back exactly what was written.
  The second half is what the parser does on bytes that are no such encoding.
\<close>

section \<open>Encoding\<close>

datatype tcg_event =
    Spec_Id (ev_reg: u32) (ev_count: u32) (ev_sha1: bytes) (ev_ident: bytes)
      (ev_algs: "(u16 \<times> u16) list") (ev_vendor: bytes)
  | Event (ev_reg: u32) (ev_type: u32) (ev_digests: "(u16 \<times> bytes) list") (ev_data: bytes)

definition enc_algs :: "(u16 \<times> u16) list \<Rightarrow> bytes" where
  "enc_algs algs = concat (map (\<lambda>(a, s). word_bytes a @ word_bytes s) algs)"

definition enc_digests :: "(u16 \<times> bytes) list \<Rightarrow> bytes" where
  "enc_digests ds = concat (map (\<lambda>(a, d). word_bytes a @ d) ds)"

fun enc_event :: "tcg_event \<Rightarrow> bytes" where
  "enc_event (Spec_Id reg k sha1 ident algs vendor) =
     word_bytes reg @ word_bytes EV_NO_ACTION @ word_bytes k @ sha1 @ ident @
     word_bytes (of_nat (length algs) :: u32) @ enc_algs algs @
     word_bytes (of_nat (length vendor) :: u8) @ vendor"
| "enc_event (Event reg ty ds data) =
     word_bytes reg @ word_bytes ty @ word_bytes (of_nat (length ds) :: u32) @ enc_digests ds @
     word_bytes (of_nat (length data) :: u32) @ data"

fun ev_ok :: "tcg_event \<Rightarrow> bool" where
  "ev_ok (Spec_Id reg k sha1 ident algs vendor) =
     (length sha1 = 20 \<and> length ident = 24 \<and> length vendor < 256 \<and>
      length (enc_event (Spec_Id reg k sha1 ident algs vendor)) < 2 ^ 32)"
| "ev_ok (Event reg ty ds data) =
     (ty \<noteq> EV_NO_ACTION \<and> \<not> (reg = EVENT_LOG_MAGIC \<and> ty = EVENT_LOG_MAGIC) \<and>
      list_all (\<lambda>(a, d). length d = SHA256_DIGEST_LENGTH) ds \<and> length data \<le> 10240 \<and>
      length (enc_event (Event reg ty ds data)) < 2 ^ 32)"

fun entry_of :: "tcg_event \<Rightarrow> event_log_entry" where
  "entry_of (Spec_Id reg k sha1 ident algs vendor) =
     zero_entry\<lparr>rem_index := rem_of_register reg, event_type := EV_NO_ACTION,
       digest_count := k, algorithms_number := of_nat (length algs),
       algorithms := Some (map (\<lambda>(a, s). \<lparr>algoid = a, digestsize = s\<rparr>) algs),
       event_size := of_nat (length (enc_event (Spec_Id reg k sha1 ident algs vendor))),
       event := Some (enc_event (Spec_Id reg k sha1 ident algs vendor))\<rparr>"
| "entry_of (Event reg ty ds data) =
     zero_entry\<lparr>rem_index := rem_of_register reg, event_type := ty,
       digest_count := of_nat (length ds),
       alg_ids := (if ds = [] then None else Some (map fst ds)),
       digests := (if ds = [] then None else Some (concat (map snd ds))),
       event_size := of_nat (length (enc_event (Event reg ty ds data))),
       event := Some (enc_event (Event reg ty ds data))\<rparr>"


section \<open>The loops on encoded tables\<close>

lemma enc_algs_simps [simp]:
  "enc_algs [] = []"
  "enc_algs ((a, s) # algs) = word_bytes a @ word_bytes s @ enc_algs algs"
  by (simp_all add: enc_algs_def)

lemma length_enc_algs [simp]: "length (enc_algs algs) = 4 * length algs"
  by (induction algs) auto

lemma enc_digests_simps [simp]:
  "enc_digests [] = []"
  "enc_digests ((a, d) # ds) = word_bytes a @ d @ enc_digests ds"
  by (simp_all add: enc_digests_def)

lemma length_enc_digests:
  "list_all (\<lambda>(a, d). length d = 32) ds \<Longrightarrow> length (enc_digests ds) = 34 * length ds"
  by (induction ds) auto

lemma length_concat_digests:
  "list_all (\<lambda>(a, d). length d = 32) ds \<Longrightarrow> length (concat (map snd ds)) = 32 * length ds"
  by (induction ds) auto

lemma read_algorithms_enc:
  assumes "blob_wf b" "drop pos (blob_data b) = enc_algs algs @ rest"
  shows "read_algorithms b (length algs) pos =
           Some (map (\<lambda>(a, s). \<lparr>algoid = a, digestsize = s\<rparr>) algs, pos + 4 * length algs)"
  using assms(2)
proof (induction algs arbitrary: pos)
  case Nil
  then show ?case by simp
next
  case (Cons p algs)
  obtain a s where p: "p = (a, s)" by (cases p)
  note r1 = u16.get_encoded [OF assms(1), of pos "word_bytes a" "word_bytes s @ enc_algs algs @ rest"]
  note r2 = u16.get_encoded [OF assms(1), of "pos + 2" "word_bytes s" "enc_algs algs @ rest"]
  show ?case using Cons r1 r2
    by (simp add: p le_simps)
qed

lemma read_digests_enc:
  assumes "blob_wf b" "drop pos (blob_data b) = enc_digests ds @ rest"
    "pos \<le> blob_length b"
    "list_all (\<lambda>(a, d). length d = 32) ds" "i + length ds \<le> 2 ^ 27"
    "length done = 32 * i" "length todo = 32 * length ds"
  shows "read_digests b (length ds) i pos ids (done @ todo) =
           Some (pos + 34 * length ds, ids @ map fst ds, done @ concat (map snd ds))"
  using assms(2-)
proof (induction ds arbitrary: pos i ids "done" todo)
  case Nil
  then show ?case by simp
next
  case (Cons p ds)
  obtain a d where p: "p = (a, d)" by (cases p)
  have d: "length d = 32" using Cons.prems p by simp
  note r1 = u16.get_encoded [OF assms(1), of pos "word_bytes a" "d @ enc_digests ds @ rest"]
  have pos2: "pos + 2 \<le> blob_length b" using r1 Cons.prems p by simp
  note r2 = get_bytes_encoded [OF assms(1), of "pos + 2" d "enc_digests ds @ rest", OF _ pos2]
  have off: "i * 32 mod 2 ^ 32 = length done" using Cons.prems by simp
  have w: "mem_write (done @ take 32 todo @ drop 32 todo) (length done) d
           = Some (done @ d @ drop 32 todo)"
    using Cons.prems d by (intro mem_write_append) simp
  have IH: "read_digests b (length ds) (Suc i) (pos + 34) (ids @ [a]) ((done @ d) @ drop 32 todo)
      = Some (pos + 34 + 34 * length ds, (ids @ [a]) @ map fst ds, (done @ d) @ concat (map snd ds))"
    using Cons.prems r1 r2 d p by (intro Cons.IH) (simp_all add: ac_simps)
  have "word_of_bytes (word_bytes a) = a" by (simp add: le_simps)
  then show ?case using Cons.prems r1 r2 d p off w IH by (simp add: ac_simps)
qed


section \<open>Reading at a cursor\<close>

definition blob_at :: "binary_blob \<Rightarrow> nat \<Rightarrow> bytes \<Rightarrow> bool" where
  "blob_at b pos bs \<longleftrightarrow> blob_wf b \<and> drop pos (blob_data b) = bs \<and> pos \<le> blob_length b"

lemma blob_at_u8:
  assumes "blob_at b pos (word_bytes w @ rest)"
  shows "binary_blob_get_uint8 b pos = Some (w, pos + 1)" "blob_at b (pos + 1) rest"
  using u8.get_encoded [of b pos "word_bytes w" rest] assms
  by (simp_all add: blob_at_def le_simps)

lemma blob_at_u32:
  assumes "blob_at b pos (word_bytes w @ rest)"
  shows "binary_blob_get_uint32 b pos = Some (w, pos + 4)" "blob_at b (pos + 4) rest"
  using u32.get_encoded [of b pos "word_bytes w" rest] assms
  by (simp_all add: blob_at_def le_simps)

lemma blob_at_bytes:
  assumes "blob_at b pos (bs @ rest)" "length bs = n"
  shows "binary_blob_get_bytes b pos n = Some (bs, pos + n)" "blob_at b (pos + n) rest"
  using get_bytes_encoded [of b pos bs rest] assms by (simp_all add: blob_at_def)

lemma blob_at_bound: "blob_at b pos bs \<Longrightarrow> pos + length bs = blob_length b \<and> blob_length b < 2 ^ 64"
  by (auto simp: blob_at_def blob_wf_def)

lemma blob_at_read:
  "blob_at b pos (bs @ rest) \<Longrightarrow> length bs = n \<Longrightarrow> mem_read (blob_data b) pos n = Some bs"
  using blob_at_bound [of b pos "bs @ rest"]
  by (auto simp: blob_at_def mem_read_def blob_wf_def)

lemma blob_at_skip:
  assumes "blob_at b pos (bs @ rest)" "length bs = n"
  shows "size_add pos n = pos + n" "blob_at b (pos + n) rest"
  using assms blob_at_bound [of b pos "bs @ rest"] blob_at_bytes [OF assms] by auto

lemma process_digests_enc:
  assumes at: "blob_at b pos (enc_digests ds @ rest)"
    and ds: "list_all (\<lambda>(a, d). length d = 32) ds" "34 * length ds < 2 ^ 32"
    and k: "digest_count e = of_nat (length ds)" and m: "\<And>n. malloc_ok n"
  shows "process_digests malloc_ok b pos e = Some (True, pos + 34 * length ds,
           e\<lparr>digests := (if ds = [] then digests e else Some (concat (map snd ds))),
             alg_ids := (if ds = [] then alg_ids e else Some (map fst ds))\<rparr>)"
proof (cases "ds = []")
  case True
  then show ?thesis using k by (simp add: process_digests_def)
next
  case False
  have n: "unat (digest_count e) = length ds" using ds k by (simp add: of_nat_u32_inverse)
  have "digest_count e * 32 = of_nat (32 * length ds)" using k by simp
  then have sz: "unat (digest_count e * 32) = 32 * length ds"
    using ds(2) by (simp only: of_nat_u32_inverse)
  have pos: "digest_count e > 0" using n False by (simp add: word_greater_zero_iff) auto
  have "read_digests b (length ds) 0 pos [] ([] @ replicate (32 * length ds) 0)
      = Some (pos + 34 * length ds, [] @ map fst ds, [] @ concat (map snd ds))"
    using at ds by (intro read_digests_enc [where rest = rest]) (auto simp: blob_at_def)
  then show ?thesis using False pos m by (simp add: process_digests_def Let_def n sz)
qed

lemma process_event_data_enc:
  assumes at0: "blob_at b init (hdr @ word_bytes (of_nat (length data) :: u32) @ data @ rest)"
    and len: "length data \<le> 10240" "length hdr + 4 + length data < 2 ^ 32"
    and m: "\<And>n. malloc_ok n"
  shows "process_event_data malloc_ok b init (init + length hdr) e =
     Some (True, init + length hdr + 4 + length data,
       e\<lparr>event_size := of_nat (length hdr + 4 + length data),
         event := Some (hdr @ word_bytes (of_nat (length data) :: u32) @ data)\<rparr>)"
proof -
  let ?sz = "of_nat (length data) :: u32"
  let ?h = "hdr @ word_bytes ?sz" and ?t = "length hdr + 4 + length data"
  have at1: "blob_at b (init + length hdr) (word_bytes ?sz @ data @ rest)"
    using blob_at_bytes [OF at0] by simp
  note sz = blob_at_u32 [OF at1]
  have usz: "unat ?sz = length data" using len by (simp add: of_nat_u32_inverse)
  have nsz: "\<not> ?sz > 10240" using len usz by (simp add: word_less_nat_alt not_less)
  have h: "mem_read (blob_data b) init (length hdr + 4) = Some ?h"
    using blob_at_read [of b init ?h "data @ rest" "length hdr + 4"] at0 by simp
  have bnd: "init + ?t \<le> blob_length b" "blob_length b < 2 ^ 64"
    using blob_at_bound [OF at0] by auto
  have hs: "size_sub (init + length hdr + 4) init = length hdr + 4" using bnd by simp
  have tot: "(of_nat (size_add (length hdr + 4) (length data)) :: u32) = of_nat ?t"
    using bnd by (simp add: add.assoc)
  have ut: "unat (of_nat ?t :: u32) = ?t" using len by (simp only: of_nat_u32_inverse)
  then have t0: "(of_nat ?t :: u32) > 0" by (simp only: word_less_nat_alt) simp
  have w1: "mem_write (replicate ?t 0) 0 ?h = Some (?h @ replicate (length data) 0)"
    using mem_write_append [of ?h "replicate (length hdr + 4) 0" "[]" "replicate (length data) 0"]
    by (simp add: replicate_add [symmetric] add.commute)
  have w2: "mem_write (?h @ replicate (length data) 0) (length hdr + 4) data = Some (?h @ data)"
    using mem_write_append [of data "replicate (length data) 0" ?h "[]"] by simp
  have d: "binary_blob_get_bytes b (init + length hdr + 4) (length data)
      = Some (data, init + length hdr + 4 + length data)"
    using blob_at_bytes [OF sz(2)] by simp
  have z: "?sz > 0 \<longleftrightarrow> data \<noteq> []" using usz by (simp add: word_less_nat_alt)
  show ?thesis
    unfolding process_event_data_def
    using nsz h hs tot t0 ut w1 w2 d m z
    by (cases "data = []") (simp_all add: sz(1) usz Let_def del: of_nat_add size_add_exact)
qed

lemma process_no_action_enc:
  fixes algs :: "(u16 \<times> u16) list"
  defines "body \<equiv> word_bytes (of_nat (length algs) :: u32) @ enc_algs algs"
  assumes at0: "blob_at b init (hdr @ sha1 @ ident @ body @ word_bytes (of_nat (length vendor) :: u8)
                  @ vendor @ rest)"
    and len: "length hdr = 12" "length sha1 = 20" "length ident = 24" "length vendor < 256"
      "61 + 4 * length algs + length vendor < 2 ^ 32"
    and m: "\<And>n. malloc_ok n"
  shows "process_no_action malloc_ok b init (init + 12) e =
     Some (True, init + (61 + 4 * length algs + length vendor),
       e\<lparr>algorithms_number := of_nat (length algs),
         algorithms := Some (map (\<lambda>(a, s). \<lparr>algoid = a, digestsize = s\<rparr>) algs),
         event_size := of_nat (61 + 4 * length algs + length vendor),
         event := Some (hdr @ sha1 @ ident @ body @ word_bytes (of_nat (length vendor) :: u8) @ vendor)\<rparr>)"
proof -
  let ?n = "of_nat (length algs) :: u32" and ?v = "of_nat (length vendor) :: u8"
  let ?t = "61 + 4 * length algs + length vendor"
  have at1: "blob_at b (init + 12) (sha1 @ ident @ body @ word_bytes ?v @ vendor @ rest)"
    using blob_at_bytes(2) [OF at0] len by simp
  note s1 = blob_at_skip [OF at1 len(2)]
  note s2 = blob_at_bytes [OF s1(2) len(3)]
  have at3: "blob_at b (init + 12 + 20 + 24) (word_bytes ?n @ enc_algs algs @ word_bytes ?v @ vendor @ rest)"
    using s2(2) by (simp add: body_def)
  note s3 = blob_at_u32 [OF at3]
  have un: "unat ?n = length algs" using len by (simp add: of_nat_u32_inverse)
  have uv: "unat ?v = length vendor" using len by (simp add: unat_of_nat)
  have ra: "read_algorithms b (length algs) (init + 12 + 20 + 24 + 4) =
      Some (map (\<lambda>(a, s). \<lparr>algoid = a, digestsize = s\<rparr>) algs, init + 12 + 20 + 24 + 4 + 4 * length algs)"
    using s3(2) by (intro read_algorithms_enc) (auto simp: blob_at_def)
  have at4: "blob_at b (init + 12 + 20 + 24 + 4 + 4 * length algs) (word_bytes ?v @ vendor @ rest)"
    using blob_at_bytes(2) [OF s3(2)] by simp
  note s4 = blob_at_u8 [OF at4]
  note s5 = blob_at_skip(1) [OF s4(2) refl]
  have bnd: "init + ?t \<le> blob_length b" "blob_length b < 2 ^ 64"
    using blob_at_bound [OF at0] len by (auto simp: body_def)
  have ss: "size_sub (init + ?t) init = ?t"
    using bnd by simp
  have ut: "unat (of_nat ?t :: u32) = ?t" using len by (simp only: of_nat_u32_inverse)
  then have t0: "(of_nat ?t :: u32) > 0" by (simp only: word_less_nat_alt) simp
  have ev: "mem_read (blob_data b) init ?t
      = Some (hdr @ sha1 @ ident @ body @ word_bytes ?v @ vendor)"
    using blob_at_read [of b init "hdr @ sha1 @ ident @ body @ word_bytes ?v @ vendor" rest ?t] at0 len
    by (simp add: body_def)
  have pe: "init + 12 + 20 + 24 + 4 + 4 * length algs + 1 + length vendor = init + ?t" by simp
  show ?thesis
    unfolding process_no_action_def
    by (simp only: s1(1) s2(1) s3(1) un ra s4(1) uv s5 ss ut t0 ev m Let_def bind.bind_lunit
        prod.case if_True not_True_eq_False if_False simp_thms pe)
qed

theorem process_event_log_entry_enc:
  assumes ok: "ev_ok ev" and at: "blob_at b pos (enc_event ev @ rest)" and m: "\<And>n. malloc_ok n"
  shows "process_event_log_entry malloc_ok b pos =
     Some (True, pos + length (enc_event ev), entry_of ev)"
proof -
  have "length (enc_event ev) > 0" by (cases ev) auto
  then have lt: "\<not> blob_length b \<le> pos" using blob_at_bound [OF at] unfolding length_append by linarith
  show ?thesis
  proof (cases ev)
    case (Spec_Id reg k sha1 ident algs vendor)
    note at0 = at [unfolded Spec_Id enc_event.simps, simplified append_assoc]
    note s1 = blob_at_u32 [OF at0]
    note s2 = blob_at_u32 [OF s1(2)]
    note s3 = blob_at_u32 [OF s2(2)]
    have hd: "binary_blob_get_uint32 b pos = Some (reg, pos + 4)"
        "binary_blob_get_uint32 b (pos + 4) = Some (EV_NO_ACTION, pos + 8)"
        "binary_blob_get_uint32 b (pos + 8) = Some (k, pos + 12)"
      using s1(1) s2(1) s3(1) by (simp_all add: ac_simps)
    have "process_no_action malloc_ok b pos (pos + 12) e =
        Some (True, pos + (61 + 4 * length algs + length vendor),
       e\<lparr>algorithms_number := of_nat (length algs),
         algorithms := Some (map (\<lambda>(a, s). \<lparr>algoid = a, digestsize = s\<rparr>) algs),
         event_size := of_nat (61 + 4 * length algs + length vendor),
         event := Some (enc_event ev)\<rparr>)" for e
      using process_no_action_enc [of b pos "word_bytes reg @ word_bytes EV_NO_ACTION @ word_bytes k"
          sha1 ident algs vendor rest malloc_ok e] ok at m
      by (simp add: Spec_Id)
    then show ?thesis using ok lt
      by (simp add: process_event_log_entry_def hd Spec_Id zero_entry_def add.assoc)
  next
    case (Event reg ty ds data)
    note at0 = at [unfolded Event enc_event.simps, simplified append_assoc]
    note s1 = blob_at_u32 [OF at0]
    note s2 = blob_at_u32 [OF s1(2)]
    note s3 = blob_at_u32 [OF s2(2)]
    have hd: "binary_blob_get_uint32 b pos = Some (reg, pos + 4)"
        "binary_blob_get_uint32 b (pos + 4) = Some (ty, pos + 8)"
        "binary_blob_get_uint32 b (pos + 8) = Some (of_nat (length ds), pos + 12)"
      using s1(1) s2(1) s3(1) by (simp_all add: ac_simps)
    let ?h = "word_bytes reg @ word_bytes ty @ word_bytes (of_nat (length ds) :: u32) @ enc_digests ds"
    have ds: "list_all (\<lambda>(a, d). length d = 32) ds" using ok by (simp add: Event)
    have len: "length ?h = 12 + 34 * length ds" using ds by (simp add: length_enc_digests)
    have pd: "process_event_data malloc_ok b pos (pos + (12 + 34 * length ds)) e =
        Some (True, pos + length (enc_event ev),
          e\<lparr>event_size := of_nat (length (enc_event ev)), event := Some (enc_event ev)\<rparr>)" for e
      using process_event_data_enc [of b pos ?h data rest malloc_ok e] ok at m len ds
      by (simp add: Event length_enc_digests add.assoc)
    have dg: "process_digests malloc_ok b (pos + 12) e = Some (True, pos + (12 + 34 * length ds),
           e\<lparr>digests := (if ds = [] then digests e else Some (concat (map snd ds))),
             alg_ids := (if ds = [] then alg_ids e else Some (map fst ds))\<rparr>)"
      if "digest_count e = of_nat (length ds)" for e
      using process_digests_enc [of b "pos + 12" ds "word_bytes (of_nat (length data) :: u32) @ data @ rest"]
        s3(2) ds that m ok
      by (simp add: Event length_enc_digests ac_simps)
    have no: "ty \<noteq> EV_NO_ACTION" "\<not> (reg = EVENT_LOG_MAGIC \<and> ty = EVENT_LOG_MAGIC)"
      using ok by (simp_all add: Event)
    show ?thesis using lt
      by (simp add: process_event_log_entry_def hd Event dg pd no zero_entry_def Let_def
          split del: if_split) simp
  qed
qed



section \<open>Whole logs\<close>

text \<open>The encoding of a log: its events, then nothing or the terminating marker.\<close>

definition log_end :: "bytes \<Rightarrow> bool" where
  "log_end t \<longleftrightarrow> t = [] \<or> (\<exists>r. t = word_bytes EVENT_LOG_MAGIC @ word_bytes EVENT_LOG_MAGIC @ r)"

definition enc_log :: "tcg_event list \<Rightarrow> bytes" where
  "enc_log evs = concat (map enc_event evs)"

lemma enc_log_simps [simp]: "enc_log [] = []" "enc_log (e # evs) = enc_event e @ enc_log evs"
  by (simp_all add: enc_log_def)

lemma enc_event_nonempty [simp]: "enc_event e \<noteq> []"
proof -
  have "length (enc_event e) > 0" by (cases e) auto
  then show ?thesis by auto
qed

lemma process_at_end:
  assumes at: "blob_at b pos t" and t: "log_end t" and lt: "pos < blob_length b"
  shows "\<exists>pos' e. process_event_log_entry malloc_ok b pos = Some (False, pos', e)"
proof -
  have "t \<noteq> []" using at lt blob_at_bound [OF at] by auto
  then obtain r where r: "blob_at b pos (word_bytes EVENT_LOG_MAGIC @ word_bytes EVENT_LOG_MAGIC @ r)"
    using at t by (auto simp: log_end_def)
  note s1 = blob_at_u32 [OF r]
  note s2 = blob_at_u32 [OF s1(2)]
  show ?thesis using lt by (simp add: process_event_log_entry_def s1(1) s2(1))
qed

lemma log_entries_enc_log:
  assumes "blob_at b pos (enc_log evs @ t)" "log_end t" "list_all ev_ok evs" "\<And>n. malloc_ok n"
  shows "log_entries malloc_ok b pos = Some (map entry_of evs)"
  using assms(1,3)
proof (induction evs arbitrary: pos)
  case Nil
  show ?case
  proof (cases "pos < blob_length b")
    case True
    then show ?thesis using process_at_end [of b pos t malloc_ok] Nil assms(2)
      by (subst log_entries.simps) auto
  next
    case False
    then show ?thesis by (subst log_entries.simps) simp
  qed
next
  case (Cons e evs)
  have at: "blob_at b pos (enc_event e @ enc_log evs @ t)" using Cons.prems by simp
  note st = process_event_log_entry_enc [OF _ at assms(4)]
  have "pos < blob_length b" using blob_at_bound [OF at] by (cases "enc_event e") auto
  moreover have "log_entries malloc_ok b (pos + length (enc_event e)) = Some (map entry_of evs)"
    using Cons.prems blob_at_bytes(2) [OF at refl] by (intro Cons.IH) auto
  ultimately show ?case using Cons.prems st by (subst log_entries.simps) simp
qed



lemma log_entries_enc_prefix:
  assumes "blob_at b pos (enc_log evs @ rest)" "list_all ev_ok evs" "\<And>n. malloc_ok n"
  shows "log_entries malloc_ok b pos =
      map_option ((@) (map entry_of evs)) (log_entries malloc_ok b (pos + length (enc_log evs)))"
  using assms(1,2)
proof (induction evs arbitrary: pos)
  case Nil
  then show ?case by (simp add: option.map_ident)
next
  case (Cons e evs)
  have at: "blob_at b pos (enc_event e @ enc_log evs @ rest)" using Cons.prems by simp
  note st = process_event_log_entry_enc [OF _ at assms(3)]
  have "pos < blob_length b" using blob_at_bound [OF at] by (cases "enc_event e") auto
  moreover have "log_entries malloc_ok b (pos + length (enc_event e)) = map_option ((@) (map entry_of evs))
      (log_entries malloc_ok b (pos + length (enc_event e) + length (enc_log evs)))"
    using Cons.prems blob_at_bytes(2) [OF at refl] by (intro Cons.IH) auto
  ultimately show ?case using Cons.prems st
    by (subst log_entries.simps) (auto simp: add.assoc split: bind_split)
qed


section \<open>Bytes that encode no log\<close>

text \<open>
  A digest count of \<open>2 ^ 27\<close> or more makes the 32-bit allocation size wrap around: the
  digest loop then writes past the buffer.
\<close>

lemma read_digests_overflow:
  assumes "blob_wf b" "blob_length b + 34 < 2 ^ 64" "j < 2 ^ 27"
  shows "pos \<le> blob_length b \<Longrightarrow> length buf = 32 * j \<Longrightarrow> i \<le> j \<Longrightarrow> j < i + n \<Longrightarrow>
    read_digests b n i pos ids buf = None"
proof (induction n arbitrary: i pos ids buf)
  case 0
  then show ?case by simp
next
  case (Suc n)
  obtain a p1 where a: "binary_blob_get_uint16 b pos = Some (a, p1)" "p1 \<le> blob_length b"
    by (rule u16.get_mono [of b pos]) (use assms Suc.prems in auto)
  obtain d p2 where d: "binary_blob_get_bytes b p1 32 = Some (d, p2)" "length d = 32"
      "p2 \<le> blob_length b"
    by (rule get_bytes_cursor [of b p1 32]) (use assms a(2) in \<open>auto split: if_splits\<close>)
  have off: "i * 32 mod 2 ^ 32 = 32 * i" using Suc.prems assms(3) by simp
  show ?case
  proof (cases "i = j")
    case True
    then have "mem_write buf (32 * i) d = None" using Suc.prems d by (simp add: mem_simps)
    then show ?thesis using off by (simp add: a(1) d(1))
  next
    case False
    have "read_digests b n (Suc i) p2 (ids @ [a]) buf' = None" if "length buf' = length buf" for buf'
      using Suc.prems False d that by (intro Suc.IH) auto
    then show ?thesis using off mem_write_SomeD [of buf "32 * i" d]
      by (cases "mem_write buf (32 * i) d") (simp_all add: a(1) d(1))
  qed
qed

lemma process_digests_overflow:
  assumes "blob_wf b" "blob_length b + 34 < 2 ^ 64" "pos \<le> blob_length b"
    "2 ^ 27 \<le> unat (digest_count e)" "\<And>n. malloc_ok n"
  shows "process_digests malloc_ok b pos e = None"
proof -
  let ?k = "unat (digest_count e)" and ?d = "unat (digest_count e * 32)"
  have k: "?k < 2 ^ 32" using unat_bound [of "digest_count e"] by simp
  have "?d = ?k * 32 mod 2 ^ 32" by (simp add: unat_word_ariths)
  also have "\<dots> = 32 * (?k mod 2 ^ 27)"
    using mult_mod_right [of 32 ?k "2 ^ 27"] by (simp add: mult.commute)
  finally have d: "?d = 32 * (?k mod 2 ^ 27)" .
  have "read_digests b ?k 0 pos [] (replicate ?d 0) = None"
    using assms(1-4) d by (intro read_digests_overflow [where j = "?k mod 2 ^ 27"])
      (auto intro: le_less_trans [OF mod_less_divisor [THEN less_imp_le]] less_le_trans)
  moreover have "digest_count e > 0" using assms(4) by (auto simp: word_greater_zero_iff)
  ultimately show ?thesis using assms(5) by (simp add: process_digests_def Let_def)
qed

text \<open>One to three bytes at the end of the log: an empty entry and a cursor that stays.\<close>

lemma process_trailing:
  assumes "blob_wf b" "pos < blob_length b" "blob_length b < pos + 4" "pos + 4 < 2 ^ 64"
  shows "process_event_log_entry malloc_ok b pos = Some (True, pos, zero_entry)"
proof -
  have g: "binary_blob_get_uint32 b pos = Some (0, pos)"
    using assms u32.get_short [of b pos] by (simp add: check_boundary_iff)
  have "size_sub pos pos = 0" using assms by simp
  then show ?thesis using assms
    by (simp add: process_event_log_entry_def g process_digests_def process_event_data_def
        zero_entry_def size_add_def Let_def rem_of_register_def)
qed

lemma log_entries_trailing:
  assumes "blob_wf b" "pos < blob_length b" "blob_length b < pos + 4" "pos + 4 < 2 ^ 64"
  shows "log_entries malloc_ok b pos = None"
proof -
  let ?stuck = "\<lambda>b pos. blob_wf b \<and> pos < blob_length b \<and> blob_length b < pos + 4 \<and> pos + 4 < 2 ^ 64"
  have "\<not> ?stuck b pos" if "log_entries malloc_ok b pos = Some es" for es
  proof (rule log_entries.raw_induct [where P = "\<lambda>mo b pos es. \<not> ?stuck b pos", OF _ that])
    fix f :: "(nat \<Rightarrow> bool) \<Rightarrow> binary_blob \<Rightarrow> nat \<Rightarrow> event_log_entry list option"
      and mo :: "nat \<Rightarrow> bool" and blob :: binary_blob and p ys
    assume IH: "\<And>mo blob p ys. f mo blob p = Some ys \<Longrightarrow> \<not> ?stuck blob p"
      and eq: "(if p < blob_length blob then
        Option.bind (process_event_log_entry mo blob p) (\<lambda>(ok, pos', e).
          if \<not> ok then Some []
          else Option.bind (f mo blob pos') (\<lambda>es. Some (e # es)))
        else Some []) = Some ys"
    show "\<not> ?stuck blob p"
    proof
      assume c: "?stuck blob p"
      then have "process_event_log_entry mo blob p = Some (True, p, zero_entry)"
        by (intro process_trailing) auto
      then obtain zs where "f mo blob p = Some zs"
        using eq c by (auto split: bind_splits)
      from IH [OF this] c show False by blast
    qed
  qed
  then show ?thesis using assms by (cases "log_entries malloc_ok b pos") blast+
qed


section \<open>Memory safety and progress\<close>

text \<open>
  What the consumers of an ordinary entry rely on: the digest buffer holds
  \<open>digest_count\<close> digests and the event buffer \<open>event_size\<close> bytes.
\<close>

definition entry_wf :: "event_log_entry \<Rightarrow> bool" where
  "entry_wf e \<longleftrightarrow>
     (digest_count e > 0 \<longrightarrow>
        (\<exists>d ids. digests e = Some d \<and> length d = 32 * unat (digest_count e) \<and>
                 alg_ids e = Some ids \<and> length ids = unat (digest_count e))) \<and>
     (\<forall>bs. event e = Some bs \<longrightarrow> length bs = unat (event_size e))"

lemma read_digests_safe:
  assumes "blob_wf b" "blob_length b + 34 < 2 ^ 64"
  shows "pos \<le> blob_length b \<Longrightarrow> length buf = 32 * (i + n) \<Longrightarrow> i + n \<le> 2 ^ 27 \<Longrightarrow>
    \<exists>pos' ids' buf'. read_digests b n i pos ids buf = Some (pos', ids', buf') \<and> pos \<le> pos' \<and>
      pos' \<le> blob_length b \<and> length buf' = length buf \<and> length ids' = length ids + n"
proof (induction n arbitrary: i pos ids buf)
  case 0
  then show ?case by simp
next
  case (Suc n)
  obtain a p1 where a: "binary_blob_get_uint16 b pos = Some (a, p1)" "pos \<le> p1" "p1 \<le> blob_length b"
    by (rule u16.get_mono [of b pos]) (use assms Suc.prems in auto)
  obtain d p2 where d: "binary_blob_get_bytes b p1 32 = Some (d, p2)" "length d = 32"
      "p1 \<le> p2" "p2 \<le> blob_length b"
    by (rule get_bytes_cursor [of b p1 32]) (use assms a in \<open>auto split: if_splits\<close>)
  have off: "i * 32 mod 2 ^ 32 = 32 * i" using Suc.prems by simp
  obtain buf1 where w: "mem_write buf (32 * i) d = Some buf1" "length buf1 = length buf"
    using Suc.prems d by (auto simp: mem_write_def)
  have "\<exists>pos' ids' buf'. read_digests b n (Suc i) p2 (ids @ [a]) buf1 = Some (pos', ids', buf') \<and>
      p2 \<le> pos' \<and> pos' \<le> blob_length b \<and> length buf' = length buf1 \<and>
      length ids' = length (ids @ [a]) + n"
    using Suc.prems d w by (intro Suc.IH) auto
  then show ?case using a d w off by auto
qed

lemma process_digests_safe:
  assumes "blob_wf b" "blob_length b + 34 < 2 ^ 64" "pos \<le> blob_length b"
    "unat (digest_count e) < 2 ^ 27" "event e = None"
  shows "\<exists>ok pos' e'. process_digests malloc_ok b pos e = Some (ok, pos', e') \<and> pos \<le> pos' \<and>
    pos' \<le> blob_length b \<and> event e' = None \<and> digest_count e' = digest_count e \<and>
    (ok \<longrightarrow> entry_wf e')"
proof (cases "digest_count e > 0 \<and> malloc_ok (unat (digest_count e * 32)) \<and>
    malloc_ok (unat (digest_count e) * 2)")
  case True
  have "unat (digest_count e * 32) = 32 * unat (digest_count e)"
    using assms(4) by (simp add: unat_word_ariths)
  moreover have "\<exists>pos' ids' buf'. read_digests b (unat (digest_count e)) 0 pos []
      (replicate (32 * unat (digest_count e)) 0) = Some (pos', ids', buf') \<and> pos \<le> pos' \<and>
      pos' \<le> blob_length b \<and> length buf' = length (replicate (32 * unat (digest_count e)) (0::u8)) \<and>
      length ids' = length ([]::u16 list) + unat (digest_count e)"
    using assms by (intro read_digests_safe) auto
  ultimately show ?thesis using True assms
    by (auto simp: process_digests_def Let_def entry_wf_def)
next
  case False
  then show ?thesis using assms
    by (auto simp: process_digests_def Let_def entry_wf_def)
qed

lemma process_event_data_safe:
  assumes "blob_wf b" "blob_length b + 10240 < 2 ^ 32" "init \<le> pos" "pos \<le> blob_length b"
    "entry_wf e" "event e = None"
  shows "\<exists>ok pos' e'. process_event_data malloc_ok b init pos e = Some (ok, pos', e') \<and>
    pos \<le> pos' \<and> pos' \<le> blob_length b \<and> (ok \<longrightarrow> entry_wf e')"
proof -
  obtain sz p1 where sz: "binary_blob_get_uint32 b pos = Some (sz, p1)" "pos \<le> p1" "p1 \<le> blob_length b"
    by (rule u32.get_mono [of b pos]) (use assms in auto)
  let ?hdr = "p1 - init" and ?t = "p1 - init + unat sz"
  have hdr: "size_sub p1 init = ?hdr" using assms sz by simp
  show ?thesis
  proof (cases "sz > 10240")
    case True
    then show ?thesis using sz assms
      by (auto simp: process_event_data_def entry_wf_def word_less_nat_alt)
  next
    case False
    then have usz: "unat sz \<le> 10240" by (simp add: word_less_nat_alt)
    have "size_add ?hdr (unat sz) = ?t" using usz sz assms by simp
    then have tot: "unat (of_nat (size_add ?hdr (unat sz)) :: u32) = ?t"
      using of_nat_u32_inverse [of ?t] usz sz assms by simp
    let ?tw = "of_nat (size_add ?hdr (unat sz)) :: u32"
    have z: "?tw > 0 \<longleftrightarrow> ?t > 0" using tot by (simp only: word_less_nat_alt) simp
    obtain h where h: "mem_read (blob_data b) init ?hdr = Some h" "length h = ?hdr"
      using assms sz by (auto simp: mem_read_def blob_wf_def)
    obtain buf where w: "mem_write (replicate ?t 0) 0 h = Some buf" "length buf = ?t"
      using h by (auto simp: mem_write_def)
    obtain d p2 where d: "binary_blob_get_bytes b p1 (unat sz) = Some (d, p2)" "length d = unat sz"
        "p1 \<le> p2" "p2 \<le> blob_length b"
      by (rule get_bytes_cursor [of b p1 "unat sz"]) (use assms sz usz in \<open>auto split: if_splits\<close>)
    obtain buf2 where w2: "mem_write buf ?hdr d = Some buf2" "length buf2 = ?t"
      using w d by (auto simp: mem_write_def)
    show ?thesis
      unfolding process_event_data_def sz(1) bind.bind_lunit prod.case Let_def hdr tot h(1) w(1)
      using False sz assms tot z w d w2
      by (auto simp: entry_wf_def simp del: size_add_exact)
  qed
qed

theorem process_entry_safe:
  fixes reg ty k :: u32
  assumes wf: "blob_wf b" and len: "blob_length b + 10240 < 2 ^ 32"
    and at: "blob_at b pos (word_bytes reg @ word_bytes ty @ word_bytes k @ rest)"
    and ty: "ty \<noteq> EV_NO_ACTION" and k: "unat k < 2 ^ 27"
  shows "\<exists>ok pos' e. process_event_log_entry malloc_ok b pos = Some (ok, pos', e) \<and>
           pos + 8 \<le> pos' \<and> pos' \<le> blob_length b \<and> (ok \<longrightarrow> entry_wf e)"
proof -
  note s1 = blob_at_u32 [OF at]
  note s2 = blob_at_u32 [OF s1(2)]
  note s3 = blob_at_u32 [OF s2(2)]
  have bnd: "pos + 12 \<le> blob_length b" using blob_at_bound [OF at] by simp
  have p: "pos + 4 + 4 + 4 = pos + 12" by simp
  let ?e = "zero_entry\<lparr>event_type := ty, rem_index := rem_of_register reg, digest_count := k\<rparr>"
  obtain ok p1 e1 where d: "process_digests malloc_ok b (pos + 12) ?e = Some (ok, p1, e1)"
      "pos + 12 \<le> p1" "p1 \<le> blob_length b" "event e1 = None" "ok \<Longrightarrow> entry_wf e1"
    using process_digests_safe [OF wf, of "pos + 12" ?e malloc_ok] bnd k len
    by (auto simp: zero_entry_def)
  show ?thesis
  proof (cases ok)
    case True
    obtain ok2 p2 e2 where "process_event_data malloc_ok b pos p1 e1 = Some (ok2, p2, e2)"
        "p1 \<le> p2" "p2 \<le> blob_length b" "ok2 \<longrightarrow> entry_wf e2"
      using process_event_data_safe [OF wf len _ d(3) d(5) [OF True] d(4), of pos malloc_ok] d(2) by auto
    then show ?thesis using d True bnd ty
      unfolding process_event_log_entry_def Let_def s1(1) s2(1) s3(1) bind.bind_lunit prod.case p
      by auto
  next
    case False
    then show ?thesis using d bnd ty
      unfolding process_event_log_entry_def Let_def s1(1) s2(1) s3(1) bind.bind_lunit prod.case p
      by auto
  qed
qed


text \<open>The digest count that overflows, at the level of a whole entry.\<close>

lemma process_entry_overflow:
  fixes reg ty k :: u32
  assumes wf: "blob_wf b" and len: "blob_length b + 34 < 2 ^ 64"
    and at: "blob_at b pos (word_bytes reg @ word_bytes ty @ word_bytes k @ rest)"
    and ty: "ty \<noteq> EV_NO_ACTION" "\<not> (reg = EVENT_LOG_MAGIC \<and> ty = EVENT_LOG_MAGIC)"
    and k: "2 ^ 27 \<le> unat k" and m: "\<And>n. malloc_ok n"
  shows "process_event_log_entry malloc_ok b pos = None"
proof -
  note s1 = blob_at_u32 [OF at]
  note s2 = blob_at_u32 [OF s1(2)]
  note s3 = blob_at_u32 [OF s2(2)]
  have bnd: "pos + 12 \<le> blob_length b" using blob_at_bound [OF at] by simp
  have p: "pos + 4 + 4 + 4 = pos + 12" by simp
  have "process_digests malloc_ok b (pos + 12)
      (zero_entry\<lparr>event_type := ty, rem_index := rem_of_register reg, digest_count := k\<rparr>) = None"
    using wf len bnd k m by (intro process_digests_overflow) auto
  then show ?thesis using bnd ty
    unfolding process_event_log_entry_def Let_def s1(1) s2(1) s3(1) bind.bind_lunit prod.case p
    by auto
qed


section \<open>Printing a log\<close>

text \<open>
  \<open>event_log_process\<close> prints as many digest bytes as the first algorithm of an entry has;
  the entry holds 32 bytes per digest, whatever the algorithm, and no digest at all for an
  \<open>EV_NO_ACTION\<close> entry.
\<close>

fun printable :: "tcg_event \<Rightarrow> bool" where
  "printable (Spec_Id reg k sha1 ident algs vendor) = (k = 0)"
| "printable (Event reg ty ds data) =
     (ds \<noteq> [] \<longrightarrow> get_digest_size (fst (hd ds)) \<le> 32 * int (length ds))"

lemma print_entry_of:
  assumes "ev_ok ev"
  shows "print_entry (entry_of ev) = (if printable ev then Some () else None)"
proof (cases ev)
  case (Spec_Id reg k sha1 ident algs vendor)
  have "unat (of_nat (length algs) :: u32) = length algs"
    using assms by (intro of_nat_u32_inverse) (simp add: Spec_Id)
  then show ?thesis
    by (simp add: Spec_Id print_entry_def zero_entry_def mem_read_def word_greater_zero_iff)
next
  case (Event reg ty ds data)
  have ds: "list_all (\<lambda>(a, d). length d = 32) ds" using assms by (simp add: Event)
  have u: "unat (of_nat (length ds) :: u32) = length ds"
    using assms ds by (intro of_nat_u32_inverse) (simp add: Event length_enc_digests)
  have z: "(of_nat (length ds) :: u32) > 0 \<longleftrightarrow> ds \<noteq> []"
    by (simp add: word_less_nat_alt u)
  show ?thesis
  proof (cases "ds = []")
    case True
    then show ?thesis using assms by (simp add: Event print_entry_def zero_entry_def)
  next
    case False
    then have hd: "mem_at (map fst ds) 0 = Some (fst (hd ds))"
      by (simp add: mem_at_def hd_conv_nth)
    let ?n = "get_digest_size (fst (hd ds))"
    have rd: "mem_read (concat (map snd ds)) 0 (nat ?n) = None \<longleftrightarrow> \<not> ?n \<le> 32 * int (length ds)"
      if "?n > 0"
      using that length_concat_digests [OF ds] by (auto simp: mem_read_def)
    show ?thesis using False assms hd rd z
      by (cases "?n > 0"; cases "mem_read (concat (map snd ds)) 0 (nat ?n)")
        (simp_all add: Event print_entry_def zero_entry_def)
  qed
qed

lemma event_log_process_loop_enc:
  assumes "blob_at b pos (enc_log evs @ t)" "log_end t" "list_all ev_ok evs" "\<And>n. malloc_ok n"
  shows "event_log_process_loop malloc_ok b pos c =
           (if list_all printable evs then Some (c + length evs) else None)"
  using assms(1,3)
proof (induction evs arbitrary: pos c)
  case Nil
  show ?case
  proof (cases "pos < blob_length b")
    case True
    then show ?thesis using process_at_end [of b pos t malloc_ok] Nil assms(2)
      by (subst event_log_process_loop.simps) auto
  next
    case False
    then show ?thesis by (subst event_log_process_loop.simps) simp
  qed
next
  case (Cons e evs)
  have at: "blob_at b pos (enc_event e @ enc_log evs @ t)" using Cons.prems by simp
  note st = process_event_log_entry_enc [OF _ at assms(4)]
  have "pos < blob_length b" using blob_at_bound [OF at] by (cases "enc_event e") auto
  moreover have "event_log_process_loop malloc_ok b (pos + length (enc_event e)) c' =
      (if list_all printable evs then Some (c' + length evs) else None)" for c'
    using Cons.prems blob_at_bytes(2) [OF at refl] by (intro Cons.IH) auto
  ultimately show ?case using Cons.prems st
    by (subst event_log_process_loop.simps) (simp add: print_entry_of)
qed

end
