(* ===== verification/Firmware_State.thy ===== *)
theory Firmware_State
  imports Event_Log
begin

text \<open>
  The firmware state of a log, \<open>attestation/samples/src/firmware_state.c\<close>: the hashes of the
  EFI images, of \<open>grub.cfg\<close>, of the kernel and of the initrd, collected from the events in
  two walks of the log. Pointers of the C structures are options; \<open>malloc_ok\<close> decides each
  allocation. The strings searched for are compared byte by byte with \<open>memcmp\<close>, whose reads
  are bounds-checked.
\<close>

section \<open>State\<close>

record efi_image =
  image_hash :: "bytes option"
  image_hash_size :: u32

record efi_state =
  images :: "efi_image list option"
  image_count :: u32

record grub_state =
  config_hash :: "bytes option"
  config_hash_size :: u32

record linux_kernel_state =
  kernel_hash :: "bytes option"
  kernel_hash_size :: u32
  initrd_hash :: "bytes option"
  initrd_hash_size :: u32

record firmware_log_state =
  fw_efi :: "efi_state option"
  fw_grub :: "grub_state option"
  fw_kernel :: "linux_kernel_state option"
  hash_algo :: u16

abbreviation (input) grub_cfg_name :: bytes where "grub_cfg_name \<equiv> bytes_of_string ''grub.cfg''"
abbreviation (input) kernel_path :: bytes where "kernel_path \<equiv> bytes_of_string ''/vmlinuz-''"
abbreviation (input) initrd_path :: bytes where "initrd_path \<equiv> bytes_of_string ''/initramfs-''"
abbreviation (input) grub_cmd :: bytes where "grub_cmd \<equiv> bytes_of_string ''grub_cmd:''"


section \<open>Searching an event\<close>

text \<open>\<open>n\<close> rounds of \<open>if (memcmp (data + i, pat, strlen (pat)) == 0) return data + i\<close>.\<close>

fun memcmp_scan :: "bytes \<Rightarrow> bytes \<Rightarrow> nat \<Rightarrow> nat \<Rightarrow> nat option option" where
  "memcmp_scan data pat 0 i = Some None"
| "memcmp_scan data pat (Suc n) i =
     do {
       w \<leftarrow> mem_read data i (length pat);
       if w = pat then Some (Some i) else memcmp_scan data pat n (Suc i)
     }"

definition find_substring :: "bytes \<Rightarrow> nat \<Rightarrow> bytes \<Rightarrow> nat option option" where
  "find_substring data data_len substr =
     (if data_len < length substr then Some None
      else memcmp_scan data substr (data_len - length substr + 1) 0)"


section \<open>Extraction\<close>

definition extract_efi_image ::
  "(nat \<Rightarrow> bool) \<Rightarrow> event_log_entry \<Rightarrow> efi_image \<Rightarrow> (bool \<times> efi_image) option"
where
  "extract_efi_image malloc_ok entry img =
     (case digests entry of
        None \<Rightarrow> Some (False, img)
      | Some d \<Rightarrow>
          if digest_count entry = 0 then Some (False, img)
          else
            let img = img\<lparr>image_hash_size := 32\<rparr> in
            if \<not> malloc_ok SHA256_DIGEST_LENGTH then Some (False, img\<lparr>image_hash := None\<rparr>)
            else do {
              h \<leftarrow> mem_read d 0 SHA256_DIGEST_LENGTH;
              Some (True, img\<lparr>image_hash := Some h\<rparr>)
            })"

definition extract_grub_info ::
  "(nat \<Rightarrow> bool) \<Rightarrow> event_log_entry \<Rightarrow> grub_state \<Rightarrow> (bool \<times> grub_state) option"
where
  "extract_grub_info malloc_ok entry grub =
     (case event entry of
        None \<Rightarrow> Some (False, grub)
      | Some ev \<Rightarrow>
          if event_size entry = 0 then Some (False, grub)
          else do {
            found \<leftarrow> memcmp_scan ev grub_cfg_name
                       (size_sub (unat (event_size entry)) (length grub_cfg_name)) 0;
            if found = None then Some (False, grub)
            else (case digests entry of
                None \<Rightarrow> Some (False, grub)
              | Some d \<Rightarrow>
                  if digest_count entry = 0 then Some (False, grub)
                  else
                    let grub = grub\<lparr>config_hash_size := 32\<rparr> in
                    if \<not> malloc_ok SHA256_DIGEST_LENGTH then Some (False, grub\<lparr>config_hash := None\<rparr>)
                    else do {
                      h \<leftarrow> mem_read d 0 SHA256_DIGEST_LENGTH;
                      Some (True, grub\<lparr>config_hash := Some h\<rparr>)
                    })
          })"

text \<open>The test \<open>find_substring (path) && !find_substring ("grub_cmd:")\<close>.\<close>

definition names_file :: "event_log_entry \<Rightarrow> bytes \<Rightarrow> bytes \<Rightarrow> bool option" where
  "names_file entry ev path =
     do {
       p \<leftarrow> find_substring ev (unat (event_size entry)) path;
       if p = None then Some False
       else do {
         c \<leftarrow> find_substring ev (unat (event_size entry)) grub_cmd;
         Some (c = None)
       }
     }"

record extract_state =
  xs_fw :: firmware_log_state
  current_efi_index :: nat
  has_grub_info :: bool
  has_kernel_info :: bool
  has_initrd_info :: bool

definition extract_kernel ::
  "(nat \<Rightarrow> bool) \<Rightarrow> event_log_entry \<Rightarrow> bytes \<Rightarrow> extract_state \<Rightarrow> extract_state option"
where
  "extract_kernel malloc_ok entry ev s =
     do {
       named \<leftarrow> names_file entry ev kernel_path;
       case (named, digests entry) of
         (True, Some d) \<Rightarrow>
           if digest_count entry = 0 then Some s
           else do {
             k \<leftarrow> fw_kernel (xs_fw s);
             let k = k\<lparr>kernel_hash_size := 32\<rparr>;
             if \<not> malloc_ok SHA256_DIGEST_LENGTH
             then Some (s\<lparr>xs_fw := (xs_fw s)\<lparr>fw_kernel := Some (k\<lparr>kernel_hash := None\<rparr>)\<rparr>\<rparr>)
             else do {
               h \<leftarrow> mem_read d 0 SHA256_DIGEST_LENGTH;
               Some (s\<lparr>xs_fw := (xs_fw s)\<lparr>fw_kernel := Some (k\<lparr>kernel_hash := Some h\<rparr>)\<rparr>,
                       has_kernel_info := True\<rparr>)
             }
           }
       | _ \<Rightarrow> Some s
     }"

definition extract_initrd ::
  "(nat \<Rightarrow> bool) \<Rightarrow> event_log_entry \<Rightarrow> bytes \<Rightarrow> extract_state \<Rightarrow> extract_state option"
where
  "extract_initrd malloc_ok entry ev s =
     do {
       named \<leftarrow> names_file entry ev initrd_path;
       case (named, digests entry) of
         (True, Some d) \<Rightarrow>
           if digest_count entry = 0 then Some s
           else do {
             k \<leftarrow> fw_kernel (xs_fw s);
             let k = k\<lparr>initrd_hash_size := 32\<rparr>;
             if \<not> malloc_ok SHA256_DIGEST_LENGTH
             then Some (s\<lparr>xs_fw := (xs_fw s)\<lparr>fw_kernel := Some (k\<lparr>initrd_hash := None\<rparr>)\<rparr>\<rparr>)
             else do {
               h \<leftarrow> mem_read d 0 SHA256_DIGEST_LENGTH;
               Some (s\<lparr>xs_fw := (xs_fw s)\<lparr>fw_kernel := Some (k\<lparr>initrd_hash := Some h\<rparr>)\<rparr>,
                       has_initrd_info := True\<rparr>)
             }
           }
       | _ \<Rightarrow> Some s
     }"

text \<open>The body of the second walk.\<close>

definition extract_step ::
  "(nat \<Rightarrow> bool) \<Rightarrow> event_log_entry \<Rightarrow> extract_state \<Rightarrow> extract_state option"
where
  "extract_step malloc_ok entry s =
     (if event_type entry = EV_EFI_BOOT_SERVICES_APPLICATION then
        do {
          efi \<leftarrow> fw_efi (xs_fw s);
          imgs \<leftarrow> images efi;
          img \<leftarrow> mem_at imgs (current_efi_index s);
          (ok, img) \<leftarrow> extract_efi_image malloc_ok entry img;
          let efi = efi\<lparr>images := Some (imgs[current_efi_index s := img])\<rparr>;
          Some (s\<lparr>xs_fw := (xs_fw s)\<lparr>fw_efi := Some efi\<rparr>,
                  current_efi_index := (if ok then Suc (current_efi_index s) else current_efi_index s)\<rparr>)
        }
      else if event_type entry = EV_IPL \<and> \<not> has_grub_info s then
        do {
          grub \<leftarrow> fw_grub (xs_fw s);
          (ok, grub) \<leftarrow> extract_grub_info malloc_ok entry grub;
          Some (s\<lparr>xs_fw := (xs_fw s)\<lparr>fw_grub := Some grub\<rparr>,
                  has_grub_info := (ok \<or> has_grub_info s)\<rparr>)
        }
      else if event_type entry = EV_IPL then
        (case event entry of
           None \<Rightarrow> Some s
         | Some ev \<Rightarrow>
             if \<not> has_kernel_info s \<and> event_size entry > 0 then extract_kernel malloc_ok entry ev s
             else if \<not> has_initrd_info s \<and> event_size entry > 0 then extract_initrd malloc_ok entry ev s
             else Some s)
      else Some s)"

definition count_efi :: "event_log_entry \<Rightarrow> u32 \<Rightarrow> u32 option" where
  "count_efi entry n =
     Some (if event_type entry = EV_EFI_BOOT_SERVICES_APPLICATION then n + 1 else n)"

definition firmware_log_state_create :: "(nat \<Rightarrow> bool) \<Rightarrow> firmware_log_state option" where
  "firmware_log_state_create malloc_ok =
     (if malloc_ok 40 \<and> malloc_ok 16 \<and> malloc_ok 32 then
        Some \<lparr>fw_efi = Some \<lparr>images = None, image_count = 0\<rparr>,
              fw_grub = Some \<lparr>config_hash = None, config_hash_size = 0\<rparr>,
              fw_kernel = Some \<lparr>kernel_hash = None, kernel_hash_size = 0,
                                initrd_hash = None, initrd_hash_size = 0\<rparr>,
              hash_algo = 0\<rparr>
      else None)"

definition firmware_log_state_extract ::
  "(nat \<Rightarrow> bool) \<Rightarrow> binary_blob \<Rightarrow> firmware_log_state \<Rightarrow> (bool \<times> firmware_log_state) option"
where
  "firmware_log_state_extract malloc_ok blob state =
     do {
       n \<leftarrow> log_fold malloc_ok blob count_efi 0 0;
       efi \<leftarrow> fw_efi state;
       if n > 0 \<and> \<not> malloc_ok (unat n * 24)
       then Some (False, state\<lparr>fw_efi := Some (efi\<lparr>images := None\<rparr>)\<rparr>)
       else do {
         let efi = (if n > 0
                    then efi\<lparr>images := Some (replicate (unat n) \<lparr>image_hash = None, image_hash_size = 0\<rparr>)\<rparr>
                    else efi);
         s \<leftarrow> log_fold malloc_ok blob (extract_step malloc_ok) 0
                \<lparr>xs_fw = state\<lparr>fw_efi := Some efi\<rparr>, current_efi_index = 0,
                 has_grub_info = False, has_kernel_info = False, has_initrd_info = False\<rparr>;
         efi \<leftarrow> fw_efi (xs_fw s);
         Some (True, (xs_fw s)\<lparr>fw_efi := Some (efi\<lparr>image_count := of_nat (current_efi_index s)\<rparr>),
                               hash_algo := TPM_ALG_SHA256\<rparr>)
       }
     }"


section \<open>The searches\<close>

definition occurs_at :: "bytes \<Rightarrow> bytes \<Rightarrow> nat \<Rightarrow> bool" where
  "occurs_at pat data i \<longleftrightarrow> i + length pat \<le> length data \<and> take (length pat) (drop i data) = pat"

lemma memcmp_scan_first:
  assumes "i + n + length pat \<le> length data + 1"
  shows "memcmp_scan data pat n i =
     Some (if \<exists>j. i \<le> j \<and> j < i + n \<and> occurs_at pat data j
           then Some (LEAST j. i \<le> j \<and> occurs_at pat data j) else None)"
  using assms
proof (induction n arbitrary: i)
  case 0
  then show ?case by simp
next
  case (Suc n)
  have r: "mem_read data i (length pat) = Some (take (length pat) (drop i data))"
    using Suc.prems by (simp add: mem_read_def)
  show ?case
  proof (cases "occurs_at pat data i")
    case True
    then have "(LEAST j. i \<le> j \<and> occurs_at pat data j) = i" by (intro Least_equality) auto
    then show ?thesis using True r by (auto simp: occurs_at_def)
  next
    case False
    have eq: "(i \<le> j \<and> occurs_at pat data j) = (Suc i \<le> j \<and> occurs_at pat data j)" for j
      using False by (cases "i = j") auto
    have ex: "(\<exists>j. i \<le> j \<and> j < i + Suc n \<and> occurs_at pat data j) =
        (\<exists>j. Suc i \<le> j \<and> j < Suc i + n \<and> occurs_at pat data j)"
      using eq by (metis add_Suc_right add_Suc_shift)
    have "take (length pat) (drop i data) \<noteq> pat" using False Suc.prems by (auto simp: occurs_at_def)
    then show ?thesis using r Suc.IH [of "Suc i"] Suc.prems by (simp only: memcmp_scan.simps ex eq) simp
  qed
qed

lemma occurs_at_sublist: "(\<exists>i. occurs_at pat data i) \<longleftrightarrow> sublist pat data"
proof
  assume "\<exists>i. occurs_at pat data i"
  then obtain i where i: "i + length pat \<le> length data" "take (length pat) (drop i data) = pat"
    by (auto simp: occurs_at_def)
  then have "data = take i data @ pat @ drop (i + length pat) data"
    by (metis add.commute append_take_drop_id drop_drop)
  then show "sublist pat data" by (metis sublist_def)
next
  assume "sublist pat data"
  then obtain ps ss where "data = ps @ pat @ ss" by (auto simp: sublist_def)
  then show "\<exists>i. occurs_at pat data i" by (intro exI [of _ "length ps"]) (simp add: occurs_at_def)
qed

lemma find_substring_correct:
  assumes "length data = data_len"
  shows "\<exists>r. find_substring data data_len pat = Some r \<and> (r \<noteq> None \<longleftrightarrow> sublist pat data)"
proof (cases "data_len < length pat")
  case True
  then show ?thesis using assms sublist_length_le [of pat data]
    by (auto simp: find_substring_def)
next
  case False
  have "j < data_len - length pat + 1" if "occurs_at pat data j" for j
    using that assms by (auto simp: occurs_at_def)
  then have "(\<exists>j. 0 \<le> j \<and> j < 0 + (data_len - length pat + 1) \<and> occurs_at pat data j) \<longleftrightarrow> sublist pat data"
    unfolding occurs_at_sublist [symmetric] by auto
  then show ?thesis using False assms memcmp_scan_first [of 0 "data_len - length pat + 1" pat data]
    by (simp add: find_substring_def del: memcmp_scan.simps)
qed


lemma names_file_correct:
  assumes "length ev = unat (event_size entry)"
  shows "names_file entry ev path = Some (sublist path ev \<and> \<not> sublist grub_cmd ev)"
  using find_substring_correct [OF assms, of path] find_substring_correct [OF assms, of grub_cmd]
  by (auto simp: names_file_def)

text \<open>
  The search for \<open>grub.cfg\<close> stops one position early: it looks at every position but the
  last one at which the name would fit.
\<close>

lemma grub_scan_correct:
  assumes "length ev = unat (event_size entry)" "8 \<le> unat (event_size entry)"
  shows "\<exists>r. memcmp_scan ev grub_cfg_name (size_sub (unat (event_size entry)) (length grub_cfg_name)) 0
           = Some r \<and> (r \<noteq> None \<longleftrightarrow> (\<exists>j. j + 8 < length ev \<and> occurs_at grub_cfg_name ev j))"
proof -
  have "unat (event_size entry) < 2 ^ 64" using unat_bound [of "event_size entry"] by simp
  then have "size_sub (unat (event_size entry)) (length grub_cfg_name) = length ev - 8"
    using assms by simp
  then show ?thesis using assms by (auto simp: memcmp_scan_first less_diff_conv)
qed


section \<open>What the walk extracts\<close>

text \<open>
  An entry as the parser delivers it: \<open>digest_count\<close> digests of 32 bytes, and an event of
  \<open>event_size\<close> bytes, at least the eight of its header.
\<close>

definition entry_ok :: "event_log_entry \<Rightarrow> bool" where
  "entry_ok e \<longleftrightarrow>
     (digest_count e > 0 \<longrightarrow> (\<exists>d. digests e = Some d \<and> 32 \<le> length d)) \<and>
     (\<exists>bs. event e = Some bs \<and> length bs = unat (event_size e)) \<and> 8 \<le> unat (event_size e)"

definition first_digest :: "event_log_entry \<Rightarrow> bytes" where
  "first_digest e = (case digests e of Some d \<Rightarrow> take SHA256_DIGEST_LENGTH d | None \<Rightarrow> [])"

definition is_efi :: "event_log_entry \<Rightarrow> bool" where
  "is_efi e \<longleftrightarrow> event_type e = EV_EFI_BOOT_SERVICES_APPLICATION"

definition is_grub :: "event_log_entry \<Rightarrow> bool" where
  "is_grub e \<longleftrightarrow> event_type e = EV_IPL \<and> digest_count e > 0 \<and>
     (\<exists>ev j. event e = Some ev \<and> j + 8 < length ev \<and> occurs_at grub_cfg_name ev j)"

definition is_file :: "bytes \<Rightarrow> event_log_entry \<Rightarrow> bool" where
  "is_file path e \<longleftrightarrow> event_type e = EV_IPL \<and> digest_count e > 0 \<and>
     (\<exists>ev. event e = Some ev \<and> sublist path ev \<and> \<not> sublist grub_cmd ev)"

lemma occurs_before_end:
  "(\<exists>j. j + length pat < length data \<and> occurs_at pat data j) \<longleftrightarrow> data \<noteq> [] \<and> sublist pat (butlast data)"
proof (cases data rule: rev_cases)
  case (snoc ds d)
  have "(\<exists>j. j + length pat < length data \<and> occurs_at pat data j) \<longleftrightarrow> (\<exists>j. occurs_at pat ds j)"
  proof (intro ex_cong1)
    fix j show "(j + length pat < length data \<and> occurs_at pat data j) = occurs_at pat ds j"
      by (auto simp: occurs_at_def snoc less_Suc_eq_le)
  qed
  then show ?thesis by (simp add: occurs_at_sublist snoc)
qed simp

text \<open>The classification of an event by executable searches.\<close>

lemma is_grub_code [code]:
  "is_grub e = (event_type e = EV_IPL \<and> digest_count e > 0 \<and>
     (case event e of None \<Rightarrow> False | Some ev \<Rightarrow> ev \<noteq> [] \<and> strstr (butlast ev) grub_cfg_name \<noteq> None))"
proof -
  have "length grub_cfg_name = 8" by simp
  then have "(\<exists>j. j + 8 < length ev \<and> occurs_at grub_cfg_name ev j) \<longleftrightarrow>
      ev \<noteq> [] \<and> strstr (butlast ev) grub_cfg_name \<noteq> None" for ev
    using occurs_before_end [of grub_cfg_name ev] sublist_strstr by metis
  then show ?thesis by (auto simp: is_grub_def split: option.split)
qed

lemma is_file_code [code]:
  "is_file path e = (event_type e = EV_IPL \<and> digest_count e > 0 \<and>
     (case event e of None \<Rightarrow> False | Some ev \<Rightarrow> strstr ev path \<noteq> None \<and> strstr ev grub_cmd = None))"
  by (auto simp: is_file_def sublist_strstr split: option.split)

lemma entry_ok_digest:
  assumes "entry_ok e" "digest_count e > 0"
  obtains d where "digests e = Some d" "mem_read d 0 32 = Some (first_digest e)"
  using assms by (auto simp: entry_ok_def first_digest_def mem_read_def)

lemma extract_efi_image_ok:
  assumes "entry_ok e" "\<And>n. malloc_ok n"
  shows "extract_efi_image malloc_ok e img =
     Some (if digest_count e > 0 then (True, img\<lparr>image_hash_size := 32, image_hash := Some (first_digest e)\<rparr>)
           else (False, img))"
proof (cases "digest_count e > 0")
  case True
  obtain d where "digests e = Some d" "mem_read d 0 32 = Some (first_digest e)"
    using entry_ok_digest [OF assms(1) True] .
  then show ?thesis using True assms(2) by (simp add: extract_efi_image_def word_greater_zero_iff)
next
  case False
  then show ?thesis by (simp add: extract_efi_image_def word_greater_zero_iff split: option.split)
qed

lemma extract_grub_info_ok:
  assumes "entry_ok e" "\<And>n. malloc_ok n" "event_type e = EV_IPL"
  shows "extract_grub_info malloc_ok e g =
     Some (if is_grub e then (True, g\<lparr>config_hash_size := 32, config_hash := Some (first_digest e)\<rparr>)
           else (False, g))"
proof -
  obtain ev where ev: "event e = Some ev" "length ev = unat (event_size e)" "8 \<le> unat (event_size e)"
    using assms(1) by (auto simp: entry_ok_def)
  then have nz: "event_size e \<noteq> 0" by auto
  obtain r where r: "memcmp_scan ev grub_cfg_name
      (size_sub (unat (event_size e)) (length grub_cfg_name)) 0 = Some r"
      "r \<noteq> None \<longleftrightarrow> (\<exists>j. j + 8 < length ev \<and> occurs_at grub_cfg_name ev j)"
    using grub_scan_correct [OF ev(2,3)] by blast
  show ?thesis
  proof (cases "digest_count e > 0")
    case True
    obtain d where d: "digests e = Some d" "mem_read d 0 32 = Some (first_digest e)"
      using entry_ok_digest [OF assms(1) True] .
    have "is_grub e \<longleftrightarrow> r \<noteq> None" using r(2) True ev(1) assms(3) by (simp add: is_grub_def)
    moreover have "digest_count e \<noteq> 0" using True by auto
    ultimately show ?thesis using d ev(1) nz r(1) assms(2) by (simp add: extract_grub_info_def)
  next
    case False
    then have "\<not> is_grub e" "digest_count e = 0" by (auto simp: is_grub_def word_greater_zero_iff)
    then show ?thesis using ev(1) nz r(1)
      by (auto simp: extract_grub_info_def split: option.split)
  qed
qed


lemma extract_kernel_ok:
  assumes "entry_ok e" "\<And>n. malloc_ok n" "event_type e = EV_IPL" "event e = Some ev"
    "fw_kernel (xs_fw s) = Some k"
  shows "extract_kernel malloc_ok e ev s =
     Some (if is_file kernel_path e
           then s\<lparr>xs_fw := (xs_fw s)\<lparr>fw_kernel :=
                     Some (k\<lparr>kernel_hash_size := 32, kernel_hash := Some (first_digest e)\<rparr>)\<rparr>,
                  has_kernel_info := True\<rparr>
           else s)"
proof -
  have n: "names_file e ev kernel_path = Some (sublist kernel_path ev \<and> \<not> sublist grub_cmd ev)"
    using assms by (intro names_file_correct) (auto simp: entry_ok_def)
  show ?thesis
  proof (cases "digest_count e > 0")
    case True
    obtain d where "digests e = Some d" "mem_read d 0 32 = Some (first_digest e)"
      using entry_ok_digest [OF assms(1) True] .
    then show ?thesis using True n assms
      by (auto simp: extract_kernel_def is_file_def word_greater_zero_iff)
  next
    case False
    then show ?thesis using n
      by (auto simp: extract_kernel_def is_file_def word_greater_zero_iff split: option.split bool.split)
  qed
qed

lemma extract_initrd_ok:
  assumes "entry_ok e" "\<And>n. malloc_ok n" "event_type e = EV_IPL" "event e = Some ev"
    "fw_kernel (xs_fw s) = Some k"
  shows "extract_initrd malloc_ok e ev s =
     Some (if is_file initrd_path e
           then s\<lparr>xs_fw := (xs_fw s)\<lparr>fw_kernel :=
                     Some (k\<lparr>initrd_hash_size := 32, initrd_hash := Some (first_digest e)\<rparr>)\<rparr>,
                  has_initrd_info := True\<rparr>
           else s)"
proof -
  have n: "names_file e ev initrd_path = Some (sublist initrd_path ev \<and> \<not> sublist grub_cmd ev)"
    using assms by (intro names_file_correct) (auto simp: entry_ok_def)
  show ?thesis
  proof (cases "digest_count e > 0")
    case True
    obtain d where "digests e = Some d" "mem_read d 0 32 = Some (first_digest e)"
      using entry_ok_digest [OF assms(1) True] .
    then show ?thesis using True n assms
      by (auto simp: extract_initrd_def is_file_def word_greater_zero_iff)
  next
    case False
    then show ?thesis using n
      by (auto simp: extract_initrd_def is_file_def word_greater_zero_iff split: option.split bool.split)
  qed
qed

text \<open>
  The abstract view of an extraction state: the image hashes collected so far, then the
  hashes of \<open>grub.cfg\<close>, kernel and initrd, each \<^term>\<open>None\<close> until found.
\<close>

record boot_view =
  v_images :: "bytes list"
  v_grub :: "bytes option"
  v_kernel :: "bytes option"
  v_initrd :: "bytes option"

definition view_step :: "event_log_entry \<Rightarrow> boot_view \<Rightarrow> boot_view" where
  "view_step e v =
     (if is_efi e then
        (if digest_count e > 0 then v\<lparr>v_images := v_images v @ [first_digest e]\<rparr> else v)
      else if v_grub v = None then
        (if is_grub e then v\<lparr>v_grub := Some (first_digest e)\<rparr> else v)
      else if v_kernel v = None then
        (if is_file kernel_path e then v\<lparr>v_kernel := Some (first_digest e)\<rparr> else v)
      else if v_initrd v = None then
        (if is_file initrd_path e then v\<lparr>v_initrd := Some (first_digest e)\<rparr> else v)
      else v)"

definition view_of :: "event_log_entry list \<Rightarrow> boot_view" where
  "view_of es = fold view_step es \<lparr>v_images = [], v_grub = None, v_kernel = None, v_initrd = None\<rparr>"

text \<open>The simulation relation, with \<open>m\<close> image slots still to be filled.\<close>

definition sim :: "nat \<Rightarrow> extract_state \<Rightarrow> boot_view \<Rightarrow> bool" where
  "sim m s v \<longleftrightarrow>
     (\<exists>efi imgs g k. fw_efi (xs_fw s) = Some efi \<and>
        (images efi = Some imgs \<or> images efi = None \<and> imgs = []) \<and>
        current_efi_index s = length (v_images v) \<and>
        length (v_images v) + m \<le> length imgs \<and>
        map image_hash (take (length (v_images v)) imgs) = map Some (v_images v) \<and>
        map image_hash_size (take (length (v_images v)) imgs) = replicate (length (v_images v)) 32 \<and>
        (config_hash g \<noteq> None \<longrightarrow> config_hash_size g = 32) \<and>
        (kernel_hash k \<noteq> None \<longrightarrow> kernel_hash_size k = 32) \<and>
        (initrd_hash k \<noteq> None \<longrightarrow> initrd_hash_size k = 32) \<and>
        fw_grub (xs_fw s) = Some g \<and> config_hash g = v_grub v \<and> has_grub_info s = (v_grub v \<noteq> None) \<and>
        fw_kernel (xs_fw s) = Some k \<and>
        kernel_hash k = v_kernel v \<and> has_kernel_info s = (v_kernel v \<noteq> None) \<and>
        initrd_hash k = v_initrd v \<and> has_initrd_info s = (v_initrd v \<noteq> None))"


lemma extract_step_efi:
  assumes s: "sim (Suc m) s v" and e: "entry_ok e" "is_efi e" and m: "\<And>n. malloc_ok n"
  shows "\<exists>s'. extract_step malloc_ok e s = Some s' \<and> sim m s' (view_step e v)"
proof -
  obtain efi imgs where st: "fw_efi (xs_fw s) = Some efi"
      "images efi = Some imgs \<or> images efi = None \<and> imgs = []"
      "current_efi_index s = length (v_images v)" "length (v_images v) + Suc m \<le> length imgs"
      "map image_hash (take (length (v_images v)) imgs) = map Some (v_images v)"
      "map image_hash_size (take (length (v_images v)) imgs) = replicate (length (v_images v)) 32"
    using s by (auto simp: sim_def)
  then have i: "images efi = Some imgs" "length (v_images v) < length imgs" by auto
  let ?img = "imgs ! length (v_images v)"
  have at: "mem_at imgs (length (v_images v)) = Some ?img" using i by (simp add: mem_at_def)
  show ?thesis
  proof (cases "digest_count e > 0")
    case True
    let ?imgs = "imgs[length (v_images v) :=
        ?img\<lparr>image_hash_size := 32, image_hash := Some (first_digest e)\<rparr>]"
    have "map image_hash (take (Suc (length (v_images v))) ?imgs)
        = map Some (v_images v @ [first_digest e])"
      using st(5) i(2) by (simp add: take_Suc_conv_app_nth)
    moreover have "map image_hash_size (take (Suc (length (v_images v))) ?imgs)
        = replicate (Suc (length (v_images v))) 32"
      using st(6) i(2) by (simp add: take_Suc_conv_app_nth replicate_append_same)
    ultimately show ?thesis using s st i at e True m
      by (auto simp: extract_step_def is_efi_def extract_efi_image_ok view_step_def sim_def)
  next
    case False
    then show ?thesis using s st i at e m
      by (auto simp: extract_step_def is_efi_def extract_efi_image_ok view_step_def sim_def)
  qed
qed

lemma extract_step_other:
  assumes s: "sim m s v" and e: "entry_ok e" "\<not> is_efi e" and m: "\<And>n. malloc_ok n"
  shows "\<exists>s'. extract_step malloc_ok e s = Some s' \<and> sim m s' (view_step e v)"
proof (cases "event_type e = EV_IPL")
  case False
  then show ?thesis using s e
    by (auto simp: extract_step_def is_efi_def view_step_def is_grub_def is_file_def)
next
  case True
  have "8 \<le> unat (event_size e)" using e(1) by (simp add: entry_ok_def)
  then have sz: "event_size e > 0" by (auto simp: word_less_nat_alt)
  obtain ev where ev: "event e = Some ev" using e(1) by (auto simp: entry_ok_def)
  obtain g k where st: "fw_grub (xs_fw s) = Some g" "fw_kernel (xs_fw s) = Some k"
    using s by (auto simp: sim_def)
  note steps = extract_grub_info_ok [OF e(1) m True]
    extract_kernel_ok [OF e(1) m True ev st(2)] extract_initrd_ok [OF e(1) m True ev st(2)]
  have fl: "has_grub_info s = (v_grub v \<noteq> None)" "has_kernel_info s = (v_kernel v \<noteq> None)"
      "has_initrd_info s = (v_initrd v \<noteq> None)"
    using s by (auto simp: sim_def)
  have vs: "view_step e v =
     (if v_grub v = None then (if is_grub e then v\<lparr>v_grub := Some (first_digest e)\<rparr> else v)
      else if v_kernel v = None then
        (if is_file kernel_path e then v\<lparr>v_kernel := Some (first_digest e)\<rparr> else v)
      else if v_initrd v = None then
        (if is_file initrd_path e then v\<lparr>v_initrd := Some (first_digest e)\<rparr> else v)
      else v)"
    using e(2) by (simp add: view_step_def)
  consider (g) "v_grub v = None" | (k) "v_grub v \<noteq> None" "v_kernel v = None"
    | (i) "v_grub v \<noteq> None" "v_kernel v \<noteq> None" "v_initrd v = None"
    | (n) "v_grub v \<noteq> None" "v_kernel v \<noteq> None" "v_initrd v \<noteq> None" by blast
  then show ?thesis
  proof cases
    case g
    then show ?thesis using s True st fl by (cases "is_grub e") (auto simp: extract_step_def vs steps sim_def)
  next
    case k
    then show ?thesis using s True st fl ev sz
      by (cases "is_file kernel_path e") (auto simp: extract_step_def vs steps sim_def)
  next
    case i
    then show ?thesis using s True st fl ev sz
      by (cases "is_file initrd_path e") (auto simp: extract_step_def vs steps sim_def)
  next
    case n
    then have "view_step e v = v" by (simp only: vs if_False)
    moreover have "extract_step malloc_ok e s = Some s" using n True fl ev by (simp add: extract_step_def)
    ultimately show ?thesis using s by simp
  qed
qed


lemma extract_fold:
  assumes "list_all entry_ok es" "\<And>n. malloc_ok n" "sim (length (filter is_efi es)) s v"
  shows "\<exists>s'. foldM (extract_step malloc_ok) es s = Some s' \<and> sim 0 s' (fold view_step es v)"
  using assms(1,3)
proof (induction es arbitrary: s v)
  case Nil
  then show ?case by simp
next
  case (Cons e es)
  let ?m = "length (filter is_efi es)"
  obtain s1 where "extract_step malloc_ok e s = Some s1" "sim ?m s1 (view_step e v)"
    using extract_step_efi [of ?m s v e malloc_ok] extract_step_other [of ?m s v e malloc_ok]
      Cons.prems assms(2) by (cases "is_efi e") auto
  then show ?case using Cons.IH [of s1 "view_step e v"] Cons.prems by simp
qed

lemma count_efi_fold: "foldM count_efi es n = Some (n + of_nat (length (filter is_efi es)))"
  by (induction es arbitrary: n) (auto simp: count_efi_def is_efi_def)

lemma fold_view_images:
  "length (v_images (fold view_step es v)) \<le> length (v_images v) + length es"
proof (induction es arbitrary: v)
  case Nil
  then show ?case by simp
next
  case (Cons e es)
  have "length (v_images (view_step e v)) \<le> Suc (length (v_images v))" by (simp add: view_step_def)
  then show ?case using Cons.IH [of "view_step e v"] by simp
qed

lemma view_images_length: "length (v_images (view_of es)) \<le> length es"
  unfolding view_of_def by (rule order_trans [OF fold_view_images]) simp

text \<open>A firmware state holds a view: every hash with its 32 bytes, and nothing else.\<close>

definition holds_view :: "firmware_log_state \<Rightarrow> boot_view \<Rightarrow> bool" where
  "holds_view st v \<longleftrightarrow>
     (\<exists>efi imgs g k. fw_efi st = Some efi \<and> (images efi = Some imgs \<or> images efi = None \<and> imgs = []) \<and>
        unat (image_count efi) = length (v_images v) \<and> length (v_images v) \<le> length imgs \<and>
        map image_hash (take (length (v_images v)) imgs) = map Some (v_images v) \<and>
        map image_hash_size (take (length (v_images v)) imgs) = replicate (length (v_images v)) 32 \<and>
        (config_hash g \<noteq> None \<longrightarrow> config_hash_size g = 32) \<and>
        (kernel_hash k \<noteq> None \<longrightarrow> kernel_hash_size k = 32) \<and>
        (initrd_hash k \<noteq> None \<longrightarrow> initrd_hash_size k = 32) \<and>
        fw_grub st = Some g \<and> config_hash g = v_grub v \<and>
        fw_kernel st = Some k \<and> kernel_hash k = v_kernel v \<and> initrd_hash k = v_initrd v)"

text \<open>
  Refinement: on a log whose entries are well formed the extraction succeeds and the
  firmware state holds exactly the view of the log.
\<close>

lemma firmware_log_state_extract_refines:
  assumes es: "log_entries malloc_ok b 0 = Some es" "list_all entry_ok es" "length es < 2 ^ 32"
    and m: "\<And>n. malloc_ok n" and c: "firmware_log_state_create malloc_ok = Some st"
  shows "\<exists>st'. firmware_log_state_extract malloc_ok b st = Some (True, st') \<and>
     hash_algo st' = TPM_ALG_SHA256 \<and> holds_view st' (view_of es)"
proof -
  let ?n = "length (filter is_efi es)"
  let ?v = "\<lparr>v_images = [], v_grub = None, v_kernel = None, v_initrd = None\<rparr>"
  have st: "st = \<lparr>fw_efi = Some \<lparr>images = None, image_count = 0\<rparr>,
              fw_grub = Some \<lparr>config_hash = None, config_hash_size = 0\<rparr>,
              fw_kernel = Some \<lparr>kernel_hash = None, kernel_hash_size = 0,
                                initrd_hash = None, initrd_hash_size = 0\<rparr>, hash_algo = 0\<rparr>"
    using c m by (simp add: firmware_log_state_create_def)
  have n: "unat (of_nat ?n :: u32) = ?n"
    using es(3) le_less_trans [OF length_filter_le [of is_efi es]] by (simp add: unat_of_nat)
  have cnt: "log_fold malloc_ok b count_efi 0 0 = Some (of_nat ?n)"
    using log_fold_entries [OF es(1), of count_efi 0] count_efi_fold [of es 0] by simp
  let ?efi = "if (of_nat ?n :: u32) > 0
      then \<lparr>images = Some (replicate ?n \<lparr>image_hash = None, image_hash_size = 0\<rparr>), image_count = 0\<rparr>
      else \<lparr>images = None, image_count = 0\<rparr>"
  let ?s = "\<lparr>xs_fw = st\<lparr>fw_efi := Some ?efi\<rparr>, current_efi_index = 0,
                 has_grub_info = False, has_kernel_info = False, has_initrd_info = False\<rparr>"
  have "sim ?n ?s ?v" using n by (auto simp: sim_def st word_less_nat_alt)
  then obtain s' where s': "foldM (extract_step malloc_ok) es ?s = Some s'" "sim 0 s' (view_of es)"
    using extract_fold [of es malloc_ok ?s ?v, OF es(2) m] unfolding view_of_def by blast
  then have run: "firmware_log_state_extract malloc_ok b st =
      Option.bind (fw_efi (xs_fw s')) (\<lambda>efi.
         Some (True, (xs_fw s')\<lparr>fw_efi := Some (efi\<lparr>image_count := of_nat (current_efi_index s')\<rparr>),
                               hash_algo := TPM_ALG_SHA256\<rparr>))"
    using log_fold_entries [OF es(1), of "extract_step malloc_ok"] m n
    by (auto simp: firmware_log_state_extract_def cnt st Let_def cong: if_cong split: if_splits)
  have len: "unat (of_nat (length (v_images (view_of es))) :: u32) = length (v_images (view_of es))"
    using view_images_length [of es] es(3) by (intro of_nat_u32_inverse) simp
  show ?thesis using s'(2) len unfolding run sim_def holds_view_def by auto
qed



section \<open>The view in closed form\<close>

text \<open>
  The image hashes are those of all EFI application events with a digest; \<open>grub.cfg\<close> is the
  first event that names it; the kernel is looked for only after the \<open>grub.cfg\<close> event, and
  the initrd only after the kernel event.
\<close>

definition after :: "('a \<Rightarrow> bool) \<Rightarrow> 'a list \<Rightarrow> 'a list" where
  "after p xs = tl (dropWhile (\<lambda>x. \<not> p x) xs)"

lemma after_simps [simp]: "after p [] = []" "after p (x # xs) = (if p x then xs else after p xs)"
  by (simp_all add: after_def)

lemma ipl_not_efi: "is_grub e \<Longrightarrow> \<not> is_efi e" "is_file p e \<Longrightarrow> \<not> is_efi e"
  by (auto simp: is_grub_def is_file_def is_efi_def)

lemma fold_view_images_eq:
  "v_images (fold view_step es v) =
     v_images v @ map first_digest (filter (\<lambda>e. is_efi e \<and> digest_count e > 0) es)"
  by (induction es arbitrary: v) (auto simp: view_step_def)

lemma fold_view_initrd:
  "v_grub v \<noteq> None \<Longrightarrow> v_kernel v \<noteq> None \<Longrightarrow> v_initrd (fold view_step es v) =
     (case v_initrd v of Some h \<Rightarrow> Some h | None \<Rightarrow> map_option first_digest (find (is_file initrd_path) es))"
proof (induction es arbitrary: v)
  case Nil
  then show ?case by (simp split: option.split)
next
  case (Cons e es)
  then show ?case using Cons.IH [of "view_step e v"]
    by (cases "v_initrd v") (auto simp: view_step_def [of e v] ipl_not_efi)
qed

lemma fold_view_kernel:
  assumes "v_grub v \<noteq> None" "v_kernel v = None" "v_initrd v = None"
  shows "v_kernel (fold view_step es v) = map_option first_digest (find (is_file kernel_path) es)"
    and "v_initrd (fold view_step es v) =
           map_option first_digest (find (is_file initrd_path) (after (is_file kernel_path) es))"
proof -
  have keep: "v_kernel (fold view_step es v) = v_kernel v"
    if "v_grub v \<noteq> None" "v_kernel v \<noteq> None" for es v
    using that by (induction es arbitrary: v) (auto simp: view_step_def)
  show "v_kernel (fold view_step es v) = map_option first_digest (find (is_file kernel_path) es)"
    using assms
  proof (induction es arbitrary: v)
    case (Cons e es)
    then show ?case using keep [of "view_step e v" es] Cons.IH [of "view_step e v"]
      by (auto simp: view_step_def [of e v] ipl_not_efi)
  qed simp
  show "v_initrd (fold view_step es v) =
      map_option first_digest (find (is_file initrd_path) (after (is_file kernel_path) es))"
    using assms
  proof (induction es arbitrary: v)
    case (Cons e es)
    then show ?case using fold_view_initrd [of "view_step e v" es] Cons.IH [of "view_step e v"]
      by (auto simp: view_step_def [of e v] ipl_not_efi)
  qed simp
qed

lemma fold_view_grub:
  assumes "v_grub v = None" "v_kernel v = None" "v_initrd v = None"
  shows "v_grub (fold view_step es v) = map_option first_digest (find is_grub es)"
    and "v_kernel (fold view_step es v) =
           map_option first_digest (find (is_file kernel_path) (after is_grub es))"
    and "v_initrd (fold view_step es v) = map_option first_digest
           (find (is_file initrd_path) (after (is_file kernel_path) (after is_grub es)))"
proof -
  have keep: "v_grub (fold view_step es v) = v_grub v" if "v_grub v \<noteq> None" for es v
    using that by (induction es arbitrary: v) (auto simp: view_step_def)
  show "v_grub (fold view_step es v) = map_option first_digest (find is_grub es)"
    using assms
  proof (induction es arbitrary: v)
    case (Cons e es)
    then show ?case using keep [of "view_step e v" es] Cons.IH [of "view_step e v"]
      by (auto simp: view_step_def [of e v] ipl_not_efi)
  qed simp
  show "v_kernel (fold view_step es v) =
      map_option first_digest (find (is_file kernel_path) (after is_grub es))"
    using assms
  proof (induction es arbitrary: v)
    case (Cons e es)
    then show ?case using fold_view_kernel(1) [of "view_step e v" es] Cons.IH [of "view_step e v"]
      by (auto simp: view_step_def [of e v] ipl_not_efi)
  qed simp
  show "v_initrd (fold view_step es v) = map_option first_digest
      (find (is_file initrd_path) (after (is_file kernel_path) (after is_grub es)))"
    using assms
  proof (induction es arbitrary: v)
    case (Cons e es)
    then show ?case using fold_view_kernel(2) [of "view_step e v" es] Cons.IH [of "view_step e v"]
      by (auto simp: view_step_def [of e v] ipl_not_efi)
  qed simp
qed

lemma view_of_closed:
  "v_images (view_of es) = map first_digest (filter (\<lambda>e. is_efi e \<and> digest_count e > 0) es)"
  "v_grub (view_of es) = map_option first_digest (find is_grub es)"
  "v_kernel (view_of es) = map_option first_digest (find (is_file kernel_path) (after is_grub es))"
  "v_initrd (view_of es) = map_option first_digest
     (find (is_file initrd_path) (after (is_file kernel_path) (after is_grub es)))"
  by (simp_all add: view_of_def fold_view_images_eq fold_view_grub)


definition view_wf :: "boot_view \<Rightarrow> bool" where
  "view_wf v \<longleftrightarrow> list_all (\<lambda>h. length h = 32) (v_images v) \<and>
     (\<forall>h \<in> set_option (v_grub v) \<union> set_option (v_kernel v) \<union> set_option (v_initrd v). length h = 32)"

lemma view_step_wf:
  assumes "entry_ok e" "view_wf v"
  shows "view_wf (view_step e v)"
proof -
  have "length (first_digest e) = 32" if "digest_count e > 0"
    using assms(1) that by (auto simp: entry_ok_def first_digest_def)
  then have d: "length (first_digest e) = 32"
    if "digest_count e > 0 \<or> is_grub e \<or> is_file p e" for p
    using that by (auto simp: is_grub_def is_file_def)
  show ?thesis using assms(2) d by (simp add: view_step_def view_wf_def) blast
qed

lemma fold_view_wf: "list_all entry_ok es \<Longrightarrow> view_wf v \<Longrightarrow> view_wf (fold view_step es v)"
  by (induction es arbitrary: v) (simp_all add: view_step_wf)

lemma view_of_wf: "list_all entry_ok es \<Longrightarrow> view_wf (view_of es)"
  unfolding view_of_def by (rule fold_view_wf) (simp_all add: view_wf_def)


section \<open>Properties\<close>

text \<open>
  The search for grub.cfg stops one position early: an event whose data ends with the only
  occurrence of that name is not taken for the GRUB configuration.
\<close>

theorem grub_cfg_at_end_missed:
  assumes "event e = Some (pre @ grub_cfg_name)" "unat (event_size e) = length pre + 8"
    and "\<not> sublist grub_cfg_name (butlast (pre @ grub_cfg_name))"
  shows "extract_grub_info malloc_ok e grub = Some (False, grub)"
proof -
  let ?ev = "pre @ grub_cfg_name"
  have "\<not> (\<exists>j. j + length grub_cfg_name < length ?ev \<and> occurs_at grub_cfg_name ?ev j)"
    using assms(3) occurs_before_end by blast
  moreover have "length grub_cfg_name = 8" by simp
  ultimately have n: "\<not> (\<exists>j. j + 8 < length ?ev \<and> occurs_at grub_cfg_name ?ev j)" by simp
  have "length ?ev = unat (event_size e)" "8 \<le> unat (event_size e)" using assms(2) by simp_all
  from grub_scan_correct [OF this] n
  have "memcmp_scan ?ev grub_cfg_name (size_sub (unat (event_size e)) (length grub_cfg_name)) 0 = Some None"
    by auto
  then show ?thesis using assms(1) by (auto simp: extract_grub_info_def)
qed

theorem grub_cfg_at_end_missed_witness:
  "extract_grub_info (\<lambda>_. True) (zero_entry\<lparr>event_type := 13, digest_count := 1, digests := Some (replicate 32 1),
       event := Some ([0, 0] @ grub_cfg_name), event_size := 10\<rparr>) \<lparr>config_hash = None, config_hash_size = 0\<rparr> =
     Some (False, \<lparr>config_hash = None, config_hash_size = 0\<rparr>)"
proof -
  have "\<not> sublist grub_cfg_name (butlast ([0, 0] @ grub_cfg_name))"
    unfolding sublist_strstr by code_simp
  then show ?thesis
    by (intro grub_cfg_at_end_missed [where pre = "[0, 0]"]) (simp_all add: zero_entry_def)
qed

end
