(* ===== verification/Event_Replay.thy ===== *)
theory Event_Replay
  imports Event_Codec Firmware_State
begin

text \<open>
  \<open>event_log_replay\<close> and \<open>event_log_dump\<close> of \<open>attestation/samples/src/event_log.c\<close>: the four
  registers are rebuilt by two walks of the log, the first over the \<open>EV_NO_ACTION\<close> events and
  the second over the others, and the firmware state is extracted. The result is related to
  the abstract register bank of theory \<open>Rem\<close>.
\<close>

section \<open>Replay\<close>

text \<open>
  One walk: \<open>sel\<close> is its test on the event type. \<open>update_rem\<close> reads 32 bytes of the digest
  buffer of the entry, a NULL pointer for an \<open>EV_NO_ACTION\<close> entry.
\<close>

definition replay_entry :: "sha_fun \<Rightarrow> (u32 \<Rightarrow> bool) \<Rightarrow> event_log_entry \<Rightarrow> rem_t list \<Rightarrow> rem_t list option"
where
  "replay_entry sha sel e rems =
     (if sel (event_type e) \<and> unat (rem_index e) < REM_COUNT \<and> digest_count e > 0 then
        do {
          d \<leftarrow> digests e;
          d \<leftarrow> mem_read d 0 SHA256_DIGEST_LENGTH;
          r \<leftarrow> mem_at rems (unat (rem_index e));
          Some (rems[unat (rem_index e) := update_rem sha r d])
        }
      else Some rems)"

partial_function (option) replay_pass ::
  "(nat \<Rightarrow> bool) \<Rightarrow> sha_fun \<Rightarrow> binary_blob \<Rightarrow> (u32 \<Rightarrow> bool) \<Rightarrow> nat \<Rightarrow> rem_t list \<Rightarrow> rem_t list option"
where
  "replay_pass malloc_ok sha blob sel pos rems =
     (if pos < blob_length blob then
        Option.bind (process_event_log_entry malloc_ok blob pos) (\<lambda>(ok, pos', e).
          if \<not> ok then Some rems
          else if rem_index e = EVENT_LOG_MAGIC \<and> event_type e = EVENT_LOG_MAGIC then Some rems
          else Option.bind (replay_entry sha sel e rems) (\<lambda>rems'.
            replay_pass malloc_ok sha blob sel pos' rems'))
      else Some rems)"

definition event_log_replay :: "(nat \<Rightarrow> bool) \<Rightarrow> sha_fun \<Rightarrow> event_log \<Rightarrow> (bool \<times> event_log) option" where
  "event_log_replay malloc_ok sha log =
     (let rems = map rem_init (log_rems log) in
      case firmware_log_state_create malloc_ok of
        None \<Rightarrow> Some (False, log\<lparr>log_rems := rems\<rparr>)
      | Some state \<Rightarrow>
          do {
            rems \<leftarrow> replay_pass malloc_ok sha (log_blob log) (\<lambda>ty. ty = 0x3) 0 rems;
            rems \<leftarrow> replay_pass malloc_ok sha (log_blob log) (\<lambda>ty. ty \<noteq> 0x3) 0 rems;
            (success, state) \<leftarrow> firmware_log_state_extract malloc_ok (log_blob log) state;
            Some (success, log\<lparr>log_rems := rems\<rparr>)
          })"

definition event_log_dump :: "(nat \<Rightarrow> bool) \<Rightarrow> sha_fun \<Rightarrow> event_log \<Rightarrow> event_log option" where
  "event_log_dump malloc_ok sha log =
     do {
       _ \<leftarrow> event_log_process malloc_ok log;
       (_, log) \<leftarrow> event_log_replay malloc_ok sha log;
       Some log
     }"


section \<open>A walk extends the register bank\<close>

text \<open>
  The end-of-log test of the walks can never succeed: \<open>rem_index\<close> is the register number
  less one, or zero.
\<close>

lemma rem_of_register_not_magic: "rem_of_register reg \<noteq> EVENT_LOG_MAGIC"
  by (auto simp: rem_of_register_def diff_eq_eq)

lemma no_action_rem_index:
  "process_no_action malloc_ok b init p e1 = Some (ok, pos', e) \<Longrightarrow> rem_index e = rem_index e1"
  unfolding process_no_action_def Let_def by (auto split: bind_splits if_splits prod.splits)

lemma digests_rem_index:
  "process_digests malloc_ok b p e1 = Some (ok, pos', e) \<Longrightarrow> rem_index e = rem_index e1"
  unfolding process_digests_def Let_def by (auto split: bind_splits if_splits prod.splits)

lemma event_data_rem_index:
  "process_event_data malloc_ok b init p e1 = Some (ok, pos', e) \<Longrightarrow> rem_index e = rem_index e1"
  unfolding process_event_data_def Let_def by (auto split: bind_splits if_splits prod.splits)

lemmas rem_index_kept = no_action_rem_index digests_rem_index event_data_rem_index

lemma rem_index_not_magic:
  assumes "process_event_log_entry malloc_ok b pos = Some (True, pos', e)"
  shows "rem_index e \<noteq> EVENT_LOG_MAGIC"
proof -
  obtain reg where "rem_index e = rem_of_register reg"
    using assms
    by (auto simp: process_event_log_entry_def Let_def bind_eq_Some_conv dest!: rem_index_kept
        split: if_splits)
  then show ?thesis by (simp add: rem_of_register_not_magic)
qed

lemma replay_pass_entries:
  "log_entries malloc_ok b pos = Some es \<Longrightarrow>
   replay_pass malloc_ok sha b sel pos rems = foldM (replay_entry sha sel) es rems"
proof (induction arbitrary: rems rule: log_entries_Some_induct)
  case (stop pos)
  then show ?case by (subst replay_pass.simps) (auto simp: log_done_def)
next
  case (entry pos pos' e es)
  then show ?case using rem_index_not_magic [OF entry(2)]
    by (subst replay_pass.simps) (auto split: bind_split)
qed

text \<open>The digests a walk feeds to the registers.\<close>

definition extensions :: "(u32 \<Rightarrow> bool) \<Rightarrow> event_log_entry list \<Rightarrow> (nat \<times> bytes) list" where
  "extensions sel es =
     map (\<lambda>e. (unat (rem_index e), first_digest e))
       (filter (\<lambda>e. sel (event_type e) \<and> digest_count e > 0) es)"

lemma replay_fold:
  assumes "\<And>e. e \<in> set es \<Longrightarrow> sel (event_type e) \<Longrightarrow> unat (rem_index e) < REM_COUNT \<Longrightarrow>
      digest_count e > 0 \<Longrightarrow> \<exists>d. digests e = Some d \<and> 32 \<le> length d"
    and "length rems = REM_COUNT"
  shows "foldM (replay_entry sha sel) es rems = Some (rem_bank.run sha (extensions sel es) rems)"
  using assms
proof (induction es arbitrary: rems)
  case Nil
  then show ?case by (simp add: extensions_def)
next
  case (Cons e es)
  let ?c = "sel (event_type e) \<and> unat (rem_index e) < REM_COUNT \<and> digest_count e > 0"
  let ?rems = "if ?c then extend_rems sha (unat (rem_index e)) (first_digest e) rems else rems"
  have "\<exists>d. digests e = Some d \<and> 32 \<le> length d" if ?c
    using Cons.prems(1) [of e] that by simp
  then have "replay_entry sha sel e rems = Some ?rems"
    using Cons.prems(2) by (auto simp: replay_entry_def mem_read_def mem_at_def extend_rems_def first_digest_def)
  moreover have "foldM (replay_entry sha sel) es ?rems
      = Some (rem_bank.run sha (extensions sel es) ?rems)"
    using Cons.prems by (intro Cons.IH) (auto simp: extend_rems_def)
  ultimately show ?case by (auto simp: extensions_def)
qed


lemma map_rem_init: "length rems = REM_COUNT \<Longrightarrow> map rem_init rems = init_rems"
  by (intro nth_equalityI) (auto simp: init_rems_def rem_init_def intro!: rem_t_eqI)

text \<open>
  On a log with well-formed entries, whose Spec ID events carry no digest count, replay
  terminates and leaves the bank that results from extending zeroed registers with the
  first digest of each event.
\<close>

lemma event_log_replay_run:
  assumes es: "log_entries malloc_ok (log_blob log) 0 = Some es" "list_all entry_ok es" "length es < 2 ^ 32"
    and na: "\<And>e. e \<in> set es \<Longrightarrow> event_type e = EV_NO_ACTION \<Longrightarrow> digest_count e = 0"
    and m: "\<And>n. malloc_ok n" and rems: "length (log_rems log) = REM_COUNT"
  shows "event_log_replay malloc_ok sha log =
     Some (True, log\<lparr>log_rems := rem_bank.run sha (extensions (\<lambda>_. True) es) init_rems\<rparr>)"
proof -
  obtain st where st: "firmware_log_state_create malloc_ok = Some st"
    using m by (simp add: firmware_log_state_create_def)
  obtain st' where st': "firmware_log_state_extract malloc_ok (log_blob log) st = Some (True, st')"
    using firmware_log_state_extract_refines [OF es m st] by blast
  have dig: "\<exists>d. digests e = Some d \<and> 32 \<le> length d" if "e \<in> set es" "digest_count e > 0" for e
    using es(2) that by (auto simp: list_all_iff entry_ok_def)
  have 1: "foldM (replay_entry sha (\<lambda>ty. ty = 0x3)) es init_rems = Some init_rems"
  proof -
    have "filter (\<lambda>e. event_type e = 3 \<and> 0 < digest_count e) es = []"
      using na by (auto simp: filter_empty_conv)
    then show ?thesis
      using replay_fold [of es "\<lambda>ty. ty = 0x3" init_rems sha] dig by (simp add: extensions_def init_rems_def)
  qed
  have "extensions (\<lambda>ty. ty \<noteq> 0x3) es = extensions (\<lambda>_. True) es"
    using na by (auto simp: extensions_def intro!: filter_cong arg_cong [of _ _ "map _"])
  then have 2: "foldM (replay_entry sha (\<lambda>ty. ty \<noteq> 0x3)) es init_rems =
      Some (rem_bank.run sha (extensions (\<lambda>_. True) es) init_rems)"
    using replay_fold [of es "\<lambda>ty. ty \<noteq> 0x3" init_rems sha] dig by (simp add: init_rems_def)
  show ?thesis
    by (simp add: event_log_replay_def st st' map_rem_init [OF rems] replay_pass_entries [OF es(1)] 1 2)
qed


section \<open>Replay of an encoded log\<close>

text \<open>The digests an event log is meant to extend into register \<open>i\<close>.\<close>

fun event_extends :: "nat \<Rightarrow> tcg_event \<Rightarrow> bytes list" where
  "event_extends i (Spec_Id reg k sha1 ident algs vendor) = []"
| "event_extends i (Event reg ty ds data) =
     (if unat (rem_of_register reg) = i \<and> ds \<noteq> [] then [snd (hd ds)] else [])"

fun spec_id_ok :: "tcg_event \<Rightarrow> bool" where
  "spec_id_ok (Spec_Id reg k sha1 ident algs vendor) = (k = 0)"
| "spec_id_ok (Event reg ty ds data) = True"

lemma entry_of_ok: "ev_ok ev \<Longrightarrow> spec_id_ok ev \<Longrightarrow> entry_ok (entry_of ev)"
proof (cases ev)
  case (Event reg ty ds data)
  assume ok: "ev_ok ev"
  have ds: "list_all (\<lambda>(a, d). length d = 32) ds" using ok by (simp add: Event)
  have len: "unat (of_nat (length (enc_event ev)) :: u32) = length (enc_event ev)"
    using ok by (intro of_nat_u32_inverse) (simp add: Event)
  show ?thesis using len length_concat_digests [OF ds]
    by (cases ds) (auto simp: Event entry_ok_def zero_entry_def)
next
  case (Spec_Id reg k sha1 ident algs vendor)
  assume ok: "ev_ok ev" and k: "spec_id_ok ev"
  have len: "unat (of_nat (length (enc_event ev)) :: u32) = length (enc_event ev)"
    using ok by (intro of_nat_u32_inverse) (simp add: Spec_Id)
  show ?thesis using len k by (auto simp: Spec_Id entry_ok_def zero_entry_def)
qed

lemma no_action_entry:
  "ev_ok ev \<Longrightarrow> spec_id_ok ev \<Longrightarrow> event_type (entry_of ev) = EV_NO_ACTION \<Longrightarrow> digest_count (entry_of ev) = 0"
  by (cases ev) (auto simp: zero_entry_def)

lemma extensions_entry_of:
  assumes "list_all ev_ok evs" "list_all spec_id_ok evs"
  shows "map snd (filter (\<lambda>(j, d). j = i) (extensions (\<lambda>_. True) (map entry_of evs))) =
           concat (map (event_extends i) evs)"
  using assms
proof (induction evs)
  case Nil
  then show ?case by (simp add: extensions_def)
next
  case (Cons ev evs)
  show ?case
  proof (cases ev)
    case (Spec_Id reg k sha1 ident algs vendor)
    then show ?thesis using Cons by (simp add: extensions_def zero_entry_def)
  next
    case (Event reg ty ds data)
    have ds: "list_all (\<lambda>(a, d). length d = 32) ds" using Cons.prems by (simp add: Event)
    have u: "unat (of_nat (length ds) :: u32) = length ds"
      using Cons.prems ds by (intro of_nat_u32_inverse) (simp add: Event length_enc_digests)
    have "(of_nat (length ds) :: u32) > 0 \<longleftrightarrow> ds \<noteq> []"
      by (simp add: word_less_nat_alt u)
    moreover have "take 32 (concat (map snd ds)) = snd (hd ds)" if "ds \<noteq> []"
      using that ds by (cases ds) (auto simp: case_prod_beta)
    ultimately show ?thesis using Cons
      by (cases "ds = []") (auto simp: Event extensions_def zero_entry_def first_digest_def)
  qed
qed


section \<open>Logs that do not end\<close>

lemma init_blob_at:
  assumes "event_log_init (Some bs) base = Some log" "length bs < 2 ^ 64"
  shows "blob_at (log_blob log) 0 bs" "length (log_rems log) = REM_COUNT"
  using assms
  by (auto simp: event_log_init_def binary_blob_init_def blob_at_def blob_wf_def init_rems_def
      split: if_splits)

lemma replay_pass_SomeD:
  assumes "replay_pass malloc_ok sha b sel pos rems = Some rems'"
  shows "\<exists>es. log_entries malloc_ok b pos = Some es"
proof -
  let ?Q = "\<lambda>mo (sh :: sha_fun) bb (se :: u32 \<Rightarrow> bool) p (r :: rem_t list) (r' :: rem_t list).
    \<exists>es. log_entries mo bb p = Some es"
  show ?thesis
  proof (rule replay_pass.raw_induct [where P = ?Q, OF _ assms])
    fix f :: "(nat \<Rightarrow> bool) \<Rightarrow> sha_fun \<Rightarrow> binary_blob \<Rightarrow> (u32 \<Rightarrow> bool) \<Rightarrow> nat \<Rightarrow> rem_t list \<Rightarrow> rem_t list option"
      and mo sh bb se p r r'
    assume IH: "\<And>mo sh bb se p r r'. f mo sh bb se p r = Some r' \<Longrightarrow> \<exists>es. log_entries mo bb p = Some es"
      and eq: "(if p < blob_length bb then
        Option.bind (process_event_log_entry mo bb p) (\<lambda>(ok, pos', e).
          if \<not> ok then Some r
          else if rem_index e = EVENT_LOG_MAGIC \<and> event_type e = EVENT_LOG_MAGIC then Some r
          else Option.bind (replay_entry sh se e r) (\<lambda>rems'. f mo sh bb se pos' rems'))
        else Some r) = Some r'"
    show "\<exists>es. log_entries mo bb p = Some es"
    proof (cases "process_event_log_entry mo bb p")
      case None
      then show ?thesis using eq by (subst log_entries.simps) (auto split: if_splits)
    next
      case (Some x)
      obtain ok pos' e where x: "x = (ok, pos', e)" by (cases x)
      have "\<exists>es. log_entries mo bb pos' = Some es" if "ok" "p < blob_length bb"
        using eq Some that rem_index_not_magic [of mo bb p pos' e]
        by (auto simp: x split: bind_splits dest: IH)
      then show ?thesis by (subst log_entries.simps) (auto simp: Some x)
    qed
  qed
qed

lemma event_log_replay_entries:
  assumes "\<And>n. malloc_ok n" "log_entries malloc_ok (log_blob log) 0 = None"
  shows "event_log_replay malloc_ok sha log = None"
  using assms replay_pass_SomeD [of malloc_ok sha "log_blob log" "\<lambda>ty. ty = 0x3" 0 "map rem_init (log_rems log)"]
  by (cases "replay_pass malloc_ok sha (log_blob log) (\<lambda>ty. ty = 0x3) 0 (map rem_init (log_rems log))")
    (auto simp: event_log_replay_def firmware_log_state_create_def)

lemma event_log_replay_broken:
  assumes init: "event_log_init (Some (enc_log evs @ t)) base = Some log"
    and evs: "list_all ev_ok evs" and len: "length (enc_log evs @ t) < 2 ^ 64" and m: "\<And>n. malloc_ok n"
    and rest: "\<And>b pos. blob_at b pos t \<Longrightarrow> blob_length b = length (enc_log evs @ t) \<Longrightarrow>
        log_entries malloc_ok b pos = None"
  shows "event_log_replay malloc_ok sha log = None"
proof -
  note at = init_blob_at(1) [OF init len]
  have "blob_at (log_blob log) (0 + length (enc_log evs)) t" using blob_at_bytes(2) [OF at refl] by simp
  moreover have "blob_length (log_blob log) = length (enc_log evs @ t)" using blob_at_bound [OF at] by simp
  ultimately have "log_entries malloc_ok (log_blob log) (0 + length (enc_log evs)) = None" by (rule rest)
  then show ?thesis using log_entries_enc_prefix [OF at evs, of malloc_ok] m by (intro event_log_replay_entries) auto
qed

section \<open>Register sizes\<close>

lemma replay_entry_wf:
  "sha_ok sha \<Longrightarrow> rems_wf rems \<Longrightarrow> replay_entry sha sel e rems = Some rems' \<Longrightarrow> rems_wf rems'"
  by (auto simp: replay_entry_def mem_at_def rems_wf_def list_all_length nth_list_update update_rem_wf
      split: if_splits bind_splits)

lemma replay_pass_wf:
  assumes "sha_ok sha" "rems_wf rems" "replay_pass malloc_ok sha b sel pos rems = Some rems'"
  shows "rems_wf rems'"
proof -
  obtain es where "log_entries malloc_ok b pos = Some es" using replay_pass_SomeD [OF assms(3)] by blast
  then have "foldM (replay_entry sha sel) es rems = Some rems'"
    using assms(3) replay_pass_entries [of malloc_ok b pos es sha sel rems] by simp
  then show ?thesis by (rule foldM_inv) (use assms(1,2) replay_entry_wf in blast)+
qed

lemma event_log_replay_wf:
  assumes "sha_ok sha" "event_log_replay malloc_ok sha log = Some (ok, log')" "length (log_rems log) = REM_COUNT"
  shows "rems_wf (log_rems log')" "log_blob log' = log_blob log"
proof -
  have i: "rems_wf (map rem_init (log_rems log))" using map_rem_init [OF assms(3)] by simp
  show "rems_wf (log_rems log')" "log_blob log' = log_blob log"
    using assms(2) i
    by (auto simp: event_log_replay_def Let_def split: option.splits bind_splits prod.splits
        dest!: replay_pass_wf [OF assms(1), rotated])
qed

section \<open>Properties\<close>

lemma event_log_replay_enc:
  assumes init: "event_log_init (Some (enc_log evs @ t)) base = Some log"
    and evs: "list_all ev_ok evs" "list_all spec_id_ok evs" "length evs < 2 ^ 32"
    and t: "log_end t" "length (enc_log evs @ t) < 2 ^ 64"
    and m: "\<And>n. malloc_ok n"
  shows "event_log_replay malloc_ok sha log = Some (True, log\<lparr>log_rems :=
     map (\<lambda>i. foldl (update_rem sha) \<lparr>rem_data = replicate 32 0\<rparr> (concat (map (event_extends i) evs)))
       [0..<REM_COUNT]\<rparr>)"
proof -
  let ?es = "map entry_of evs"
  have es: "log_entries malloc_ok (log_blob log) 0 = Some ?es"
    using log_entries_enc_log [OF init_blob_at(1) [OF init t(2)] t(1) evs(1) m] .
  have ok: "list_all entry_ok ?es"
    using evs by (auto simp: list_all_iff intro!: entry_of_ok)
  have na: "digest_count e = 0" if "e \<in> set ?es" "event_type e = EV_NO_ACTION" for e
    using that evs by (auto simp: list_all_iff no_action_entry)
  have r: "event_log_replay malloc_ok sha log =
      Some (True, log\<lparr>log_rems := rem_bank.run sha (extensions (\<lambda>_. True) ?es) init_rems\<rparr>)"
    using event_log_replay_run [OF es ok _ na m init_blob_at(2) [OF init t(2)]] evs(3) by simp
  have l: "length (rem_bank.run sha (extensions (\<lambda>_. True) ?es) init_rems) = REM_COUNT"
    by (rule rem_bank.run_inv) (simp add: init_rems_def)
  have "rem_bank.run sha (extensions (\<lambda>_. True) ?es) init_rems ! i
      = foldl (update_rem sha) \<lparr>rem_data = replicate 32 0\<rparr> (concat (map (event_extends i) evs))" if "i < REM_COUNT" for i
    using rem_bank.run_reg [of init_rems i sha] that extensions_entry_of [OF evs(1,2)]
    by (simp add: init_rems_def)
  then have "rem_bank.run sha (extensions (\<lambda>_. True) ?es) init_rems =
      map (\<lambda>i. foldl (update_rem sha) \<lparr>rem_data = replicate 32 0\<rparr> (concat (map (event_extends i) evs))) [0..<REM_COUNT]"
    using l by (intro nth_equalityI) (simp_all del: upt_Suc)
  then show ?thesis using r by simp
qed

text \<open>A small boot log and a hash with 32-byte results, for evaluation.\<close>

definition sample_events :: "tcg_event list" where
  "sample_events =
     [Spec_Id 0 0 (replicate 20 0) (replicate 24 0) [(0xB, 32)] [],
      Event 1 0x80000003 [(0xB, replicate 32 7)] [1, 2],
      Event 2 0xd [(0xB, replicate 32 8)] (bytes_of_string ''(hd0)/grub.cfg '' @ [0]),
      Event 3 0xd [(0xB, replicate 32 9)] (bytes_of_string ''/vmlinuz-6 '' @ [0]),
      Event 3 0xd [(0xB, replicate 32 10)] (bytes_of_string ''/initramfs-6 '' @ [0])]"

lemma sample_events_ok:
  "list_all ev_ok sample_events" "list_all spec_id_ok sample_events" "length sample_events < 2 ^ 32"
  "length (enc_log sample_events) < 2 ^ 64" "length (enc_log sample_events @ []) < 2 ^ 64" "log_end []"
  by (simp_all add: sample_events_def log_end_def)

lemma sample_log_init:
  "\<exists>log. event_log_init (Some (enc_log sample_events @ [])) 0 = Some log"
  using sample_events_ok(4) by (simp add: event_log_init_def binary_blob_init_def sample_events_def)

definition toy_sha :: sha_fun where
  "toy_sha m = Some (take 32 (drop 32 m @ m @ replicate 32 0))"

lemma toy_sha_ok: "sha_ok toy_sha"
  by (auto simp: sha_ok_def toy_sha_def)

lemma sample_replay:
  assumes "event_log_init (Some (enc_log sample_events @ [])) 0 = Some log"
  shows "event_log_replay (\<lambda>_. True) toy_sha log =
     Some (True, log\<lparr>log_rems := map (\<lambda>b. \<lparr>rem_data = replicate 32 b\<rparr>) [7, 8, 10, 0]\<rparr>)"
proof -
  have x: "concat (map (event_extends 0) sample_events) = [replicate 32 7]"
    "concat (map (event_extends 1) sample_events) = [replicate 32 8]"
    "concat (map (event_extends 2) sample_events) = [replicate 32 9, replicate 32 10]"
    "concat (map (event_extends 3) sample_events) = []"
    by code_simp+
  have u: "[0..<REM_COUNT] = [0, 1, 2, 3]" by (simp add: upt_rec)
  show ?thesis
    unfolding event_log_replay_enc [where malloc_ok = "\<lambda>_. True", OF assms sample_events_ok(1,2,3,6,5) TrueI] u list.map x
    by (simp add: update_rem_def toy_sha_def)
qed

lemma sample_events_kinds:
  "is_grub (entry_of (sample_events ! 2))" "is_file kernel_path (entry_of (sample_events ! 3))"
  "is_file initrd_path (entry_of (sample_events ! 4))"
  by code_simp+

lemma sample_events_view:
  "map first_digest (filter (\<lambda>e. is_efi e \<and> digest_count e > 0) (map entry_of sample_events)) = [replicate 32 7]"
  "map_option first_digest (find is_grub (map entry_of sample_events)) = Some (replicate 32 8)"
  "map_option first_digest (find (is_file kernel_path) (after is_grub (map entry_of sample_events))) =
     Some (replicate 32 9)"
  "map_option first_digest (find (is_file initrd_path) (after (is_file kernel_path)
     (after is_grub (map entry_of sample_events)))) = Some (replicate 32 10)"
proof -
  have n: "\<not> is_grub (entry_of (sample_events ! 0))" "\<not> is_grub (entry_of (sample_events ! 1))"
    by (simp_all add: is_grub_def sample_events_def zero_entry_def)
  have l: "map entry_of sample_events = map (\<lambda>i. entry_of (sample_events ! i)) [0, 1, 2, 3, 4]"
    by (simp add: sample_events_def)
  have d: "first_digest (entry_of (sample_events ! 2)) = replicate 32 8"
    "first_digest (entry_of (sample_events ! 3)) = replicate 32 9"
    "first_digest (entry_of (sample_events ! 4)) = replicate 32 10"
    by (simp_all add: first_digest_def sample_events_def zero_entry_def)
  show "map first_digest (filter (\<lambda>e. is_efi e \<and> digest_count e > 0) (map entry_of sample_events)) = [replicate 32 7]"
    by (simp add: first_digest_def is_efi_def sample_events_def zero_entry_def)
  show "map_option first_digest (find is_grub (map entry_of sample_events)) = Some (replicate 32 8)"
    "map_option first_digest (find (is_file kernel_path) (after is_grub (map entry_of sample_events))) =
      Some (replicate 32 9)"
    "map_option first_digest (find (is_file initrd_path) (after (is_file kernel_path)
      (after is_grub (map entry_of sample_events)))) = Some (replicate 32 10)"
    unfolding l by (simp_all add: n sample_events_kinds d One_nat_def [symmetric] del: One_nat_def)
qed

text \<open>
  C11. Replay: after \<open>event_log_replay\<close> of such a log each register holds the hash chain, from
  the zero register, of exactly the first digests of the events addressed to it, in the
  order of the log. Registers 0 and 1 of the log both address \<open>rems[0]\<close>.
\<close>

theorem event_log_replay_chain:
  assumes init: "event_log_init (Some (enc_log evs @ t)) base = Some log"
    and evs: "list_all ev_ok evs" "list_all spec_id_ok evs" "length evs < 2 ^ 32"
    and t: "log_end t" "length (enc_log evs @ t) < 2 ^ 64"
    and m: "\<And>n. malloc_ok n"
  shows "event_log_replay malloc_ok sha log = Some (True, log\<lparr>log_rems :=
     map (\<lambda>i. foldl (update_rem sha) \<lparr>rem_data = replicate 32 0\<rparr> (concat (map (event_extends i) evs)))
       [0..<REM_COUNT]\<rparr>)"
  using event_log_replay_enc [where malloc_ok = malloc_ok, OF init evs t m] .

theorem event_log_replay_chain_witness:
  "\<exists>log. event_log_init (Some (enc_log sample_events @ [])) 0 = Some log \<and>
     event_log_replay (\<lambda>_. True) toy_sha log = Some (True, log\<lparr>log_rems :=
       map (\<lambda>i. foldl (update_rem toy_sha) \<lparr>rem_data = replicate 32 0\<rparr> (concat (map (event_extends i) sample_events)))
         [0..<REM_COUNT]\<rparr>)"
  using sample_log_init
    event_log_replay_chain [OF _ sample_events_ok(1,2,3,6,5), of 0 _ "\<lambda>_. True" toy_sha] by blast

text \<open>
  Round trip of the event log: on a file that holds the encoding of any sequence of
  well-formed events, followed by nothing or by the end marker, a walk of the log ends and
  sees exactly the entries of those events, in order.
\<close>

theorem event_log_roundtrip:
  assumes "event_log_init (Some (enc_log evs @ t)) base = Some log"
    and "list_all ev_ok evs" "log_end t" "length (enc_log evs @ t) < 2 ^ 64" "\<And>n. malloc_ok n"
  shows "log_entries malloc_ok (log_blob log) 0 = Some (map entry_of evs)"
  using log_entries_enc_log [OF init_blob_at(1) [OF assms(1,4)] assms(3,2,5)] .

theorem event_log_roundtrip_witness:
  "\<exists>log. event_log_init (Some (enc_log sample_events @ [])) 0 = Some log \<and>
     log_entries (\<lambda>_. True) (log_blob log) 0 = Some (map entry_of sample_events)"
  using sample_log_init event_log_roundtrip [of sample_events "[]" 0 _ "\<lambda>_. True"] sample_events_ok by blast

text \<open>
  C31. Extraction: on a log whose entries are well formed \<open>firmware_log_state_extract\<close> succeeds, and
  the firmware state holds the first digest of every EFI boot application in order, the
  digest of the first event that names grub.cfg, of the first kernel event after that one
  and of the first initramfs event after the kernel, and nothing else.
\<close>

theorem firmware_extract_behaviour:
  assumes "log_entries malloc_ok b 0 = Some es" "list_all entry_ok es" "length es < 2 ^ 32"
    and "\<And>n. malloc_ok n" "firmware_log_state_create malloc_ok = Some st"
  shows "\<exists>st'. firmware_log_state_extract malloc_ok b st = Some (True, st') \<and>
     hash_algo st' = TPM_ALG_SHA256 \<and>
     holds_view st'
       \<lparr>v_images = map first_digest (filter (\<lambda>e. is_efi e \<and> digest_count e > 0) es),
        v_grub = map_option first_digest (find is_grub es),
        v_kernel = map_option first_digest (find (is_file kernel_path) (after is_grub es)),
        v_initrd = map_option first_digest
          (find (is_file initrd_path) (after (is_file kernel_path) (after is_grub es)))\<rparr>"
proof -
  have "view_of es =
       \<lparr>v_images = map first_digest (filter (\<lambda>e. is_efi e \<and> digest_count e > 0) es),
        v_grub = map_option first_digest (find is_grub es),
        v_kernel = map_option first_digest (find (is_file kernel_path) (after is_grub es)),
        v_initrd = map_option first_digest
          (find (is_file initrd_path) (after (is_file kernel_path) (after is_grub es)))\<rparr>"
    by (rule boot_view.equality) (simp_all add: view_of_closed)
  then show ?thesis using firmware_log_state_extract_refines [OF assms] by simp
qed

theorem firmware_extract_behaviour_witness:
  "\<exists>log st st'. event_log_init (Some (enc_log sample_events @ [])) 0 = Some log \<and>
     firmware_log_state_extract (\<lambda>_. True) (log_blob log) st = Some (True, st') \<and>
     holds_view st' \<lparr>v_images = [replicate 32 7], v_grub = Some (replicate 32 8),
       v_kernel = Some (replicate 32 9), v_initrd = Some (replicate 32 10)\<rparr>"
proof -
  obtain log where log: "event_log_init (Some (enc_log sample_events @ [])) 0 = Some log"
    using sample_log_init by blast
  have es: "log_entries (\<lambda>_. True) (log_blob log) 0 = Some (map entry_of sample_events)"
    using log_entries_enc_log [OF init_blob_at(1) [OF log sample_events_ok(5)] sample_events_ok(6,1)] by simp
  obtain st where st: "firmware_log_state_create (\<lambda>_. True) = Some st"
    by (simp add: firmware_log_state_create_def)
  have ok: "list_all entry_ok (map entry_of sample_events)"
    using sample_events_ok(1,2) by (auto simp: list_all_iff intro!: entry_of_ok)
  show ?thesis
    using log firmware_extract_behaviour [OF es ok _ _ st] sample_events_ok(3)
    unfolding sample_events_view by auto
qed

text \<open>
  C33. Memory safety and progress of the entry parser: on any bytes, if the next entry is not a Spec
  ID event and claims fewer than \<open>2 ^ 27\<close> digests, the parser stays inside the blob and its
  buffers, moves the cursor by at least eight bytes without passing the end, and an accepted entry
  has buffers of exactly the sizes its counters say.
\<close>

theorem process_entry_memory_safe:
  fixes reg ty k :: u32
  assumes "blob_at b pos (word_bytes reg @ word_bytes ty @ word_bytes k @ rest)"
    and "blob_length b + 10240 < 2 ^ 32" "ty \<noteq> EV_NO_ACTION" "unat k < 2 ^ 27"
  shows "\<exists>ok pos' e. process_event_log_entry malloc_ok b pos = Some (ok, pos', e) \<and>
           pos + 8 \<le> pos' \<and> pos' \<le> blob_length b \<and> (ok \<longrightarrow> entry_wf e)"
  using process_entry_safe [OF _ assms(2,1,3,4)] assms(1) by (simp add: blob_at_def)

theorem process_entry_memory_safe_witness:
  "\<exists>ok pos' e. process_event_log_entry (\<lambda>_. False) \<lparr>blob_data = word_bytes (1::u32) @ word_bytes (13::u32) @
       word_bytes (9::u32) @ [1, 2, 3], blob_length = 15, blob_base = 0\<rparr> 0 = Some (ok, pos', e) \<and>
     0 + 8 \<le> pos' \<and> pos' \<le> 15 \<and> (ok \<longrightarrow> entry_wf e)"
  using process_entry_memory_safe
    [of "\<lparr>blob_data = word_bytes (1::u32) @ word_bytes (13::u32) @ word_bytes (9::u32) @ [1, 2, 3],
          blob_length = 15, blob_base = 0\<rparr>" 0 1 13 9 "[1, 2, 3]" "\<lambda>_. False"]
  by (simp add: blob_at_def blob_wf_def)

text \<open>
  Fault: when 1 to 3 bytes follow the events, \<open>event_log_replay\<close> does not return. The parser
  accepts an empty entry there without moving the cursor.
\<close>

theorem event_log_replay_trailing:
  assumes "event_log_init (Some (enc_log evs @ t)) base = Some log"
    and "list_all ev_ok evs" "0 < length t" "length t < 4" "length (enc_log evs @ t) < 2 ^ 63" "\<And>n. malloc_ok n"
  shows "event_log_replay malloc_ok sha log = None"
proof (rule event_log_replay_broken [OF assms(1,2) _ assms(6)])
  show "log_entries malloc_ok b pos = None"
    if "blob_at b pos t" "blob_length b = length (enc_log evs @ t)" for b pos
    using that assms blob_at_bound [OF that(1)] by (intro log_entries_trailing) (auto simp: blob_at_def)
qed (use assms in simp)

theorem event_log_replay_trailing_witness:
  "\<exists>log. event_log_init (Some (enc_log sample_events @ [0])) 0 = Some log \<and>
     event_log_replay (\<lambda>_. True) toy_sha log = None"
proof -
  obtain log where "event_log_init (Some (enc_log sample_events @ [0])) 0 = Some log"
    using sample_events_ok(4) by (auto simp: event_log_init_def binary_blob_init_def sample_events_def)
  then show ?thesis
    using event_log_replay_trailing [of sample_events "[0]" 0 log "\<lambda>_. True" toy_sha] sample_events_ok
    by (auto simp: sample_events_def)
qed

text \<open>
  C40. Fault: an event that claims \<open>2 ^ 27\<close> digests or more makes \<open>event_log_replay\<close> write past
  its digest buffer, whatever follows.
\<close>

theorem event_log_replay_overflow:
  fixes reg ty k :: u32
  assumes "event_log_init (Some (enc_log evs @ word_bytes reg @ word_bytes ty @ word_bytes k @ rest)) base = Some log"
    and "list_all ev_ok evs" "ty \<noteq> EV_NO_ACTION" "ty \<noteq> EVENT_LOG_MAGIC" "2 ^ 27 \<le> unat k"
    and "length (enc_log evs) + length rest < 2 ^ 63" "\<And>n. malloc_ok n"
  shows "event_log_replay malloc_ok sha log = None"
proof (rule event_log_replay_broken [OF assms(1,2) _ assms(7)])
  let ?t = "word_bytes reg @ word_bytes ty @ word_bytes k @ rest"
  show "log_entries malloc_ok b pos = None"
    if at: "blob_at b pos ?t" and "blob_length b = length (enc_log evs @ ?t)" for b pos
  proof -
    have "process_event_log_entry malloc_ok b pos = None"
      using process_entry_overflow [OF _ _ at assms(3) _ assms(5), of malloc_ok] that assms by (auto simp: blob_at_def)
    moreover have "pos < blob_length b" using blob_at_bound [OF at] by simp
    ultimately show ?thesis by (subst log_entries.simps) simp
  qed
qed (use assms in simp)

theorem event_log_replay_overflow_witness:
  "\<exists>log. event_log_init (Some (enc_log [] @ word_bytes (1::u32) @ word_bytes (13::u32) @
       word_bytes (0x8000000::u32) @ [])) 0 = Some log \<and>
     event_log_replay (\<lambda>_. True) toy_sha log = None"
proof -
  obtain log where "event_log_init (Some (enc_log [] @ word_bytes (1::u32) @ word_bytes (13::u32) @
       word_bytes (0x8000000::u32) @ [])) 0 = Some log"
    by (auto simp: event_log_init_def binary_blob_init_def)
  then show ?thesis
    using event_log_replay_overflow [of "[]" 1 13 "0x8000000" "[]" 0 log "\<lambda>_. True" toy_sha]
    by auto
qed

text \<open>
  Printing a log: on the encoding of well-formed events \<open>event_log_process\<close> ends, and it stays
  inside its buffers exactly when no event names a first algorithm longer than its digests and no
  Spec ID event carries a digest count; otherwise it reads outside the digest buffer.
\<close>

theorem event_log_process_printable:
  assumes "event_log_init (Some (enc_log evs @ t)) base = Some log"
    and "list_all ev_ok evs" "log_end t" "length (enc_log evs @ t) < 2 ^ 64" "\<And>n. malloc_ok n"
  shows "event_log_process malloc_ok log = (if list_all printable evs then Some True else None)"
  using event_log_process_loop_enc [where c = 0 and malloc_ok = malloc_ok, OF init_blob_at(1) [OF assms(1,4)] assms(3,2,5)]
  by (simp add: event_log_process_def)

theorem event_log_process_printable_witness:
  "\<exists>log. event_log_init (Some (enc_log [Event 1 13 [(0xD, replicate 32 7)] []] @ [])) 0 = Some log \<and>
     event_log_process (\<lambda>_. True) log = None"
proof -
  let ?evs = "[Event 1 13 [(0xD, replicate 32 7)] []]"
  obtain log where "event_log_init (Some (enc_log ?evs @ [])) 0 = Some log"
    by (auto simp: event_log_init_def binary_blob_init_def)
  then show ?thesis
    using event_log_process_printable [of ?evs "[]" 0 log "\<lambda>_. True"]
    by (auto simp: log_end_def get_digest_size_def)
qed

end
