(* ===== verification/Utils.thy ===== *)
theory Utils
  imports Prelude
begin

text \<open>
  The helpers of \<open>attestation/samples/src/utils.c\<close>: hexadecimal input, and reading and
  writing whole files. The file system is a map from paths to contents; \<open>malloc_ok\<close> and
  \<open>io_ok\<close> say whether an allocation and the transfer of a file's data succeed. The shell
  command of \<open>download_cert_pem\<close> is the parameter \<open>sys\<close>.
\<close>

type_synonym files = "string \<rightharpoonup> bytes"

section \<open>Hexadecimal digits\<close>

definition hex_value :: "char \<Rightarrow> nat option" where
  "hex_value c =
     (let n = of_char c :: nat in
      if 48 \<le> n \<and> n \<le> 57 then Some (n - 48)
      else if 97 \<le> n \<and> n \<le> 102 then Some (n - 87)
      else if 65 \<le> n \<and> n \<le> 70 then Some (n - 55)
      else None)"

definition isspace :: "char \<Rightarrow> bool" where
  "isspace c = (let n = of_char c :: nat in n = 32 \<or> 9 \<le> n \<and> n \<le> 13)"

definition hex_digit :: "nat \<Rightarrow> char" where
  "hex_digit n = (if n < 10 then char_of (48 + n) else char_of (87 + n))"

text \<open>
  What \<open>sscanf\<close> stores in a byte for \<open>%02x\<close> or \<open>%2hhx\<close>: leading white space is skipped, then
  at most two characters are taken, a sign among them; a lone \<open>0x\<close> is no number.
\<close>

definition scan_field2 :: "string \<Rightarrow> u8 option" where
  "scan_field2 f =
     (case f of
        [] \<Rightarrow> None
      | [c] \<Rightarrow> map_option of_nat (hex_value c)
      | c # d # _ \<Rightarrow>
          if c = CHR ''-'' then map_option (\<lambda>n. - of_nat n) (hex_value d)
          else if c = CHR ''+'' then map_option of_nat (hex_value d)
          else if c = CHR ''0'' \<and> (d = CHR ''x'' \<or> d = CHR ''X'') then None
          else (case (hex_value c, hex_value d) of
                  (Some a, Some b) \<Rightarrow> Some (of_nat (16 * a + b))
                | (Some a, None) \<Rightarrow> Some (of_nat a)
                | _ \<Rightarrow> None))"

definition sscanf_2x :: "string \<Rightarrow> u8 option" where
  "sscanf_2x s = scan_field2 (take 2 (dropWhile isspace s))"

text \<open>\<open>sprintf ("%02x", b)\<close>\<close>

definition sprintf_02x :: "u8 \<Rightarrow> string" where
  "sprintf_02x b = [hex_digit (unat b div 16), hex_digit (unat b mod 16)]"


text \<open>\<open>printf ("%ld", n)\<close>\<close>

fun printf_nat :: "nat \<Rightarrow> string" where
  "printf_nat n = (if n < 10 then [char_of (48 + n)] else printf_nat (n div 10) @ [char_of (48 + n mod 10)])"

declare printf_nat.simps [simp del]

definition printf_ld :: "int \<Rightarrow> string" where
  "printf_ld n = (if n < 0 then ''-'' @ printf_nat (nat (- n)) else printf_nat (nat n))"


definition digits_value :: "string \<Rightarrow> int" where
  "digits_value ds = foldl (\<lambda>n c. 10 * n + (of_char c - 48)) 0 ds"

text \<open>\<open>atoi\<close>; a value that is no \<open>int\<close> is undefined behaviour.\<close>

definition atoi :: "string \<Rightarrow> int option" where
  "atoi s =
     (let t = dropWhile isspace s;
          neg = (t \<noteq> [] \<and> hd t = CHR ''-'');
          t = (if t \<noteq> [] \<and> (hd t = CHR ''-'' \<or> hd t = CHR ''+'') then tl t else t);
          v = digits_value (takeWhile (\<lambda>c. 48 \<le> (of_char c :: nat) \<and> (of_char c :: nat) \<le> 57) t);
          v = (if neg then - v else v) in
      if - (2 ^ 31) \<le> v \<and> v < 2 ^ 31 then Some v else None)"


section \<open>\<open>hex_to_bytes\<close>\<close>

text \<open>The loop from index \<open>i\<close> on; \<open>inp\<close> is the C string at \<open>in\<close>.\<close>

fun hex_to_bytes_loop :: "string \<Rightarrow> nat \<Rightarrow> nat \<Rightarrow> bytes \<Rightarrow> (bool \<times> bytes) option" where
  "hex_to_bytes_loop inp 0 i out = Some (True, out)"
| "hex_to_bytes_loop inp (Suc n) i out =
     (if i * 2 > length inp then None
      else case sscanf_2x (drop (i * 2) inp) of
          None \<Rightarrow> Some (False, out)
        | Some b \<Rightarrow>
            do {
              out \<leftarrow> mem_write out i [b];
              hex_to_bytes_loop inp n (Suc i) out
            })"

definition hex_to_bytes :: "string \<Rightarrow> nat \<Rightarrow> bytes \<Rightarrow> nat \<Rightarrow> (int \<times> bytes \<times> nat) option" where
  "hex_to_bytes inp in_len out out_len =
     (if in_len mod 2 \<noteq> 0 \<or> in_len div 2 > out_len then Some (1, out, out_len)
      else do {
        (ok, out) \<leftarrow> hex_to_bytes_loop inp (in_len div 2) 0 out;
        Some (if ok then (0, out, in_len div 2) else (1, out, out_len))
      })"


section \<open>Files\<close>

text \<open>\<open>access (path) == 0\<close> on the path cut to \<open>PATH_MAX\<close>.\<close>

definition file_exists :: "files \<Rightarrow> string \<Rightarrow> string \<Rightarrow> bool" where
  "file_exists fs dir filename = (fs (take 4095 (dir @ ''/'' @ filename)) \<noteq> None)"

definition download_cert_pem ::
  "(string \<Rightarrow> files \<Rightarrow> int \<times> files) \<Rightarrow> files \<Rightarrow> string \<Rightarrow> string \<Rightarrow> string \<Rightarrow> int \<times> files"
where
  "download_cert_pem sys fs dir filename url =
     (let cmdline = ''wget -O '' @ dir @ ''/'' @ filename @ '' '' @ url in
      if length cmdline \<ge> 1000 then (1, fs)
      else if \<not> file_exists fs dir filename then
        let (rc, fs') = sys cmdline fs in if rc \<noteq> 0 then (1, fs') else (0, fs')
      else (0, fs))"

text \<open>
  \<open>read_file_data\<close>: the code tests \<open>file_data\<close>, the address of the caller's pointer, and not
  the result of \<open>malloc\<close>, so a failed allocation is read into.
\<close>

definition read_file_data ::
  "(nat \<Rightarrow> bool) \<Rightarrow> (string \<Rightarrow> bool) \<Rightarrow> files \<Rightarrow> string \<Rightarrow> (int \<times> bytes option) option"
where
  "read_file_data malloc_ok io_ok fs name =
     (case fs name of
        None \<Rightarrow> Some (1, None)
      | Some d \<Rightarrow>
          if \<not> malloc_ok (length d + 1) then None
          else if \<not> io_ok name then Some (1, None)
          else Some (0, Some d))"

definition read_file_data_binary ::
  "(nat \<Rightarrow> bool) \<Rightarrow> (string \<Rightarrow> bool) \<Rightarrow> files \<Rightarrow> string \<Rightarrow> bytes option"
where
  "read_file_data_binary malloc_ok io_ok fs name =
     (case fs name of
        None \<Rightarrow> None
      | Some d \<Rightarrow>
          if \<not> malloc_ok (length d) then None
          else if \<not> io_ok name then None
          else Some d)"

definition save_file_data ::
  "(string \<Rightarrow> bool) \<Rightarrow> (string \<Rightarrow> bool) \<Rightarrow> files \<Rightarrow> string \<Rightarrow> bytes \<Rightarrow> int \<times> files"
where
  "save_file_data open_ok io_ok fs name d =
     (if \<not> open_ok name then (1, fs)
      else if \<not> io_ok name then (1, fs(name \<mapsto> []))
      else (0, fs(name \<mapsto> d)))"

text \<open>The text up to the first NUL, as the callers' string functions see it.\<close>

definition c_string :: "bytes \<Rightarrow> string" where
  "c_string d = map (\<lambda>b. char_of (unat b)) (takeWhile (\<lambda>b. b \<noteq> 0) d)"

definition read_text_file ::
  "(nat \<Rightarrow> bool) \<Rightarrow> (string \<Rightarrow> bool) \<Rightarrow> files \<Rightarrow> string \<Rightarrow> string option"
where
  "read_text_file malloc_ok io_ok fs name =
     (case fs name of
        None \<Rightarrow> None
      | Some d \<Rightarrow>
          if \<not> malloc_ok (length d + 1) then None
          else if \<not> io_ok name then None
          else Some (c_string d))"


section \<open>Round trips\<close>

lemma hex_value_digit: "n < 16 \<Longrightarrow> hex_value (hex_digit n) = Some n"
  by (auto simp: hex_value_def hex_digit_def Let_def)

lemma hex_digit_plain:
  assumes "n < 16"
  shows "\<not> isspace (hex_digit n)" "hex_digit n \<noteq> CHR ''-''" "hex_digit n \<noteq> CHR ''+''"
    "hex_digit n \<noteq> CHR ''x''" "hex_digit n \<noteq> CHR ''X''"
proof -
  show "\<not> isspace (hex_digit n)" using assms by (auto simp: isspace_def hex_digit_def Let_def)
  have "hex_value CHR ''-'' = None" "hex_value CHR ''+'' = None" "hex_value CHR ''x'' = None"
      "hex_value CHR ''X'' = None"
    by (simp_all add: hex_value_def)
  then show "hex_digit n \<noteq> CHR ''-''" "hex_digit n \<noteq> CHR ''+''"
    "hex_digit n \<noteq> CHR ''x''" "hex_digit n \<noteq> CHR ''X''"
    using hex_value_digit [OF assms] by auto
qed

lemma sscanf_sprintf: "sscanf_2x (sprintf_02x b @ rest) = Some b"
proof -
  have b: "unat b < 256" using unat_bound [of b] by simp
  then have d: "unat b div 16 < 16" "unat b mod 16 < 16" by auto
  have "16 * (unat b div 16) + unat b mod 16 = unat b" by simp
  then have "(of_nat (16 * (unat b div 16) + unat b mod 16) :: u8) = b" by (simp only:) simp
  then show ?thesis
    using hex_digit_plain [OF d(1)] hex_digit_plain [OF d(2)] d
    by (simp add: sscanf_2x_def sprintf_02x_def scan_field2_def hex_value_digit del: of_nat_add of_nat_mult)
qed

lemma save_then_read:
  assumes "save_file_data open_ok io_ok fs name d = (0, fs')" "malloc_ok (length d + 1)" "io_ok name"
  shows "read_file_data malloc_ok io_ok fs' name = Some (0, Some d)"
  using assms by (auto simp: save_file_data_def read_file_data_def split: if_splits)


definition hex_string :: "bytes \<Rightarrow> string" where
  "hex_string bs = concat (map sprintf_02x bs)"

lemma hex_string_simps [simp]:
  "hex_string [] = []" "hex_string (b # bs) = sprintf_02x b @ hex_string bs"
  "hex_string (xs @ ys) = hex_string xs @ hex_string ys"
  by (simp_all add: hex_string_def)

lemma length_sprintf_02x [simp]: "length (sprintf_02x b) = 2"
  by (simp add: sprintf_02x_def)

lemma length_hex_string [simp]: "length (hex_string bs) = 2 * length bs"
  by (induction bs) auto

lemma hex_string_inj: "hex_string xs = hex_string ys \<longleftrightarrow> xs = ys"
proof (induction xs arbitrary: ys)
  case Nil
  then show ?case by (cases ys) (auto simp: sprintf_02x_def)
next
  case (Cons x xs)
  note IH = Cons.IH
  show ?case
  proof (cases ys)
    case Nil
    then show ?thesis by (auto simp: sprintf_02x_def)
  next
    case (Cons y ys')
    have "sprintf_02x x = sprintf_02x y \<longleftrightarrow> x = y"
      using sscanf_sprintf [of x "[]"] sscanf_sprintf [of y "[]"] by (metis option.inject)
    then show ?thesis using Cons IH [of ys'] by simp
  qed
qed

lemma hex_to_bytes_loop_hex:
  assumes "length todo = length bs"
  shows "hex_to_bytes_loop (hex_string (pre @ bs) @ rest) (length bs) (length pre) (pre @ todo @ post)
           = Some (True, pre @ bs @ post)"
  using assms
proof (induction bs arbitrary: pre todo)
  case Nil
  then show ?case by simp
next
  case (Cons b bs)
  then obtain t todo' where t: "todo = t # todo'" "length todo' = length bs" by (cases todo) auto
  have "mem_write (pre @ [t] @ (todo' @ post)) (length pre) [b] = Some (pre @ [b] @ (todo' @ post))"
    by (intro mem_write_append) simp
  moreover have "drop (length pre * 2) (hex_string (pre @ b # bs) @ rest) = sprintf_02x b @ (hex_string bs @ rest)"
    by (simp add: mult.commute [of _ 2])
  moreover have "\<not> length pre * 2 > length (hex_string (pre @ b # bs) @ rest)" by simp
  ultimately show ?case using Cons.IH [of todo' "pre @ [b]"] t
    by (simp add: sscanf_sprintf del: hex_string_simps)
qed

lemma hex_to_bytes_roundtrip:
  assumes "length bs \<le> out_len" "length out = out_len"
  shows "hex_to_bytes (hex_string bs) (2 * length bs) out out_len =
           Some (0, bs @ drop (length bs) out, length bs)"
  using hex_to_bytes_loop_hex [of "take (length bs) out" bs "[]" "[]" "drop (length bs) out"] assms
  by (simp add: hex_to_bytes_def)


lemma unat_of_char: "unat (of_char c :: u8) = of_char c"
proof -
  have "(of_char c :: u8) = of_nat (of_char c)" by (rule of_nat_of_char [symmetric])
  moreover have "(of_char c :: nat) < 256" by (rule nat_of_char_less_256)
  ultimately show ?thesis by (simp only: unat_of_nat) simp
qed

lemma c_string_bytes_of_string: "CHR 0x00 \<notin> set s \<Longrightarrow> c_string (bytes_of_string s) = s"
proof (induction s)
  case Nil
  then show ?case by (simp add: c_string_def bytes_of_string_def)
next
  case (Cons c s)
  have "of_char c \<noteq> (0 :: nat)"
  proof
    assume "of_char c = (0 :: nat)"
    then have "c = char_of (0 :: nat)" by (metis char_of_char)
    also have "char_of (0 :: nat) = CHR 0x00" by code_simp
    finally show False using Cons.prems by simp
  qed
  then have "(of_char c :: u8) \<noteq> 0" using unat_of_char [of c] by (metis unat_0)
  then show ?case using Cons unat_of_char [of c] by (simp add: c_string_def bytes_of_string_def)
qed


section \<open>Properties\<close>

text \<open>
  \<open>hex_to_bytes\<close> inverts the hexadecimal printing of bytes: for any output buffer that is
  large enough it succeeds, stores exactly the bytes and their number, and leaves the rest of
  the buffer alone.
\<close>

theorem hex_to_bytes_inverts_printing:
  assumes "length bs \<le> length out"
  shows "hex_to_bytes (hex_string bs) (length (hex_string bs)) out (length out) =
           Some (0, bs @ drop (length bs) out, length bs)"
  using hex_to_bytes_roundtrip [OF assms refl] by simp

theorem hex_to_bytes_inverts_printing_witness:
  "hex_to_bytes ''0aff'' 4 [1, 2, 3] 3 = Some (0, [10, 255, 3], 2)"
proof -
  have "hex_string [10, 255] = ''0aff''"
    by code_simp
  then show ?thesis using hex_to_bytes_inverts_printing [of "[10, 255]" "[1, 2, 3]"]
    by (simp add: eval_nat_numeral)
qed

end
