(* ===== verification/Dump_Text.thy ===== *)
theory Dump_Text
  imports Event_Replay Utils
begin

text \<open>
  What the sample prints of an event log and of a firmware state: the hex dumps of
  \<open>event_log.c\<close> and \<open>binary_blob.c\<close>, the names of events and algorithms, the section of each
  event in \<open>event_log_process\<close> and \<open>firmware_log_state_print\<close>. The result of a printing function
  is the text, without the messages about failed reads; \<^term>\<open>None\<close> is an access outside a
  buffer. A dump is proved to be the rows of
  sixteen bytes one expects, and the text of a well-formed log to show every event at its address.
\<close>

section \<open>Numbers\<close>

definition hex_digit_upper :: "nat \<Rightarrow> char" where
  "hex_digit_upper n = (if n < 10 then char_of (48 + n) else char_of (55 + n))"

text \<open>\<open>%zX\<close>, \<open>%08zX\<close>, \<open>%02X\<close>, \<open>%x\<close> and \<open>%d\<close> of an unsigned 32-bit value.\<close>

fun printf_hex :: "(nat \<Rightarrow> char) \<Rightarrow> nat \<Rightarrow> string" where
  "printf_hex dig n = (if n < 16 then [dig n] else printf_hex dig (n div 16) @ [dig (n mod 16)])"

declare printf_hex.simps [simp del]

definition printf_zX :: "nat \<Rightarrow> string" where
  "printf_zX n = printf_hex hex_digit_upper n"

definition printf_08zX :: "nat \<Rightarrow> string" where
  "printf_08zX n = replicate (8 - length (printf_zX n)) CHR ''0'' @ printf_zX n"

definition printf_02X :: "u8 \<Rightarrow> string" where
  "printf_02X b = [hex_digit_upper (unat b div 16), hex_digit_upper (unat b mod 16)]"

definition printf_x :: "nat \<Rightarrow> string" where
  "printf_x n = printf_hex hex_digit n"

definition printf_d32 :: "u32 \<Rightarrow> string" where
  "printf_d32 w = printf_ld (sint w)"

abbreviation (input) NL :: string where "NL \<equiv> [CHR 0x0A]"


section \<open>Hex dumps\<close>

text \<open>The character column: \<open>isprint\<close> or a dot.\<close>

definition ascii_of :: "u8 \<Rightarrow> char" where
  "ascii_of b = (if 32 \<le> unat b \<and> unat b < 127 then char_of (unat b) else CHR ''.'')"

text \<open>\<open>char ascii_buf[17]\<close>, zeroed, and printed with \<open>%s\<close>.\<close>

definition zero_ascii :: string where
  "zero_ascii = replicate 17 CHR 0x00"

definition ascii_text :: "string \<Rightarrow> string" where
  "ascii_text buf = takeWhile (\<lambda>c. c \<noteq> CHR 0x00) buf"

text \<open>The loop over the bytes from index \<open>i\<close> on: what it prints, and the buffer it leaves.\<close>

fun hex_dump_loop :: "nat \<Rightarrow> nat \<Rightarrow> bytes \<Rightarrow> string \<Rightarrow> string \<times> string" where
  "hex_dump_loop base i [] buf = ([], buf)"
| "hex_dump_loop base i (b # bs) buf =
     (let start = (if i mod 16 = 0
            then (if i > 0 then ''  '' @ ascii_text buf @ NL else []) @ printf_08zX (size_add base i) @ ''  '' else []);
          buf = (if i mod 16 = 0 then zero_ascii else buf);
          (t, buf) = hex_dump_loop base (Suc i) bs (buf[i mod 16 := ascii_of b]) in
      (start @ printf_02X b @ '' '' @ t, buf))"

text \<open>The end of a dump of \<open>n\<close> bytes.\<close>

definition dump_end :: "nat \<Rightarrow> string \<Rightarrow> string" where
  "dump_end n buf = (if n mod 16 \<noteq> 0 then concat (replicate (16 - n mod 16) ''   '') else []) @ ''  '' @ ascii_text buf @ NL"

text \<open>Without a base address the offsets are printed, which is the same.\<close>

definition print_hex_dump :: "bytes \<Rightarrow> nat \<Rightarrow> string" where
  "print_hex_dump data base_addr =
     (let (t, buf) = hex_dump_loop base_addr 0 data zero_ascii in t @ dump_end (length data) buf)"

text \<open>
  The loop of \<open>binary_blob_dump\<close>, which gives up before 32 bytes \<open>0xFF\<close>; then there is no buffer.
\<close>

fun blob_dump_loop :: "nat \<Rightarrow> nat \<Rightarrow> bytes \<Rightarrow> string \<Rightarrow> string \<times> string option" where
  "blob_dump_loop base i [] buf = ([], Some buf)"
| "blob_dump_loop base i (b # bs) buf =
     (if take 32 (b # bs) = replicate 32 0xFF then
        ((if i mod 16 \<noteq> 0 then concat (replicate (16 - i mod 16) ''   '') @ ''  '' @ ascii_text buf @ NL else []) @
         NL @ ''[Remaining data omitted - all 0xFF]'' @ NL, None)
      else
        let start = (if i mod 16 = 0
              then (if i > 0 then ''  '' @ ascii_text buf @ NL else []) @ printf_08zX (size_add base i) @ ''  '' else []);
            buf = (if i mod 16 = 0 then zero_ascii else buf);
            (t, res) = blob_dump_loop base (Suc i) bs (buf[i mod 16 := ascii_of b]) in
        (start @ printf_02X b @ '' '' @ t, res))"

definition blob_header :: "binary_blob \<Rightarrow> string" where
  "blob_header blob = ''Binary Data:'' @ NL @ ''Base Address: 0x'' @ printf_zX (blob_base blob) @ NL @
     ''Length: '' @ printf_nat (blob_length blob) @ '' bytes'' @ NL @ NL"

definition binary_blob_dump :: "binary_blob \<Rightarrow> string option" where
  "binary_blob_dump blob = do {
     d \<leftarrow> mem_read (blob_data blob) 0 (blob_length blob);
     let (t, res) = blob_dump_loop (blob_base blob) 0 d zero_ascii;
     Some (blob_header blob @ t @ (case res of None \<Rightarrow> [] | Some buf \<Rightarrow> dump_end (length d) buf))
   }"


section \<open>Names\<close>

definition get_event_type_string :: "u32 \<Rightarrow> string" where
  "get_event_type_string ty =
     (case map_of
        [(0x0, ''EV_PREBOOT_CERT''), (0x1, ''EV_POST_CODE''), (0x2, ''EV_UNUSED''), (0x3, ''EV_NO_ACTION''),
         (0x4, ''EV_SEPARATOR''), (0x5, ''EV_ACTION''), (0x6, ''EV_EVENT_TAG''), (0x7, ''EV_S_CRTM_CONTENTS''),
         (0x8, ''EV_S_CRTM_VERSION''), (0x9, ''EV_CPU_MICROCODE''), (0xA, ''EV_PLATFORM_CONFIG_FLAGS''),
         (0xB, ''EV_TABLE_OF_DEVICES''), (0xC, ''EV_COMPACT_HASH''), (0xD, ''EV_IPL''), (0xE, ''EV_IPL_PARTITION_DATA''),
         (0xF, ''EV_NONHOST_CODE''), (0x10, ''EV_NONHOST_CONFIG''), (0x11, ''EV_NONHOST_INFO''),
         (0x12, ''EV_OMIT_BOOT_DEVICE_EVENTS''), (0x80000001, ''EV_EFI_VARIABLE_DRIVER_CONFIG''),
         (0x80000002, ''EV_EFI_VARIABLE_BOOT''), (0x80000003, ''EV_EFI_BOOT_SERVICES_APPLICATION''),
         (0x80000004, ''EV_EFI_BOOT_SERVICES_DRIVER''), (0x80000005, ''EV_EFI_RUNTIME_SERVICES_DRIVER''),
         (0x80000006, ''EV_EFI_GPT_EVENT''), (0x80000007, ''EV_EFI_ACTION''),
         (0x80000008, ''EV_EFI_PLATFORM_FIRMWARE_BLOB''), (0x80000009, ''EV_EFI_HANDOFF_TABLES''),
         (0x800000E0, ''EV_EFI_VARIABLE_AUTHORITY'')] ty of
        None \<Rightarrow> ''UNKNOWN'' | Some s \<Rightarrow> s)"

definition get_algorithm_string :: "u16 \<Rightarrow> string" where
  "get_algorithm_string alg =
     (if alg = 0x0 then ''TPM_ALG_ERROR'' else if alg = 0x1 then ''TPM_ALG_RSA''
      else if alg = 0x4 then ''TPM_ALG_SHA1'' else if alg = 0xB then ''TPM_ALG_SHA256''
      else if alg = 0xC then ''TPM_ALG_SHA384'' else if alg = 0xD then ''TPM_ALG_SHA512''
      else if alg = 0x18 then ''TPM_ALG_ECDSA'' else ''UNKNOWN'')"


section \<open>The event log\<close>

abbreviation (input) RAW_DATA :: string where
  "RAW_DATA \<equiv> ''RAW DATA: ----------------------------------------------''"

definition algorithms_text :: "event_log_entry \<Rightarrow> string option" where
  "algorithms_text e =
     (if event_type e = EV_NO_ACTION then do {
        algs \<leftarrow> (if algorithms_number e = 0 then Some []
                 else do { a \<leftarrow> algorithms e; mem_read a 0 (unat (algorithms_number e)) });
        Some (''Algorithms Number : '' @ printf_d32 (algorithms_number e) @ NL @
          concat (map (\<lambda>a. ''  Algorithms[0x'' @ printf_zX (unat (algoid a)) @ ''] Size: '' @
            printf_nat (unat (digestsize a) * 8) @ NL) algs))
      }
      else Some [])"

definition digest_text :: "event_log_entry \<Rightarrow> string option" where
  "digest_text e =
     (if digest_count e > 0 then do {
        ids \<leftarrow> alg_ids e;
        a \<leftarrow> mem_at ids 0;
        let head = ''Algorithms ID     : '' @ printf_nat (unat a) @ '' ('' @ get_algorithm_string a @ '')'' @ NL;
        if get_digest_size a > 0 then do {
          d \<leftarrow> digests e;
          d \<leftarrow> mem_read d 0 (nat (get_digest_size a));
          Some (head @ ''Digest[0] :'' @ NL @ print_hex_dump d 0)
        }
        else Some head
      }
      else Some [])"

definition raw_text :: "nat \<Rightarrow> event_log_entry \<Rightarrow> string option" where
  "raw_text at e =
     (case event e of
        Some d \<Rightarrow>
          if event_size e > 0 then do {
            d \<leftarrow> mem_read d 0 (unat (event_size e));
            Some (RAW_DATA @ NL @ print_hex_dump d at @ RAW_DATA @ NL)
          }
          else Some []
      | None \<Rightarrow> Some [])"

text \<open>The section of the entry with number \<open>k\<close> that ends at the cursor \<open>pos\<close>.\<close>

definition entry_text :: "nat \<Rightarrow> nat \<Rightarrow> nat \<Rightarrow> event_log_entry \<Rightarrow> string option" where
  "entry_text base pos k e = do {
     let at = size_sub (size_add base pos) (unat (event_size e));
     algs \<leftarrow> algorithms_text e;
     digest \<leftarrow> digest_text e;
     raw \<leftarrow> raw_text at e;
     Some (NL @ ''==== VCCA Event Log Entry - '' @ printf_nat k @ '' [0x'' @ printf_zX at @ ''] ===='' @ NL @
       ''REM               : '' @ printf_d32 (rem_index e) @ NL @
       ''Type              : 0x'' @ printf_zX (unat (event_type e)) @ '' ('' @ get_event_type_string (event_type e) @ '')'' @ NL @
       ''Length            : '' @ printf_d32 (event_size e) @ NL @ algs @ digest @ raw)
   }"

text \<open>What can be printed is what the walk of theory \<open>Event_Log\<close> reads.\<close>

lemma algorithms_text_reads:
  "algorithms_text e = Some t \<Longrightarrow> \<exists>x. (if event_type e = 0x3
     then (if algorithms_number e = 0 then Some []
           else do { algs \<leftarrow> algorithms e; mem_read algs 0 (unat (algorithms_number e)) })
     else Some []) = Some x"
  by (simp add: algorithms_text_def split: bind_splits if_splits)

lemma digest_text_reads:
  assumes "digest_text e = Some t" "digest_count e > 0"
  shows "\<exists>ids a. alg_ids e = Some ids \<and> mem_at ids 0 = Some a \<and>
    (get_digest_size a > 0 \<longrightarrow> (\<exists>d x. digests e = Some d \<and> mem_read d 0 (nat (get_digest_size a)) = Some x))"
  using assms unfolding digest_text_def by (fastforce simp: Let_def split: bind_splits if_splits)

lemma entry_text_reads:
  assumes "entry_text base pos k e = Some t"
  shows "print_entry e = Some ()"
proof -
  obtain ax dx where a: "algorithms_text e = Some ax" "digest_text e = Some dx"
    using assms unfolding entry_text_def Let_def by (cases "algorithms_text e"; cases "digest_text e") simp_all
  obtain x where "(if event_type e = 0x3
     then (if algorithms_number e = 0 then Some []
           else do { algs \<leftarrow> algorithms e; mem_read algs 0 (unat (algorithms_number e)) })
     else Some []) = Some x" using algorithms_text_reads [OF a(1)] by blast
  then show ?thesis using digest_text_reads [OF a(2)]
    by (cases "digest_count e > 0") (auto simp: print_entry_def simp del: if_split)
qed

partial_function (option) event_text_loop ::
    "(nat \<Rightarrow> bool) \<Rightarrow> binary_blob \<Rightarrow> nat \<Rightarrow> nat \<Rightarrow> nat \<Rightarrow> string option" where
  "event_text_loop malloc_ok blob base pos k =
     (if pos < blob_length blob then
        Option.bind (process_event_log_entry malloc_ok blob pos) (\<lambda>(ok, pos', e).
          if \<not> ok then Some []
          else Option.bind (entry_text base pos' k e) (\<lambda>t.
            Option.bind (event_text_loop malloc_ok blob base pos' (Suc k)) (\<lambda>r. Some (t @ r))))
      else Some [])"

definition event_log_text :: "(nat \<Rightarrow> bool) \<Rightarrow> event_log \<Rightarrow> string option" where
  "event_log_text malloc_ok log =
     Option.bind (event_text_loop malloc_ok (log_blob log) (log_base log) 0 0) (\<lambda>t.
       Some (''=> Read Event Log Data - Address: 0x'' @ printf_zX (log_base log) @ ''(0x'' @ printf_zX (log_length log) @ '')'' @ NL @ t))"


section \<open>The firmware state\<close>

definition print_hex :: "bytes \<Rightarrow> u32 \<Rightarrow> string option" where
  "print_hex data len = map_option hex_string (mem_read data 0 (unat len))"

definition hash_line :: "string \<Rightarrow> bytes option \<Rightarrow> u32 \<Rightarrow> string option" where
  "hash_line label h len =
     (case h of None \<Rightarrow> Some [] | Some d \<Rightarrow> do { t \<leftarrow> print_hex d len; Some (label @ t @ NL) })"

fun images_text :: "efi_image list \<Rightarrow> nat \<Rightarrow> nat \<Rightarrow> string option" where
  "images_text imgs 0 i = Some []"
| "images_text imgs (Suc n) i = do {
     img \<leftarrow> mem_at imgs i;
     t \<leftarrow> hash_line ''  Hash: '' (image_hash img) (image_hash_size img);
     r \<leftarrow> images_text imgs n (Suc i);
     Some (NL @ ''Image['' @ printf_nat i @ '']:'' @ NL @ t @ r)
   }"

definition firmware_log_state_print :: "firmware_log_state option \<Rightarrow> string option" where
  "firmware_log_state_print st =
     (case st of
        None \<Rightarrow> Some (''Firmware state is empty'' @ NL)
      | Some st \<Rightarrow> do {
          efi \<leftarrow> (case fw_efi st of
             None \<Rightarrow> Some []
           | Some efi \<Rightarrow> do {
               t \<leftarrow> (if image_count efi = 0 then Some []
                    else Option.bind (images efi) (\<lambda>imgs. images_text imgs (unat (image_count efi)) 0));
               Some (NL @ ''----- EFI State -----'' @ NL @ ''Image Count: '' @ printf_nat (unat (image_count efi)) @ NL @ t)
             });
          grub \<leftarrow> (case fw_grub st of
             None \<Rightarrow> Some []
           | Some g \<Rightarrow> do {
               t \<leftarrow> hash_line ''Config Hash: '' (config_hash g) (config_hash_size g);
               Some (NL @ ''----- GRUB conf State -----'' @ NL @ t)
             });
          linux \<leftarrow> (case fw_kernel st of
             None \<Rightarrow> Some []
           | Some k \<Rightarrow> do {
               t \<leftarrow> hash_line ''Kernel Hash: '' (kernel_hash k) (kernel_hash_size k);
               u \<leftarrow> hash_line ''Initrd Hash: '' (initrd_hash k) (initrd_hash_size k);
               Some (NL @ ''----- Linux Kernel State -----'' @ NL @ t @ u)
             });
          Some (NL @ ''============ Firmware Log State ============'' @ NL @
            ''Hash Algorithm: 0x'' @ printf_x (unat (hash_algo st)) @ NL @ efi @ grub @ linux @
            NL @ ''====================================='' @ NL)
        })"



section \<open>A dump is a list of rows\<close>

definition hex_cells :: "bytes \<Rightarrow> string" where
  "hex_cells row = concat (map (\<lambda>b. printf_02X b @ '' '') row)"

definition hex_row :: "nat \<Rightarrow> bytes \<Rightarrow> string" where
  "hex_row addr row = printf_08zX addr @ ''  '' @ hex_cells row @ concat (replicate (16 - length row) ''   '') @
     ''  '' @ map ascii_of row @ NL"

function hex_rows :: "nat \<Rightarrow> nat \<Rightarrow> bytes \<Rightarrow> string" where
  "hex_rows base i d =
     (if d = [] then [] else hex_row (size_add base i) (take 16 d) @ hex_rows base (i + 16) (drop 16 d))"
  by pat_completeness auto
termination
  by (relation "measure (\<lambda>(_, _, d). length d)") auto

declare hex_rows.simps [simp del]

lemma hex_rows_Nil [simp]: "hex_rows base i [] = []"
  by (simp add: hex_rows.simps)

lemma hex_rows_Cons: "hex_rows base i (b # bs) =
    hex_row (size_add base i) (b # take 15 bs) @ hex_rows base (i + 16) (drop 15 bs)"
  by (subst hex_rows.simps) simp

lemma hex_cells_simps [simp]: "hex_cells [] = []" "hex_cells (b # bs) = printf_02X b @ CHR '' '' # hex_cells bs"
  by (simp_all add: hex_cells_def)

lemma ascii_of_nonzero [simp]: "ascii_of b \<noteq> CHR 0x00"
proof (cases "32 \<le> unat b \<and> unat b < 127")
  case True
  have "of_char (char_of (unat b) :: char) = (unat b :: nat)" using True by simp
  moreover have "of_char (CHR 0x00) = (0 :: nat)" by simp
  ultimately show ?thesis using True unfolding ascii_of_def by (metis not_numeral_le_zero)
next
  case False
  then have "ascii_of b = CHR ''.''" by (auto simp: ascii_of_def)
  then show ?thesis by simp
qed

text \<open>The buffer of the character column after the bytes \<open>prev\<close> of a row.\<close>

definition row_ascii :: "bytes \<Rightarrow> string" where
  "row_ascii prev = map ascii_of prev @ replicate (17 - length prev) CHR 0x00"

lemma row_ascii_text: "length prev \<le> 16 \<Longrightarrow> ascii_text (row_ascii prev) = map ascii_of prev"
proof -
  assume "length prev \<le> 16"
  then have "row_ascii prev = map ascii_of prev @ CHR 0x00 # replicate (16 - length prev) CHR 0x00"
    by (simp add: row_ascii_def Suc_diff_le flip: replicate_Suc)
  moreover have "\<forall>c \<in> set (map ascii_of prev). c \<noteq> CHR 0x00" by auto
  ultimately show ?thesis by (simp add: ascii_text_def takeWhile_append)
qed

lemma row_ascii_step: "length prev < 16 \<Longrightarrow> (row_ascii prev)[length prev := ascii_of b] = row_ascii (prev @ [b])"
proof -
  assume "length prev < 16"
  then have "17 - length prev = Suc (16 - length prev)" by simp
  then show ?thesis by (simp add: row_ascii_def list_update_append)
qed

lemma zero_ascii_step: "zero_ascii[0 := ascii_of b] = row_ascii [b]"
proof -
  have "zero_ascii = row_ascii []" by (simp add: zero_ascii_def row_ascii_def)
  then show ?thesis using row_ascii_step [of "[]" b] by simp
qed

definition dump_from :: "nat \<Rightarrow> nat \<Rightarrow> bytes \<Rightarrow> string \<Rightarrow> string" where
  "dump_from base i d buf = (let (t, buf) = hex_dump_loop base i d buf in t @ dump_end (i + length d) buf)"

lemma dump_from_Cons: "dump_from base i (b # bs) buf =
    (if i mod 16 = 0 then (if i > 0 then ''  '' @ ascii_text buf @ NL else []) @ printf_08zX (size_add base i) @ ''  '' else []) @
    printf_02X b @ '' '' @ dump_from base (Suc i) bs ((if i mod 16 = 0 then zero_ascii else buf)[i mod 16 := ascii_of b])"
  by (simp add: dump_from_def Let_def split: prod.split)

text \<open>The rest of a dump from inside a row: the row is completed, then whole rows follow.\<close>

lemma dump_from_rows:
  assumes "0 < length prev" "length prev \<le> 16" "length prev \<le> i" "16 dvd (i - length prev)"
  shows "dump_from base i d (row_ascii prev) =
    (let k = 16 - length prev; row = take k d in
     hex_cells row @ concat (replicate (k - length row) ''   '') @ ''  '' @ map ascii_of (prev @ row) @ NL @
     hex_rows base (i + k) (drop k d))"
  using assms
proof (induction d arbitrary: i prev)
  case Nil
  obtain q where q: "i = 16 * q + length prev" using Nil.prems(3,4) by (metis dvd_def le_add_diff_inverse2)
  then have "i mod 16 = length prev mod 16" by simp
  then have m: "length prev < 16 \<Longrightarrow> i mod 16 = length prev" "length prev = 16 \<Longrightarrow> i mod 16 = 0" by simp_all
  show ?case
    using Nil.prems(1,2) m
    by (cases "length prev = 16") (simp_all add: dump_from_def dump_end_def row_ascii_text)
next
  case (Cons b d)
  obtain q where q: "i = 16 * q + length prev" using Cons.prems(3,4) by (metis dvd_def le_add_diff_inverse2)
  show ?case
  proof (cases "length prev = 16")
    case True
    then have m: "i mod 16 = 0" "i > 0" using q by simp_all
    have "dump_from base (Suc i) d (row_ascii [b]) =
      (let row = take 15 d in hex_cells row @ concat (replicate (15 - length row) ''   '') @ ''  '' @ map ascii_of ([b] @ row) @ NL @
        hex_rows base (Suc i + 15) (drop 15 d))"
      using Cons.IH [of "[b]" "Suc i"] True q by simp
    then show ?thesis
      using True m by (simp add: dump_from_Cons zero_ascii_step row_ascii_text hex_rows_Cons hex_row_def Let_def add.commute [of i 16])
  next
    case False
    then have l: "length prev < 16" using Cons.prems(2) by simp
    then have m: "i mod 16 = length prev" using q by simp
    obtain k where k: "16 - length prev = Suc k" "16 - length (prev @ [b]) = k" using l by (cases "16 - length prev") auto
    have p: "0 < length (prev @ [b])" "length (prev @ [b]) \<le> 16" "length (prev @ [b]) \<le> Suc i"
        "16 dvd (Suc i - length (prev @ [b]))" using l q by simp_all
    note IH = Cons.IH [OF p, unfolded k(2) Let_def]
    show ?thesis
      using m Cons.prems(1) IH unfolding k(1) Let_def dump_from_Cons by (simp add: row_ascii_step [OF l])
  qed
qed

lemma print_hex_dump_from: "print_hex_dump d base = dump_from base 0 d zero_ascii"
  by (simp add: print_hex_dump_def dump_from_def)

lemma print_hex_dump_rows: "d \<noteq> [] \<Longrightarrow> print_hex_dump d base = hex_rows base 0 d"
proof -
  assume "d \<noteq> []"
  then obtain b bs where d: "d = b # bs" by (cases d) auto
  show ?thesis
    using dump_from_rows [of "[b]" 1 base bs]
    by (simp add: print_hex_dump_from d dump_from_Cons zero_ascii_step hex_rows_Cons hex_row_def Let_def)
qed

definition ff_run :: "bytes \<Rightarrow> bool" where
  "ff_run d \<longleftrightarrow> (\<exists>k. take 32 (drop k d) = replicate 32 0xFF)"

lemma blob_dump_loop_plain:
  "\<not> ff_run d \<Longrightarrow> blob_dump_loop base i d buf = (let (t, b) = hex_dump_loop base i d buf in (t, Some b))"
proof (induction d arbitrary: i buf)
  case (Cons b bs)
  have "take 32 (drop k bs) \<noteq> replicate 32 0xFF" for k
    using Cons.prems unfolding ff_run_def by (metis drop_Suc_Cons)
  then have n: "\<not> ff_run bs" by (simp add: ff_run_def)
  have "take 32 (b # bs) \<noteq> replicate 32 0xFF" using Cons.prems unfolding ff_run_def by (metis drop0)
  then show ?case using Cons.IH [OF n] by (simp add: Let_def del: take_Suc_Cons replicate.simps split: prod.split)
qed simp


section \<open>The text of a log\<close>

text \<open>What is shown of an event between its header and its bytes.\<close>

fun event_body :: "tcg_event \<Rightarrow> string" where
  "event_body (Spec_Id reg k sha1 ident algs vendor) =
     ''Algorithms Number : '' @ printf_d32 (of_nat (length algs)) @ NL @
     concat (map (\<lambda>(a, n). ''  Algorithms[0x'' @ printf_zX (unat a) @ ''] Size: '' @ printf_nat (unat n * 8) @ NL) algs)"
| "event_body (Event reg ty ds data) =
     (case ds of
        [] \<Rightarrow> []
      | (a, _) # _ \<Rightarrow>
          ''Algorithms ID     : '' @ printf_nat (unat a) @ '' ('' @ get_algorithm_string a @ '')'' @ NL @
          (if get_digest_size a > 0
           then ''Digest[0] :'' @ NL @ hex_rows 0 0 (take (nat (get_digest_size a)) (concat (map snd ds))) else []))"

definition event_section :: "nat \<Rightarrow> nat \<Rightarrow> tcg_event \<Rightarrow> string" where
  "event_section at k ev =
     NL @ ''==== VCCA Event Log Entry - '' @ printf_nat k @ '' [0x'' @ printf_zX at @ ''] ===='' @ NL @
     ''REM               : '' @ printf_d32 (rem_of_register (ev_reg ev)) @ NL @
     ''Type              : 0x'' @ printf_zX (unat (event_type (entry_of ev))) @
       '' ('' @ get_event_type_string (event_type (entry_of ev)) @ '')'' @ NL @
     ''Length            : '' @ printf_d32 (of_nat (length (enc_event ev))) @ NL @
     event_body ev @ RAW_DATA @ NL @ hex_rows at 0 (enc_event ev) @ RAW_DATA @ NL"

text \<open>One section for each event, at the address of its first byte.\<close>

fun log_sections :: "nat \<Rightarrow> nat \<Rightarrow> tcg_event list \<Rightarrow> string" where
  "log_sections at k [] = []"
| "log_sections at k (ev # evs) = event_section at k ev @ log_sections (at + length (enc_event ev)) (Suc k) evs"

lemma ev_ok_length: "ev_ok ev \<Longrightarrow> 0 < length (enc_event ev) \<and> length (enc_event ev) < 2 ^ 32"
  by (cases ev) auto

lemma entry_of_event:
  "event (entry_of ev) = Some (enc_event ev)" "event_size (entry_of ev) = of_nat (length (enc_event ev))"
  "rem_index (entry_of ev) = rem_of_register (ev_reg ev)"
  by (cases ev; simp add: zero_entry_def)+

lemma raw_text_of: "ev_ok ev \<Longrightarrow> raw_text at (entry_of ev) = Some (RAW_DATA @ NL @ hex_rows at 0 (enc_event ev) @ RAW_DATA @ NL)"
proof -
  assume ok: "ev_ok ev"
  have u: "unat (of_nat (length (enc_event ev)) :: u32) = length (enc_event ev)"
    using ev_ok_length [OF ok] by (intro of_nat_u32_inverse) simp
  then have "(of_nat (length (enc_event ev)) :: u32) > 0" using ev_ok_length [OF ok] by (simp add: word_less_nat_alt)
  then show ?thesis
    using u by (simp add: raw_text_def entry_of_event mem_read_def print_hex_dump_rows)
qed

lemma algorithms_text_of: "ev_ok ev \<Longrightarrow> algorithms_text (entry_of ev) =
    Some (case ev of Spec_Id _ _ _ _ _ _ \<Rightarrow> event_body ev | Event _ _ _ _ \<Rightarrow> [])"
proof (cases ev)
  case (Spec_Id reg k sha1 ident algs vendor)
  assume ok: "ev_ok ev"
  have u: "unat (of_nat (length algs) :: u32) = length algs"
    using ok by (intro of_nat_u32_inverse) (simp add: Spec_Id)
  have m: "map (\<lambda>a. ''  Algorithms[0x'' @ printf_zX (unat (algoid a)) @ ''] Size: '' @ printf_nat (unat (digestsize a) * 8) @ NL)
      (map (\<lambda>(a, s). \<lparr>algoid = a, digestsize = s\<rparr>) algs) =
    map (\<lambda>(a, n). ''  Algorithms[0x'' @ printf_zX (unat a) @ ''] Size: '' @ printf_nat (unat n * 8) @ NL) algs"
    by (simp add: case_prod_beta)
  show ?thesis
  proof (cases "algs = []")
    case True
    then show ?thesis by (simp add: Spec_Id algorithms_text_def zero_entry_def)
  next
    case False
    then have "(of_nat (length algs) :: u32) \<noteq> 0" using u by (metis length_0_conv unat_0)
    then show ?thesis using u m by (simp add: Spec_Id algorithms_text_def zero_entry_def mem_read_def del: map_map)
  qed
next
  case (Event reg ty ds data)
  assume "ev_ok ev"
  then show ?thesis by (simp add: Event algorithms_text_def zero_entry_def)
qed

lemma digest_text_of: "ev_ok ev \<Longrightarrow> printable ev \<Longrightarrow> digest_text (entry_of ev) =
    Some (case ev of Spec_Id _ _ _ _ _ _ \<Rightarrow> [] | Event _ _ _ _ \<Rightarrow> event_body ev)"
proof (cases ev)
  case (Spec_Id reg k sha1 ident algs vendor)
  assume "printable ev"
  then show ?thesis by (simp add: Spec_Id digest_text_def zero_entry_def)
next
  case (Event reg ty ds data)
  assume ok: "ev_ok ev" and p: "printable ev"
  have ds: "list_all (\<lambda>(a, d). length d = 32) ds" using ok by (simp add: Event)
  have u: "unat (of_nat (length ds) :: u32) = length ds"
    using ok ds by (intro of_nat_u32_inverse) (simp add: Event length_enc_digests)
  show ?thesis
  proof (cases ds)
    case Nil
    then show ?thesis by (simp add: Event digest_text_def zero_entry_def)
  next
    case (Cons ad ds')
    obtain a d where ad: "ad = (a, d)" by (cases ad)
    have z: "(of_nat (length ds) :: u32) > 0" using u Cons by (simp add: word_less_nat_alt)
    let ?c = "concat (map snd ds)"
    have n: "get_digest_size a \<le> int (length ?c)"
      using p Cons ad length_concat_digests [OF ds] by (simp add: Event)
    have r: "mem_read ?c 0 (nat (get_digest_size a)) = Some (take (nat (get_digest_size a)) ?c)"
      using n by (simp add: mem_read_def)
    have ne: "take (nat (get_digest_size a)) ?c \<noteq> []" if "get_digest_size a > 0"
    proof -
      have "0 < length ?c" using n that by linarith
      then show ?thesis using that by (auto simp del: length_concat)
    qed
    have e: "digest_count (entry_of ev) = of_nat (length ds)" "alg_ids (entry_of ev) = Some (map fst ds)"
        "digests (entry_of ev) = Some ?c" using Cons by (simp_all add: Event zero_entry_def)
    have h: "mem_at (map fst ds) 0 = Some a" using Cons ad by (simp add: mem_at_def)
    have "digest_text (entry_of ev) = Some (''Algorithms ID     : '' @ printf_nat (unat a) @ '' ('' @ get_algorithm_string a @ '')'' @ NL @
        (if get_digest_size a > 0 then ''Digest[0] :'' @ NL @ hex_rows 0 0 (take (nat (get_digest_size a)) ?c) else []))"
      unfolding digest_text_def e using z h r print_hex_dump_rows [OF ne] by (simp add: Let_def)
    then show ?thesis using Cons ad by (simp add: Event)
  qed
qed

lemma entry_text_of:
  assumes "ev_ok ev" "printable ev" "base + off + length (enc_event ev) < 2 ^ 64"
  shows "entry_text base (off + length (enc_event ev)) k (entry_of ev) = Some (event_section (base + off) k ev)"
proof -
  have u: "unat (of_nat (length (enc_event ev)) :: u32) = length (enc_event ev)"
    using ev_ok_length [OF assms(1)] by (intro of_nat_u32_inverse) simp
  have "size_sub (size_add base (off + length (enc_event ev))) (length (enc_event ev)) = base + off"
    using assms(3) by simp
  then show ?thesis
    using raw_text_of [OF assms(1)] algorithms_text_of [OF assms(1)] digest_text_of [OF assms(1,2)] u
    by (cases ev) (simp_all add: entry_text_def event_section_def entry_of_event Let_def del: event_body.simps enc_event.simps entry_of.simps)
qed

lemma event_text_loop_enc:
  assumes "blob_at b pos (enc_log evs @ t)" "log_end t" "list_all ev_ok evs" "\<And>n. malloc_ok n"
    and "list_all printable evs" "base + blob_length b < 2 ^ 64"
  shows "event_text_loop malloc_ok b base pos k = Some (log_sections (base + pos) k evs)"
  using assms(1,3,5)
proof (induction evs arbitrary: pos k)
  case Nil
  show ?case
  proof (cases "pos < blob_length b")
    case True
    then show ?thesis using process_at_end [of b pos t malloc_ok] Nil assms(2)
      by (subst event_text_loop.simps) auto
  next
    case False
    then show ?thesis by (subst event_text_loop.simps) simp
  qed
next
  case (Cons e evs)
  have at: "blob_at b pos (enc_event e @ enc_log evs @ t)" using Cons.prems by simp
  note st = process_event_log_entry_enc [OF _ at assms(4)]
  have l: "pos + length (enc_event e) \<le> blob_length b" using blob_at_bound [OF at] by simp
  have "pos < blob_length b" using blob_at_bound [OF at] by (cases "enc_event e") auto
  moreover have "event_text_loop malloc_ok b base (pos + length (enc_event e)) (Suc k) =
      Some (log_sections (base + (pos + length (enc_event e))) (Suc k) evs)"
    using Cons.prems blob_at_bytes(2) [OF at refl] by (intro Cons.IH) auto
  moreover have "entry_text base (pos + length (enc_event e)) k (entry_of e) = Some (event_section (base + pos) k e)"
    using Cons.prems l assms(6) by (intro entry_text_of) auto
  ultimately show ?case using Cons.prems st by (subst event_text_loop.simps) (simp add: ac_simps)
qed


section \<open>The text of a firmware state\<close>

definition view_text :: "u16 \<Rightarrow> boot_view \<Rightarrow> string" where
  "view_text alg v =
     (let hash = (\<lambda>label h. case h of None \<Rightarrow> [] | Some d \<Rightarrow> label @ hex_string d @ NL) in
      NL @ ''============ Firmware Log State ============'' @ NL @ ''Hash Algorithm: 0x'' @ printf_x (unat alg) @ NL @
      NL @ ''----- EFI State -----'' @ NL @ ''Image Count: '' @ printf_nat (length (v_images v)) @ NL @
      concat (map (\<lambda>(i, h). NL @ ''Image['' @ printf_nat i @ '']:'' @ NL @ ''  Hash: '' @ hex_string h @ NL)
        (enumerate 0 (v_images v))) @
      NL @ ''----- GRUB conf State -----'' @ NL @ hash ''Config Hash: '' (v_grub v) @
      NL @ ''----- Linux Kernel State -----'' @ NL @ hash ''Kernel Hash: '' (v_kernel v) @ hash ''Initrd Hash: '' (v_initrd v) @
      NL @ ''====================================='' @ NL)"

definition view_hashes :: "boot_view \<Rightarrow> bytes list" where
  "view_hashes v = v_images v @ List.map_filter id [v_grub v, v_kernel v, v_initrd v]"

lemma hash_line_32:
  "length d = 32 \<Longrightarrow> hash_line label (Some d) 32 = Some (label @ hex_string d @ NL)"
  by (simp add: hash_line_def print_hex_def mem_read_def)

lemma images_text_hashes:
  assumes "map image_hash (take n (drop i imgs)) = map Some hs" "map image_hash_size (take n (drop i imgs)) = replicate n 32"
    and "length hs = n" "i + n \<le> length imgs" "\<forall>h \<in> set hs. length h = 32"
  shows "images_text imgs n i = Some (concat (map (\<lambda>(i, h). NL @ ''Image['' @ printf_nat i @ '']:'' @ NL @ ''  Hash: '' @ hex_string h @ NL)
    (enumerate i hs)))"
  using assms
proof (induction n arbitrary: i hs)
  case 0
  then show ?case by simp
next
  case (Suc n)
  obtain h hs' where hs: "hs = h # hs'" using Suc.prems(3) by (cases hs) auto
  have i: "i < length imgs" using Suc.prems(4) by simp
  have d: "drop i imgs = imgs ! i # drop (Suc i) imgs" using i by (simp add: Cons_nth_drop_Suc)
  have "images_text imgs n (Suc i) = Some (concat (map (\<lambda>(i, h). NL @ ''Image['' @ printf_nat i @ '']:'' @ NL @ ''  Hash: '' @ hex_string h @ NL)
    (enumerate (Suc i) hs')))"
    using Suc.prems d hs by (intro Suc.IH) auto
  moreover have "image_hash (imgs ! i) = Some h" "image_hash_size (imgs ! i) = 32" using Suc.prems(1,2) d hs by auto
  ultimately show ?case
    using i hs Suc.prems(5) by (simp add: mem_at_def hash_line_32)
qed

lemma firmware_state_text:
  assumes "holds_view st v" "\<forall>h \<in> set (view_hashes v). length h = 32"
  shows "firmware_log_state_print (Some st) = Some (view_text (hash_algo st) v)"
proof -
  obtain efi imgs g k where h: "fw_efi st = Some efi" "images efi = Some imgs \<or> images efi = None \<and> imgs = []"
      "unat (image_count efi) = length (v_images v)" "length (v_images v) \<le> length imgs"
      "map image_hash (take (length (v_images v)) imgs) = map Some (v_images v)"
      "map image_hash_size (take (length (v_images v)) imgs) = replicate (length (v_images v)) 32"
      "config_hash g \<noteq> None \<longrightarrow> config_hash_size g = 32" "kernel_hash k \<noteq> None \<longrightarrow> kernel_hash_size k = 32"
      "initrd_hash k \<noteq> None \<longrightarrow> initrd_hash_size k = 32"
      "fw_grub st = Some g" "config_hash g = v_grub v"
      "fw_kernel st = Some k" "kernel_hash k = v_kernel v" "initrd_hash k = v_initrd v"
    using assms(1) unfolding holds_view_def by blast
  have l: "\<forall>h \<in> set (v_images v). length h = 32" "\<And>h. v_grub v = Some h \<Longrightarrow> length h = 32"
      "\<And>h. v_kernel v = Some h \<Longrightarrow> length h = 32" "\<And>h. v_initrd v = Some h \<Longrightarrow> length h = 32"
    using assms(2) by (auto simp: view_hashes_def List.map_filter_def)
  have im: "images_text imgs (length (v_images v)) 0 = Some (concat (map (\<lambda>(i, h). NL @ ''Image['' @ printf_nat i @ '']:'' @ NL @
      ''  Hash: '' @ hex_string h @ NL) (enumerate 0 (v_images v))))"
    using h(4-6) l(1) by (intro images_text_hashes) auto
  have efi: "(if image_count efi = 0 then Some []
         else Option.bind (images efi) (\<lambda>imgs. images_text imgs (unat (image_count efi)) 0)) =
      Some (concat (map (\<lambda>(i, h). NL @ ''Image['' @ printf_nat i @ '']:'' @ NL @ ''  Hash: '' @ hex_string h @ NL) (enumerate 0 (v_images v))))"
  proof (cases "v_images v = []")
    case True
    then have "image_count efi = 0" using h(3) by (simp add: unat_eq_zero)
    then show ?thesis using True by simp
  next
    case False
    then have "image_count efi \<noteq> 0" "images efi = Some imgs" using h(2-4) by auto
    then show ?thesis using im h(3) by simp
  qed
  have lines: "hash_line label (v_grub v) (config_hash_size g) = Some (case v_grub v of None \<Rightarrow> [] | Some d \<Rightarrow> label @ hex_string d @ NL)"
    "hash_line label (v_kernel v) (kernel_hash_size k) = Some (case v_kernel v of None \<Rightarrow> [] | Some d \<Rightarrow> label @ hex_string d @ NL)"
    "hash_line label (v_initrd v) (initrd_hash_size k) = Some (case v_initrd v of None \<Rightarrow> [] | Some d \<Rightarrow> label @ hex_string d @ NL)" for label
    using h l by (auto simp: hash_line_def print_hex_def mem_read_def split: option.splits)
  show ?thesis
    by (simp only: firmware_log_state_print_def view_text_def option.case h(1,3,10-14) efi [unfolded h(3)] lines bind.bind_lunit Let_def append_assoc)
qed

text \<open>
  When 32 bytes \<open>0xFF\<close> start a new row, the dump of a blob ends without the characters of the row
  before them.
\<close>

lemma hex_dump_loop_row:
  "i mod 16 \<noteq> 0 \<Longrightarrow> i mod 16 + length d \<le> 16 \<Longrightarrow> fst (hex_dump_loop base i d buf) = hex_cells d"
proof (induction d arbitrary: i buf)
  case (Cons b d)
  show ?case
  proof (cases "d = []")
    case True
    then show ?thesis using Cons.prems by (simp add: Let_def)
  next
    case False
    then have "i mod 16 \<noteq> 15" using Cons.prems(2) by (cases d) auto
    then have "Suc i mod 16 = Suc (i mod 16)" by (simp add: mod_Suc)
    then have "fst (hex_dump_loop base (Suc i) d (buf[i mod 16 := ascii_of b])) = hex_cells d"
      using Cons.prems by (intro Cons.IH) simp_all
    then show ?thesis using Cons.prems(1) by (simp add: Let_def case_prod_beta)
  qed
qed simp

lemma blob_dump_loop_ff:
  assumes "0xFF \<notin> set pre"
  shows "\<exists>b. blob_dump_loop base i (pre @ replicate 32 0xFF) buf =
    (fst (hex_dump_loop base i pre buf) @
     (if (i + length pre) mod 16 \<noteq> 0
      then concat (replicate (16 - (i + length pre) mod 16) ''   '') @ ''  '' @ ascii_text b @ NL else []) @
     NL @ ''[Remaining data omitted - all 0xFF]'' @ NL, None)"
  using assms
proof (induction pre arbitrary: i buf)
  case Nil
  have r: "replicate 32 0xFF = (0xFF :: u8) # replicate 31 0xFF" by (simp add: replicate_app_Cons_same flip: replicate_Suc)
  have "blob_dump_loop base i (replicate 32 0xFF) buf = ((if i mod 16 \<noteq> 0 then concat (replicate (16 - i mod 16) ''   '') @
      ''  '' @ ascii_text buf @ NL else []) @ NL @ ''[Remaining data omitted - all 0xFF]'' @ NL, None)"
    by (subst r, subst blob_dump_loop.simps(2), subst r [symmetric]) (simp only: take_all_iff length_replicate order.refl if_True simp_thms)
  then show ?case by (intro exI [of _ buf]) simp
next
  case (Cons c pre)
  have "take 32 (c # pre @ replicate 32 0xFF) \<noteq> replicate 32 0xFF"
  proof
    assume "take 32 (c # pre @ replicate 32 0xFF) = replicate 32 0xFF"
    then have "hd (take 32 (c # pre @ replicate 32 (0xFF :: u8))) = 0xFF" by (metis hd_replicate zero_neq_numeral)
    then show False using Cons.prems by simp
  qed
  moreover obtain b where "blob_dump_loop base (Suc i) (pre @ replicate 32 0xFF)
      ((if i mod 16 = 0 then zero_ascii else buf)[i mod 16 := ascii_of c]) =
    (fst (hex_dump_loop base (Suc i) pre ((if i mod 16 = 0 then zero_ascii else buf)[i mod 16 := ascii_of c])) @
     (if (Suc i + length pre) mod 16 \<noteq> 0
      then concat (replicate (16 - (Suc i + length pre) mod 16) ''   '') @ ''  '' @ ascii_text b @ NL else []) @
     NL @ ''[Remaining data omitted - all 0xFF]'' @ NL, None)"
    using Cons.IH Cons.prems by (meson list.set_intros(2))
  ultimately show ?case
    by (intro exI [of _ b]) (simp add: Let_def case_prod_beta del: take_Suc_Cons replicate.simps)
qed

lemma blob_dump_drops_characters:
  assumes "length row = 16" "0xFF \<notin> set row"
  shows "blob_dump_loop base 0 (row @ replicate 32 0xFF) zero_ascii =
     (printf_08zX (size_add base 0) @ ''  '' @ hex_cells row @ NL @ ''[Remaining data omitted - all 0xFF]'' @ NL, None)"
proof -
  obtain c cs where row: "row = c # cs" using assms(1) by (cases row) auto
  have "fst (hex_dump_loop base 0 row zero_ascii) = printf_08zX (size_add base 0) @ ''  '' @ hex_cells row"
    using hex_dump_loop_row [of 1 cs base "zero_ascii[0 := ascii_of c]"] assms(1) row by (simp add: Let_def case_prod_beta)
  then show ?thesis using blob_dump_loop_ff [OF assms(2), of base 0 zero_ascii] assms(1) by simp
qed


section \<open>The whole dump\<close>

text \<open>
  For a file with the encoding of well-formed events at any address, one section for each event in
  order.
\<close>

lemma event_log_sections:
  assumes "event_log_init (Some (enc_log evs @ t)) base = Some log"
    and "list_all ev_ok evs" "list_all printable evs" "log_end t" "base + length (enc_log evs @ t) < 2 ^ 64" "\<And>n. malloc_ok n"
  shows "event_log_text malloc_ok log = Some (''=> Read Event Log Data - Address: 0x'' @ printf_zX base @ ''(0x'' @
     printf_zX (length (enc_log evs @ t)) @ '')'' @ NL @ log_sections base 0 evs)"
proof -
  have l: "log_base log = base" "log_length log = length (enc_log evs @ t)" "blob_length (log_blob log) = length (enc_log evs @ t)"
    using assms(1) by (auto simp: event_log_init_def binary_blob_init_def split: if_splits)
  have at: "blob_at (log_blob log) 0 (enc_log evs @ t)" using init_blob_at(1) [OF assms(1)] assms(5) by simp
  have "event_text_loop malloc_ok (log_blob log) base 0 0 = Some (log_sections base 0 evs)"
    using event_text_loop_enc [OF at assms(4,2,6,3), where base = base and k = 0] assms(5) l(3) by simp
  then show ?thesis by (simp add: event_log_text_def l(1,2))
qed

end
