(* ===== verification/Socket.thy ===== *)
theory Socket
  imports Prelude
begin

text \<open>
  The stream socket the samples talk over: what the peer sends is a list of chunks, each the
  data one \<open>read\<close> may return (\<^term>\<open>None\<close> for an error), and an exhausted list is the end of the
  stream. What the program writes is kept in order, each \<open>write\<close> as one message: the samples do not
  look at the results of these calls, so a short or failed \<open>write\<close> changes nothing in what they do next,
  and the model has the data they meant to write. Only the sending of the event log does look, at
  the length word and at every piece; there the results are a parameter (\<open>v_sent\<close> of \<open>Sample_Server\<close>).
\<close>

record sock =
  s_in :: "bytes option list"
  s_out :: "bytes list"

text \<open>\<open>read (fd, buf, n)\<close>: \<^term>\<open>None\<close> is \<open>-1\<close>, \<^term>\<open>Some []\<close> the end of the stream.\<close>

fun sock_read :: "nat \<Rightarrow> sock \<Rightarrow> bytes option \<times> sock" where
  "sock_read n s =
     (case s_in s of
        [] \<Rightarrow> (Some [], s)
      | None # rs \<Rightarrow> (None, s\<lparr>s_in := rs\<rparr>)
      | Some bs # rs \<Rightarrow>
          (Some (take n bs), s\<lparr>s_in := (if length bs \<le> n then rs else Some (drop n bs) # rs)\<rparr>))"

definition sock_write :: "bytes \<Rightarrow> sock \<Rightarrow> sock" where
  "sock_write bs s = s\<lparr>s_out := s_out s @ [bs]\<rparr>"

text \<open>A \<open>size_t\<close> assigned from the \<open>ssize_t\<close> that \<open>read\<close> returns.\<close>

definition read_len :: "bytes option \<Rightarrow> nat" where
  "read_len r = (case r of None \<Rightarrow> 2 ^ 64 - 1 | Some bs \<Rightarrow> length bs)"

text \<open>The buffer of \<open>n\<close> zero bytes after a \<open>read\<close> into it.\<close>

definition fill :: "nat \<Rightarrow> bytes option \<Rightarrow> bytes" where
  "fill n r = (case r of None \<Rightarrow> replicate n 0 | Some bs \<Rightarrow> bs @ replicate (n - length bs) 0)"

text \<open>The loops that receive exactly \<open>n\<close> bytes; \<^term>\<open>None\<close> when a \<open>read\<close> returns nothing.\<close>

function recv_exact :: "nat \<Rightarrow> bytes \<Rightarrow> sock \<Rightarrow> bytes option \<times> sock" where
  "recv_exact n acc s =
     (if n = 0 then (Some acc, s)
      else case sock_read n s of
          (None, s') \<Rightarrow> (None, s')
        | (Some bs, s') \<Rightarrow>
            if bs = [] then (None, s') else recv_exact (n - length bs) (acc @ bs) s')"
  by pat_completeness auto
termination
  by (relation "measure (\<lambda>(n, _, _). n)") auto

declare recv_exact.simps [simp del]

section \<open>Laws\<close>

lemma sock_write_in [simp]: "s_in (sock_write bs s) = s_in s"
  by (simp add: sock_write_def)

lemma sock_write_out [simp]: "s_out (sock_write bs s) = s_out s @ [bs]"
  by (simp add: sock_write_def)

lemma sock_read_out: "sock_read n s = (r, s') \<Longrightarrow> s_out s' = s_out s"
  by (auto split: list.splits option.splits)

lemma sock_read_length: "sock_read n s = (Some bs, s') \<Longrightarrow> length bs \<le> n"
  by (auto split: list.splits option.splits)

lemma recv_exact_out: "recv_exact n acc s = (r, s') \<Longrightarrow> s_out s' = s_out s"
proof (induction n acc s rule: recv_exact.induct)
  case (1 n acc s)
  obtain rd s1 where r: "sock_read n s = (rd, s1)" by (cases "sock_read n s")
  have "s_out s1 = s_out s" using sock_read_out [OF r] .
  then show ?case using 1 r
    by (subst (asm) (2) recv_exact.simps) (auto split: if_splits option.splits simp del: sock_read.simps)
qed

lemma recv_exact_length:
  "recv_exact n acc s = (Some bs, s') \<Longrightarrow> length bs = length acc + n \<and> take (length acc) bs = acc"
proof (induction n acc s rule: recv_exact.induct)
  case (1 n acc s)
  obtain rd s1 where r: "sock_read n s = (rd, s1)" by (cases "sock_read n s")
  show ?case
  proof (cases "n = 0")
    case True
    then show ?thesis using 1(2) by (simp add: recv_exact.simps)
  next
    case False
    then obtain d where d: "rd = Some d" "d \<noteq> []" "recv_exact (n - length d) (acc @ d) s1 = (Some bs, s')"
      using 1(2) r by (subst (asm) recv_exact.simps) (auto split: if_splits option.splits simp del: sock_read.simps)
    have l: "length d \<le> n" using r d(1) sock_read_length [of n s d s1] by simp
    have "length bs = length (acc @ d) + (n - length d)" and t: "take (length (acc @ d)) bs = acc @ d"
      using 1(1) [OF False r [symmetric] d(1) d(2) d(3)] by auto
    moreover have "take (length acc) bs = acc"
      using arg_cong [OF t, of "take (length acc)"] by simp
    ultimately show ?thesis using l by simp
  qed
qed


section \<open>Properties\<close>

lemma recv_exact_chunks:
  assumes "\<And>c. c \<in> set cs \<Longrightarrow> c \<noteq> []"
  shows "recv_exact (length (concat cs)) acc (s\<lparr>s_in := map Some cs @ rest\<rparr>) = (Some (acc @ concat cs), s\<lparr>s_in := rest\<rparr>)"
  using assms
proof (induction cs arbitrary: acc)
  case Nil
  then show ?case by (simp add: recv_exact.simps)
next
  case (Cons c cs)
  have "c \<noteq> []" using Cons.prems by simp
  then show ?case using Cons.IH [of "acc @ c"] Cons.prems by (subst recv_exact.simps) auto
qed

text \<open>
  Reassembly: whatever way the network cuts a message into non-empty pieces, the receive loop
  returns the whole message and leaves what follows it in the stream.
\<close>

theorem recv_exact_reassembles:
  assumes "[] \<notin> set cs"
  shows "recv_exact (length (concat cs)) [] \<lparr>s_in = map Some cs @ rest, s_out = os\<rparr> =
           (Some (concat cs), \<lparr>s_in = rest, s_out = os\<rparr>)"
  using recv_exact_chunks [of cs "[]" rest "\<lparr>s_in = [], s_out = os\<rparr>"] assms by auto

theorem recv_exact_reassembles_witness:
  "recv_exact 3 [] \<lparr>s_in = [Some [1], Some [2, 3], Some [4]], s_out = []\<rparr> = (Some [1, 2, 3], \<lparr>s_in = [Some [4]], s_out = []\<rparr>)"
  using recv_exact_reassembles [of "[[1], [2, 3]]" "[Some [4]]" "[]"] by (simp add: numeral_3_eq_3)

end
