(* ===== verification/Token_Parse.thy ===== *)
theory Token_Parse
  imports Utils
begin

text \<open>
  The CCA token parser, \<open>attestation/samples/src/token_parse.c\<close>. The CBOR decoder is QCBOR, a
  third-party library: its functions are the fields of the argument \<open>q\<close>, over a decode
  context of any type. An item is a record with one field per view of its unions; a buffer
  that holds no string is \<open>Wild\<close>, and \<open>val_off\<close> is where a string starts in the decoder's input. Status codes are the C integers. \<^term>\<open>None\<close> stands for an
  access through a failed allocation or a loop that does not end.
\<close>

section \<open>The QCBOR interface\<close>

datatype qbuf = NullBuf | QBuf (qbuf_bytes: bytes) | Wild

datatype qtype = QCBOR_TYPE_NONE | QCBOR_TYPE_INT64 | QCBOR_TYPE_BYTE_STRING | QCBOR_TYPE_TEXT_STRING
  | QCBOR_TYPE_ARRAY | QCBOR_TYPE_MAP | QCBOR_TYPE_OTHER

record qitem =
  uDataType :: qtype
  val_string :: qbuf
  val_off :: nat
  val_int64 :: int
  val_uCount :: u16
  uLabelType :: qtype
  label_int64 :: int

type_synonym qerr = u64

abbreviation (input) QCBOR_SUCCESS :: qerr where "QCBOR_SUCCESS \<equiv> 0"

record 'c qcbor =
  q_Init :: "qbuf \<Rightarrow> 'c"
  q_VGetNext :: "'c \<Rightarrow> qitem \<times> 'c"
  q_GetError :: "'c \<Rightarrow> qerr"
  q_Finish :: "'c \<Rightarrow> qerr"
  q_GetNthTag :: "'c \<Rightarrow> qitem \<Rightarrow> nat \<Rightarrow> u64"
  q_EnterBstrWrapped :: "'c \<Rightarrow> 'c"
  q_NO_MORE_ITEMS :: qerr


section \<open>Token structures\<close>

abbreviation (input) VIRTCCA_SUCCESS :: u64 where "VIRTCCA_SUCCESS \<equiv> 0"
abbreviation (input) VIRTCCA_ERROR :: u64 where "VIRTCCA_ERROR \<equiv> 1"

record sw_comp_claims =
  component_type :: qbuf
  measurement :: qbuf
  version :: qbuf
  signer_id :: qbuf
  sw_hash_algo_id :: qbuf

record cvm_claims =
  challenge :: qbuf
  rpv :: qbuf
  rim :: qbuf
  rem_claim :: "qbuf list"
  hash_algo_id :: qbuf
  pub_key :: qbuf
  pub_key_hash_algo_id :: qbuf

record platform_claims =
  plat_profile :: qbuf
  plat_challenge :: qbuf
  implementation_id :: qbuf
  instance_id :: qbuf
  plat_config :: qbuf
  lifecycle :: u64
  sw_components :: "sw_comp_claims list option"
  sw_comp_cnts :: u64
  verification_service :: qbuf
  plat_hash_algo_id :: qbuf

record cose_sign1_envelop =
  p_headers :: qbuf
  np_headers :: qbuf
  payload :: qbuf
  signature :: qbuf

record cca_token =
  cvm_envelop :: cose_sign1_envelop
  cvm_cose :: qbuf
  cvm_token :: cvm_claims
  platform_envelop :: cose_sign1_envelop
  platform_cose :: qbuf
  platform_token :: platform_claims

text \<open>The values of \<open>memset (.., 0, ..)\<close> and of uninitialised memory.\<close>

definition zero_envelop :: cose_sign1_envelop where
  "zero_envelop = \<lparr>p_headers = NullBuf, np_headers = NullBuf, payload = NullBuf, signature = NullBuf\<rparr>"

definition zero_platform :: platform_claims where
  "zero_platform = \<lparr>plat_profile = NullBuf, plat_challenge = NullBuf, implementation_id = NullBuf,
     instance_id = NullBuf, plat_config = NullBuf, lifecycle = 0, sw_components = None, sw_comp_cnts = 0,
     verification_service = NullBuf, plat_hash_algo_id = NullBuf\<rparr>"

definition wild_sw_comp :: sw_comp_claims where
  "wild_sw_comp = \<lparr>component_type = Wild, measurement = Wild, version = Wild, signer_id = Wild,
     sw_hash_algo_id = Wild\<rparr>"


section \<open>Item checks\<close>

fun qbuf_len :: "qbuf \<Rightarrow> nat option" where
  "qbuf_len NullBuf = Some 0"
| "qbuf_len (QBuf b) = Some (length b)"
| "qbuf_len Wild = None"

text \<open>An empty list of sizes is the call with \<open>sizes == NULL\<close>.\<close>

definition check_item_type_size :: "qitem \<Rightarrow> qtype \<Rightarrow> nat list \<Rightarrow> bool" where
  "check_item_type_size item data_type sizes =
     (if uDataType item \<noteq> data_type then False
      else if sizes \<noteq> [] then (\<exists>n \<in> set sizes. qbuf_len (val_string item) = Some n)
      else True)"

definition check_item_array_count :: "qitem \<Rightarrow> u16 \<Rightarrow> bool" where
  "check_item_array_count item n =
     (\<not> (uDataType item \<noteq> QCBOR_TYPE_ARRAY \<or> n \<noteq> val_uCount item))"

definition check_item_bstring_size :: "qitem \<Rightarrow> nat list \<Rightarrow> bool" where
  "check_item_bstring_size item sizes = check_item_type_size item QCBOR_TYPE_BYTE_STRING sizes"

definition check_item_tstring_size :: "qitem \<Rightarrow> nat list \<Rightarrow> bool" where
  "check_item_tstring_size item sizes = check_item_type_size item QCBOR_TYPE_TEXT_STRING sizes"


section \<open>Software components\<close>

definition sw_comp_claim :: "qitem \<Rightarrow> sw_comp_claims \<Rightarrow> u64 \<Rightarrow> u64 \<times> sw_comp_claims \<times> u64" where
  "sw_comp_claim item claim cnt =
     (let l = label_int64 item; s = val_string item in
      if l = 2 then
        (if check_item_bstring_size item [] then (VIRTCCA_SUCCESS, claim\<lparr>measurement := s\<rparr>, cnt + 1)
         else (VIRTCCA_ERROR, claim, cnt + 1))
      else if l = 5 then
        (if check_item_bstring_size item [] then (VIRTCCA_SUCCESS, claim\<lparr>signer_id := s\<rparr>, cnt + 1)
         else (VIRTCCA_ERROR, claim, cnt + 1))
      else if l = 1 then
        (if check_item_tstring_size item [] then (VIRTCCA_SUCCESS, claim\<lparr>component_type := s\<rparr>, cnt)
         else (VIRTCCA_ERROR, claim, cnt))
      else if l = 4 then
        (if check_item_tstring_size item [] then (VIRTCCA_SUCCESS, claim\<lparr>version := s\<rparr>, cnt)
         else (VIRTCCA_ERROR, claim, cnt))
      else if l = 6 then
        (if check_item_tstring_size item [] then (VIRTCCA_SUCCESS, claim\<lparr>sw_hash_algo_id := s\<rparr>, cnt)
         else (VIRTCCA_ERROR, claim, cnt))
      else (VIRTCCA_SUCCESS, claim, cnt))"

fun sw_comp_loop ::
  "'c qcbor \<Rightarrow> nat \<Rightarrow> sw_comp_claims \<Rightarrow> 'c \<Rightarrow> u64 \<Rightarrow> u64 \<times> sw_comp_claims \<times> u64 \<times> 'c"
where
  "sw_comp_loop q 0 claim ctx cnt = (VIRTCCA_SUCCESS, claim, cnt, ctx)"
| "sw_comp_loop q (Suc n) claim ctx cnt =
     (let (item, ctx) = q_VGetNext q ctx in
      if uLabelType item \<noteq> QCBOR_TYPE_INT64 then (VIRTCCA_ERROR, claim, cnt, ctx)
      else
        let (st, claim, cnt) = sw_comp_claim item claim cnt in
        if st \<noteq> VIRTCCA_SUCCESS then (st, claim, cnt, ctx)
        else sw_comp_loop q n claim ctx cnt)"

definition parse_claims_sw_comp ::
  "'c qcbor \<Rightarrow> sw_comp_claims \<Rightarrow> 'c \<Rightarrow> u64 \<times> sw_comp_claims \<times> 'c"
where
  "parse_claims_sw_comp q claim ctx =
     (let (item, ctx) = q_VGetNext q ctx in
      if uDataType item \<noteq> QCBOR_TYPE_MAP then (VIRTCCA_ERROR, claim, ctx)
      else
        let (st, claim, cnt, ctx) = sw_comp_loop q (unat (val_uCount item)) claim ctx 0 in
        if st \<noteq> VIRTCCA_SUCCESS then (st, claim, ctx)
        else if cnt \<noteq> 2 then (VIRTCCA_ERROR, claim, ctx)
        else (VIRTCCA_SUCCESS, claim, ctx))"

text \<open>The loop over the components: a component that fails to parse is only reported.\<close>

fun sw_comps_loop :: "'c qcbor \<Rightarrow> nat \<Rightarrow> 'c \<Rightarrow> sw_comp_claims list \<Rightarrow> sw_comp_claims list \<times> 'c" where
  "sw_comps_loop q 0 ctx comps = (comps, ctx)"
| "sw_comps_loop q (Suc n) ctx comps =
     (let (_, comp, ctx) = parse_claims_sw_comp q wild_sw_comp ctx in
      sw_comps_loop q n ctx (comps @ [comp]))"


section \<open>Platform claims\<close>

text \<open>
  The \<open>switch\<close> on one item; \<open>cnt\<close> is \<open>claim_cnt\<close> before the item. The result of the allocation for
  the software components is not tested in the samples: with a count above zero, \<open>&comps[i]\<close> of the
  null pointer is undefined, \<^term>\<open>None\<close>.
\<close>

definition platform_claim ::
  "(nat \<Rightarrow> bool) \<Rightarrow> 'c qcbor \<Rightarrow> qitem \<Rightarrow> 'c \<Rightarrow> platform_claims \<Rightarrow> int \<Rightarrow>
   (u64 \<times> platform_claims \<times> int \<times> 'c) option"
where
  "platform_claim malloc_ok q item ctx claim cnt =
     (let l = label_int64 item; s = val_string item;
          err = Some (VIRTCCA_ERROR, claim, cnt, ctx) in
      if l = 265 then
        (if check_item_tstring_size item [] then Some (VIRTCCA_SUCCESS, claim\<lparr>plat_profile := s\<rparr>, cnt + 1, ctx)
         else err)
      else if l = 10 then
        (if check_item_bstring_size item [32, 48, 64]
         then Some (VIRTCCA_SUCCESS, claim\<lparr>plat_challenge := s\<rparr>, cnt + 1, ctx) else err)
      else if l = 2396 then
        (if check_item_bstring_size item [32]
         then Some (VIRTCCA_SUCCESS, claim\<lparr>implementation_id := s\<rparr>, cnt + 1, ctx) else err)
      else if l = 256 then
        (if check_item_bstring_size item [33]
         then Some (VIRTCCA_SUCCESS, claim\<lparr>instance_id := s\<rparr>, cnt + 1, ctx) else err)
      else if l = 2401 then
        (if check_item_bstring_size item []
         then Some (VIRTCCA_SUCCESS, claim\<lparr>plat_config := s\<rparr>, cnt + 1, ctx) else err)
      else if l = 2395 then
        (if uDataType item = QCBOR_TYPE_INT64
         then Some (VIRTCCA_SUCCESS, claim\<lparr>lifecycle := of_int (val_int64 item)\<rparr>, cnt + 1, ctx) else err)
      else if l = 2399 then
        (if uDataType item \<noteq> QCBOR_TYPE_ARRAY then err
         else
           let n = unat (val_uCount item) in
           if \<not> malloc_ok (n * 80) \<and> n > 0 then None
           else
             let (comps, ctx) = sw_comps_loop q n ctx [] in
             Some (VIRTCCA_SUCCESS,
               claim\<lparr>sw_comp_cnts := of_nat n,
                     sw_components := (if malloc_ok (n * 80) then Some comps else None)\<rparr>, cnt + 1, ctx))
      else if l = 2400 then
        (if check_item_tstring_size item []
         then Some (VIRTCCA_SUCCESS, claim\<lparr>verification_service := s\<rparr>, cnt, ctx) else err)
      else if l = 2402 then
        (if check_item_tstring_size item []
         then Some (VIRTCCA_SUCCESS, claim\<lparr>plat_hash_algo_id := s\<rparr>, cnt + 1, ctx) else err)
      else Some (VIRTCCA_SUCCESS, claim, cnt, ctx))"

partial_function (option) platform_loop ::
  "(nat \<Rightarrow> bool) \<Rightarrow> 'c qcbor \<Rightarrow> 'c \<Rightarrow> platform_claims \<Rightarrow> int \<Rightarrow> (u64 \<times> platform_claims) option"
where
  "platform_loop malloc_ok q ctx claim cnt =
     (let (item, ctx) = q_VGetNext q ctx; ret = q_GetError q ctx in
      if ret \<noteq> QCBOR_SUCCESS then
        Some (if ret = q_NO_MORE_ITEMS q
              then (if cnt \<noteq> 8 then VIRTCCA_ERROR else VIRTCCA_SUCCESS) else VIRTCCA_ERROR, claim)
      else if uLabelType item \<noteq> QCBOR_TYPE_INT64 then Some (VIRTCCA_ERROR, claim)
      else Option.bind (platform_claim malloc_ok q item ctx claim cnt) (\<lambda>(st, claim, cnt, ctx).
        if st \<noteq> VIRTCCA_SUCCESS then Some (st, claim)
        else platform_loop malloc_ok q ctx claim cnt))"

definition parse_platform_claims ::
  "(nat \<Rightarrow> bool) \<Rightarrow> 'c qcbor \<Rightarrow> platform_claims \<Rightarrow> qbuf \<Rightarrow> (u64 \<times> platform_claims) option"
where
  "parse_platform_claims malloc_ok q claim raw =
     (let (item, ctx) = q_VGetNext q (q_Init q raw) in
      if uDataType item \<noteq> QCBOR_TYPE_MAP then Some (VIRTCCA_ERROR, claim)
      else platform_loop malloc_ok q ctx claim 0)"


section \<open>CVM claims\<close>

fun rem_loop ::
  "'c qcbor \<Rightarrow> nat \<Rightarrow> nat \<Rightarrow> 'c \<Rightarrow> cvm_claims \<Rightarrow> u64 \<times> cvm_claims \<times> 'c"
where
  "rem_loop q 0 i ctx claim = (VIRTCCA_SUCCESS, claim, ctx)"
| "rem_loop q (Suc n) i ctx claim =
     (let (item, ctx) = q_VGetNext q ctx in
      if check_item_bstring_size item [32, 48, 64]
      then rem_loop q n (Suc i) ctx (claim\<lparr>rem_claim := (rem_claim claim)[i := val_string item]\<rparr>)
      else (VIRTCCA_ERROR, claim, ctx))"

definition cvm_claim ::
  "'c qcbor \<Rightarrow> qitem \<Rightarrow> 'c \<Rightarrow> cvm_claims \<Rightarrow> int \<Rightarrow> u64 \<times> cvm_claims \<times> int \<times> 'c"
where
  "cvm_claim q item ctx claim cnt =
     (let l = label_int64 item; s = val_string item; err = (VIRTCCA_ERROR, claim, cnt, ctx) in
      if l = 10 then
        (if check_item_bstring_size item [64]
         then (VIRTCCA_SUCCESS, claim\<lparr>challenge := s\<rparr>, cnt + 1, ctx) else err)
      else if l = 44235 then
        (if check_item_bstring_size item [64]
         then (VIRTCCA_SUCCESS, claim\<lparr>rpv := s\<rparr>, cnt + 1, ctx) else err)
      else if l = 44238 then
        (if check_item_bstring_size item [32, 48, 64]
         then (VIRTCCA_SUCCESS, claim\<lparr>rim := s\<rparr>, cnt + 1, ctx) else err)
      else if l = 44239 then
        (if check_item_array_count item 4
         then (let (st, claim, ctx) = rem_loop q 4 0 ctx claim in (st, claim, cnt + 1, ctx))
         else err)
      else if l = 44237 then
        (if check_item_bstring_size item [133, 550]
         then (VIRTCCA_SUCCESS, claim\<lparr>pub_key := s\<rparr>, cnt + 1, ctx) else err)
      else if l = 44236 then
        (if check_item_tstring_size item []
         then (VIRTCCA_SUCCESS, claim\<lparr>hash_algo_id := s\<rparr>, cnt + 1, ctx) else err)
      else if l = 44240 then
        (if check_item_tstring_size item []
         then (VIRTCCA_SUCCESS, claim\<lparr>pub_key_hash_algo_id := s\<rparr>, cnt + 1, ctx) else err)
      else (VIRTCCA_SUCCESS, claim, cnt, ctx))"

partial_function (option) cvm_loop ::
  "'c qcbor \<Rightarrow> 'c \<Rightarrow> cvm_claims \<Rightarrow> int \<Rightarrow> (u64 \<times> cvm_claims) option"
where
  "cvm_loop q ctx claim cnt =
     (let (item, ctx) = q_VGetNext q ctx; ret = q_GetError q ctx in
      if ret \<noteq> QCBOR_SUCCESS then
        Some (if ret = q_NO_MORE_ITEMS q
              then (if cnt \<noteq> 7 then VIRTCCA_ERROR else VIRTCCA_SUCCESS) else VIRTCCA_ERROR, claim)
      else if uLabelType item \<noteq> QCBOR_TYPE_INT64 then Some (VIRTCCA_ERROR, claim)
      else
        let (st, claim, cnt, ctx) = cvm_claim q item ctx claim cnt in
        if st \<noteq> VIRTCCA_SUCCESS then Some (st, claim)
        else cvm_loop q ctx claim cnt)"

text \<open>
  \<open>QCBORDecode_ExitBstrWrapped\<close> at the end acts on a context that is not used any more and is
  left out.
\<close>

definition parse_cvm_claims :: "'c qcbor \<Rightarrow> cvm_claims \<Rightarrow> qbuf \<Rightarrow> (u64 \<times> cvm_claims) option" where
  "parse_cvm_claims q claim raw =
     (let (item, ctx) = q_VGetNext q (q_EnterBstrWrapped q (q_Init q raw)) in
      if uDataType item \<noteq> QCBOR_TYPE_MAP then Some (VIRTCCA_ERROR, claim)
      else cvm_loop q ctx claim 0)"


section \<open>Envelopes and the whole token\<close>

definition parse_cose_sign1 ::
  "'c qcbor \<Rightarrow> cose_sign1_envelop \<Rightarrow> qbuf \<Rightarrow> u64 \<times> cose_sign1_envelop"
where
  "parse_cose_sign1 q envelop raw =
     (let (item, ctx) = q_VGetNext q (q_Init q raw) in
      if uDataType item \<noteq> QCBOR_TYPE_ARRAY \<or> val_uCount item \<noteq> 4 \<or> q_GetNthTag q ctx item 0 \<noteq> 18
      then (VIRTCCA_ERROR, envelop)
      else
        let (item, ctx) = q_VGetNext q ctx; envelop = envelop\<lparr>p_headers := val_string item\<rparr>;
            (item, ctx) = q_VGetNext q ctx; envelop = envelop\<lparr>np_headers := val_string item\<rparr>;
            (item, ctx) = q_VGetNext q ctx; envelop = envelop\<lparr>payload := val_string item\<rparr>;
            (item, ctx) = q_VGetNext q ctx; envelop = envelop\<lparr>signature := val_string item\<rparr>;
            (item, ctx) = q_VGetNext q ctx
        in if q_Finish q ctx \<noteq> q_NO_MORE_ITEMS q then (VIRTCCA_ERROR, envelop)
           else (VIRTCCA_SUCCESS, envelop))"

text \<open>The platform part: \<open>Some (st, token)\<close> with \<open>st \<noteq> 0\<close> is an early return.\<close>

definition parse_platform_part ::
  "(nat \<Rightarrow> bool) \<Rightarrow> 'c qcbor \<Rightarrow> cca_token \<Rightarrow> qbuf \<Rightarrow> (u64 \<times> cca_token) option"
where
  "parse_platform_part malloc_ok q token raw =
     (let token = token\<lparr>platform_cose := raw\<rparr>;
          (st, env) = parse_cose_sign1 q (platform_envelop token) raw;
          token = token\<lparr>platform_envelop := env\<rparr> in
      if st \<noteq> VIRTCCA_SUCCESS then Some (st, token)
      else do {
        (st, claims) \<leftarrow> parse_platform_claims malloc_ok q (platform_token token) (payload env);
        Some (st, token\<lparr>platform_token := claims\<rparr>)
      })"

text \<open>The CVM part, from the item that should hold the CVM token on.\<close>

definition parse_cvm_part ::
  "'c qcbor \<Rightarrow> cca_token \<Rightarrow> qitem \<Rightarrow> 'c \<Rightarrow> (u64 \<times> cca_token) option"
where
  "parse_cvm_part q token item ctx =
     (if uDataType item \<noteq> QCBOR_TYPE_BYTE_STRING \<or> label_int64 item \<noteq> 44241
      then Some (VIRTCCA_ERROR, token)
      else
        let token = token\<lparr>cvm_cose := val_string item\<rparr>;
            (st, env) = parse_cose_sign1 q (cvm_envelop token) (val_string item);
            token = token\<lparr>cvm_envelop := env\<rparr> in
        if st \<noteq> VIRTCCA_SUCCESS then Some (st, token)
        else do {
          (st, claims) \<leftarrow> parse_cvm_claims q (cvm_token token) (payload env);
          let token = token\<lparr>cvm_token := claims\<rparr>;
          if st \<noteq> VIRTCCA_SUCCESS then Some (st, token)
          else
            let (_, ctx) = q_VGetNext q ctx; ret = q_Finish q ctx in
            if ret \<noteq> q_NO_MORE_ITEMS q then Some (ret, token)
            else Some (VIRTCCA_SUCCESS, token)
        })"

definition parse_cca_attestation_token ::
  "(nat \<Rightarrow> bool) \<Rightarrow> 'c qcbor \<Rightarrow> cca_token \<Rightarrow> qbuf \<Rightarrow> (u64 \<times> cca_token) option"
where
  "parse_cca_attestation_token malloc_ok q token raw_token =
     (let token = token\<lparr>platform_envelop := zero_envelop, platform_token := zero_platform,
                         platform_cose := NullBuf\<rparr>;
          (item, ctx) = q_VGetNext q (q_Init q raw_token) in
      if uDataType item \<noteq> QCBOR_TYPE_MAP \<or> (val_uCount item \<noteq> 1 \<and> val_uCount item \<noteq> 2) \<or>
         q_GetNthTag q ctx item 0 \<noteq> 399
      then Some (VIRTCCA_ERROR, token)
      else
        let (item, ctx) = q_VGetNext q ctx in
        if uDataType item = QCBOR_TYPE_BYTE_STRING \<and> label_int64 item = 44234 then
          do {
            (st, token) \<leftarrow> parse_platform_part malloc_ok q token (val_string item);
            if st \<noteq> VIRTCCA_SUCCESS then Some (st, token)
            else
              let (item, ctx) = q_VGetNext q ctx in
              parse_cvm_part q token item ctx
          }
        else parse_cvm_part q token item ctx)"


section \<open>Printing\<close>

text \<open>
  The text the print functions write: \<open>%02x\<close> loops as \<open>put_hex\<close>, \<open>%c\<close> loops as \<open>put_chars\<close>. A
  wild buffer cannot be printed.
\<close>

fun put_hex :: "qbuf \<Rightarrow> string option" where
  "put_hex NullBuf = Some []"
| "put_hex (QBuf b) = Some (hex_string b)"
| "put_hex Wild = None"

fun put_chars :: "qbuf \<Rightarrow> string option" where
  "put_chars NullBuf = Some []"
| "put_chars (QBuf b) = Some (map (\<lambda>x. char_of (unat x)) b)"
| "put_chars Wild = None"

definition put_optional :: "qbuf \<Rightarrow> string option" where
  "put_optional b = (if b = NullBuf \<or> b = QBuf [] then Some ''(not present)'' else put_chars b)"

definition put_line :: "string \<Rightarrow> string option \<Rightarrow> string option" where
  "put_line label body = map_option (\<lambda>t. label @ t @ [CHR 0x0A]) body"

text \<open>The output of a sequence of print statements.\<close>

fun out :: "string option list \<Rightarrow> string option" where
  "out [] = Some []"
| "out (l # ls) = do { a \<leftarrow> l; b \<leftarrow> out ls; Some (a @ b) }"

abbreviation (input) TAB :: string where "TAB \<equiv> [CHR 0x09]"
abbreviation (input) NL :: string where "NL \<equiv> [CHR 0x0A]"

definition token_has_platform :: "cca_token \<Rightarrow> bool" where
  "token_has_platform token = (\<exists>b. platform_cose token = QBuf b \<and> b \<noteq> [])"

definition print_envelop :: "cose_sign1_envelop \<Rightarrow> string option" where
  "print_envelop env =
     out [put_line (TAB @ ''Protected headers: '') (put_hex (p_headers env)),
          put_line (TAB @ ''Un-Protected headers: '') (put_hex (np_headers env)),
          put_line (TAB @ ''Payload: '') (put_hex (payload env)),
          put_line (TAB @ ''Signature: '') (put_hex (signature env)),
          Some NL]"

definition print_cca_attestation_token_raw :: "cca_token \<Rightarrow> string option" where
  "print_cca_attestation_token_raw token =
     out [Some (''CCA attestation token'' @ NL), Some (''CVM token'' @ NL),
          print_envelop (cvm_envelop token),
          (if token_has_platform token
           then out [Some (''Platform token'' @ NL), print_envelop (platform_envelop token)]
           else Some [])]"

definition print_cvm_claims :: "cvm_claims \<Rightarrow> string option" where
  "print_cvm_claims c =
     out [put_line (TAB @ ''Challenge: '') (put_hex (challenge c)),
          put_line (TAB @ ''RPV: '') (put_hex (rpv c)),
          put_line (TAB @ ''RIM: '') (put_hex (rim c)),
          put_line (TAB @ ''REM[0]: '') (Option.bind (mem_at (rem_claim c) 0) put_hex),
          put_line (TAB @ ''REM[1]: '') (Option.bind (mem_at (rem_claim c) 1) put_hex),
          put_line (TAB @ ''REM[2]: '') (Option.bind (mem_at (rem_claim c) 2) put_hex),
          put_line (TAB @ ''REM[3]: '') (Option.bind (mem_at (rem_claim c) 3) put_hex),
          put_line (TAB @ ''Hash Algo ID: '') (put_chars (hash_algo_id c)),
          put_line (TAB @ ''Public Key: '') (put_hex (pub_key c)),
          put_line (TAB @ ''Public Key Hash Algo ID: '') (put_chars (pub_key_hash_algo_id c))]"

definition print_sw_comp :: "nat \<Rightarrow> sw_comp_claims \<Rightarrow> string option" where
  "print_sw_comp i c =
     out [Some (TAB @ TAB @ ''Index '' @ printf_ld (int i) @ '':'' @ NL),
          put_line (TAB @ TAB @ ''Component Type: '') (put_optional (component_type c)),
          put_line (TAB @ TAB @ ''Measurement: '') (put_hex (measurement c)),
          put_line (TAB @ TAB @ ''Version: '') (put_optional (version c)),
          put_line (TAB @ TAB @ ''Signer ID: '') (put_hex (signer_id c)),
          put_line (TAB @ TAB @ ''Hash Algo ID: '') (put_optional (sw_hash_algo_id c))]"

definition print_sw_comps :: "platform_claims \<Rightarrow> string option" where
  "print_sw_comps p =
     out (map (\<lambda>i. do { cs \<leftarrow> sw_components p; c \<leftarrow> mem_at cs i; print_sw_comp i c })
            [0..<unat (sw_comp_cnts p)])"

definition print_platform_claims :: "platform_claims \<Rightarrow> string option" where
  "print_platform_claims p =
     out [Some (NL @ ''Platform token'' @ NL),
          put_line (TAB @ ''Profile: '') (put_chars (plat_profile p)),
          put_line (TAB @ ''Challenge: '') (put_hex (plat_challenge p)),
          put_line (TAB @ ''Implementation ID: '') (put_hex (implementation_id p)),
          put_line (TAB @ ''Instance ID: '') (put_hex (instance_id p)),
          put_line (TAB @ ''Config: '') (put_hex (plat_config p)),
          Some (TAB @ ''Lifecycle: '' @ printf_ld (sint (lifecycle p)) @ NL),
          Some (TAB @ ''Software Components ('' @ printf_ld (sint (sw_comp_cnts p)) @ ''):'' @ NL),
          print_sw_comps p,
          put_line (TAB @ ''Verification Service: '') (put_optional (verification_service p)),
          put_line (TAB @ ''Hash Algo ID: '') (put_chars (plat_hash_algo_id p))]"

definition print_cca_attestation_token :: "cca_token \<Rightarrow> string option" where
  "print_cca_attestation_token token =
     out [Some (''Parsed CCA attestation token'' @ NL), Some (''CVM token'' @ NL),
          print_cvm_claims (cvm_token token),
          (if token_has_platform token then print_platform_claims (platform_token token) else Some [])]"



section \<open>Streams of items\<close>

text \<open>
  What QCBOR documents of a well-formed input: \<open>QCBORDecode_VGetNext\<close> delivers the items in
  order without error, then an item of no type with \<open>QCBOR_ERR_NO_MORE_ITEMS\<close>.
\<close>

fun yields :: "'c qcbor \<Rightarrow> 'c \<Rightarrow> qitem list \<Rightarrow> bool" where
  "yields q ctx [] = (q_GetError q (snd (q_VGetNext q ctx)) = q_NO_MORE_ITEMS q)"
| "yields q ctx (x # xs) =
     (fst (q_VGetNext q ctx) = x \<and> q_GetError q (snd (q_VGetNext q ctx)) = QCBOR_SUCCESS \<and>
      yields q (snd (q_VGetNext q ctx)) xs)"

definition bstr_item :: "int \<Rightarrow> bytes \<Rightarrow> qitem" where
  "bstr_item l b = \<lparr>uDataType = QCBOR_TYPE_BYTE_STRING, val_string = QBuf b, val_off = 0, val_int64 = 0, val_uCount = 0,
     uLabelType = QCBOR_TYPE_INT64, label_int64 = l\<rparr>"

definition tstr_item :: "int \<Rightarrow> bytes \<Rightarrow> qitem" where
  "tstr_item l b = \<lparr>uDataType = QCBOR_TYPE_TEXT_STRING, val_string = QBuf b, val_off = 0, val_int64 = 0, val_uCount = 0,
     uLabelType = QCBOR_TYPE_INT64, label_int64 = l\<rparr>"

definition array_item :: "int \<Rightarrow> u16 \<Rightarrow> qitem" where
  "array_item l n = \<lparr>uDataType = QCBOR_TYPE_ARRAY, val_string = Wild, val_off = 0, val_int64 = 0, val_uCount = n,
     uLabelType = QCBOR_TYPE_INT64, label_int64 = l\<rparr>"

definition element_item :: "bytes \<Rightarrow> qitem" where
  "element_item b = \<lparr>uDataType = QCBOR_TYPE_BYTE_STRING, val_string = QBuf b, val_off = 0, val_int64 = 0, val_uCount = 0,
     uLabelType = QCBOR_TYPE_NONE, label_int64 = 0\<rparr>"

lemmas item_defs = bstr_item_def tstr_item_def array_item_def element_item_def
  check_item_bstring_size_def check_item_tstring_size_def check_item_type_size_def check_item_array_count_def

text \<open>The contents of a CVM token and the items that encode each of its claims.\<close>

record cvm_content =
  c_challenge :: bytes
  c_rpv :: bytes
  c_rim :: bytes
  c_rem :: "bytes list"
  c_hash_algo :: bytes
  c_pub_key :: bytes
  c_pk_algo :: bytes

datatype cvm_field = Challenge | Rpv | Rim | Rems | Hash_Algo | Pub_Key | Pk_Algo

fun cvm_block :: "cvm_content \<Rightarrow> cvm_field \<Rightarrow> qitem list" where
  "cvm_block c Challenge = [bstr_item 10 (c_challenge c)]"
| "cvm_block c Rpv = [bstr_item 44235 (c_rpv c)]"
| "cvm_block c Rim = [bstr_item 44238 (c_rim c)]"
| "cvm_block c Rems = array_item 44239 4 # map element_item (c_rem c)"
| "cvm_block c Hash_Algo = [tstr_item 44236 (c_hash_algo c)]"
| "cvm_block c Pub_Key = [bstr_item 44237 (c_pub_key c)]"
| "cvm_block c Pk_Algo = [tstr_item 44240 (c_pk_algo c)]"

fun cvm_set :: "cvm_content \<Rightarrow> cvm_field \<Rightarrow> cvm_claims \<Rightarrow> cvm_claims" where
  "cvm_set c Challenge cl = cl\<lparr>challenge := QBuf (c_challenge c)\<rparr>"
| "cvm_set c Rpv cl = cl\<lparr>rpv := QBuf (c_rpv c)\<rparr>"
| "cvm_set c Rim cl = cl\<lparr>rim := QBuf (c_rim c)\<rparr>"
| "cvm_set c Rems cl = cl\<lparr>rem_claim := map QBuf (c_rem c)\<rparr>"
| "cvm_set c Hash_Algo cl = cl\<lparr>hash_algo_id := QBuf (c_hash_algo c)\<rparr>"
| "cvm_set c Pub_Key cl = cl\<lparr>pub_key := QBuf (c_pub_key c)\<rparr>"
| "cvm_set c Pk_Algo cl = cl\<lparr>pub_key_hash_algo_id := QBuf (c_pk_algo c)\<rparr>"

definition cvm_content_ok :: "cvm_content \<Rightarrow> bool" where
  "cvm_content_ok c \<longleftrightarrow> length (c_challenge c) = 64 \<and> length (c_rpv c) = 64 \<and>
     length (c_rim c) \<in> {32, 48, 64} \<and> length (c_rem c) = 4 \<and>
     list_all (\<lambda>r. length r \<in> {32, 48, 64}) (c_rem c) \<and> length (c_pub_key c) \<in> {133, 550}"

lemma rem_loop_items:
  assumes "yields q ctx (map element_item rs @ rest)" "list_all (\<lambda>r. length r \<in> {32, 48, 64}) rs"
    "length (rem_claim cl) = i + length rs"
  shows "\<exists>ctx'. rem_loop q (length rs) i ctx cl =
      (VIRTCCA_SUCCESS, cl\<lparr>rem_claim := take i (rem_claim cl) @ map QBuf rs\<rparr>, ctx') \<and> yields q ctx' rest"
  using assms
proof (induction rs arbitrary: ctx i cl)
  case Nil
  then show ?case by simp
next
  case (Cons r rs)
  obtain it ctx1 where n: "q_VGetNext q ctx = (it, ctx1)" by (cases "q_VGetNext q ctx")
  let ?cl = "cl\<lparr>rem_claim := (rem_claim cl)[i := QBuf r]\<rparr>"
  have it: "it = element_item r" "yields q ctx1 (map element_item rs @ rest)"
    using Cons.prems n by auto
  have "\<exists>ctx'. rem_loop q (length rs) (Suc i) ctx1 ?cl =
      (VIRTCCA_SUCCESS, ?cl\<lparr>rem_claim := take (Suc i) (rem_claim ?cl) @ map QBuf rs\<rparr>, ctx') \<and> yields q ctx' rest"
    using Cons.prems it by (intro Cons.IH) auto
  moreover have "take (Suc i) (rem_claim ?cl) = take i (rem_claim cl) @ [QBuf r]"
    using Cons.prems by (simp add: take_Suc_conv_app_nth)
  ultimately show ?case using Cons.prems n it(1) by (auto simp: item_defs)
qed

lemma cvm_claim_block:
  assumes "yields q ctx (cvm_block c f @ rest)" "cvm_content_ok c" "length (rem_claim cl) = 4"
  shows "\<exists>ctx'. cvm_loop q ctx cl cnt = cvm_loop q ctx' (cvm_set c f cl) (cnt + 1) \<and> yields q ctx' rest"
proof -
  obtain it ctx1 where n: "q_VGetNext q ctx = (it, ctx1)" by (cases "q_VGetNext q ctx")
  show ?thesis
  proof (cases "f = Rems")
    case True
    then have it: "it = array_item 44239 4" "q_GetError q ctx1 = 0" "yields q ctx1 (map element_item (c_rem c) @ rest)"
      using assms(1) n by auto
    obtain ctx2 where "rem_loop q 4 0 ctx1 cl = (VIRTCCA_SUCCESS, cl\<lparr>rem_claim := map QBuf (c_rem c)\<rparr>, ctx2)"
        "yields q ctx2 rest"
      using rem_loop_items [OF it(3), of cl 0] assms(2,3) by (auto simp: cvm_content_ok_def)
    then show ?thesis using n it(1,2) True
      by (subst cvm_loop.simps) (auto simp: cvm_claim_def item_defs intro!: exI [of _ ctx2])
  next
    case False
    then show ?thesis using assms n
      by (subst cvm_loop.simps, cases f)
        (auto simp: cvm_claim_def item_defs cvm_content_ok_def intro!: exI [of _ ctx1])
  qed
qed

lemma cvm_set_rem_length: "length (rem_claim cl) = 4 \<Longrightarrow> cvm_content_ok c \<Longrightarrow> length (rem_claim (cvm_set c f cl)) = 4"
  by (cases f) (auto simp: cvm_content_ok_def)

lemma cvm_loop_blocks:
  assumes "yields q ctx (concat (map (cvm_block c) fs))" "cvm_content_ok c" "length (rem_claim cl) = 4"
    "q_NO_MORE_ITEMS q \<noteq> QCBOR_SUCCESS"
  shows "cvm_loop q ctx cl cnt =
     Some (if cnt + int (length fs) = 7 then VIRTCCA_SUCCESS else VIRTCCA_ERROR, fold (cvm_set c) fs cl)"
  using assms(1,3)
proof (induction fs arbitrary: ctx cl cnt)
  case Nil
  obtain it ctx1 where "q_VGetNext q ctx = (it, ctx1)" by (cases "q_VGetNext q ctx")
  then show ?case using Nil assms(4) by (subst cvm_loop.simps) auto
next
  case (Cons f fs)
  obtain ctx' where "cvm_loop q ctx cl cnt = cvm_loop q ctx' (cvm_set c f cl) (cnt + 1)"
      "yields q ctx' (concat (map (cvm_block c) fs))"
    using cvm_claim_block [of q ctx c f _ cl] Cons.prems assms(2) by auto
  then show ?case using Cons.IH [of ctx' "cvm_set c f cl" "cnt + 1"] Cons.prems assms(2)
    by (simp add: cvm_set_rem_length add.assoc)
qed


definition cvm_of :: "cvm_content \<Rightarrow> cvm_claims" where
  "cvm_of c = \<lparr>challenge = QBuf (c_challenge c), rpv = QBuf (c_rpv c), rim = QBuf (c_rim c),
     rem_claim = map QBuf (c_rem c), hash_algo_id = QBuf (c_hash_algo c), pub_key = QBuf (c_pub_key c),
     pub_key_hash_algo_id = QBuf (c_pk_algo c)\<rparr>"

fun cvm_get :: "cvm_field \<Rightarrow> cvm_claims \<Rightarrow> qbuf list" where
  "cvm_get Challenge cl = [challenge cl]"
| "cvm_get Rpv cl = [rpv cl]"
| "cvm_get Rim cl = [rim cl]"
| "cvm_get Rems cl = rem_claim cl"
| "cvm_get Hash_Algo cl = [hash_algo_id cl]"
| "cvm_get Pub_Key cl = [pub_key cl]"
| "cvm_get Pk_Algo cl = [pub_key_hash_algo_id cl]"

lemma cvm_get_set: "cvm_get f (cvm_set c g cl) = (if f = g then cvm_get f (cvm_of c) else cvm_get f cl)"
  by (cases f; cases g) (simp_all add: cvm_of_def)

lemma cvm_get_fold:
  "cvm_get f (fold (cvm_set c) fs cl) = (if f \<in> set fs then cvm_get f (cvm_of c) else cvm_get f cl)"
  by (induction fs arbitrary: cl) (simp_all add: cvm_get_set)

lemma cvm_claims_eqI:
  assumes "\<And>f. cvm_get f a = cvm_get f b"
  shows "a = (b :: cvm_claims)"
  using assms [of Challenge] assms [of Rpv] assms [of Rim] assms [of Rems] assms [of Hash_Algo]
    assms [of Pub_Key] assms [of Pk_Algo]
  by (cases a, cases b) simp

lemma cvm_fold_all: "(\<And>f. f \<in> set fs) \<Longrightarrow> fold (cvm_set c) fs cl = cvm_of c"
  by (intro cvm_claims_eqI) (simp add: cvm_get_fold)

lemma cvm_fields_card: "distinct fs \<Longrightarrow> length fs = 7 \<Longrightarrow> (f :: cvm_field) \<in> set fs"
proof -
  have u: "(UNIV :: cvm_field set) = {Challenge, Rpv, Rim, Rems, Hash_Algo, Pub_Key, Pk_Algo}"
    by (auto intro: cvm_field.exhaust)
  have fin: "finite (UNIV :: cvm_field set)" unfolding u by simp
  have c: "card (UNIV :: cvm_field set) = 7" unfolding u by simp
  assume "distinct fs" "length fs = 7"
  then have "card (set fs) = card (UNIV :: cvm_field set)" using c by (simp add: distinct_card)
  then have "set fs = UNIV" using fin by (intro card_subset_eq) auto
  then show ?thesis by simp
qed


section \<open>Sizes of accepted claims\<close>

text \<open>
  Whatever the decoder delivers, a claim that the parser stored has one of the sizes allowed
  for it; a claim that never came keeps its old value.
\<close>

definition sized :: "nat set \<Rightarrow> qbuf \<Rightarrow> qbuf \<Rightarrow> bool" where
  "sized S old new \<longleftrightarrow> new = old \<or> (\<exists>b. new = QBuf b \<and> length b \<in> S)"

definition cvm_sized :: "cvm_claims \<Rightarrow> cvm_claims \<Rightarrow> bool" where
  "cvm_sized old new \<longleftrightarrow>
     sized {64} (challenge old) (challenge new) \<and> sized {64} (rpv old) (rpv new) \<and>
     sized {32, 48, 64} (rim old) (rim new) \<and> sized {133, 550} (pub_key old) (pub_key new) \<and>
     list_all2 (sized {32, 48, 64}) (rem_claim old) (rem_claim new)"

lemma sized_refl [simp]: "sized S a a"
  by (simp add: sized_def)

lemma cvm_sized_refl [simp]: "cvm_sized a a"
  by (simp add: cvm_sized_def list_all2_refl)

lemma check_bstring_sized:
  assumes "check_item_bstring_size item sizes" "sizes \<noteq> []" "0 \<notin> set sizes"
  shows "sized (set sizes) old (val_string item)"
proof -
  obtain n where "n \<in> set sizes" "qbuf_len (val_string item) = Some n"
    using assms by (auto simp: check_item_bstring_size_def check_item_type_size_def split: if_splits)
  then show ?thesis using assms(3) by (cases "val_string item") (auto simp: sized_def)
qed

lemma rem_loop_sized:
  "rem_loop q n i ctx cl = (st, cl', ctx') \<Longrightarrow> cvm_sized old cl \<Longrightarrow> cvm_sized old cl'"
proof (induction n arbitrary: i ctx cl)
  case 0
  then show ?case by simp
next
  case (Suc n)
  obtain it ctx1 where n: "q_VGetNext q ctx = (it, ctx1)" by (cases "q_VGetNext q ctx")
  show ?case
  proof (cases "check_item_bstring_size it [32, 48, 64]")
    case True
    have s: "sized (set [32, 48, 64]) x (val_string it)" for x by (rule check_bstring_sized [OF True]) auto
    have l: "list_all2 (sized {32, 48, 64}) (rem_claim old) (rem_claim cl)"
      using Suc.prems(2) by (simp add: cvm_sized_def)
    have "list_all2 (sized {32, 48, 64}) (rem_claim old) ((rem_claim cl)[i := val_string it])"
      using list_all2_update_cong [OF l s [of "rem_claim old ! i", simplified], of i] by simp
    then have "cvm_sized old (cl\<lparr>rem_claim := (rem_claim cl)[i := val_string it]\<rparr>)"
      using Suc.prems(2) by (simp add: cvm_sized_def)
    then show ?thesis using Suc n True by auto
  next
    case False
    then show ?thesis using Suc.prems n by simp
  qed
qed

lemma cvm_claim_sized:
  assumes "cvm_claim q item ctx cl cnt = (st, cl', cnt', ctx')" "cvm_sized old cl"
  shows "cvm_sized old cl'"
proof -
  note b = check_bstring_sized [of item "[64]"] check_bstring_sized [of item "[32, 48, 64]"]
    check_bstring_sized [of item "[133, 550]"]
  show ?thesis using assms b
    by (auto simp: cvm_claim_def cvm_sized_def Let_def split: if_splits prod.splits)
       (use rem_loop_sized [of q 4 0 ctx cl _ _ _ old] assms(2) in \<open>auto simp: cvm_sized_def\<close>)
qed


lemma cvm_loop_sized:
  assumes "cvm_loop q ctx cl cnt = Some (st, cl')" "cvm_sized old cl"
  shows "cvm_sized old cl'"
proof -
  let ?P = "\<lambda>q' ctx cl cnt r. q' = q \<longrightarrow> cvm_sized old cl \<longrightarrow> cvm_sized old (snd r)"
  have "?P q ctx cl cnt (st, cl')"
  proof (rule cvm_loop.raw_induct [where P = ?P, OF _ assms(1)], intro impI)
    fix f :: "'a qcbor \<Rightarrow> 'a \<Rightarrow> cvm_claims \<Rightarrow> int \<Rightarrow> (u64 \<times> cvm_claims) option"
      and q' :: "'a qcbor" and ctx cl cnt r
    assume IH: "\<And>q' ctx cl cnt r. f q' ctx cl cnt = Some r \<Longrightarrow> ?P q' ctx cl cnt r"
      and eq: "(let (item, ctx) = q_VGetNext q' ctx; ret = q_GetError q' ctx in
      if ret \<noteq> QCBOR_SUCCESS then
        Some (if ret = q_NO_MORE_ITEMS q'
              then (if cnt \<noteq> 7 then VIRTCCA_ERROR else VIRTCCA_SUCCESS) else VIRTCCA_ERROR, cl)
      else if uLabelType item \<noteq> QCBOR_TYPE_INT64 then Some (VIRTCCA_ERROR, cl)
      else
        let (st, cl, cnt, ctx) = cvm_claim q' item ctx cl cnt in
        if st \<noteq> VIRTCCA_SUCCESS then Some (st, cl)
        else f q' ctx cl cnt) = Some r" and q: "q' = q" and old: "cvm_sized old cl"
    obtain it ctx1 where n: "q_VGetNext q' ctx = (it, ctx1)" by (cases "q_VGetNext q' ctx")
    obtain st1 cl1 cnt1 ctx2 where c: "cvm_claim q' it ctx1 cl cnt = (st1, cl1, cnt1, ctx2)"
      by (cases "cvm_claim q' it ctx1 cl cnt")
    have "cvm_sized old cl1" using cvm_claim_sized [OF c old] .
    then show "cvm_sized old (snd r)" using eq n c old q IH [of q' ctx2 cl1 cnt1 r]
      by (auto simp: Let_def split: if_splits)
  qed
  then show ?thesis using assms(2) by simp
qed

text \<open>The status of a successful parse of the whole token.\<close>

lemma parse_cca_success_cases:
  assumes "parse_cca_attestation_token malloc_ok q token raw = Some (VIRTCCA_SUCCESS, token')"
  shows "\<exists>token1 item ctx. parse_cvm_part q token1 item ctx = Some (VIRTCCA_SUCCESS, token') \<and>
     uDataType item = QCBOR_TYPE_BYTE_STRING \<and> label_int64 item = 44241 \<and> cvm_token token1 = cvm_token token"
proof -
  let ?token = "token\<lparr>platform_envelop := zero_envelop, platform_token := zero_platform, platform_cose := NullBuf\<rparr>"
  obtain it c0 where n0: "q_VGetNext q (q_Init q raw) = (it, c0)"
    by (cases "q_VGetNext q (q_Init q raw)")
  obtain it1 c1 where n1: "q_VGetNext q c0 = (it1, c1)" by (cases "q_VGetNext q c0")
  obtain it2 c2 where n2: "q_VGetNext q c1 = (it2, c2)" by (cases "q_VGetNext q c1")
  have plat: "cvm_token t = cvm_token ?token"
    if "parse_platform_part malloc_ok q ?token (val_string it1) = Some (st, t)" for st t
    using that by (auto simp: parse_platform_part_def Let_def split: if_splits prod.splits bind_splits)
  have lab: "uDataType i = QCBOR_TYPE_BYTE_STRING \<and> label_int64 i = 44241"
    if "parse_cvm_part q t i c = Some (VIRTCCA_SUCCESS, t')" for t i c t'
    using that by (auto simp: parse_cvm_part_def split: if_splits)
  have "(\<exists>t. parse_cvm_part q t it2 c2 = Some (0, token') \<and> cvm_token t = cvm_token ?token) \<or>
      parse_cvm_part q ?token it1 c1 = Some (0, token')"
    using assms plat n0 n1 n2
    by (auto simp: parse_cca_attestation_token_def Let_def split: if_splits prod.splits bind_splits)
  then show ?thesis using lab by fastforce
qed

lemma parse_cvm_part_sized:
  assumes "parse_cvm_part q token item ctx = Some (VIRTCCA_SUCCESS, token')"
  shows "cvm_sized (cvm_token token) (cvm_token token')"
proof -
  obtain st env where e: "parse_cose_sign1 q (cvm_envelop token) (val_string item) = (st, env)"
    by (cases "parse_cose_sign1 q (cvm_envelop token) (val_string item)")
  obtain st2 cl where c: "parse_cvm_claims q (cvm_token token) (payload env) = Some (st2, cl)"
      "cvm_token token' = cl"
    using assms e
    by (auto simp: parse_cvm_part_def Let_def split: if_splits prod.splits bind_splits)
  obtain it ctx1 where n: "q_VGetNext q (q_EnterBstrWrapped q (q_Init q (payload env))) = (it, ctx1)"
    by (cases "q_VGetNext q (q_EnterBstrWrapped q (q_Init q (payload env)))")
  show ?thesis using c n cvm_loop_sized [of q ctx1 "cvm_token token" 0 st2 cl]
    by (auto simp: parse_cvm_claims_def split: if_splits)
qed


section \<open>Properties\<close>

definition map_item :: "u16 \<Rightarrow> qitem" where
  "map_item n = \<lparr>uDataType = QCBOR_TYPE_MAP, val_string = Wild, val_off = 0, val_int64 = 0, val_uCount = n,
     uLabelType = QCBOR_TYPE_NONE, label_int64 = 0\<rparr>"

lemma parse_cvm_claims_blocks:
  assumes y: "yields q (q_EnterBstrWrapped q (q_Init q raw)) (map_item n # concat (map (cvm_block c) fs))"
    and c: "cvm_content_ok c" "length (rem_claim cl) = 4" "q_NO_MORE_ITEMS q \<noteq> QCBOR_SUCCESS"
  shows "parse_cvm_claims q cl raw =
     Some (if length fs = 7 then VIRTCCA_SUCCESS else VIRTCCA_ERROR, fold (cvm_set c) fs cl)"
proof -
  obtain it ctx where n: "q_VGetNext q (q_EnterBstrWrapped q (q_Init q raw)) = (it, ctx)"
    by (cases "q_VGetNext q (q_EnterBstrWrapped q (q_Init q raw))")
  have "cvm_loop q ctx cl 0 =
      Some (if 0 + int (length fs) = 7 then VIRTCCA_SUCCESS else VIRTCCA_ERROR, fold (cvm_set c) fs cl)"
    using y n c by (intro cvm_loop_blocks) auto
  then show ?thesis using y n by (auto simp: parse_cvm_claims_def map_item_def)
qed

definition cose_item :: qitem where
  "cose_item = \<lparr>uDataType = QCBOR_TYPE_ARRAY, val_string = Wild, val_off = 0, val_int64 = 0, val_uCount = 4,
     uLabelType = QCBOR_TYPE_NONE, label_int64 = 0\<rparr>"

lemma yields_Cons:
  "yields q ctx (x # xs) \<Longrightarrow> \<exists>ctx'. q_VGetNext q ctx = (x, ctx') \<and> yields q ctx' xs"
  by (cases "q_VGetNext q ctx") auto

lemma parse_cose_sign1_items:
  assumes y: "yields q (q_Init q raw) [cose_item, i1, i2, i3, i4]"
    and tag: "q_GetNthTag q (snd (q_VGetNext q (q_Init q raw))) cose_item 0 = 18"
    and fin: "\<And>ctx. q_GetError q ctx = q_NO_MORE_ITEMS q \<Longrightarrow> q_Finish q ctx = q_NO_MORE_ITEMS q"
  shows "parse_cose_sign1 q env raw = (VIRTCCA_SUCCESS,
     \<lparr>p_headers = val_string i1, np_headers = val_string i2, payload = val_string i3, signature = val_string i4\<rparr>)"
proof -
  obtain c0 where n0: "q_VGetNext q (q_Init q raw) = (cose_item, c0)" "yields q c0 [i1, i2, i3, i4]"
    using yields_Cons [OF y] by blast
  obtain c1 where n1: "q_VGetNext q c0 = (i1, c1)" "yields q c1 [i2, i3, i4]" using yields_Cons [OF n0(2)] by blast
  obtain c2 where n2: "q_VGetNext q c1 = (i2, c2)" "yields q c2 [i3, i4]" using yields_Cons [OF n1(2)] by blast
  obtain c3 where n3: "q_VGetNext q c2 = (i3, c3)" "yields q c3 [i4]" using yields_Cons [OF n2(2)] by blast
  obtain c4 where n4: "q_VGetNext q c3 = (i4, c4)" "yields q c4 []" using yields_Cons [OF n3(2)] by blast
  obtain i c5 where n5: "q_VGetNext q c4 = (i, c5)" by (cases "q_VGetNext q c4")
  have "q_GetError q c5 = q_NO_MORE_ITEMS q" using n4(2) n5 by simp
  moreover have "uDataType cose_item = QCBOR_TYPE_ARRAY" "val_uCount cose_item = 4" by (simp_all add: cose_item_def)
  ultimately show ?thesis
    using tag unfolding parse_cose_sign1_def by (cases env) (simp add: n0(1) n1(1) n2(1) n3(1) n4(1) n5 fin)
qed

lemma parse_cvm_only_items:
  fixes q :: "'c qcbor"
  assumes outer: "yields q (q_Init q raw) [map_item 1, bstr_item 44241 cose]"
    and msg: "yields q (q_Init q (QBuf cose)) [cose_item, i1, i2, i3, i4]"
    and claims: "yields q (q_EnterBstrWrapped q (q_Init q (val_string i3))) (map_item 7 # concat (map (cvm_block c) fs))"
    and fs: "distinct fs" "length fs = 7" and c: "cvm_content_ok c" "length (rem_claim (cvm_token token)) = 4"
    and tags: "q_GetNthTag q (snd (q_VGetNext q (q_Init q raw))) (map_item 1) 0 = 399"
      "q_GetNthTag q (snd (q_VGetNext q (q_Init q (QBuf cose)))) cose_item 0 = 18"
    and fin: "\<And>ctx. q_GetError q ctx = q_NO_MORE_ITEMS q \<Longrightarrow> q_Finish q ctx = q_NO_MORE_ITEMS q"
      "q_NO_MORE_ITEMS q \<noteq> QCBOR_SUCCESS"
  shows "parse_cca_attestation_token malloc_ok q token raw = Some (VIRTCCA_SUCCESS,
     \<lparr>cvm_envelop = \<lparr>p_headers = val_string i1, np_headers = val_string i2, payload = val_string i3,
                     signature = val_string i4\<rparr>,
      cvm_cose = QBuf cose, cvm_token = cvm_of c,
      platform_envelop = zero_envelop, platform_cose = NullBuf, platform_token = zero_platform\<rparr>)"
proof -
  obtain c0 where n0: "q_VGetNext q (q_Init q raw) = (map_item 1, c0)" "yields q c0 [bstr_item 44241 cose]"
    using yields_Cons [OF outer] by blast
  obtain c1 where n1: "q_VGetNext q c0 = (bstr_item 44241 cose, c1)" "yields q c1 []"
    using yields_Cons [OF n0(2)] by blast
  obtain i c2 where n2: "q_VGetNext q c1 = (i, c2)" by (cases "q_VGetNext q c1")
  have e: "q_Finish q c2 = q_NO_MORE_ITEMS q" using n1(2) n2 by (intro fin(1)) simp
  have k: "parse_cvm_claims q (cvm_token token) (val_string i3) = Some (VIRTCCA_SUCCESS, cvm_of c)"
    using parse_cvm_claims_blocks [OF claims c fin(2)] cvm_fold_all [OF cvm_fields_card [OF fs]] fs(2) by simp
  note m = parse_cose_sign1_items [OF msg tags(2) fin(1)]
  show ?thesis
    unfolding parse_cca_attestation_token_def parse_cvm_part_def
    by (cases token)
      (use n0(1) n1(1) n2 e k m tags(1) in \<open>simp add: map_item_def bstr_item_def\<close>)
qed


text \<open>A decoder of a fixed table of item lists, for evaluation.\<close>

definition list_qcbor :: "(qbuf \<Rightarrow> qitem list) \<Rightarrow> (qitem list \<times> u64) qcbor" where
  "list_qcbor items = \<lparr>q_Init = (\<lambda>b. (items b, 0)),
     q_VGetNext = (\<lambda>(xs, e). case xs of [] \<Rightarrow> (map_item 0, [], 5) | x # xs \<Rightarrow> (x, xs, 0)),
     q_GetError = snd, q_Finish = snd, q_GetNthTag = (\<lambda>_ item _. if uDataType item = QCBOR_TYPE_MAP then 399 else 18),
     q_EnterBstrWrapped = (\<lambda>c. c), q_NO_MORE_ITEMS = 5\<rparr>"

lemma list_qcbor_simps [simp]:
  "q_NO_MORE_ITEMS (list_qcbor items) = 5"
  "q_EnterBstrWrapped (list_qcbor items) ctx = ctx"
  "q_Init (list_qcbor items) b = (items b, 0)"
  by (simp_all add: list_qcbor_def)

lemma yields_list_qcbor: "yields (list_qcbor items) (xs, e) xs"
  by (induction xs arbitrary: e) (simp_all add: list_qcbor_def)

definition sample_content :: cvm_content where
  "sample_content = \<lparr>c_challenge = replicate 64 1, c_rpv = replicate 64 2, c_rim = replicate 32 3,
     c_rem = map (replicate 32) [7, 8, 10, 0], c_hash_algo = bytes_of_string ''sha-256'',
     c_pub_key = replicate 550 8, c_pk_algo = bytes_of_string ''sha-256''\<rparr>"

definition blank_claims :: cvm_claims where
  "blank_claims = \<lparr>challenge = NullBuf, rpv = NullBuf, rim = NullBuf, rem_claim = replicate 4 NullBuf,
     hash_algo_id = NullBuf, pub_key = NullBuf, pub_key_hash_algo_id = NullBuf\<rparr>"

lemma sample_content_ok: "cvm_content_ok sample_content" "length (rem_claim blank_claims) = 4"
  by (simp_all add: cvm_content_ok_def sample_content_def blank_claims_def)

definition shuffled_fields :: "cvm_field list" where
  "shuffled_fields = [Rim, Rems, Challenge, Rpv, Pk_Algo, Pub_Key, Hash_Algo]"

text \<open>The empty unprotected header: the decoder leaves its string view zero.\<close>

definition empty_map_item :: qitem where
  "empty_map_item = (map_item 0)\<lparr>val_string := NullBuf\<rparr>"

definition token_items :: "qbuf \<Rightarrow> qitem list" where
  "token_items b =
     (if b = QBuf [0] then [map_item 1, bstr_item 44241 [1]]
      else if b = QBuf [1] then [cose_item, bstr_item 0 [2], empty_map_item, bstr_item 0 [3], bstr_item 0 [4]]
      else map_item 7 # concat (map (cvm_block sample_content) shuffled_fields))"

definition blank_token :: cca_token where
  "blank_token = \<lparr>cvm_envelop = zero_envelop, cvm_cose = NullBuf, cvm_token = blank_claims,
     platform_envelop = zero_envelop, platform_cose = NullBuf, platform_token = zero_platform\<rparr>"

definition sample_token :: cca_token where
  "sample_token = \<lparr>cvm_envelop = \<lparr>p_headers = QBuf [2], np_headers = NullBuf, payload = QBuf [3], signature = QBuf [4]\<rparr>,
     cvm_cose = QBuf [1], cvm_token = cvm_of sample_content,
     platform_envelop = zero_envelop, platform_cose = NullBuf, platform_token = zero_platform\<rparr>"

lemma yields_init: "items b = xs \<Longrightarrow> yields (list_qcbor items) (q_Init (list_qcbor items) b) xs"
  using yields_list_qcbor by (simp del: yields.simps)

lemma token_items_yield:
  defines "q \<equiv> list_qcbor token_items"
  shows "yields q (q_Init q (QBuf [0])) [map_item 1, bstr_item 44241 [1]]"
    and "yields q (q_Init q (QBuf [1])) [cose_item, bstr_item 0 [2], empty_map_item, bstr_item 0 [3], bstr_item 0 [4]]"
    and "yields q (q_EnterBstrWrapped q (q_Init q (val_string (bstr_item 0 [3]))))
       (map_item 7 # concat (map (cvm_block sample_content) shuffled_fields))"
  unfolding q_def list_qcbor_simps(2)
  by (rule yields_init, simp add: token_items_def bstr_item_def)+

lemma sample_token_parses:
  "parse_cca_attestation_token (\<lambda>_. True) (list_qcbor token_items) blank_token (QBuf [0]) = Some (0, sample_token)"
proof -
  let ?q = "list_qcbor token_items"
  have "parse_cca_attestation_token (\<lambda>_. True) ?q blank_token (QBuf [0]) = Some (VIRTCCA_SUCCESS,
     \<lparr>cvm_envelop = \<lparr>p_headers = val_string (bstr_item 0 [2]), np_headers = val_string empty_map_item,
                     payload = val_string (bstr_item 0 [3]), signature = val_string (bstr_item 0 [4])\<rparr>,
      cvm_cose = QBuf [1], cvm_token = cvm_of sample_content,
      platform_envelop = zero_envelop, platform_cose = NullBuf, platform_token = zero_platform\<rparr>)"
    by (rule parse_cvm_only_items [OF token_items_yield])
      (simp_all add: shuffled_fields_def sample_content_ok blank_token_def list_qcbor_def token_items_def
        map_item_def cose_item_def)
  then show ?thesis by (simp add: sample_token_def bstr_item_def empty_map_item_def)
qed

text \<open>
  Round trip of the CVM claims: when the decoder delivers a map with each of the seven claims
  once, in any order, \<open>parse_cvm_claims\<close> succeeds and stores exactly the encoded contents.
\<close>

theorem cvm_claims_roundtrip:
  assumes "yields q (q_EnterBstrWrapped q (q_Init q raw)) (map_item n # concat (map (cvm_block c) fs))"
    and "distinct fs" "length fs = 7"
    and "cvm_content_ok c" "length (rem_claim cl) = 4" "q_NO_MORE_ITEMS q \<noteq> QCBOR_SUCCESS"
  shows "parse_cvm_claims q cl raw = Some (VIRTCCA_SUCCESS, cvm_of c)"
  using parse_cvm_claims_blocks [OF assms(1,4-6)] cvm_fold_all [OF cvm_fields_card [OF assms(2,3)]] assms(3)
  by simp

theorem cvm_claims_roundtrip_witness:
  "parse_cvm_claims (list_qcbor (\<lambda>_. map_item 7 # concat (map (cvm_block sample_content) shuffled_fields)))
       blank_claims NullBuf = Some (0, cvm_of sample_content)"
proof (rule cvm_claims_roundtrip [where n = 7 and fs = shuffled_fields])
  let ?xs = "map_item 7 # concat (map (cvm_block sample_content) shuffled_fields)"
  show "yields (list_qcbor (\<lambda>_. ?xs)) (q_EnterBstrWrapped (list_qcbor (\<lambda>_. ?xs))
      (q_Init (list_qcbor (\<lambda>_. ?xs)) NullBuf)) ?xs"
    unfolding list_qcbor_simps by (rule yields_list_qcbor)
qed (simp_all add: sample_content_ok shuffled_fields_def)

text \<open>
  The parser counts claims, not kinds of claims: any sequence of well-formed claims is accepted
  exactly when it has seven, repetitions included, and a claim that never came keeps the value the
  structure had before. Seven copies of the challenge are a token without measurements.
\<close>

theorem cvm_claims_counted:
  assumes "yields q (q_EnterBstrWrapped q (q_Init q raw)) (map_item n # concat (map (cvm_block c) fs))"
    and "cvm_content_ok c" "length (rem_claim cl) = 4" "q_NO_MORE_ITEMS q \<noteq> QCBOR_SUCCESS"
  shows "\<exists>cl'. parse_cvm_claims q cl raw =
       Some (if length fs = 7 then VIRTCCA_SUCCESS else VIRTCCA_ERROR, cl') \<and>
     (\<forall>f. cvm_get f cl' = (if f \<in> set fs then cvm_get f (cvm_of c) else cvm_get f cl))"
  using parse_cvm_claims_blocks [OF assms] by (auto simp: cvm_get_fold)

theorem cvm_claims_counted_witness:
  "\<exists>cl'. parse_cvm_claims (list_qcbor (\<lambda>_. map_item 7 # concat (map (cvm_block sample_content) (replicate 7 Challenge))))
       blank_claims NullBuf = Some (VIRTCCA_SUCCESS, cl') \<and> rim cl' = NullBuf"
proof -
  let ?q = "list_qcbor (\<lambda>_. map_item 7 # concat (map (cvm_block sample_content) (replicate 7 Challenge)))"
  have y: "yields ?q (q_EnterBstrWrapped ?q (q_Init ?q NullBuf))
      (map_item 7 # concat (map (cvm_block sample_content) (replicate 7 Challenge)))"
    unfolding list_qcbor_simps by (rule yields_list_qcbor)
  obtain cl' where "parse_cvm_claims ?q blank_claims NullBuf = Some (VIRTCCA_SUCCESS, cl')"
      and g: "\<forall>f. cvm_get f cl' = (if f \<in> set (replicate 7 Challenge) then cvm_get f (cvm_of sample_content)
                 else cvm_get f blank_claims)"
    using cvm_claims_counted [OF y sample_content_ok] by (auto simp del: map_replicate)
  moreover have "rim cl' = NullBuf" using g [rule_format, of Rim] by (simp add: blank_claims_def)
  ultimately show ?thesis by blast
qed

text \<open>
  C36. Whatever the decoder delivers, after a successful parse of a whole token every CVM claim that
  was stored has one of the sizes allowed for it: 64 bytes for the challenge and the
  personalisation value, 32, 48 or 64 for the initial measurement and each register, 133 or 550
  for the key.
\<close>

theorem parse_token_sizes:
  assumes "parse_cca_attestation_token malloc_ok q token raw = Some (VIRTCCA_SUCCESS, token')"
  shows "cvm_sized (cvm_token token) (cvm_token token')"
  using parse_cca_success_cases [OF assms] parse_cvm_part_sized by metis

theorem parse_token_sizes_witness:
  "cvm_sized blank_claims (cvm_of sample_content)"
proof -
  have "parse_cca_attestation_token (\<lambda>_. True) (list_qcbor token_items) blank_token (QBuf [0]) = Some (0, sample_token)"
    by (rule sample_token_parses)
  then show ?thesis using parse_token_sizes [of "\<lambda>_. True" "list_qcbor token_items" blank_token "QBuf [0]" sample_token]
    by (simp add: blank_token_def sample_token_def)
qed

text \<open>
  C32. A token that consists of the CVM token only: when the decoder delivers the tagged collection,
  in it the tagged COSE message with its four parts, and in the payload the seven claims, the
  parser succeeds; the envelope, the raw message and the claims are the encoded ones and there is
  no platform token.
\<close>

theorem parse_token_cvm_only:
  fixes q :: "'c qcbor"
  assumes outer: "yields q (q_Init q raw) [map_item 1, bstr_item 44241 cose]"
    and msg: "yields q (q_Init q (QBuf cose)) [cose_item, i1, i2, i3, i4]"
    and claims: "yields q (q_EnterBstrWrapped q (q_Init q (val_string i3))) (map_item 7 # concat (map (cvm_block c) fs))"
    and fs: "distinct fs" "length fs = 7" and c: "cvm_content_ok c" "length (rem_claim (cvm_token token)) = 4"
    and tags: "q_GetNthTag q (snd (q_VGetNext q (q_Init q raw))) (map_item 1) 0 = 399"
      "q_GetNthTag q (snd (q_VGetNext q (q_Init q (QBuf cose)))) cose_item 0 = 18"
    and fin: "\<And>ctx. q_GetError q ctx = q_NO_MORE_ITEMS q \<Longrightarrow> q_Finish q ctx = q_NO_MORE_ITEMS q"
      "q_NO_MORE_ITEMS q \<noteq> QCBOR_SUCCESS"
  shows "parse_cca_attestation_token malloc_ok q token raw = Some (VIRTCCA_SUCCESS,
     \<lparr>cvm_envelop = \<lparr>p_headers = val_string i1, np_headers = val_string i2, payload = val_string i3,
                     signature = val_string i4\<rparr>,
      cvm_cose = QBuf cose, cvm_token = cvm_of c,
      platform_envelop = zero_envelop, platform_cose = NullBuf, platform_token = zero_platform\<rparr>)"
  using parse_cvm_only_items [where malloc_ok = malloc_ok, OF outer msg claims fs c tags fin] .

theorem parse_token_cvm_only_witness:
  "parse_cca_attestation_token (\<lambda>_. True) (list_qcbor token_items) blank_token (QBuf [0]) = Some (0, sample_token)"
proof -
  let ?q = "list_qcbor token_items"
  have "parse_cca_attestation_token (\<lambda>_. True) ?q blank_token (QBuf [0]) = Some (VIRTCCA_SUCCESS,
     \<lparr>cvm_envelop = \<lparr>p_headers = val_string (bstr_item 0 [2]), np_headers = val_string empty_map_item,
                     payload = val_string (bstr_item 0 [3]), signature = val_string (bstr_item 0 [4])\<rparr>,
      cvm_cose = QBuf [1], cvm_token = cvm_of sample_content,
      platform_envelop = zero_envelop, platform_cose = NullBuf, platform_token = zero_platform\<rparr>)"
    by (rule parse_token_cvm_only [OF token_items_yield])
      (simp_all add: shuffled_fields_def sample_content_ok blank_token_def list_qcbor_def token_items_def
        map_item_def cose_item_def)
  then show ?thesis by (simp add: sample_token_def bstr_item_def empty_map_item_def)
qed

end
