(* ===== verification/Token_Validate.thy ===== *)
theory Token_Validate
  imports Token_Parse
begin

text \<open>
  The token validator, \<open>attestation/samples/src/token_validate.c\<close>: certificate files, the
  certificate chain, the binding of the CVM key to the platform token, the COSE signatures
  with their DER to \<open>r || s\<close> conversion, and the combination of all results. OpenSSL and t_cose
  are third-party libraries: their functions are the fields of the argument \<open>o\<close> (in \<open>lib\<close>),
  over certificates \<open>'x\<close> and keys \<open>'k\<close> of any type. Runs of OpenSSL calls that all fail the
  same way are one field.
\<close>

section \<open>The libraries\<close>

datatype key_type = EVP_PKEY_RSA | EVP_PKEY_EC | EVP_PKEY_OTHER

datatype curve = NID_secp521r1 | NID_secp384r1 | NID_X9_62_prime256v1 | NID_other int

record ('x, 'k) crypto =
  o_X509_new :: "nat \<Rightarrow> 'x option"
  o_PEM_read_X509 :: "'x option \<Rightarrow> bytes \<Rightarrow> bool \<times> 'x option"
  o_X509_get_pubkey :: "'x option \<Rightarrow> 'k option"
  o_base_id :: "'k \<Rightarrow> key_type"
  o_EC_curve :: "'k \<Rightarrow> curve option"
  o_d2i_PUBKEY :: "bytes \<Rightarrow> 'k option"
  o_P521_point_key :: "bytes \<Rightarrow> 'k option"
  o_PKEY_cmp :: "'k \<Rightarrow> 'k \<Rightarrow> int"
  o_store_setup :: "'x \<Rightarrow> 'x option \<Rightarrow> 'x \<Rightarrow> bool"
  o_X509_verify_cert :: "'x \<Rightarrow> 'x option \<Rightarrow> 'x \<Rightarrow> int"
  o_get_digestbyname :: "string \<Rightarrow> bool"
  o_digest :: "string \<Rightarrow> bytes \<Rightarrow> bytes option"
  o_d2i_ECDSA_SIG :: "bytes \<Rightarrow> (nat \<times> nat) option"
  o_t_cose_verify :: "'k \<Rightarrow> qbuf \<Rightarrow> bool"


section \<open>Certificate files\<close>

datatype cert_type = CERT_TYPE_RSA | CERT_TYPE_ECC_P521 | CERT_TYPE_SM2 | CERT_TYPE_UNKNOWN

record cert_info =
  cert_path_prefix :: string
  root_cert_filename :: string
  sub_cert_filename :: string
  aik_cert_filename :: string
  root_cert_url :: string
  sub_cert_url :: string

definition pki_url :: "string \<Rightarrow> string" where
  "pki_url nid = ''\"https://download.huawei.com/dl/download.do?actionFlag=download&nid='' @ nid @
     ''&partNo=3001&mid=SUP_PKI\"''"

definition detect_aik_cert_type :: "('x, 'k) crypto \<Rightarrow> files \<Rightarrow> string option \<Rightarrow> cert_type" where
  "detect_aik_cert_type lib fs aik_cert_path =
     (case aik_cert_path of
        None \<Rightarrow> CERT_TYPE_UNKNOWN
      | Some path \<Rightarrow>
          let fullpath = take 4095 (if strstr path ''/'' \<noteq> None then path else ''.'' @ ''/'' @ path) in
          case fs fullpath of
            None \<Rightarrow> CERT_TYPE_UNKNOWN
          | Some d \<Rightarrow>
              let (ok, cert) = o_PEM_read_X509 lib None d in
              if \<not> ok then CERT_TYPE_UNKNOWN
              else case o_X509_get_pubkey lib cert of
                None \<Rightarrow> CERT_TYPE_UNKNOWN
              | Some pkey \<Rightarrow>
                  (case o_base_id lib pkey of
                     EVP_PKEY_RSA \<Rightarrow> CERT_TYPE_RSA
                   | EVP_PKEY_EC \<Rightarrow>
                       if o_EC_curve lib pkey = Some NID_secp521r1 then CERT_TYPE_ECC_P521
                       else CERT_TYPE_UNKNOWN
                   | EVP_PKEY_OTHER \<Rightarrow> CERT_TYPE_UNKNOWN))"

definition configure_cert_info_by_type :: "cert_info \<Rightarrow> cert_type \<Rightarrow> cert_info" where
  "configure_cert_info_by_type cert_info cert_type =
     (let ci = cert_info\<lparr>cert_path_prefix := ''.'', aik_cert_filename := ''aik_cert.pem''\<rparr>;
          rsa = ci\<lparr>root_cert_filename := ''root_cert.pem'', sub_cert_filename := ''sub_cert.pem'',
                   root_cert_url := pki_url ''PKI1000000002'', sub_cert_url := pki_url ''PKI1000000040''\<rparr> in
      case cert_type of
        CERT_TYPE_RSA \<Rightarrow> rsa
      | CERT_TYPE_ECC_P521 \<Rightarrow>
          ci\<lparr>root_cert_filename := ''eccp521_root_cert.pem'', sub_cert_filename := ''eccp521_sub_cert.pem'',
             root_cert_url := pki_url ''PKI1100000224'', sub_cert_url := pki_url ''PKI1100000225''\<rparr>
      | CERT_TYPE_SM2 \<Rightarrow>
          ci\<lparr>root_cert_filename := ''sm2_root_cert.pem'', sub_cert_filename := ''sm2_sub_cert.pem'',
             root_cert_url := pki_url ''PKI1100000204'', sub_cert_url := pki_url ''PKI1100000226''\<rparr>
      | CERT_TYPE_UNKNOWN \<Rightarrow> rsa)"

definition read_x509_from_pem ::
  "('x, 'k) crypto \<Rightarrow> files \<Rightarrow> string \<Rightarrow> string \<Rightarrow> 'x option \<Rightarrow> bool \<times> 'x option"
where
  "read_x509_from_pem lib fs dir filename cert =
     (case fs (take 4095 (dir @ ''/'' @ filename)) of
        None \<Rightarrow> (False, cert)
      | Some d \<Rightarrow> o_PEM_read_X509 lib cert d)"


section \<open>Certificate chain\<close>

text \<open>
  \<open>X509_verify_cert\<close> returns 1 for success, 0 or a negative number for failure; its result is
  stored in a \<open>bool\<close> before it is compared with 1.
\<close>

definition x509_validate_signature :: "('x, 'k) crypto \<Rightarrow> 'x \<Rightarrow> 'x option \<Rightarrow> 'x \<Rightarrow> bool" where
  "x509_validate_signature lib child intermediate parent =
     (if \<not> o_store_setup lib child intermediate parent then False
      else
        let ret = (o_X509_verify_cert lib child intermediate parent \<noteq> 0) in
        if ret \<noteq> True then ret else True)"

definition validate_aik_cert_chain ::
  "('x, 'k) crypto \<Rightarrow> 'x option \<Rightarrow> 'x option \<Rightarrow> 'x option \<Rightarrow> bool"
where
  "validate_aik_cert_chain lib x509_aik x509_sub x509_root =
     (case (x509_aik, x509_sub, x509_root) of
        (Some aik, Some sub, Some root) \<Rightarrow>
          if \<not> x509_validate_signature lib root None root then False
          else if \<not> x509_validate_signature lib sub None root then False
          else x509_validate_signature lib aik (Some sub) root
      | _ \<Rightarrow> False)"


section \<open>Key binding\<close>

definition digest_sha :: "('x, 'k) crypto \<Rightarrow> bytes \<Rightarrow> string \<Rightarrow> bytes option option" where
  "digest_sha lib msg algorithm =
     (if \<not> o_get_digestbyname lib algorithm then None
      else Some (o_digest lib algorithm msg))"

text \<open>The bytes of a buffer; a NULL buffer has none.\<close>

fun qbuf_data :: "qbuf \<Rightarrow> bytes option" where
  "qbuf_data NullBuf = Some []"
| "qbuf_data (QBuf b) = Some b"
| "qbuf_data Wild = None"

definition c_lit :: "string \<Rightarrow> bytes" where
  "c_lit s = bytes_of_string s @ [0]"

definition verify_pubkhash_challenge :: "('x, 'k) crypto \<Rightarrow> qbuf \<Rightarrow> qbuf \<Rightarrow> qbuf \<Rightarrow> bool option" where
  "verify_pubkhash_challenge lib pk_buf chal algorithm =
     do {
       alg \<leftarrow> qbuf_data algorithm;
       let algo = (if strncmp_eq (length alg) (c_lit ''sha-256'') alg then Some ''sha256''
                   else if strncmp_eq (length alg) (c_lit ''sha-512'') alg then Some ''sha512''
                   else None);
       case algo of
         None \<Rightarrow> Some False
       | Some a \<Rightarrow>
           do {
             pk \<leftarrow> qbuf_data pk_buf;
             md \<leftarrow> digest_sha lib pk a;
             case md of
               None \<Rightarrow> Some False
             | Some h \<Rightarrow>
                 do {
                   c \<leftarrow> qbuf_data chal;
                   c \<leftarrow> mem_read c 0 (length h);
                   Some (c = h)
                 }
           }
     }"


section \<open>Signature conversion\<close>

text \<open>\<open>BN_num_bytes\<close> and \<open>BN_bn2bin\<close> on a non-negative number.\<close>

fun bn_num_bytes :: "nat \<Rightarrow> nat" where
  "bn_num_bytes n = (if n = 0 then 0 else Suc (bn_num_bytes (n div 256)))"

declare bn_num_bytes.simps [simp del]

definition bn2bin :: "nat \<Rightarrow> bytes" where
  "bn2bin n = rev (le_bytes (bn_num_bytes n) n)"

fun curve_field_size :: "curve \<Rightarrow> nat option" where
  "curve_field_size NID_secp521r1 = Some 66"
| "curve_field_size NID_secp384r1 = Some 48"
| "curve_field_size NID_X9_62_prime256v1 = Some 32"
| "curve_field_size (NID_other n) = None"

text \<open>
  \<open>cose_sig\<close> is the buffer of the caller, \<^term>\<open>None\<close> when its \<open>malloc\<close> failed, which the code does
  not test.
\<close>

definition ecdsa_signature_der_to_cose ::
  "('x, 'k) crypto \<Rightarrow> bytes \<Rightarrow> bytes option \<Rightarrow> nat \<Rightarrow> curve \<Rightarrow> (bool \<times> bytes option \<times> nat) option"
where
  "ecdsa_signature_der_to_cose lib der_sig cose_sig cose_len curve_nid =
     (case curve_field_size curve_nid of
        None \<Rightarrow> Some (False, cose_sig, cose_len)
      | Some field_size \<Rightarrow>
          if cose_len < field_size * 2 then Some (False, cose_sig, cose_len)
          else case o_d2i_ECDSA_SIG lib der_sig of
              None \<Rightarrow> Some (False, cose_sig, cose_len)
            | Some (r, s) \<Rightarrow>
                do {
                  buf \<leftarrow> cose_sig;
                  buf \<leftarrow> mem_write buf 0 (replicate (field_size * 2) 0);
                  if bn_num_bytes r > field_size then Some (False, Some buf, cose_len)
                  else do {
                    buf \<leftarrow> mem_write buf (field_size - bn_num_bytes r) (bn2bin r);
                    if bn_num_bytes s > field_size then Some (False, Some buf, cose_len)
                    else do {
                      buf \<leftarrow> mem_write buf (field_size + (field_size - bn_num_bytes s)) (bn2bin s);
                      Some (True, Some buf, field_size * 2)
                    }
                  }
                })"

fun der_len_loop :: "bytes \<Rightarrow> nat \<Rightarrow> nat \<Rightarrow> nat \<Rightarrow> nat option" where
  "der_len_loop sig 0 i acc = Some acc"
| "der_len_loop sig (Suc n) i acc =
     do { b \<leftarrow> mem_at sig (2 + i); der_len_loop sig n (Suc i) (acc * 256 + unat b) }"

definition signature_is_der_format :: "bytes \<Rightarrow> bool option" where
  "signature_is_der_format sig =
     (if length sig < 6 then Some False
      else do {
        b0 \<leftarrow> mem_at sig 0;
        b1 \<leftarrow> mem_at sig 1;
        if b0 \<noteq> 0x30 then Some False
        else if bit b1 7 then
          let len_bytes = unat (b1 AND 0x7f) in
          if len_bytes > 2 \<or> len_bytes = 0 then Some False
          else do { n \<leftarrow> der_len_loop sig len_bytes 0 0; Some (n + 2 \<le> length sig) }
        else Some (unat b1 + 2 \<le> length sig)
      })"

definition get_curve_nid_from_key :: "('x, 'k) crypto \<Rightarrow> 'k \<Rightarrow> curve" where
  "get_curve_nid_from_key lib pkey =
     (if o_base_id lib pkey \<noteq> EVP_PKEY_EC then NID_other (- 1)
      else case o_EC_curve lib pkey of None \<Rightarrow> NID_other (- 1) | Some c \<Rightarrow> c)"

fun curve_positive :: "curve \<Rightarrow> bool" where
  "curve_positive (NID_other n) = (n > 0)"
| "curve_positive _ = True"


text \<open>
  The body that builds the converted message: everything before the signature, the new
  length in the byte before it, the new signature, and what followed the old one. \<open>off\<close> is
  \<open>prefix_len\<close>.
\<close>

definition splice_signature :: "bytes \<Rightarrow> nat \<Rightarrow> nat \<Rightarrow> bytes \<Rightarrow> nat \<Rightarrow> nat \<Rightarrow> bytes option" where
  "splice_signature msg off sig_len cose_sig cose_len new_len =
     do {
       pre \<leftarrow> mem_read msg 0 off;
       buf \<leftarrow> mem_write (replicate new_len 0) 0 pre;
       buf \<leftarrow> mem_write buf (size_sub off 1) [of_nat cose_len];
       sig \<leftarrow> mem_read cose_sig 0 cose_len;
       buf \<leftarrow> mem_write buf off sig;
       let remaining = size_sub (size_sub (length msg) off) sig_len;
       if remaining > 0 then do {
         rest \<leftarrow> mem_read msg (off + sig_len) remaining;
         mem_write buf (off + cose_len) rest
       } else Some buf
     }"

text \<open>
  The block both \<open>verify_plat_cose_sign\<close> and \<open>verify_cvm_cose_sign\<close> have: the message to verify,
  converted when the key is an EC key and the signature looks like DER.
\<close>

definition final_signed_cose ::
  "(nat \<Rightarrow> bool) \<Rightarrow> 'c qcbor \<Rightarrow> ('x, 'k) crypto \<Rightarrow> qbuf \<Rightarrow> 'k \<Rightarrow> qbuf option"
where
  "final_signed_cose malloc_ok q lib signed_cose pkey =
     (if o_base_id lib pkey \<noteq> EVP_PKEY_EC then Some signed_cose
      else
        let (item, ctx) = q_VGetNext q (q_Init q signed_cose) in
        if \<not> (uDataType item = QCBOR_TYPE_ARRAY \<and> val_uCount item = 4) then Some signed_cose
        else
          let (_, ctx) = q_VGetNext q ctx; (_, ctx) = q_VGetNext q ctx; (_, ctx) = q_VGetNext q ctx;
              (item, ctx) = q_VGetNext q ctx in
          if uDataType item \<noteq> QCBOR_TYPE_BYTE_STRING then Some signed_cose
          else do {
            sig \<leftarrow> qbuf_data (val_string item);
            der \<leftarrow> signature_is_der_format sig;
            let curve_nid = get_curve_nid_from_key lib pkey;
            if \<not> der \<or> \<not> curve_positive curve_nid then Some signed_cose
            else do {
              let field_size = (if curve_nid = NID_secp521r1 then 66
                                else if curve_nid = NID_secp384r1 then 48 else 32);
              let cose_buf = (if malloc_ok (field_size * 2) then Some (replicate (field_size * 2) 0) else None);
              (ok, cose_sig, cose_len) \<leftarrow>
                ecdsa_signature_der_to_cose lib sig cose_buf (field_size * 2) curve_nid;
              if \<not> ok then Some signed_cose
              else do {
                msg \<leftarrow> qbuf_data signed_cose;
                let new_len = size_add (size_sub (length msg) (length sig)) cose_len;
                if \<not> malloc_ok new_len then Some signed_cose
                else do {
                  cs \<leftarrow> cose_sig;
                  buf \<leftarrow> splice_signature msg (val_off item) (length sig) cs cose_len new_len;
                  Some (QBuf buf)
                }
              }
            }
          })"


section \<open>Signatures and keys\<close>

text \<open>
  \<open>d2i_PUBKEY\<close>, and for a key that is not DER the 133-byte uncompressed P-521 point: the
  common part of \<open>init_signing_key\<close> and \<open>verify_cvm_pubkey\<close>.
\<close>

definition load_pubkey :: "('x, 'k) crypto \<Rightarrow> bytes \<Rightarrow> 'k option" where
  "load_pubkey lib pk =
     (case o_d2i_PUBKEY lib pk of
        Some k \<Rightarrow> Some k
      | None \<Rightarrow>
          if length pk = 133 \<and> pk ! 0 = 0x04 then o_P521_point_key lib pk else None)"

definition init_signing_key :: "('x, 'k) crypto \<Rightarrow> qbuf \<Rightarrow> 'k option option" where
  "init_signing_key lib pk_buf = do { pk \<leftarrow> qbuf_data pk_buf; Some (load_pubkey lib pk) }"

definition verify_plat_cose_sign ::
  "(nat \<Rightarrow> bool) \<Rightarrow> 'c qcbor \<Rightarrow> ('x, 'k) crypto \<Rightarrow> qbuf \<Rightarrow> 'x option \<Rightarrow> bool option"
where
  "verify_plat_cose_sign malloc_ok q lib signed_cose x509_aik =
     (case o_X509_get_pubkey lib x509_aik of
        None \<Rightarrow> Some False
      | Some pkey \<Rightarrow>
          do {
            msg \<leftarrow> final_signed_cose malloc_ok q lib signed_cose pkey;
            Some (o_t_cose_verify lib pkey msg)
          })"

definition verify_cvm_pubkey :: "('x, 'k) crypto \<Rightarrow> qbuf \<Rightarrow> 'x option \<Rightarrow> bool option" where
  "verify_cvm_pubkey lib pk_buf x509_aik =
     (case o_X509_get_pubkey lib x509_aik of
        None \<Rightarrow> Some False
      | Some aik_pkey \<Rightarrow>
          do {
            pk \<leftarrow> qbuf_data pk_buf;
            case load_pubkey lib pk of
              None \<Rightarrow> Some False
            | Some cvm_pkey \<Rightarrow>
                let cmp = o_PKEY_cmp lib aik_pkey cvm_pkey in
                if cmp = 1 then Some True
                else if cmp = 0 then
                  Some (o_base_id lib cvm_pkey = EVP_PKEY_EC \<and>
                        o_EC_curve lib cvm_pkey = Some NID_secp521r1)
                else Some False
          })"

definition verify_cvm_cose_sign ::
  "(nat \<Rightarrow> bool) \<Rightarrow> 'c qcbor \<Rightarrow> ('x, 'k) crypto \<Rightarrow> qbuf \<Rightarrow> qbuf \<Rightarrow> bool option"
where
  "verify_cvm_cose_sign malloc_ok q lib signed_cose pk_buf =
     do {
       key \<leftarrow> init_signing_key lib pk_buf;
       case key of
         None \<Rightarrow> Some False
       | Some k \<Rightarrow>
           do {
             msg \<leftarrow> final_signed_cose malloc_ok q lib signed_cose k;
             Some (o_t_cose_verify lib k msg)
           }
     }"


section \<open>The combined verdict\<close>

definition qbuf_present :: "qbuf \<Rightarrow> bool" where
  "qbuf_present b = (\<exists>d. b = QBuf d \<and> d \<noteq> [])"

text \<open>\<open>if (ret == false) ret_bits &= ~(1 << index);\<close>\<close>

definition record_bit :: "bool \<Rightarrow> nat \<Rightarrow> u32 \<Rightarrow> u32" where
  "record_bit ok index ret_bits = (if ok then ret_bits else ret_bits AND NOT (push_bit index 1))"

definition fetch_cert ::
  "(string \<Rightarrow> files \<Rightarrow> int \<times> files) \<Rightarrow> files \<Rightarrow> string \<Rightarrow> string \<Rightarrow> string \<Rightarrow> files"
where
  "fetch_cert sys fs dir filename url =
     (if \<not> file_exists fs dir filename then snd (download_cert_pem sys fs dir filename url) else fs)"

text \<open>
  \<open>verify_cca_token_signatures\<close>. When one of the three \<open>X509_new\<close> calls fails the code returns a
  variable it never set, and the model has no value.
\<close>

definition verify_cca_token_signatures ::
  "(nat \<Rightarrow> bool) \<Rightarrow> 'c qcbor \<Rightarrow> ('x, 'k) crypto \<Rightarrow> (string \<Rightarrow> files \<Rightarrow> int \<times> files) \<Rightarrow> files \<Rightarrow>
   cert_info \<Rightarrow> qbuf \<Rightarrow> qbuf \<Rightarrow> qbuf \<Rightarrow> qbuf \<Rightarrow> qbuf \<Rightarrow> (bool \<times> files) option"
where
  "verify_cca_token_signatures malloc_ok q lib sys fs ci plat_msg cvm_msg cvm_pk plat_chal pk_algo =
     do {
       root \<leftarrow> o_X509_new lib 0;
       sub \<leftarrow> o_X509_new lib 1;
       aik \<leftarrow> o_X509_new lib 2;
       let has_plat = qbuf_present plat_msg;
       let ret_bits = 0xFFFFFFFF;
       let index = 0;
       (ret_bits, index) \<leftarrow>
         (if has_plat then do {
            ret \<leftarrow> verify_pubkhash_challenge lib cvm_pk plat_chal pk_algo;
            Some (record_bit ret index ret_bits, index + 1)
          } else Some (ret_bits, index));
       ret \<leftarrow> verify_cvm_cose_sign malloc_ok q lib cvm_msg cvm_pk;
       let ret_bits = record_bit ret index ret_bits;
       let index = index + 1;
       let (ret, x509_aik) = read_x509_from_pem lib fs (cert_path_prefix ci) (aik_cert_filename ci) (Some aik);
       let ret_bits = record_bit ret index ret_bits;
       let index = index + 1;
       (ret_bits, index) \<leftarrow>
         (if has_plat then do {
            ret \<leftarrow> verify_plat_cose_sign malloc_ok q lib plat_msg x509_aik;
            Some (record_bit ret index ret_bits, index + 1)
          } else Some (ret_bits, index));
       ret \<leftarrow> verify_cvm_pubkey lib cvm_pk x509_aik;
       let index = index + 1;
       let fs = fetch_cert sys fs (cert_path_prefix ci) (root_cert_filename ci) (root_cert_url ci);
       let (ret, x509_root) = read_x509_from_pem lib fs (cert_path_prefix ci) (root_cert_filename ci) (Some root);
       let ret_bits = record_bit ret index ret_bits;
       let index = index + 1;
       let fs = fetch_cert sys fs (cert_path_prefix ci) (sub_cert_filename ci) (sub_cert_url ci);
       let (ret, x509_sub) = read_x509_from_pem lib fs (cert_path_prefix ci) (sub_cert_filename ci) (Some sub);
       let ret_bits = record_bit ret index ret_bits;
       let index = index + 1;
       let ret = validate_aik_cert_chain lib x509_aik x509_sub x509_root;
       let ret_bits = record_bit ret index ret_bits;
       let passed = (has_plat \<longrightarrow> bit ret_bits 0 \<and> bit ret_bits 3);
       let passed = (passed \<and> bit ret_bits 1);
       let passed = (passed \<and> bit ret_bits (index - 1));
       Some (passed, fs)
     }"


lemma bit_record_bit: "j < 32 \<Longrightarrow> bit (record_bit ok i b) j \<longleftrightarrow> bit b j \<and> (ok \<or> i \<noteq> j)"
  by (auto simp: record_bit_def bit_simps)

lemma bit_all_ones: "j < 32 \<Longrightarrow> bit (0xFFFFFFFF :: u32) j"
proof -
  have "(0xFFFFFFFF :: u32) = - 1" by simp
  then show "j < 32 \<Longrightarrow> bit (0xFFFFFFFF :: u32) j" by (simp only: bit_minus_1_iff) simp
qed

text \<open>
  What the verdict depends on. With a platform token it is the key binding, both signatures
  and whether the sub certificate could be read; without one it is whether the AIK and the
  sub certificate could be read. The certificate chain takes no part in either.
\<close>

lemma verdict_platform:
  assumes x: "o_X509_new lib 0 = Some root" "o_X509_new lib 1 = Some sub" "o_X509_new lib 2 = Some aik"
    and p: "qbuf_present plat_msg"
    and b: "verify_pubkhash_challenge lib cvm_pk plat_chal pk_algo = Some chal_ok"
    and c: "verify_cvm_cose_sign malloc_ok q lib cvm_msg cvm_pk = Some cvm_ok"
    and a: "read_x509_from_pem lib fs (cert_path_prefix ci) (aik_cert_filename ci) (Some aik) = (aik_ok, x509_aik)"
    and s: "verify_plat_cose_sign malloc_ok q lib plat_msg x509_aik = Some plat_ok"
    and k: "verify_cvm_pubkey lib cvm_pk x509_aik = Some key_ok"
    and f1: "fetch_cert sys fs (cert_path_prefix ci) (root_cert_filename ci) (root_cert_url ci) = fs1"
    and f2: "fetch_cert sys fs1 (cert_path_prefix ci) (sub_cert_filename ci) (sub_cert_url ci) = fs2"
    and u: "read_x509_from_pem lib fs2 (cert_path_prefix ci) (sub_cert_filename ci) (Some sub) = (sub_ok, x509_sub)"
  shows "verify_cca_token_signatures malloc_ok q lib sys fs ci plat_msg cvm_msg cvm_pk plat_chal pk_algo =
           Some (chal_ok \<and> plat_ok \<and> cvm_ok \<and> sub_ok, fs2)"
proof -
  obtain root_ok x509_root where r: "read_x509_from_pem lib fs1 (cert_path_prefix ci) (root_cert_filename ci) (Some root)
      = (root_ok, x509_root)" by (cases "read_x509_from_pem lib fs1 (cert_path_prefix ci) (root_cert_filename ci) (Some root)")
  show ?thesis
    unfolding verify_cca_token_signatures_def
    by (simp add: x x(2) [unfolded One_nat_def] p b c a s k f1 f2 u r bit_record_bit bit_all_ones)
qed


lemma verdict_cvm_only:
  assumes x: "o_X509_new lib 0 = Some root" "o_X509_new lib 1 = Some sub" "o_X509_new lib 2 = Some aik"
    and p: "\<not> qbuf_present plat_msg"
    and c: "verify_cvm_cose_sign malloc_ok q lib cvm_msg cvm_pk = Some cvm_ok"
    and a: "read_x509_from_pem lib fs (cert_path_prefix ci) (aik_cert_filename ci) (Some aik) = (aik_ok, x509_aik)"
    and k: "verify_cvm_pubkey lib cvm_pk x509_aik = Some key_ok"
    and f1: "fetch_cert sys fs (cert_path_prefix ci) (root_cert_filename ci) (root_cert_url ci) = fs1"
    and f2: "fetch_cert sys fs1 (cert_path_prefix ci) (sub_cert_filename ci) (sub_cert_url ci) = fs2"
    and u: "read_x509_from_pem lib fs2 (cert_path_prefix ci) (sub_cert_filename ci) (Some sub) = (sub_ok, x509_sub)"
  shows "verify_cca_token_signatures malloc_ok q lib sys fs ci plat_msg cvm_msg cvm_pk plat_chal pk_algo =
           Some (aik_ok \<and> sub_ok, fs2)"
proof -
  obtain root_ok x509_root where r: "read_x509_from_pem lib fs1 (cert_path_prefix ci) (root_cert_filename ci) (Some root)
      = (root_ok, x509_root)" by (cases "read_x509_from_pem lib fs1 (cert_path_prefix ci) (root_cert_filename ci) (Some root)")
  show ?thesis
    unfolding verify_cca_token_signatures_def
    by (simp add: x x(2) [unfolded One_nat_def] p c a k f1 f2 u r bit_record_bit bit_all_ones)
qed


section \<open>Conversion of signatures\<close>

definition be_bytes :: "nat \<Rightarrow> nat \<Rightarrow> bytes" where
  "be_bytes k n = rev (le_bytes k n)"

lemma le_bytes_pad:
  assumes "n < 256 ^ k"
  shows "le_bytes (k + j) n = le_bytes k n @ replicate j 0"
  using assms
proof (induction k arbitrary: n)
  case 0
  have "le_bytes j 0 = replicate j 0" for j by (induction j) auto
  then show ?case using 0 by simp
next
  case (Suc k)
  have "n div 256 < 256 ^ k" using Suc.prems by (simp add: less_mult_imp_div_less mult.commute)
  then show ?case using Suc.IH [of "n div 256"] by simp
qed

lemma bn_num_bytes_bound: "n < 256 ^ bn_num_bytes n"
proof (induction n rule: bn_num_bytes.induct)
  case (1 n)
  show ?case
  proof (cases "n = 0")
    case True
    then show ?thesis by (simp add: bn_num_bytes.simps)
  next
    case False
    have "n div 256 < 256 ^ bn_num_bytes (n div 256)" using 1 False by simp
    then have "n < 256 * 256 ^ bn_num_bytes (n div 256)"
      by (simp add: div_less_iff_less_mult mult.commute)
    then show ?thesis using False by (simp add: bn_num_bytes.simps [of n])
  qed
qed

lemma length_bn2bin [simp]: "length (bn2bin n) = bn_num_bytes n"
  by (simp add: bn2bin_def)

lemma be_bytes_bn2bin:
  "bn_num_bytes n \<le> k \<Longrightarrow> be_bytes k n = replicate (k - bn_num_bytes n) 0 @ bn2bin n"
  using le_bytes_pad [OF bn_num_bytes_bound, of n "k - bn_num_bytes n"]
  by (simp add: be_bytes_def bn2bin_def)

lemma length_be_bytes [simp]: "length (be_bytes k n) = k"
  by (simp add: be_bytes_def)

text \<open>The converted signature is \<open>r\<close> and \<open>s\<close>, big-endian, at the width of the curve's field.\<close>

lemma der_to_cose_rs:
  assumes f: "curve_field_size c = Some k" and len: "length buf = 2 * k" "cose_len = 2 * k"
    and d: "o_d2i_ECDSA_SIG lib der = Some (r, s)" "bn_num_bytes r \<le> k" "bn_num_bytes s \<le> k"
  shows "ecdsa_signature_der_to_cose lib der (Some buf) cose_len c =
           Some (True, Some (be_bytes k r @ be_bytes k s), 2 * k)"
proof -
  let ?z = "\<lambda>n. replicate n (0 :: u8)"
  let ?r = "bn_num_bytes r" and ?s = "bn_num_bytes s"
  have w0: "mem_write buf 0 (?z (k * 2)) = Some (?z (k * 2))" using len by (simp add: mem_write_def)
  have e1: "?z (k * 2) = ?z (k - ?r) @ ?z ?r @ ?z k"
    using d by (simp add: replicate_add [symmetric])
  have w1: "mem_write (?z (k * 2)) (k - ?r) (bn2bin r) = Some (be_bytes k r @ ?z k)"
    using mem_write_append [of "bn2bin r" "?z ?r" "?z (k - ?r)" "?z k"] d
    by (simp add: e1 be_bytes_bn2bin)
  have e2: "be_bytes k r @ ?z k = (be_bytes k r @ ?z (k - ?s)) @ ?z ?s @ []"
    using d by (simp add: replicate_add [symmetric])
  have w2: "mem_write (be_bytes k r @ ?z k) (k + (k - ?s)) (bn2bin s) = Some (be_bytes k r @ be_bytes k s)"
    using mem_write_append [of "bn2bin s" "?z ?s" "be_bytes k r @ ?z (k - ?s)" "[]"] d
    unfolding e2 by (simp add: be_bytes_bn2bin [of s])
  then have w2': "mem_write (be_bytes k r @ ?z k) (k + k - ?s) (bn2bin s) = Some (be_bytes k r @ be_bytes k s)"
    using d by simp
  show ?thesis using f len d
    by (simp add: ecdsa_signature_der_to_cose_def w0 w1 w2' not_less mult.commute)
qed

text \<open>The spliced message differs from the original in the length byte and the signature only.\<close>

lemma splice_signature_eq:
  assumes "msg = pre @ [lenb] @ sig @ post" "length cose = n" "length msg < 2 ^ 64"
    "new_len = length msg - length sig + n"
  shows "splice_signature msg (length pre + 1) (length sig) cose n new_len
         = Some (pre @ [of_nat n] @ cose @ post)"
proof -
  let ?z = "\<lambda>n. replicate n (0 :: u8)"
  have tot: "?z new_len = [] @ ?z (length pre + 1) @ ?z (n + length post)"
    using assms by (simp add: replicate_add [symmetric])
  have r1: "mem_read msg 0 (length pre + 1) = Some (pre @ [lenb])"
    using assms(1) by (simp add: mem_read_def)
  have w1: "mem_write (?z new_len) 0 (pre @ [lenb]) = Some ((pre @ [lenb]) @ ?z (n + length post))"
    using mem_write_append [of "pre @ [lenb]" "?z (length pre + 1)" "[]" "?z (n + length post)"]
    unfolding tot by simp
  have w2: "mem_write (pre @ [lenb] @ ?z (n + length post)) (length pre) [of_nat n]
      = Some (pre @ [of_nat n] @ ?z (n + length post))"
    by (rule mem_write_append) simp
  have r2: "mem_read cose 0 n = Some cose" using assms(2) by (simp add: mem_read_def)
  have w3: "mem_write ((pre @ [of_nat n]) @ ?z n @ ?z (length post)) (length (pre @ [of_nat n :: u8])) cose
      = Some ((pre @ [of_nat n]) @ cose @ ?z (length post))"
    using assms(2) by (intro mem_write_append) simp
  have w4: "mem_write ((pre @ [of_nat n] @ cose) @ ?z (length post) @ []) (length (pre @ [of_nat n :: u8] @ cose)) post
      = Some ((pre @ [of_nat n] @ cose) @ post @ [])"
    by (rule mem_write_append) simp
  have r3: "mem_read msg (length pre + 1 + length sig) (length post) = Some post"
    using assms(1) by (simp add: mem_read_def)
  have o: "size_sub (length pre + 1) 1 = length pre"
      "size_sub (size_sub (length msg) (length pre + 1)) (length sig) = length post"
    using assms(1,3) by simp_all
  show ?thesis
    unfolding splice_signature_def r1 bind.bind_lunit w1 o r2 Let_def r3
    using w2 w3 w4 assms(2) by (cases "post = []") (simp_all add: replicate_add)
qed


section \<open>Properties\<close>

lemma bn_num_bytes_le: "n < 256 ^ k \<Longrightarrow> bn_num_bytes n \<le> k"
proof (induction k arbitrary: n)
  case 0
  then show ?case by (simp add: bn_num_bytes.simps)
next
  case (Suc k)
  have "n div 256 < 256 ^ k" using Suc.prems by (simp add: less_mult_imp_div_less mult.commute)
  then show ?case using Suc.IH [of "n div 256"] by (simp add: bn_num_bytes.simps [of n])
qed

text \<open>Libraries in which every operation succeeds but the certificate chain is rejected.\<close>

definition toy_crypto :: "(unit, unit) crypto" where
  "toy_crypto = \<lparr>o_X509_new = (\<lambda>_. Some ()), o_PEM_read_X509 = (\<lambda>_ d. (d \<noteq> [], Some ())),
     o_X509_get_pubkey = (\<lambda>_. Some ()), o_base_id = (\<lambda>_. EVP_PKEY_RSA), o_EC_curve = (\<lambda>_. None),
     o_d2i_PUBKEY = (\<lambda>_. Some ()), o_P521_point_key = (\<lambda>_. None), o_PKEY_cmp = (\<lambda>_ _. 0),
     o_store_setup = (\<lambda>_ _ _. True), o_X509_verify_cert = (\<lambda>_ _ _. 0), o_get_digestbyname = (\<lambda>_. True),
     o_digest = (\<lambda>_ m. Some (take 2 m)), o_d2i_ECDSA_SIG = (\<lambda>_. Some (1, 2)),
     o_t_cose_verify = (\<lambda>_ m. m = QBuf [1] \<or> m = QBuf [2])\<rparr>"

definition toy_certs :: cert_info where
  "toy_certs = configure_cert_info_by_type \<lparr>cert_path_prefix = [], root_cert_filename = [], sub_cert_filename = [],
     aik_cert_filename = [], root_cert_url = [], sub_cert_url = []\<rparr> CERT_TYPE_RSA"

definition toy_files :: files where
  "toy_files = [''./aik_cert.pem'' \<mapsto> [1], ''./sub_cert.pem'' \<mapsto> [1], ''./root_cert.pem'' \<mapsto> [1]]"

lemmas toy_defs = toy_crypto_def toy_certs_def toy_files_def configure_cert_info_by_type_def
  read_x509_from_pem_def fetch_cert_def file_exists_def

definition has_certs :: "files \<Rightarrow> bool" where
  "has_certs fs \<longleftrightarrow> fs ''./aik_cert.pem'' = Some [1] \<and> fs ''./sub_cert.pem'' = Some [1] \<and>
     fs ''./root_cert.pem'' = Some [1]"

lemma toy_steps:
  assumes "has_certs fs"
  shows "read_x509_from_pem toy_crypto fs (cert_path_prefix toy_certs) (aik_cert_filename toy_certs) (Some ()) =
     (True, Some ())"
  "fetch_cert sys fs (cert_path_prefix toy_certs) (root_cert_filename toy_certs) (root_cert_url toy_certs) = fs"
  "fetch_cert sys fs (cert_path_prefix toy_certs) (sub_cert_filename toy_certs) (sub_cert_url toy_certs) = fs"
  "read_x509_from_pem toy_crypto fs (cert_path_prefix toy_certs) (sub_cert_filename toy_certs) (Some ()) =
     (True, Some ())"
  using assms by (simp_all add: toy_defs has_certs_def)

lemma toy_libs:
  "o_X509_new toy_crypto n = Some ()"
  "verify_cvm_pubkey toy_crypto (QBuf pk) (Some ()) = Some False"
  "has_certs toy_files"
  by (simp_all add: toy_defs verify_cvm_pubkey_def load_pubkey_def has_certs_def)

lemmas toy_file_steps = toy_steps [OF toy_libs(3)]

lemma toy_signatures:
  "verify_pubkhash_challenge toy_crypto (QBuf [7, 7]) (QBuf [7, 7]) (QBuf (bytes_of_string ''sha-256'')) = Some True"
  "verify_cvm_cose_sign (\<lambda>_. True) q toy_crypto (QBuf b) (QBuf pk) = Some (b = [1] \<or> b = [2])"
  "verify_plat_cose_sign (\<lambda>_. True) q toy_crypto (QBuf b) (Some ()) = Some (b = [1] \<or> b = [2])"
proof -
  have "strncmp_eq (length (bytes_of_string ''sha-256'')) (c_lit ''sha-256'') (bytes_of_string ''sha-256'')"
    by code_simp
  then show "verify_pubkhash_challenge toy_crypto (QBuf [7, 7]) (QBuf [7, 7]) (QBuf (bytes_of_string ''sha-256'')) = Some True"
    by (simp add: verify_pubkhash_challenge_def digest_sha_def toy_crypto_def mem_read_def)
qed (auto simp: verify_cvm_cose_sign_def verify_plat_cose_sign_def init_signing_key_def load_pubkey_def
    final_signed_cose_def toy_crypto_def)

lemma toy_verdict:
  "verify_cca_token_signatures (\<lambda>_. True) (list_qcbor (\<lambda>_. [])) toy_crypto (\<lambda>_ fs. (0, fs)) toy_files toy_certs
     (QBuf [1]) (QBuf [2]) (QBuf [7, 7]) (QBuf [7, 7]) (QBuf (bytes_of_string ''sha-256'')) = Some (True, toy_files)"
  by (subst verdict_platform [OF toy_libs(1) toy_libs(1) toy_libs(1) _ toy_signatures(1,2) toy_file_steps(1)
      toy_signatures(3) toy_libs(2) toy_file_steps(2-4)]) (simp_all add: qbuf_present_def)

text \<open>
  C10. Soundness of the verdict on a token with a platform part: when \<open>verify_cca_token_signatures\<close>
  returns true, the platform challenge is the hash of the CVM key, the CVM message is signed
  under that key and the platform message under the key of the AIK certificate file.
\<close>

theorem platform_verdict_sound:
  assumes v: "verify_cca_token_signatures malloc_ok q lib sys fs ci plat_msg cvm_msg cvm_pk plat_chal pk_algo = Some (True, fs')"
    and p: "qbuf_present plat_msg"
  shows "verify_pubkhash_challenge lib cvm_pk plat_chal pk_algo = Some True \<and>
     verify_cvm_cose_sign malloc_ok q lib cvm_msg cvm_pk = Some True \<and>
     (\<exists>aik. o_X509_new lib 2 = Some aik \<and> verify_plat_cose_sign malloc_ok q lib plat_msg
        (snd (read_x509_from_pem lib fs (cert_path_prefix ci) (aik_cert_filename ci) (Some aik))) = Some True)"
proof -
  from v obtain root sub aik chal_ok cvm_ok where x: "o_X509_new lib 0 = Some root" "o_X509_new lib 1 = Some sub"
      "o_X509_new lib 2 = Some aik" and b: "verify_pubkhash_challenge lib cvm_pk plat_chal pk_algo = Some chal_ok"
      and c: "verify_cvm_cose_sign malloc_ok q lib cvm_msg cvm_pk = Some cvm_ok"
    unfolding verify_cca_token_signatures_def using p by (auto split: bind_splits)
  obtain aik_ok x509_aik where a: "read_x509_from_pem lib fs (cert_path_prefix ci) (aik_cert_filename ci) (Some aik)
      = (aik_ok, x509_aik)" by (cases "read_x509_from_pem lib fs (cert_path_prefix ci) (aik_cert_filename ci) (Some aik)")
  from v obtain plat_ok key_ok where s: "verify_plat_cose_sign malloc_ok q lib plat_msg x509_aik = Some plat_ok"
      and k: "verify_cvm_pubkey lib cvm_pk x509_aik = Some key_ok"
    unfolding verify_cca_token_signatures_def
    by (simp add: x x(2) [unfolded One_nat_def] b c p a split: bind_splits)
  obtain sub_ok x509_sub where u: "read_x509_from_pem lib
      (fetch_cert sys (fetch_cert sys fs (cert_path_prefix ci) (root_cert_filename ci) (root_cert_url ci))
        (cert_path_prefix ci) (sub_cert_filename ci) (sub_cert_url ci))
      (cert_path_prefix ci) (sub_cert_filename ci) (Some sub) = (sub_ok, x509_sub)"
    by (meson surj_pair)
  show ?thesis using v verdict_platform [OF x p b c a s k refl refl u] a b c s x(3) by auto
qed

theorem platform_verdict_sound_witness:
  "verify_pubkhash_challenge toy_crypto (QBuf [7, 7]) (QBuf [7, 7]) (QBuf (bytes_of_string ''sha-256'')) = Some True"
proof -
  have "verify_cca_token_signatures (\<lambda>_. True) (list_qcbor (\<lambda>_. [])) toy_crypto (\<lambda>_ fs. (0, fs)) toy_files toy_certs
      (QBuf [1]) (QBuf [2]) (QBuf [7, 7]) (QBuf [7, 7]) (QBuf (bytes_of_string ''sha-256'')) = Some (True, toy_files)"
    by (rule toy_verdict)
  then show ?thesis by (rule platform_verdict_sound [THEN conjunct1]) (simp add: qbuf_present_def)
qed

text \<open>
  C38. What the verdict on a token with a platform part consists of: the key binding, both
  signatures, and whether the sub certificate file could be read. The result of the certificate
  chain validation, of reading the root certificate and of comparing the CVM key with the AIK key
  has no influence.
\<close>

theorem platform_verdict_ignores_chain:
  assumes "o_X509_new lib 0 = Some root" "o_X509_new lib 1 = Some sub" "o_X509_new lib 2 = Some aik"
    and "qbuf_present plat_msg"
    and "verify_pubkhash_challenge lib cvm_pk plat_chal pk_algo = Some chal_ok"
    and "verify_cvm_cose_sign malloc_ok q lib cvm_msg cvm_pk = Some cvm_ok"
    and "read_x509_from_pem lib fs (cert_path_prefix ci) (aik_cert_filename ci) (Some aik) = (aik_ok, x509_aik)"
    and "verify_plat_cose_sign malloc_ok q lib plat_msg x509_aik = Some plat_ok"
    and "verify_cvm_pubkey lib cvm_pk x509_aik = Some key_ok"
    and "fetch_cert sys fs (cert_path_prefix ci) (root_cert_filename ci) (root_cert_url ci) = fs1"
    and "fetch_cert sys fs1 (cert_path_prefix ci) (sub_cert_filename ci) (sub_cert_url ci) = fs2"
    and "read_x509_from_pem lib fs2 (cert_path_prefix ci) (sub_cert_filename ci) (Some sub) = (sub_ok, x509_sub)"
  shows "verify_cca_token_signatures malloc_ok q lib sys fs ci plat_msg cvm_msg cvm_pk plat_chal pk_algo =
           Some (chal_ok \<and> plat_ok \<and> cvm_ok \<and> sub_ok, fs2)"
  using verdict_platform [OF assms] .

theorem platform_verdict_ignores_chain_witness:
  "validate_aik_cert_chain toy_crypto (Some ()) (Some ()) (Some ()) = False \<and>
   verify_cca_token_signatures (\<lambda>_. True) (list_qcbor (\<lambda>_. [])) toy_crypto (\<lambda>_ fs. (0, fs)) toy_files toy_certs
     (QBuf [1]) (QBuf [2]) (QBuf [7, 7]) (QBuf [7, 7]) (QBuf (bytes_of_string ''sha-256'')) = Some (True, toy_files)"
proof
  show "validate_aik_cert_chain toy_crypto (Some ()) (Some ()) (Some ()) = False"
    by (simp add: validate_aik_cert_chain_def x509_validate_signature_def toy_crypto_def)
qed (subst platform_verdict_ignores_chain [OF toy_libs(1) toy_libs(1) toy_libs(1) _ toy_signatures(1,2)
      toy_file_steps(1) toy_signatures(3) toy_libs(2) toy_file_steps(2-4)], simp_all add: qbuf_present_def)

text \<open>
  C39. On a token without a platform part the verdict is whether the AIK and the sub certificate
  files could be read: the CVM signature, the comparison of the CVM key with the AIK key and the
  certificate chain have no influence.
\<close>

theorem cvm_only_verdict_ignores_signature:
  assumes "o_X509_new lib 0 = Some root" "o_X509_new lib 1 = Some sub" "o_X509_new lib 2 = Some aik"
    and "\<not> qbuf_present plat_msg"
    and "verify_cvm_cose_sign malloc_ok q lib cvm_msg cvm_pk = Some cvm_ok"
    and "read_x509_from_pem lib fs (cert_path_prefix ci) (aik_cert_filename ci) (Some aik) = (aik_ok, x509_aik)"
    and "verify_cvm_pubkey lib cvm_pk x509_aik = Some key_ok"
    and "fetch_cert sys fs (cert_path_prefix ci) (root_cert_filename ci) (root_cert_url ci) = fs1"
    and "fetch_cert sys fs1 (cert_path_prefix ci) (sub_cert_filename ci) (sub_cert_url ci) = fs2"
    and "read_x509_from_pem lib fs2 (cert_path_prefix ci) (sub_cert_filename ci) (Some sub) = (sub_ok, x509_sub)"
  shows "verify_cca_token_signatures malloc_ok q lib sys fs ci plat_msg cvm_msg cvm_pk plat_chal pk_algo =
           Some (aik_ok \<and> sub_ok, fs2)"
  using verdict_cvm_only [OF assms] .

theorem cvm_only_verdict_ignores_signature_witness:
  "verify_cvm_cose_sign (\<lambda>_. True) (list_qcbor (\<lambda>_. [])) toy_crypto (QBuf [9]) (QBuf [7, 7]) = Some False \<and>
   verify_cca_token_signatures (\<lambda>_. True) (list_qcbor (\<lambda>_. [])) toy_crypto (\<lambda>_ fs. (0, fs)) toy_files toy_certs
     NullBuf (QBuf [9]) (QBuf [7, 7]) NullBuf NullBuf = Some (True, toy_files)"
proof
  show "verify_cvm_cose_sign (\<lambda>_. True) (list_qcbor (\<lambda>_. [])) toy_crypto (QBuf [9]) (QBuf [7, 7]) = Some False"
    by (simp add: toy_signatures)
qed (subst cvm_only_verdict_ignores_signature [OF toy_libs(1) toy_libs(1) toy_libs(1) _ toy_signatures(2)
      toy_file_steps(1) toy_libs(2) toy_file_steps(2-4)], simp_all add: qbuf_present_def)

text \<open>
  The conversion of an ECDSA signature from DER: for a supported curve and numbers that fit its
  field, the result is \<open>r\<close> followed by \<open>s\<close>, both big-endian at the full width of the field.
\<close>

theorem der_to_cose_is_r_s:
  assumes "curve_field_size c = Some k" "length buf = 2 * k"
    and "o_d2i_ECDSA_SIG lib der = Some (r, s)" "r < 256 ^ k" "s < 256 ^ k"
  shows "ecdsa_signature_der_to_cose lib der (Some buf) (2 * k) c =
           Some (True, Some (be_bytes k r @ be_bytes k s), 2 * k)"
  using der_to_cose_rs [OF assms(1,2) refl assms(3)] bn_num_bytes_le [OF assms(4)] bn_num_bytes_le [OF assms(5)]
  by simp

theorem der_to_cose_is_r_s_witness:
  "ecdsa_signature_der_to_cose toy_crypto [] (Some (replicate 64 5)) 64 NID_X9_62_prime256v1 =
     Some (True, Some (be_bytes 32 1 @ be_bytes 32 2), 64)"
  using der_to_cose_is_r_s [of NID_X9_62_prime256v1 32 "replicate 64 5" toy_crypto "[]" 1 2]
  by (simp add: toy_crypto_def)

text \<open>
  The converted message differs from the signed message in the signature and in the length
  byte before it only; what precedes and follows is kept.
\<close>

theorem splice_keeps_message:
  assumes "length cose = n" "length pre + length sig + length post + 1 < 2 ^ 64"
  shows "splice_signature (pre @ [lenb] @ sig @ post) (length pre + 1) (length sig) cose n
           (length (pre @ [lenb] @ sig @ post) - length sig + n) = Some (pre @ [of_nat n] @ cose @ post)"
  using splice_signature_eq [OF refl assms(1), of pre lenb sig post] assms(2) by simp

theorem splice_keeps_message_witness:
  "splice_signature ([0x84] @ [3] @ [7, 8, 9] @ [5]) 2 3 [1, 2] 2 5 = Some [0x84, 2, 1, 2, 5]"
proof -
  have l: "length [0x84 :: u8] + 1 = 2" "length [7, 8, 9 :: u8] = 3"
      "length ([0x84] @ [3] @ [7, 8, 9] @ [5 :: u8]) - 3 + 2 = 5" by simp_all
  show ?thesis using splice_keeps_message [of "[1, 2]" 2 "[0x84]" "[7, 8, 9]" "[5]" 3] unfolding l by simp
qed

text \<open>
  The algorithm name is compared over the length the token gives: an empty name, like every
  prefix of "sha-256" without NUL, selects SHA-256.
\<close>

theorem algorithm_prefix_accepted:
  assumes "prefix alg (bytes_of_string ''sha-256'')"
    and "o_get_digestbyname lib ''sha256''" "o_digest lib ''sha256'' pk = Some h"
    and "length h \<le> length c"
  shows "verify_pubkhash_challenge lib (QBuf pk) (QBuf c) (QBuf alg) = Some (take (length h) c = h)"
proof -
  have nz: "0 \<notin> set (bytes_of_string ''sha-256'')" by (simp add: bytes_of_string_def)
  obtain z where z: "bytes_of_string ''sha-256'' = alg @ z" using assms(1) by (auto simp: prefix_def)
  have "0 \<notin> set alg" using nz z by (metis UnCI set_append)
  have "strncmp_eq (length alg) (alg @ z @ [0]) alg"
    using \<open>0 \<notin> set alg\<close> by (induction alg) auto
  then have "strncmp_eq (length alg) (c_lit ''sha-256'') alg" by (simp only: c_lit_def z append_assoc)
  then show ?thesis using assms(2-4)
    by (simp add: verify_pubkhash_challenge_def digest_sha_def mem_read_def)
qed

theorem algorithm_prefix_accepted_witness:
  "verify_pubkhash_challenge toy_crypto (QBuf [7, 7, 7]) (QBuf [7, 7]) (QBuf []) = Some True"
  using algorithm_prefix_accepted [of "[]" toy_crypto "[7, 7, 7]" "[7, 7]" "[7, 7]"] by (simp add: toy_crypto_def)

end
