(* ===== verification/Verify.thy ===== *)
theory Verify
  imports Utils Firmware_State
begin

text \<open>
  The verifier of the attestation sample, \<open>attestation/samples/src/verify.c\<close>: reading the
  registers of the token from a text file, comparing registers, a small JSON reader for the
  reference values, and the comparison of a firmware state with them.
\<close>

abbreviation (input) HASH_STR_LENGTH :: nat where "HASH_STR_LENGTH \<equiv> 64"


section \<open>Registers from a text file\<close>

fun hex_bytes_loop :: "string \<Rightarrow> nat \<Rightarrow> nat \<Rightarrow> bytes \<Rightarrow> (bool \<times> bytes) option" where
  "hex_bytes_loop hex 0 i out = Some (True, out)"
| "hex_bytes_loop hex (Suc n) i out =
     do {
       c \<leftarrow> mem_at hex (i * 2);
       d \<leftarrow> mem_at hex (i * 2 + 1);
       case sscanf_2x [c, d] of
         None \<Rightarrow> Some (False, out)
       | Some v \<Rightarrow>
           do {
             out \<leftarrow> mem_write out i [v];
             hex_bytes_loop hex n (Suc i) out
           }
     }"

definition hex_string_to_bytes :: "string \<Rightarrow> bytes \<Rightarrow> nat \<Rightarrow> (bool \<times> bytes) option" where
  "hex_string_to_bytes hex_str out n =
     (if length hex_str \<noteq> n * 2 then Some (False, out)
      else hex_bytes_loop hex_str n 0 out)"

text \<open>
  The line loop of \<open>read_token_rem\<close>: \<open>text\<close> is what follows the pointer \<open>line\<close>, \<open>k\<close> is
  \<open>rem_index\<close>. Result: whether parsing went on to the end, the registers, \<open>rem_index\<close>.
\<close>

function read_rem_lines :: "string \<Rightarrow> rem_t list \<Rightarrow> nat \<Rightarrow> (bool \<times> rem_t list \<times> nat) option" where
  "read_rem_lines text rems k =
     (if \<not> k < REM_COUNT then Some (True, rems, k)
      else
        let newline = strchr text CHR 0x0A;
            line = (case newline of None \<Rightarrow> text | Some r \<Rightarrow> take (length text - length r) text);
            next = (\<lambda>rems k. case newline of
                      None \<Rightarrow> Some (True, rems, k)
                    | Some r \<Rightarrow> read_rem_lines (tl r) rems k)
        in if strstr line ''REM['' = None then next rems k
           else (case strchr line CHR '':'' of
               None \<Rightarrow> next rems k
             | Some pos \<Rightarrow>
                 do {
                   r \<leftarrow> mem_at rems k;
                   (ok, d) \<leftarrow> hex_string_to_bytes (dropWhile (\<lambda>c. c = CHR '' '') (tl pos))
                                (rem_data r) REM_LENGTH_BYTES;
                   let rems = rems[k := r\<lparr>rem_data := d\<rparr>];
                   if \<not> ok then Some (False, rems, k) else next rems (Suc k)
                 }))"
  by pat_completeness auto
termination
  by (relation "measure (\<lambda>(text, _). length text)") (auto dest: strchr_tl_length [OF sym])


declare read_rem_lines.simps [simp del]

definition read_token_rem :: "string option \<Rightarrow> rem_t list \<Rightarrow> (bool \<times> rem_t list) option" where
  "read_token_rem file_content rems =
     (case file_content of
        None \<Rightarrow> Some (False, rems)
      | Some text \<Rightarrow>
          do {
            (ok, rems, rem_index) \<leftarrow> read_rem_lines text rems 0;
            Some (ok \<and> rem_index = REM_COUNT, rems)
          })"

text \<open>The verdict \<open>verify_single_rem\<close> prints.\<close>

definition verify_single_rem :: "rem_t option \<Rightarrow> rem_t option \<Rightarrow> bool option" where
  "verify_single_rem rem1 rem2 =
     (case (rem1, rem2) of (Some r, Some s) \<Rightarrow> Some (rem_compare r s) | _ \<Rightarrow> None)"


section \<open>JSON reference values\<close>

record kernel_version =
  kv_version :: "string option"
  kv_kernel :: "string option"
  kv_initramfs :: "string option"

record firmware_reference =
  ref_grub :: "string option"
  ref_grub_cfg :: "string option"
  ref_kernels :: "kernel_version list"
  ref_kernel_count :: nat
  ref_hash_alg :: "string option"

definition zero_kernel :: kernel_version where
  "zero_kernel = \<lparr>kv_version = None, kv_kernel = None, kv_initramfs = None\<rparr>"

definition zero_reference :: firmware_reference where
  "zero_reference = \<lparr>ref_grub = None, ref_grub_cfg = None, ref_kernels = [], ref_kernel_count = 0,
     ref_hash_alg = None\<rparr>"

text \<open>The pointer arithmetic \<open>end - pos\<close> between two suffixes of one string.\<close>

definition ptr_diff :: "string \<Rightarrow> string \<Rightarrow> nat" where
  "ptr_diff later earlier = length earlier - length later"

definition extract_json_string :: "(nat \<Rightarrow> bool) \<Rightarrow> string \<Rightarrow> string \<Rightarrow> string option" where
  "extract_json_string malloc_ok json key =
     (let search_key = take 63 (''\"'' @ key @ ''\":'') in
      do {
        pos \<leftarrow> strstr json search_key;
        pos \<leftarrow> strchr (drop (length search_key) pos) CHR ''\"'';
        let pos = tl pos;
        end_p \<leftarrow> strchr pos CHR ''\"'';
        let len = ptr_diff end_p pos;
        if malloc_ok (len + 1) then Some (take len pos) else None
      })"

text \<open>
  The second loop over the array: \<open>ptr\<close> and \<open>kernels_end\<close> are suffixes of the file, the C test
  \<open>ptr < kernels_end\<close> is \<open>length kernels_end < length ptr\<close>.
\<close>

function parse_kernels ::
  "(nat \<Rightarrow> bool) \<Rightarrow> string \<Rightarrow> string \<Rightarrow> nat \<Rightarrow> kernel_version list \<Rightarrow> kernel_version list"
where
  "parse_kernels malloc_ok kernels_end ptr idx kernels =
     (if \<not> (length kernels_end < length ptr \<and> idx < length kernels) then kernels
      else case strchr ptr CHR ''{'' of
          None \<Rightarrow> kernels
        | Some obj \<Rightarrow>
            if length obj \<le> length kernels_end then kernels
            else case strchr obj CHR ''}'' of
                None \<Rightarrow> kernels
              | Some obj_end \<Rightarrow>
                  if length obj_end \<le> length kernels_end then kernels
                  else
                    let obj_len = ptr_diff obj_end obj + 1 in
                    if \<not> malloc_ok (obj_len + 1) then kernels
                    else
                      let obj_json = take obj_len obj;
                          kv = \<lparr>kv_version = extract_json_string malloc_ok obj_json ''version'',
                                kv_kernel = extract_json_string malloc_ok obj_json ''kernel'',
                                kv_initramfs = extract_json_string malloc_ok obj_json ''initramfs''\<rparr>
                      in parse_kernels malloc_ok kernels_end (tl obj_end) (Suc idx) (kernels[idx := kv]))"
  by pat_completeness auto
termination
  by (relation "measure (\<lambda>(_, _, ptr, _, _). length ptr)")
    (auto dest!: strchr_tl_length dest: strchr_length)

declare parse_kernels.simps [simp del]

text \<open>Result: \<open>parse_json_file\<close>'s return value and the reference structure.\<close>

definition parse_json_file ::
  "(nat \<Rightarrow> bool) \<Rightarrow> string option \<Rightarrow> firmware_reference \<Rightarrow> bool \<times> firmware_reference"
where
  "parse_json_file malloc_ok json_content ref =
     (case json_content of
        None \<Rightarrow> (False, ref)
      | Some json \<Rightarrow>
          let ref = \<lparr>ref_grub = extract_json_string malloc_ok json ''grub'',
                     ref_grub_cfg = extract_json_string malloc_ok json ''grub.cfg'',
                     ref_kernels = [], ref_kernel_count = 0,
                     ref_hash_alg = extract_json_string malloc_ok json ''hash_alg''\<rparr>;
              region = do {
                         ks \<leftarrow> strstr json ''\"kernels\":'';
                         ks \<leftarrow> strchr ks CHR ''['';
                         ke \<leftarrow> strchr ks CHR '']'';
                         Some (ks, ke)
                       };
              kernel_count = (case region of
                  None \<Rightarrow> 0
                | Some (ks, ke) \<Rightarrow> length (filter (\<lambda>c. c = CHR ''{'') (take (ptr_diff ke ks) ks)));
              ref = ref\<lparr>ref_kernel_count := kernel_count\<rparr>
          in if kernel_count > 0 \<and> \<not> malloc_ok (kernel_count * 24) then (False, zero_reference)
             else
               let ref = (case region of
                       None \<Rightarrow> ref
                     | Some (ks, ke) \<Rightarrow>
                         if kernel_count > 0
                         then ref\<lparr>ref_kernels :=
                                parse_kernels malloc_ok ke ks 0 (replicate kernel_count zero_kernel)\<rparr>
                         else ref)
               in (ref_grub ref \<noteq> None \<and> ref_grub_cfg ref \<noteq> None \<and> ref_hash_alg ref \<noteq> None \<and>
                   ref_kernel_count ref > 0, ref))"


section \<open>Comparing hashes\<close>

text \<open>
  The loop of \<open>bytes_to_hex_string\<close> on a buffer: each \<open>sprintf\<close> writes two digits and a
  terminating NUL, so the buffer needs \<open>2 * len + 1\<close> bytes.
\<close>

definition bytes_to_hex_string :: "bytes \<Rightarrow> nat \<Rightarrow> nat \<Rightarrow> string option" where
  "bytes_to_hex_string bs len buf_size =
     do {
       bs \<leftarrow> mem_read bs 0 len;
       if len > 0 \<and> 2 * len + 1 > buf_size then None else Some (hex_string bs)
     }"

definition compare_and_print_hash ::
  "string option \<Rightarrow> bytes option \<Rightarrow> nat \<Rightarrow> bool option"
where
  "compare_and_print_hash ref_hash actual_hash hash_size =
     (case (ref_hash, actual_hash) of
        (Some r, Some a) \<Rightarrow>
          do {
            actual_hex \<leftarrow> bytes_to_hex_string a hash_size (HASH_STR_LENGTH + 1);
            Some (take HASH_STR_LENGTH r = take HASH_STR_LENGTH actual_hex)
          }
      | _ \<Rightarrow> Some False)"


section \<open>Verifying a firmware state\<close>

fun match_images :: "string option \<Rightarrow> efi_image list \<Rightarrow> nat \<Rightarrow> nat \<Rightarrow> bool option" where
  "match_images ref_hash imgs 0 i = Some False"
| "match_images ref_hash imgs (Suc n) i =
     do {
       img \<leftarrow> mem_at imgs i;
       ok \<leftarrow> compare_and_print_hash ref_hash (image_hash img) (unat (image_hash_size img));
       if ok then Some True else match_images ref_hash imgs n (Suc i)
     }"

text \<open>
  \<open>if (hash) { if (!ref) version_match = false; else if (!compare (...)) version_match = false; }\<close>
\<close>

definition version_check :: "string option \<Rightarrow> bytes option \<Rightarrow> u32 \<Rightarrow> bool option" where
  "version_check ref_hash hash sz =
     (if hash = None then Some True
      else if ref_hash = None then Some False
      else compare_and_print_hash ref_hash hash (unat sz))"

fun match_kernels :: "linux_kernel_state \<Rightarrow> kernel_version list \<Rightarrow> nat \<Rightarrow> nat \<Rightarrow> bool option" where
  "match_kernels k kernels 0 i = Some False"
| "match_kernels k kernels (Suc n) i =
     do {
       kv \<leftarrow> mem_at kernels i;
       m \<leftarrow> version_check (kv_kernel kv) (kernel_hash k) (kernel_hash_size k);
       m \<leftarrow> (if m then version_check (kv_initramfs kv) (initrd_hash k) (initrd_hash_size k)
             else Some False);
       if m then Some True else match_kernels k kernels n (Suc i)
     }"

definition verify_efi :: "firmware_reference \<Rightarrow> firmware_log_state \<Rightarrow> bool option" where
  "verify_efi ref state =
     (case fw_efi state of
        None \<Rightarrow> Some True
      | Some efi \<Rightarrow>
          if image_count efi > 0 then
            do {
              imgs \<leftarrow> images efi;
              match_images (ref_grub ref) imgs (unat (image_count efi)) 0
            }
          else Some True)"

definition verify_grub :: "firmware_reference \<Rightarrow> firmware_log_state \<Rightarrow> bool option" where
  "verify_grub ref state =
     (case fw_grub state of
        None \<Rightarrow> Some True
      | Some g \<Rightarrow>
          if config_hash g = None then Some True
          else compare_and_print_hash (ref_grub_cfg ref) (config_hash g) (unat (config_hash_size g)))"

definition verify_kernel :: "firmware_reference \<Rightarrow> firmware_log_state \<Rightarrow> bool option" where
  "verify_kernel ref state =
     (case fw_kernel state of
        None \<Rightarrow> Some True
      | Some k \<Rightarrow> match_kernels k (ref_kernels ref) (ref_kernel_count ref) 0)"

definition verify_firmware_state ::
  "(nat \<Rightarrow> bool) \<Rightarrow> string option \<Rightarrow> firmware_log_state \<Rightarrow> bool option"
where
  "verify_firmware_state malloc_ok json_content state =
     (let (parsed, ref) = parse_json_file malloc_ok json_content zero_reference in
      if \<not> parsed then Some False
      else do {
        alg \<leftarrow> ref_hash_alg ref;
        if alg \<noteq> ''sha-256'' then Some False
        else do {
          efi \<leftarrow> verify_efi ref state;
          if \<not> efi then Some False
          else do {
            grub \<leftarrow> verify_grub ref state;
            if \<not> grub then Some False else verify_kernel ref state
          }
        }
      })"


section \<open>Reading registers\<close>

lemma hex_bytes_loop_hex:
  assumes "length todo = length bs"
  shows "hex_bytes_loop (hex_string (pre @ bs)) (length bs) (length pre) (pre @ todo @ post)
           = Some (True, pre @ bs @ post)"
  using assms
proof (induction bs arbitrary: pre todo)
  case Nil
  then show ?case by simp
next
  case (Cons b bs)
  then obtain t todo' where t: "todo = t # todo'" "length todo' = length bs" by (cases todo) auto
  have w: "mem_write (pre @ [t] @ (todo' @ post)) (length pre) [b] = Some (pre @ [b] @ (todo' @ post))"
    by (intro mem_write_append) simp
  obtain c d where cd: "sprintf_02x b = [c, d]" by (simp add: sprintf_02x_def)
  have at: "mem_at (hex_string (pre @ b # bs)) (length pre * 2) = Some c"
      "mem_at (hex_string (pre @ b # bs)) (Suc (length pre * 2)) = Some d"
    by (simp_all add: mem_at_def nth_append cd)
  have sc: "sscanf_2x [c, d] = Some b" using sscanf_sprintf [of b "[]"] cd by simp
  show ?case using Cons.IH [of todo' "pre @ [b]"] t w
    by (simp add: at sc del: hex_string_simps)
qed

lemma hex_string_to_bytes_hex:
  "length out = length bs \<Longrightarrow> hex_string_to_bytes (hex_string bs) out (length bs) = Some (True, bs)"
  using hex_bytes_loop_hex [of out bs "[]" "[]"] by (simp add: hex_string_to_bytes_def)


text \<open>A register file as the tools print it, one \<open>REM[i]: <hex>\<close> line per register.\<close>

definition rem_line :: "nat \<Rightarrow> bytes \<Rightarrow> string" where
  "rem_line i d = [CHR 0x09] @ ''REM['' @ [hex_digit i] @ '']: '' @ hex_string d @ [CHR 0x0A]"

fun rem_file :: "nat \<Rightarrow> bytes list \<Rightarrow> string" where
  "rem_file i [] = []"
| "rem_file i (d # ds) = rem_line i d @ rem_file (Suc i) ds"

lemma hex_digit_no_special:
  assumes "n < 16"
  shows "hex_digit n \<noteq> CHR 0x0A" "hex_digit n \<noteq> CHR '':''" "hex_digit n \<noteq> CHR '' ''"
proof -
  have "hex_value CHR 0x0A = None" "hex_value CHR '':'' = None" "hex_value CHR '' '' = None"
    by (simp_all add: hex_value_def)
  then show "hex_digit n \<noteq> CHR 0x0A" "hex_digit n \<noteq> CHR '':''" "hex_digit n \<noteq> CHR '' ''"
    using hex_value_digit [OF assms] by auto
qed

lemma hex_string_chars: "c \<in> set (hex_string d) \<Longrightarrow> \<exists>n < 16. c = hex_digit n"
proof (induction d)
  case Nil
  then show ?case by simp
next
  case (Cons b d)
  have "unat b div 16 < 16" "unat b mod 16 < 16" using unat_bound [of b] by auto
  then have "\<exists>n<16. hex_digit (unat b div 16) = hex_digit n" "\<exists>n<16. hex_digit (unat b mod 16) = hex_digit n"
    by blast+
  then show ?case using Cons by (auto simp: sprintf_02x_def)
qed

lemma hex_string_no_special:
  "CHR 0x0A \<notin> set (hex_string d)" "CHR '':'' \<notin> set (hex_string d)" "CHR '' '' \<notin> set (hex_string d)"
  using hex_string_chars hex_digit_no_special by metis+

lemma read_rem_line:
  assumes k: "k < REM_COUNT" "length rems = REM_COUNT" "rem_wf (rems ! k)" and i: "i < 16" and d: "length d = 32"
  shows "read_rem_lines (rem_line i d @ rest) rems k =
         read_rem_lines rest (rems[k := (rems ! k)\<lparr>rem_data := d\<rparr>]) (Suc k)"
proof -
  let ?l = "[CHR 0x09] @ ''REM['' @ [hex_digit i] @ '']: '' @ hex_string d"
  have nl: "strchr (?l @ CHR 0x0A # rest) CHR 0x0A = Some (CHR 0x0A # rest)"
    using hex_digit_no_special [OF i] hex_string_no_special [of d] by (intro strchr_append) auto
  have ln: "take (length (?l @ CHR 0x0A # rest) - length (CHR 0x0A # rest)) (?l @ CHR 0x0A # rest) = ?l"
    by (rule take_before)
  have st: "strstr ?l ''REM['' \<noteq> None" by simp
  have co: "strchr (([CHR 0x09] @ ''REM['' @ [hex_digit i] @ '']'') @ CHR '':'' # ('' '' @ hex_string d)) CHR '':''
      = Some (CHR '':'' # ('' '' @ hex_string d))"
    using hex_digit_no_special [OF i] by (intro strchr_append) auto
  have dw: "dropWhile (\<lambda>c. c = CHR '' '') ('' '' @ hex_string d) = hex_string d"
    using hex_string_no_special(3) [of d] by (cases "hex_string d") auto
  have hx: "hex_string_to_bytes (hex_string d) (rem_data (rems ! k)) 32 = Some (True, d)"
    using hex_string_to_bytes_hex [of "rem_data (rems ! k)" d] k d by (simp add: rem_wf_def)
  have at: "mem_at rems k = Some (rems ! k)" using k by (simp add: mem_at_def)
  have "rem_line i d @ rest = ?l @ CHR 0x0A # rest" by (simp add: rem_line_def)
  moreover have "strchr ?l CHR '':'' = Some (CHR '':'' # ('' '' @ hex_string d))" using co by simp
  ultimately show ?thesis
    using k st unfolding read_rem_lines.simps [of "rem_line i d @ rest"]
    by (simp only: nl ln Let_def option.case at dw hx list.sel bind.bind_lunit prod.case) simp
qed

lemma read_rem_skip:
  assumes "k < REM_COUNT" "CHR 0x0A \<notin> set l" "\<not> sublist ''REM['' l"
  shows "read_rem_lines (l @ CHR 0x0A # rest) rems k = read_rem_lines rest rems k"
proof -
  have nl: "strchr (l @ CHR 0x0A # rest) CHR 0x0A = Some (CHR 0x0A # rest)"
    using assms(2) by (rule strchr_append)
  have st: "strstr l ''REM['' = None" using assms(3) strstr_None_iff [of l "''REM[''"] by blast
  show ?thesis using assms(1) unfolding read_rem_lines.simps [of "l @ CHR 0x0A # rest"]
    by (simp only: nl Let_def option.case take_before st list.sel) simp
qed

lemma read_rem_file_rest:
  assumes "rems_wf rems" "i + length ds \<le> 16" "k + length ds \<le> REM_COUNT" "list_all (\<lambda>d. length d = 32) ds"
  shows "\<exists>rems'. read_rem_lines (rem_file i ds @ rest) rems k = read_rem_lines rest rems' (k + length ds) \<and> rems_wf rems' \<and>
           (\<forall>j < length ds. rem_data (rems' ! (k + j)) = ds ! j) \<and>
           (\<forall>j. j < k \<longrightarrow> rems' ! j = rems ! j)"
  using assms
proof (induction ds arbitrary: rems i k)
  case Nil
  then show ?case by auto
next
  case (Cons d ds)
  let ?rems = "rems[k := (rems ! k)\<lparr>rem_data := d\<rparr>]"
  have w: "length rems = 4" "rem_wf (rems ! k)" using Cons.prems by (auto simp: rems_wf_def list_all_length)
  have "rems_wf ?rems" using Cons.prems by (auto simp: rems_wf_def list_all_length rem_wf_def nth_list_update)
  then obtain rems' where r: "read_rem_lines (rem_file (Suc i) ds @ rest) ?rems (Suc k) = read_rem_lines rest rems' (Suc k + length ds)"
      "rems_wf rems'" "\<forall>j < length ds. rem_data (rems' ! (Suc k + j)) = ds ! j"
      "\<forall>j. j < Suc k \<longrightarrow> rems' ! j = ?rems ! j"
    using Cons.IH [of ?rems "Suc i" "Suc k"] Cons.prems by auto
  have "read_rem_lines (rem_file i (d # ds) @ rest) rems k = read_rem_lines rest rems' (k + length (d # ds))"
    using read_rem_line [of k rems i d "rem_file (Suc i) ds @ rest"] Cons.prems w r(1) by simp
  moreover have "rem_data (rems' ! (k + j)) = (d # ds) ! j" if "j < length (d # ds)" for j
    using that r(3,4) w Cons.prems by (cases j) auto
  ultimately show ?case using r(2,4) by auto
qed

lemma read_token_rem_file:
  assumes "rems_wf rems" "length ds = REM_COUNT" "list_all (\<lambda>d. length d = REM_LENGTH_BYTES) ds"
  shows "\<exists>rems'. read_rem_lines (rem_file 0 ds @ rest) rems 0 = Some (True, rems', REM_COUNT) \<and>
           map rem_data rems' = ds"
proof -
  obtain rems' where r: "read_rem_lines (rem_file 0 ds @ rest) rems 0 = read_rem_lines rest rems' 4" "rems_wf rems'"
      "\<forall>j < 4. rem_data (rems' ! j) = ds ! j"
    using read_rem_file_rest [of rems 0 ds 0 rest] assms by auto
  have "map rem_data rems' = ds" using r assms(2) by (intro nth_equalityI) (auto simp: rems_wf_def)
  then show ?thesis using r(1) by (simp add: read_rem_lines.simps)
qed

lemma skip_labelled:
  assumes "k < REM_COUNT" "CHR 0x0A \<notin> set l" "CHR ''['' \<notin> set l"
  shows "read_rem_lines (l @ hex_string b @ CHR 0x0A # rest) rems k = read_rem_lines rest rems k"
proof -
  have h: "CHR ''['' \<notin> set (hex_string b)"
  proof
    assume "CHR ''['' \<in> set (hex_string b)"
    then obtain n where "n < 16" "CHR ''['' = hex_digit n" using hex_string_chars by blast
    moreover have "hex_value CHR ''['' = None" by (simp add: hex_value_def)
    ultimately show False using hex_value_digit by force
  qed
  have "\<not> sublist ''REM['' (l @ hex_string b)"
    using assms(3) h by (auto dest!: set_mono_sublist)
  then show ?thesis
    using read_rem_skip [OF assms(1), of "l @ hex_string b" rest rems] assms(2) hex_string_no_special(1) [of b] by simp
qed


section \<open>What the comparisons decide\<close>

definition hash_matches :: "string option \<Rightarrow> bytes \<Rightarrow> bool" where
  "hash_matches ref_hash h = (\<exists>r. ref_hash = Some r \<and> take HASH_STR_LENGTH r = hex_string h)"

lemma compare_hash_iff:
  "length h = 32 \<Longrightarrow> compare_and_print_hash ref_hash (Some h) 32 = Some (hash_matches ref_hash h)"
  by (auto simp: compare_and_print_hash_def bytes_to_hex_string_def mem_read_def hash_matches_def
      split: option.split)

lemma version_check_iff:
  "(\<And>h. hash = Some h \<Longrightarrow> length h = 32 \<and> sz = 32) \<Longrightarrow>
   version_check ref_hash hash sz = Some (\<forall>h. hash = Some h \<longrightarrow> hash_matches ref_hash h)"
  by (cases hash) (auto simp: version_check_def compare_hash_iff, auto simp: hash_matches_def)

lemma match_images_iff:
  assumes "map image_hash (take (i + n) imgs) = map Some hs"
    "map image_hash_size (take (i + n) imgs) = replicate (i + n) 32"
    "list_all (\<lambda>h. length h = 32) hs" "i + n \<le> length imgs"
  shows "match_images ref_hash imgs n i = Some (\<exists>h \<in> set (drop i hs). hash_matches ref_hash h)"
  using assms
proof (induction n arbitrary: i)
  case 0
  then have "length hs = i" by (metis add_0_right length_map length_take min.absorb2)
  then show ?case by simp
next
  case (Suc n)
  have len: "length hs = i + Suc n"
    using Suc.prems by (metis length_map length_take min.absorb2)
  have h: "image_hash (imgs ! i) = Some (hs ! i)"
    using arg_cong [OF Suc.prems(1), of "\<lambda>xs. xs ! i"] Suc.prems(4) len by simp
  have z: "image_hash_size (imgs ! i) = 32"
    using arg_cong [OF Suc.prems(2), of "\<lambda>xs. xs ! i"] Suc.prems(4)
    by (simp del: replicate.simps add_Suc_right)
  have l: "length (hs ! i) = 32" using Suc.prems(3) len by (simp add: list_all_length)
  have at: "mem_at imgs i = Some (imgs ! i)" using Suc.prems by (simp add: mem_at_def)
  have "match_images ref_hash imgs n (Suc i) = Some (\<exists>h \<in> set (drop (Suc i) hs). hash_matches ref_hash h)"
    using Suc.prems by (intro Suc.IH) auto
  moreover have "drop i hs = hs ! i # drop (Suc i) hs" using len by (simp add: Cons_nth_drop_Suc)
  ultimately show ?case using at h z l by (simp add: compare_hash_iff)
qed

lemma match_kernels_iff:
  assumes "\<And>h. kernel_hash k = Some h \<Longrightarrow> length h = 32 \<and> kernel_hash_size k = 32"
    "\<And>h. initrd_hash k = Some h \<Longrightarrow> length h = 32 \<and> initrd_hash_size k = 32"
    "i + n = length kernels"
  shows "match_kernels k kernels n i =
     Some (\<exists>kv \<in> set (drop i kernels).
        (\<forall>h. kernel_hash k = Some h \<longrightarrow> hash_matches (kv_kernel kv) h) \<and>
        (\<forall>h. initrd_hash k = Some h \<longrightarrow> hash_matches (kv_initramfs kv) h))"
  using assms(3)
proof (induction n arbitrary: i)
  case 0
  then show ?case by simp
next
  case (Suc n)
  have d: "drop i kernels = kernels ! i # drop (Suc i) kernels"
    using Suc.prems by (simp add: Cons_nth_drop_Suc)
  have at: "mem_at kernels i = Some (kernels ! i)" using Suc.prems by (simp add: mem_at_def)
  note vc = version_check_iff [OF assms(1)] version_check_iff [OF assms(2)]
  show ?case using Suc.IH [of "Suc i"] Suc.prems by (auto simp: at d vc)
qed


lemma length_parse_kernels:
  "length (parse_kernels malloc_ok ke ptr idx kernels) = length kernels"
proof (induction malloc_ok ke ptr idx kernels rule: parse_kernels.induct)
  case (1 malloc_ok ke ptr idx kernels)
  then show ?case
    by (subst parse_kernels.simps) (auto simp: Let_def split: option.split)
qed

lemma parse_json_file_ok:
  assumes "parse_json_file malloc_ok json ref0 = (True, ref)"
  shows "length (ref_kernels ref) = ref_kernel_count ref" "ref_kernel_count ref > 0"
    "\<exists>alg. ref_hash_alg ref = Some alg" "\<exists>g. ref_grub ref = Some g" "\<exists>c. ref_grub_cfg ref = Some c"
  using assms
  by (auto simp: parse_json_file_def Let_def length_parse_kernels
      split: option.splits if_splits prod.splits)

definition accepts :: "firmware_reference \<Rightarrow> boot_view \<Rightarrow> bool" where
  "accepts ref v \<longleftrightarrow>
     ref_hash_alg ref = Some ''sha-256'' \<and>
     (v_images v \<noteq> [] \<longrightarrow> (\<exists>h \<in> set (v_images v). hash_matches (ref_grub ref) h)) \<and>
     (\<forall>h. v_grub v = Some h \<longrightarrow> hash_matches (ref_grub_cfg ref) h) \<and>
     (\<exists>kv \<in> set (ref_kernels ref).
        (\<forall>h. v_kernel v = Some h \<longrightarrow> hash_matches (kv_kernel kv) h) \<and>
        (\<forall>h. v_initrd v = Some h \<longrightarrow> hash_matches (kv_initramfs kv) h))"

lemma verify_parts:
  assumes "holds_view st v" "view_wf v" "length (ref_kernels ref) = ref_kernel_count ref"
  shows "verify_efi ref st =
           Some (v_images v \<noteq> [] \<longrightarrow> (\<exists>h \<in> set (v_images v). hash_matches (ref_grub ref) h))"
    and "verify_grub ref st = Some (\<forall>h. v_grub v = Some h \<longrightarrow> hash_matches (ref_grub_cfg ref) h)"
    and "verify_kernel ref st = Some (\<exists>kv \<in> set (ref_kernels ref).
        (\<forall>h. v_kernel v = Some h \<longrightarrow> hash_matches (kv_kernel kv) h) \<and>
        (\<forall>h. v_initrd v = Some h \<longrightarrow> hash_matches (kv_initramfs kv) h))"
proof -
  let ?n = "length (v_images v)"
  obtain efi imgs g k where st: "fw_efi st = Some efi" "images efi = Some imgs \<or> images efi = None \<and> imgs = []"
      "unat (image_count efi) = ?n" "?n \<le> length imgs"
      "map image_hash (take ?n imgs) = map Some (v_images v)"
      "map image_hash_size (take ?n imgs) = replicate ?n 32"
      "config_hash g \<noteq> None \<longrightarrow> config_hash_size g = 32"
      "kernel_hash k \<noteq> None \<longrightarrow> kernel_hash_size k = 32"
      "initrd_hash k \<noteq> None \<longrightarrow> initrd_hash_size k = 32"
      "fw_grub st = Some g" "config_hash g = v_grub v"
      "fw_kernel st = Some k" "kernel_hash k = v_kernel v" "initrd_hash k = v_initrd v"
    using assms(1) unfolding holds_view_def by (elim exE conjE) (rule that; assumption)
  have hs: "list_all (\<lambda>h. length h = 32) (v_images v)" "\<And>h. v_grub v = Some h \<Longrightarrow> length h = 32"
      "\<And>h. v_kernel v = Some h \<Longrightarrow> length h = 32" "\<And>h. v_initrd v = Some h \<Longrightarrow> length h = 32"
    using assms(2) by (auto simp: view_wf_def)
  have c: "image_count efi > 0 \<longleftrightarrow> v_images v \<noteq> []" using st(3) by (simp add: word_less_nat_alt)
  show "verify_efi ref st =
      Some (v_images v \<noteq> [] \<longrightarrow> (\<exists>h \<in> set (v_images v). hash_matches (ref_grub ref) h))"
  proof (cases "v_images v = []")
    case True
    then show ?thesis using st(1) c by (simp add: verify_efi_def)
  next
    case False
    then have "images efi = Some imgs" using st(2,4) by auto
    moreover have "match_images (ref_grub ref) imgs ?n 0
        = Some (\<exists>h \<in> set (drop 0 (v_images v)). hash_matches (ref_grub ref) h)"
      using st(4-6) hs(1) by (intro match_images_iff) auto
    ultimately show ?thesis using False st(1,3) c by (simp add: verify_efi_def)
  qed
  show "verify_grub ref st = Some (\<forall>h. v_grub v = Some h \<longrightarrow> hash_matches (ref_grub_cfg ref) h)"
    using st(7,10,11) hs(2) by (cases "v_grub v") (auto simp: verify_grub_def compare_hash_iff)
  show "verify_kernel ref st = Some (\<exists>kv \<in> set (ref_kernels ref).
        (\<forall>h. v_kernel v = Some h \<longrightarrow> hash_matches (kv_kernel kv) h) \<and>
        (\<forall>h. v_initrd v = Some h \<longrightarrow> hash_matches (kv_initramfs kv) h))"
    using match_kernels_iff [of k 0 "ref_kernel_count ref" "ref_kernels ref"] st(8,9,12-14) hs(3,4) assms(3)
    by (simp add: verify_kernel_def)
qed

lemma verify_firmware_state_iff:
  assumes p: "parse_json_file malloc_ok json zero_reference = (True, ref)"
    and v: "holds_view st v" "view_wf v"
  shows "verify_firmware_state malloc_ok json st = Some (accepts ref v)"
proof -
  obtain alg where alg: "ref_hash_alg ref = Some alg" using parse_json_file_ok(3) [OF p] by blast
  note parts = verify_parts [OF v parse_json_file_ok(1) [OF p]]
  show ?thesis by (simp add: verify_firmware_state_def p alg parts accepts_def)
qed


section \<open>Reading a JSON value\<close>

text \<open>The first occurrence of the quoted key with its colon decides the value.\<close>

lemma extract_json_string_found:
  assumes "length key \<le> 60" and key: "strstr json (''\"'' @ key @ ''\":'') = Some (''\"'' @ key @ ''\":'' @ ws @ ''\"'' @ val @ ''\"'' @ post)"
    and q: "CHR ''\"'' \<notin> set ws" "CHR ''\"'' \<notin> set val" and m: "malloc_ok (length val + 1)"
  shows "extract_json_string malloc_ok json key = Some val"
proof -
  let ?k = "''\"'' @ key @ ''\":''"
  have k: "take 63 ?k = ?k" using assms(1) by simp
  have d: "drop (length ?k) (''\"'' @ key @ ''\":'' @ ws @ ''\"'' @ val @ ''\"'' @ post)
      = ws @ CHR ''\"'' # val @ CHR ''\"'' # post" by simp
  have s1: "strchr (ws @ CHR ''\"'' # val @ CHR ''\"'' # post) CHR ''\"'' = Some (CHR ''\"'' # val @ CHR ''\"'' # post)"
    using q by (intro strchr_append)
  have s2: "strchr (val @ CHR ''\"'' # post) CHR ''\"'' = Some (CHR ''\"'' # post)"
    using q by (intro strchr_append)
  show ?thesis
    unfolding extract_json_string_def Let_def k key bind.bind_lunit d s1 list.sel s2
    using m by (simp add: ptr_diff_def)
qed


section \<open>Properties\<close>

text \<open>A reference file and what it parses to, for evaluation.\<close>

definition sample_json :: string where
  "sample_json = ''{\"grub\": \"'' @ hex_string (replicate 32 7) @ ''\", \"grub.cfg\": \"'' @
     hex_string (replicate 32 8) @ ''\", \"kernels\": [{\"version\": \"6\", \"kernel\": \"'' @
     hex_string (replicate 32 9) @ ''\", \"initramfs\": \"'' @ hex_string (replicate 32 10) @
     ''\"}], \"hash_alg\": \"sha-256\"}''"

definition sample_reference :: firmware_reference where
  "sample_reference = \<lparr>ref_grub = Some (hex_string (replicate 32 7)),
     ref_grub_cfg = Some (hex_string (replicate 32 8)),
     ref_kernels = [\<lparr>kv_version = Some ''6'', kv_kernel = Some (hex_string (replicate 32 9)),
                     kv_initramfs = Some (hex_string (replicate 32 10))\<rparr>],
     ref_kernel_count = 1, ref_hash_alg = Some ''sha-256''\<rparr>"

lemma sample_json_parses:
  "parse_json_file (\<lambda>_. True) (Some sample_json) zero_reference = (True, sample_reference)"
  by code_simp

text \<open>
  The hash comparison of the verifier decides equality: a reference that is the printed form of
  a 32-byte hash matches a measured hash exactly when the two hashes are equal.
\<close>

theorem compare_and_print_hash_decides:
  assumes "length h = 32" "length h' = 32"
  shows "compare_and_print_hash (Some (hex_string h')) (Some h) 32 = Some (h' = h)"
  using compare_hash_iff [OF assms(1), of "Some (hex_string h')"] assms(2)
  by (simp add: hash_matches_def hex_string_inj)

theorem compare_and_print_hash_decides_witness:
  "compare_and_print_hash (Some (hex_string (replicate 32 1))) (Some (replicate 32 2)) 32 = Some False"
proof -
  have "replicate 32 1 \<noteq> (replicate 32 2 :: bytes)" by simp
  then show ?thesis using compare_and_print_hash_decides [of "replicate 32 2" "replicate 32 1"] by simp
qed

text \<open>
  An event log that measured nothing is accepted: on a freshly created firmware state
  \<open>verify_firmware_state\<close> succeeds for every reference file that parses and names sha-256.
\<close>

theorem verify_firmware_state_empty:
  assumes "parse_json_file malloc_ok json zero_reference = (True, ref)" "ref_hash_alg ref = Some ''sha-256''"
    and "firmware_log_state_create malloc_ok = Some st"
  shows "verify_firmware_state malloc_ok json st = Some True"
proof -
  let ?v = "\<lparr>v_images = [], v_grub = None, v_kernel = None, v_initrd = None\<rparr>"
  have "holds_view st ?v"
    using assms(3) by (auto simp: firmware_log_state_create_def holds_view_def split: if_splits)
  then have "verify_firmware_state malloc_ok json st = Some (accepts ref ?v)"
    using verify_firmware_state_iff [OF assms(1)] by (simp add: view_wf_def)
  moreover have "accepts ref ?v"
    using assms(2) parse_json_file_ok(1,2) [OF assms(1)] by (cases "ref_kernels ref") (auto simp: accepts_def)
  ultimately show ?thesis by simp
qed

theorem verify_firmware_state_empty_witness:
  "\<exists>st. firmware_log_state_create (\<lambda>_. True) = Some st \<and>
     verify_firmware_state (\<lambda>_. True) (Some sample_json) st = Some True"
proof -
  obtain st where st: "firmware_log_state_create (\<lambda>_. True) = Some st"
    by (simp add: firmware_log_state_create_def)
  then show ?thesis
    using verify_firmware_state_empty [OF sample_json_parses _ st] by (simp add: sample_reference_def)
qed

text \<open>
  Reading a JSON value: the value is the quoted text after the first occurrence of the quoted
  key and its colon; this is also the answer when that occurrence is inside a nested object.
\<close>

theorem extract_json_string_behaviour:
  assumes "length key \<le> 60"
    and "strstr json (''\"'' @ key @ ''\":'') = Some (''\"'' @ key @ ''\":'' @ ws @ ''\"'' @ val @ ''\"'' @ post)"
    and "CHR ''\"'' \<notin> set ws" "CHR ''\"'' \<notin> set val" "malloc_ok (length val + 1)"
  shows "extract_json_string malloc_ok json key = Some val"
  using extract_json_string_found [where malloc_ok = malloc_ok, OF assms] .

theorem extract_json_string_behaviour_witness:
  "extract_json_string (\<lambda>_. True) ''{ \"a\": \"b\", \"grub\": \"cd\" }'' ''grub'' = Some ''cd''"
proof -
  have "strstr ''{ \"a\": \"b\", \"grub\": \"cd\" }'' (''\"'' @ ''grub'' @ ''\":'') =
      Some (''\"'' @ ''grub'' @ ''\":'' @ '' '' @ ''\"'' @ ''cd'' @ ''\"'' @ '' }'')"
    by code_simp
  then show ?thesis by (intro extract_json_string_behaviour [where ws = "'' ''" and post = "'' }''"]) simp_all
qed

end
