(* ===== verification/Platform_Verify.thy ===== *)
theory Platform_Verify
  imports Token_Parse Verify
begin

text \<open>
  Verification of the software components of a platform token,
  \<open>attestation/samples/src/platform_verify.c\<close>: the reference values are read from a JSON file
  into arrays of fixed size and compared with the claims of the token. \<^term>\<open>None\<close> as the outer
  result is an access outside a buffer.
\<close>

section \<open>Reference values\<close>

text \<open>
  A field of \<open>sw_component_ref_t\<close> is \<^term>\<open>None\<close> when \<open>strncpy\<close> filled all but its last byte, which
  nothing sets: the array then holds no terminated string.
\<close>

record sw_component_ref =
  firmware_name :: "string option"
  ref_measurement :: "string option"
  firmware_version :: "string option"
  hash_algorithm :: "string option"

record platform_ref_values =
  ref_sw_components :: "sw_component_ref list option"
  sw_comp_count :: nat

definition zero_ref_values :: platform_ref_values where
  "zero_ref_values = \<lparr>ref_sw_components = None, sw_comp_count = 0\<rparr>"

text \<open>\<open>strncpy (dst, src, sizeof (dst) - 1)\<close> into an uninitialised array of \<open>n\<close> bytes.\<close>

definition strncpy_uninit :: "nat \<Rightarrow> string \<Rightarrow> string option" where
  "strncpy_uninit n src = (if length src < n - 1 then Some src else None)"

definition extract_json_string_value :: "(nat \<Rightarrow> bool) \<Rightarrow> string \<Rightarrow> string \<Rightarrow> string option" where
  "extract_json_string_value malloc_ok json key =
     (let search_key = take 127 (''\"'' @ key @ ''\":'') in
      do {
        pos \<leftarrow> strstr json search_key;
        pos \<leftarrow> strchr (drop (length search_key) pos) CHR ''\"'';
        let pos = tl pos;
        end_p \<leftarrow> strchr pos CHR ''\"'';
        let len = ptr_diff end_p pos;
        if malloc_ok (len + 1) then Some (take len pos) else None
      })"

text \<open>An empty file is rejected; a short read leaves what was read.\<close>

definition read_file_content :: "(nat \<Rightarrow> bool) \<Rightarrow> (bytes \<Rightarrow> bytes) \<Rightarrow> files \<Rightarrow> string \<Rightarrow> string option" where
  "read_file_content malloc_ok fread fs path =
     (case fs path of
        None \<Rightarrow> None
      | Some d \<Rightarrow>
          if length d = 0 then None
          else if \<not> malloc_ok (length d + 1) then None
          else Some (c_string (fread d)))"

text \<open>
  The counting loop \<open>while (pos < array_end && (pos = strchr (pos, '{')) != NULL)\<close>: the end is
  tested before the search, so one brace behind the array is counted too.
\<close>

function count_objects :: "string \<Rightarrow> string \<Rightarrow> nat" where
  "count_objects array_end pos =
     (if \<not> length array_end < length pos then 0
      else case strchr pos CHR ''{'' of
          None \<Rightarrow> 0
        | Some p \<Rightarrow> Suc (count_objects array_end (tl p)))"
  by pat_completeness auto
termination
  by (relation "measure (\<lambda>(_, pos). length pos)") (auto dest: strchr_tl_length)

declare count_objects.simps [simp del]

definition component_of_json :: "(nat \<Rightarrow> bool) \<Rightarrow> string \<Rightarrow> sw_component_ref option" where
  "component_of_json malloc_ok obj =
     do {
       n \<leftarrow> extract_json_string_value malloc_ok obj ''firware_name'';
       m \<leftarrow> extract_json_string_value malloc_ok obj ''measurement'';
       v \<leftarrow> extract_json_string_value malloc_ok obj ''firware_version'';
       h \<leftarrow> extract_json_string_value malloc_ok obj ''hash_algorithm'';
       Some \<lparr>firmware_name = strncpy_uninit 64 n, ref_measurement = strncpy_uninit 128 m,
             firmware_version = strncpy_uninit 32 v, hash_algorithm = strncpy_uninit 16 h\<rparr>
     }"

text \<open>The parsing loop; \<open>acc\<close> are the components stored so far, \<open>length acc\<close> is \<open>index\<close>.\<close>

function parse_objects ::
  "(nat \<Rightarrow> bool) \<Rightarrow> nat \<Rightarrow> string \<Rightarrow> string \<Rightarrow> sw_component_ref list \<Rightarrow> sw_component_ref list"
where
  "parse_objects malloc_ok object_count array_end pos acc =
     (if \<not> (length array_end < length pos \<and> length acc < object_count) then acc
      else case strchr pos CHR ''{'' of
          None \<Rightarrow> acc
        | Some obj_start \<Rightarrow>
            (case strchr obj_start CHR ''}'' of
               None \<Rightarrow> acc
             | Some obj_end \<Rightarrow>
                 let obj_len = ptr_diff obj_end obj_start + 1 in
                 if \<not> malloc_ok (obj_len + 1) then acc
                 else
                   let acc = (case component_of_json malloc_ok (take obj_len obj_start) of
                                None \<Rightarrow> acc | Some c \<Rightarrow> acc @ [c]) in
                   parse_objects malloc_ok object_count array_end (tl obj_end) acc))"
  by pat_completeness auto
termination
proof (relation "measure (\<lambda>(_, _, _, pos, _). length pos)", goal_cases)
  case 1
  then show ?case by simp
next
  case (2 malloc_ok object_count array_end pos acc obj_start obj_end)
  then show ?case using strchr_tl_length [of obj_start _ obj_end] strchr_length [of pos _ obj_start]
    by fastforce
qed

declare parse_objects.simps [simp del]

definition parse_measure_values ::
  "(nat \<Rightarrow> bool) \<Rightarrow> string \<Rightarrow> platform_ref_values \<Rightarrow> bool \<times> platform_ref_values"
where
  "parse_measure_values malloc_ok json ref_values =
     (case do { m \<leftarrow> strstr json ''\"measure_value\"''; s \<leftarrow> strchr m CHR ''[''; e \<leftarrow> strchr s CHR '']''; Some (s, e) } of
        None \<Rightarrow> (False, ref_values)
      | Some (array_start, array_end) \<Rightarrow>
          let object_count = count_objects array_end array_start in
          if object_count = 0 then (False, ref_values)
          else if \<not> malloc_ok (object_count * 240) then (False, ref_values\<lparr>ref_sw_components := None\<rparr>)
          else
            let comps = parse_objects malloc_ok object_count array_end array_start [] in
            (length comps > 0, ref_values\<lparr>ref_sw_components := Some comps, sw_comp_count := length comps\<rparr>))"

definition load_platform_ref_values ::
  "(nat \<Rightarrow> bool) \<Rightarrow> (bytes \<Rightarrow> bytes) \<Rightarrow> files \<Rightarrow> string \<Rightarrow> bool \<times> platform_ref_values"
where
  "load_platform_ref_values malloc_ok fread fs path =
     (case read_file_content malloc_ok fread fs path of
        None \<Rightarrow> (False, zero_ref_values)
      | Some json \<Rightarrow> parse_measure_values malloc_ok json zero_ref_values)"


section \<open>Comparison\<close>

definition tolower :: "char \<Rightarrow> char" where
  "tolower c = (let n = of_char c :: nat in if 65 \<le> n \<and> n \<le> 90 then char_of (n + 32) else c)"

definition compare_hex_strings :: "string option \<Rightarrow> string option \<Rightarrow> bool" where
  "compare_hex_strings hex1 hex2 =
     (case (hex1, hex2) of
        (Some a, Some b) \<Rightarrow> length a = length b \<and> list_all2 (\<lambda>x y. tolower x = tolower y) a b
      | _ \<Rightarrow> False)"

text \<open>The two conversions of a buffer: the inner \<^term>\<open>None\<close> is the NULL the C function returns.\<close>

definition qbuf_to_hex_string :: "(nat \<Rightarrow> bool) \<Rightarrow> qbuf \<Rightarrow> string option option" where
  "qbuf_to_hex_string malloc_ok buf =
     (case buf of
        Wild \<Rightarrow> None
      | NullBuf \<Rightarrow> Some None
      | QBuf b \<Rightarrow>
          if b = [] then Some None
          else if \<not> malloc_ok (length b * 2 + 1) then Some None
          else Some (Some (hex_string b)))"

definition qbuf_to_string :: "(nat \<Rightarrow> bool) \<Rightarrow> qbuf \<Rightarrow> string option option" where
  "qbuf_to_string malloc_ok buf =
     (case buf of
        Wild \<Rightarrow> None
      | NullBuf \<Rightarrow> Some None
      | QBuf b \<Rightarrow>
          if b = [] then Some None
          else if \<not> malloc_ok (length b + 1) then Some None
          else Some (Some (c_string b)))"

definition verify_single_sw_component ::
  "(nat \<Rightarrow> bool) \<Rightarrow> sw_comp_claims \<Rightarrow> sw_component_ref \<Rightarrow> bool option"
where
  "verify_single_sw_component malloc_ok token_comp ref_comp =
     do {
       token_type \<leftarrow> qbuf_to_string malloc_ok (component_type token_comp);
       case token_type of
         None \<Rightarrow> Some False
       | Some t \<Rightarrow>
           do {
             name \<leftarrow> firmware_name ref_comp;
             let match = (t = name);
             token_measurement \<leftarrow> qbuf_to_hex_string malloc_ok (measurement token_comp);
             case token_measurement of
               None \<Rightarrow> Some False
             | Some m \<Rightarrow>
                 do {
                   rm \<leftarrow> ref_measurement ref_comp;
                   let match = (match \<and> compare_hex_strings (Some m) (Some rm));
                   token_version \<leftarrow> qbuf_to_string malloc_ok (version token_comp);
                   case token_version of
                     None \<Rightarrow> Some False
                   | Some v \<Rightarrow>
                       do {
                         rv \<leftarrow> firmware_version ref_comp;
                         Some (match \<and> v = rv)
                       }
                 }
           }
     }"

text \<open>The inner loop over the reference values: \<open>(found_match, failed)\<close>.\<close>

fun match_reference ::
  "(nat \<Rightarrow> bool) \<Rightarrow> sw_comp_claims \<Rightarrow> string \<Rightarrow> sw_component_ref list \<Rightarrow> bool option"
where
  "match_reference malloc_ok token_comp token_type [] = Some False"
| "match_reference malloc_ok token_comp token_type (r # rs) =
     do {
       name \<leftarrow> firmware_name r;
       if token_type = name then verify_single_sw_component malloc_ok token_comp r
       else match_reference malloc_ok token_comp token_type rs
     }"

fun verify_components ::
  "(nat \<Rightarrow> bool) \<Rightarrow> sw_component_ref list \<Rightarrow> sw_comp_claims list \<Rightarrow> bool option"
where
  "verify_components malloc_ok refs [] = Some True"
| "verify_components malloc_ok refs (c # cs) =
     do {
       token_type \<leftarrow> qbuf_to_string malloc_ok (component_type c);
       ok \<leftarrow> (case token_type of None \<Rightarrow> Some False | Some t \<Rightarrow> match_reference malloc_ok c t refs);
       rest \<leftarrow> verify_components malloc_ok refs cs;
       Some (ok \<and> rest)
     }"

definition verify_platform_sw_components ::
  "(nat \<Rightarrow> bool) \<Rightarrow> platform_claims \<Rightarrow> platform_ref_values \<Rightarrow> bool option"
where
  "verify_platform_sw_components malloc_ok claims ref_values =
     (case (sw_components claims, ref_sw_components ref_values) of
        (Some comps, Some refs) \<Rightarrow>
          if sw_comp_cnts claims = 0 \<or> sw_comp_count ref_values = 0 then Some False
          else do {
            cs \<leftarrow> mem_read comps 0 (unat (sw_comp_cnts claims));
            rs \<leftarrow> mem_read refs 0 (sw_comp_count ref_values);
            verify_components malloc_ok rs cs
          }
      | _ \<Rightarrow> Some False)"



section \<open>What an accepted token has\<close>

lemma tolower_hex_digit: "n < 16 \<Longrightarrow> tolower (hex_digit n) = hex_digit n"
  by (auto simp: tolower_def hex_digit_def Let_def)

lemma map_tolower_hex: "map tolower (hex_string b) = hex_string b"
proof (induction b)
  case Nil
  then show ?case by simp
next
  case (Cons x b)
  have "unat x div 16 < 16" "unat x mod 16 < 16" using unat_bound [of x] by auto
  then show ?case using Cons by (simp add: sprintf_02x_def tolower_hex_digit)
qed

lemma compare_hex_iff:
  "compare_hex_strings (Some (hex_string b)) (Some r) \<longleftrightarrow> map tolower r = hex_string b"
proof -
  have "compare_hex_strings (Some (hex_string b)) (Some r) \<longleftrightarrow>
      length (hex_string b) = length r \<and> map tolower (hex_string b) = map tolower r"
    by (auto simp: compare_hex_strings_def list_all2_conv_all_nth list_eq_iff_nth_eq)
  also have "\<dots> \<longleftrightarrow> map tolower r = hex_string b"
    unfolding map_tolower_hex by (metis length_map)
  finally show ?thesis .
qed

text \<open>A component agrees with a reference in name, measurement (in any case) and version.\<close>

definition component_agrees :: "sw_comp_claims \<Rightarrow> sw_component_ref \<Rightarrow> bool" where
  "component_agrees c r \<longleftrightarrow>
     (\<exists>t m v rm. component_type c = QBuf t \<and> measurement c = QBuf m \<and> version c = QBuf v \<and>
        firmware_name r = Some (c_string t) \<and> ref_measurement r = Some rm \<and>
        map tolower rm = hex_string m \<and> firmware_version r = Some (c_string v))"

lemma qbuf_to_string_SomeD: "qbuf_to_string malloc_ok b = Some (Some s) \<Longrightarrow> \<exists>d. b = QBuf d \<and> s = c_string d"
  by (auto simp: qbuf_to_string_def split: qbuf.splits if_splits)

lemma qbuf_to_hex_string_SomeD: "qbuf_to_hex_string malloc_ok b = Some (Some s) \<Longrightarrow> \<exists>d. b = QBuf d \<and> s = hex_string d"
  by (auto simp: qbuf_to_hex_string_def split: qbuf.splits if_splits)

lemma verify_single_sound:
  assumes "verify_single_sw_component malloc_ok c r = Some True"
  shows "component_agrees c r"
  using assms unfolding verify_single_sw_component_def
  by (auto simp: component_agrees_def compare_hex_iff Let_def split: bind_splits option.splits
      dest!: qbuf_to_string_SomeD qbuf_to_hex_string_SomeD)

lemma match_reference_sound:
  "match_reference malloc_ok c t rs = Some True \<Longrightarrow> \<exists>r \<in> set rs. component_agrees c r"
  by (induction rs) (auto split: bind_splits if_splits dest: verify_single_sound)

lemma verify_components_sound:
  "verify_components malloc_ok refs cs = Some True \<Longrightarrow> \<forall>c \<in> set cs. \<exists>r \<in> set refs. component_agrees c r"
  by (induction cs) (auto split: bind_splits option.splits dest!: match_reference_sound)

lemma verify_platform_sound:
  assumes "verify_platform_sw_components malloc_ok claims ref_values = Some True"
  obtains comps refs where "sw_components claims = Some comps" "ref_sw_components ref_values = Some refs"
    "sw_comp_cnts claims \<noteq> 0" "unat (sw_comp_cnts claims) \<le> length comps"
    "\<And>i. i < unat (sw_comp_cnts claims) \<Longrightarrow> \<exists>r \<in> set refs. component_agrees (comps ! i) r"
proof -
  obtain comps refs cs rs where *: "sw_components claims = Some comps" "ref_sw_components ref_values = Some refs"
      "sw_comp_cnts claims \<noteq> 0" "mem_read comps 0 (unat (sw_comp_cnts claims)) = Some cs"
      "mem_read refs 0 (sw_comp_count ref_values) = Some rs" "verify_components malloc_ok rs cs = Some True"
    using assms
    by (auto simp: verify_platform_sw_components_def split: option.splits if_splits bind_splits)
  have cs: "cs = take (unat (sw_comp_cnts claims)) comps" "unat (sw_comp_cnts claims) \<le> length comps"
      "set rs \<subseteq> set refs"
    using mem_read_SomeD [OF *(4)] mem_read_SomeD [OF *(5)] by (auto dest: in_set_takeD)
  have "\<exists>r \<in> set refs. component_agrees (comps ! i) r" if "i < unat (sw_comp_cnts claims)" for i
  proof -
    have "comps ! i \<in> set cs" using that cs(1,2) by (auto simp: in_set_conv_nth)
    then show ?thesis using verify_components_sound [OF *(6)] cs(3) by blast
  qed
  then show ?thesis using that * cs by blast
qed


section \<open>Properties\<close>

text \<open>
  C34. Soundness of the software component check: when \<open>verify_platform_sw_components\<close> accepts, the
  token lists at least one component, and every one it lists agrees with some reference in name,
  version and, up to letter case, measurement.
\<close>

theorem platform_components_sound:
  assumes "verify_platform_sw_components malloc_ok claims ref_values = Some True"
  shows "\<exists>comps refs. sw_components claims = Some comps \<and> ref_sw_components ref_values = Some refs \<and>
     sw_comp_cnts claims \<noteq> 0 \<and> unat (sw_comp_cnts claims) \<le> length comps \<and>
     (\<forall>i < unat (sw_comp_cnts claims). \<exists>r. r \<in> set refs \<and> component_agrees (comps ! i) r)"
  by (rule verify_platform_sound [OF assms]) blast

definition demo_component :: sw_comp_claims where
  "demo_component = \<lparr>component_type = QBuf (bytes_of_string ''BL''), measurement = QBuf [0xab],
     version = QBuf (bytes_of_string ''1''), signer_id = NullBuf, sw_hash_algo_id = NullBuf\<rparr>"

definition demo_reference :: sw_component_ref where
  "demo_reference = \<lparr>firmware_name = Some ''BL'', ref_measurement = Some ''AB'', firmware_version = Some ''1'',
     hash_algorithm = Some ''sha-256''\<rparr>"

lemma demo_component_verified:
  "verify_platform_sw_components (\<lambda>_. True) (zero_platform\<lparr>sw_components := Some [demo_component], sw_comp_cnts := 1\<rparr>)
     \<lparr>ref_sw_components = Some [demo_reference], sw_comp_count = 1\<rparr> = Some True"
  by code_simp

theorem platform_components_sound_witness: "component_agrees demo_component demo_reference"
  using platform_components_sound [OF demo_component_verified] by simp

text \<open>
  A reference measurement of 127 or more characters, such as a SHA-512 value in hexadecimal, is
  stored without a terminating NUL, and comparing a token component of that name with it reads
  past the array.
\<close>

theorem long_reference_unterminated:
  assumes "component_of_json malloc_ok obj = Some r"
    and "extract_json_string_value malloc_ok obj ''measurement'' = Some h" "127 \<le> length h"
    and "qbuf_to_string malloc_ok (component_type c) = Some (Some t)" "firmware_name r = Some t"
    and "qbuf_to_hex_string malloc_ok (measurement c) = Some (Some m)"
  shows "verify_single_sw_component malloc_ok c r = None"
proof -
  have "ref_measurement r = None"
    using assms(1-3) by (auto simp: component_of_json_def strncpy_uninit_def split: bind_splits)
  then show ?thesis using assms(4-6) by (simp add: verify_single_sw_component_def)
qed

theorem long_reference_unterminated_witness:
  "\<exists>r. component_of_json (\<lambda>_. True) (''{\"firware_name\":\"BL\",\"measurement\":\"'' @ replicate 128 CHR ''0'' @
         ''\",\"firware_version\":\"1\",\"hash_algorithm\":\"sha-512\"}'') = Some r \<and>
     verify_single_sw_component (\<lambda>_. True) demo_component r = None"
proof -
  let ?obj = "''{\"firware_name\":\"BL\",\"measurement\":\"'' @ replicate 128 CHR ''0'' @
         ''\",\"firware_version\":\"1\",\"hash_algorithm\":\"sha-512\"}''"
  let ?r = "\<lparr>firmware_name = Some ''BL'', ref_measurement = None, firmware_version = Some ''1'', hash_algorithm = Some ''sha-512''\<rparr>"
  have r: "component_of_json (\<lambda>_. True) ?obj = Some ?r" by code_simp
  have h: "extract_json_string_value (\<lambda>_. True) ?obj ''measurement'' = Some (replicate 128 CHR ''0'')" by code_simp
  have q: "qbuf_to_string (\<lambda>_. True) (component_type demo_component) = Some (Some ''BL'')"
    "qbuf_to_hex_string (\<lambda>_. True) (measurement demo_component) = Some (Some ''ab'')"
    by code_simp+
  show ?thesis using r long_reference_unterminated [OF r h _ q(1) _ q(2)] by simp
qed

end
