(* ===== verification/Sample_Client.thy ===== *)
theory Sample_Client
  imports Socket Event_Replay Token_Validate Platform_Verify
begin

text \<open>
  The relying party of the attestation sample, \<open>attestation/samples/src/client.c\<close>:
  \<open>verify_token\<close>, the certificate and ACPI table helpers and the protocol of
  \<open>handle_connect\<close>. The global variables set from the command line are the record
  \<open>client_cfg\<close>; libraries, random bytes and the success of allocations and file accesses are
  the record \<open>env\<close>. The certificate parsers of OpenSSL get the buffer and its length.
\<close>

abbreviation (input) VERIFY_SUCCESS :: int where "VERIFY_SUCCESS \<equiv> 0"
abbreviation (input) VERIFY_FAILED :: int where "VERIFY_FAILED \<equiv> 1"
abbreviation (input) MAX_BUF :: nat where "MAX_BUF \<equiv> 4096"
abbreviation (input) MAX_LOG :: nat where "MAX_LOG \<equiv> 0x200000"
abbreviation (input) CCEL_ACPI_TABLE_PATH :: string where "CCEL_ACPI_TABLE_PATH \<equiv> ''./ccel.bin''"
abbreviation (input) CCEL_EVENT_LOG_PATH :: string where "CCEL_EVENT_LOG_PATH \<equiv> ''./event_log.bin''"

abbreviation (input) DEVICE_CERT_MSG_ID :: u32 where "DEVICE_CERT_MSG_ID \<equiv> 0x1001"
abbreviation (input) ATTEST_MSG_ID :: u32 where "ATTEST_MSG_ID \<equiv> 0x1002"
abbreviation (input) CCEL_ACPI_TABLE_ID :: u32 where "CCEL_ACPI_TABLE_ID \<equiv> 0x1003"
abbreviation (input) CCEL_EVENT_LOG_ID :: u32 where "CCEL_EVENT_LOG_ID \<equiv> 0x1004"
abbreviation (input) VERIFY_SUCCESS_MSG_ID :: u32 where "VERIFY_SUCCESS_MSG_ID \<equiv> 0x1005"
abbreviation (input) VERIFY_FAILED_MSG_ID :: u32 where "VERIFY_FAILED_MSG_ID \<equiv> 0x1006"
abbreviation (input) VERIFY_REM_MSG_ID :: u32 where "VERIFY_REM_MSG_ID \<equiv> 0x1007"
abbreviation (input) USE_FDE_MSG_ID :: u32 where "USE_FDE_MSG_ID \<equiv> 0x1008"

record client_cfg =
  cfg_measurement :: bytes
  cfg_measurement_len :: nat
  cfg_use_firmware :: bool
  cfg_dump_eventlog :: bool
  cfg_ref_json_file :: "string option"
  cfg_use_fde :: bool
  cfg_rootfs_key_file :: string
  cfg_verify_platform :: bool
  cfg_platform_ref_json :: "string option"

record ('c, 'x, 'k) env =
  e_malloc :: "nat \<Rightarrow> bool"
  e_open :: "string \<Rightarrow> bool"
  e_io :: "string \<Rightarrow> bool"
  e_fread :: "bytes \<Rightarrow> bytes"
  e_qcbor :: "'c qcbor"
  e_crypto :: "('x, 'k) crypto"
  e_sha :: sha_fun
  e_sys :: "string \<Rightarrow> files \<Rightarrow> int \<times> files"
  e_d2i_X509 :: "bytes \<Rightarrow> nat \<Rightarrow> 'x option"
  e_PEM_read_bio :: "bytes \<Rightarrow> nat \<Rightarrow> 'x option"
  e_PEM_write :: "'x \<Rightarrow> bytes option"
  e_rand :: bytes


section \<open>Certificates\<close>

text \<open>
  \<open>strstr\<close> on the buffer: it stops at a NUL, and leaves the buffer when there is none and the
  text is not found.
\<close>

definition buf_contains :: "bytes \<Rightarrow> bytes \<Rightarrow> bool option" where
  "buf_contains buf pat =
     (if 0 \<in> set buf then Some (strstr (takeWhile (\<lambda>b. b \<noteq> 0) buf) pat \<noteq> None)
      else if strstr buf pat \<noteq> None then Some True else None)"

fun cert_len_loop :: "bytes \<Rightarrow> nat \<Rightarrow> nat \<Rightarrow> nat \<Rightarrow> nat option" where
  "cert_len_loop buf 0 i acc = Some acc"
| "cert_len_loop buf (Suc n) i acc =
     do { b \<leftarrow> mem_at buf (2 + i); cert_len_loop buf n (Suc i) (acc * 256 + unat b) }"

definition der_cert_format :: "bytes \<Rightarrow> nat \<Rightarrow> int option" where
  "der_cert_format buf cert_len =
     (if cert_len < 4 then Some (- 1)
      else do {
        b0 \<leftarrow> mem_at buf 0;
        b1 \<leftarrow> mem_at buf 1;
        if b0 \<noteq> 0x30 then Some (- 1)
        else if bit b1 7 then
          let length_bytes = unat (b1 AND 0x7F) + 1 in
          if length_bytes > 4 \<or> length_bytes + 1 \<ge> cert_len then Some (- 1)
          else do {
            n \<leftarrow> cert_len_loop buf (length_bytes - 1) 0 0;
            Some (if n + length_bytes + 1 \<le> cert_len then 0 else - 1)
          }
        else Some (if unat b1 + 2 \<le> cert_len then 0 else - 1)
      })"

definition detect_cert_format :: "bytes \<Rightarrow> nat \<Rightarrow> int option" where
  "detect_cert_format buf cert_len =
     (if cert_len = 0 then Some (- 1)
      else do {
        let pem_begin = bytes_of_string ''-----BEGIN CERTIFICATE-----'';
        pem \<leftarrow> (if cert_len \<ge> length pem_begin \<and> strncmp_eq (length pem_begin) buf pem_begin
                 then buf_contains buf (bytes_of_string ''-----END CERTIFICATE-----'') else Some False);
        if pem then Some 1 else der_cert_format buf cert_len
      })"

text \<open>The file is opened, and so emptied, before the certificate is parsed.\<close>

definition save_dev_cert ::
  "('c, 'x, 'k) env \<Rightarrow> files \<Rightarrow> string \<Rightarrow> string \<Rightarrow> bytes \<Rightarrow> nat \<Rightarrow> (int \<times> files) option"
where
  "save_dev_cert env fs dir filename buf cert_len =
     (let path = take 4095 (dir @ ''/'' @ filename) in
      if \<not> e_open env path then Some (1, fs)
      else do {
        let fs = fs(path \<mapsto> []);
        fmt \<leftarrow> detect_cert_format buf cert_len;
        let cert = (if fmt = 0 then e_d2i_X509 env buf cert_len
                    else if fmt = 1 then e_PEM_read_bio env buf cert_len
                    else case e_d2i_X509 env buf cert_len of
                           Some c \<Rightarrow> Some c
                         | None \<Rightarrow> e_PEM_read_bio env buf cert_len);
        case cert of
          None \<Rightarrow> Some (1, fs)
        | Some c \<Rightarrow>
            (case e_PEM_write env c of
               None \<Rightarrow> Some (1, fs)
             | Some pem \<Rightarrow> Some (0, fs(path \<mapsto> pem)))
      })"


section \<open>\<open>verify_token\<close>\<close>

text \<open>The token structure is an uninitialised local variable.\<close>

definition wild_token :: cca_token where
  "wild_token =
     \<lparr>cvm_envelop = \<lparr>p_headers = Wild, np_headers = Wild, payload = Wild, signature = Wild\<rparr>, cvm_cose = Wild,
      cvm_token = \<lparr>challenge = Wild, rpv = Wild, rim = Wild, rem_claim = replicate 4 Wild, hash_algo_id = Wild,
                   pub_key = Wild, pub_key_hash_algo_id = Wild\<rparr>,
      platform_envelop = zero_envelop, platform_cose = Wild, platform_token = zero_platform\<rparr>"

definition empty_cert_info :: cert_info where
  "empty_cert_info = \<lparr>cert_path_prefix = [], root_cert_filename = [], sub_cert_filename = [],
     aik_cert_filename = [], root_cert_url = [], sub_cert_url = []\<rparr>"

text \<open>\<open>buf.len != n || memcmp (buf.ptr, expected, n)\<close>, negated.\<close>

definition buf_equals :: "qbuf \<Rightarrow> bytes \<Rightarrow> nat \<Rightarrow> bool option" where
  "buf_equals b expected n =
     do {
       d \<leftarrow> qbuf_data b;
       if length d \<noteq> n then Some False
       else do { e \<leftarrow> mem_read expected 0 n; Some (d = e) }
     }"

definition verify_signatures ::
  "('c, 'x, 'k) env \<Rightarrow> client_cfg \<Rightarrow> files \<Rightarrow> cca_token \<Rightarrow> (bool \<times> files) option"
where
  "verify_signatures env cfg fs t =
     (let ci = configure_cert_info_by_type empty_cert_info
                 (detect_aik_cert_type (e_crypto env) fs (Some ''aik_cert.pem''));
          check = (\<lambda>plat chal. verify_cca_token_signatures (e_malloc env) (e_qcbor env) (e_crypto env)
                     (e_sys env) fs ci plat (cvm_cose t) (pub_key (cvm_token t)) chal
                     (pub_key_hash_algo_id (cvm_token t))) in
      if qbuf_present (platform_cose t) then
        do {
          (ret, fs) \<leftarrow> check (platform_cose t) (plat_challenge (platform_token t));
          case (ret \<and> cfg_verify_platform cfg, cfg_platform_ref_json cfg) of
            (True, Some path) \<Rightarrow>
              let (loaded, refs) = load_platform_ref_values (e_malloc env) (e_fread env) fs path in
              if loaded then
                do {
                  ok \<leftarrow> verify_platform_sw_components (e_malloc env) (platform_token t) refs;
                  Some (ok, fs)
                }
              else Some (False, fs)
          | _ \<Rightarrow> Some (ret, fs)
        }
      else check NullBuf NullBuf)"

text \<open>The loop over the registers: \<open>Inl ()\<close> is the early return for a register of wrong size.\<close>

fun check_rems :: "qbuf list \<Rightarrow> rem_t list \<Rightarrow> nat \<Rightarrow> nat \<Rightarrow> bool \<Rightarrow> (unit + bool) option" where
  "check_rems claims rems 0 i passed = Some (Inr passed)"
| "check_rems claims rems (Suc n) i passed =
     do {
       b \<leftarrow> mem_at claims i;
       d \<leftarrow> qbuf_data b;
       if length d \<noteq> REM_LENGTH_BYTES then Some (Inl ())
       else do {
         r \<leftarrow> mem_at rems i;
         check_rems claims rems n (Suc i) (passed \<and> rem_compare \<lparr>rem_data = d\<rparr> r)
       }
     }"

definition verify_firmware ::
  "('c, 'x, 'k) env \<Rightarrow> client_cfg \<Rightarrow> files \<Rightarrow> cca_token \<Rightarrow> int option"
where
  "verify_firmware env cfg fs t =
     (case event_log_init (read_file_data_binary (e_malloc env) (e_io env) fs CCEL_EVENT_LOG_PATH) 0 of
        None \<Rightarrow> Some VERIFY_FAILED
      | Some log \<Rightarrow>
          do {
            (ok, log) \<leftarrow> event_log_replay (e_malloc env) (e_sha env) log;
            if \<not> ok then Some VERIFY_FAILED
            else do {
              rems \<leftarrow> check_rems (rem_claim (cvm_token t)) (log_rems log) REM_COUNT 0 True;
              if rems \<noteq> Inr True then Some VERIFY_FAILED
              else case cfg_ref_json_file cfg of
                  None \<Rightarrow> Some VERIFY_SUCCESS
                | Some json \<Rightarrow>
                    (case firmware_log_state_create (e_malloc env) of
                       None \<Rightarrow> Some VERIFY_FAILED
                     | Some state \<Rightarrow>
                         do {
                           (ok, state) \<leftarrow> firmware_log_state_extract (e_malloc env) (log_blob log) state;
                           if \<not> ok then Some VERIFY_FAILED
                           else do {
                             ok \<leftarrow> verify_firmware_state (e_malloc env)
                                     (read_text_file (e_malloc env) (e_io env) fs json) state;
                             Some (if ok then VERIFY_SUCCESS else VERIFY_FAILED)
                           }
                         })
            }
          })"

definition verify_token ::
  "('c, 'x, 'k) env \<Rightarrow> client_cfg \<Rightarrow> files \<Rightarrow> bytes \<Rightarrow> qbuf \<Rightarrow> (int \<times> files) option"
where
  "verify_token env cfg fs chal raw =
     do {
       (st, t) \<leftarrow> parse_cca_attestation_token (e_malloc env) (e_qcbor env) wild_token raw;
       if st \<noteq> VIRTCCA_SUCCESS then Some (VERIFY_FAILED, fs)
       else do {
         _ \<leftarrow> print_cca_attestation_token_raw t;
         _ \<leftarrow> print_cca_attestation_token t;
         (ret, fs) \<leftarrow> verify_signatures env cfg fs t;
         if \<not> ret then Some (VERIFY_FAILED, fs)
         else do {
           ok \<leftarrow> buf_equals (challenge (cvm_token t)) chal 64;
           if \<not> ok then Some (VERIFY_FAILED, fs)
           else do {
             ok \<leftarrow> buf_equals (rim (cvm_token t)) (cfg_measurement cfg) (cfg_measurement_len cfg);
             if \<not> ok then Some (VERIFY_FAILED, fs)
             else if cfg_use_firmware cfg then
               do { r \<leftarrow> verify_firmware env cfg fs t; Some (r, fs) }
             else Some (VERIFY_SUCCESS, fs)
           }
         }
       }
     }"



section \<open>The ACPI table\<close>

record acpi_table_info =
  revision :: u8
  checksum :: u8
  oem_id :: bytes
  cc_type :: u8
  cc_subtype :: u8
  log_len :: u64
  log_address :: u64

definition parse_acpi_table :: "bytes \<Rightarrow> acpi_table_info option option" where
  "parse_acpi_table d =
     (if length d < 56 then Some None
      else do {
        sig \<leftarrow> mem_read d 0 4;
        if sig \<noteq> bytes_of_string ''CCEL'' then Some None
        else do {
          rev \<leftarrow> mem_at d 8;
          cs \<leftarrow> mem_at d 9;
          oem \<leftarrow> mem_read d 10 6;
          ty \<leftarrow> mem_at d 36;
          sty \<leftarrow> mem_at d 37;
          len \<leftarrow> mem_read d 40 8;
          addr \<leftarrow> mem_read d 48 8;
          Some (Some \<lparr>revision = rev, checksum = cs, oem_id = oem, cc_type = ty, cc_subtype = sty,
                      log_len = word_of_bytes len, log_address = word_of_bytes addr\<rparr>)
        }
      })"

definition handle_eventlogs_command :: "('c, 'x, 'k) env \<Rightarrow> files \<Rightarrow> int option" where
  "handle_eventlogs_command env fs =
     (case read_file_data_binary (e_malloc env) (e_io env) fs CCEL_ACPI_TABLE_PATH of
        None \<Rightarrow> Some 1
      | Some d \<Rightarrow>
          do {
            info \<leftarrow> parse_acpi_table d;
            case info of
              None \<Rightarrow> Some 1
            | Some i \<Rightarrow>
                (case event_log_init (read_file_data_binary (e_malloc env) (e_io env) fs CCEL_EVENT_LOG_PATH)
                        (unat (log_address i)) of
                   None \<Rightarrow> Some 1
                 | Some log \<Rightarrow>
                     do { _ \<leftarrow> event_log_dump (e_malloc env) (e_sha env) log; Some 0 })
          })"


section \<open>The protocol\<close>

text \<open>
  Step 3 of \<open>handle_connect\<close>: the ACPI table and the event log are received and saved. \<open>False\<close> is
  a return with \<open>VERIFY_FAILED\<close>. The length of the table is unsigned, so a failed \<open>read\<close> passes
  the test against zero and the save reads far outside the buffer.
\<close>

definition receive_event_log ::
  "('c, 'x, 'k) env \<Rightarrow> files \<Rightarrow> sock \<Rightarrow> (bool \<times> files \<times> sock) option"
where
  "receive_event_log env fs s =
     (let s = sock_write (word_bytes CCEL_ACPI_TABLE_ID) s;
          (r, s) = sock_read MAX_BUF s in
      if read_len r = 0 then Some (False, fs, s)
      else do {
        d \<leftarrow> mem_read (fill MAX_BUF r) 0 (read_len r);
        let (st, fs) = save_file_data (e_open env) (e_io env) fs CCEL_ACPI_TABLE_PATH d;
        if st \<noteq> 0 then Some (False, fs, s)
        else
          let s = sock_write (word_bytes CCEL_EVENT_LOG_ID) s;
              (r, s) = sock_read 8 s in
          case r of
            None \<Rightarrow> Some (False, fs, s)
          | Some bs \<Rightarrow>
              if length bs \<noteq> 8 then Some (False, fs, s)
              else
                let expected_size = unat (word_of_bytes bs :: u64) in
                if expected_size = 0 \<or> expected_size > MAX_LOG then Some (False, fs, s)
                else if \<not> e_malloc env expected_size then Some (False, fs, s)
                else
                  (case recv_exact expected_size [] s of
                     (None, s) \<Rightarrow> Some (False, fs, s)
                   | (Some d, s) \<Rightarrow>
                       let (st, fs) = save_file_data (e_open env) (e_io env) fs CCEL_EVENT_LOG_PATH d in
                       Some (st = 0, fs, s))
      })"

text \<open>Steps 4 and 5: the verdict, the FDE message and the key file.\<close>

definition send_verdict ::
  "('c, 'x, 'k) env \<Rightarrow> client_cfg \<Rightarrow> int \<Rightarrow> files \<Rightarrow> sock \<Rightarrow> int \<times> files \<times> sock"
where
  "send_verdict env cfg ret fs s =
     (let s = sock_write (word_bytes (if ret = VERIFY_SUCCESS then VERIFY_SUCCESS_MSG_ID
                                      else VERIFY_FAILED_MSG_ID)) s in
      if ret \<noteq> 0 then (VERIFY_FAILED, fs, s)
      else
        let s = sock_write (word_bytes (if cfg_use_fde cfg then USE_FDE_MSG_ID else VERIFY_REM_MSG_ID)) s in
        if cfg_use_fde cfg then
          (case read_file_data_binary (e_malloc env) (e_io env) fs (cfg_rootfs_key_file cfg) of
             None \<Rightarrow> (1, fs, s)
           | Some key \<Rightarrow> (ret, fs, sock_write key s))
        else (ret, fs, s))"

text \<open>Steps 3 to 5, after the token has been received.\<close>

definition verify_and_reply ::
  "('c, 'x, 'k) env \<Rightarrow> client_cfg \<Rightarrow> files \<Rightarrow> bytes \<Rightarrow> qbuf \<Rightarrow> sock \<Rightarrow> (int \<times> files \<times> sock) option"
where
  "verify_and_reply env cfg fs chal raw s =
     do {
       (ok, fs, s) \<leftarrow> (if cfg_use_firmware cfg \<or> cfg_dump_eventlog cfg
                      then receive_event_log env fs s else Some (True, fs, s));
       if \<not> ok then Some (VERIFY_FAILED, fs, s)
       else if cfg_dump_eventlog cfg then
         do { st \<leftarrow> handle_eventlogs_command env fs; Some (st, fs, s) }
       else do {
         (ret, fs) \<leftarrow> verify_token env cfg fs chal raw;
         Some (send_verdict env cfg ret fs s)
       }
     }"

definition handle_connect ::
  "('c, 'x, 'k) env \<Rightarrow> client_cfg \<Rightarrow> files \<Rightarrow> sock \<Rightarrow> (int \<times> files \<times> sock) option"
where
  "handle_connect env cfg fs s =
     do {
       let s = sock_write (word_bytes DEVICE_CERT_MSG_ID) s;
       let (r, s) = sock_read MAX_BUF s;
       (st, fs) \<leftarrow> save_dev_cert env fs ''.'' ''aik_cert.pem'' (fill MAX_BUF r) (read_len r);
       if st \<noteq> 0 then Some (VERIFY_FAILED, fs, s)
       else do {
         let chal = e_rand env;
         let s = sock_write (word_bytes ATTEST_MSG_ID @ chal) s;
         let (r, s) = sock_read MAX_BUF s;
         verify_and_reply env cfg fs chal (case r of None \<Rightarrow> Wild | Some bs \<Rightarrow> QBuf bs) s
       }
     }"


section \<open>What a successful verification means\<close>

lemma buf_equals_True: "buf_equals b e n = Some True \<Longrightarrow> length e \<ge> n \<Longrightarrow> n > 0 \<Longrightarrow> b = QBuf (take n e)"
  by (cases b) (auto simp: buf_equals_def mem_read_def split: if_splits bind_splits)

lemma check_rems_True:
  assumes "check_rems claims rems n i p = Some (Inr True)"
  shows "p \<and> (\<forall>j. i \<le> j \<longrightarrow> j < i + n \<longrightarrow> j < length claims \<and> j < length rems \<and>
           (\<exists>d. claims ! j = QBuf d \<and> length d = 32 \<and> rem_compare \<lparr>rem_data = d\<rparr> (rems ! j)))"
  using assms
proof (induction n arbitrary: i p)
  case 0
  then show ?case by simp
next
  case (Suc n)
  obtain b d r where *: "mem_at claims i = Some b" "qbuf_data b = Some d" "length d = 32"
      "mem_at rems i = Some r"
      "check_rems claims rems n (Suc i) (p \<and> rem_compare \<lparr>rem_data = d\<rparr> r) = Some (Inr True)"
    using Suc.prems by (auto split: bind_splits if_splits)
  have b: "i < length claims" "claims ! i = b" "i < length rems" "rems ! i = r"
    using *(1,4) by (auto simp: mem_at_def split: if_splits)
  have q: "b = QBuf d" using *(2,3) by (cases b) auto
  note IH = Suc.IH [OF *(5)]
  show ?case
  proof (intro conjI allI impI)
    show p using IH by simp
    fix j assume j: "i \<le> j" "j < i + Suc n"
    have "j = i \<or> Suc i \<le> j \<and> j < Suc i + n" using j by auto
    then have "j < length claims \<and> j < length rems \<and>
           (\<exists>d. claims ! j = QBuf d \<and> length d = 32 \<and> rem_compare \<lparr>rem_data = d\<rparr> (rems ! j))"
      using IH b q *(3) by auto
    then show "j < length claims" "j < length rems"
        "\<exists>d. claims ! j = QBuf d \<and> length d = 32 \<and> rem_compare \<lparr>rem_data = d\<rparr> (rems ! j)" by auto
  qed
qed

lemma verify_token_success:
  assumes "verify_token env cfg fs chal raw = Some (VERIFY_SUCCESS, fs')"
  obtains t where
    "parse_cca_attestation_token (e_malloc env) (e_qcbor env) wild_token raw = Some (VIRTCCA_SUCCESS, t)"
    "verify_signatures env cfg fs t = Some (True, fs')"
    "buf_equals (challenge (cvm_token t)) chal 64 = Some True"
    "buf_equals (rim (cvm_token t)) (cfg_measurement cfg) (cfg_measurement_len cfg) = Some True"
    "cfg_use_firmware cfg \<Longrightarrow> verify_firmware env cfg fs' t = Some VERIFY_SUCCESS"
  using assms that unfolding verify_token_def
  by (auto split: bind_splits if_splits prod.splits)

lemma verify_firmware_success:
  assumes "verify_firmware env cfg fs t = Some VERIFY_SUCCESS"
  obtains data log log' where
    "read_file_data_binary (e_malloc env) (e_io env) fs CCEL_EVENT_LOG_PATH = Some data"
    "event_log_init (Some data) 0 = Some log"
    "event_log_replay (e_malloc env) (e_sha env) log = Some (True, log')"
    "check_rems (rem_claim (cvm_token t)) (log_rems log') REM_COUNT 0 True = Some (Inr True)"
    "\<And>json. cfg_ref_json_file cfg = Some json \<Longrightarrow>
       \<exists>st st'. firmware_log_state_create (e_malloc env) = Some st \<and>
         firmware_log_state_extract (e_malloc env) (log_blob log') st = Some (True, st') \<and>
         verify_firmware_state (e_malloc env) (read_text_file (e_malloc env) (e_io env) fs json) st' = Some True"
proof -
  obtain data where d: "read_file_data_binary (e_malloc env) (e_io env) fs CCEL_EVENT_LOG_PATH = Some data"
    using assms by (auto simp: verify_firmware_def event_log_init_def split: option.splits)
  obtain log where l: "event_log_init (Some data) 0 = Some log"
    using assms d by (auto simp: verify_firmware_def split: option.splits)
  show ?thesis
    using assms that [OF d l] d l
    by (auto simp: verify_firmware_def split: bind_splits if_splits prod.splits option.splits)
qed



section \<open>What the client sends\<close>

definition protocol_messages :: "bytes \<Rightarrow> bytes set" where
  "protocol_messages chal =
     {word_bytes DEVICE_CERT_MSG_ID, word_bytes ATTEST_MSG_ID @ chal, word_bytes CCEL_ACPI_TABLE_ID,
      word_bytes CCEL_EVENT_LOG_ID, word_bytes VERIFY_SUCCESS_MSG_ID, word_bytes VERIFY_FAILED_MSG_ID,
      word_bytes VERIFY_REM_MSG_ID, word_bytes USE_FDE_MSG_ID}"

lemma receive_event_log_out:
  assumes "receive_event_log env fs s = Some (ok, fs', s')"
  shows "set (s_out s') \<subseteq> set (s_out s) \<union> {word_bytes CCEL_ACPI_TABLE_ID, word_bytes CCEL_EVENT_LOG_ID}"
proof -
  obtain r s1 where r1: "sock_read 4096 (sock_write (word_bytes CCEL_ACPI_TABLE_ID) s) = (r, s1)"
    by (cases "sock_read 4096 (sock_write (word_bytes CCEL_ACPI_TABLE_ID) s)")
  obtain r2 s2 where r2: "sock_read 8 (sock_write (word_bytes CCEL_EVENT_LOG_ID) s1) = (r2, s2)"
    by (cases "sock_read 8 (sock_write (word_bytes CCEL_EVENT_LOG_ID) s1)")
  have o: "s_out s1 = s_out s @ [word_bytes CCEL_ACPI_TABLE_ID]"
      "s_out s2 = s_out s1 @ [word_bytes CCEL_EVENT_LOG_ID]"
    using sock_read_out [OF r1] sock_read_out [OF r2] by simp_all
  have "s' = s1 \<or> s' = s2 \<or> (\<exists>n d. recv_exact n [] s2 = (d, s'))"
    using assms r1 r2
    by (auto simp: receive_event_log_def Let_def simp del: sock_read.simps
        split: bind_splits if_splits prod.splits option.splits)
  then show ?thesis using o recv_exact_out [of _ "[]" s2 _ s'] by auto
qed

lemma send_verdict_messages:
  assumes "send_verdict env cfg v fv s = (ret, fs', s')" "m \<in> set (s_out s')" "m \<notin> set (s_out s)"
    "m \<notin> protocol_messages chal"
  shows "v = VERIFY_SUCCESS \<and> fv = fs' \<and> cfg_use_fde cfg \<and>
    read_file_data_binary (e_malloc env) (e_io env) fs' (cfg_rootfs_key_file cfg) = Some m"
  using assms by (auto simp: send_verdict_def Let_def protocol_messages_def split: if_splits option.splits)

lemma verify_and_reply_messages:
  assumes h: "verify_and_reply env cfg fs chal raw s = Some (ret, fs', s')"
    and m: "m \<in> set (s_out s')" "m \<notin> set (s_out s)" "m \<notin> protocol_messages chal"
  shows "\<exists>fs1. verify_token env cfg fs1 chal raw = Some (VERIFY_SUCCESS, fs') \<and> cfg_use_fde cfg \<and>
     read_file_data_binary (e_malloc env) (e_io env) fs' (cfg_rootfs_key_file cfg) = Some m"
proof -
  obtain ok fs1 s1 where r: "(if cfg_use_firmware cfg \<or> cfg_dump_eventlog cfg
      then receive_event_log env fs s else Some (True, fs, s)) = Some (ok, fs1, s1)"
    using h by (auto simp: verify_and_reply_def split: bind_splits)
  have m1: "m \<notin> set (s_out s1)"
    using r m(2,3) receive_event_log_out [of env fs s ok fs1 s1]
    by (auto simp: protocol_messages_def split: if_splits)
  have ok: "ok" "\<not> cfg_dump_eventlog cfg"
    using h m(1) m1 unfolding verify_and_reply_def r by (auto split: if_splits bind_splits)
  then obtain v fv where "verify_token env cfg fs1 chal raw = Some (v, fv)"
      "send_verdict env cfg v fv s1 = (ret, fs', s')"
    using h unfolding verify_and_reply_def r by (auto split: bind_splits)
  then show ?thesis using send_verdict_messages [of env cfg v fv s1 ret fs' s' m chal] m(1,3) m1 by blast
qed

lemma handle_connect_messages:
  assumes h: "handle_connect env cfg fs s = Some (ret, fs', s')"
    and m: "m \<in> set (s_out s')" "m \<notin> set (s_out s)" "m \<notin> protocol_messages (e_rand env)"
  shows "\<exists>fs1 raw. verify_token env cfg fs1 (e_rand env) raw = Some (VERIFY_SUCCESS, fs') \<and> cfg_use_fde cfg \<and>
     read_file_data_binary (e_malloc env) (e_io env) fs' (cfg_rootfs_key_file cfg) = Some m"
proof -
  let ?s0 = "sock_write (word_bytes DEVICE_CERT_MSG_ID) s"
  obtain r s1 where r1: "sock_read 4096 ?s0 = (r, s1)" by (cases "sock_read 4096 ?s0")
  let ?s1 = "sock_write (word_bytes ATTEST_MSG_ID @ e_rand env) s1"
  obtain r2 s2 where r2: "sock_read 4096 ?s1 = (r2, s2)" by (cases "sock_read 4096 ?s1")
  have o1: "m \<notin> set (s_out s1)"
    using sock_read_out [OF r1] m(2,3) by (auto simp: protocol_messages_def)
  have o2: "m \<notin> set (s_out s2)"
    using sock_read_out [OF r2] o1 m(3) by (auto simp: protocol_messages_def)
  obtain st fs1 where sv: "save_dev_cert env fs ''.'' ''aik_cert.pem'' (fill 4096 r) (read_len r) = Some (st, fs1)"
    using h by (auto simp: handle_connect_def r1 Let_def simp del: sock_read.simps split: bind_splits)
  have "st = 0"
    using h o1 m(1) unfolding handle_connect_def Let_def r1 prod.case sv by (auto split: if_splits)
  then have "verify_and_reply env cfg fs1 (e_rand env) (case r2 of None \<Rightarrow> Wild | Some bs \<Rightarrow> QBuf bs) s2
      = Some (ret, fs', s')"
    using h unfolding handle_connect_def Let_def r1 prod.case sv by (simp add: r2 del: sock_read.simps)
  then show ?thesis using verify_and_reply_messages m(1,3) o2 by blast
qed


lemma verify_firmware_state_parses:
  assumes "verify_firmware_state malloc_ok json st = Some True"
  shows "\<exists>ref. parse_json_file malloc_ok json zero_reference = (True, ref)"
  using assms by (auto simp: verify_firmware_state_def split: prod.splits if_splits)

lemma verify_firmware_rems:
  assumes v: "verify_firmware env cfg fs t = Some VERIFY_SUCCESS" and sha: "sha_ok (e_sha env)"
    and len: "length (rem_claim (cvm_token t)) = REM_COUNT"
  obtains data log log' where
    "read_file_data_binary (e_malloc env) (e_io env) fs CCEL_EVENT_LOG_PATH = Some data"
    "event_log_init (Some data) 0 = Some log"
    "event_log_replay (e_malloc env) (e_sha env) log = Some (True, log')"
    "rem_claim (cvm_token t) = map (\<lambda>r. QBuf (rem_data r)) (log_rems log')"
    "\<And>json. cfg_ref_json_file cfg = Some json \<Longrightarrow>
       \<exists>st st'. firmware_log_state_create (e_malloc env) = Some st \<and>
         firmware_log_state_extract (e_malloc env) (log_blob log) st = Some (True, st') \<and>
         verify_firmware_state (e_malloc env) (read_text_file (e_malloc env) (e_io env) fs json) st' = Some True"
proof -
  obtain data log log' where d: "read_file_data_binary (e_malloc env) (e_io env) fs CCEL_EVENT_LOG_PATH = Some data"
    "event_log_init (Some data) 0 = Some log"
    "event_log_replay (e_malloc env) (e_sha env) log = Some (True, log')"
    "check_rems (rem_claim (cvm_token t)) (log_rems log') REM_COUNT 0 True = Some (Inr True)"
    "\<And>json. cfg_ref_json_file cfg = Some json \<Longrightarrow>
       \<exists>st st'. firmware_log_state_create (e_malloc env) = Some st \<and>
         firmware_log_state_extract (e_malloc env) (log_blob log') st = Some (True, st') \<and>
         verify_firmware_state (e_malloc env) (read_text_file (e_malloc env) (e_io env) fs json) st' = Some True"
    using verify_firmware_success [OF v] by metis
  have "length (log_rems log) = REM_COUNT"
    using d(2) by (auto simp: event_log_init_def init_rems_def split: option.splits)
  note wf = event_log_replay_wf [OF sha d(3) this]
  have "rem_claim (cvm_token t) ! j = QBuf (rem_data (log_rems log' ! j))" if j: "j < REM_COUNT" for j
  proof -
    from check_rems_True [OF d(4)] j
    obtain c where c: "rem_claim (cvm_token t) ! j = QBuf c" "length c = 32" "rem_compare \<lparr>rem_data = c\<rparr> (log_rems log' ! j)"
      by fastforce
    have "rem_wf (log_rems log' ! j)" "rem_wf \<lparr>rem_data = c\<rparr>"
      using wf(1) j c(2) by (auto simp: rems_wf_def list_all_length rem_wf_def)
    then show ?thesis using c by (simp add: rem_compare_iff)
  qed
  then have "rem_claim (cvm_token t) = map (\<lambda>r. QBuf (rem_data r)) (log_rems log')"
    using wf(1) len by (intro nth_equalityI) (auto simp: rems_wf_def)
  then show ?thesis using d wf(2) that [OF d(1-3)] by metis
qed

lemma parsed_rem_length:
  assumes "parse_cca_attestation_token malloc_ok q wild_token raw = Some (VIRTCCA_SUCCESS, t)"
  shows "length (rem_claim (cvm_token t)) = REM_COUNT"
proof -
  have "cvm_sized (cvm_token wild_token) (cvm_token t)"
    using parse_cca_success_cases [OF assms] parse_cvm_part_sized by metis
  then show ?thesis by (auto simp: cvm_sized_def wild_token_def dest: list_all2_lengthD)
qed

text \<open>A relying party and its files, for evaluation.\<close>

definition demo_env :: "(qitem list \<times> u64, unit, unit) env" where
  "demo_env = \<lparr>e_malloc = (\<lambda>_. True), e_open = (\<lambda>_. True), e_io = (\<lambda>_. True), e_fread = (\<lambda>d. d),
     e_qcbor = list_qcbor token_items, e_crypto = toy_crypto, e_sha = toy_sha, e_sys = (\<lambda>_ fs. (0, fs)),
     e_d2i_X509 = (\<lambda>_ _. Some ()), e_PEM_read_bio = (\<lambda>_ _. Some ()), e_PEM_write = (\<lambda>_. Some [1]),
     e_rand = replicate 64 1\<rparr>"

definition demo_cfg :: client_cfg where
  "demo_cfg = \<lparr>cfg_measurement = replicate 64 3, cfg_measurement_len = 32, cfg_use_firmware = True,
     cfg_dump_eventlog = False, cfg_ref_json_file = Some ''./ref.json'', cfg_use_fde = True,
     cfg_rootfs_key_file = ''./key.bin'', cfg_verify_platform = False, cfg_platform_ref_json = None\<rparr>"

definition demo_files :: files where
  "demo_files = [''./aik_cert.pem'' \<mapsto> [1], ''./sub_cert.pem'' \<mapsto> [1], ''./root_cert.pem'' \<mapsto> [1],
     ''./event_log.bin'' \<mapsto> enc_log sample_events @ [], ''./ref.json'' \<mapsto> bytes_of_string sample_json,
     ''./key.bin'' \<mapsto> [5, 6, 7]]"

lemma demo_parses:
  "parse_cca_attestation_token (\<lambda>_. True) (list_qcbor token_items) wild_token (QBuf [0]) = Some (0, sample_token)"
proof -
  have "parse_cca_attestation_token (\<lambda>_. True) (list_qcbor token_items) wild_token (QBuf [0]) = Some (VIRTCCA_SUCCESS,
     \<lparr>cvm_envelop = \<lparr>p_headers = val_string (bstr_item 0 [2]), np_headers = val_string empty_map_item,
                     payload = val_string (bstr_item 0 [3]), signature = val_string (bstr_item 0 [4])\<rparr>,
      cvm_cose = QBuf [1], cvm_token = cvm_of sample_content,
      platform_envelop = zero_envelop, platform_cose = NullBuf, platform_token = zero_platform\<rparr>)"
    by (rule parse_cvm_only_items [OF token_items_yield])
      (simp_all add: shuffled_fields_def sample_content_ok wild_token_def list_qcbor_def token_items_def
        map_item_def cose_item_def)
  then show ?thesis by (simp add: sample_token_def bstr_item_def empty_map_item_def)
qed

lemma demo_prints:
  "print_cca_attestation_token_raw sample_token \<noteq> None" "print_cca_attestation_token sample_token \<noteq> None"
  by (simp_all add: print_cca_attestation_token_raw_def print_cca_attestation_token_def print_envelop_def
      print_cvm_claims_def token_has_platform_def put_line_def sample_token_def cvm_of_def sample_content_def mem_at_def)

lemma demo_signatures:
  assumes "has_certs fs"
  shows "verify_signatures demo_env cfg fs sample_token = Some (True, fs)"
proof -
  have "detect_aik_cert_type toy_crypto fs (Some ''aik_cert.pem'') = CERT_TYPE_RSA"
    using assms by (simp add: detect_aik_cert_type_def toy_crypto_def has_certs_def)
  then have c: "configure_cert_info_by_type empty_cert_info (detect_aik_cert_type toy_crypto fs (Some ''aik_cert.pem'')) = toy_certs"
    by (simp add: toy_certs_def empty_cert_info_def)
  have "verify_cca_token_signatures (\<lambda>_. True) (list_qcbor token_items) toy_crypto (\<lambda>_ fs. (0, fs)) fs toy_certs
      NullBuf (QBuf [1]) (QBuf (replicate 550 8)) NullBuf (QBuf (bytes_of_string ''sha-256'')) = Some (True \<and> True, fs)"
    by (rule verdict_cvm_only [OF toy_libs(1) toy_libs(1) toy_libs(1) _ toy_signatures(2)
        toy_steps(1) [OF assms] toy_libs(2) toy_steps(2-4) [OF assms]]) (simp add: qbuf_present_def)
  then show ?thesis using c
    by (simp add: verify_signatures_def demo_env_def sample_token_def qbuf_present_def cvm_of_def sample_content_def)
qed

lemma demo_files_read:
  "has_certs demo_files"
  "read_file_data_binary (\<lambda>_. True) (\<lambda>_. True) demo_files ''./event_log.bin'' = Some (enc_log sample_events @ [])"
  "read_text_file (\<lambda>_. True) (\<lambda>_. True) demo_files ''./ref.json'' = Some sample_json"
  "read_file_data_binary (\<lambda>_. True) (\<lambda>_. True) demo_files ''./key.bin'' = Some [5, 6, 7]"
proof -
  have "CHR 0x00 \<notin> set sample_json" by code_simp
  then show "read_text_file (\<lambda>_. True) (\<lambda>_. True) demo_files ''./ref.json'' = Some sample_json"
    by (simp add: read_text_file_def demo_files_def c_string_bytes_of_string)
qed (simp_all add: demo_files_def has_certs_def read_file_data_binary_def)

lemma sample_accepted:
  "accepts sample_reference (view_of (map entry_of sample_events))"
  unfolding accepts_def view_of_closed sample_events_view
  by (simp add: hash_matches_def sample_reference_def)

lemma demo_firmware: "verify_firmware demo_env demo_cfg demo_files sample_token = Some VERIFY_SUCCESS"
proof -
  obtain log where log: "event_log_init (Some (enc_log sample_events @ [])) 0 = Some log"
    using sample_log_init by blast
  have rems: "check_rems (rem_claim (cvm_token sample_token)) (map (\<lambda>b. \<lparr>rem_data = replicate 32 b\<rparr>) [7, 8, 10, 0])
      REM_COUNT 0 True = Some (Inr True)"
    by (simp add: eval_nat_numeral sample_token_def cvm_of_def sample_content_def mem_at_def rem_compare_def del: replicate.simps)
  obtain st where st: "firmware_log_state_create (\<lambda>_. True) = Some st"
    by (simp add: firmware_log_state_create_def)
  have es: "log_entries (\<lambda>_. True) (log_blob log) 0 = Some (map entry_of sample_events)"
    using log_entries_enc_log [OF init_blob_at(1) [OF log sample_events_ok(5)] sample_events_ok(6,1)] by simp
  have ok: "list_all entry_ok (map entry_of sample_events)"
    using sample_events_ok(1,2) by (auto simp: list_all_iff intro!: entry_of_ok)
  obtain st' where x: "firmware_log_state_extract (\<lambda>_. True) (log_blob log) st = Some (True, st')"
      "holds_view st' (view_of (map entry_of sample_events))"
    using firmware_log_state_extract_refines [OF es ok _ _ st] sample_events_ok(3) by auto
  have "verify_firmware_state (\<lambda>_. True) (Some sample_json) st' = Some True"
    using verify_firmware_state_iff [OF sample_json_parses x(2) view_of_wf [OF ok]] sample_accepted by simp
  then show ?thesis
    using log rems st x(1) sample_replay [OF log] demo_files_read(2,3)
    by (simp add: verify_firmware_def demo_env_def demo_cfg_def)
qed

lemma demo_verify: "verify_token demo_env demo_cfg demo_files (replicate 64 1) (QBuf [0]) = Some (VERIFY_SUCCESS, demo_files)"
proof -
  have "buf_equals (challenge (cvm_token sample_token)) (replicate 64 1) 64 = Some True"
    "buf_equals (rim (cvm_token sample_token)) (cfg_measurement demo_cfg) (cfg_measurement_len demo_cfg) = Some True"
    by (simp_all add: buf_equals_def sample_token_def cvm_of_def sample_content_def mem_read_def demo_cfg_def)
  moreover have "cfg_use_firmware demo_cfg" by (simp add: demo_cfg_def)
  moreover have "parse_cca_attestation_token (e_malloc demo_env) (e_qcbor demo_env) wild_token (QBuf [0]) = Some (0, sample_token)"
    using demo_parses by (simp add: demo_env_def)
  ultimately show ?thesis using demo_prints demo_signatures [OF demo_files_read(1), of demo_cfg] demo_firmware
    by (auto simp: verify_token_def)
qed


section \<open>Properties\<close>

text \<open>
  C9. Soundness of \<open>verify_token\<close>: when it reports success, the token parsed, the signature verdict
  was positive, the challenge is the caller's nonce and the initial measurement the configured
  one. With firmware verification the event log file was replayed, and each of the four registers
  of the token equals the replayed register.
\<close>

theorem verify_token_sound:
  assumes v: "verify_token env cfg fs chal raw = Some (VERIFY_SUCCESS, fs')"
    and len: "length chal = 64" "0 < cfg_measurement_len cfg" "cfg_measurement_len cfg \<le> length (cfg_measurement cfg)"
    and sha: "sha_ok (e_sha env)"
  shows "\<exists>t. parse_cca_attestation_token (e_malloc env) (e_qcbor env) wild_token raw = Some (VIRTCCA_SUCCESS, t) \<and>
     verify_signatures env cfg fs t = Some (True, fs') \<and>
     challenge (cvm_token t) = QBuf chal \<and>
     rim (cvm_token t) = QBuf (take (cfg_measurement_len cfg) (cfg_measurement cfg)) \<and>
     (cfg_use_firmware cfg \<longrightarrow> (\<exists>data log log'.
        read_file_data_binary (e_malloc env) (e_io env) fs' CCEL_EVENT_LOG_PATH = Some data \<and>
        event_log_init (Some data) 0 = Some log \<and>
        event_log_replay (e_malloc env) (e_sha env) log = Some (True, log') \<and>
        rem_claim (cvm_token t) = map (\<lambda>r. QBuf (rem_data r)) (log_rems log')))"
proof -
  obtain t where t: "parse_cca_attestation_token (e_malloc env) (e_qcbor env) wild_token raw = Some (VIRTCCA_SUCCESS, t)"
    "verify_signatures env cfg fs t = Some (True, fs')"
    "buf_equals (challenge (cvm_token t)) chal 64 = Some True"
    "buf_equals (rim (cvm_token t)) (cfg_measurement cfg) (cfg_measurement_len cfg) = Some True"
    "cfg_use_firmware cfg \<Longrightarrow> verify_firmware env cfg fs' t = Some VERIFY_SUCCESS"
    by (rule verify_token_success [OF v]) blast
  have c: "challenge (cvm_token t) = QBuf chal" using buf_equals_True [OF t(3)] len(1) by simp
  have m: "rim (cvm_token t) = QBuf (take (cfg_measurement_len cfg) (cfg_measurement cfg))"
    using buf_equals_True [OF t(4)] len by simp
  have "\<exists>data log log'.
        read_file_data_binary (e_malloc env) (e_io env) fs' CCEL_EVENT_LOG_PATH = Some data \<and>
        event_log_init (Some data) 0 = Some log \<and>
        event_log_replay (e_malloc env) (e_sha env) log = Some (True, log') \<and>
        rem_claim (cvm_token t) = map (\<lambda>r. QBuf (rem_data r)) (log_rems log')" if "cfg_use_firmware cfg"
    by (rule verify_firmware_rems [OF t(5) [OF that] sha parsed_rem_length [OF t(1)]]) blast
  then show ?thesis using t(1,2) c m by blast
qed

theorem verify_token_sound_witness:
  "\<exists>t. verify_signatures demo_env demo_cfg demo_files t = Some (True, demo_files) \<and>
     challenge (cvm_token t) = QBuf (replicate 64 1) \<and> rim (cvm_token t) = QBuf (replicate 32 3)"
proof -
  have "sha_ok (e_sha demo_env)" using toy_sha_ok by (simp add: demo_env_def)
  moreover have "take (cfg_measurement_len demo_cfg) (cfg_measurement demo_cfg) = replicate 32 3"
    "0 < cfg_measurement_len demo_cfg" "cfg_measurement_len demo_cfg \<le> length (cfg_measurement demo_cfg)"
    by (simp_all add: demo_cfg_def)
  ultimately show ?thesis using verify_token_sound [OF demo_verify] by auto
qed

text \<open>
  C1. Key release: in \<open>handle_connect\<close> the only thing ever written to the peer besides the fixed
  protocol messages and the nonce is the content of the root file system key file, and only when
  disk encryption is configured and \<open>verify_token\<close> succeeded on the nonce of this connection: a
  token was parsed, the signature verdict was positive, its challenge is that nonce and its
  initial measurement is the configured one.
\<close>

theorem key_released_only_after_verification:
  assumes h: "handle_connect env cfg fs s = Some (ret, fs', s')"
    and m: "m \<in> set (s_out s')" "m \<notin> set (s_out s)" "m \<notin> protocol_messages (e_rand env)"
    and len: "length (e_rand env) = 64" "0 < cfg_measurement_len cfg" "cfg_measurement_len cfg \<le> length (cfg_measurement cfg)"
  shows "cfg_use_fde cfg \<and>
     read_file_data_binary (e_malloc env) (e_io env) fs' (cfg_rootfs_key_file cfg) = Some m \<and>
     (\<exists>fs1 raw t. parse_cca_attestation_token (e_malloc env) (e_qcbor env) wild_token raw = Some (VIRTCCA_SUCCESS, t) \<and>
        verify_signatures env cfg fs1 t = Some (True, fs') \<and>
        challenge (cvm_token t) = QBuf (e_rand env) \<and>
        rim (cvm_token t) = QBuf (take (cfg_measurement_len cfg) (cfg_measurement cfg)))"
proof -
  obtain fs1 raw where v: "verify_token env cfg fs1 (e_rand env) raw = Some (VERIFY_SUCCESS, fs')"
    and k: "cfg_use_fde cfg" "read_file_data_binary (e_malloc env) (e_io env) fs' (cfg_rootfs_key_file cfg) = Some m"
    using handle_connect_messages [OF h m] by blast
  obtain t where "parse_cca_attestation_token (e_malloc env) (e_qcbor env) wild_token raw = Some (VIRTCCA_SUCCESS, t)"
    "verify_signatures env cfg fs1 t = Some (True, fs')"
    "buf_equals (challenge (cvm_token t)) (e_rand env) 64 = Some True"
    "buf_equals (rim (cvm_token t)) (cfg_measurement cfg) (cfg_measurement_len cfg) = Some True"
    by (rule verify_token_success [OF v]) blast
  then show ?thesis using k buf_equals_True len by (metis order.refl take_all zero_less_numeral)
qed

lemma demo_cert: "save_dev_cert demo_env fs ''.'' ''aik_cert.pem'' (fill 4096 (Some [0])) (read_len (Some [0])) =
    Some (0, fs(''./aik_cert.pem'' \<mapsto> [1]))"
  by (simp add: save_dev_cert_def demo_env_def detect_cert_format_def der_cert_format_def read_len_def fill_def Let_def
      bytes_of_string_def fun_upd_upd)

definition demo_cfg_fde :: client_cfg where
  "demo_cfg_fde = demo_cfg\<lparr>cfg_use_firmware := False\<rparr>"

lemma demo_verify_fde:
  "verify_token demo_env demo_cfg_fde demo_files (replicate 64 1) (QBuf [0]) = Some (VERIFY_SUCCESS, demo_files)"
proof -
  have "buf_equals (challenge (cvm_token sample_token)) (replicate 64 1) 64 = Some True"
    "buf_equals (rim (cvm_token sample_token)) (cfg_measurement demo_cfg_fde) (cfg_measurement_len demo_cfg_fde) = Some True"
    by (simp_all add: buf_equals_def sample_token_def cvm_of_def sample_content_def mem_read_def demo_cfg_def demo_cfg_fde_def)
  moreover have "\<not> cfg_use_firmware demo_cfg_fde" by (simp add: demo_cfg_fde_def)
  moreover have "parse_cca_attestation_token (e_malloc demo_env) (e_qcbor demo_env) wild_token (QBuf [0]) = Some (0, sample_token)"
    using demo_parses by (simp add: demo_env_def)
  ultimately show ?thesis using demo_prints demo_signatures [OF demo_files_read(1), of demo_cfg_fde]
    by (auto simp: verify_token_def)
qed

lemma demo_connect:
  "handle_connect demo_env demo_cfg_fde demo_files \<lparr>s_in = [Some [0], Some [0]], s_out = []\<rparr> =
     Some (0, demo_files, \<lparr>s_in = [], s_out = [word_bytes DEVICE_CERT_MSG_ID,
       word_bytes ATTEST_MSG_ID @ replicate 64 1, word_bytes VERIFY_SUCCESS_MSG_ID,
       word_bytes USE_FDE_MSG_ID, [5, 6, 7]]\<rparr>)"
proof -
  have f: "demo_files(''./aik_cert.pem'' \<mapsto> [1]) = demo_files" by (rule ext) (simp add: demo_files_def)
  have r: "e_rand demo_env = replicate 64 1" by (simp add: demo_env_def)
  have "read_file_data_binary (e_malloc demo_env) (e_io demo_env) demo_files (cfg_rootfs_key_file demo_cfg_fde) = Some [5, 6, 7]"
    using demo_files_read(4) by (simp add: demo_env_def demo_cfg_def demo_cfg_fde_def)
  then show ?thesis using demo_cert [of demo_files] demo_verify_fde
    by (simp add: handle_connect_def verify_and_reply_def send_verdict_def sock_write_def f r del: replicate.simps)
      (simp add: demo_cfg_fde_def demo_cfg_def send_verdict_def sock_write_def)
qed

theorem key_released_only_after_verification_witness:
  "\<exists>fs1 raw t. verify_signatures demo_env demo_cfg_fde fs1 t = Some (True, demo_files) \<and>
     challenge (cvm_token t) = QBuf (replicate 64 1)"
proof -
  have "4 \<le> length x" if "x \<in> protocol_messages c" for x c
    using that by (auto simp: protocol_messages_def)
  then have "[5, 6, 7] \<notin> protocol_messages (e_rand demo_env)" by fastforce
  moreover have "length (e_rand demo_env) = 64" "0 < cfg_measurement_len demo_cfg_fde"
    "cfg_measurement_len demo_cfg_fde \<le> length (cfg_measurement demo_cfg_fde)" "e_rand demo_env = replicate 64 1"
    by (simp_all add: demo_env_def demo_cfg_def demo_cfg_fde_def)
  ultimately show ?thesis
    using key_released_only_after_verification [OF demo_connect, of "[5, 6, 7]"] by auto
qed


text \<open>
  The event log the relying party saves: when \<open>receive_event_log\<close> reports success, the peer
  announced a size between 1 byte and 2 MB and the log file holds exactly that many bytes.
\<close>

theorem received_event_log_size:
  assumes "receive_event_log env fs s = Some (True, fs', s')"
  shows "\<exists>d. fs' CCEL_EVENT_LOG_PATH = Some d \<and> 0 < length d \<and> length d \<le> MAX_LOG"
proof -
  obtain n d s1 s2 where "recv_exact n [] s1 = (Some d, s2)" "n \<noteq> 0" "n \<le> MAX_LOG"
      "fs' CCEL_EVENT_LOG_PATH = Some d"
    using assms
    by (auto simp: receive_event_log_def Let_def save_file_data_def not_less simp del: sock_read.simps
        split: bind_splits if_splits prod.splits option.splits)
  then show ?thesis using recv_exact_length [of n "[]" s1 d s2] by auto
qed

theorem received_event_log_size_witness:
  "\<exists>d fs' s'. receive_event_log demo_env Map.empty \<lparr>s_in = [Some [1], Some [2, 0, 0, 0, 0, 0, 0, 0], Some [8], Some [9]],
       s_out = []\<rparr> = Some (True, fs', s') \<and> fs' CCEL_EVENT_LOG_PATH = Some d \<and> 0 < length d \<and> length d \<le> MAX_LOG"
proof -
  have "(word_of_bytes [2, 0, 0, 0, 0, 0, 0, 0] :: u64) = 2" by (simp add: word_of_bytes_def)
  then have "\<exists>fs' s'. receive_event_log demo_env Map.empty \<lparr>s_in = [Some [1], Some [2, 0, 0, 0, 0, 0, 0, 0], Some [8], Some [9]],
       s_out = []\<rparr> = Some (True, fs', s')"
    by (simp add: receive_event_log_def demo_env_def sock_write_def read_len_def fill_def mem_read_def
        save_file_data_def Let_def recv_exact.simps)
  then show ?thesis using received_event_log_size by blast
qed

end
