(* ===== verification/Dump_Command.thy ===== *)
theory Dump_Command
  imports Dump_Text Sample_Client
begin

text \<open>
  The command \<open>-e\<close> of \<open>attestation/samples/src/client.c\<close> and what it prints: the ACPI table with
  its fields, the events of the log, the registers after the replay and the firmware state
  (\<open>event_log_dump\<close> and \<open>event_log_replay\<close> of \<open>event_log.c\<close>). The printed text is related to the
  model without text, and for well-formed files given in full.
\<close>

section \<open>The ACPI table\<close>

definition print_hex_dump_with_ascii :: "bytes \<Rightarrow> string" where
  "print_hex_dump_with_ascii data =
     ''=> Read CCEL ACPI Table'' @ NL @
     (let (t, buf) = hex_dump_loop 0 0 data zero_ascii in t @ dump_end (length data) buf)"

definition acpi_fields :: "nat \<Rightarrow> acpi_table_info \<Rightarrow> string" where
  "acpi_fields file_size info =
     ''Revision:     '' @ printf_nat (unat (revision info)) @ NL @
     ''Length:       '' @ printf_nat file_size @ NL @
     ''Checksum:     '' @ printf_02X (checksum info) @ NL @
     ''OEM ID:       b'' @ [CHR 0x27] @ map (\<lambda>b. char_of (unat b)) (oem_id info) @ [CHR 0x27] @ NL @
     ''CC Type:      '' @ printf_nat (unat (cc_type info)) @ NL @
     ''CC Sub-type:  '' @ printf_nat (unat (cc_subtype info)) @ NL @
     ''Log Lenght:   0x'' @ printf_08zX (unat (log_len info)) @ NL @
     ''Log Address:  0x'' @ printf_08zX (unat (log_address info)) @ NL @
     NL"

definition print_acpi_table :: "bytes \<Rightarrow> acpi_table_info \<Rightarrow> string" where
  "print_acpi_table ccel_data info = print_hex_dump_with_ascii ccel_data @ acpi_fields (length ccel_data) info"

text \<open>What \<open>parse_acpi_table\<close> prints, whether it accepts the table or not.\<close>

definition acpi_text :: "bytes \<Rightarrow> string option" where
  "acpi_text d =
     (if length d < 56 then Some []
      else do {
        info \<leftarrow> parse_acpi_table d;
        Some (case info of
            None \<Rightarrow> ''Error: Invalid CCEL signature'' @ NL
          | Some i \<Rightarrow> print_acpi_table d i)
      })"


section \<open>The dump of a log\<close>

definition rems_text :: "rem_t list \<Rightarrow> string" where
  "rems_text rems = concat (map (\<lambda>(i, r).
     NL @ ''==== REM['' @ printf_nat i @ ''] ===='' @ NL @ print_hex_dump (rem_data r) 0) (enumerate 0 rems))"

abbreviation (input) REPLAY_TITLE :: string where
  "REPLAY_TITLE \<equiv> NL @ ''=> Replay Rolling Hash - REM'' @ NL"

definition replay_text :: "(nat \<Rightarrow> bool) \<Rightarrow> sha_fun \<Rightarrow> event_log \<Rightarrow> string option" where
  "replay_text malloc_ok sha log =
     (case firmware_log_state_create malloc_ok of
        None \<Rightarrow> Some (REPLAY_TITLE @ ''Error: Failed to create firmware state'' @ NL)
      | Some state \<Rightarrow> do {
          rems \<leftarrow> replay_pass malloc_ok sha (log_blob log) (\<lambda>ty. ty = 0x3) 0 (map rem_init (log_rems log));
          rems \<leftarrow> replay_pass malloc_ok sha (log_blob log) (\<lambda>ty. ty \<noteq> 0x3) 0 rems;
          (success, state) \<leftarrow> firmware_log_state_extract malloc_ok (log_blob log) state;
          fw \<leftarrow> (if success then firmware_log_state_print (Some state)
                else Some (''Warning: Failed to extract complete firmware state'' @ NL));
          Some (REPLAY_TITLE @ rems_text rems @ fw)
        })"

definition event_log_dump_text :: "(nat \<Rightarrow> bool) \<Rightarrow> sha_fun \<Rightarrow> event_log \<Rightarrow> string option" where
  "event_log_dump_text malloc_ok sha log = do {
     evs \<leftarrow> event_log_text malloc_ok log;
     rems \<leftarrow> replay_text malloc_ok sha log;
     Some (''Event log base: 0x'' @ printf_zX (log_base log) @ '', length: 0x'' @ printf_zX (log_length log) @ NL @
       ''Actual data size: '' @ printf_nat (blob_length (log_blob log)) @ '' bytes'' @ NL @ NL @
       evs @ NL @ rems)
   }"

text \<open>The result of \<open>handle_eventlogs_command\<close> and what it prints.\<close>

definition eventlogs_text :: "('c, 'x, 'k) env \<Rightarrow> files \<Rightarrow> (int \<times> string) option" where
  "eventlogs_text env fs =
     (case read_file_data_binary (e_malloc env) (e_io env) fs CCEL_ACPI_TABLE_PATH of
        None \<Rightarrow> Some (1, [])
      | Some d \<Rightarrow> do {
          table \<leftarrow> acpi_text d;
          info \<leftarrow> parse_acpi_table d;
          case info of
            None \<Rightarrow> Some (1, table)
          | Some i \<Rightarrow>
              (case event_log_init (read_file_data_binary (e_malloc env) (e_io env) fs CCEL_EVENT_LOG_PATH)
                      (unat (log_address i)) of
                 None \<Rightarrow> Some (1, table @ ''Error: Failed to initialize event log'' @ NL)
               | Some log \<Rightarrow> do {
                   t \<leftarrow> event_log_dump_text (e_malloc env) (e_sha env) log;
                   Some (0, table @ t)
                 })
        })"


section \<open>The text belongs to the run\<close>

lemma event_text_loop_process:
  assumes "event_text_loop malloc_ok b base pos k = Some t"
  shows "\<exists>n. event_log_process_loop malloc_ok b pos c = Some n"
proof -
  let ?P = "\<lambda>mo b base pos k t. \<forall>c. \<exists>n. event_log_process_loop mo b pos c = Some n"
  have "?P malloc_ok b base pos k t"
  proof (rule event_text_loop.raw_induct [where P = ?P, OF _ assms], intro allI, goal_cases)
    case (1 loop mo b base pos k y c)
    then show ?case
      by (subst event_log_process_loop.simps)
        (auto split: bind_splits prod.splits if_splits dest!: entry_text_reads)
  qed
  then show ?thesis by blast
qed

lemma replay_text_of_run:
  assumes "event_log_replay malloc_ok sha log = Some (ok, log')" "firmware_log_state_create malloc_ok = Some st"
    and "firmware_log_state_extract malloc_ok (log_blob log) st = Some (True, st')"
    and "firmware_log_state_print (Some st') = Some fw"
  shows "replay_text malloc_ok sha log = Some (REPLAY_TITLE @ rems_text (log_rems log') @ fw)"
  using assms unfolding event_log_replay_def replay_text_def Let_def
  by (auto split: bind_splits)

lemma replay_text_run:
  "replay_text malloc_ok sha log = Some t \<Longrightarrow> \<exists>r. event_log_replay malloc_ok sha log = Some r"
  unfolding event_log_replay_def replay_text_def Let_def
  by (auto split: bind_splits option.splits)

lemma eventlogs_text_run:
  assumes "eventlogs_text env fs = Some (r, t)"
  shows "handle_eventlogs_command env fs = Some r"
  using assms unfolding eventlogs_text_def handle_eventlogs_command_def event_log_dump_text_def event_log_text_def
    event_log_dump_def event_log_process_def
  by (auto split: bind_splits option.splits prod.splits
      dest!: event_text_loop_process [where c = 0] replay_text_run)


section \<open>A well-formed table\<close>

definition ccel_table :: "acpi_table_info \<Rightarrow> bytes \<Rightarrow> bytes \<Rightarrow> bytes \<Rightarrow> bytes \<Rightarrow> bytes" where
  "ccel_table i a b c rest =
     bytes_of_string ''CCEL'' @ a @ [revision i, checksum i] @ oem_id i @ b @ [cc_type i, cc_subtype i] @ c @
     word_bytes (log_len i) @ word_bytes (log_address i) @ rest"

lemma ccel_table_parses:
  assumes "length a = 4" "length (oem_id i) = 6" "length b = 20" "length c = 2"
  shows "parse_acpi_table (ccel_table i a b c rest) = Some (Some i)" "56 \<le> length (ccel_table i a b c rest)"
  using assms
  by (simp_all add: parse_acpi_table_def ccel_table_def mem_read_def mem_at_def nth_append bytes_of_string_def le_simps)

lemma print_hex_dump_with_ascii_rows:
  "d \<noteq> [] \<Longrightarrow> print_hex_dump_with_ascii d = ''=> Read CCEL ACPI Table'' @ NL @ hex_rows 0 0 d"
  using print_hex_dump_rows [of d 0] by (simp add: print_hex_dump_with_ascii_def print_hex_dump_def)

text \<open>What is shown of a log at an address: its events, the final registers and the measured boot.\<close>

definition log_report :: "sha_fun \<Rightarrow> nat \<Rightarrow> nat \<Rightarrow> tcg_event list \<Rightarrow> string" where
  "log_report sha base len evs =
     ''Event log base: 0x'' @ printf_zX base @ '', length: 0x'' @ printf_zX len @ NL @
     ''Actual data size: '' @ printf_nat len @ '' bytes'' @ NL @ NL @
     ''=> Read Event Log Data - Address: 0x'' @ printf_zX base @ ''(0x'' @ printf_zX len @ '')'' @ NL @
     log_sections base 0 evs @ NL @
     REPLAY_TITLE @
     rems_text (map (\<lambda>i. foldl (update_rem sha) \<lparr>rem_data = replicate 32 0\<rparr> (concat (map (event_extends i) evs))) [0..<REM_COUNT]) @
     view_text TPM_ALG_SHA256 (view_of (map entry_of evs))"

lemma view_wf_hashes: "view_wf v \<Longrightarrow> \<forall>h \<in> set (view_hashes v). length h = 32"
  by (auto simp: view_wf_def view_hashes_def list_all_iff List.map_filter_def split: option.splits)

lemma event_log_dump_text_enc:
  assumes init: "event_log_init (Some (enc_log evs @ t)) base = Some log"
    and evs: "list_all ev_ok evs" "list_all spec_id_ok evs" "length evs < 2 ^ 32" "list_all printable evs"
    and t: "log_end t" "base + length (enc_log evs @ t) < 2 ^ 64"
    and m: "\<And>n. malloc_ok n"
  shows "event_log_dump_text malloc_ok sha log = Some (log_report sha base (length (enc_log evs @ t)) evs)"
proof -
  let ?es = "map entry_of evs"
  have l: "length (enc_log evs @ t) < 2 ^ 64" using t(2) by simp
  have es: "log_entries malloc_ok (log_blob log) 0 = Some ?es"
    using log_entries_enc_log [OF init_blob_at(1) [OF init l] t(1) evs(1) m] .
  have ok: "list_all entry_ok ?es"
    using evs by (auto simp: list_all_iff intro!: entry_of_ok)
  obtain st where st: "firmware_log_state_create malloc_ok = Some st"
    using m by (simp add: firmware_log_state_create_def)
  obtain st' where x: "firmware_log_state_extract malloc_ok (log_blob log) st = Some (True, st')"
      "hash_algo st' = TPM_ALG_SHA256" "holds_view st' (view_of ?es)"
    using firmware_log_state_extract_refines [OF es ok _ m st] evs(3) by auto
  have fw: "firmware_log_state_print (Some st') = Some (view_text TPM_ALG_SHA256 (view_of ?es))"
    using firmware_state_text [OF x(3) view_wf_hashes [OF view_of_wf [OF ok]]] x(2) by simp
  note r = replay_text_of_run [OF event_log_replay_enc [where malloc_ok = malloc_ok, OF init evs(1-3) t(1) l m] st x(1) fw]
  have b: "log_base log = base" "log_length log = length (enc_log evs @ t)" "blob_length (log_blob log) = length (enc_log evs @ t)"
    using init by (auto simp: event_log_init_def binary_blob_init_def split: if_splits)
  show ?thesis
    using event_log_sections [OF init evs(1,4) t m] r
    by (simp add: event_log_dump_text_def log_report_def b)
qed


section \<open>Properties\<close>

text \<open>
  C30. What \<open>client -e\<close> shows: with an ACPI table at any address and a log file that encodes
  well-formed events, the command succeeds and prints the bytes of the table in rows and its
  fields; one section for each event in order, with its number, the address of its first byte
  counted from the address in the table, register, type, length, algorithms or first digest, and all its
  bytes; the hash chain of each register; and the boot the log describes.
\<close>

theorem eventlogs_command_shows:
  assumes tab: "read_file_data_binary (e_malloc env) (e_io env) fs CCEL_ACPI_TABLE_PATH = Some (ccel_table i a b c rest)"
    and lens: "length a = 4" "length (oem_id i) = 6" "length b = 20" "length c = 2"
    and logf: "read_file_data_binary (e_malloc env) (e_io env) fs CCEL_EVENT_LOG_PATH = Some (enc_log evs @ t)"
    and evs: "evs \<noteq> []" "list_all ev_ok evs" "list_all spec_id_ok evs" "length evs < 2 ^ 32" "list_all printable evs"
    and t: "log_end t" "unat (log_address i) + length (enc_log evs @ t) < 2 ^ 64"
    and m: "\<And>n. e_malloc env n"
  shows "handle_eventlogs_command env fs = Some 0 \<and>
    eventlogs_text env fs = Some (0, ''=> Read CCEL ACPI Table'' @ NL @ hex_rows 0 0 (ccel_table i a b c rest) @
      acpi_fields (length (ccel_table i a b c rest)) i @
      log_report (e_sha env) (unat (log_address i)) (length (enc_log evs @ t)) evs)"
proof -
  let ?d = "ccel_table i a b c rest"
  note p = ccel_table_parses [OF lens, of rest]
  have "enc_log evs @ t \<noteq> []" using evs(1,2) ev_ok_length by (cases evs) fastforce+
  then obtain log where log: "event_log_init (Some (enc_log evs @ t)) (unat (log_address i)) = Some log"
    by (auto simp: event_log_init_def binary_blob_init_def)
  have "?d \<noteq> []" using p(2) by auto
  then have "eventlogs_text env fs = Some (0, ''=> Read CCEL ACPI Table'' @ NL @ hex_rows 0 0 ?d @
      acpi_fields (length ?d) i @ log_report (e_sha env) (unat (log_address i)) (length (enc_log evs @ t)) evs)"
    using p event_log_dump_text_enc [where malloc_ok = "e_malloc env" and sha = "e_sha env", OF log evs(2-5) t m]
    by (simp add: eventlogs_text_def tab logf log acpi_text_def print_acpi_table_def print_hex_dump_with_ascii_rows del: append_assoc)
  then show ?thesis using eventlogs_text_run by blast
qed

definition demo_table :: acpi_table_info where
  "demo_table = \<lparr>revision = 1, checksum = 0x5A, oem_id = bytes_of_string ''OEMID1'', cc_type = 3, cc_subtype = 0,
     log_len = 0x1000, log_address = 0x40000000\<rparr>"

definition demo_dump_files :: files where
  "demo_dump_files = [''./ccel.bin'' \<mapsto> ccel_table demo_table (replicate 4 0) (replicate 20 0) [0, 0] [],
     ''./event_log.bin'' \<mapsto> enc_log sample_events]"

lemma demo_dump_files_read:
  "read_file_data_binary (e_malloc demo_env) (e_io demo_env) demo_dump_files ''./ccel.bin'' =
     Some (ccel_table demo_table (replicate 4 0) (replicate 20 0) [0, 0] [])"
  "read_file_data_binary (e_malloc demo_env) (e_io demo_env) demo_dump_files ''./event_log.bin'' = Some (enc_log sample_events @ [])"
  by (simp_all add: read_file_data_binary_def demo_dump_files_def demo_env_def)

theorem eventlogs_command_shows_witness:
  "handle_eventlogs_command demo_env demo_dump_files = Some 0 \<and>
   (\<exists>shown. eventlogs_text demo_env demo_dump_files = Some (0, shown @
      log_report (e_sha demo_env) 0x40000000 (length (enc_log sample_events)) sample_events))"
proof -
  have len: "length (replicate 4 (0::u8)) = 4" "length (oem_id demo_table) = 6" "length (replicate 20 (0::u8)) = 20" "length [0::u8, 0] = 2"
    by (simp_all add: demo_table_def bytes_of_string_def)
  have p: "list_all printable sample_events" by (simp add: sample_events_def get_digest_size_def)
  have ne: "sample_events \<noteq> []" by (simp add: sample_events_def)
  have a: "unat (log_address demo_table) = 0x40000000" by (simp add: demo_table_def)
  have "length (enc_log sample_events @ []) < 1000" by (simp add: sample_events_def)
  then have b: "unat (log_address demo_table) + length (enc_log sample_events @ []) < 2 ^ 64"
    unfolding a by (rule order.strict_trans [OF add_strict_left_mono]) simp
  have m: "e_malloc demo_env n" for n by (simp add: demo_env_def)
  note r = eventlogs_command_shows [OF demo_dump_files_read(1) len demo_dump_files_read(2) ne sample_events_ok(1,2,3) p
      sample_events_ok(6) b m, unfolded a append_Nil2]
  show ?thesis
  proof (rule conjI)
    show "\<exists>shown. eventlogs_text demo_env demo_dump_files = Some (0, shown @
      log_report (e_sha demo_env) 0x40000000 (length (enc_log sample_events)) sample_events)"
      using conjunct2 [OF r] by (metis append_assoc)
  qed (rule conjunct1 [OF r])
qed

end
