(* ===== verification/Host_Tls.thy ===== *)
theory Host_Tls
  imports Prelude
begin

text \<open>
  What the migration agent on the host calls, \<open>tls_core.c\<close> and \<open>tmi.c\<close> of \<open>virtcca-mig-agent\<close>: a TLS
  session with certificates on both sides, and the device of the monitor.

  OpenSSL is the record \<open>openssl\<close>, with a configuration of type \<open>'c\<close> and a session of type \<open>'s\<close>; the
  kernel's side of a request to the device is a function on the command, whose data have the type the
  request has. A \<open>NULL\<close> handle is \<^term>\<open>None\<close>. The pointer to the session in a handle says whether it was
  ever set and whether it was freed, since using or freeing it then is undefined.
\<close>

section \<open>The TLS session\<close>

datatype tls_err =
  TLS_ERR_OK | TLS_ERR_INIT_FAILED | TLS_ERR_NEGOTIATE_FAILED | TLS_ERR_RECEIVE_FAILED | TLS_ERR_TRANSMIT_FAILED |
  TLS_ERR_CLEANUP_FAILED

text \<open>The value of the enumeration, where the callers keep it in an \<open>int\<close>.\<close>

primrec tls_code :: "tls_err \<Rightarrow> int" where
  "tls_code TLS_ERR_OK = 0"
| "tls_code TLS_ERR_INIT_FAILED = 1"
| "tls_code TLS_ERR_NEGOTIATE_FAILED = 2"
| "tls_code TLS_ERR_RECEIVE_FAILED = 3"
| "tls_code TLS_ERR_TRANSMIT_FAILED = 4"
| "tls_code TLS_ERR_CLEANUP_FAILED = 5"

record tls_conf =
  cert_file :: string
  key_file :: string
  ca_cert_file :: "string option"
  verify_peer :: int
  tls_flags :: u64

abbreviation (input) VIRTCCA_TLS_CONF_FLAGS_SERVER :: u64 where "VIRTCCA_TLS_CONF_FLAGS_SERVER \<equiv> 2"

datatype 's ssl_ptr = Ssl_unset | Ssl_null | Ssl_freed | Ssl 's

record ('c, 's) tls_core_context =
  tls_config :: tls_conf
  ssl_ctx :: 'c
  ssl :: "'s ssl_ptr"

type_synonym ('c, 's) tls_handle = "('c, 's) tls_core_context option"

text \<open>
  What the callback sees of the certificate it is asked about: the time from the start and from the
  end of its validity until now in days and seconds, as \<open>ASN1_TIME_diff\<close> gives them, its issuer, and
  the issuer of the own certificate.
\<close>

record x509_ctx =
  since_not_before :: "(int \<times> int) option"
  since_not_after :: "(int \<times> int) option"
  cert_issuer :: string
  own_issuer :: string

text \<open>
  \<open>SSL_read\<close> returns the bytes read or an error, a number that is not positive; \<open>SSL_accept\<close> and
  \<open>SSL_connect\<close> are \<open>ssl_handshake\<close> with the role.
\<close>

record ('c, 's) openssl =
  ssl_ctx_new :: "bool \<Rightarrow> 'c option"
  use_certificate_file :: "string \<Rightarrow> 'c \<Rightarrow> int \<times> 'c"
  use_private_key_file :: "string \<Rightarrow> 'c \<Rightarrow> int \<times> 'c"
  load_verify_locations :: "string \<Rightarrow> 'c \<Rightarrow> int \<times> 'c"
  set_verify :: "(int \<Rightarrow> x509_ctx \<Rightarrow> int) \<Rightarrow> 'c \<Rightarrow> 'c"
  ssl_new :: "'c \<Rightarrow> 's option"
  ssl_handshake :: "bool \<Rightarrow> int \<Rightarrow> 's \<Rightarrow> int \<times> 's"
  ssl_read :: "int \<Rightarrow> 's \<Rightarrow> (int + bytes) \<times> 's"
  ssl_write :: "int \<Rightarrow> bytes \<Rightarrow> 's \<Rightarrow> int \<times> 's"

definition verify_callback :: "int \<Rightarrow> x509_ctx \<Rightarrow> int" where
  "verify_callback preverify_ok x =
     (if preverify_ok = 0 then 0
      else case since_not_before x of
          None \<Rightarrow> 0
        | Some (day, sec) \<Rightarrow>
            if day < 0 \<or> sec < 0 then 0
            else case since_not_after x of
                None \<Rightarrow> 0
              | Some (day, sec) \<Rightarrow>
                  if day > 0 \<or> sec > 0 then 0
                  else if cert_issuer x \<noteq> own_issuer x then 0
                  else 1)"

text \<open>
  \<open>virtcca_tls_init\<close> returns the error and what it leaves in \<open>*handle\<close>, which held \<open>h\<close>. The block of 64
  bytes is not cleared.
\<close>

definition virtcca_tls_init ::
    "(nat \<Rightarrow> bool) \<Rightarrow> ('c, 's) openssl \<Rightarrow> tls_conf \<Rightarrow> ('c, 's) tls_handle \<Rightarrow> tls_err \<times> ('c, 's) tls_handle" where
  "virtcca_tls_init malloc_ok lib conf h =
     (case ssl_ctx_new lib (tls_flags conf AND VIRTCCA_TLS_CONF_FLAGS_SERVER \<noteq> 0) of
        None \<Rightarrow> (TLS_ERR_INIT_FAILED, h)
      | Some c \<Rightarrow>
          let (r, c) = use_certificate_file lib (cert_file conf) c in
          if r \<le> 0 then (TLS_ERR_INIT_FAILED, h)
          else let (r, c) = use_private_key_file lib (key_file conf) c in
          if r \<le> 0 then (TLS_ERR_INIT_FAILED, h)
          else
            let (r, c) =
              (if verify_peer conf = 0 then (1, c)
               else
                 let (r, c) = (case ca_cert_file conf of None \<Rightarrow> (1, c) | Some f \<Rightarrow> load_verify_locations lib f c) in
                 if r \<le> 0 then (r, c) else (1, set_verify lib verify_callback c)) in
            if r \<le> 0 then (TLS_ERR_INIT_FAILED, h)
            else if \<not> malloc_ok 64 then (TLS_ERR_INIT_FAILED, None)
            else (TLS_ERR_OK, Some \<lparr>tls_config = conf, ssl_ctx = c, ssl = Ssl_unset\<rparr>))"

definition virtcca_tls_negotiate ::
    "('c, 's) openssl \<Rightarrow> ('c, 's) tls_handle \<Rightarrow> int \<Rightarrow> tls_err \<times> ('c, 's) tls_handle" where
  "virtcca_tls_negotiate lib handle fd =
     (case handle of
        None \<Rightarrow> (TLS_ERR_NEGOTIATE_FAILED, None)
      | Some h \<Rightarrow>
          if fd < 0 then (TLS_ERR_NEGOTIATE_FAILED, Some h)
          else case ssl_new lib (ssl_ctx h) of
              None \<Rightarrow> (TLS_ERR_NEGOTIATE_FAILED, Some (h\<lparr>ssl := Ssl_null\<rparr>))
            | Some s \<Rightarrow>
                let (err, s) = ssl_handshake lib (tls_flags (tls_config h) AND VIRTCCA_TLS_CONF_FLAGS_SERVER \<noteq> 0) fd s in
                if err \<noteq> 1 then (TLS_ERR_NEGOTIATE_FAILED, Some (h\<lparr>ssl := Ssl_freed\<rparr>))
                else (TLS_ERR_OK, Some (h\<lparr>ssl := Ssl s\<rparr>)))"

text \<open>The transfers on a live session; the sizes are converted to \<open>int\<close>.\<close>

definition int_of_size :: "nat \<Rightarrow> int" where
  "int_of_size n = sint (of_nat n :: u32)"

lemma int_of_size_small: "n < 2 ^ 31 \<Longrightarrow> int_of_size n = int n"
  unfolding int_of_size_def by (intro signed_of_nat [THEN trans]) (simp_all add: signed_take_bit_int_eq_self)

definition ssl_receive :: "('c, 's) openssl \<Rightarrow> nat \<Rightarrow> 's \<Rightarrow> tls_err \<times> bytes \<times> 's" where
  "ssl_receive lib n s =
     (let (r, s) = ssl_read lib (int_of_size n) s in
      case r of
        Inl _ \<Rightarrow> (TLS_ERR_RECEIVE_FAILED, [], s)
      | Inr d \<Rightarrow> if d = [] then (TLS_ERR_RECEIVE_FAILED, [], s) else (TLS_ERR_OK, d, s))"

definition ssl_transmit :: "('c, 's) openssl \<Rightarrow> bytes \<Rightarrow> 's \<Rightarrow> tls_err \<times> nat \<times> 's" where
  "ssl_transmit lib bs s =
     (let (len, s) = ssl_write lib (int_of_size (length bs)) bs s in
      if len \<le> 0 then (TLS_ERR_TRANSMIT_FAILED, length bs, s) else (TLS_ERR_OK, nat len, s))"

definition virtcca_tls_receive ::
    "('c, 's) openssl \<Rightarrow> ('c, 's) tls_handle \<Rightarrow> nat \<Rightarrow> (tls_err \<times> bytes \<times> ('c, 's) tls_handle) option" where
  "virtcca_tls_receive lib handle n =
     (case handle of
        None \<Rightarrow> Some (TLS_ERR_RECEIVE_FAILED, [], None)
      | Some h \<Rightarrow>
          (case ssl h of
             Ssl s \<Rightarrow> let (e, d, s) = ssl_receive lib n s in Some (e, d, Some (h\<lparr>ssl := Ssl s\<rparr>))
           | _ \<Rightarrow> None))"

definition virtcca_tls_transmit ::
    "('c, 's) openssl \<Rightarrow> ('c, 's) tls_handle \<Rightarrow> bytes \<Rightarrow> (tls_err \<times> nat \<times> ('c, 's) tls_handle) option" where
  "virtcca_tls_transmit lib handle bs =
     (case handle of
        None \<Rightarrow> Some (TLS_ERR_TRANSMIT_FAILED, length bs, None)
      | Some h \<Rightarrow>
          (case ssl h of
             Ssl s \<Rightarrow> let (e, n, s) = ssl_transmit lib bs s in Some (e, n, Some (h\<lparr>ssl := Ssl s\<rparr>))
           | _ \<Rightarrow> None))"

text \<open>\<open>SSL_free\<close> accepts a null pointer.\<close>

definition virtcca_tls_cleanup :: "('c, 's) tls_handle \<Rightarrow> tls_err option" where
  "virtcca_tls_cleanup handle =
     (case handle of
        None \<Rightarrow> Some TLS_ERR_CLEANUP_FAILED
      | Some h \<Rightarrow> (case ssl h of Ssl_unset \<Rightarrow> None | Ssl_freed \<Rightarrow> None | _ \<Rightarrow> Some TLS_ERR_OK))"


section \<open>The device of the monitor\<close>

text \<open>A command with its data, and the kernel's side of \<open>ioctl\<close> for a type of data.\<close>

record 'a virtcca_tmi_cmd =
  cmd_id :: u32
  cmd_flags :: u32
  cmd_data :: 'a
  cmd_ret_val :: u64

type_synonym ('a, 'd) ioc = "int \<Rightarrow> 'a virtcca_tmi_cmd \<Rightarrow> 'd \<Rightarrow> int \<times> 'a virtcca_tmi_cmd \<times> 'd"

abbreviation (input) VIRTCCA_TMI_GET_NOTIFY :: u32 where "VIRTCCA_TMI_GET_NOTIFY \<equiv> 1"
abbreviation (input) VIRTCCA_GET_MIGVM_MEM_CHECKSUM :: u32 where "VIRTCCA_GET_MIGVM_MEM_CHECKSUM \<equiv> 2"
abbreviation (input) VIRTCCA_GET_DSTVM_RD :: u32 where "VIRTCCA_GET_DSTVM_RD \<equiv> 3"
abbreviation (input) VIRTCCA_GET_MIG_KEY :: u32 where "VIRTCCA_GET_MIG_KEY \<equiv> 4"
abbreviation (input) VIRTCCA_SET_MIG_KEY :: u32 where "VIRTCCA_SET_MIG_KEY \<equiv> 5"

text \<open>A context is its file descriptor; \<open>open\<close> gives \<open>fd\<close>.\<close>

type_synonym tmi_ctx = "int option"

definition tmi_new_ctx :: "(nat \<Rightarrow> bool) \<Rightarrow> int \<Rightarrow> tmi_ctx" where
  "tmi_new_ctx malloc_ok fd = (if \<not> malloc_ok 4 then None else if fd = -1 then None else Some fd)"

text \<open>
  \<open>virtcca_tmi_ioctl\<close> follows its context without a test. It returns the result, the return value of the
  command, which is stored in both cases, and the data.
\<close>

definition virtcca_tmi_ioctl :: "('a, 'd) ioc \<Rightarrow> tmi_ctx \<Rightarrow> u32 \<Rightarrow> u32 \<Rightarrow> 'a \<Rightarrow> 'd \<Rightarrow> (int \<times> u64 \<times> 'a \<times> 'd) option" where
  "virtcca_tmi_ioctl ioc ctx cid flags data d = do {
     fd \<leftarrow> ctx;
     let (ret, cmd, d) = ioc fd \<lparr>cmd_id = cid, cmd_flags = flags, cmd_data = data, cmd_ret_val = 0\<rparr> d;
     Some (if ret \<noteq> 0 then -1 else 0, cmd_ret_val cmd, cmd_data cmd, d)
   }"


section \<open>What a session promises\<close>

text \<open>
  The callback accepts a certificate exactly when OpenSSL accepted it, it is within its validity and it
  has the issuer of the own certificate.
\<close>

lemma verify_callback_accepts:
  "verify_callback ok x = 1 \<longleftrightarrow> ok \<noteq> 0 \<and> cert_issuer x = own_issuer x \<and>
     (\<exists>d s. since_not_before x = Some (d, s) \<and> 0 \<le> d \<and> 0 \<le> s) \<and>
     (\<exists>d s. since_not_after x = Some (d, s) \<and> d \<le> 0 \<and> s \<le> 0)"
  by (auto simp: verify_callback_def split: option.splits)

text \<open>
  What OpenSSL documents of a verifying configuration: a completed handshake means that the peer
  presented certificates and that the callback returned 1 for each of them. \<open>certs\<close> are the
  certificates of the chain a session was negotiated with.
\<close>

definition openssl_verifies :: "('c, 's) openssl \<Rightarrow> ('s \<Rightarrow> x509_ctx list) \<Rightarrow> bool" where
  "openssl_verifies lib certs \<longleftrightarrow>
     (\<forall>f c s server fd s'. ssl_new lib (set_verify lib f c) = Some s \<longrightarrow> ssl_handshake lib server fd s = (1, s') \<longrightarrow>
        certs s' \<noteq> [] \<and> (\<forall>x \<in> set (certs s'). \<exists>ok. f ok x = 1))"

definition trusted_cert :: "x509_ctx \<Rightarrow> bool" where
  "trusted_cert x \<longleftrightarrow> cert_issuer x = own_issuer x \<and>
     (\<exists>d s. since_not_before x = Some (d, s) \<and> 0 \<le> d \<and> 0 \<le> s) \<and>
     (\<exists>d s. since_not_after x = Some (d, s) \<and> d \<le> 0 \<and> s \<le> 0)"

definition trusted_peer :: "('s \<Rightarrow> x509_ctx list) \<Rightarrow> 's \<Rightarrow> bool" where
  "trusted_peer certs s \<longleftrightarrow> certs s \<noteq> [] \<and> (\<forall>x \<in> set (certs s). trusted_cert x)"

lemma virtcca_tls_init_ok:
  assumes "virtcca_tls_init malloc_ok lib conf h = (TLS_ERR_OK, h')" "verify_peer conf \<noteq> 0"
  shows "\<exists>c. h' = Some \<lparr>tls_config = conf, ssl_ctx = set_verify lib verify_callback c, ssl = Ssl_unset\<rparr>"
  using assms by (auto simp: virtcca_tls_init_def Let_def split: option.splits prod.splits if_splits)

lemma negotiate_ok:
  assumes "virtcca_tls_negotiate lib (Some h) fd = (TLS_ERR_OK, h')"
  shows "\<exists>s s'. ssl_new lib (ssl_ctx h) = Some s \<and> h' = Some (h\<lparr>ssl := Ssl s'\<rparr>) \<and> 0 \<le> fd \<and>
    ssl_handshake lib (tls_flags (tls_config h) AND VIRTCCA_TLS_CONF_FLAGS_SERVER \<noteq> 0) fd s = (1, s')"
  using assms by (auto simp: virtcca_tls_negotiate_def Let_def split: option.splits prod.splits if_splits)

lemma negotiated_peer_trusted:
  assumes "openssl_verifies lib certs" "verify_peer conf \<noteq> 0"
    and "virtcca_tls_init malloc_ok lib conf h = (TLS_ERR_OK, h1)" "virtcca_tls_negotiate lib h1 fd = (TLS_ERR_OK, h2)"
  shows "\<exists>c s. h2 = Some \<lparr>tls_config = conf, ssl_ctx = c, ssl = Ssl s\<rparr> \<and> trusted_peer certs s"
proof -
  obtain c where c: "h1 = Some \<lparr>tls_config = conf, ssl_ctx = set_verify lib verify_callback c, ssl = Ssl_unset\<rparr>"
    using virtcca_tls_init_ok [OF assms(3,2)] by blast
  obtain s s' server where s: "ssl_new lib (set_verify lib verify_callback c) = Some s"
    "h2 = Some \<lparr>tls_config = conf, ssl_ctx = set_verify lib verify_callback c, ssl = Ssl s'\<rparr>"
    "ssl_handshake lib server fd s = (1, s')"
    using negotiate_ok [OF assms(4) [unfolded c]] by auto
  have "certs s' \<noteq> []" "\<forall>x \<in> set (certs s'). \<exists>ok. verify_callback ok x = 1"
    using assms(1) s(1,3) unfolding openssl_verifies_def by blast+
  then show ?thesis using s(2) by (auto simp: trusted_peer_def trusted_cert_def verify_callback_accepts)
qed

text \<open>
  A handle is live when its session was negotiated and not freed. Transfers are defined exactly on
  live and null handles and keep them live.
\<close>

definition live :: "('c, 's) tls_handle \<Rightarrow> bool" where
  "live handle \<longleftrightarrow> (\<exists>h s. handle = Some h \<and> ssl h = Ssl s)"

lemma receive_live:
  "live h \<Longrightarrow> virtcca_tls_receive lib h n \<noteq> None"
  "virtcca_tls_receive lib h n = Some (e, d, h') \<Longrightarrow> live h \<longleftrightarrow> live h'"
  by (auto simp: live_def virtcca_tls_receive_def Let_def split: option.splits ssl_ptr.splits prod.splits)

lemma transmit_live:
  "live h \<Longrightarrow> virtcca_tls_transmit lib h bs \<noteq> None"
  "virtcca_tls_transmit lib h bs = Some (e, n, h') \<Longrightarrow> live h \<longleftrightarrow> live h'"
  by (auto simp: live_def virtcca_tls_transmit_def Let_def split: option.splits ssl_ptr.splits prod.splits)

lemma negotiate_live: "virtcca_tls_negotiate lib h fd = (TLS_ERR_OK, h') \<Longrightarrow> live h'"
  by (auto simp: live_def virtcca_tls_negotiate_def Let_def split: option.splits prod.splits if_splits)

lemma cleanup_live: "live h \<Longrightarrow> virtcca_tls_cleanup h = Some TLS_ERR_OK"
  by (auto simp: live_def virtcca_tls_cleanup_def)


section \<open>Handles without a session\<close>

text \<open>
  A handle whose negotiation never happened holds whatever the allocation left in its session, and one
  whose handshake failed holds a freed session; cleaning up either frees that pointer.
\<close>

lemma cleanup_before_negotiation:
  assumes "virtcca_tls_init malloc_ok lib conf h = (TLS_ERR_OK, h')"
  shows "virtcca_tls_cleanup h' = None"
  using assms
  by (auto simp: virtcca_tls_init_def virtcca_tls_cleanup_def Let_def split: option.splits prod.splits if_splits)

lemma cleanup_after_failed_handshake:
  assumes "ssl_new lib (ssl_ctx h) = Some s" "fst (ssl_handshake lib server fd s) \<noteq> 1" "0 \<le> fd"
    and "server = (tls_flags (tls_config h) AND VIRTCCA_TLS_CONF_FLAGS_SERVER \<noteq> 0)"
  shows "\<exists>h'. virtcca_tls_negotiate lib (Some h) fd = (TLS_ERR_NEGOTIATE_FAILED, h') \<and> virtcca_tls_cleanup h' = None"
  using assms by (auto simp: virtcca_tls_negotiate_def virtcca_tls_cleanup_def Let_def split: prod.splits)

lemma ioctl_without_context: "virtcca_tmi_ioctl ioc None cid flags data d = None"
  by (simp add: virtcca_tmi_ioctl_def)

end
