(* ===== verification/Ima_Measure.thy ===== *)
theory Ima_Measure
  imports Utils Rem
begin

text \<open>
  The IMA check of the migration agent, \<open>migcvm-agent/src/attest/ima_measure.c\<close>: the binary
  measurement list of the kernel is read entry by entry, the digest of every measured file is
  looked up in a list of admissible digests, and the PCR the entries extend is recomputed and
  compared with the attested value.

  The open file is the list of bytes still to be read. The event structure is shared by all
  entries, so what an entry does not set is left over from the one before; a member that was
  never set is \<^term>\<open>None\<close>. Parameters: \<open>sha1\<close> and \<open>sha\<close> (SHA-1 and SHA-256 of OpenSSL, \<^term>\<open>None\<close> on failure),
  \<open>md_size\<close> (the size of a digest OpenSSL knows by name) and \<open>sys\<close> (the status of a shell command).
\<close>

abbreviation SHA_DIGEST_LENGTH :: nat where "SHA_DIGEST_LENGTH \<equiv> 20"
abbreviation TCG_EVENT_NAME_LEN_MAX :: nat where "TCG_EVENT_NAME_LEN_MAX \<equiv> 255"
abbreviation IMA_TEMPLATE_DATA_MAX_LEN :: nat where "IMA_TEMPLATE_DATA_MAX_LEN \<equiv> 4160"
abbreviation CRYPTO_MAX_ALG_NAME :: nat where "CRYPTO_MAX_ALG_NAME \<equiv> 64"
abbreviation ERROR_ENTRY_PARSING :: int where "ERROR_ENTRY_PARSING \<equiv> 1"
abbreviation ERROR_FIELD_NOT_FOUND :: int where "ERROR_FIELD_NOT_FOUND \<equiv> 2"

section \<open>Events and files\<close>

record ima_event =
  ev_pcr :: u32
  ev_digest :: bytes
  ev_name_len :: nat
  ev_name :: string
  ev_data_len :: nat
  ev_data :: bytes
  ev_file_digest :: bytes
  ev_file_digest_len :: "nat option"

text \<open>\<open>fread (buf, n, 1, fp)\<close>: the bytes when one item was read, and what is left of the file.\<close>

definition fread :: "nat \<Rightarrow> bytes \<Rightarrow> bytes option \<times> bytes" where
  "fread n fp = (if n = 0 then (None, fp)
     else if n \<le> length fp then (Some (take n fp), drop n fp) else (None, []))"

text \<open>What the global table of templates holds as format of its last entry.\<close>

datatype sig_fmt = SigFmt | NameFmt | DanglingFmt

datatype field = FD | FN | FD_NG | FN_NG | FSIG

definition field_of :: "string \<Rightarrow> field option" where
  "field_of f = (if f = ''d'' then Some FD else if f = ''n'' then Some FN
     else if f = ''d-ng'' then Some FD_NG else if f = ''n-ng'' then Some FN_NG
     else if f = ''sig'' then Some FSIG else None)"


section \<open>The parsers of the fields\<close>

text \<open>
  Each parser gets the bytes from the field on, the length of the field, and the digest
  members of the event, and returns a code and these members.
\<close>

type_synonym digest_mem = "bytes \<times> nat option"

definition ima_eventdigest_parse :: "bytes \<Rightarrow> nat \<Rightarrow> digest_mem \<Rightarrow> (int \<times> digest_mem) option" where
  "ima_eventdigest_parse buffer buflen dm =
     (if buflen < SHA_DIGEST_LENGTH then Some (-1, dm)
      else do { _ \<leftarrow> mem_read buffer 0 SHA_DIGEST_LENGTH; Some (0, dm) })"

definition strnlen :: "bytes \<Rightarrow> nat \<Rightarrow> nat" where
  "strnlen s n = length (takeWhile (\<lambda>b. b \<noteq> 0) (take n s))"

definition ima_eventdigest_ng_parse ::
    "(string \<Rightarrow> nat option) \<Rightarrow> bytes \<Rightarrow> nat \<Rightarrow> digest_mem \<Rightarrow> (int \<times> digest_mem) option" where
  "ima_eventdigest_ng_parse md_size buffer buflen dm =
     (if buflen > CRYPTO_MAX_ALG_NAME + 1 then Some (ERROR_ENTRY_PARSING, dm)
      else if strnlen buffer buflen \<le> 1 then Some (ERROR_ENTRY_PARSING, dm)
      else if 0 \<notin> set buffer then None
      else let algo_len = strnlen buffer buflen - 1 in
        case md_size (c_string (take algo_len buffer)) of
          None \<Rightarrow> Some (ERROR_ENTRY_PARSING, dm)
        | Some digest_len \<Rightarrow>
            if algo_len + 2 + digest_len \<noteq> buflen then Some (ERROR_ENTRY_PARSING, dm)
            else if digest_len > 64 then Some (ERROR_ENTRY_PARSING, dm)
            else do {
              d \<leftarrow> mem_read buffer (algo_len + 2) digest_len;
              fd \<leftarrow> mem_write (fst dm) 0 d;
              Some (0, fd, Some digest_len)
            })"

definition ima_parse_string :: "(nat \<Rightarrow> bool) \<Rightarrow> bytes \<Rightarrow> nat \<Rightarrow> int option" where
  "ima_parse_string malloc_ok buffer buflen =
     (if \<not> malloc_ok (buflen + 1) then Some (-12)
      else do { _ \<leftarrow> mem_read buffer 0 buflen; Some 0 })"

definition ima_eventname_parse ::
    "(nat \<Rightarrow> bool) \<Rightarrow> bytes \<Rightarrow> nat \<Rightarrow> digest_mem \<Rightarrow> (int \<times> digest_mem) option" where
  "ima_eventname_parse malloc_ok buffer buflen dm =
     (if buflen > TCG_EVENT_NAME_LEN_MAX + 1 then Some (-1, dm)
      else map_option (\<lambda>r. (r, dm)) (ima_parse_string malloc_ok buffer buflen))"

definition ima_eventname_ng_parse ::
    "(nat \<Rightarrow> bool) \<Rightarrow> bytes \<Rightarrow> nat \<Rightarrow> digest_mem \<Rightarrow> (int \<times> digest_mem) option" where
  "ima_eventname_ng_parse malloc_ok buffer buflen dm =
     map_option (\<lambda>r. (r, dm)) (ima_parse_string malloc_ok buffer buflen)"

definition ima_eventsig_parse :: "bytes \<Rightarrow> nat \<Rightarrow> digest_mem \<Rightarrow> (int \<times> digest_mem) option" where
  "ima_eventsig_parse buffer buflen dm = do { _ \<leftarrow> mem_read buffer 0 buflen; Some (0, dm) }"

definition field_parse ::
    "(nat \<Rightarrow> bool) \<Rightarrow> (string \<Rightarrow> nat option) \<Rightarrow> field \<Rightarrow> bytes \<Rightarrow> nat \<Rightarrow> digest_mem \<Rightarrow> (int \<times> digest_mem) option" where
  "field_parse malloc_ok md_size field =
     (case field of FD \<Rightarrow> ima_eventdigest_parse | FN \<Rightarrow> ima_eventname_parse malloc_ok
      | FD_NG \<Rightarrow> ima_eventdigest_ng_parse md_size | FN_NG \<Rightarrow> ima_eventname_ng_parse malloc_ok
      | FSIG \<Rightarrow> ima_eventsig_parse)"


section \<open>An entry\<close>

text \<open>The pieces \<open>strsep\<close> cuts a format into.\<close>

fun strsep_fields :: "string \<Rightarrow> string list" where
  "strsep_fields [] = [[]]"
| "strsep_fields (c # cs) = (if c = CHR ''|'' then [] # strsep_fields cs
     else case strsep_fields cs of [] \<Rightarrow> [[c]] | f # fs \<Rightarrow> (c # f) # fs)"

text \<open>\<open>strlen\<close> from an offset of a buffer; without a terminator it leaves the buffer.\<close>

definition strlen_at :: "bytes \<Rightarrow> nat \<Rightarrow> nat option" where
  "strlen_at data offset =
     (if 0 \<in> set (drop offset data) then Some (length (takeWhile (\<lambda>b. b \<noteq> 0) (drop offset data))) else None)"

text \<open>
  The length of the field at an offset and where its content starts. The fields of the \<open>ima\<close>
  template have no length of their own.
\<close>

definition field_bounds :: "bool \<Rightarrow> string \<Rightarrow> bytes \<Rightarrow> nat \<Rightarrow> (nat \<times> nat) option" where
  "field_bounds is_ima f data offset =
     (if is_ima \<and> f = ''d'' then Some (SHA_DIGEST_LENGTH, offset)
      else if is_ima \<and> f = ''n'' then map_option (\<lambda>n. (n, offset)) (strlen_at data offset)
      else map_option (\<lambda>bs. (le_nat bs, offset + 4)) (mem_read data offset 4))"

fun parse_fields ::
    "(nat \<Rightarrow> bool) \<Rightarrow> (string \<Rightarrow> nat option) \<Rightarrow> bool \<Rightarrow> bytes \<Rightarrow> nat \<Rightarrow> string list \<Rightarrow> nat \<Rightarrow> digest_mem
     \<Rightarrow> (int \<times> digest_mem) option" where
  "parse_fields malloc_ok md_size is_ima data len [] offset dm = Some (0, dm)"
| "parse_fields malloc_ok md_size is_ima data len (f # fs) offset dm =
     (case field_of f of
        None \<Rightarrow> Some (ERROR_FIELD_NOT_FOUND, dm)
      | Some field \<Rightarrow> do {
          (field_len, offset) \<leftarrow> field_bounds is_ima f data offset;
          if offset \<ge> len \<or> field_len > len - offset then Some (0, dm)
          else do {
            (result, dm) \<leftarrow> field_parse malloc_ok md_size field (drop offset data) field_len dm;
            if result \<noteq> 0 then Some (result, dm)
            else parse_fields malloc_ok md_size is_ima data len fs (offset + field_len) dm
          }
        })"

text \<open>
  The format of a template by name. A name that is not in the table replaces the format of the
  table's last entry by a pointer to the name in the event, for all entries to come.
\<close>

definition template_fmt :: "sig_fmt \<Rightarrow> string \<Rightarrow> (string \<times> sig_fmt) option" where
  "template_fmt st name =
     (if name = ''ima'' then Some (''d|n'', st)
      else if name = ''ima-ng'' then Some (''d-ng|n-ng'', st)
      else if name = ''ima-sig'' then
        (case st of SigFmt \<Rightarrow> Some (''d-ng|n-ng|sig'', st) | NameFmt \<Rightarrow> Some (name, st) | DanglingFmt \<Rightarrow> None)
      else Some (name, NameFmt))"

definition parse_template_data ::
    "(nat \<Rightarrow> bool) \<Rightarrow> (string \<Rightarrow> nat option) \<Rightarrow> sig_fmt \<Rightarrow> ima_event \<Rightarrow> (int \<times> sig_fmt \<times> ima_event) option" where
  "parse_template_data malloc_ok md_size st ev = do {
     (fmt, st) \<leftarrow> template_fmt st (ev_name ev);
     if \<not> malloc_ok (length fmt + 1) then Some (-12, st, ev)
     else do {
       (result, fd, fl) \<leftarrow> parse_fields malloc_ok md_size (ev_name ev = ''ima'') (ev_data ev) (ev_data_len ev)
                            (strsep_fields fmt) 0 (ev_file_digest ev, ev_file_digest_len ev);
       Some (result, st, ev\<lparr>ev_file_digest := fd, ev_file_digest_len := fl\<rparr>)
     }
   }"

definition read_template_data :: "(nat \<Rightarrow> bool) \<Rightarrow> ima_event \<Rightarrow> bytes \<Rightarrow> (int \<times> ima_event \<times> bytes) option" where
  "read_template_data malloc_ok ev fp =
     (if ev_name ev \<noteq> ''ima'' then
        (case fread 4 fp of
           (None, fp) \<Rightarrow> Some (-22, ev, fp)
         | (Some bs, fp) \<Rightarrow>
             let n = le_nat bs; ev = ev\<lparr>ev_data_len := n\<rparr> in
             if n > IMA_TEMPLATE_DATA_MAX_LEN then Some (-22, ev, fp)
             else if \<not> malloc_ok n then Some (-12, ev, fp)
             else (case fread n fp of
                     (None, fp) \<Rightarrow> Some (-1, ev, fp)
                   | (Some d, fp) \<Rightarrow> Some (0, ev\<lparr>ev_data := d\<rparr>, fp)))
      else
        let n = SHA_DIGEST_LENGTH + TCG_EVENT_NAME_LEN_MAX + 1; ev = ev\<lparr>ev_data_len := n\<rparr> in
        if \<not> malloc_ok n then Some (-12, ev, fp)
        else (case fread SHA_DIGEST_LENGTH fp of
                (None, fp) \<Rightarrow> Some (-1, ev, fp)
              | (Some d, fp) \<Rightarrow>
                  (case fread 4 fp of
                     (None, fp) \<Rightarrow> Some (-1, ev, fp)
                   | (Some bs, fp) \<Rightarrow>
                       if le_nat bs > TCG_EVENT_NAME_LEN_MAX then Some (-1, ev, fp)
                       else (case fread (le_nat bs) fp of
                               (None, fp) \<Rightarrow> Some (-1, ev, fp)
                             | (Some name, fp) \<Rightarrow> do {
                                 data \<leftarrow> mem_write (replicate n 0) 0 d;
                                 data \<leftarrow> mem_write data SHA_DIGEST_LENGTH name;
                                 Some (0, ev\<lparr>ev_data := data\<rparr>, fp)
                               }))))"

text \<open>
  The template digest is compared with SHA-1 of the template data, unless the event structure
  begins with 20 bytes 0xFF; these are the PCR number and 16 bytes of the digest.
\<close>

definition verify_template_hash :: "(bytes \<Rightarrow> bytes option) \<Rightarrow> ima_event \<Rightarrow> int" where
  "verify_template_hash sha1 ev =
     (if take SHA_DIGEST_LENGTH (word_bytes (ev_pcr ev) @ ev_digest ev) = replicate SHA_DIGEST_LENGTH 0xFF then 0
      else let local_digest = (case sha1 (ev_data ev) of None \<Rightarrow> replicate SHA_DIGEST_LENGTH 0 | Some d \<Rightarrow> d) in
        if local_digest = ev_digest ev then 0 else 1)"

definition grep_command :: "string \<Rightarrow> string \<Rightarrow> string" where
  "grep_command hex list_file =
     ''grep -E -i '' @ [CHR 0x22] @ ''^'' @ hex @ ''$'' @ [CHR 0x22] @ '' '' @ list_file @ '' > /dev/null''"

definition check_one_template ::
    "(nat \<Rightarrow> bool) \<Rightarrow> (string \<Rightarrow> nat option) \<Rightarrow> (bytes \<Rightarrow> bytes option) \<Rightarrow> sha_fun \<Rightarrow> (string \<Rightarrow> int) \<Rightarrow> string \<Rightarrow> bool
     \<Rightarrow> sig_fmt \<Rightarrow> ima_event \<Rightarrow> bytes \<Rightarrow> bytes \<Rightarrow> (int \<times> bytes \<times> sig_fmt \<times> ima_event \<times> bytes) option" where
  "check_one_template malloc_ok md_size sha1 sha sys digest_list_file verify st ev event_hash fp =
     (if ev_name_len ev > TCG_EVENT_NAME_LEN_MAX then Some (-1, event_hash, st, ev\<lparr>ev_name := []\<rparr>, fp)
      else case fread (ev_name_len ev) fp of
        (None, fp) \<Rightarrow> Some (-1, event_hash, st, ev\<lparr>ev_name := []\<rparr>, fp)
      | (Some name, fp) \<Rightarrow> do {
          (r, ev, fp) \<leftarrow> read_template_data malloc_ok (ev\<lparr>ev_name := c_string name\<rparr>) fp;
          if r < 0 then Some (-1, event_hash, st, ev, fp)
          else do {
            (r, st, ev) \<leftarrow> parse_template_data malloc_ok md_size st ev;
            if r \<noteq> 0 then Some (-1, event_hash, st, ev, fp)
            else do {
              n \<leftarrow> ev_file_digest_len ev;
              fd \<leftarrow> mem_read (ev_file_digest ev) 0 n;
              if length (grep_command (hex_string fd) digest_list_file) \<ge> 1024
              then Some (-1, event_hash, st, ev, fp)
              else if sys (grep_command (hex_string fd) digest_list_file) \<noteq> 0
              then Some (-1, event_hash, st, ev, fp)
              else case sha (ev_data ev) of
                None \<Rightarrow> Some (-1, event_hash, st, ev, fp)
              | Some h \<Rightarrow> Some (if verify then verify_template_hash sha1 ev else 0, h, st, ev, fp)
            }
          }
        })"


section \<open>The measurement list\<close>

definition read_header :: "bytes \<Rightarrow> ima_event \<Rightarrow> ima_event" where
  "read_header hdr ev = ev\<lparr>ev_pcr := word_of_bytes (take 4 hdr), ev_digest := take 20 (drop 4 hdr),
     ev_name_len := le_nat (take 4 (drop 24 hdr))\<rparr>"

lemma fread_length: "fread n fp = (r, fp') \<Longrightarrow> length fp' \<le> length fp"
  by (auto simp: fread_def split: if_splits)

lemma read_template_data_length:
  "read_template_data malloc_ok ev fp = Some (r, ev', fp') \<Longrightarrow> length fp' \<le> length fp"
  by (auto simp: read_template_data_def Let_def split: if_splits prod.splits option.splits bind_splits
      dest!: fread_length)

lemma check_one_template_length:
  "check_one_template malloc_ok md_size sha1 sha sys dl verify st ev h fp = Some (r, h', st', ev', fp') \<Longrightarrow>
   length fp' \<le> length fp"
  by (auto simp: check_one_template_def split: if_splits prod.splits option.splits bind_splits
      dest!: fread_length read_template_data_length)

function ima_loop ::
    "(nat \<Rightarrow> bool) \<Rightarrow> (string \<Rightarrow> nat option) \<Rightarrow> (bytes \<Rightarrow> bytes option) \<Rightarrow> sha_fun \<Rightarrow> (string \<Rightarrow> int) \<Rightarrow> string \<Rightarrow> bool
     \<Rightarrow> int \<Rightarrow> sig_fmt \<Rightarrow> ima_event \<Rightarrow> bytes \<Rightarrow> bytes \<Rightarrow> bytes \<Rightarrow> (int \<times> bytes \<times> sig_fmt) option" where
  "ima_loop malloc_ok md_size sha1 sha sys digest_list_file verify target st ev h pcr fp =
     (case fread 28 fp of
        (None, _) \<Rightarrow> Some (0, pcr, st)
      | (Some hdr, fp') \<Rightarrow>
          (case check_one_template malloc_ok md_size sha1 sha sys digest_list_file verify st
                  (read_header hdr ev) h fp' of
             None \<Rightarrow> None
           | Some (check_ret, h', st', ev', fp'') \<Rightarrow>
               if check_ret < 0 then Some (-1, pcr, st')
               else if target = -1 \<or> ev_pcr ev' = of_int target then
                 (case sha (pcr @ h') of
                    None \<Rightarrow> Some (-1, pcr, st')
                  | Some pcr' \<Rightarrow> ima_loop malloc_ok md_size sha1 sha sys digest_list_file verify target st' ev' h' pcr' fp'')
               else ima_loop malloc_ok md_size sha1 sha sys digest_list_file verify target st' ev' h' pcr fp''))"
  by pat_completeness auto

termination
  by (relation "measure (\<lambda>(_, _, _, _, _, _, _, _, _, _, _, _, fp). length fp)")
    (auto simp: fread_def split: if_splits dest!: check_one_template_length)

declare ima_loop.simps [simp del]

definition new_event :: ima_event where
  "new_event = \<lparr>ev_pcr = 0, ev_digest = [], ev_name_len = 0, ev_name = [], ev_data_len = 0, ev_data = [],
     ev_file_digest = replicate 64 0, ev_file_digest_len = None\<rparr>"

text \<open>When \<open>ima_measure\<close> returns, a pointer to the name in its event structure dangles.\<close>

definition after_return :: "sig_fmt \<Rightarrow> sig_fmt" where
  "after_return st = (if st = SigFmt then SigFmt else DanglingFmt)"

definition CLIENT_IMA_MEASUREMENTS_PATH :: string where
  "CLIENT_IMA_MEASUREMENTS_PATH = ''binary_runtime_measurements''"

definition ima_measure ::
    "(nat \<Rightarrow> bool) \<Rightarrow> (string \<Rightarrow> nat option) \<Rightarrow> (bytes \<Rightarrow> bytes option) \<Rightarrow> sha_fun \<Rightarrow> (string \<Rightarrow> int) \<Rightarrow> files
     \<Rightarrow> sig_fmt \<Rightarrow> bytes option \<Rightarrow> nat \<Rightarrow> string \<Rightarrow> bool \<Rightarrow> bool \<Rightarrow> int \<Rightarrow> (int \<times> sig_fmt) option" where
  "ima_measure malloc_ok md_size sha1 sha sys fs st reference reference_len digest_list_file validate verify target =
     (case fs CLIENT_IMA_MEASUREMENTS_PATH of
        None \<Rightarrow> Some (-1, st)
      | Some fp \<Rightarrow> do {
          (ret, pcr, st) \<leftarrow> ima_loop malloc_ok md_size sha1 sha sys digest_list_file verify target st new_event
                             (replicate 32 0) (replicate 32 0) fp;
          if ret < 0 then Some (ret, after_return st)
          else if validate then
            (case reference of
               None \<Rightarrow> Some (-1, after_return st)
             | Some ref \<Rightarrow>
                 if reference_len \<noteq> 32 then Some (-1, after_return st)
                 else do {
                   r \<leftarrow> mem_read ref 0 32;
                   Some (if pcr \<noteq> r then 1 else 0, after_return st)
                 })
          else Some (0, after_return st)
        })"



section \<open>Measurement lists the kernel writes\<close>

text \<open>
  An entry with the template \<open>ima-ng\<close>, or \<open>ima-sig\<close> when it has a signature (which may be empty),
  and its encoding.
\<close>

record ima_entry =
  ie_pcr :: u32
  ie_digest :: bytes
  ie_alg :: string
  ie_file_digest :: bytes
  ie_path :: string
  ie_sig :: "bytes option"

definition len_prefixed :: "bytes \<Rightarrow> bytes" where
  "len_prefixed bs = le_bytes 4 (length bs) @ bs"

definition ng_field :: "string \<Rightarrow> bytes \<Rightarrow> bytes" where
  "ng_field alg fd = bytes_of_string alg @ [0x3A, 0] @ fd"

definition entry_data :: "ima_entry \<Rightarrow> bytes" where
  "entry_data e = len_prefixed (ng_field (ie_alg e) (ie_file_digest e))
     @ len_prefixed (bytes_of_string (ie_path e) @ [0])
     @ (case ie_sig e of None \<Rightarrow> [] | Some s \<Rightarrow> len_prefixed s)"

definition entry_name :: "ima_entry \<Rightarrow> string" where
  "entry_name e = (if ie_sig e = None then ''ima-ng'' else ''ima-sig'')"

definition enc_entry :: "ima_entry \<Rightarrow> bytes" where
  "enc_entry e = word_bytes (ie_pcr e) @ ie_digest e @ len_prefixed (bytes_of_string (entry_name e))
     @ len_prefixed (entry_data e)"

definition entry_wf :: "(string \<Rightarrow> nat option) \<Rightarrow> ima_entry \<Rightarrow> bool" where
  "entry_wf md_size e = (length (ie_digest e) = 20 \<and> ie_alg e \<noteq> [] \<and> CHR 0x00 \<notin> set (ie_alg e)
     \<and> md_size (ie_alg e) = Some (length (ie_file_digest e)) \<and> length (ie_file_digest e) \<le> 64
     \<and> length (ng_field (ie_alg e) (ie_file_digest e)) \<le> CRYPTO_MAX_ALG_NAME + 1
     \<and> length (entry_data e) \<le> IMA_TEMPLATE_DATA_MAX_LEN)"

text \<open>Whether the list of admissible digests has the digest of the measured file.\<close>

definition listed :: "(string \<Rightarrow> int) \<Rightarrow> string \<Rightarrow> ima_entry \<Rightarrow> bool" where
  "listed sys digest_list_file e =
     (let c = grep_command (hex_string (ie_file_digest e)) digest_list_file in length c < 1024 \<and> sys c = 0)"

lemma fread_append: "length xs = n \<Longrightarrow> 0 < n \<Longrightarrow> fread n (xs @ ys) = (Some xs, ys)"
  by (auto simp: fread_def)

lemma fread_short: "length fp < n \<Longrightarrow> fread n fp = (None, [])"
  by (auto simp: fread_def)

lemma mem_read_len_prefixed:
  "length bs < 256 ^ 4 \<Longrightarrow> mem_read (pre @ len_prefixed bs @ post) (length pre) 4 = Some (le_bytes 4 (length bs))"
  by (simp add: mem_read_def len_prefixed_def)

lemma field_bounds_len_prefixed:
  assumes "length bs < 256 ^ 4"
  shows "field_bounds False f (pre @ len_prefixed bs @ post) (length pre) = Some (length bs, length pre + 4)"
  using mem_read_len_prefixed [OF assms] assms by (simp add: field_bounds_def le_nat_le_bytes)

lemma bytes_of_string_nonzero: "CHR 0x00 \<notin> set s \<Longrightarrow> 0 \<notin> set (bytes_of_string s)"
proof
  assume a: "CHR 0x00 \<notin> set s" "0 \<in> set (bytes_of_string s)"
  then obtain c where c: "c \<in> set s" "of_char c = (0 :: 8 word)" by (auto simp: bytes_of_string_def)
  have "c_string (bytes_of_string [c]) = [c]"
    using a(1) c(1) by (intro c_string_bytes_of_string) auto
  then show False using c(2) by (simp add: c_string_def bytes_of_string_def)
qed

lemma ng_field_parse:
  assumes "alg \<noteq> []" "CHR 0x00 \<notin> set alg" "md_size alg = Some (length fd)" "length fd \<le> 64"
    "length (ng_field alg fd) \<le> CRYPTO_MAX_ALG_NAME + 1" "length old = 64"
  shows "ima_eventdigest_ng_parse md_size (ng_field alg fd @ post) (length (ng_field alg fd)) (old, l) =
    Some (0, fd @ drop (length fd) old, Some (length fd))"
proof -
  have nz: "0 \<notin> set (bytes_of_string alg)" by (rule bytes_of_string_nonzero [OF assms(2)])
  have "takeWhile (\<lambda>b. b \<noteq> 0) (bytes_of_string alg @ 0x3A # 0 # fd) = bytes_of_string alg @ [0x3A]"
    using nz by (subst takeWhile_append2) auto
  then have n: "strnlen (ng_field alg fd @ post) (length (ng_field alg fd)) = length alg + 1"
    by (simp add: strnlen_def ng_field_def)
  have c: "c_string (take (length alg) (ng_field alg fd @ post)) = alg"
    using c_string_bytes_of_string [OF assms(2)] by (simp add: ng_field_def)
  have r: "mem_read (ng_field alg fd @ post) (length alg + 2) (length fd) = Some fd"
    by (simp add: mem_read_def ng_field_def)
  have w: "mem_write old 0 fd = Some (fd @ drop (length fd) old)"
    using assms(4,6) by (simp add: mem_write_def)
  have l: "length (ng_field alg fd) = length alg + 2 + length fd" "0 \<in> set (ng_field alg fd @ post)"
    by (simp_all add: ng_field_def)
  show ?thesis
    using assms(1,3,4,5) n c r w l by (simp add: ima_eventdigest_ng_parse_def)
qed

lemma le_nat_le_bytes4: "n < 2 ^ 32 \<Longrightarrow> le_nat (le_bytes 4 n) = n"
  by (rule le_nat_le_bytes) simp

lemma drop_len_prefixed: "drop (length pre + 4) (pre @ len_prefixed bs @ post) = bs @ post"
  by (simp add: len_prefixed_def)

lemma length_len_prefixed: "length (len_prefixed bs) = 4 + length bs"
  by (simp add: len_prefixed_def)

text \<open>A field that is as long as its prefix says is handed to its parser and passed over.\<close>

lemma parse_fields_step:
  assumes "data = pre @ len_prefixed bs @ post" "len = length data" "length bs < 256 ^ 4"
    and "field_of f = Some field" "bs \<noteq> []"
    and "field_parse malloc_ok md_size field (bs @ post) (length bs) dm = Some (0, dm')"
  shows "parse_fields malloc_ok md_size False data len (f # fs) (length pre) dm =
    parse_fields malloc_ok md_size False data len fs (length (pre @ len_prefixed bs)) dm'"
  using assms(4-6) field_bounds_len_prefixed [OF assms(3), of f pre post] drop_len_prefixed [of pre bs post]
  by (simp add: assms(1,2) length_len_prefixed add.assoc)

text \<open>A field with nothing behind its prefix ends the parsing, successfully.\<close>

lemma parse_fields_empty:
  assumes "data = pre @ len_prefixed []" "len = length data" "field_of f = Some field"
  shows "parse_fields malloc_ok md_size False data len (f # fs) (length pre) dm = Some (0, dm)"
  using assms(3) field_bounds_len_prefixed [of "[]" f pre "[]"]
  by (simp add: assms(1,2) length_len_prefixed)

lemma parse_entry:
  assumes "entry_wf md_size e" "\<And>n. malloc_ok n" "length old = 64"
  shows "parse_fields malloc_ok md_size False (entry_data e) (length (entry_data e))
      ([''d-ng'', ''n-ng''] @ (if ie_sig e = None then [] else [''sig''])) 0 (old, l) =
    Some (0, ie_file_digest e @ drop (length (ie_file_digest e)) old, Some (length (ie_file_digest e)))"
proof -
  define d where "d = ng_field (ie_alg e) (ie_file_digest e)"
  define n where "n = bytes_of_string (ie_path e) @ [0]"
  define sg where "sg = (case ie_sig e of None \<Rightarrow> [] | Some s \<Rightarrow> len_prefixed s)"
  let ?dm = "(ie_file_digest e @ drop (length (ie_file_digest e)) old, Some (length (ie_file_digest e)))"
  have data: "entry_data e = [] @ len_prefixed d @ len_prefixed n @ sg"
    "entry_data e = len_prefixed d @ len_prefixed n @ sg"
    by (simp_all add: entry_data_def d_def n_def sg_def)
  have lens: "length (entry_data e) \<le> 4160" using assms(1) by (simp add: entry_wf_def)
  then have small: "length d < 256 ^ 4" "length n < 256 ^ 4"
    by (simp_all add: data(2) length_len_prefixed)
  have f: "field_of ''d-ng'' = Some FD_NG" "field_of ''n-ng'' = Some FN_NG" "field_of ''sig'' = Some FSIG"
    by (simp_all add: field_of_def)
  have p1: "field_parse malloc_ok md_size FD_NG (d @ len_prefixed n @ sg) (length d) (old, l) = Some (0, ?dm)"
    using assms(1,3) unfolding field_parse_def d_def entry_wf_def by (simp add: ng_field_parse)
  have p2: "field_parse malloc_ok md_size FN_NG (n @ sg) (length n) dm = Some (0, dm)" for dm
    using assms(2) by (simp add: field_parse_def ima_eventname_ng_parse_def ima_parse_string_def mem_read_def)
  note s1 = parse_fields_step [OF data(1) refl small(1) f(1) _ p1]
  note s2 = parse_fields_step [OF data(2) refl small(2) f(2) _ p2]
  have s3: "parse_fields malloc_ok md_size False (entry_data e) (length (entry_data e)) [''sig'']
      (length (len_prefixed d @ len_prefixed n)) dm = Some (0, dm)" if "ie_sig e = Some s" for s dm
  proof (cases "s = []")
    case True
    then show ?thesis using that
      by (intro parse_fields_empty [OF _ refl f(3)]) (simp add: data(2) sg_def)
  next
    case False
    have d3: "entry_data e = (len_prefixed d @ len_prefixed n) @ len_prefixed s @ []"
      by (simp add: data(2) sg_def that)
    have "length s < 256 ^ 4" using lens by (simp add: d3 length_len_prefixed)
    moreover have "field_parse malloc_ok md_size FSIG (s @ []) (length s) dm = Some (0, dm)"
      by (simp add: field_parse_def ima_eventsig_parse_def mem_read_def)
    ultimately show ?thesis using parse_fields_step [OF d3 refl _ f(3) False, of malloc_ok md_size dm dm "[]"]
      by simp
  qed
  have "d \<noteq> []" "n \<noteq> []" by (simp_all add: d_def n_def ng_field_def)
  then show ?thesis using s1 s2 s3 by (cases "ie_sig e") simp_all
qed


text \<open>The event structure after an entry has been read into it.\<close>

definition event_of :: "ima_entry \<Rightarrow> ima_event \<Rightarrow> ima_event" where
  "event_of e ev = \<lparr>ev_pcr = ie_pcr e, ev_digest = ie_digest e, ev_name_len = length (entry_name e),
     ev_name = entry_name e, ev_data_len = length (entry_data e), ev_data = entry_data e,
     ev_file_digest = ie_file_digest e @ drop (length (ie_file_digest e)) (ev_file_digest ev),
     ev_file_digest_len = Some (length (ie_file_digest e))\<rparr>"

definition entry_header :: "ima_entry \<Rightarrow> bytes" where
  "entry_header e = word_bytes (ie_pcr e) @ ie_digest e @ le_bytes 4 (length (entry_name e))"

definition entry_body :: "ima_entry \<Rightarrow> bytes" where
  "entry_body e = bytes_of_string (entry_name e) @ len_prefixed (entry_data e)"

lemma enc_entry_parts: "enc_entry e = entry_header e @ entry_body e"
  by (simp add: enc_entry_def entry_header_def entry_body_def len_prefixed_def)

lemma entry_name_simps:
  "length (entry_name e) \<le> 7" "entry_name e \<noteq> []" "entry_name e \<noteq> ''ima''"
  "c_string (bytes_of_string (entry_name e)) = entry_name e"
  by (simp_all add: entry_name_def c_string_bytes_of_string)

lemma entry_header_length: "length (ie_digest e) = 20 \<Longrightarrow> length (entry_header e) = 28"
  by (simp add: entry_header_def)

lemma read_header_entry:
  assumes "length (ie_digest e) = 20"
  shows "read_header (entry_header e) ev =
    ev\<lparr>ev_pcr := ie_pcr e, ev_digest := ie_digest e, ev_name_len := length (entry_name e)\<rparr>"
proof -
  have "length (word_bytes (ie_pcr e)) = 4" by simp
  moreover have "word_of_bytes (word_bytes (ie_pcr e)) = ie_pcr e" by (rule word_of_bytes_word_bytes) simp
  moreover have "le_nat (le_bytes 4 (length (entry_name e))) = length (entry_name e)"
    using entry_name_simps(1) [of e] by (intro le_nat_le_bytes4) simp
  ultimately show ?thesis using assms by (simp add: read_header_def entry_header_def)
qed

lemma read_template_data_entry:
  assumes "ev_name ev = entry_name e" "\<And>n. malloc_ok n" "length (entry_data e) \<le> IMA_TEMPLATE_DATA_MAX_LEN"
  shows "read_template_data malloc_ok ev (len_prefixed (entry_data e) @ rest) =
    Some (0, ev\<lparr>ev_data_len := length (entry_data e), ev_data := entry_data e\<rparr>, rest)"
proof -
  have "le_nat (le_bytes 4 (length (entry_data e))) = length (entry_data e)"
    using assms(3) by (intro le_nat_le_bytes4) simp
  moreover have "0 < length (entry_data e)" by (simp add: entry_data_def len_prefixed_def)
  ultimately show ?thesis using assms entry_name_simps(3) [of e]
    by (simp add: read_template_data_def len_prefixed_def fread_append)
qed

lemma template_fmt_entry:
  "template_fmt SigFmt (entry_name e) =
     Some (if ie_sig e = None then ''d-ng|n-ng'' else ''d-ng|n-ng|sig'', SigFmt)"
  by (simp add: template_fmt_def entry_name_def)

lemma parse_template_data_entry:
  assumes "entry_wf md_size e" "\<And>n. malloc_ok n" "length (ev_file_digest ev) = 64"
    "ev_name ev = entry_name e" "ev_data ev = entry_data e" "ev_data_len ev = length (entry_data e)"
  shows "parse_template_data malloc_ok md_size SigFmt ev =
    Some (0, SigFmt, ev\<lparr>ev_file_digest := ie_file_digest e @ drop (length (ie_file_digest e)) (ev_file_digest ev),
      ev_file_digest_len := Some (length (ie_file_digest e))\<rparr>)"
proof -
  have f: "strsep_fields (if ie_sig e = None then ''d-ng|n-ng'' else ''d-ng|n-ng|sig'') =
      [''d-ng'', ''n-ng''] @ (if ie_sig e = None then [] else [''sig''])" by simp
  show ?thesis
    using parse_entry [of md_size e malloc_ok, OF assms(1,2,3)] assms(2-6) entry_name_simps(3) [of e]
    unfolding parse_template_data_def by (simp add: template_fmt_entry f del: strsep_fields.simps)
qed

lemma check_one_template_entry:
  assumes "entry_wf md_size e" "\<And>n. malloc_ok n" "length (ev_file_digest ev) = 64" "sha (entry_data e) = Some h'"
  shows "check_one_template malloc_ok md_size sha1 sha sys dl verify SigFmt (read_header (entry_header e) ev) h
      (entry_body e @ rest) =
    Some (if listed sys dl e
          then (if verify then verify_template_hash sha1 (event_of e ev) else 0, h', SigFmt, event_of e ev, rest)
          else (-1, h, SigFmt, event_of e ev, rest))"
proof -
  have w: "length (ie_digest e) = 20" "length (ie_file_digest e) \<le> 64"
    "length (entry_data e) \<le> IMA_TEMPLATE_DATA_MAX_LEN"
    using assms(1) by (simp_all add: entry_wf_def)
  let ?ev = "ev\<lparr>ev_pcr := ie_pcr e, ev_digest := ie_digest e, ev_name_len := length (entry_name e),
    ev_name := entry_name e\<rparr>"
  let ?ev' = "?ev\<lparr>ev_data_len := length (entry_data e), ev_data := entry_data e\<rparr>"
  have r: "read_template_data malloc_ok ?ev (len_prefixed (entry_data e) @ rest) = Some (0, ?ev', rest)"
    by (rule read_template_data_entry) (simp_all add: assms(2) w)
  have p: "parse_template_data malloc_ok md_size SigFmt ?ev' = Some (0, SigFmt, event_of e ev)"
    using parse_template_data_entry [of md_size e malloc_ok ?ev', OF assms(1,2)] assms(3)
    by (simp add: event_of_def)
  have m: "mem_read (ev_file_digest (event_of e ev)) 0 (length (ie_file_digest e)) = Some (ie_file_digest e)"
    by (simp add: event_of_def mem_read_def)
  have n: "length (entry_name e) \<le> 255" "0 < length (entry_name e)"
    "length (bytes_of_string (entry_name e)) = length (entry_name e)"
    using entry_name_simps(1,2) [of e] by simp_all
  have e: "ev_file_digest_len (event_of e ev) = Some (length (ie_file_digest e))" "ev_data (event_of e ev) = entry_data e"
    by (simp_all add: event_of_def)
  show ?thesis
    using r p m e assms(4) n fread_append [OF n(3,2), of "len_prefixed (entry_data e) @ rest"]
    by (simp add: check_one_template_def read_header_entry [OF w(1)] entry_body_def entry_name_simps(4)
        listed_def Let_def not_less)
qed

text \<open>What the entries of the chosen PCR make of it.\<close>

definition ima_chain :: "(bytes \<Rightarrow> bytes) \<Rightarrow> int \<Rightarrow> ima_entry list \<Rightarrow> bytes \<Rightarrow> bytes" where
  "ima_chain H target es pcr =
     foldl (\<lambda>pcr e. H (pcr @ H (entry_data e))) pcr (filter (\<lambda>e. target = -1 \<or> ie_pcr e = of_int target) es)"

lemma verify_template_hash_nonneg: "\<not> verify_template_hash sha1 ev < 0"
  by (simp add: verify_template_hash_def Let_def)

lemma ima_loop_entries:
  assumes "list_all (entry_wf md_size) es" "\<And>n. malloc_ok n" "\<And>m. sha m = Some (H m)" "length tail < 28"
    and "length (ev_file_digest ev) = 64"
  shows "\<exists>p. ima_loop malloc_ok md_size sha1 sha sys dl verify target SigFmt ev h pcr
      (concat (map enc_entry es) @ tail) =
    Some (if list_all (listed sys dl) es then (0, ima_chain H target es pcr, SigFmt) else (-1, p, SigFmt))"
  using assms(1,5)
proof (induction es arbitrary: ev h pcr)
  case Nil
  then show ?case using assms(4) by (subst ima_loop.simps) (simp add: fread_short ima_chain_def)
next
  case (Cons e es)
  let ?rest = "concat (map enc_entry es) @ tail"
  have e: "entry_wf md_size e" and es: "list_all (entry_wf md_size) es" using Cons.prems(1) by simp_all
  have l: "length (ie_digest e) = 20" "length (ie_file_digest e) \<le> 64" using e by (simp_all add: entry_wf_def)
  have hd: "fread 28 (concat (map enc_entry (e # es)) @ tail) = (Some (entry_header e), entry_body e @ ?rest)"
    using fread_append [of "entry_header e" 28 "entry_body e @ ?rest"] entry_header_length [OF l(1)]
    by (simp add: enc_entry_parts)
  note c = check_one_template_entry [of md_size e malloc_ok ev sha, OF e assms(2) Cons.prems(2) assms(3),
      of sha1 sys dl verify h ?rest]
  have ev: "length (ev_file_digest (event_of e ev)) = 64" using Cons.prems(2) l(2) by (simp add: event_of_def)
  have pcr: "ev_pcr (event_of e ev) = ie_pcr e" by (simp add: event_of_def)
  note IH = Cons.IH [OF es ev]
  show ?case
  proof (cases "listed sys dl e")
    case False
    then show ?thesis using hd c by (subst ima_loop.simps) simp
  next
    case True
    define p' where "p' = (if target = -1 \<or> ie_pcr e = of_int target then H (pcr @ H (entry_data e)) else pcr)"
    have "ima_loop malloc_ok md_size sha1 sha sys dl verify target SigFmt ev h pcr
        (concat (map enc_entry (e # es)) @ tail) =
      ima_loop malloc_ok md_size sha1 sha sys dl verify target SigFmt (event_of e ev) (H (entry_data e)) p' ?rest"
      unfolding p'_def using True hd c pcr verify_template_hash_nonneg [of sha1 "event_of e ev"] assms(3)
      by (subst ima_loop.simps) auto
    moreover have "ima_chain H target (e # es) pcr = ima_chain H target es p'" by (simp add: ima_chain_def p'_def)
    ultimately show ?thesis using IH [of "H (entry_data e)" p'] True by auto
  qed
qed


text \<open>
  C20. On a measurement list of \<open>ima-ng\<close> and \<open>ima-sig\<close> entries, with or without signature, the
  check of the migration agent gives exactly this verdict: \<open>-1\<close> if some measured file has a
  digest that the list of admissible digests does not contain, 1 if all are admissible but the
  attested value is not the SHA-256 chain over the template data of the entries of the chosen
  PCR, and 0 otherwise. A rest of the file that is shorter than a header is ignored, and so is
  the outcome of the comparison of template digests.
\<close>

theorem ima_measure_verdict:
  assumes "list_all (entry_wf md_size) es" "\<And>n. malloc_ok n" "\<And>m. sha m = Some (H m)" "length tail < 28"
    and "fs CLIENT_IMA_MEASUREMENTS_PATH = Some (concat (map enc_entry es) @ tail)" "length ref = 32"
  shows "ima_measure malloc_ok md_size sha1 sha sys fs SigFmt (Some ref) 32 digest_list_file True verify target =
    Some (if \<not> list_all (listed sys digest_list_file) es then -1
          else if ima_chain H target es (replicate 32 0) = ref then 0 else 1, SigFmt)"
proof -
  obtain p where "ima_loop malloc_ok md_size sha1 sha sys digest_list_file verify target SigFmt new_event
      (replicate 32 0) (replicate 32 0) (concat (map enc_entry es) @ tail) =
    Some (if list_all (listed sys digest_list_file) es then (0, ima_chain H target es (replicate 32 0), SigFmt)
          else (-1, p, SigFmt))"
    using ima_loop_entries [of md_size es malloc_ok sha H tail new_event sha1 sys digest_list_file verify target
        "replicate 32 0" "replicate 32 0", OF assms(1-4)] by (auto simp: new_event_def)
  then show ?thesis using assms(5,6)
    by (simp add: ima_measure_def after_return_def mem_read_def)
qed

definition ima_demo :: "ima_entry list" where
  "ima_demo = [\<lparr>ie_pcr = 10, ie_digest = replicate 20 1, ie_alg = ''sha256'', ie_file_digest = replicate 32 7,
       ie_path = ''/bin/sh'', ie_sig = None\<rparr>,
     \<lparr>ie_pcr = 4, ie_digest = replicate 20 2, ie_alg = ''sha256'', ie_file_digest = replicate 32 8,
       ie_path = ''/bin/ls'', ie_sig = Some []\<rparr>]"

definition ima_md_size :: "string \<Rightarrow> nat option" where
  "ima_md_size = [''sha256'' \<mapsto> 32, ''sha512'' \<mapsto> 64]"

definition ima_toy :: "bytes \<Rightarrow> bytes" where
  "ima_toy m = take 32 (m @ replicate 32 0)"

lemma ima_demo_wf: "list_all (entry_wf ima_md_size) ima_demo"
  by (simp add: ima_demo_def entry_wf_def ima_md_size_def ng_field_def entry_data_def len_prefixed_def)

theorem ima_measure_verdict_witness:
  "ima_measure (\<lambda>_. True) ima_md_size (\<lambda>_. None) (\<lambda>m. Some (ima_toy m)) (\<lambda>_. 0)
     [CLIENT_IMA_MEASUREMENTS_PATH \<mapsto> concat (map enc_entry ima_demo) @ [1, 2, 3]] SigFmt
     (Some (ima_chain ima_toy 10 ima_demo (replicate 32 0))) 32 ''digests'' True True 10 = Some (0, SigFmt)"
proof -
  have l: "length (ima_chain ima_toy 10 ima_demo (replicate 32 0)) = 32"
    by (simp add: ima_chain_def ima_demo_def ima_toy_def)
  have a: "list_all (listed (\<lambda>_. 0) ''digests'') ima_demo"
    by (simp add: ima_demo_def listed_def grep_command_def)
  show ?thesis
    using ima_measure_verdict [of ima_md_size ima_demo "\<lambda>_. True" "\<lambda>m. Some (ima_toy m)" ima_toy "[1, 2, 3]"
        "[CLIENT_IMA_MEASUREMENTS_PATH \<mapsto> concat (map enc_entry ima_demo) @ [1, 2, 3]]"
        "ima_chain ima_toy 10 ima_demo (replicate 32 0)" "\<lambda>_. None" "\<lambda>_. 0" "''digests''" True 10]
      ima_demo_wf l a by simp
qed


section \<open>Entries that are checked wrongly\<close>

text \<open>A SHA-512 digest is longer than the bound meant for the name of the algorithm.\<close>

lemma sha512_entry_refused:
  "length fd = 64 \<Longrightarrow>
   ima_eventdigest_ng_parse md_size (ng_field alg fd @ post) (length (ng_field alg fd)) dm = Some (1, dm)"
  by (simp add: ima_eventdigest_ng_parse_def ng_field_def)

text \<open>
  A first field that claims to be longer than the data ends the parsing without an error and
  without a digest, so that the digest of the entry before is looked up in its place.
\<close>

lemma oversized_field_accepted:
  assumes "4 \<le> length data" "length data - 4 < le_nat (take 4 data)" "field_of f = Some field"
  shows "parse_fields malloc_ok md_size False data (length data) (f # fs) 0 dm = Some (0, dm)"
  using assms by (simp add: field_bounds_def mem_read_def)

text \<open>A name that is no template changes the format of \<open>ima-sig\<close> for the entries that follow.\<close>

lemma unknown_template_breaks_ima_sig:
  assumes "name \<notin> {''ima'', ''ima-ng'', ''ima-sig''}" "template_fmt st name = Some (fmt, st')"
  shows "template_fmt st' ''ima-sig'' = Some (''ima-sig'', NameFmt)"
  using assms by (auto simp: template_fmt_def)

end
