(* ===== verification/Mig_Attest.thy ===== *)
theory Mig_Attest
  imports Sample_Client Ima_Measure
begin

text \<open>
  The attestation code of the migration agent, \<open>migcvm-agent/src/attest\<close>. It is a copy of the
  sources of the attestation samples; where the copy is the same code the definitions of the
  samples are used. This theory has what differs: the token parser, which here refuses a token
  when the software components cannot be allocated, the file helpers, the combination of the
  signature checks, and the verification callback of \<open>rats_tls_handler.c\<close> that uses them.
\<close>

section \<open>Parsing the token\<close>

definition mig_platform_claim ::
  "(nat \<Rightarrow> bool) \<Rightarrow> 'c qcbor \<Rightarrow> qitem \<Rightarrow> 'c \<Rightarrow> platform_claims \<Rightarrow> int \<Rightarrow>
   (u64 \<times> platform_claims \<times> int \<times> 'c) option"
where
  "mig_platform_claim malloc_ok q item ctx claim cnt =
     (let n = unat (val_uCount item) in
      if label_int64 item = 2399 \<and> uDataType item = QCBOR_TYPE_ARRAY \<and> \<not> malloc_ok (n * 80)
      then Some (VIRTCCA_ERROR, claim\<lparr>sw_comp_cnts := of_nat n\<rparr>, cnt, ctx)
      else platform_claim malloc_ok q item ctx claim cnt)"

partial_function (option) mig_platform_loop ::
  "(nat \<Rightarrow> bool) \<Rightarrow> 'c qcbor \<Rightarrow> 'c \<Rightarrow> platform_claims \<Rightarrow> int \<Rightarrow> (u64 \<times> platform_claims) option"
where
  "mig_platform_loop malloc_ok q ctx claim cnt =
     (let (item, ctx) = q_VGetNext q ctx; ret = q_GetError q ctx in
      if ret \<noteq> QCBOR_SUCCESS then
        Some (if ret = q_NO_MORE_ITEMS q
              then (if cnt \<noteq> 8 then VIRTCCA_ERROR else VIRTCCA_SUCCESS) else VIRTCCA_ERROR, claim)
      else if uLabelType item \<noteq> QCBOR_TYPE_INT64 then Some (VIRTCCA_ERROR, claim)
      else Option.bind (mig_platform_claim malloc_ok q item ctx claim cnt) (\<lambda>(st, claim, cnt, ctx).
        if st \<noteq> VIRTCCA_SUCCESS then Some (st, claim)
        else mig_platform_loop malloc_ok q ctx claim cnt))"

definition mig_parse_platform_claims ::
  "(nat \<Rightarrow> bool) \<Rightarrow> 'c qcbor \<Rightarrow> platform_claims \<Rightarrow> qbuf \<Rightarrow> (u64 \<times> platform_claims) option"
where
  "mig_parse_platform_claims malloc_ok q claim raw =
     (let (item, ctx) = q_VGetNext q (q_Init q raw) in
      if uDataType item \<noteq> QCBOR_TYPE_MAP then Some (VIRTCCA_ERROR, claim)
      else mig_platform_loop malloc_ok q ctx claim 0)"

definition mig_parse_platform_part ::
  "(nat \<Rightarrow> bool) \<Rightarrow> 'c qcbor \<Rightarrow> cca_token \<Rightarrow> qbuf \<Rightarrow> (u64 \<times> cca_token) option"
where
  "mig_parse_platform_part malloc_ok q token raw =
     (let token = token\<lparr>platform_cose := raw\<rparr>;
          (st, env) = parse_cose_sign1 q (platform_envelop token) raw;
          token = token\<lparr>platform_envelop := env\<rparr> in
      if st \<noteq> VIRTCCA_SUCCESS then Some (st, token)
      else do {
        (st, claims) \<leftarrow> mig_parse_platform_claims malloc_ok q (platform_token token) (payload env);
        Some (st, token\<lparr>platform_token := claims\<rparr>)
      })"

definition mig_parse_cca_attestation_token ::
  "(nat \<Rightarrow> bool) \<Rightarrow> 'c qcbor \<Rightarrow> cca_token \<Rightarrow> qbuf \<Rightarrow> (u64 \<times> cca_token) option"
where
  "mig_parse_cca_attestation_token malloc_ok q token raw_token =
     (let token = token\<lparr>platform_envelop := zero_envelop, platform_token := zero_platform,
                         platform_cose := NullBuf\<rparr>;
          (item, ctx) = q_VGetNext q (q_Init q raw_token) in
      if uDataType item \<noteq> QCBOR_TYPE_MAP \<or> (val_uCount item \<noteq> 1 \<and> val_uCount item \<noteq> 2) \<or>
         q_GetNthTag q ctx item 0 \<noteq> 399
      then Some (VIRTCCA_ERROR, token)
      else
        let (item, ctx) = q_VGetNext q ctx in
        if uDataType item = QCBOR_TYPE_BYTE_STRING \<and> label_int64 item = 44234 then
          do {
            (st, token) \<leftarrow> mig_parse_platform_part malloc_ok q token (val_string item);
            if st \<noteq> VIRTCCA_SUCCESS then Some (st, token)
            else
              let (item, ctx) = q_VGetNext q ctx in
              parse_cvm_part q token item ctx
          }
        else parse_cvm_part q token item ctx)"

text \<open>Where memory suffices, the copy parses exactly as the original does.\<close>

lemma mig_platform_claim_eq:
  "(\<And>n. malloc_ok n) \<Longrightarrow> mig_platform_claim malloc_ok q item ctx claim cnt = platform_claim malloc_ok q item ctx claim cnt"
  by (simp add: mig_platform_claim_def Let_def)

lemma mig_platform_loop_complete:
  assumes "platform_loop malloc_ok q ctx claim cnt = Some y" "\<And>n. malloc_ok n"
  shows "mig_platform_loop malloc_ok q ctx claim cnt = Some y"
proof -
  let ?P = "\<lambda>mo q ctx claim cnt y. (\<forall>n. mo n) \<longrightarrow> mig_platform_loop mo q ctx claim cnt = Some y"
  have "?P malloc_ok q ctx claim cnt y"
    by (rule platform_loop.raw_induct [where P = ?P, OF _ assms(1)], subst mig_platform_loop.simps)
      (auto simp: mig_platform_claim_eq Let_def split: prod.splits if_splits bind_splits)
  then show ?thesis using assms(2) by simp
qed

lemma mig_platform_loop_sound:
  assumes "mig_platform_loop malloc_ok q ctx claim cnt = Some y" "\<And>n. malloc_ok n"
  shows "platform_loop malloc_ok q ctx claim cnt = Some y"
proof -
  let ?P = "\<lambda>mo q ctx claim cnt y. (\<forall>n. mo n) \<longrightarrow> platform_loop mo q ctx claim cnt = Some y"
  have "?P malloc_ok q ctx claim cnt y"
  proof (rule mig_platform_loop.raw_induct [where P = ?P, OF _ assms(1)], intro impI, goal_cases)
    case (1 f mo q ctx claim cnt y)
    then have IH: "f mo q ctx claim cnt = Some y \<Longrightarrow> platform_loop mo q ctx claim cnt = Some y"
      for q ctx claim cnt y by blast
    have c: "mig_platform_claim mo = platform_claim mo"
      using 1(3) by (intro ext) (simp add: mig_platform_claim_eq)
    show ?case using 1(2) unfolding c
      by (subst platform_loop.simps) (auto simp: Let_def split: prod.splits if_splits bind_splits dest: IH)
  qed
  then show ?thesis using assms(2) by simp
qed

lemma mig_platform_loop_eq:
  assumes "\<And>n. malloc_ok n" shows "mig_platform_loop malloc_ok = platform_loop malloc_ok"
proof (intro ext)
  fix q ctx claim cnt
  show "mig_platform_loop malloc_ok q ctx claim cnt = platform_loop malloc_ok q ctx claim cnt"
    using assms mig_platform_loop_complete [of malloc_ok q ctx claim cnt]
      mig_platform_loop_sound [of malloc_ok q ctx claim cnt]
    by (cases "platform_loop malloc_ok q ctx claim cnt"; cases "mig_platform_loop malloc_ok q ctx claim cnt") auto
qed

lemma mig_parse_platform_claims_eq:
  "(\<And>n. malloc_ok n) \<Longrightarrow> mig_parse_platform_claims malloc_ok = parse_platform_claims malloc_ok"
  unfolding mig_parse_platform_claims_def [abs_def] parse_platform_claims_def [abs_def]
  by (simp only: mig_platform_loop_eq)

lemma mig_parse_platform_part_eq:
  "(\<And>n. malloc_ok n) \<Longrightarrow> mig_parse_platform_part malloc_ok = parse_platform_part malloc_ok"
  unfolding mig_parse_platform_part_def [abs_def] parse_platform_part_def [abs_def] Let_def
  by (simp only: mig_parse_platform_claims_eq)

lemma mig_parse_eq:
  "(\<And>n. malloc_ok n) \<Longrightarrow> mig_parse_cca_attestation_token malloc_ok = parse_cca_attestation_token malloc_ok"
  unfolding mig_parse_cca_attestation_token_def [abs_def] parse_cca_attestation_token_def [abs_def] Let_def
  by (simp only: mig_parse_platform_part_eq)


section \<open>Files\<close>

definition mig_read_file_data :: "(nat \<Rightarrow> bool) \<Rightarrow> (string \<Rightarrow> bool) \<Rightarrow> files \<Rightarrow> string option \<Rightarrow> bytes option" where
  "mig_read_file_data malloc_ok io_ok fs name =
     (case name of
        None \<Rightarrow> None
      | Some n \<Rightarrow>
          (case fs n of
             None \<Rightarrow> None
           | Some d \<Rightarrow> if \<not> malloc_ok (length d) then None else if \<not> io_ok n then None else Some d))"

definition mig_save_file_data ::
  "(string \<Rightarrow> bool) \<Rightarrow> (string \<Rightarrow> bool) \<Rightarrow> files \<Rightarrow> string \<Rightarrow> bytes \<Rightarrow> bool \<times> files"
where
  "mig_save_file_data open_ok io_ok fs name d =
     (if \<not> open_ok name then (False, fs)
      else if \<not> io_ok name then (False, fs(name \<mapsto> []))
      else (True, fs(name \<mapsto> d)))"


section \<open>The combined verdict\<close>

text \<open>
  As in the samples, every check clears a bit of \<open>ret_bits\<close>; which bits decide differs. There
  is no comparison of the CVM key with the key of the AIK certificate here.
\<close>

definition mig_verify_cca_token_signatures ::
  "(nat \<Rightarrow> bool) \<Rightarrow> 'c qcbor \<Rightarrow> ('x, 'k) crypto \<Rightarrow> (string \<Rightarrow> files \<Rightarrow> int \<times> files) \<Rightarrow> files \<Rightarrow>
   cert_info \<Rightarrow> qbuf \<Rightarrow> qbuf \<Rightarrow> qbuf \<Rightarrow> qbuf \<Rightarrow> qbuf \<Rightarrow> (bool \<times> files) option"
where
  "mig_verify_cca_token_signatures malloc_ok q lib sys fs ci plat_msg cvm_msg cvm_pk plat_chal pk_algo =
     do {
       root \<leftarrow> o_X509_new lib 0;
       sub \<leftarrow> o_X509_new lib 1;
       aik \<leftarrow> o_X509_new lib 2;
       let has_plat = qbuf_present plat_msg;
       let ret_bits = 0xFFFFFFFF;
       let index = 0;
       (ret_bits, index) \<leftarrow>
         (if has_plat then do {
            ret \<leftarrow> verify_pubkhash_challenge lib cvm_pk plat_chal pk_algo;
            Some (record_bit ret index ret_bits, index + 1)
          } else Some (ret_bits, index));
       ret \<leftarrow> verify_cvm_cose_sign malloc_ok q lib cvm_msg cvm_pk;
       let ret_bits = record_bit ret index ret_bits;
       let index = index + 1;
       let (ret, x509_aik) = read_x509_from_pem lib fs (cert_path_prefix ci) (aik_cert_filename ci) (Some aik);
       let ret_bits = record_bit ret index ret_bits;
       let index = index + 1;
       (ret_bits, index) \<leftarrow>
         (if has_plat then do {
            ret \<leftarrow> verify_plat_cose_sign malloc_ok q lib plat_msg x509_aik;
            Some (record_bit ret index ret_bits, index + 1)
          } else Some (ret_bits, index));
       let fs = fetch_cert sys fs (cert_path_prefix ci) (root_cert_filename ci) (root_cert_url ci);
       let (ret, x509_root) = read_x509_from_pem lib fs (cert_path_prefix ci) (root_cert_filename ci) (Some root);
       let ret_bits = record_bit ret index ret_bits;
       let index = index + 1;
       let fs = fetch_cert sys fs (cert_path_prefix ci) (sub_cert_filename ci) (sub_cert_url ci);
       let (ret, x509_sub) = read_x509_from_pem lib fs (cert_path_prefix ci) (sub_cert_filename ci) (Some sub);
       let ret_bits = record_bit ret index ret_bits;
       let index = index + 1;
       let ret = validate_aik_cert_chain lib x509_aik x509_sub x509_root;
       let ret_bits = record_bit ret index ret_bits;
       let passed = (has_plat \<longrightarrow> bit ret_bits 0 \<and> bit ret_bits 3);
       let passed = (passed \<and> bit ret_bits 1);
       let passed = (passed \<and> (if has_plat
                       then bit ret_bits 2 \<and> bit ret_bits 4 \<and> bit ret_bits 5 \<and> bit ret_bits 6
                       else bit ret_bits 1 \<and> bit ret_bits 2 \<and> bit ret_bits 3 \<and> bit ret_bits 4));
       Some (passed, fs)
     }"

text \<open>
  With a platform token every check takes part in the verdict. Without one the signature of the
  CVM token does not: its bit is 0, while the bits 1 to 4 decide.
\<close>

lemma mig_verdict_platform:
  assumes x: "o_X509_new lib 0 = Some root" "o_X509_new lib 1 = Some sub" "o_X509_new lib 2 = Some aik"
    and p: "qbuf_present plat_msg"
    and b: "verify_pubkhash_challenge lib cvm_pk plat_chal pk_algo = Some chal_ok"
    and c: "verify_cvm_cose_sign malloc_ok q lib cvm_msg cvm_pk = Some cvm_ok"
    and a: "read_x509_from_pem lib fs (cert_path_prefix ci) (aik_cert_filename ci) (Some aik) = (aik_ok, x509_aik)"
    and s: "verify_plat_cose_sign malloc_ok q lib plat_msg x509_aik = Some plat_ok"
    and f1: "fetch_cert sys fs (cert_path_prefix ci) (root_cert_filename ci) (root_cert_url ci) = fs1"
    and r: "read_x509_from_pem lib fs1 (cert_path_prefix ci) (root_cert_filename ci) (Some root) = (root_ok, x509_root)"
    and f2: "fetch_cert sys fs1 (cert_path_prefix ci) (sub_cert_filename ci) (sub_cert_url ci) = fs2"
    and u: "read_x509_from_pem lib fs2 (cert_path_prefix ci) (sub_cert_filename ci) (Some sub) = (sub_ok, x509_sub)"
  shows "mig_verify_cca_token_signatures malloc_ok q lib sys fs ci plat_msg cvm_msg cvm_pk plat_chal pk_algo =
    Some (chal_ok \<and> cvm_ok \<and> aik_ok \<and> plat_ok \<and> root_ok \<and> sub_ok
          \<and> validate_aik_cert_chain lib x509_aik x509_sub x509_root, fs2)"
  unfolding mig_verify_cca_token_signatures_def
  by (simp add: x x(2) [unfolded One_nat_def] p b c a s f1 f2 u r bit_record_bit bit_all_ones) blast

lemma mig_verdict_cvm_only:
  assumes x: "o_X509_new lib 0 = Some root" "o_X509_new lib 1 = Some sub" "o_X509_new lib 2 = Some aik"
    and p: "\<not> qbuf_present plat_msg"
    and c: "verify_cvm_cose_sign malloc_ok q lib cvm_msg cvm_pk = Some cvm_ok"
    and a: "read_x509_from_pem lib fs (cert_path_prefix ci) (aik_cert_filename ci) (Some aik) = (aik_ok, x509_aik)"
    and f1: "fetch_cert sys fs (cert_path_prefix ci) (root_cert_filename ci) (root_cert_url ci) = fs1"
    and r: "read_x509_from_pem lib fs1 (cert_path_prefix ci) (root_cert_filename ci) (Some root) = (root_ok, x509_root)"
    and f2: "fetch_cert sys fs1 (cert_path_prefix ci) (sub_cert_filename ci) (sub_cert_url ci) = fs2"
    and u: "read_x509_from_pem lib fs2 (cert_path_prefix ci) (sub_cert_filename ci) (Some sub) = (sub_ok, x509_sub)"
  shows "mig_verify_cca_token_signatures malloc_ok q lib sys fs ci plat_msg cvm_msg cvm_pk plat_chal pk_algo =
    Some (aik_ok \<and> root_ok \<and> sub_ok \<and> validate_aik_cert_chain lib x509_aik x509_sub x509_root, fs2)"
  unfolding mig_verify_cca_token_signatures_def
  by (simp add: x x(2) [unfolded One_nat_def] p c a f1 f2 u r bit_record_bit bit_all_ones)


section \<open>The verification callback\<close>

definition zero_cvm_claims :: cvm_claims where
  "zero_cvm_claims = \<lparr>challenge = NullBuf, rpv = NullBuf, rim = NullBuf, rem_claim = replicate 4 NullBuf,
     hash_algo_id = NullBuf, pub_key = NullBuf, pub_key_hash_algo_id = NullBuf\<rparr>"

definition zero_token :: cca_token where
  "zero_token = \<lparr>cvm_envelop = zero_envelop, cvm_cose = NullBuf, cvm_token = zero_cvm_claims,
     platform_envelop = zero_envelop, platform_cose = NullBuf, platform_token = zero_platform\<rparr>"

text \<open>
  \<open>cca_token_buf_t\<close>: 4096 bytes of token and its length. The length comes with the evidence and
  is not compared with the size of the buffer, so a larger one leaves it.
\<close>

type_synonym token_buf = "bytes \<times> nat"

definition token_buf_of_evidence :: "bytes \<Rightarrow> token_buf option" where
  "token_buf_of_evidence evidence = do {
     b \<leftarrow> mem_write (replicate 4104 0) 0 evidence;
     Some (take 4096 b, le_nat (drop 4096 b))
   }"

definition parse_token_buf :: "('c, 'x, 'k) env \<Rightarrow> token_buf \<Rightarrow> (u64 \<times> cca_token) option" where
  "parse_token_buf env tb = do {
     d \<leftarrow> mem_read (fst tb) 0 (snd tb);
     mig_parse_cca_attestation_token (e_malloc env) (e_qcbor env) zero_token (QBuf d)
   }"

definition user_callback ::
    "('c, 'x, 'k) env \<Rightarrow> bytes \<Rightarrow> nat \<Rightarrow> files \<Rightarrow> bytes \<Rightarrow> (bool \<times> files) option" where
  "user_callback env g_rim_ref g_rim_ref_size fs evidence =
     (if evidence = [] \<or> length evidence > 4104 then Some (False, fs)
      else do {
        tb \<leftarrow> token_buf_of_evidence evidence;
        (st, t) \<leftarrow> parse_token_buf env tb;
        if st \<noteq> VIRTCCA_SUCCESS then Some (False, fs)
        else do {
          let ci = configure_cert_info_by_type empty_cert_info
                     (detect_aik_cert_type (e_crypto env) fs (Some ''aik_cert.pem''));
          let has_platform = qbuf_present (platform_cose t);
          (ret, fs) \<leftarrow> mig_verify_cca_token_signatures (e_malloc env) (e_qcbor env) (e_crypto env) (e_sys env) fs ci
                        (if has_platform then platform_cose t else NullBuf) (cvm_cose t) (pub_key (cvm_token t))
                        (if has_platform then plat_challenge (platform_token t) else NullBuf)
                        (pub_key_hash_algo_id (cvm_token t));
          if \<not> ret then Some (False, fs)
          else do {
            ok \<leftarrow> buf_equals (rim (cvm_token t)) g_rim_ref g_rim_ref_size;
            Some (ok, fs)
          }
        }
      })"


text \<open>
  What acceptance means. In every case the three certificates are read from the files, after the
  root and the intermediate one were fetched when they are missing, and form a valid chain. With a
  platform token the challenge binds the CVM key and both signatures verify, the one of the
  platform with that AIK certificate.
\<close>

definition chain_of_files ::
    "('c, 'x, 'k) env \<Rightarrow> cert_info \<Rightarrow> files \<Rightarrow> 'x option \<Rightarrow> files \<Rightarrow> bool" where
  "chain_of_files env ci fs aik fs2 \<longleftrightarrow>
     (\<exists>a s r sub root fs1.
        read_x509_from_pem (e_crypto env) fs (cert_path_prefix ci) (aik_cert_filename ci) (Some a) = (True, aik) \<and>
        fs1 = fetch_cert (e_sys env) fs (cert_path_prefix ci) (root_cert_filename ci) (root_cert_url ci) \<and>
        read_x509_from_pem (e_crypto env) fs1 (cert_path_prefix ci) (root_cert_filename ci) (Some r) = (True, root) \<and>
        fs2 = fetch_cert (e_sys env) fs1 (cert_path_prefix ci) (sub_cert_filename ci) (sub_cert_url ci) \<and>
        read_x509_from_pem (e_crypto env) fs2 (cert_path_prefix ci) (sub_cert_filename ci) (Some s) = (True, sub) \<and>
        validate_aik_cert_chain (e_crypto env) aik sub root)"

definition platform_checks ::
    "('c, 'x, 'k) env \<Rightarrow> cca_token \<Rightarrow> 'x option \<Rightarrow> bool" where
  "platform_checks env t aik \<longleftrightarrow>
     verify_pubkhash_challenge (e_crypto env) (pub_key (cvm_token t)) (plat_challenge (platform_token t))
       (pub_key_hash_algo_id (cvm_token t)) = Some True \<and>
     verify_cvm_cose_sign (e_malloc env) (e_qcbor env) (e_crypto env) (cvm_cose t) (pub_key (cvm_token t)) = Some True \<and>
     verify_plat_cose_sign (e_malloc env) (e_qcbor env) (e_crypto env) (platform_cose t) aik = Some True"

lemma mig_verify_sound:
  assumes "mig_verify_cca_token_signatures (e_malloc env) (e_qcbor env) (e_crypto env) (e_sys env) fs ci
      plat_msg cvm_msg cvm_pk plat_chal pk_algo = Some (True, fs')"
  shows "\<exists>aik. chain_of_files env ci fs aik fs' \<and>
    (qbuf_present plat_msg \<longrightarrow>
      verify_pubkhash_challenge (e_crypto env) cvm_pk plat_chal pk_algo = Some True \<and>
      verify_cvm_cose_sign (e_malloc env) (e_qcbor env) (e_crypto env) cvm_msg cvm_pk = Some True \<and>
      verify_plat_cose_sign (e_malloc env) (e_qcbor env) (e_crypto env) plat_msg aik = Some True)"
proof -
  let ?lib = "e_crypto env"
  obtain root sub aik where x: "o_X509_new ?lib 0 = Some root" "o_X509_new ?lib 1 = Some sub" "o_X509_new ?lib 2 = Some aik"
    using assms(1) by (auto simp: mig_verify_cca_token_signatures_def split: bind_splits)
  obtain aik_ok x509_aik where a:
    "read_x509_from_pem ?lib fs (cert_path_prefix ci) (aik_cert_filename ci) (Some aik) = (aik_ok, x509_aik)" by force
  let ?fs1 = "fetch_cert (e_sys env) fs (cert_path_prefix ci) (root_cert_filename ci) (root_cert_url ci)"
  let ?fs2 = "fetch_cert (e_sys env) ?fs1 (cert_path_prefix ci) (sub_cert_filename ci) (sub_cert_url ci)"
  obtain root_ok x509_root where r:
    "read_x509_from_pem ?lib ?fs1 (cert_path_prefix ci) (root_cert_filename ci) (Some root) = (root_ok, x509_root)" by force
  obtain sub_ok x509_sub where u:
    "read_x509_from_pem ?lib ?fs2 (cert_path_prefix ci) (sub_cert_filename ci) (Some sub) = (sub_ok, x509_sub)" by force
  obtain c where c: "verify_cvm_cose_sign (e_malloc env) (e_qcbor env) ?lib cvm_msg cvm_pk = Some c"
    using assms(1) x by (auto simp: mig_verify_cca_token_signatures_def Let_def split: bind_splits)
  have chain: "chain_of_files env ci fs x509_aik ?fs2"
    if "aik_ok" "root_ok" "sub_ok" "validate_aik_cert_chain ?lib x509_aik x509_sub x509_root"
    unfolding chain_of_files_def using that a r u by simp blast
  show ?thesis
  proof (cases "qbuf_present plat_msg")
    case True
    then obtain b s where bs: "verify_pubkhash_challenge ?lib cvm_pk plat_chal pk_algo = Some b"
      "verify_plat_cose_sign (e_malloc env) (e_qcbor env) ?lib plat_msg x509_aik = Some s"
      using assms x a by (auto simp: mig_verify_cca_token_signatures_def Let_def split: bind_splits prod.splits)
    show ?thesis
      using mig_verdict_platform [OF x True bs(1) c a bs(2) refl r refl u] assms bs c chain by auto
  next
    case False
    then show ?thesis using mig_verdict_cvm_only [OF x False c a refl r refl u] assms chain by auto
  qed
qed

text \<open>Libraries that accept the certificate chain, and evidence holding the sample token, for evaluation.\<close>

definition chain_crypto :: "(unit, unit) crypto" where
  "chain_crypto = toy_crypto\<lparr>o_X509_verify_cert := (\<lambda>_ _ _. 1)\<rparr>"

definition chain_env :: "(qitem list \<times> u64, unit, unit) env" where
  "chain_env = demo_env\<lparr>e_crypto := chain_crypto\<rparr>"

definition sample_evidence :: bytes where
  "sample_evidence = replicate 4096 0 @ [1, 0, 0, 0, 0, 0, 0, 0]"

lemma sample_evidence_buf: "token_buf_of_evidence sample_evidence = Some (replicate 4096 0, 1)"
  by (simp add: token_buf_of_evidence_def sample_evidence_def mem_write_def)

lemma sample_evidence_parses:
  "parse_token_buf chain_env (replicate 4096 0, 1) = Some (0, sample_token)"
proof -
  have "parse_cca_attestation_token (\<lambda>_. True) (list_qcbor token_items) zero_token (QBuf [0]) = Some (VIRTCCA_SUCCESS,
     \<lparr>cvm_envelop = \<lparr>p_headers = val_string (bstr_item 0 [2]), np_headers = val_string empty_map_item,
                     payload = val_string (bstr_item 0 [3]), signature = val_string (bstr_item 0 [4])\<rparr>,
      cvm_cose = QBuf [1], cvm_token = cvm_of sample_content,
      platform_envelop = zero_envelop, platform_cose = NullBuf, platform_token = zero_platform\<rparr>)"
    by (rule parse_cvm_only_items [OF token_items_yield])
      (simp_all add: shuffled_fields_def sample_content_ok zero_token_def zero_cvm_claims_def list_qcbor_def
        token_items_def map_item_def cose_item_def)
  moreover have "mem_read (replicate 4096 (0 :: u8)) 0 1 = Some [0]" by (simp add: mem_read_def)
  ultimately show ?thesis
    by (simp add: parse_token_buf_def chain_env_def demo_env_def mig_parse_eq sample_token_def bstr_item_def empty_map_item_def)
qed

lemma chain_steps:
  "o_X509_new chain_crypto n = Some ()"
  "verify_cvm_cose_sign (\<lambda>_. True) q chain_crypto (QBuf [1]) (QBuf pk) = Some True"
  "validate_aik_cert_chain chain_crypto (Some ()) (Some ()) (Some ())"
  "detect_aik_cert_type chain_crypto toy_files (Some ''aik_cert.pem'') = CERT_TYPE_RSA"
  by (simp_all add: chain_crypto_def toy_defs verify_cvm_cose_sign_def init_signing_key_def load_pubkey_def
      final_signed_cose_def validate_aik_cert_chain_def x509_validate_signature_def detect_aik_cert_type_def)

lemma chain_reads:
  "read_x509_from_pem chain_crypto toy_files (cert_path_prefix toy_certs) (aik_cert_filename toy_certs) (Some ()) = (True, Some ())"
  "read_x509_from_pem chain_crypto toy_files (cert_path_prefix toy_certs) (root_cert_filename toy_certs) (Some ()) = (True, Some ())"
  "read_x509_from_pem chain_crypto toy_files (cert_path_prefix toy_certs) (sub_cert_filename toy_certs) (Some ()) = (True, Some ())"
  by (simp_all add: chain_crypto_def toy_defs)

lemma sample_evidence_accepted:
  "user_callback chain_env (replicate 32 3) 32 toy_files sample_evidence = Some (True, toy_files)"
proof -
  have c: "configure_cert_info_by_type empty_cert_info (detect_aik_cert_type chain_crypto toy_files (Some ''aik_cert.pem'')) = toy_certs"
    unfolding chain_steps(4) by (simp add: toy_certs_def empty_cert_info_def)
  have v: "mig_verify_cca_token_signatures (\<lambda>_. True) (list_qcbor token_items) chain_crypto (\<lambda>_ fs. (0, fs)) toy_files toy_certs
      NullBuf (QBuf [1]) (QBuf (replicate 550 8)) NullBuf (QBuf (bytes_of_string ''sha-256'')) =
      Some (True \<and> True \<and> True \<and> validate_aik_cert_chain chain_crypto (Some ()) (Some ()) (Some ()), toy_files)"
    by (rule mig_verdict_cvm_only [OF chain_steps(1) chain_steps(1) chain_steps(1) _ chain_steps(2) chain_reads(1)
        toy_file_steps(2) chain_reads(2) toy_file_steps(3) chain_reads(3)]) (simp add: qbuf_present_def)
  have b: "buf_equals (rim (cvm_token sample_token)) (replicate 32 3) 32 = Some True"
    by (simp add: buf_equals_def sample_token_def cvm_of_def sample_content_def mem_read_def)
  have t: "sample_evidence \<noteq> []" "length sample_evidence \<le> 4104" by (simp_all add: sample_evidence_def)
  show ?thesis
    using t v c b chain_steps(3) unfolding user_callback_def
    by (simp add: sample_evidence_buf sample_evidence_parses sample_evidence_parses [unfolded One_nat_def])
      (simp add: chain_env_def demo_env_def sample_token_def qbuf_present_def cvm_of_def sample_content_def)
qed

lemma user_callback_accepts:
  assumes "user_callback env g_rim_ref g_rim_ref_size fs evidence = Some (True, fs')"
  obtains tb t where "token_buf_of_evidence evidence = Some tb" "parse_token_buf env tb = Some (VIRTCCA_SUCCESS, t)"
    "buf_equals (rim (cvm_token t)) g_rim_ref g_rim_ref_size = Some True"
    "mig_verify_cca_token_signatures (e_malloc env) (e_qcbor env) (e_crypto env) (e_sys env) fs
       (configure_cert_info_by_type empty_cert_info (detect_aik_cert_type (e_crypto env) fs (Some ''aik_cert.pem'')))
       (if qbuf_present (platform_cose t) then platform_cose t else NullBuf) (cvm_cose t) (pub_key (cvm_token t))
       (if qbuf_present (platform_cose t) then plat_challenge (platform_token t) else NullBuf)
       (pub_key_hash_algo_id (cvm_token t)) = Some (True, fs')"
  using assms that unfolding user_callback_def Let_def by (auto split: bind_splits if_splits prod.splits)



end
