(* ===== verification/Sdk_Attestation.thy ===== *)
theory Sdk_Attestation
  imports Prelude
begin

text \<open>
  The attestation SDK, \<open>attestation/sdk/src/attestation.c\<close>. The TSI device is a kernel driver:
  its three \<open>ioctl\<close> requests are the fields of the argument \<open>dev\<close>, each giving the return code
  and what the driver wrote into the structure of the request. A NULL pointer argument is
  \<^term>\<open>None\<close>; the outer \<^term>\<open>None\<close> of a result is an access outside a buffer.
\<close>

abbreviation (input) TSI_SUCCESS :: int where "TSI_SUCCESS \<equiv> 0"
abbreviation (input) NULL_INPUT :: int where "NULL_INPUT \<equiv> 0x00010001"
abbreviation (input) INVALID_PARAM :: int where "INVALID_PARAM \<equiv> 0x00010002"
abbreviation (input) INSUFFICIENT_BUFFER_LEN :: int where "INSUFFICIENT_BUFFER_LEN \<equiv> 0x00010003"
abbreviation (input) TSI_ERROR :: int where "TSI_ERROR \<equiv> 0x00010005"
abbreviation (input) CHALLENGE_SIZE :: nat where "CHALLENGE_SIZE \<equiv> 64"
abbreviation (input) TOKEN_BUF_SIZE :: nat where "TOKEN_BUF_SIZE \<equiv> 8192"
abbreviation (input) MAX_DEV_CERT_SIZE :: nat where "MAX_DEV_CERT_SIZE \<equiv> 4096"

record tsi_ctx =
  fd :: int

record attestation_cmd =
  cmd_challenge :: bytes
  cmd_token :: bytes
  cmd_token_size :: nat

record dev_cert =
  cert_size :: nat
  cert_value :: bytes

record tsi_device =
  dev_open :: int
  dev_version :: "int \<Rightarrow> int \<times> int \<times> int"
  dev_token :: "int \<Rightarrow> attestation_cmd \<Rightarrow> int \<times> attestation_cmd"
  dev_get_cert :: "int \<Rightarrow> dev_cert \<Rightarrow> int \<times> dev_cert"

definition tsi_new_ctx :: "(nat \<Rightarrow> bool) \<Rightarrow> tsi_device \<Rightarrow> tsi_ctx option" where
  "tsi_new_ctx malloc_ok dev =
     (if \<not> malloc_ok 4 then None
      else if dev_open dev = - 1 then None
      else Some \<lparr>fd = dev_open dev\<rparr>)"

text \<open>The descriptors that are open, and what is left of them.\<close>

definition tsi_free_ctx :: "tsi_ctx option \<Rightarrow> int list \<Rightarrow> int list" where
  "tsi_free_ctx ctx fds = (case ctx of None \<Rightarrow> fds | Some c \<Rightarrow> removeAll (fd c) fds)"

definition get_version :: "tsi_device \<Rightarrow> tsi_ctx option \<Rightarrow> (int \<times> int) option \<Rightarrow> int \<times> (int \<times> int) option" where
  "get_version dev ctx out =
     (case (ctx, out) of
        (Some c, Some _) \<Rightarrow>
          let (ret, major, minor) = dev_version dev (fd c) in
          if ret \<noteq> 0 then (TSI_ERROR, out) else (TSI_SUCCESS, Some (major, minor))
      | _ \<Rightarrow> (NULL_INPUT, out))"

text \<open>
  \<open>token\<close> is the caller's buffer and \<open>token_len\<close> the value behind the pointer. The size in the
  command structure is what the driver wrote.
\<close>

definition get_attestation_token ::
  "tsi_device \<Rightarrow> tsi_ctx option \<Rightarrow> bytes option \<Rightarrow> nat \<Rightarrow> bytes option \<Rightarrow> nat option \<Rightarrow>
   (int \<times> bytes option \<times> nat option) option"
where
  "get_attestation_token dev ctx chal challenge_len token token_len =
     (case (ctx, chal, token, token_len) of
        (Some c, Some ch, Some tok, Some tlen) \<Rightarrow>
          if challenge_len > CHALLENGE_SIZE then Some (INVALID_PARAM, token, token_len)
          else do {
            ch \<leftarrow> mem_read ch 0 challenge_len;
            buf \<leftarrow> mem_write (replicate CHALLENGE_SIZE 0) 0 ch;
            let (ret, cmd) = dev_token dev (fd c)
                  \<lparr>cmd_challenge = buf, cmd_token = replicate TOKEN_BUF_SIZE 0, cmd_token_size = 0\<rparr>;
            if ret \<noteq> 0 then Some (TSI_ERROR, token, token_len)
            else if tlen < cmd_token_size cmd then Some (INSUFFICIENT_BUFFER_LEN, token, token_len)
            else do {
              t \<leftarrow> mem_read (cmd_token cmd) 0 (cmd_token_size cmd);
              tok \<leftarrow> mem_write tok 0 t;
              Some (TSI_SUCCESS, Some tok, Some (cmd_token_size cmd))
            }
          }
      | _ \<Rightarrow> Some (NULL_INPUT, token, token_len))"

definition get_dev_cert ::
  "tsi_device \<Rightarrow> tsi_ctx option \<Rightarrow> bytes option \<Rightarrow> nat option \<Rightarrow> (int \<times> bytes option \<times> nat option) option"
where
  "get_dev_cert dev ctx cert cert_len =
     (case (ctx, cert, cert_len) of
        (Some c, Some buf, Some len) \<Rightarrow>
          let (ret, dc) = dev_get_cert dev (fd c) \<lparr>cert_size = 0, cert_value = replicate MAX_DEV_CERT_SIZE 0\<rparr> in
          if ret \<noteq> 0 then Some (TSI_ERROR, cert, cert_len)
          else if cert_size dc > len then Some (INSUFFICIENT_BUFFER_LEN, cert, cert_len)
          else do {
            d \<leftarrow> mem_read (cert_value dc) 0 (cert_size dc);
            buf \<leftarrow> mem_write buf 0 d;
            Some (TSI_SUCCESS, Some buf, Some (cert_size dc))
          }
      | _ \<Rightarrow> Some (NULL_INPUT, cert, cert_len))"

text \<open>
  What the driver documents: the structures keep the size of their arrays and the sizes it
  reports fit into them.
\<close>

definition tsi_device_ok :: "tsi_device \<Rightarrow> bool" where
  "tsi_device_ok dev \<longleftrightarrow>
     (\<forall>h cmd. fst (dev_token dev h cmd) = 0 \<longrightarrow>
        length (cmd_token (snd (dev_token dev h cmd))) = TOKEN_BUF_SIZE \<and>
        cmd_token_size (snd (dev_token dev h cmd)) \<le> TOKEN_BUF_SIZE) \<and>
     (\<forall>h dc. fst (dev_get_cert dev h dc) = 0 \<longrightarrow>
        length (cert_value (snd (dev_get_cert dev h dc))) = MAX_DEV_CERT_SIZE \<and>
        cert_size (snd (dev_get_cert dev h dc)) \<le> MAX_DEV_CERT_SIZE)"

text \<open>The device sees the caller's challenge, padded with zeros to 64 bytes.\<close>

definition padded_challenge :: "bytes \<Rightarrow> bytes" where
  "padded_challenge ch = ch @ replicate (CHALLENGE_SIZE - length ch) 0"

lemma pad_write: "length ch \<le> 64 \<Longrightarrow> mem_write (replicate 64 0) 0 ch = Some (padded_challenge ch)"
  by (simp add: mem_write_def padded_challenge_def)

lemma get_attestation_token_cases:
  assumes ok: "tsi_device_ok dev" and c: "challenge_len \<le> length ch" "challenge_len \<le> 64"
    and b: "length tok = tlen"
    and d: "dev_token dev (fd c0) \<lparr>cmd_challenge = padded_challenge (take challenge_len ch),
              cmd_token = replicate 8192 0, cmd_token_size = 0\<rparr> = (ret, cmd)"
  shows "get_attestation_token dev (Some c0) (Some ch) challenge_len (Some tok) (Some tlen) = Some
     (if ret \<noteq> 0 then (TSI_ERROR, Some tok, Some tlen)
      else if tlen < cmd_token_size cmd then (INSUFFICIENT_BUFFER_LEN, Some tok, Some tlen)
      else (TSI_SUCCESS, Some (take (cmd_token_size cmd) (cmd_token cmd) @ drop (cmd_token_size cmd) tok),
            Some (cmd_token_size cmd)))"
proof -
  have r: "mem_read ch 0 challenge_len = Some (take challenge_len ch)" using c by (simp add: mem_read_def)
  have p: "mem_write (replicate 64 0) 0 (take challenge_len ch) = Some (padded_challenge (take challenge_len ch))"
    using c by (intro pad_write) simp
  have s: "length (cmd_token cmd) = 8192" "cmd_token_size cmd \<le> 8192" if "ret = 0"
    using ok d that unfolding tsi_device_ok_def by (metis fst_conv snd_conv)+
  have rd: "mem_read (cmd_token cmd) 0 (cmd_token_size cmd) = Some (take (cmd_token_size cmd) (cmd_token cmd))"
    if "ret = 0" using s [OF that] by (simp add: mem_read_def)
  have wr: "mem_write tok 0 (take (cmd_token_size cmd) (cmd_token cmd))
      = Some (take (cmd_token_size cmd) (cmd_token cmd) @ drop (cmd_token_size cmd) tok)"
    if "ret = 0" "\<not> tlen < cmd_token_size cmd" using s [OF that(1)] that(2) b by (simp add: mem_write_def)
  show ?thesis using c by (auto simp: get_attestation_token_def r p d rd wr)
qed


lemma get_dev_cert_cases:
  assumes ok: "tsi_device_ok dev" and b: "length buf = len"
    and d: "dev_get_cert dev (fd c0) \<lparr>cert_size = 0, cert_value = replicate 4096 0\<rparr> = (ret, dc)"
  shows "get_dev_cert dev (Some c0) (Some buf) (Some len) = Some
     (if ret \<noteq> 0 then (TSI_ERROR, Some buf, Some len)
      else if cert_size dc > len then (INSUFFICIENT_BUFFER_LEN, Some buf, Some len)
      else (TSI_SUCCESS, Some (take (cert_size dc) (cert_value dc) @ drop (cert_size dc) buf), Some (cert_size dc)))"
proof -
  have s: "length (cert_value dc) = 4096" "cert_size dc \<le> 4096" if "ret = 0"
    using ok d that unfolding tsi_device_ok_def by (metis fst_conv snd_conv)+
  have rd: "mem_read (cert_value dc) 0 (cert_size dc) = Some (take (cert_size dc) (cert_value dc))"
    if "ret = 0" using s [OF that] by (simp add: mem_read_def)
  have wr: "mem_write buf 0 (take (cert_size dc) (cert_value dc))
      = Some (take (cert_size dc) (cert_value dc) @ drop (cert_size dc) buf)"
    if "ret = 0" "\<not> cert_size dc > len" using s [OF that(1)] that(2) b by (simp add: mem_write_def)
  show ?thesis by (auto simp: get_dev_cert_def d rd wr)
qed


section \<open>Properties\<close>

text \<open>
  \<open>get_attestation_token\<close> on every path of a well-behaved device: the device is asked with
  the caller's challenge padded with zeros to 64 bytes; a device error and a token that does
  not fit are reported without touching the caller's buffer or length; otherwise the buffer
  starts with exactly the token and the length is the token's.
\<close>

theorem get_attestation_token_behaviour:
  assumes "tsi_device_ok dev" "challenge_len \<le> length ch" "challenge_len \<le> CHALLENGE_SIZE"
    and "dev_token dev (fd ctx) \<lparr>cmd_challenge = padded_challenge (take challenge_len ch),
              cmd_token = replicate TOKEN_BUF_SIZE 0, cmd_token_size = 0\<rparr> = (ret, cmd)"
  shows "get_attestation_token dev (Some ctx) (Some ch) challenge_len (Some tok) (Some (length tok)) = Some
     (if ret \<noteq> 0 then (TSI_ERROR, Some tok, Some (length tok))
      else if length tok < cmd_token_size cmd then (INSUFFICIENT_BUFFER_LEN, Some tok, Some (length tok))
      else (TSI_SUCCESS, Some (take (cmd_token_size cmd) (cmd_token cmd) @ drop (cmd_token_size cmd) tok),
            Some (cmd_token_size cmd)))"
  using get_attestation_token_cases [OF assms(1-3) refl assms(4)] .

definition echo_device :: tsi_device where
  "echo_device = \<lparr>dev_open = 3, dev_version = (\<lambda>_. (0, 1, 0)),
     dev_token = (\<lambda>_ cmd. if length (cmd_challenge cmd) < 2 then (1, cmd) else
        (0, cmd\<lparr>cmd_token := take 2 (cmd_challenge cmd) @ replicate 8190 0, cmd_token_size := 2\<rparr>)),
     dev_get_cert = (\<lambda>_ dc. (1, dc))\<rparr>"

theorem get_attestation_token_behaviour_witness:
  "get_attestation_token echo_device (Some \<lparr>fd = 3\<rparr>) (Some [7, 8, 9]) 2 (Some [1, 1, 1]) (Some 3) =
     Some (0, Some [7, 8, 1], Some 2)"
proof -
  let ?c = "\<lparr>cmd_challenge = padded_challenge [7, 8], cmd_token = replicate 8192 0, cmd_token_size = 0\<rparr>"
  let ?d = "?c\<lparr>cmd_token := [7, 8] @ replicate 8190 0, cmd_token_size := 2\<rparr>"
  have p: "length (padded_challenge [7, 8]) = 64" "take 2 (padded_challenge [7, 8]) = [7, 8]"
    by (simp_all add: padded_challenge_def)
  have ok: "tsi_device_ok echo_device" by (auto simp: tsi_device_ok_def echo_device_def)
  have d: "dev_token echo_device 3 ?c = (0, ?d)" using p by (simp add: echo_device_def)
  show ?thesis
    using get_attestation_token_behaviour [OF ok, of 2 "[7, 8, 9]" "\<lparr>fd = 3\<rparr>" 0 ?d "[1, 1, 1]"] d
    by (simp add: numeral_3_eq_3)
qed

end
