(* ===== verification/Mig_Tsi.thy ===== *)
theory Mig_Tsi
  imports Sdk_Attestation
begin

text \<open>
  The migration requests to the TSI device, \<open>migcvm-agent/src/migcvm_tsi/migcvm_tsi.c\<close>. Opening
  the device and \<open>get_attestation_token\<close> are the code of the SDK (theory \<open>Sdk_Attestation\<close>).

  The driver is the argument \<open>io\<close>: for an operation, the guest, the structure it is given and a
  state of its own it yields the return code of \<open>ioctl\<close>, the structure as it left it, and its
  new state. The array behind \<open>pending_guest_rds\<close> is the list it holds.
\<close>

abbreviation (input) TSI_ERROR_INPUT :: int where "TSI_ERROR_INPUT \<equiv> 1"
abbreviation (input) TSI_ERROR_STATE :: int where "TSI_ERROR_STATE \<equiv> 2"
abbreviation (input) MAX_BIND_VM :: nat where "MAX_BIND_VM \<equiv> 256"
abbreviation (input) SLOT_IS_READY :: u16 where "SLOT_IS_READY \<equiv> 3"

datatype mig_op = OP_MIGRATE_GET_ATTR | OP_MIGRATE_SET_SLOT | OP_MIGRATE_PEEK_RDS

record migration_info =
  mi_msk :: "u64 list"
  mi_rand_iv :: "u64 list"
  mi_tag :: "u64 list"
  pending_guest_rds :: "u64 list option"
  slot_status :: u16
  set_key :: bool

record virtcca_mig_info =
  vm_ops :: mig_op
  vm_guest_rd :: u64
  vm_size :: u64

type_synonym 'd mig_io = "int \<Rightarrow> mig_op \<Rightarrow> u64 \<Rightarrow> migration_info \<Rightarrow> 'd \<Rightarrow> int \<times> migration_info \<times> 'd"

text \<open>Memory set to zero.\<close>

definition zero_migration_info :: migration_info where
  "zero_migration_info = \<lparr>mi_msk = replicate 4 0, mi_rand_iv = replicate 4 0, mi_tag = replicate 2 0,
     pending_guest_rds = None, slot_status = 0, set_key = False\<rparr>"

definition zero_mig_info :: virtcca_mig_info where
  "zero_mig_info = \<lparr>vm_ops = OP_MIGRATE_GET_ATTR, vm_guest_rd = 0, vm_size = 0\<rparr>"

definition get_migration_info_and_mask ::
    "'d mig_io \<Rightarrow> tsi_ctx option \<Rightarrow> virtcca_mig_info option \<Rightarrow> migration_info option \<Rightarrow> 'd
     \<Rightarrow> int \<times> virtcca_mig_info option \<times> migration_info option \<times> 'd" where
  "get_migration_info_and_mask io ctx migvm_info attest_info dev =
     (case (ctx, migvm_info, attest_info) of
        (Some c, Some m, Some a) \<Rightarrow>
          let m = m\<lparr>vm_ops := OP_MIGRATE_GET_ATTR, vm_size := 96\<rparr>;
              (ret, a, dev) = io (fd c) OP_MIGRATE_GET_ATTR (vm_guest_rd m) a dev in
          (if ret \<noteq> 0 then TSI_ERROR else TSI_SUCCESS, Some m, Some a, dev)
      | _ \<Rightarrow> (NULL_INPUT, migvm_info, attest_info, dev))"

definition set_migration_bind_slot_and_mask ::
    "'d mig_io \<Rightarrow> tsi_ctx option \<Rightarrow> virtcca_mig_info option \<Rightarrow> migration_info option \<Rightarrow> 'd
     \<Rightarrow> int \<times> virtcca_mig_info option \<times> migration_info option \<times> 'd" where
  "set_migration_bind_slot_and_mask io ctx migvm_info attest_info dev =
     (case (ctx, migvm_info, attest_info) of
        (Some c, Some m, Some a) \<Rightarrow>
          let m = m\<lparr>vm_size := 96, vm_ops := OP_MIGRATE_SET_SLOT\<rparr>;
              (ret, a, dev) = io (fd c) OP_MIGRATE_SET_SLOT (vm_guest_rd m) a dev in
          (if ret \<noteq> 0 then TSI_ERROR else TSI_SUCCESS, Some m, Some a, dev)
      | _ \<Rightarrow> (NULL_INPUT, migvm_info, attest_info, dev))"

definition get_migration_binded_rds ::
    "'d mig_io \<Rightarrow> tsi_ctx option \<Rightarrow> virtcca_mig_info option \<Rightarrow> migration_info option \<Rightarrow> 'd
     \<Rightarrow> int \<times> virtcca_mig_info option \<times> migration_info option \<times> 'd" where
  "get_migration_binded_rds io ctx migvm_info attest_info dev =
     (case (ctx, migvm_info, attest_info) of
        (Some c, Some m, Some a) \<Rightarrow>
          let m = m\<lparr>vm_ops := OP_MIGRATE_PEEK_RDS, vm_size := 96\<rparr> in
          if pending_guest_rds a = None then (TSI_ERROR, Some m, Some a, dev)
          else
            let (ret, a, dev) = io (fd c) OP_MIGRATE_PEEK_RDS (vm_guest_rd m) a dev in
            (if ret \<noteq> 0 \<or> pending_guest_rds a = None then TSI_ERROR else TSI_SUCCESS, Some m, Some a, dev)
      | _ \<Rightarrow> (NULL_INPUT, migvm_info, attest_info, dev))"

text \<open>
  The check both ends of a migration make before they touch a key: the guest is one of those
  bound to this agent. It allocates the structures, asks the device for the bound guests and
  looks the guest up; \<open>Inl\<close> is the way out with the error code, \<open>err\<close> for the failures of the
  agent itself.
\<close>

definition bound_guest ::
    "(nat \<Rightarrow> bool) \<Rightarrow> 'd mig_io \<Rightarrow> tsi_ctx \<Rightarrow> int \<Rightarrow> u64 \<Rightarrow> 'd
     \<Rightarrow> ((int + virtcca_mig_info \<times> migration_info) \<times> 'd) option" where
  "bound_guest malloc_ok io ctx err guest dev =
     (if \<not> malloc_ok 32 then Some (Inl err, dev)
      else if \<not> malloc_ok 96 then Some (Inl err, dev)
      else if \<not> malloc_ok 2048 then Some (Inl err, dev)
      else
        case get_migration_binded_rds io (Some ctx) (Some (zero_mig_info\<lparr>vm_guest_rd := guest\<rparr>))
               (Some (zero_migration_info\<lparr>pending_guest_rds := Some (replicate MAX_BIND_VM 0)\<rparr>)) dev of
          (ret, Some m, Some a, dev) \<Rightarrow>
            if ret \<noteq> TSI_SUCCESS then Some (Inl ret, dev)
            else do {
              rds \<leftarrow> pending_guest_rds a;
              rds \<leftarrow> mem_read rds 0 MAX_BIND_VM;
              Some (if vm_guest_rd m \<in> set rds then Inr (m, a) else Inl err, dev)
            }
        | _ \<Rightarrow> None)"

text \<open>What the device reports as the guests bound to the agent, and its state after that.\<close>

definition peek_rds :: "'d mig_io \<Rightarrow> tsi_ctx \<Rightarrow> u64 \<Rightarrow> 'd \<Rightarrow> int \<times> migration_info \<times> 'd" where
  "peek_rds io ctx guest dev =
     io (fd ctx) OP_MIGRATE_PEEK_RDS guest (zero_migration_info\<lparr>pending_guest_rds := Some (replicate MAX_BIND_VM 0)\<rparr>) dev"

lemma bound_guest_Inr:
  assumes "bound_guest malloc_ok io ctx err guest dev = Some (Inr (m, a), dev')"
  obtains rds where "peek_rds io ctx guest dev = (0, a, dev')" "pending_guest_rds a = Some rds"
    "MAX_BIND_VM \<le> length rds" "guest \<in> set (take MAX_BIND_VM rds)" "vm_guest_rd m = guest"
proof -
  obtain ret a' d' where p: "peek_rds io ctx guest dev = (ret, a', d')" by (metis prod_cases3)
  then show ?thesis
    using assms that unfolding bound_guest_def get_migration_binded_rds_def peek_rds_def zero_mig_info_def
    by (auto simp: Let_def split: if_splits bind_splits dest!: mem_read_SomeD)
qed

lemma bound_guest_Inl_dev:
  assumes "bound_guest malloc_ok io ctx err guest dev = Some (Inl e, dev')"
  shows "dev' = dev \<or> dev' = snd (snd (peek_rds io ctx guest dev))"
  using assms unfolding bound_guest_def get_migration_binded_rds_def peek_rds_def zero_mig_info_def
  by (auto simp: Let_def split: if_splits bind_splits prod.splits)

lemma bound_guest_succeeds:
  assumes "\<And>n. malloc_ok n" "peek_rds io ctx guest dev = (0, a, dev')" "pending_guest_rds a = Some rds"
    "length rds = MAX_BIND_VM" "guest \<in> set rds"
  shows "\<exists>m. vm_guest_rd m = guest \<and> bound_guest malloc_ok io ctx err guest dev = Some (Inr (m, a), dev')"
  using assms unfolding bound_guest_def get_migration_binded_rds_def peek_rds_def zero_mig_info_def
  by (simp add: mem_read_Some)

lemma bound_guest_refuses:
  assumes "\<And>n. malloc_ok n" "peek_rds io ctx guest dev = (0, a, dev')" "pending_guest_rds a = Some rds"
    "length rds = MAX_BIND_VM" "guest \<notin> set rds"
  shows "bound_guest malloc_ok io ctx err guest dev = Some (Inl err, dev')"
  using assms unfolding bound_guest_def get_migration_binded_rds_def peek_rds_def zero_mig_info_def
  by (simp add: mem_read_Some)

end
