(* ===== verification/Rats_Tls.thy ===== *)
theory Rats_Tls
  imports Mig_Attest Mig_Tsi
begin

text \<open>
  The migration protocol of the agent in the guest, \<open>rats_tls_handler.c\<close>: the destination serves
  the requests of the source (\<open>deal_client_req\<close>), the source verifies the destination and hands
  over the migration session key (\<open>rats_tls_client_startup\<close>).

  The rats-tls library is the argument \<open>rt\<close>: \<open>rt_receive n\<close> yields the return code and the bytes
  written into a buffer of \<open>n\<close> bytes, \<open>rt_transmit bs\<close> the return code and the number of bytes it
  took; the state of a session is of type \<open>'h\<close>. The error codes of its headers are \<open>rt_err\<close>; its
  success codes \<open>RATS_TLS_ERR_NONE\<close> and \<open>RATS_TLS_ERR_BASE\<close> are 0. The TSI driver is \<open>rt_io\<close>, with a
  state of type \<open>'d\<close>. A write outside a buffer, and a loop that never ends, is \<^term>\<open>None\<close>.
  The static variable in which \<open>rats_tls_client_startup\<close> copies its arguments, for the custom claim of
  the handshake, is the member \<open>p_static\<close> of the state, beside the arguments themselves.
\<close>

section \<open>The session\<close>

datatype rt_error = RATS_TLS_ERR_UNKNOWN | RATS_TLS_ERR_INVALID | RATS_TLS_ERR_NO_MEM
  | RATS_TLS_ERR_LOAD_TLS_WRAPPERS | RATS_TLS_ERR_LOAD_ENCLAVE_ATTESTERS
  | ENCLAVE_ATTESTER_ERR_UNKNOWN | ENCLAVE_VERIFIER_ERR_UNKNOWN | ENCLAVE_VERIFIER_ERR_NO_MEM
  | ENCLAVE_VERIFIER_ERR_CBOR

text \<open>\<open>mig_agent_args\<close>; a \<open>NULL\<close> string is \<^term>\<open>None\<close>.\<close>

record mig_agent_args =
  agent_type :: int
  attester_type :: "string option"
  verifier_type :: "string option"
  tls_type :: "string option"
  crypto_type :: "string option"
  srv_ip :: "string option"
  port :: u16
  digest_file :: "string option"
  mutual :: bool
  provide_endorsements :: bool
  use_firmware :: bool
  dump_eventlog :: bool
  ref_json_file :: "string option"
  use_fde :: bool
  rootfs_key_file :: "string option"
  verify_platform_components :: bool
  platform_ref_json_file :: "string option"
  guest_rd :: u64
  msk :: "u64 list"
  rand_iv :: "u64 list"
  tag :: "u64 list"

text \<open>
  What the agent writes into \<open>rats_tls_conf_t\<close>. The custom claim of the source is a name and the
  whole of its arguments, which the library hands to the other side in the handshake.
\<close>

record rats_conf =
  conf_attester :: string
  conf_verifier :: string
  conf_tls :: string
  conf_crypto :: string
  conf_server :: bool
  conf_mutual :: bool
  conf_endorsements :: bool
  conf_claims :: "(string \<times> mig_agent_args) option"

text \<open>
  \<open>rt_init\<close> yields the handle it writes, \<^term>\<open>None\<close> when it writes none; \<open>rt_negotiate\<close> runs the
  handshake with the verification callback it is given, which may change files; \<open>rt_evidence\<close> is the
  evidence of the other side the verifier keeps, \<open>rt_claims\<close> whether the handle has custom claims.
\<close>

record ('h, 'd) rats =
  rt_receive :: "nat \<Rightarrow> 'h \<Rightarrow> int \<times> bytes \<times> 'h"
  rt_transmit :: "bytes \<Rightarrow> 'h \<Rightarrow> int \<times> nat \<times> 'h"
  rt_init :: "rats_conf \<Rightarrow> int \<times> 'h option"
  rt_set_callback :: "'h \<Rightarrow> int \<times> 'h"
  rt_negotiate :: "(bytes \<Rightarrow> files \<Rightarrow> (bool \<times> files) option) option \<Rightarrow> files \<Rightarrow> 'h \<Rightarrow> (int \<times> files \<times> 'h) option"
  rt_claims :: "'h \<Rightarrow> bool"
  rt_evidence :: "'h \<Rightarrow> token_buf option"
  rt_err :: "rt_error \<Rightarrow> int"
  rt_io :: "'d mig_io"
  rt_tsi :: tsi_device

text \<open>
  What one end of the migration works on: the session, the device, the files, its arguments, the
  copy of the arguments in the static variable \<open>static_args\<close> of \<open>rats_tls_client_startup\<close>, which
  outlives the call, and the format of the template \<open>ima-sig\<close> (theory \<open>Ima_Measure\<close>).
\<close>

record ('h, 'd) peer =
  p_tls :: 'h
  p_dev :: 'd
  p_files :: files
  p_args :: mig_agent_args
  p_static :: mig_agent_args
  p_sig :: sig_fmt

abbreviation (input) MIG_KEY_FILE_PATH :: string where "MIG_KEY_FILE_PATH \<equiv> ''/root/rootfs_key.bin''"
abbreviation (input) SERVER_IMA_PATH :: string where
  "SERVER_IMA_PATH \<equiv> ''/sys/kernel/security/ima/binary_runtime_measurements''"
abbreviation (input) SERVER_CCEL_TABLE :: string where "SERVER_CCEL_TABLE \<equiv> ''/sys/firmware/acpi/tables/CCEL''"
abbreviation (input) SERVER_CCEL_LOG :: string where "SERVER_CCEL_LOG \<equiv> ''/sys/firmware/acpi/tables/data/CCEL''"

text \<open>
  The loops that send a buffer and fill a buffer. A transfer of no bytes is repeated, so a
  session that stalls keeps them running.
\<close>

partial_function (option) send_loop ::
    "('h, 'd) rats \<Rightarrow> bytes \<Rightarrow> nat \<Rightarrow> 'h \<Rightarrow> (int \<times> 'h) option" where
  "send_loop rt buf send_size h =
     (if send_size < length buf then
        let (ret, n, h) = rt_transmit rt (drop send_size buf) h in
        if ret \<noteq> 0 then Some (ret, h) else send_loop rt buf (send_size + n) h
      else Some (0, h))"

partial_function (option) recv_loop ::
    "('h, 'd) rats \<Rightarrow> nat \<Rightarrow> bytes \<Rightarrow> 'h \<Rightarrow> (int \<times> bytes \<times> 'h) option" where
  "recv_loop rt n acc h =
     (if length acc < n then
        let (ret, d, h) = rt_receive rt (n - length acc) h in
        if n - length acc < length d then None
        else if ret \<noteq> 0 then Some (ret, acc @ d, h) else recv_loop rt n (acc @ d) h
      else Some (0, acc, h))"

text \<open>The buffer of \<open>n\<close> zero bytes after a receive into it.\<close>

definition recv_buf :: "nat \<Rightarrow> bytes \<Rightarrow> bytes option" where
  "recv_buf n d = mem_write (replicate n 0) 0 d"

text \<open>\<open>strncmp (buf, s, strlen (s)) == 0\<close>, for a text without NUL in it.\<close>

definition starts_with :: "bytes \<Rightarrow> string \<Rightarrow> bool" where
  "starts_with buf s \<longleftrightarrow> take (length s) buf = bytes_of_string s"

text \<open>A reply: \<open>strcpy\<close> into the request buffer, all of which is sent.\<close>

definition reply_buf :: "bytes \<Rightarrow> string \<Rightarrow> bytes" where
  "reply_buf buf s = c_lit s @ drop (length s + 1) buf"


section \<open>The destination: serving requests\<close>

text \<open>The loop of \<open>read_ima_measurements\<close>: blocks of 1024 bytes, each after a \<open>realloc\<close>.\<close>

function read_blocks :: "(nat \<Rightarrow> bool) \<Rightarrow> bytes \<Rightarrow> bytes \<Rightarrow> bytes option" where
  "read_blocks malloc_ok acc d =
     (if d = [] then Some acc
      else let b = take 1024 d in
        if malloc_ok (length acc + length b) then read_blocks malloc_ok (acc @ b) (drop 1024 d) else None)"
  by pat_completeness auto

termination
  by (relation "measure (\<lambda>(m, acc, d). length d)") (auto simp: diff_less)

declare read_blocks.simps [simp del]

text \<open>
  \<open>Inl\<close> is an error code. A read error ends the loop like the end of the file.
\<close>

definition read_ima_measurements :: "('c, 'x, 'k) env \<Rightarrow> ('h, 'd) rats \<Rightarrow> files \<Rightarrow> int + bytes" where
  "read_ima_measurements env rt fs =
     (case fs SERVER_IMA_PATH of
        None \<Rightarrow> Inl (rt_err rt RATS_TLS_ERR_INVALID)
      | Some d \<Rightarrow>
          (case read_blocks (e_malloc env) [] (e_fread env d) of
             None \<Rightarrow> Inl (rt_err rt RATS_TLS_ERR_NO_MEM)
           | Some v \<Rightarrow> Inr v))"

text \<open>The length of a buffer as the eight bytes of a \<open>size_t\<close>, which is sent first.\<close>

definition send_sized :: "('h, 'd) rats \<Rightarrow> bytes \<Rightarrow> 'h \<Rightarrow> (int \<times> 'h) option" where
  "send_sized rt buf h =
     (let (ret, n, h) = rt_transmit rt (word_bytes (of_nat (length buf) :: u64)) h in
      if ret \<noteq> 0 \<or> n \<noteq> 8 then Some (rt_err rt RATS_TLS_ERR_LOAD_TLS_WRAPPERS, h)
      else send_loop rt buf 0 h)"

definition send_ima_log ::
    "('c, 'x, 'k) env \<Rightarrow> ('h, 'd) rats \<Rightarrow> ('h, 'd) peer \<Rightarrow> (int \<times> ('h, 'd) peer) option" where
  "send_ima_log env rt p =
     (case read_ima_measurements env rt (p_files p) of
        Inl e \<Rightarrow> Some (e, p)
      | Inr d \<Rightarrow>
          if d = [] then Some (0, p)
          else do {
            (ret, h) \<leftarrow> send_sized rt d (p_tls p);
            Some (ret, p\<lparr>p_tls := h\<rparr>)
          })"

definition deal_rootfs_key ::
    "('c, 'x, 'k) env \<Rightarrow> ('h, 'd) rats \<Rightarrow> ('h, 'd) peer \<Rightarrow> (int \<times> ('h, 'd) peer) option" where
  "deal_rootfs_key env rt p =
     (let (ret, d, h) = rt_receive rt 4096 (p_tls p); p = p\<lparr>p_tls := h\<rparr> in
      do {
        _ \<leftarrow> recv_buf 4096 d;
        if ret \<noteq> 0 then Some (ret, p)
        else
          let (ok, fs) = mig_save_file_data (e_open env) (e_io env) (p_files p) MIG_KEY_FILE_PATH d in
          Some (if ok then 0 else 1, p\<lparr>p_files := fs\<rparr>)
      })"

definition send_ccel_data ::
    "('c, 'x, 'k) env \<Rightarrow> ('h, 'd) rats \<Rightarrow> ('h, 'd) peer \<Rightarrow> (int \<times> ('h, 'd) peer) option" where
  "send_ccel_data env rt p =
     (case mig_read_file_data (e_malloc env) (e_io env) (p_files p) (Some SERVER_CCEL_TABLE) of
        None \<Rightarrow> Some (rt_err rt ENCLAVE_ATTESTER_ERR_UNKNOWN, p)
      | Some d \<Rightarrow>
          let (ret, n, h) = rt_transmit rt d (p_tls p) in
          Some (if ret \<noteq> 0 \<or> n \<noteq> length d then rt_err rt RATS_TLS_ERR_LOAD_TLS_WRAPPERS else ret, p\<lparr>p_tls := h\<rparr>))"

definition send_event_log ::
    "('c, 'x, 'k) env \<Rightarrow> ('h, 'd) rats \<Rightarrow> ('h, 'd) peer \<Rightarrow> (int \<times> ('h, 'd) peer) option" where
  "send_event_log env rt p =
     (case mig_read_file_data (e_malloc env) (e_io env) (p_files p) (Some SERVER_CCEL_LOG) of
        None \<Rightarrow> Some (rt_err rt ENCLAVE_ATTESTER_ERR_UNKNOWN, p)
      | Some d \<Rightarrow> do {
          (ret, h) \<leftarrow> send_sized rt d (p_tls p);
          Some (ret, p\<lparr>p_tls := h\<rparr>)
        })"

text \<open>
  The package of the key: ten 64-bit words, the key, the initialisation vector and the tag.
\<close>

definition package_bytes :: "u64 list \<Rightarrow> bytes" where
  "package_bytes ws = concat (map word_bytes ws)"

fun package_words :: "nat \<Rightarrow> bytes \<Rightarrow> u64 list" where
  "package_words 0 bs = []"
| "package_words (Suc n) bs = word_of_bytes (take 8 bs) # package_words n (drop 8 bs)"

definition wipe_args :: "mig_agent_args \<Rightarrow> mig_agent_args" where
  "wipe_args a = a\<lparr>guest_rd := 0, msk := replicate 4 0, tag := replicate 2 0, rand_iv := replicate 4 0\<rparr>"

text \<open>The migration information that stores a received package.\<close>

definition msk_info :: "bytes \<Rightarrow> migration_info \<Rightarrow> migration_info" where
  "msk_info pkg a =
     (let ws = package_words 10 pkg in
      a\<lparr>mi_msk := take 4 ws, mi_rand_iv := take 4 (drop 4 ws), mi_tag := take 2 (drop 8 ws),
        slot_status := SLOT_IS_READY, set_key := False\<rparr>)"

definition store_msk ::
    "('h, 'd) rats \<Rightarrow> tsi_ctx \<Rightarrow> bytes \<Rightarrow> virtcca_mig_info \<Rightarrow> migration_info \<Rightarrow> 'd \<Rightarrow> int \<times> 'd" where
  "store_msk rt ctx pkg m a dev =
     (let (ret, _, _, dev) = set_migration_bind_slot_and_mask (rt_io rt) (Some ctx) (Some m)
            (Some (msk_info pkg a)) dev in
      (ret, dev))"

definition receive_and_save_msk ::
    "('c, 'x, 'k) env \<Rightarrow> ('h, 'd) rats \<Rightarrow> ('h, 'd) peer \<Rightarrow> (int \<times> ('h, 'd) peer) option" where
  "receive_and_save_msk env rt p =
     do {
       (ret, p) \<leftarrow>
         (case tsi_new_ctx (e_malloc env) (rt_tsi rt) of
            None \<Rightarrow> Some (rt_err rt ENCLAVE_ATTESTER_ERR_UNKNOWN, p)
          | Some ctx \<Rightarrow>
              let (ret, d, h) = rt_receive rt 80 (p_tls p); p = p\<lparr>p_tls := h\<rparr> in
              if length d > 80 then None
              else if ret \<noteq> 0 \<or> length d \<noteq> 80 then Some (rt_err rt RATS_TLS_ERR_UNKNOWN, p)
              else do {
                (r, dev) \<leftarrow> bound_guest (e_malloc env) (rt_io rt) ctx (rt_err rt RATS_TLS_ERR_UNKNOWN)
                             (guest_rd (p_args p)) (p_dev p);
                case r of
                  Inl e \<Rightarrow> Some (e, p\<lparr>p_dev := dev\<rparr>)
                | Inr (m, a) \<Rightarrow>
                    let (ret, dev) = store_msk rt ctx d m a dev in
                    Some (ret, p\<lparr>p_dev := dev\<rparr>)
              });
       Some (ret, p\<lparr>p_args := wipe_args (p_args p)\<rparr>)
     }"

text \<open>Receiving a request: the buffer of 256 bytes, always terminated.\<close>

definition receive_request :: "('h, 'd) rats \<Rightarrow> 'h \<Rightarrow> (int \<times> bytes \<times> 'h) option" where
  "receive_request rt h =
     (let (ret, d, h) = rt_receive rt 256 h in
      do {
        buf \<leftarrow> recv_buf 256 d;
        buf \<leftarrow> mem_write buf (min (length d) 255) [0];
        Some (ret, buf, h)
      })"

definition send_reply :: "('h, 'd) rats \<Rightarrow> bytes \<Rightarrow> string \<Rightarrow> ('h, 'd) peer \<Rightarrow> int \<times> ('h, 'd) peer" where
  "send_reply rt buf s p = (let (ret, n, h) = rt_transmit rt (reply_buf buf s) (p_tls p) in (ret, p\<lparr>p_tls := h\<rparr>))"

partial_function (option) deal_client_req ::
    "('c, 'x, 'k) env \<Rightarrow> ('h, 'd) rats \<Rightarrow> ('h, 'd) peer \<Rightarrow> (int \<times> ('h, 'd) peer) option" where
  "deal_client_req env rt p =
     Option.bind (receive_request rt (p_tls p)) (\<lambda>(ret, buf, h).
       let p = p\<lparr>p_tls := h\<rparr> in
       if ret \<noteq> 0 then Some (ret, p)
       else if starts_with buf ''REQUEST_CCEL_TABLE'' then
         Option.bind (send_ccel_data env rt p) (\<lambda>(ret, p).
           if ret \<noteq> 0 then Some (ret, p) else deal_client_req env rt p)
       else if starts_with buf ''REQUEST_EVENT_LOG'' then
         Option.bind (send_event_log env rt p) (\<lambda>(ret, p).
           if ret \<noteq> 0 then Some (ret, p) else deal_client_req env rt p)
       else if starts_with buf ''ATTESTATION_PASS'' then
         Some (send_reply rt buf ''Attestation Passed, Swtiching Root.....'' p)
       else if starts_with buf ''REQUEST_IMA_LOG'' then
         Option.bind (send_ima_log env rt p) (\<lambda>(ret, p).
           if ret \<noteq> 0 then Some (ret, p) else deal_client_req env rt p)
       else if starts_with buf ''ENABLE_FDE_TOKEN'' then
         Option.bind (deal_rootfs_key env rt p) (\<lambda>(ret, p).
           if ret \<noteq> 0 then Some (ret, p)
           else Option.bind (deal_client_req env rt p) (\<lambda>(ret, p).
             Some (if ret \<noteq> 0 then ret else 0x68, p)))
       else if starts_with buf ''MSK_SEND'' then
         let (ret, p) = send_reply rt buf ''MSK_ACK'' p in
         if ret \<noteq> 0 then Some (ret, p) else receive_and_save_msk env rt p
       else
         let (ret, p) = send_reply rt buf ''Attestation Failed, Continue.....'' p in
         Some (rt_err rt ENCLAVE_ATTESTER_ERR_UNKNOWN, p))"


section \<open>The source: verifying the destination\<close>

text \<open>The digests and the command line the check of a measurement list uses.\<close>

record ima_lib =
  il_md_size :: "string \<Rightarrow> nat option"
  il_sha1 :: "bytes \<Rightarrow> bytes option"
  il_system :: "string \<Rightarrow> int"

definition is_rem_entry_zero :: "qbuf \<Rightarrow> bool option" where
  "is_rem_entry_zero rem_entry =
     (if rem_entry = NullBuf then Some True
      else do { d \<leftarrow> qbuf_data rem_entry; Some (list_all (\<lambda>b. b = 0) d) })"

text \<open>
  The register index of the second entry of the list, \<open>-1\<close> on an error. The first entry is
  skipped: its name unless its length is 0 or above 1023, its data unless longer than 10239.
\<close>

definition parse_ima_pcr_index :: "files \<Rightarrow> int" where
  "parse_ima_pcr_index fs =
     (case fs CLIENT_IMA_MEASUREMENTS_PATH of
        None \<Rightarrow> -1
      | Some d \<Rightarrow>
          if length d < 28 then -1
          else
            let name_len = unat (word_of_bytes (take 4 (drop 24 d)) :: u32);
                pos = 28 + (if 0 < name_len \<and> name_len < 1024 then name_len else 0);
                pos = (if length d < pos + 4 then max pos (length d)
                       else let n = unat (word_of_bytes (take 4 (drop pos d)) :: u32) in
                         pos + 4 + (if n < 10240 then n else 0)) in
            if length d < pos + 28 then -1
            else sint (word_of_bytes (take 4 (drop pos d)) :: u32))"

text \<open>Receiving a length of eight bytes; \<open>n\<close> is the number of bytes that came.\<close>

definition recv_size :: "('h, 'd) rats \<Rightarrow> 'h \<Rightarrow> (int \<times> nat \<times> nat \<times> 'h) option" where
  "recv_size rt h =
     (let (ret, d, h) = rt_receive rt 8 h in
      do { buf \<leftarrow> recv_buf 8 d; Some (ret, length d, unat (word_of_bytes buf :: u64), h) })"

text \<open>Which register of the token the measurement list is compared with.\<close>

definition ima_rem_index :: "int \<Rightarrow> nat option" where
  "ima_rem_index pcr = (if pcr = 4 then Some 3 else if pcr = 1 \<or> pcr = 10 then Some 0 else None)"

definition check_ima_list ::
    "('c, 'x, 'k) env \<Rightarrow> ('h, 'd) rats \<Rightarrow> ima_lib \<Rightarrow> ('h, 'd) peer \<Rightarrow> (int \<times> ('h, 'd) peer) option" where
  "check_ima_list env rt il p =
     (case rt_evidence rt (p_tls p) of
        None \<Rightarrow> Some (rt_err rt RATS_TLS_ERR_INVALID, p)
      | Some tb \<Rightarrow> do {
          (st, t) \<leftarrow> parse_token_buf env tb;
          if st \<noteq> VIRTCCA_SUCCESS then Some (rt_err rt ENCLAVE_VERIFIER_ERR_CBOR, p)
          else
            let pcr = parse_ima_pcr_index (p_files p) in
            if pcr = -1 then Some (rt_err rt RATS_TLS_ERR_INVALID, p)
            else case ima_rem_index pcr of
              None \<Rightarrow> Some (rt_err rt RATS_TLS_ERR_INVALID, p)
            | Some i \<Rightarrow> do {
                r \<leftarrow> mem_at (rem_claim (cvm_token t)) i;
                d \<leftarrow> qbuf_data r;
                z \<leftarrow> is_rem_entry_zero r;
                if length d \<noteq> 32 \<or> z then Some (rt_err rt RATS_TLS_ERR_INVALID, p)
                else do {
                  f \<leftarrow> digest_file (p_static p);
                  (ret, st) \<leftarrow> ima_measure (e_malloc env) (il_md_size il) (il_sha1 il) (e_sha env) (il_system il)
                                (p_files p) (p_sig p) (Some d) (length d) f True True pcr;
                  Some (if ret \<noteq> 0 then rt_err rt ENCLAVE_VERIFIER_ERR_UNKNOWN else 0, p\<lparr>p_sig := st\<rparr>)
                }
              }
        })"

definition verify_ima_log ::
    "('c, 'x, 'k) env \<Rightarrow> ('h, 'd) rats \<Rightarrow> ima_lib \<Rightarrow> ('h, 'd) peer \<Rightarrow> (int \<times> ('h, 'd) peer) option" where
  "verify_ima_log env rt il p = do {
     (ret, n, ima_log_size, h) \<leftarrow> recv_size rt (p_tls p);
     let p = p\<lparr>p_tls := h\<rparr>;
     if ret \<noteq> 0 \<or> n \<noteq> 8 then Some (rt_err rt RATS_TLS_ERR_LOAD_TLS_WRAPPERS, p)
     else if ima_log_size = 0 \<or> ima_log_size > 1073741824
     then Some (rt_err rt RATS_TLS_ERR_LOAD_ENCLAVE_ATTESTERS, p)
     else if \<not> e_malloc env ima_log_size then Some (rt_err rt ENCLAVE_VERIFIER_ERR_NO_MEM, p)
     else do {
       (ret, d, h) \<leftarrow> recv_loop rt ima_log_size [] h;
       let p = p\<lparr>p_tls := h\<rparr>;
       if ret \<noteq> 0 then Some (ret, p)
       else
         let (ok, fs) = mig_save_file_data (e_open env) (e_io env) (p_files p) CLIENT_IMA_MEASUREMENTS_PATH d;
             p = p\<lparr>p_files := fs\<rparr> in
         if \<not> ok then Some (rt_err rt ENCLAVE_VERIFIER_ERR_UNKNOWN, p)
         else check_ima_list env rt il p
     }
   }"

definition deal_ima ::
    "('c, 'x, 'k) env \<Rightarrow> ('h, 'd) rats \<Rightarrow> ima_lib \<Rightarrow> ('h, 'd) peer \<Rightarrow> (int \<times> ('h, 'd) peer) option" where
  "deal_ima env rt il p =
     (if digest_file (p_static p) = None \<or> digest_file (p_static p) = Some [] then Some (0, p)
      else
        let (ret, n, h) = rt_transmit rt (bytes_of_string ''REQUEST_IMA_LOG'') (p_tls p); p = p\<lparr>p_tls := h\<rparr> in
        if ret \<noteq> 0 \<or> n \<noteq> 15 then Some (rt_err rt RATS_TLS_ERR_LOAD_TLS_WRAPPERS, p)
        else verify_ima_log env rt il p)"

text \<open>When the key file cannot be read, the return code is that of the transfer before.\<close>

definition deal_fde_key ::
    "('c, 'x, 'k) env \<Rightarrow> ('h, 'd) rats \<Rightarrow> ('h, 'd) peer \<Rightarrow> int \<times> ('h, 'd) peer" where
  "deal_fde_key env rt p =
     (if \<not> use_fde (p_args p) then (0, p)
      else
        let (ret, n, h) = rt_transmit rt (bytes_of_string ''ENABLE_FDE_TOKEN'') (p_tls p); p = p\<lparr>p_tls := h\<rparr> in
        if ret \<noteq> 0 \<or> n \<noteq> 16 then (rt_err rt RATS_TLS_ERR_LOAD_TLS_WRAPPERS, p)
        else case mig_read_file_data (e_malloc env) (e_io env) (p_files p) (rootfs_key_file (p_args p)) of
            None \<Rightarrow> (ret, p)
          | Some key \<Rightarrow>
              let (ret, n, h) = rt_transmit rt key h in
              (if ret \<noteq> 0 then rt_err rt RATS_TLS_ERR_LOAD_TLS_WRAPPERS else ret, p\<lparr>p_tls := h\<rparr>))"

definition request_and_save_firmware_data ::
    "('c, 'x, 'k) env \<Rightarrow> ('h, 'd) rats \<Rightarrow> ('h, 'd) peer \<Rightarrow> (int \<times> ('h, 'd) peer) option" where
  "request_and_save_firmware_data env rt p =
     (let (ret, _, h) = rt_transmit rt (bytes_of_string ''REQUEST_CCEL_TABLE'') (p_tls p); p = p\<lparr>p_tls := h\<rparr> in
      if ret \<noteq> 0 then Some (ret, p)
      else
        let (ret, d, h) = rt_receive rt 4096 h; p = p\<lparr>p_tls := h\<rparr> in
        do {
          _ \<leftarrow> recv_buf 4096 d;
          if ret \<noteq> 0 \<or> d = [] then Some (ret, p)
          else
            let (ok, fs) = mig_save_file_data (e_open env) (e_io env) (p_files p) CCEL_ACPI_TABLE_PATH d;
                p = p\<lparr>p_files := fs\<rparr> in
            if \<not> ok then Some (rt_err rt RATS_TLS_ERR_INVALID, p)
            else
              let (ret, _, h) = rt_transmit rt (bytes_of_string ''REQUEST_EVENT_LOG'') h; p = p\<lparr>p_tls := h\<rparr> in
              if ret \<noteq> 0 then Some (ret, p)
              else do {
                (ret, _, expected_size, h) \<leftarrow> recv_size rt h;
                let p = p\<lparr>p_tls := h\<rparr>;
                if ret \<noteq> 0 \<or> expected_size = 0 \<or> expected_size > MAX_LOG then Some (ret, p)
                else if \<not> e_malloc env expected_size then Some (rt_err rt RATS_TLS_ERR_NO_MEM, p)
                else do {
                  (ret, d, h) \<leftarrow> recv_loop rt expected_size [] h;
                  let p = p\<lparr>p_tls := h\<rparr>;
                  if ret \<noteq> 0 then Some (ret, p)
                  else
                    let (ok, fs) = mig_save_file_data (e_open env) (e_io env) (p_files p) CCEL_EVENT_LOG_PATH d in
                    Some (if ok then 0 else rt_err rt RATS_TLS_ERR_INVALID, p\<lparr>p_files := fs\<rparr>)
                }
              }
        })"

text \<open>The software components of the platform, on request and when the evidence has a platform token.\<close>

definition verify_platform_step ::
    "('c, 'x, 'k) env \<Rightarrow> ('h, 'd) rats \<Rightarrow> ('h, 'd) peer \<Rightarrow> int option" where
  "verify_platform_step env rt p =
     (if \<not> verify_platform_components (p_static p) then Some 0
      else case rt_evidence rt (p_tls p) of
          None \<Rightarrow> Some (rt_err rt RATS_TLS_ERR_INVALID)
        | Some tb \<Rightarrow> do {
            (st, t) \<leftarrow> parse_token_buf env tb;
            if st \<noteq> VIRTCCA_SUCCESS then Some (rt_err rt RATS_TLS_ERR_INVALID)
            else if \<not> qbuf_present (platform_cose t) then Some 0
            else case platform_ref_json_file (p_static p) of
                None \<Rightarrow> Some (rt_err rt RATS_TLS_ERR_INVALID)
              | Some path \<Rightarrow>
                  let (loaded, refs) = load_platform_ref_values (e_malloc env) (e_fread env) (p_files p) path in
                  if \<not> loaded then Some (rt_err rt RATS_TLS_ERR_INVALID)
                  else do {
                    ok \<leftarrow> verify_platform_sw_components (e_malloc env) (platform_token t) refs;
                    Some (if ok then 0 else rt_err rt RATS_TLS_ERR_INVALID)
                  }
          })"

text \<open>The registers of the token against the replayed log, and the firmware state of the log.\<close>

definition verify_firmware_step ::
    "('c, 'x, 'k) env \<Rightarrow> ('h, 'd) rats \<Rightarrow> ('h, 'd) peer \<Rightarrow> int option" where
  "verify_firmware_step env rt p =
     (case event_log_init (mig_read_file_data (e_malloc env) (e_io env) (p_files p) (Some CCEL_EVENT_LOG_PATH)) 0 of
        None \<Rightarrow> Some (rt_err rt RATS_TLS_ERR_INVALID)
      | Some log \<Rightarrow> do {
          (ok, log) \<leftarrow> event_log_replay (e_malloc env) (e_sha env) log;
          if \<not> ok then Some (rt_err rt RATS_TLS_ERR_INVALID)
          else case rt_evidence rt (p_tls p) of
              None \<Rightarrow> Some (rt_err rt RATS_TLS_ERR_INVALID)
            | Some tb \<Rightarrow> do {
                (st, t) \<leftarrow> parse_token_buf env tb;
                if st \<noteq> VIRTCCA_SUCCESS then Some (rt_err rt RATS_TLS_ERR_INVALID)
                else do {
                  rems \<leftarrow> check_rems (rem_claim (cvm_token t)) (log_rems log) REM_COUNT 0 True;
                  if rems \<noteq> Inr True then Some (rt_err rt RATS_TLS_ERR_INVALID)
                  else case firmware_log_state_create (e_malloc env) of
                      None \<Rightarrow> Some (rt_err rt RATS_TLS_ERR_INVALID)
                    | Some state \<Rightarrow> do {
                        (ok, state) \<leftarrow> firmware_log_state_extract (e_malloc env) (log_blob log) state;
                        if \<not> ok then Some (rt_err rt RATS_TLS_ERR_INVALID)
                        else do {
                          ok \<leftarrow> verify_firmware_state (e_malloc env)
                                  (Option.bind (ref_json_file (p_static p)) (read_text_file (e_malloc env) (e_io env) (p_files p)))
                                  state;
                          Some (if ok then 0 else rt_err rt RATS_TLS_ERR_INVALID)
                        }
                      }
                }
              }
        })"

text \<open>
  The steps after the handshake and before the key: \<open>Inl\<close> is the way out, with the return code of
  \<open>rats_tls_client_startup\<close>; dumping the event log ends there too.
\<close>

definition attest_destination ::
    "('c, 'x, 'k) env \<Rightarrow> ('h, 'd) rats \<Rightarrow> ima_lib \<Rightarrow> ('h, 'd) peer \<Rightarrow> ((int + unit) \<times> ('h, 'd) peer) option" where
  "attest_destination env rt il p = do {
     ret \<leftarrow> verify_platform_step env rt p;
     if ret \<noteq> 0 then Some (Inl ret, p)
     else do {
       (ret, p) \<leftarrow> deal_ima env rt il p;
       if ret \<noteq> 0 then Some (Inl ret, p)
       else if use_firmware (p_static p) \<or> dump_eventlog (p_static p) then do {
         (ret, p) \<leftarrow> request_and_save_firmware_data env rt p;
         if ret \<noteq> 0 then Some (Inl ret, p)
         else if dump_eventlog (p_static p) then do {
           ret \<leftarrow> handle_eventlogs_command env (p_files p);
           Some (Inl ret, p)
         }
         else do {
           ret \<leftarrow> verify_firmware_step env rt p;
           Some (if ret \<noteq> 0 then Inl ret else Inr (), p)
         }
       }
       else Some (Inr (), p)
     }
   }"

text \<open>
  Handing over the key. Anything but \<open>MSK_ACK\<close> as the answer leaves the key unsent and the return
  code 0.
\<close>

definition key_package :: "mig_agent_args \<Rightarrow> bytes" where
  "key_package a = package_bytes (msk a @ rand_iv a @ tag a)"

definition send_msk :: "('h, 'd) rats \<Rightarrow> ('h, 'd) peer \<Rightarrow> ((int + int) \<times> ('h, 'd) peer) option" where
  "send_msk rt p =
     (let (ret, n, h) = rt_transmit rt (bytes_of_string ''MSK_SEND'') (p_tls p); p = p\<lparr>p_tls := h\<rparr> in
      if ret \<noteq> 0 \<or> n \<noteq> 8 then Some (Inl ret, p)
      else do {
        (ret, buf, h) \<leftarrow> receive_request rt h;
        let p = p\<lparr>p_tls := h\<rparr>;
        if ret \<noteq> 0 then Some (Inl ret, p)
        else if starts_with buf ''MSK_ACK'' then
          let (ret, _, h) = rt_transmit rt (key_package (p_args p)) h; p = p\<lparr>p_tls := h\<rparr> in
          Some (if ret \<noteq> 0 then Inl ret else Inr ret, p)
        else Some (Inr ret, p)
      })"

record integrity_socket =
  io_guest_rd :: u64
  io_is_server :: bool

text \<open>
  The end of both startup functions: the thread that checks the integrity of the migrated memory
  is created when its parameters can be allocated (32 bytes). The result has the parameters of
  the thread.
\<close>

definition start_io_thread :: "('c, 'x, 'k) env \<Rightarrow> u64 \<Rightarrow> bool \<Rightarrow> integrity_socket option" where
  "start_io_thread env guest is_server =
     (if e_malloc env 32 then Some \<lparr>io_guest_rd = guest, io_is_server = is_server\<rparr> else None)"

definition conf_of_args :: "mig_agent_args \<Rightarrow> bool \<Rightarrow> (string \<times> mig_agent_args) option \<Rightarrow> rats_conf option" where
  "conf_of_args a server claims = do {
     at \<leftarrow> attester_type a;
     ve \<leftarrow> verifier_type a;
     tl \<leftarrow> tls_type a;
     cr \<leftarrow> crypto_type a;
     Some \<lparr>conf_attester = at, conf_verifier = ve, conf_tls = tl, conf_crypto = cr, conf_server = server,
       conf_mutual = mutual a, conf_endorsements = provide_endorsements a, conf_claims = claims\<rparr>
   }"

datatype net_call = Socket_call | Reuseaddr | Keepalive | Keepidle | Keepintvl | Keepcnt | Bind_call | Listen_call
  | Accept_call | Inet_pton | Connect_call

text \<open>
  The socket calls, \<open>net_ok\<close>, succeed or end the function. The way out cleans up the session, which
  reads the handle: without one it is undefined.
\<close>

definition client_conf :: "mig_agent_args \<Rightarrow> rats_conf option" where
  "client_conf a = conf_of_args a False (Some (''mig_agent_args'', a))"

definition rats_tls_client_startup ::
    "('c, 'x, 'k) env \<Rightarrow> ('h, 'd) rats \<Rightarrow> ima_lib \<Rightarrow> (net_call \<Rightarrow> bool) \<Rightarrow> bytes \<Rightarrow> nat \<Rightarrow> ('h, 'd) peer
     \<Rightarrow> (int \<times> integrity_socket option \<times> ('h, 'd) peer) option" where
  "rats_tls_client_startup env rt il net_ok g_rim_ref g_rim_ref_size p = do {
     let p = p\<lparr>p_static := p_args p\<rparr>;
     conf \<leftarrow> client_conf (p_args p);
     if \<not> list_all net_ok [Socket_call, Inet_pton, Connect_call]
     then Some (rt_err rt RATS_TLS_ERR_INVALID, None, p)
     else if \<not> e_malloc env 8 then Some (0, None, p)
     else do {
       let (ret, handle) = rt_init rt conf;
       h \<leftarrow> handle;
       let p = p\<lparr>p_tls := h\<rparr>;
       if ret \<noteq> 0 then Some (ret, None, p)
       else if \<not> rt_claims rt h then Some (rt_err rt RATS_TLS_ERR_INVALID, None, p)
       else do {
         let (ret, h) = rt_set_callback rt h;
         let p = p\<lparr>p_tls := h\<rparr>;
         if ret \<noteq> 0 then Some (ret, None, p)
         else do {
           (ret, fs, h) \<leftarrow> rt_negotiate rt (Some (\<lambda>ev fs. user_callback env g_rim_ref g_rim_ref_size fs ev))
                             (p_files p) h;
           let p = p\<lparr>p_tls := h, p_files := fs\<rparr>;
           if ret \<noteq> 0 then Some (ret, None, p)
           else do {
             (r, p) \<leftarrow> attest_destination env rt il p;
             case r of
               Inl ret \<Rightarrow> Some (ret, None, p)
             | Inr _ \<Rightarrow>
                 let (ret, p) = deal_fde_key env rt p in
                 if ret \<noteq> 0 then Some (ret, None, p)
                 else do {
                   (r, p) \<leftarrow> send_msk rt p;
                   case r of
                     Inl ret \<Rightarrow> Some (ret, None, p)
                   | Inr ret \<Rightarrow> Some (ret, start_io_thread env (guest_rd (p_args p)) False, p)
                 }
           }
         }
       }
     }
   }"

definition rats_tls_server_startup ::
    "('c, 'x, 'k) env \<Rightarrow> ('h, 'd) rats \<Rightarrow> (net_call \<Rightarrow> bool) \<Rightarrow> ('h, 'd) peer
     \<Rightarrow> (int \<times> integrity_socket option \<times> ('h, 'd) peer) option" where
  "rats_tls_server_startup env rt net_ok p = do {
     let guest = guest_rd (p_args p);
     let result = (\<lambda>ret. if ret = 0x68 then 0x68 else if ret = (0 :: int) then 0x67 else -1 :: int);
     conf \<leftarrow> conf_of_args (p_args p) True None;
     if \<not> list_all net_ok [Socket_call, Reuseaddr, Keepalive, Keepidle, Keepintvl, Keepcnt, Bind_call, Listen_call]
     then Some (result (rt_err rt RATS_TLS_ERR_INVALID), None, p)
     else if \<not> e_malloc env 8 then Some (result 0, None, p)
     else do {
       let (ret, handle) = rt_init rt conf;
       h \<leftarrow> handle;
       let p = p\<lparr>p_tls := h\<rparr>;
       if ret \<noteq> 0 then Some (result ret, None, p)
       else do {
         let (ret, h) = rt_set_callback rt h;
         let p = p\<lparr>p_tls := h\<rparr>;
         if ret \<noteq> 0 then Some (result ret, None, p)
         else if \<not> net_ok Accept_call then Some (result (rt_err rt RATS_TLS_ERR_INVALID), None, p)
         else do {
           (ret, fs, h) \<leftarrow> rt_negotiate rt None (p_files p) h;
           let p = p\<lparr>p_tls := h, p_files := fs\<rparr>;
           if ret \<noteq> 0 then Some (result ret, None, p)
           else do {
             (ret, p) \<leftarrow> deal_client_req env rt p;
             if ret \<noteq> 0 \<and> ret \<noteq> 0x68 then Some (result ret, None, p)
             else Some (result ret, start_io_thread env guest True, p)
           }
         }
       }
     }
   }"


section \<open>The package\<close>

lemma package_words_bytes:
  "length ws = n \<Longrightarrow> package_words n (package_bytes ws @ rest) = ws"
proof (induction ws arbitrary: n)
  case (Cons w ws)
  have "length (word_bytes w) = 8" by simp
  then show ?case using Cons by (cases n) (auto simp: package_bytes_def word_of_bytes_word_bytes)
qed (simp add: package_bytes_def)

lemma length_package_bytes: "length (package_bytes ws) = 8 * length ws"
  by (induction ws) (simp_all add: package_bytes_def)

lemma word_bytes_word_of_bytes: "length bs = 8 \<Longrightarrow> word_bytes (word_of_bytes bs :: u64) = bs"
  using le_nat_bound [of bs] le_bytes_le_nat [of bs]
  by (simp add: word_bytes_def word_of_bytes_def unat_of_nat)

lemma length_package_words [simp]: "length (package_words n bs) = n"
  by (induction n arbitrary: bs) simp_all

lemma package_bytes_words:
  "length bs = 8 * n \<Longrightarrow> package_bytes (package_words n bs) = bs"
proof (induction n arbitrary: bs)
  case (Suc n)
  then have "word_bytes (word_of_bytes (take 8 bs) :: u64) = take 8 bs"
    by (intro word_bytes_word_of_bytes) simp
  then show ?case using Suc.IH [of "drop 8 bs"] Suc.prems by (simp add: package_bytes_def)
qed (simp add: package_bytes_def)

text \<open>A package of 80 bytes, field by field.\<close>

lemma package_fields:
  assumes "length d = 80"
  obtains key iv tg where "length key = 4" "length iv = 4" "length tg = 2"
    "d = concat (map word_bytes (key @ iv @ tg))"
    "\<And>a. msk_info d a = a\<lparr>mi_msk := key, mi_rand_iv := iv, mi_tag := tg, slot_status := SLOT_IS_READY, set_key := False\<rparr>"
proof -
  define ws where "ws = package_words 10 d"
  have l: "length ws = 10" by (simp add: ws_def)
  have "take 4 ws @ take 4 (drop 4 ws) @ take 2 (drop 8 ws) = ws"
    using l by (intro nth_equalityI) (auto simp: nth_append)
  moreover have "d = package_bytes ws" using assms by (simp add: ws_def package_bytes_words)
  moreover have "msk_info d a = a\<lparr>mi_msk := take 4 ws, mi_rand_iv := take 4 (drop 4 ws), mi_tag := take 2 (drop 8 ws),
      slot_status := SLOT_IS_READY, set_key := False\<rparr>" for a
    unfolding msk_info_def ws_def Let_def by (rule refl)
  ultimately show ?thesis
    using that [of "take 4 ws" "take 4 (drop 4 ws)" "take 2 (drop 8 ws)"] l
    by (simp only: package_bytes_def) simp
qed

text \<open>The sizes of the arrays of \<open>mig_agent_args\<close>.\<close>

definition args_wf :: "mig_agent_args \<Rightarrow> bool" where
  "args_wf a \<longleftrightarrow> length (msk a) = 4 \<and> length (rand_iv a) = 4 \<and> length (tag a) = 2"

lemma length_key_package: "args_wf a \<Longrightarrow> length (key_package a) = 80"
  by (simp add: key_package_def length_package_bytes args_wf_def)

lemma msk_info_key_package:
  assumes "args_wf a"
  shows "msk_info (key_package a) i =
    i\<lparr>mi_msk := msk a, mi_rand_iv := rand_iv a, mi_tag := tag a, slot_status := SLOT_IS_READY, set_key := False\<rparr>"
  using package_words_bytes [of "msk a @ rand_iv a @ tag a" 10 "[]"] assms
  by (simp add: msk_info_def key_package_def args_wf_def Let_def)

lemma wipe_args_wf [simp]: "args_wf (wipe_args a)"
  by (simp add: args_wf_def wipe_args_def)


section \<open>Storing the key\<close>

text \<open>The state of the device after the key of a package was stored for a guest.\<close>

definition dev_store :: "('h, 'd) rats \<Rightarrow> tsi_ctx \<Rightarrow> u64 \<Rightarrow> migration_info \<Rightarrow> 'd \<Rightarrow> int \<times> 'd" where
  "dev_store rt ctx guest info dev =
     (let (ret, _, dev) = rt_io rt (fd ctx) OP_MIGRATE_SET_SLOT guest info dev in
      (if ret \<noteq> 0 then TSI_ERROR else TSI_SUCCESS, dev))"

lemma store_msk_eq: "store_msk rt ctx pkg m a dev = dev_store rt ctx (vm_guest_rd m) (msk_info pkg a) dev"
  by (simp add: store_msk_def dev_store_def set_migration_bind_slot_and_mask_def Let_def split: prod.splits)

section \<open>The handover of the key\<close>

text \<open>
  A session that delivers the messages of the other side whole and in order: what is still to be
  received, and what was sent.
\<close>

type_synonym msg_queue = "bytes list \<times> bytes list"

definition q_receive :: "nat \<Rightarrow> msg_queue \<Rightarrow> int \<times> bytes \<times> msg_queue" where
  "q_receive n q =
     (case fst q of
        [] \<Rightarrow> (-1, [], q)
      | m # ms \<Rightarrow> (0, take n m, (if length m \<le> n then ms else drop n m # ms, snd q)))"

definition q_transmit :: "bytes \<Rightarrow> msg_queue \<Rightarrow> int \<times> nat \<times> msg_queue" where
  "q_transmit bs q = (0, length bs, (fst q, snd q @ [bs]))"

definition queue_rats :: "(msg_queue, 'd) rats \<Rightarrow> (msg_queue, 'd) rats" where
  "queue_rats rt = rt\<lparr>rt_receive := q_receive, rt_transmit := q_transmit\<rparr>"

lemma queue_rats_simps [simp]:
  "rt_receive (queue_rats rt) = q_receive" "rt_transmit (queue_rats rt) = q_transmit"
  "rt_io (queue_rats rt) = rt_io rt" "rt_tsi (queue_rats rt) = rt_tsi rt" "rt_err (queue_rats rt) = rt_err rt"
  by (simp_all add: queue_rats_def)

definition msk_send_buf :: bytes where
  "msk_send_buf = bytes_of_string ''MSK_SEND'' @ replicate 248 0"

lemma receive_request_queue:
  assumes "length m \<le> 256"
  shows "receive_request (queue_rats rt) (m # ms, outs) =
    Some (0, take 255 m @ replicate (256 - length (take 255 m)) 0, (ms, outs))"
proof (cases "length m = 256")
  case True
  then have "mem_write m 255 [0] = Some (take 255 m @ [0])" by (simp add: mem_write_def)
  then show ?thesis using True assms
    by (simp add: receive_request_def q_receive_def recv_buf_def mem_write_def Let_def)
next
  case False
  then have l: "length m \<le> 255" "256 - length m = Suc (255 - length m)" using assms by simp_all
  have "mem_write (m @ replicate (256 - length m) 0) (length m) [0] = Some (m @ replicate (256 - length m) 0)"
    unfolding l(2) by (simp add: mem_write_def)
  moreover have "recv_buf 256 m = Some (m @ replicate (256 - length m) 0)"
    using l by (simp add: recv_buf_def mem_write_def)
  ultimately show ?thesis using l by (simp add: receive_request_def q_receive_def Let_def)
qed

lemma msk_send_request:
  "starts_with msk_send_buf ''MSK_SEND''" "\<not> starts_with msk_send_buf ''REQUEST_CCEL_TABLE''"
  "\<not> starts_with msk_send_buf ''REQUEST_EVENT_LOG''" "\<not> starts_with msk_send_buf ''ATTESTATION_PASS''"
  "\<not> starts_with msk_send_buf ''REQUEST_IMA_LOG''" "\<not> starts_with msk_send_buf ''ENABLE_FDE_TOKEN''"
  by (simp_all add: starts_with_def msk_send_buf_def bytes_of_string_def)

definition ack_msg :: bytes where
  "ack_msg = reply_buf msk_send_buf ''MSK_ACK''"

lemma ack_msg_facts: "length ack_msg = 256" "starts_with (take 255 ack_msg @ rest) ''MSK_ACK''"
  by (simp_all add: ack_msg_def reply_buf_def msk_send_buf_def c_lit_def starts_with_def bytes_of_string_def)

lemma receive_msk_send:
  "receive_request (queue_rats rt) (bytes_of_string ''MSK_SEND'' # ms, outs) = Some (0, msk_send_buf, ms, outs)"
  by (subst receive_request_queue) (simp_all add: msk_send_buf_def)

lemma receive_ack:
  "receive_request (queue_rats rt) (ack_msg # ms, outs) = Some (0, take 255 ack_msg @ [0], ms, outs)"
  by (subst receive_request_queue) (simp_all add: ack_msg_facts)

lemma send_msk_acknowledged:
  assumes "p_tls p = ([ack_msg], [])"
  shows "send_msk (queue_rats rt) p =
    Some (Inr 0, p\<lparr>p_tls := ([], [bytes_of_string ''MSK_SEND'', key_package (p_args p)])\<rparr>)"
  using assms by (simp add: send_msk_def q_transmit_def Let_def receive_ack ack_msg_facts)

lemma receive_and_save_msk_bound:
  assumes "\<And>n. e_malloc env n" "tsi_new_ctx (e_malloc env) (rt_tsi rt) = Some ctx"
    and "p_tls p = ([key_package a], outs)" "args_wf a"
    and "peek_rds (rt_io rt) ctx (guest_rd (p_args p)) (p_dev p) = (0, i, dev1)"
      "pending_guest_rds i = Some rds" "length rds = MAX_BIND_VM" "guest_rd (p_args p) \<in> set rds"
    and "dev_store rt ctx (guest_rd (p_args p)) (msk_info (key_package a) i) dev1 = (ret, dev2)"
  shows "receive_and_save_msk env (queue_rats rt) p =
    Some (ret, p\<lparr>p_tls := ([], outs), p_dev := dev2, p_args := wipe_args (p_args p)\<rparr>)"
proof -
  obtain m where m: "vm_guest_rd m = guest_rd (p_args p)" "bound_guest (e_malloc env) (rt_io rt) ctx
      (rt_err rt RATS_TLS_ERR_UNKNOWN) (guest_rd (p_args p)) (p_dev p) = Some (Inr (m, i), dev1)"
    using bound_guest_succeeds [where malloc_ok = "e_malloc env", OF assms(1,5-8)] by blast
  have "dev_store (queue_rats rt) = dev_store rt" by (intro ext) (simp add: dev_store_def)
  then have "store_msk (queue_rats rt) ctx (key_package a) m i dev1 = (ret, dev2)"
    unfolding store_msk_eq using m(1) assms(9) by simp
  then show ?thesis using assms(2,3) m(2) length_key_package [OF assms(4)]
    by (simp add: receive_and_save_msk_def q_receive_def Let_def)
qed

text \<open>A device that binds the guest 7 and keeps the slots set, and two peers, for evaluation.\<close>

definition demo_io :: "(u64 \<times> migration_info) list mig_io" where
  "demo_io h op guest info dev =
     (case op of
        OP_MIGRATE_PEEK_RDS \<Rightarrow> (0, info\<lparr>pending_guest_rds := Some (7 # replicate 255 0)\<rparr>, dev)
      | OP_MIGRATE_SET_SLOT \<Rightarrow> (0, info, dev @ [(guest, info)])
      | OP_MIGRATE_GET_ATTR \<Rightarrow> (0, info, dev))"

definition demo_rats :: "(msg_queue, (u64 \<times> migration_info) list) rats" where
  "demo_rats = \<lparr>rt_receive = q_receive, rt_transmit = q_transmit, rt_init = (\<lambda>_. (0, Some ([], []))),
     rt_set_callback = (\<lambda>h. (0, h)), rt_negotiate = (\<lambda>_ fs h. Some (0, fs, h)), rt_claims = (\<lambda>_. True),
     rt_evidence = (\<lambda>_. None), rt_err = (\<lambda>_. 1), rt_io = demo_io,
     rt_tsi = \<lparr>dev_open = 3, dev_version = (\<lambda>_. (0, 1, 0)), dev_token = (\<lambda>_ cmd. (1, cmd)),
               dev_get_cert = (\<lambda>_ dc. (1, dc))\<rparr>\<rparr>"

definition demo_args :: "u64 \<Rightarrow> mig_agent_args" where
  "demo_args guest = \<lparr>agent_type = 0, attester_type = Some [], verifier_type = Some [], tls_type = Some ''openssl'',
     crypto_type = Some ''openssl'', srv_ip = Some ''10.0.0.2'', port = 1234, digest_file = Some [], mutual = True,
     provide_endorsements = False, use_firmware = False, dump_eventlog = False, ref_json_file = None, use_fde = False,
     rootfs_key_file = None, verify_platform_components = False, platform_ref_json_file = None, guest_rd = guest,
     msk = [1, 2, 3, 4], rand_iv = [5, 6, 7, 8], tag = [9, 10]\<rparr>"

definition demo_peer :: "msg_queue \<Rightarrow> (msg_queue, (u64 \<times> migration_info) list) peer" where
  "demo_peer q = \<lparr>p_tls = q, p_dev = [], p_files = (\<lambda>_. None), p_args = demo_args 7, p_static = demo_args 7, p_sig = SigFmt\<rparr>"

definition demo_ctx :: tsi_ctx where "demo_ctx = \<lparr>fd = 3\<rparr>"

definition demo_bound :: migration_info where
  "demo_bound = zero_migration_info\<lparr>pending_guest_rds := Some (7 # replicate 255 0)\<rparr>"

definition demo_info :: migration_info where
  "demo_info = demo_bound\<lparr>mi_msk := [1, 2, 3, 4], mi_rand_iv := [5, 6, 7, 8], mi_tag := [9, 10],
     slot_status := SLOT_IS_READY, set_key := False\<rparr>"

lemma demo_facts:
  "queue_rats demo_rats = demo_rats" "tsi_new_ctx (\<lambda>_. True) (rt_tsi demo_rats) = Some demo_ctx"
  "e_malloc demo_env = (\<lambda>_. True)" "args_wf (demo_args g)" "guest_rd (demo_args g) = g"
  "peek_rds (rt_io demo_rats) demo_ctx 7 dev = (0, demo_bound, dev)"
  "dev_store demo_rats demo_ctx 7 demo_info [] = (0, [(7, demo_info)])"
  "pending_guest_rds demo_bound = Some (7 # replicate 255 0)"
  "p_args (demo_peer q) = demo_args 7" "p_dev (demo_peer q) = []" "p_tls (demo_peer q) = q"
  by (simp_all add: queue_rats_def demo_rats_def tsi_new_ctx_def demo_ctx_def demo_env_def args_wf_def demo_args_def
      peek_rds_def demo_io_def dev_store_def demo_bound_def demo_peer_def)

lemma demo_key: "i\<lparr>mi_msk := msk (demo_args g), mi_rand_iv := rand_iv (demo_args g), mi_tag := tag (demo_args g),
    slot_status := SLOT_IS_READY, set_key := False\<rparr> =
  i\<lparr>mi_msk := [1, 2, 3, 4], mi_rand_iv := [5, 6, 7, 8], mi_tag := [9, 10], slot_status := SLOT_IS_READY, set_key := False\<rparr>"
  by (simp add: demo_args_def)

lemma demo_receives:
  "receive_and_save_msk demo_env demo_rats (demo_peer ([key_package (demo_args 7)], [])) =
   Some (0, (demo_peer ([], []))\<lparr>p_dev := [(7, demo_info)], p_args := wipe_args (demo_args 7)\<rparr>)"
proof -
  have "receive_and_save_msk demo_env (queue_rats demo_rats) (demo_peer ([key_package (demo_args 7)], [])) =
    Some (0, (demo_peer ([key_package (demo_args 7)], []))\<lparr>p_tls := ([], []), p_dev := [(7, demo_info)],
      p_args := wipe_args (p_args (demo_peer ([key_package (demo_args 7)], [])))\<rparr>)"
    by (rule receive_and_save_msk_bound [where a = "demo_args 7" and i = demo_bound and rds = "7 # replicate 255 0" and ctx = demo_ctx
          and ?dev1.0 = "[]"])
      (simp_all add: demo_facts msk_info_key_package demo_key flip: demo_info_def)
  then show ?thesis by (simp add: demo_facts) (simp add: demo_peer_def)
qed

text \<open>
  C3. The destination stores a key only for a guest that the device lists as bound to this agent,
  and it stores the key it received: a run of \<open>receive_and_save_msk\<close> leaves the device as it was, or as
  the query for the bound guests left it, or else the guest is in the list the query returned and
  the slot of the guest was set ready with the four words of the key, the four of the
  initialisation vector and the two of the tag that a received message of 80 bytes consists of; all
  else in the slot is what the query returned, and the result is that of the device. On every
  path, errors included, the guest and the key material in the arguments are overwritten with
  zeros, and no file changes.
\<close>
theorem msk_stored_for_bound_guest:
  assumes "receive_and_save_msk env rt p = Some (ret, p')"
  shows "p_args p' = (p_args p)\<lparr>guest_rd := 0, msk := replicate 4 0, tag := replicate 2 0, rand_iv := replicate 4 0\<rparr> \<and>
    p_files p' = p_files p \<and>
    (p_dev p' = p_dev p \<or>
     (\<exists>ctx r a dev1. tsi_new_ctx (e_malloc env) (rt_tsi rt) = Some ctx \<and>
        peek_rds (rt_io rt) ctx (guest_rd (p_args p)) (p_dev p) = (r, a, dev1) \<and>
        (p_dev p' = dev1 \<or>
         r = 0 \<and> (\<exists>rds. pending_guest_rds a = Some rds \<and> guest_rd (p_args p) \<in> set (take MAX_BIND_VM rds)) \<and>
         (\<exists>key iv tg h. length key = 4 \<and> length iv = 4 \<and> length tg = 2 \<and>
            rt_receive rt 80 (p_tls p) = (0, concat (map word_bytes (key @ iv @ tg)), h) \<and>
            dev_store rt ctx (guest_rd (p_args p))
              (a\<lparr>mi_msk := key, mi_rand_iv := iv, mi_tag := tg, slot_status := SLOT_IS_READY, set_key := False\<rparr>) dev1
              = (ret, p_dev p')))))"
proof (cases "p_dev p' = p_dev p")
  case True
  then show ?thesis using assms unfolding receive_and_save_msk_def
    by (auto simp: Let_def wipe_args_def split: option.splits if_splits bind_splits prod.splits sum.splits)
next
  case False
  then obtain ctx d h where c: "tsi_new_ctx (e_malloc env) (rt_tsi rt) = Some ctx"
    "rt_receive rt 80 (p_tls p) = (0, d, h)" "length d = 80"
    using assms unfolding receive_and_save_msk_def
    by (auto simp: Let_def split: option.splits if_splits bind_splits prod.splits)
  then obtain b dev where b: "bound_guest (e_malloc env) (rt_io rt) ctx (rt_err rt RATS_TLS_ERR_UNKNOWN)
      (guest_rd (p_args p)) (p_dev p) = Some (b, dev)"
    using assms unfolding receive_and_save_msk_def by (auto simp: Let_def split: bind_splits)
  obtain r a dev1 where k: "peek_rds (rt_io rt) ctx (guest_rd (p_args p)) (p_dev p) = (r, a, dev1)"
    by (metis prod_cases3)
  show ?thesis
  proof (cases b)
    case (Inl e)
    then have "dev = p_dev p \<or> dev = dev1" using bound_guest_Inl_dev [of _ _ _ _ _ _ e] b k by fastforce
    then show ?thesis using assms c b Inl k False unfolding receive_and_save_msk_def by (auto simp: wipe_args_def)
  next
    case (Inr ma)
    obtain m a' where "ma = (m, a')" by (cases ma)
    moreover from this obtain rds where "r = 0" "a' = a" "dev = dev1" "pending_guest_rds a = Some rds"
      "guest_rd (p_args p) \<in> set (take MAX_BIND_VM rds)" "vm_guest_rd m = guest_rd (p_args p)"
      using bound_guest_Inr b Inr k by (metis prod.inject)
    moreover have "ret = fst (store_msk rt ctx d m a dev1)" "p_dev p' = snd (store_msk rt ctx d m a dev1)"
      "p_args p' = wipe_args (p_args p)" "p_files p' = p_files p"
      using assms c b Inr calculation unfolding receive_and_save_msk_def by (auto split: prod.splits)
    moreover obtain key iv tg where "length key = 4" "length iv = 4" "length tg = 2"
      "d = concat (map word_bytes (key @ iv @ tg))"
      "msk_info d a = a\<lparr>mi_msk := key, mi_rand_iv := iv, mi_tag := tg, slot_status := SLOT_IS_READY, set_key := False\<rparr>"
      using package_fields [OF c(3)] by metis
    ultimately show ?thesis using c k unfolding store_msk_eq wipe_args_def by (metis prod.collapse)
  qed
qed

theorem msk_stored_for_bound_guest_witness:
  "\<exists>key iv tg h a. length key = 4 \<and> length iv = 4 \<and> length tg = 2 \<and>
     rt_receive demo_rats 80 ([key_package (demo_args 7)], []) = (0, concat (map word_bytes (key @ iv @ tg)), h) \<and>
     dev_store demo_rats demo_ctx 7
       (a\<lparr>mi_msk := key, mi_rand_iv := iv, mi_tag := tg, slot_status := SLOT_IS_READY, set_key := False\<rparr>) [] = (0, [(7, demo_info)])"
proof -
  let ?p = "demo_peer ([key_package (demo_args 7)], [])"
  let ?q = "(demo_peer ([], []))\<lparr>p_dev := [(7, demo_info)], p_args := wipe_args (demo_args 7)\<rparr>"
  have "receive_and_save_msk demo_env demo_rats ?p = Some (0, ?q)" by (rule demo_receives)
  from msk_stored_for_bound_guest [OF this] show ?thesis
    by (simp add: demo_facts del: map_append concat_append) blast
qed

text \<open>
  C19. The migration key arrives. Over a session that delivers every message whole and in order,
  source and destination complete the exchange, each sending exactly the messages the other one
  waits for: the source sends \<open>MSK_SEND\<close> and, on the destination's \<open>MSK_ACK\<close>, the key package, and
  returns 0; the destination, whose guest is bound to its agent, sets the slot of the guest ready
  with the key, the initialisation vector and the tag of the source, and returns the answer of
  the device.
\<close>
theorem msk_handover:
  assumes "\<And>n. e_malloc env n" "tsi_new_ctx (e_malloc env) (rt_tsi rt) = Some ctx" "args_wf (p_args src)"
    and "peek_rds (rt_io rt) ctx (guest_rd (p_args dst)) (p_dev dst) = (0, i, dev1)"
      "pending_guest_rds i = Some rds" "length rds = MAX_BIND_VM" "guest_rd (p_args dst) \<in> set rds"
    and "dev_store rt ctx (guest_rd (p_args dst)) (i\<lparr>mi_msk := msk (p_args src), mi_rand_iv := rand_iv (p_args src),
           mi_tag := tag (p_args src), slot_status := SLOT_IS_READY, set_key := False\<rparr>) dev1 = (ret, dev2)"
  shows "\<exists>to_dst to_src.
    send_msk (queue_rats rt) (src\<lparr>p_tls := (to_src, [])\<rparr>) = Some (Inr 0, src\<lparr>p_tls := ([], to_dst)\<rparr>) \<and>
    deal_client_req env (queue_rats rt) (dst\<lparr>p_tls := (to_dst, [])\<rparr>) =
      Some (ret, dst\<lparr>p_tls := ([], to_src), p_dev := dev2, p_args := wipe_args (p_args dst)\<rparr>)"
proof (intro exI conjI)
  let ?to_dst = "[bytes_of_string ''MSK_SEND'', key_package (p_args src)]"
  show "send_msk (queue_rats rt) (src\<lparr>p_tls := ([ack_msg], [])\<rparr>) = Some (Inr 0, src\<lparr>p_tls := ([], ?to_dst)\<rparr>)"
    by (simp add: send_msk_acknowledged)
  have "receive_and_save_msk env (queue_rats rt) (dst\<lparr>p_tls := ([key_package (p_args src)], [ack_msg])\<rparr>) =
      Some (ret, dst\<lparr>p_tls := ([], [ack_msg]), p_dev := dev2, p_args := wipe_args (p_args dst)\<rparr>)"
    by (subst receive_and_save_msk_bound [OF assms(1,2), where a = "p_args src" and i = i and rds = rds])
      (use assms in \<open>simp_all add: msk_info_key_package\<close>)
  then show "deal_client_req env (queue_rats rt) (dst\<lparr>p_tls := (?to_dst, [])\<rparr>) =
      Some (ret, dst\<lparr>p_tls := ([], [ack_msg]), p_dev := dev2, p_args := wipe_args (p_args dst)\<rparr>)"
    by (subst deal_client_req.simps)
      (simp add: receive_msk_send msk_send_request send_reply_def q_transmit_def ack_msg_def)
qed

theorem msk_handover_witness:
  "\<exists>to_dst to_src.
    send_msk demo_rats (demo_peer (to_src, [])) = Some (Inr 0, demo_peer ([], to_dst)) \<and>
    deal_client_req demo_env demo_rats (demo_peer (to_dst, [])) =
      Some (0, (demo_peer ([], to_src))\<lparr>p_dev := [(7, demo_info)], p_args := wipe_args (demo_args 7)\<rparr>)"
proof -
  have "\<exists>to_dst to_src.
    send_msk (queue_rats demo_rats) ((demo_peer ([], []))\<lparr>p_tls := (to_src, [])\<rparr>) =
      Some (Inr 0, (demo_peer ([], []))\<lparr>p_tls := ([], to_dst)\<rparr>) \<and>
    deal_client_req demo_env (queue_rats demo_rats) ((demo_peer ([], []))\<lparr>p_tls := (to_dst, [])\<rparr>) =
      Some (0, (demo_peer ([], []))\<lparr>p_tls := ([], to_src), p_dev := [(7, demo_info)],
        p_args := wipe_args (p_args (demo_peer ([], [])))\<rparr>)"
    by (rule msk_handover [where i = demo_bound and rds = "7 # replicate 255 0" and ctx = demo_ctx and ?dev1.0 = "[]"])
      (simp_all add: demo_facts demo_key flip: demo_info_def)
  then show ?thesis by (simp add: demo_facts) (simp add: demo_peer_def)
qed


section \<open>What the source sends\<close>

text \<open>The requests of the source while it verifies the destination.\<close>

definition attest_messages :: "bytes set" where
  "attest_messages = bytes_of_string ` {''REQUEST_IMA_LOG'', ''REQUEST_CCEL_TABLE'', ''REQUEST_EVENT_LOG''}"

text \<open>The messages of the handover of the keys: the disk key of \<open>deal_fde_key\<close>, then the session key.\<close>

definition secret_messages :: "('c, 'x, 'k) env \<Rightarrow> ('h, 'd) peer \<Rightarrow> bytes set" where
  "secret_messages env p =
     {bytes_of_string ''ENABLE_FDE_TOKEN'', bytes_of_string ''MSK_SEND'', key_package (p_args p)} \<union>
     {key. use_fde (p_args p) \<and>
        mig_read_file_data (e_malloc env) (e_io env) (p_files p) (rootfs_key_file (p_args p)) = Some key}"

text \<open>
  The handshake of a run of the source with the arguments \<open>p_args p\<close>: the configuration, which carries
  the arguments as custom claim, and the callback are those of the run, and so are the files.
\<close>

definition handshake_run ::
    "('c, 'x, 'k) env \<Rightarrow> ('h, 'd) rats \<Rightarrow> bytes \<Rightarrow> nat \<Rightarrow> ('h, 'd) peer \<Rightarrow> int \<Rightarrow> files \<Rightarrow> 'h \<Rightarrow> bool" where
  "handshake_run env rt rim_ref n p r fs h \<longleftrightarrow>
     (\<exists>conf h0 h1. client_conf (p_args p) = Some conf \<and> rt_init rt conf = (0, Some h0) \<and> rt_set_callback rt h0 = (0, h1) \<and>
        rt_negotiate rt (Some (\<lambda>ev fs. user_callback env rim_ref n fs ev)) (p_files p) h1 = Some (r, fs, h))"

text \<open>One log continues another by messages of a set.\<close>

definition extends_by :: "bytes list \<Rightarrow> bytes list \<Rightarrow> bytes set \<Rightarrow> bool" where
  "extends_by l l' M \<longleftrightarrow> (\<exists>ms. l' = l @ ms \<and> set ms \<subseteq> M)"

lemma extends_by_refl [simp]: "extends_by l l M"
  by (simp add: extends_by_def)

lemma extends_by_snoc [simp]: "extends_by l (l @ ms) M \<longleftrightarrow> set ms \<subseteq> M"
  by (simp add: extends_by_def)

lemma extends_by_trans: "extends_by l l' M \<Longrightarrow> extends_by l' l'' M \<Longrightarrow> extends_by l l'' M"
  by (fastforce simp: extends_by_def)

lemma extends_by_mono: "extends_by l l' M \<Longrightarrow> M \<subseteq> N \<Longrightarrow> extends_by l l' N"
  by (auto simp: extends_by_def)

text \<open>
  The interface of the session the source relies on. The log of a session has the messages handed
  to the library: receiving and the set-up add nothing to it, the handshake may send what it likes,
  among it the custom claim. With a verification callback the handshake succeeds only when the
  callback accepted the evidence of the other side, and only the callback changes files.
\<close>

locale session_log =
  fixes rt :: "('h, 'd) rats" and log :: "'h \<Rightarrow> bytes list"
  assumes log_transmit: "rt_transmit rt bs h = (r, n, h') \<Longrightarrow> log h' = log h @ [bs]"
    and log_receive: "rt_receive rt k h = (r, d, h') \<Longrightarrow> log h' = log h"
    and log_init: "rt_init rt conf = (r, Some h) \<Longrightarrow> log h = []"
    and log_callback: "rt_set_callback rt h = (r, h') \<Longrightarrow> log h' = log h"
    and log_negotiate: "rt_negotiate rt cb fs h = Some (r, fs', h') \<Longrightarrow> \<exists>ms. log h' = log h @ ms"
    and negotiate_verified: "rt_negotiate rt (Some f) fs h = Some (0, fs', h') \<Longrightarrow> \<exists>ev. f ev fs = Some (True, fs')"
begin

lemma recv_loop_log:
  assumes "recv_loop rt n acc h = Some (ret, d, h')"
  shows "log h' = log h"
proof -
  let ?P = "\<lambda>rt' n acc h y. rt' = rt \<longrightarrow> log (snd (snd y)) = log h"
  have "?P rt n acc h (ret, d, h')"
    by (rule recv_loop.raw_induct [where P = ?P, OF _ assms])
      (fastforce simp: Let_def split: prod.splits if_splits dest: log_receive)
  then show ?thesis by simp
qed

lemma recv_size_log: "recv_size rt h = Some (ret, n, k, h') \<Longrightarrow> log h' = log h"
  by (auto simp: recv_size_def split: prod.splits bind_splits dest: log_receive)

lemma receive_request_log: "receive_request rt h = Some (ret, buf, h') \<Longrightarrow> log h' = log h"
  by (auto simp: receive_request_def split: prod.splits bind_splits dest: log_receive)

lemma check_ima_list_log:
  "check_ima_list env rt il p = Some (ret, p') \<Longrightarrow> p_tls p' = p_tls p \<and> p_args p' = p_args p"
  unfolding check_ima_list_def by (auto simp: Let_def split: option.splits bind_splits if_splits)

lemma verify_ima_log_log:
  assumes "verify_ima_log env rt il p = Some (ret, p')"
  shows "log (p_tls p') = log (p_tls p) \<and> p_args p' = p_args p"
proof -
  obtain r n k h where s: "recv_size rt (p_tls p) = Some (r, n, k, h)"
    using assms unfolding verify_ima_log_def by (auto split: bind_splits)
  show ?thesis
    using assms recv_size_log [OF s] unfolding verify_ima_log_def s
    by (auto simp: Let_def split: bind_splits if_splits prod.splits dest!: recv_loop_log check_ima_list_log)
qed

lemma deal_ima_log:
  "deal_ima env rt il p = Some (ret, p') \<Longrightarrow>
   extends_by (log (p_tls p)) (log (p_tls p')) attest_messages \<and> p_args p' = p_args p"
  unfolding deal_ima_def
  by (auto simp: Let_def attest_messages_def split: prod.splits if_splits dest!: verify_ima_log_log dest: log_transmit)

lemma request_and_save_log:
  assumes "request_and_save_firmware_data env rt p = Some (ret, p')"
  shows "extends_by (log (p_tls p)) (log (p_tls p')) attest_messages \<and> p_args p' = p_args p"
proof -
  obtain r1 n1 h1 where t1: "rt_transmit rt (bytes_of_string ''REQUEST_CCEL_TABLE'') (p_tls p) = (r1, n1, h1)"
    by (metis prod_cases3)
  obtain r2 d2 h2 where t2: "rt_receive rt 4096 h1 = (r2, d2, h2)" by (metis prod_cases3)
  obtain r3 n3 h3 where t3: "rt_transmit rt (bytes_of_string ''REQUEST_EVENT_LOG'') h2 = (r3, n3, h3)"
    by (metis prod_cases3)
  have l: "log h1 = log (p_tls p) @ [bytes_of_string ''REQUEST_CCEL_TABLE'']" "log h2 = log h1"
    "log h3 = log h2 @ [bytes_of_string ''REQUEST_EVENT_LOG'']"
    using log_transmit [OF t1] log_receive [OF t2] log_transmit [OF t3] by simp_all
  show ?thesis
    using assms l unfolding request_and_save_firmware_data_def Let_def
    by (auto simp: t1 t2 t3 attest_messages_def split: bind_splits if_splits prod.splits
        dest!: recv_size_log recv_loop_log)
qed

lemma attest_destination_log:
  assumes "attest_destination env rt il p = Some (r, p')"
  shows "extends_by (log (p_tls p)) (log (p_tls p')) attest_messages \<and> p_args p' = p_args p"
proof -
  have f: "extends_by (log (p_tls p)) (log (p_tls q')) attest_messages \<and> p_args q' = p_args p"
    if "deal_ima env rt il p = Some (k, q)" "request_and_save_firmware_data env rt q = Some (k', q')" for k q k' q'
    using deal_ima_log [OF that(1)] request_and_save_log [OF that(2)] by (auto intro: extends_by_trans)
  have "p' = p \<or> (\<exists>k. deal_ima env rt il p = Some (k, p')) \<or>
      (\<exists>k q k'. deal_ima env rt il p = Some (k, q) \<and> request_and_save_firmware_data env rt q = Some (k', p'))"
    using assms unfolding attest_destination_def by (auto split: bind_splits if_splits)
  then show ?thesis using deal_ima_log f by (metis extends_by_refl)
qed

lemma deal_fde_key_log:
  "deal_fde_key env rt p = (ret, p') \<Longrightarrow>
   extends_by (log (p_tls p)) (log (p_tls p')) (secret_messages env p) \<and> p_args p' = p_args p"
  unfolding deal_fde_key_def secret_messages_def
  by (auto simp: Let_def split: prod.splits if_splits option.splits dest!: log_transmit)

lemma send_msk_log:
  "send_msk rt p = Some (r, p') \<Longrightarrow>
   extends_by (log (p_tls p)) (log (p_tls p')) {bytes_of_string ''MSK_SEND'', key_package (p_args p)} \<and> p_args p' = p_args p"
  unfolding send_msk_def
  by (auto simp: Let_def split: prod.splits if_splits bind_splits dest!: log_transmit receive_request_log)

text \<open>The handover after a destination that passed.\<close>

lemma handover_log:
  assumes "deal_fde_key env rt q = (k, p1)" "p' = p1 \<or> send_msk rt p1 = Some (w, p')"
  shows "extends_by (log (p_tls q)) (log (p_tls p')) (secret_messages env q)"
proof -
  have d: "extends_by (log (p_tls q)) (log (p_tls p1)) (secret_messages env q)" "p_args p1 = p_args q"
    using deal_fde_key_log [OF assms(1)] by auto
  have "extends_by (log (p_tls p1)) (log (p_tls p')) (secret_messages env q)"
    using assms(2) send_msk_log [of p1 w p'] d(2) by (auto simp: secret_messages_def elim!: extends_by_mono)
  then show ?thesis using d(1) by (rule extends_by_trans [rotated])
qed

text \<open>The run after a handshake that succeeded with the session \<open>p\<close>.\<close>

lemma after_handshake_log:
  assumes "attest_destination env rt il p = Some (v, q)" "v = Inl e \<Longrightarrow> p' = q"
    and "v = Inr () \<Longrightarrow> \<exists>k p1 w. deal_fde_key env rt q = (k, p1) \<and> (p' = p1 \<or> send_msk rt p1 = Some (w, p'))"
    and "v = Inl e \<or> v = Inr ()"
  shows "extends_by (log (p_tls p)) (log (p_tls p')) attest_messages \<or>
    v = Inr () \<and> p_args q = p_args p \<and> extends_by (log (p_tls p)) (log (p_tls q)) attest_messages \<and>
    extends_by (log (p_tls q)) (log (p_tls p')) (secret_messages env q)"
  using assms(4)
proof
  assume "v = Inl e"
  then show ?thesis using attest_destination_log [OF assms(1)] assms(2) by simp
next
  assume v: "v = Inr ()"
  then obtain k p1 w where "deal_fde_key env rt q = (k, p1)" "p' = p1 \<or> send_msk rt p1 = Some (w, p')"
    using assms(3) by blast
  then show ?thesis using v attest_destination_log [OF assms(1)] handover_log by blast
qed

text \<open>
  The run of the source: before the handshake it sends nothing, after one that failed nothing more;
  after one that succeeded, evidence was accepted, and it sends the requests of the attestation and,
  when the destination passed, the messages of the handover.
\<close>

lemma client_startup_log:
  assumes "rats_tls_client_startup env rt il net_ok rim_ref n p = Some (ret, ios, p')" "log (p_tls p) = []"
  shows "log (p_tls p') = [] \<or>
    (\<exists>r fs h. handshake_run env rt rim_ref n p r fs h \<and>
       (log (p_tls p') = log h \<or>
        r = 0 \<and> (\<exists>ev. user_callback env rim_ref n (p_files p) ev = Some (True, fs)) \<and>
        (extends_by (log h) (log (p_tls p')) attest_messages \<or>
         (\<exists>q. attest_destination env rt il (p\<lparr>p_static := p_args p, p_tls := h, p_files := fs\<rparr>) = Some (Inr (), q) \<and>
            p_args q = p_args p \<and> extends_by (log h) (log (p_tls q)) attest_messages \<and>
            extends_by (log (p_tls q)) (log (p_tls p')) (secret_messages env q)))))"
proof (cases "log (p_tls p') = []")
  case False
  then obtain conf r0 h0 where c: "client_conf (p_args p) = Some conf" "rt_init rt conf = (r0, Some h0)"
    using assms unfolding rats_tls_client_startup_def
    by (auto simp: Let_def split: bind_splits if_splits prod.splits)
  obtain r1 h1 where s: "rt_set_callback rt h0 = (r1, h1)" by (metis surj_pair)
  have l: "log h0 = []" "log h1 = []" using log_init [OF c(2)] log_callback [OF s] by simp_all
  then obtain r fs h where g: "r0 = 0" "r1 = 0"
      "rt_negotiate rt (Some (\<lambda>ev fs. user_callback env rim_ref n fs ev)) (p_files p) h1 = Some (r, fs, h)"
    using assms c False s unfolding rats_tls_client_startup_def
    by (auto simp: Let_def split: bind_splits if_splits prod.splits)
  have hs: "handshake_run env rt rim_ref n p r fs h"
    using c s g unfolding handshake_run_def by blast
  let ?p = "p\<lparr>p_static := p_args p, p_tls := h, p_files := fs\<rparr>"
  show ?thesis
  proof (cases "r = 0")
    case False
    then have "log (p_tls p') = log h" using assms c s g l \<open>log (p_tls p') \<noteq> []\<close>
      unfolding rats_tls_client_startup_def
      by (auto simp: Let_def split: bind_splits if_splits)
    then show ?thesis using hs by blast
  next
    case True
    have "\<exists>ev. user_callback env rim_ref n (p_files p) ev = Some (True, fs)"
      using negotiate_verified g(3) True by blast
    moreover obtain v q where v: "attest_destination env rt il ?p = Some (v, q)"
      using assms c s g l False True unfolding rats_tls_client_startup_def
      by (auto simp: Let_def split: bind_splits if_splits)
    moreover obtain e where "v = Inl e \<or> v = Inr ()" by (cases v) auto
    moreover have "v = Inl e \<Longrightarrow> p' = q" for e
      using assms c s g v True l False unfolding rats_tls_client_startup_def
      by (auto simp: Let_def split: if_splits)
    moreover have "v = Inr () \<Longrightarrow> \<exists>k p1 w. deal_fde_key env rt q = (k, p1) \<and> (p' = p1 \<or> send_msk rt p1 = Some (w, p'))"
      using assms c s g v True l False unfolding rats_tls_client_startup_def
      by (cases "deal_fde_key env rt q") (auto simp: Let_def split: if_splits bind_splits sum.splits)
    ultimately show ?thesis using hs True after_handshake_log [of env il ?p v q e p'] by fastforce
  qed
qed simp

end

text \<open>
  The message queue as a session: the first message of the other side is its evidence, which the
  handshake gives to the callback.
\<close>

definition q_negotiate ::
    "(bytes \<Rightarrow> files \<Rightarrow> (bool \<times> files) option) option \<Rightarrow> files \<Rightarrow> msg_queue \<Rightarrow> (int \<times> files \<times> msg_queue) option" where
  "q_negotiate cb fs q =
     (case cb of
        None \<Rightarrow> Some (0, fs, q)
      | Some f \<Rightarrow>
          (case fst q of
             [] \<Rightarrow> Some (-1, fs, q)
           | ev # ms \<Rightarrow> do { (ok, fs) \<leftarrow> f ev fs; Some (if ok then 0 else -1, fs, ms, snd q) }))"

definition session_rats :: "bytes list \<Rightarrow> (msg_queue, 'd) rats \<Rightarrow> (msg_queue, 'd) rats" where
  "session_rats ins rt = (queue_rats rt)\<lparr>rt_init := (\<lambda>_. (0, Some (ins, []))), rt_set_callback := (\<lambda>h. (0, h)),
     rt_negotiate := q_negotiate\<rparr>"

lemma session_rats_simps [simp]:
  "rt_receive (session_rats ins rt) = q_receive" "rt_transmit (session_rats ins rt) = q_transmit"
  "rt_init (session_rats ins rt) conf = (0, Some (ins, []))" "rt_set_callback (session_rats ins rt) h = (0, h)"
  "rt_negotiate (session_rats ins rt) = q_negotiate" "rt_claims (session_rats ins rt) = rt_claims rt"
  by (simp_all add: session_rats_def queue_rats_def)

interpretation msg_session: session_log "session_rats ins rt" snd for ins rt
proof unfold_locales
  fix cb :: "(bytes \<Rightarrow> files \<Rightarrow> (bool \<times> files) option) option" and fs r fs' and h h' :: msg_queue
  assume "rt_negotiate (session_rats ins rt) cb fs h = Some (r, fs', h')"
  then show "\<exists>ms. snd h' = snd h @ ms"
    by (auto simp: q_negotiate_def split: option.splits list.splits bind_splits)
next
  fix f :: "bytes \<Rightarrow> files \<Rightarrow> (bool \<times> files) option" and fs fs' and h h' :: msg_queue
  assume "rt_negotiate (session_rats ins rt) (Some f) fs h = Some (0, fs', h')"
  then show "\<exists>ev. f ev fs = Some (True, fs')"
    by (auto simp: q_negotiate_def split: list.splits bind_splits if_splits)
qed (auto simp: q_transmit_def q_receive_def split: list.splits)

lemma session_receive [simp]: "receive_request (session_rats ins rt) = receive_request (queue_rats rt)"
  by (intro ext) (simp add: receive_request_def)

text \<open>A source that migrates to a destination with the sample evidence.\<close>

definition demo_src :: "(msg_queue, (u64 \<times> migration_info) list) peer" where
  "demo_src = (demo_peer ([], []))\<lparr>p_files := toy_files\<rparr>"

definition demo_ima :: ima_lib where
  "demo_ima = \<lparr>il_md_size = (\<lambda>_. None), il_sha1 = (\<lambda>_. None), il_system = (\<lambda>_. 1)\<rparr>"

lemma plain_migration:
  assumes a: "\<not> use_firmware (p_args p)" "\<not> use_fde (p_args p)" "\<not> verify_platform_components (p_args p)"
      "digest_file (p_args p) = Some []" "client_conf (p_args p) = Some conf" "\<not> dump_eventlog (p_args p)"
    and f: "p_files p = toy_files"
  shows "rats_tls_client_startup chain_env (session_rats [sample_evidence, ack_msg] demo_rats) demo_ima (\<lambda>_. True)
     (replicate 32 3) 32 p =
   Some (0, Some \<lparr>io_guest_rd = guest_rd (p_args p), io_is_server = False\<rparr>,
     p\<lparr>p_static := p_args p, p_tls := ([], [bytes_of_string ''MSK_SEND'', key_package (p_args p)])\<rparr>)"
proof -
  let ?rt = "session_rats [sample_evidence, ack_msg] demo_rats"
    and ?q = "p\<lparr>p_static := p_args p, p_tls := ([ack_msg], [])\<rparr>"
  have "send_msk ?rt ?q = Some (Inr 0, ?q\<lparr>p_tls := ([], [bytes_of_string ''MSK_SEND'', key_package (p_args ?q)])\<rparr>)"
    by (simp add: send_msk_def q_transmit_def Let_def receive_ack ack_msg_facts)
  moreover have "attest_destination chain_env ?rt demo_ima ?q = Some (Inr (), ?q)"
    using a by (simp add: attest_destination_def verify_platform_step_def deal_ima_def)
  moreover have "deal_fde_key chain_env ?rt ?q = (0, ?q)"
    using a by (simp add: deal_fde_key_def)
  moreover have "e_malloc chain_env = (\<lambda>_. True)" "rt_claims demo_rats = (\<lambda>_. True)"
    by (simp_all add: chain_env_def demo_env_def demo_rats_def)
  moreover have e: "p\<lparr>p_static := a, p_tls := h, p_files := toy_files\<rparr> = p\<lparr>p_static := a, p_tls := h\<rparr>" for h a
    using f by (cases p) simp
  ultimately show ?thesis
    using a(5) f by (auto simp: e rats_tls_client_startup_def q_negotiate_def sample_evidence_accepted start_io_thread_def)
qed

lemma demo_conf: "\<exists>conf. client_conf (demo_args g) = Some conf"
  by (simp add: client_conf_def conf_of_args_def demo_args_def)

lemma demo_migration:
  "rats_tls_client_startup chain_env (session_rats [sample_evidence, ack_msg] demo_rats) demo_ima (\<lambda>_. True)
     (replicate 32 3) 32 demo_src =
   Some (0, Some \<lparr>io_guest_rd = 7, io_is_server = False\<rparr>,
     demo_src\<lparr>p_static := demo_args 7, p_tls := ([], [bytes_of_string ''MSK_SEND'', key_package (demo_args 7)])\<rparr>)"
proof -
  obtain conf where "client_conf (demo_args 7) = Some conf" using demo_conf by blast
  then show ?thesis
    using plain_migration [of demo_src conf] by (simp add: demo_src_def demo_peer_def) (simp add: demo_args_def)
qed




section \<open>The static copy of the arguments\<close>

text \<open>
  A run of the source leaves the copy of its arguments, with the key in it, in the static variable,
  whatever its result.
\<close>

lemma check_ima_list_static: "check_ima_list env rt il p = Some (r, p') \<Longrightarrow> p_static p' = p_static p"
  unfolding check_ima_list_def by (auto simp: Let_def split: option.splits bind_splits if_splits)

lemma deal_ima_static: "deal_ima env rt il p = Some (r, p') \<Longrightarrow> p_static p' = p_static p"
  unfolding deal_ima_def verify_ima_log_def
  by (auto simp: Let_def split: bind_splits if_splits prod.splits dest!: check_ima_list_static)

lemma attest_destination_static:
  assumes "attest_destination env rt il p = Some (r, p')"
  shows "p_static p' = p_static p"
proof -
  have f: "p_static q' = p_static q" if "request_and_save_firmware_data env rt q = Some (k, q')" for k q q'
    using that unfolding request_and_save_firmware_data_def
    by (auto simp: Let_def split: bind_splits if_splits prod.splits)
  show ?thesis using assms unfolding attest_destination_def
    by (auto split: bind_splits if_splits dest!: f deal_ima_static)
qed

lemma handover_static:
  "deal_fde_key env rt p = (k, p') \<Longrightarrow> p_static p' = p_static p"
  "send_msk rt p = Some (r, p') \<Longrightarrow> p_static p' = p_static p"
  unfolding deal_fde_key_def send_msk_def
  by (auto simp: Let_def split: prod.splits if_splits option.splits bind_splits)

lemma client_startup_static:
  assumes "rats_tls_client_startup env rt il net_ok rim_ref n p = Some (ret, ios, p')"
  shows "p_static p' = p_args p"
  using assms unfolding rats_tls_client_startup_def
  by (auto simp: Let_def split: bind_splits if_splits prod.splits sum.splits
      dest!: attest_destination_static handover_static)


section \<open>Success without the work\<close>

text \<open>The destination did not acknowledge: the key stays here, and the result is success.\<close>

lemma unacknowledged_key_reported:
  assumes "rt_transmit rt (bytes_of_string ''MSK_SEND'') (p_tls p) = (0, 8, h1)"
    "receive_request rt h1 = Some (0, buf, h2)" "\<not> starts_with buf ''MSK_ACK''"
  shows "send_msk rt p = Some (Inr 0, p\<lparr>p_tls := h2\<rparr>)"
  using assms by (simp add: send_msk_def Let_def)

text \<open>The disk key could not be read: the destination waits for it, and the result is success.\<close>

lemma unreadable_disk_key_reported:
  assumes "use_fde (p_args p)" "rt_transmit rt (bytes_of_string ''ENABLE_FDE_TOKEN'') (p_tls p) = (0, 16, h)"
    "mig_read_file_data (e_malloc env) (e_io env) (p_files p) (rootfs_key_file (p_args p)) = None"
  shows "deal_fde_key env rt p = (0, p\<lparr>p_tls := h\<rparr>)"
  using assms by (simp add: deal_fde_key_def Let_def)

text \<open>No memory for the handle: neither session nor handshake, and the result is success.\<close>

lemma no_handle_reported:
  assumes "client_conf (p_args p) = Some conf" "\<And>c. net_ok c" "\<not> e_malloc env 8"
  shows "rats_tls_client_startup env rt il net_ok rim_ref n p = Some (0, None, p\<lparr>p_static := p_args p\<rparr>)"
  using assms by (simp add: rats_tls_client_startup_def)

text \<open>An empty table, or a log of no bytes: nothing was saved, and the result is success.\<close>

lemma empty_firmware_data_reported:
  assumes "rt_transmit rt (bytes_of_string ''REQUEST_CCEL_TABLE'') (p_tls p) = (0, n, h1)"
    "rt_receive rt 4096 h1 = (0, [], h2)"
  shows "request_and_save_firmware_data env rt p = Some (0, p\<lparr>p_tls := h2\<rparr>)"
  using assms by (simp add: request_and_save_firmware_data_def recv_buf_def mem_write_def)

end
