(* ===== verification/Host_Mig.thy ===== *)
theory Host_Mig
  imports Host_Tls Rats_Tls
begin

text \<open>
  The migration agent on the host, \<open>mig_thread.c\<close> and \<open>main.c\<close> of \<open>virtcca-mig-agent\<close>. A client thread
  asks the device for guests to migrate, connects to the other host, sends the name of the guest and
  its migration key, and starts the integrity thread. A server thread accepts connections, asks the
  device for the guest of the received name, gives it the received key, and starts the integrity thread
  of its side.

  The device, OpenSSL and the sockets are parameters. The state of a thread is its handle, the device,
  the network, the arguments of the integrity threads started so far and the sockets closed, in order.
\<close>

section \<open>The key\<close>

abbreviation (input) MAX_MIG_THREADS :: nat where "MAX_MIG_THREADS \<equiv> 1"
abbreviation (input) MAX_NAME_LENGTH :: nat where "MAX_NAME_LENGTH \<equiv> 64"
abbreviation (input) IO_THREAD_NUM :: int where "IO_THREAD_NUM \<equiv> 16"
abbreviation (input) DEFAULT_PORT :: u16 where "DEFAULT_PORT \<equiv> 4433"

record notify_info =
  ni_name :: bytes
  ni_dst_ip :: bytes
  ni_rd :: u64
  ni_dst_port :: u16
  ni_cvm_vmid :: u16
  ni_is_src :: u16

record mig_host_key_info =
  hk_msk :: bytes
  hk_rand_iv :: bytes
  hk_tag :: bytes

definition zero_key_info :: mig_host_key_info where
  "zero_key_info = \<lparr>hk_msk = replicate 32 0, hk_rand_iv = replicate 32 0, hk_tag = replicate 16 0\<rparr>"

definition zero_notify_info :: notify_info where
  "zero_notify_info = \<lparr>ni_name = replicate 64 0, ni_dst_ip = replicate 16 0, ni_rd = 0, ni_dst_port = 0, ni_cvm_vmid = 0,
     ni_is_src = 0\<rparr>"

text \<open>The device: what \<open>open\<close> gives, and the requests by their data; the key with the guest it is for.\<close>

record 'd tmi =
  tmi_fd :: int
  ioc_notify :: "(notify_info list, 'd) ioc"
  ioc_key :: "(u64 \<times> mig_host_key_info, 'd) ioc"
  ioc_name :: "(bytes, 'd) ioc"

text \<open>
  The number of guests is returned through a pointer to an \<open>int\<close> cast to one to 64 bits: the lower word
  is the number, the upper one falls behind the variable and is dropped here.
\<close>

definition mig_count_of :: "u64 \<Rightarrow> int" where
  "mig_count_of v = sint (ucast v :: u32)"

definition get_virtcca_mig_info ::
    "(nat \<Rightarrow> bool) \<Rightarrow> 'd tmi \<Rightarrow> notify_info list \<Rightarrow> int \<Rightarrow> 'd \<Rightarrow> (int \<times> notify_info list \<times> int \<times> 'd) option" where
  "get_virtcca_mig_info malloc_ok dev data count d =
     (case tmi_new_ctx malloc_ok (tmi_fd dev) of
        None \<Rightarrow> Some (-1, data, count, d)
      | ctx \<Rightarrow> do {
          (ret, v, data, d) \<leftarrow> virtcca_tmi_ioctl (ioc_notify dev) ctx VIRTCCA_TMI_GET_NOTIFY 0 data d;
          let count = mig_count_of v;
          Some (if ret \<noteq> 0 then (ret, data, count, d)
                else (ret, data, if count > int MAX_MIG_THREADS then int MAX_MIG_THREADS else count, d))
        })"

text \<open>The package: the key, the vector and the tag, copied from and to their arrays.\<close>

definition host_key_package :: "mig_host_key_info \<Rightarrow> bytes option" where
  "host_key_package k = do {
     a \<leftarrow> mem_read (hk_msk k) 0 32;
     b \<leftarrow> mem_read (hk_rand_iv k) 0 32;
     c \<leftarrow> mem_read (hk_tag k) 0 16;
     Some (a @ b @ c)
   }"

definition host_key_of_package :: "bytes \<Rightarrow> mig_host_key_info option" where
  "host_key_of_package p = do {
     a \<leftarrow> mem_read p 0 32;
     b \<leftarrow> mem_read p 32 32;
     c \<leftarrow> mem_read p 64 16;
     Some \<lparr>hk_msk = a, hk_rand_iv = b, hk_tag = c\<rparr>
   }"

definition virtcca_transfer_mig_key ::
    "(nat \<Rightarrow> bool) \<Rightarrow> ('c, 's) openssl \<Rightarrow> 'd tmi \<Rightarrow> ('c, 's) tls_handle \<Rightarrow> u64 \<Rightarrow> 'd \<Rightarrow> (int \<times> ('c, 's) tls_handle \<times> 'd) option" where
  "virtcca_transfer_mig_key malloc_ok lib dev h rd d = do {
     let c = tmi_new_ctx malloc_ok (tmi_fd dev);
     (ret, _, (_, k), d) \<leftarrow> virtcca_tmi_ioctl (ioc_key dev) c VIRTCCA_GET_MIG_KEY 0 (rd, zero_key_info) d;
     if ret \<noteq> 0 then Some (ret, h, d)
     else do {
       p \<leftarrow> host_key_package k;
       (e, len, h) \<leftarrow> virtcca_tls_transmit lib h p;
       Some (if e \<noteq> TLS_ERR_OK \<or> len \<noteq> 80 then tls_code e else 0, h, d)
     }
   }"

definition virtcca_receive_mig_key ::
    "(nat \<Rightarrow> bool) \<Rightarrow> ('c, 's) openssl \<Rightarrow> 'd tmi \<Rightarrow> ('c, 's) tls_handle \<Rightarrow> u64 \<Rightarrow> 'd \<Rightarrow> (int \<times> ('c, 's) tls_handle \<times> 'd) option" where
  "virtcca_receive_mig_key malloc_ok lib dev h rd d = do {
     (e, p, h) \<leftarrow> virtcca_tls_receive lib h 80;
     if e \<noteq> TLS_ERR_OK \<or> length p \<noteq> 80 then Some (tls_code e, h, d)
     else do {
       k \<leftarrow> host_key_of_package p;
       let c = tmi_new_ctx malloc_ok (tmi_fd dev);
       (ret, _, _, d) \<leftarrow> virtcca_tmi_ioctl (ioc_key dev) c VIRTCCA_SET_MIG_KEY 0 (rd, k) d;
       Some (ret, h, d)
     }
   }"


section \<open>The threads\<close>

record mig_thread_args =
  mt_ip :: string
  mt_port :: u16
  mt_cpu_start :: int
  mt_cpu_end :: int

text \<open>The arguments of the integrity thread; its handle is the variable of the thread that starts it.\<close>

record host_socket =
  hs_guest_rd :: u64
  hs_socket_fd :: int
  hs_connd_fd :: int
  hs_cpu_start :: u16
  hs_cpu_end :: u16
  hs_is_server :: bool

text \<open>
  The network: the calls that can fail, and what the stack holds where the server thread keeps the
  name it receives.
\<close>

record 'w host_net =
  net_socket :: "'w \<Rightarrow> int \<times> 'w"
  net_connect :: "string \<Rightarrow> u16 \<Rightarrow> int \<Rightarrow> 'w \<Rightarrow> int \<times> 'w"
  net_option :: "net_call \<Rightarrow> int \<Rightarrow> 'w \<Rightarrow> bool"
  net_accept :: "int \<Rightarrow> 'w \<Rightarrow> int \<times> 'w"
  net_stack :: "'w \<Rightarrow> bytes"

record ('c, 's, 'd, 'w) host_env =
  he_malloc :: "nat \<Rightarrow> bool"
  he_ssl :: "('c, 's) openssl"
  he_tmi :: "'d tmi"
  he_net :: "'w host_net"

record ('c, 's, 'd, 'w) host =
  h_handle :: "('c, 's) tls_handle"
  h_dev :: 'd
  h_net :: 'w
  h_threads :: "host_socket list"
  h_closed :: "int list"

definition host_close :: "int \<Rightarrow> ('c, 's, 'd, 'w) host \<Rightarrow> ('c, 's, 'd, 'w) host" where
  "host_close f s = s\<lparr>h_closed := h_closed s @ [f]\<rparr>"

definition io_params :: "mig_thread_args \<Rightarrow> u64 \<Rightarrow> int \<Rightarrow> int \<Rightarrow> bool \<Rightarrow> host_socket" where
  "io_params args rd sockfd connd server =
     \<lparr>hs_guest_rd = rd, hs_socket_fd = sockfd, hs_connd_fd = connd, hs_cpu_start = of_int (mt_cpu_end args + 1 - IO_THREAD_NUM),
      hs_cpu_end = of_int (mt_cpu_end args), hs_is_server = server\<rparr>"

text \<open>\<open>strlen\<close> of the name and the bytes it counts; a name without terminator leaves its array.\<close>

definition c_name :: "bytes \<Rightarrow> bytes option" where
  "c_name b = (if 0 \<in> set b then Some (takeWhile (\<lambda>c. c \<noteq> 0) b) else None)"

text \<open>One guest: \<open>False\<close> ends the client.\<close>

definition mig_client_guest ::
    "('c, 's, 'd, 'w) host_env \<Rightarrow> mig_thread_args \<Rightarrow> notify_info \<Rightarrow> ('c, 's, 'd, 'w) host
     \<Rightarrow> (bool \<times> ('c, 's, 'd, 'w) host) option" where
  "mig_client_guest env args info s =
     (let (sockfd, w) = net_socket (he_net env) (h_net s); s = s\<lparr>h_net := w\<rparr> in
      if sockfd < 0 then Some (False, s)
      else
        let (r, w) = net_connect (he_net env) (mt_ip args) (mt_port args) sockfd w; s = s\<lparr>h_net := w\<rparr> in
        if r < 0 then Some (False, host_close sockfd s)
        else
          let (e, h) = virtcca_tls_negotiate (he_ssl env) (h_handle s) sockfd; s = s\<lparr>h_handle := h\<rparr> in
          if e \<noteq> TLS_ERR_OK then Some (False, host_close sockfd s)
          else do {
            name \<leftarrow> c_name (ni_name info);
            (e, len, h) \<leftarrow> virtcca_tls_transmit (he_ssl env) (h_handle s) name;
            let s = s\<lparr>h_handle := h\<rparr>;
            if e \<noteq> TLS_ERR_OK \<or> len \<noteq> length name then Some (False, host_close sockfd s)
            else do {
              (ret, h, d) \<leftarrow> virtcca_transfer_mig_key (he_malloc env) (he_ssl env) (he_tmi env) (h_handle s) (ni_rd info) (h_dev s);
              let s = s\<lparr>h_handle := h, h_dev := d\<rparr>;
              Some (if ret \<noteq> 0 \<or> \<not> he_malloc env 32 then (False, host_close sockfd s)
                    else (True, s\<lparr>h_threads := h_threads s @ [io_params args (ni_rd info) sockfd 0 False]\<rparr>))
            }
          })"

fun mig_client_loop ::
    "('c, 's, 'd, 'w) host_env \<Rightarrow> mig_thread_args \<Rightarrow> notify_info list \<Rightarrow> nat \<Rightarrow> nat \<Rightarrow> ('c, 's, 'd, 'w) host
     \<Rightarrow> (int \<times> ('c, 's, 'd, 'w) host) option" where
  "mig_client_loop env args data i 0 s = Some (0, s)"
| "mig_client_loop env args data i (Suc n) s = do {
     info \<leftarrow> mem_at data i;
     (ok, s) \<leftarrow> mig_client_guest env args info s;
     if \<not> ok then Some (-1, s) else mig_client_loop env args data (i + 1) n s
   }"

text \<open>\<open>Inl\<close> is the end of the process.\<close>

definition virtcca_mig_client ::
    "('c, 's, 'd, 'w) host_env \<Rightarrow> mig_thread_args \<Rightarrow> notify_info list \<Rightarrow> ('c, 's, 'd, 'w) host
     \<Rightarrow> ((unit + int) \<times> notify_info list \<times> ('c, 's, 'd, 'w) host) option" where
  "virtcca_mig_client env args data s = do {
     (ret, data, mig_count, d) \<leftarrow> get_virtcca_mig_info (he_malloc env) (he_tmi env) data 0 (h_dev s);
     let s = s\<lparr>h_dev := d\<rparr>;
     if ret \<noteq> 0 then Some (Inl (), data, s)
     else do {
       (r, s) \<leftarrow> mig_client_loop env args data 0 (nat mig_count) s;
       Some (Inr r, data, s)
     }
   }"

partial_function (option) mig_client_rounds ::
    "('c, 's, 'd, 'w) host_env \<Rightarrow> mig_thread_args \<Rightarrow> notify_info list \<Rightarrow> ('c, 's, 'd, 'w) host
     \<Rightarrow> (bool \<times> ('c, 's, 'd, 'w) host) option" where
  "mig_client_rounds env args data s =
     Option.bind (virtcca_mig_client env args data s) (\<lambda>(r, data, s).
       case r of
         Inl _ \<Rightarrow> Some (True, s)
       | Inr ret \<Rightarrow> if ret < 0 then Some (False, s) else mig_client_rounds env args data s)"

definition mig_conf :: "bool \<Rightarrow> tls_conf" where
  "mig_conf server =
     \<lparr>cert_file = ''/etc/virtcca-mig/mig.crt'', key_file = ''/etc/virtcca-mig/mig.key'',
      ca_cert_file = Some ''/etc/virtcca-mig/ca.crt'', verify_peer = 1,
      tls_flags = (if server then VIRTCCA_TLS_CONF_FLAGS_SERVER else 0)\<rparr>"

text \<open>The thread returns, or with \<open>True\<close> the process ended.\<close>

definition virtcca_mig_client_thread_func ::
    "('c, 's, 'd, 'w) host_env \<Rightarrow> mig_thread_args \<Rightarrow> ('c, 's, 'd, 'w) host \<Rightarrow> (bool \<times> ('c, 's, 'd, 'w) host) option" where
  "virtcca_mig_client_thread_func env args s =
     (let (e, h) = virtcca_tls_init (he_malloc env) (he_ssl env) (mig_conf False) (h_handle s); s = s\<lparr>h_handle := h\<rparr> in
      if e \<noteq> TLS_ERR_OK then Some (False, s)
      else if \<not> he_malloc env 96 then do {
        _ \<leftarrow> virtcca_tls_cleanup h;
        Some (False, s)
      }
      else do {
        (ended, s) \<leftarrow> mig_client_rounds env args (replicate MAX_MIG_THREADS zero_notify_info) s;
        if ended then Some (True, s)
        else do {
          _ \<leftarrow> virtcca_tls_cleanup (h_handle s);
          Some (False, s)
        }
      })"

text \<open>
  One connection of the server, with the socket it has in \<open>client_fd\<close> afterwards; \<open>False\<close> ends the loop.
  First what follows the received name, which is written over what the stack holds.
\<close>

definition serve_guest ::
    "('c, 's, 'd, 'w) host_env \<Rightarrow> mig_thread_args \<Rightarrow> int \<Rightarrow> int \<Rightarrow> bytes \<Rightarrow> ('c, 's, 'd, 'w) host
     \<Rightarrow> (bool \<times> int \<times> ('c, 's, 'd, 'w) host) option" where
  "serve_guest env args sockfd client_fd nm s = do {
     cvm_name \<leftarrow> mem_write (take MAX_NAME_LENGTH (net_stack (he_net env) (h_net s))) 0 nm;
     let c = tmi_new_ctx (he_malloc env) (tmi_fd (he_tmi env));
     (ret, rd, _, d) \<leftarrow> virtcca_tmi_ioctl (ioc_name (he_tmi env)) c VIRTCCA_GET_DSTVM_RD 0 cvm_name (h_dev s);
     let s = s\<lparr>h_dev := d\<rparr>;
     if ret \<noteq> 0 then Some (False, client_fd, s)
     else do {
       (ret, h, d) \<leftarrow> virtcca_receive_mig_key (he_malloc env) (he_ssl env) (he_tmi env) (h_handle s) rd d;
       let s = s\<lparr>h_handle := h, h_dev := d\<rparr>;
       Some (if ret \<noteq> 0 then (False, client_fd, host_close sockfd s)
             else if \<not> he_malloc env 32 then (False, client_fd, s)
             else (True, client_fd, s\<lparr>h_threads := h_threads s @ [io_params args rd sockfd client_fd True]\<rparr>))
     }
   }"

definition serve_connection ::
    "('c, 's, 'd, 'w) host_env \<Rightarrow> mig_thread_args \<Rightarrow> int \<Rightarrow> ('c, 's, 'd, 'w) host
     \<Rightarrow> (bool \<times> int \<times> ('c, 's, 'd, 'w) host) option" where
  "serve_connection env args sockfd s =
     (let (client_fd, w) = net_accept (he_net env) sockfd (h_net s); s = s\<lparr>h_net := w\<rparr> in
      if client_fd < 0 then Some (False, client_fd, s)
      else
        let (e, h) = virtcca_tls_init (he_malloc env) (he_ssl env) (mig_conf True) (h_handle s); s = s\<lparr>h_handle := h\<rparr> in
        if e \<noteq> TLS_ERR_OK then Some (False, client_fd, s)
        else
          let (e, h) = virtcca_tls_negotiate (he_ssl env) h client_fd; s = s\<lparr>h_handle := h\<rparr> in
          if e \<noteq> TLS_ERR_OK then Some (False, client_fd, s)
          else do {
            (e, nm, h) \<leftarrow> virtcca_tls_receive (he_ssl env) (h_handle s) MAX_NAME_LENGTH;
            let s = s\<lparr>h_handle := h\<rparr>;
            if e \<noteq> TLS_ERR_OK then Some (False, client_fd, s)
            else serve_guest env args sockfd client_fd nm s
          })"

partial_function (option) host_serve_connections ::
    "('c, 's, 'd, 'w) host_env \<Rightarrow> mig_thread_args \<Rightarrow> int \<Rightarrow> ('c, 's, 'd, 'w) host \<Rightarrow> (int \<times> ('c, 's, 'd, 'w) host) option" where
  "host_serve_connections env args sockfd s =
     Option.bind (serve_connection env args sockfd s) (\<lambda>(go, client_fd, s).
       if go then host_serve_connections env args sockfd s else Some (client_fd, s))"

definition server_cleanup ::
    "int \<Rightarrow> int \<Rightarrow> ('c, 's, 'd, 'w) host \<Rightarrow> ('c, 's, 'd, 'w) host option" where
  "server_cleanup sockfd client_fd s = do {
     let s = (if client_fd > 0 then host_close client_fd s else s);
     let s = (if sockfd \<ge> 0 then host_close sockfd s else s);
     _ \<leftarrow> virtcca_tls_cleanup (h_handle s);
     Some s
   }"

definition virtcca_mig_server_thread_func ::
    "('c, 's, 'd, 'w) host_env \<Rightarrow> mig_thread_args \<Rightarrow> ('c, 's, 'd, 'w) host \<Rightarrow> ('c, 's, 'd, 'w) host option" where
  "virtcca_mig_server_thread_func env args s =
     (let (sockfd, w) = net_socket (he_net env) (h_net s); s = s\<lparr>h_handle := None, h_net := w\<rparr> in
      if sockfd < 0 \<or>
         \<not> list_all (\<lambda>c. net_option (he_net env) c sockfd w)
             [Reuseaddr, Keepalive, Keepidle, Keepintvl, Keepcnt, Bind_call, Listen_call]
      then server_cleanup sockfd (-1) s
      else do {
        (client_fd, s) \<leftarrow> host_serve_connections env args sockfd s;
        server_cleanup sockfd client_fd s
      })"


section \<open>The command line\<close>

text \<open>
  \<open>sscanf (s, "%d-%d", ...)\<close>: a number may follow white space and have a sign; both numbers have to be
  there. A number outside \<open>int\<close> is undefined.
\<close>

definition scan_space :: "string \<Rightarrow> string" where
  "scan_space s = dropWhile (\<lambda>c. c \<in> {CHR '' '', CHR 0x09, CHR 0x0A, CHR 0x0B, CHR 0x0C, CHR 0x0D}) s"

definition is_digit :: "char \<Rightarrow> bool" where
  "is_digit c \<longleftrightarrow> (of_char c :: nat) \<in> {48..57}"

definition scan_digits :: "string \<Rightarrow> (int \<times> string) option" where
  "scan_digits s =
     (let ds = takeWhile is_digit s in
      if ds = [] then None
      else Some (fold (\<lambda>c n. 10 * n + (of_char c - 48)) ds 0, drop (length ds) s))"

definition scan_d :: "string \<Rightarrow> (int \<times> string) option" where
  "scan_d s =
     (case scan_space s of
        [] \<Rightarrow> None
      | c # r \<Rightarrow>
          if c = CHR ''-'' then map_option (\<lambda>(n, r). (-n, r)) (scan_digits r)
          else if c = CHR ''+'' then scan_digits r
          else scan_digits (c # r))"

definition scan_range :: "string \<Rightarrow> (int \<times> int) option" where
  "scan_range s = do {
     (a, r) \<leftarrow> scan_d s;
     (b, _) \<leftarrow> (case r of [] \<Rightarrow> None | c # r \<Rightarrow> if c = CHR ''-'' then scan_d r else None);
     Some (a, b)
   }"

record input_params =
  ip_client :: string
  ip_server :: string
  ip_cpu_start :: int
  ip_cpu_end :: int

text \<open>The options as \<open>getopt\<close> gives them; \<open>Inl\<close> is the end of the process.\<close>

fun host_input_opts ::
    "(nat \<Rightarrow> bool) \<Rightarrow> (char \<times> string) list \<Rightarrow> string \<times> string \<times> string option \<Rightarrow> unit + string \<times> string \<times> string option" where
  "host_input_opts malloc_ok [] acc = Inr acc"
| "host_input_opts malloc_ok ((opt, optarg) # opts) (client_ip, server_ip, cpu_affinity) =
     (if opt \<notin> {CHR ''c'', CHR ''s'', CHR ''a''} \<or> \<not> malloc_ok (length optarg + 1) then Inl ()
      else host_input_opts malloc_ok opts
        (if opt = CHR ''c'' then (optarg, server_ip, cpu_affinity)
         else if opt = CHR ''s'' then (client_ip, optarg, cpu_affinity)
         else (client_ip, server_ip, Some optarg)))"

definition in_int :: "int \<Rightarrow> bool" where
  "in_int n \<longleftrightarrow> - (2 ^ 31) \<le> n \<and> n < 2 ^ 31"

definition host_parse_input :: "(nat \<Rightarrow> bool) \<Rightarrow> (char \<times> string) list \<Rightarrow> (unit + input_params) option" where
  "host_parse_input malloc_ok opts =
     (if \<not> malloc_ok 10 then Some (Inl ())
      else case host_input_opts malloc_ok opts (''127.0.0.1'', ''127.0.0.1'', None) of
          Inl _ \<Rightarrow> Some (Inl ())
        | Inr (client_ip, server_ip, None) \<Rightarrow>
            Some (Inr \<lparr>ip_client = client_ip, ip_server = server_ip, ip_cpu_start = 1, ip_cpu_end = IO_THREAD_NUM\<rparr>)
        | Inr (client_ip, server_ip, Some cpu_affinity) \<Rightarrow>
            (case scan_range cpu_affinity of
               None \<Rightarrow> Some (Inl ())
             | Some (a, b) \<Rightarrow>
                 if \<not> in_int a \<or> \<not> in_int b then None
                 else if a < 0 \<or> b < 0 then Some (Inl ())
                 else if \<not> in_int (a + IO_THREAD_NUM) then None
                 else if b < a + IO_THREAD_NUM - 1 then Some (Inl ())
                 else Some (Inr \<lparr>ip_client = client_ip, ip_server = server_ip, ip_cpu_start = a, ip_cpu_end = b\<rparr>)))"

text \<open>What \<open>main\<close> passes to the client and to the server thread.\<close>

definition host_client_args :: "input_params \<Rightarrow> mig_thread_args" where
  "host_client_args p = \<lparr>mt_ip = ip_client p, mt_port = DEFAULT_PORT, mt_cpu_start = ip_cpu_start p, mt_cpu_end = ip_cpu_end p\<rparr>"

definition host_server_args :: "input_params \<Rightarrow> mig_thread_args" where
  "host_server_args p = \<lparr>mt_ip = ip_server p, mt_port = DEFAULT_PORT, mt_cpu_start = ip_cpu_start p, mt_cpu_end = ip_cpu_end p\<rparr>"


section \<open>The key arrives\<close>

definition key_wf :: "mig_host_key_info \<Rightarrow> bool" where
  "key_wf k \<longleftrightarrow> length (hk_msk k) = 32 \<and> length (hk_rand_iv k) = 32 \<and> length (hk_tag k) = 16"

lemma key_package_roundtrip:
  assumes "key_wf k"
  shows "\<exists>p. host_key_package k = Some p \<and> length p = 80 \<and> host_key_of_package p = Some k"
  using assms by (auto simp: key_wf_def host_key_package_def host_key_of_package_def mem_read_def)

text \<open>
  What the device promises, in terms of the keys \<open>key_of\<close> it holds and the guests \<open>rd_of\<close> it knows by
  name: it gives and stores whole keys, and finds a guest by the terminated name in the buffer.
\<close>

definition tmi_ok :: "'d tmi \<Rightarrow> ('d \<Rightarrow> u64 \<Rightarrow> mig_host_key_info) \<Rightarrow> ('d \<Rightarrow> bytes \<Rightarrow> u64 option) \<Rightarrow> bool" where
  "tmi_ok dev key_of rd_of \<longleftrightarrow> tmi_fd dev \<noteq> -1 \<and>
     (\<forall>f rd k d. key_wf (key_of d rd) \<and>
        (\<exists>cmd. ioc_key dev f \<lparr>cmd_id = VIRTCCA_GET_MIG_KEY, cmd_flags = 0, cmd_data = (rd, k), cmd_ret_val = 0\<rparr> d = (0, cmd, d) \<and>
           snd (cmd_data cmd) = key_of d rd)) \<and>
     (\<forall>f rd k d. key_wf k \<longrightarrow> (\<exists>cmd d'. ioc_key dev f \<lparr>cmd_id = VIRTCCA_SET_MIG_KEY, cmd_flags = 0, cmd_data = (rd, k), cmd_ret_val = 0\<rparr> d = (0, cmd, d') \<and>
        key_of d' = (key_of d)(rd := k))) \<and>
     (\<forall>f b n r d. c_name b = Some n \<longrightarrow> rd_of d n = Some r \<longrightarrow>
        (\<exists>cmd. ioc_name dev f \<lparr>cmd_id = VIRTCCA_GET_DSTVM_RD, cmd_flags = 0, cmd_data = b, cmd_ret_val = 0\<rparr> d = (0, cmd, d) \<and>
           cmd_ret_val cmd = r))"

lemma tmi_new_ctx_ok: "\<lbrakk>tmi_fd dev \<noteq> -1; malloc_ok 4\<rbrakk> \<Longrightarrow> tmi_new_ctx malloc_ok (tmi_fd dev) = Some (tmi_fd dev)"
  by (simp add: tmi_new_ctx_def)

lemma ioctl_get_key:
  assumes "tmi_ok dev key_of rd_of" "malloc_ok 4"
  shows "\<exists>v x. virtcca_tmi_ioctl (ioc_key dev) (tmi_new_ctx malloc_ok (tmi_fd dev)) VIRTCCA_GET_MIG_KEY 0 (rd, k) d =
    Some (0, v, (x, key_of d rd), d)"
proof -
  obtain cmd where "ioc_key dev (tmi_fd dev) \<lparr>cmd_id = VIRTCCA_GET_MIG_KEY, cmd_flags = 0, cmd_data = (rd, k), cmd_ret_val = 0\<rparr> d =
      (0, cmd, d)" "snd (cmd_data cmd) = key_of d rd"
    using assms(1) unfolding tmi_ok_def by meson
  then show ?thesis using assms tmi_new_ctx_ok [of dev malloc_ok]
    by (cases "cmd_data cmd") (simp add: virtcca_tmi_ioctl_def tmi_ok_def)
qed

lemma ioctl_set_key:
  assumes "tmi_ok dev key_of rd_of" "malloc_ok 4" "key_wf k"
  shows "\<exists>v x d'. virtcca_tmi_ioctl (ioc_key dev) (tmi_new_ctx malloc_ok (tmi_fd dev)) VIRTCCA_SET_MIG_KEY 0 (rd, k) d =
    Some (0, v, x, d') \<and> key_of d' = (key_of d)(rd := k)"
proof -
  obtain cmd d' where "ioc_key dev (tmi_fd dev) \<lparr>cmd_id = VIRTCCA_SET_MIG_KEY, cmd_flags = 0, cmd_data = (rd, k), cmd_ret_val = 0\<rparr> d =
      (0, cmd, d')" "key_of d' = (key_of d)(rd := k)"
    using assms(1,3) unfolding tmi_ok_def by meson
  then show ?thesis using assms tmi_new_ctx_ok [of dev malloc_ok] by (simp add: virtcca_tmi_ioctl_def tmi_ok_def)
qed

lemma ioctl_get_rd:
  assumes "tmi_ok dev key_of rd_of" "malloc_ok 4" "c_name b = Some n" "rd_of d n = Some r"
  shows "\<exists>x. virtcca_tmi_ioctl (ioc_name dev) (tmi_new_ctx malloc_ok (tmi_fd dev)) VIRTCCA_GET_DSTVM_RD 0 b d = Some (0, r, x, d)"
proof -
  obtain cmd where "ioc_name dev (tmi_fd dev) \<lparr>cmd_id = VIRTCCA_GET_DSTVM_RD, cmd_flags = 0, cmd_data = b, cmd_ret_val = 0\<rparr> d =
      (0, cmd, d)" "cmd_ret_val cmd = r"
    using assms(1,3,4) unfolding tmi_ok_def by meson
  then show ?thesis using assms(1,2) tmi_new_ctx_ok [of dev malloc_ok] by (simp add: virtcca_tmi_ioctl_def tmi_ok_def)
qed

text \<open>A TLS session keeps the boundaries of what is written to it, as long as the reader's buffer is large enough.\<close>

definition queue_ssl :: "('c, msg_queue) openssl \<Rightarrow> ('c, msg_queue) openssl" where
  "queue_ssl lib = lib\<lparr>
     ssl_read := (\<lambda>n q. case fst q of [] \<Rightarrow> (Inl (-1), q)
       | m # ms \<Rightarrow> (Inr (take (nat n) m), (if length m \<le> nat n then ms else drop (nat n) m # ms, snd q))),
     ssl_write := (\<lambda>n bs q. (n, (fst q, snd q @ [take (nat n) bs])))\<rparr>"

lemma queue_ssl_receive:
  assumes "m \<noteq> []" "length m \<le> n" "n \<le> 80"
  shows "virtcca_tls_receive (queue_ssl lib) (Some (h\<lparr>ssl := Ssl (m # ms, sent)\<rparr>)) n =
    Some (TLS_ERR_OK, m, Some (h\<lparr>ssl := Ssl (ms, sent)\<rparr>))"
  using assms int_of_size_small [of n]
  by (simp add: virtcca_tls_receive_def ssl_receive_def queue_ssl_def)

lemma queue_ssl_transmit:
  assumes "bs \<noteq> []" "length bs < 2 ^ 31"
  shows "virtcca_tls_transmit (queue_ssl lib) (Some (h\<lparr>ssl := Ssl (ms, sent)\<rparr>)) bs =
    Some (TLS_ERR_OK, length bs, Some (h\<lparr>ssl := Ssl (ms, sent @ [bs])\<rparr>))"
  using assms by (simp add: virtcca_tls_transmit_def ssl_transmit_def queue_ssl_def int_of_size_small)

lemma transfer_mig_key_sends:
  assumes "tmi_ok dev key_of rd_of" "malloc_ok 4" "host_key_package (key_of d rd) = Some p" "length p = 80"
  shows "virtcca_transfer_mig_key malloc_ok (queue_ssl lib) dev (Some (h\<lparr>ssl := Ssl (ms, sent)\<rparr>)) rd d =
    Some (0, Some (h\<lparr>ssl := Ssl (ms, sent @ [p])\<rparr>), d)"
proof -
  have "p \<noteq> []" using assms(4) by auto
  then show ?thesis
    using ioctl_get_key [where malloc_ok = malloc_ok and rd = rd and k = zero_key_info and d = d, OF assms(1,2)] assms(3,4)
    by (auto simp: virtcca_transfer_mig_key_def queue_ssl_transmit)
qed

lemma receive_mig_key_stores:
  assumes "tmi_ok dev key_of rd_of" "malloc_ok 4" "length p = 80" "host_key_of_package p = Some k"
  shows "\<exists>d'. virtcca_receive_mig_key malloc_ok (queue_ssl lib) dev (Some (h\<lparr>ssl := Ssl (p # ms, sent)\<rparr>)) rd d =
    Some (0, Some (h\<lparr>ssl := Ssl (ms, sent)\<rparr>), d') \<and> key_of d' = (key_of d)(rd := k)"
proof -
  have "p \<noteq> []" using assms(3) by auto
  moreover have "key_wf k" using assms(3,4) by (auto simp: key_wf_def host_key_of_package_def mem_read_def)
  ultimately show ?thesis
    using ioctl_set_key [where malloc_ok = malloc_ok and rd = rd and k = k and d = d, OF assms(1,2)] assms(3,4)
    by (auto simp: virtcca_receive_mig_key_def queue_ssl_receive)
qed

text \<open>The environment of an end on which nothing but the peer can fail.\<close>

definition host_ok :: "('c, msg_queue, 'd, 'w) host_env \<Rightarrow> ('c, msg_queue) openssl \<Rightarrow> bool" where
  "host_ok env lib \<longleftrightarrow> he_ssl env = queue_ssl lib \<and> he_malloc env = (\<lambda>_. True)"

lemma client_guest_sends:
  assumes "host_ok env lib" "tmi_ok (he_tmi env) key_of rd_of"
    and "net_socket (he_net env) (h_net s) = (sock, w1)" "0 \<le> sock"
    and "net_connect (he_net env) (mt_ip args) (mt_port args) sock w1 = (r, w2)" "0 \<le> r"
    and "virtcca_tls_negotiate (queue_ssl lib) (h_handle s) sock = (TLS_ERR_OK, Some (h\<lparr>ssl := Ssl (ms, sent)\<rparr>))"
    and "c_name (ni_name info) = Some name" "name \<noteq> []" "length name < 64"
    and "host_key_package (key_of (h_dev s) (ni_rd info)) = Some p" "length p = 80"
  shows "mig_client_guest env args info s = Some (True, s\<lparr>h_net := w2, h_handle := Some (h\<lparr>ssl := Ssl (ms, sent @ [name, p])\<rparr>),
    h_threads := h_threads s @ [io_params args (ni_rd info) sock 0 False]\<rparr>)"
  using assms transfer_mig_key_sends [where malloc_ok = "\<lambda>_. True" and p = p and d = "h_dev s" and rd = "ni_rd info"
      and h = h and ms = ms and sent = "sent @ [name]" and lib = lib, OF assms(2) _ assms(11,12)]
  by (cases s) (simp add: mig_client_guest_def host_ok_def queue_ssl_transmit)

lemma c_name_over:
  assumes "n < length b" "b ! n = 0" "0 \<notin> set m" "length m = n"
  shows "c_name (m @ drop n b) = Some m"
proof -
  have "drop n b = 0 # drop (Suc n) b" using assms(1,2) by (metis Cons_nth_drop_Suc)
  moreover have "x \<noteq> 0" if "x \<in> set m" for x using assms(3) that by metis
  ultimately show ?thesis by (simp add: c_name_def takeWhile_append2)
qed

lemma serve_connection_stores:
  assumes "host_ok env lib" "tmi_ok (he_tmi env) key_of rd_of"
    and "net_accept (he_net env) sockfd (h_net s) = (cfd, w)" "0 \<le> cfd"
    and "virtcca_tls_init (\<lambda>_. True) (queue_ssl lib) (mig_conf True) (h_handle s) = (TLS_ERR_OK, h1)"
    and "virtcca_tls_negotiate (queue_ssl lib) h1 cfd = (TLS_ERR_OK, Some (h\<lparr>ssl := Ssl (name # p # ms, sent)\<rparr>))"
    and "length (net_stack (he_net env) w) = 64" "c_name (name @ drop (length name) (net_stack (he_net env) w)) = Some name'"
    and "name \<noteq> []" "length name < 64" "rd_of (h_dev s) name' = Some rd"
    and "length p = 80" "host_key_of_package p = Some k"
  shows "\<exists>d'. serve_connection env args sockfd s = Some (True, cfd, s\<lparr>h_net := w, h_dev := d',
      h_handle := Some (h\<lparr>ssl := Ssl (ms, sent)\<rparr>), h_threads := h_threads s @ [io_params args rd sockfd cfd True]\<rparr>) \<and>
    key_of d' = (key_of (h_dev s))(rd := k)"
proof -
  let ?b = "name @ drop (length name) (net_stack (he_net env) w)"
  have b: "mem_write (net_stack (he_net env) w) 0 name = Some ?b" using assms(7,10) by (simp add: mem_write_def)
  obtain x where x: "virtcca_tmi_ioctl (ioc_name (he_tmi env)) (tmi_new_ctx (\<lambda>_. True) (tmi_fd (he_tmi env)))
      VIRTCCA_GET_DSTVM_RD 0 ?b (h_dev s) = Some (0, rd, x, h_dev s)"
    using ioctl_get_rd [where malloc_ok = "\<lambda>_. True", OF assms(2)] assms(8,11) by blast
  obtain d' where d': "virtcca_receive_mig_key (\<lambda>_. True) (queue_ssl lib) (he_tmi env) (Some (h\<lparr>ssl := Ssl (p # ms, sent)\<rparr>)) rd (h_dev s) =
      Some (0, Some (h\<lparr>ssl := Ssl (ms, sent)\<rparr>), d')" "key_of d' = (key_of (h_dev s))(rd := k)"
    using receive_mig_key_stores [where malloc_ok = "\<lambda>_. True", OF assms(2) _ assms(12,13)] by blast
  show ?thesis using assms(1,3-7,9,10) b x d'
    by (cases s) (auto simp: serve_connection_def serve_guest_def host_ok_def queue_ssl_receive)
qed

text \<open>
  The name the receiver reads: \<open>serve_connection\<close> neither clears its buffer nor terminates the name in
  it, so what the device sees is the received name and what the stack holds behind it up to a zero.
\<close>

lemma c_name_behind:
  assumes "c_name (m @ r) = Some m'" "0 \<notin> set m" "length r \<noteq> 0"
  shows "prefix m m' \<and> (r ! 0 = 0 \<longleftrightarrow> m' = m)"
proof -
  have "\<forall>x \<in> set m. x \<noteq> 0" using assms(2) by metis
  then have "m' = m @ takeWhile (\<lambda>b. b \<noteq> 0) r"
    using assms(1) by (simp add: c_name_def takeWhile_append2 split: if_splits)
  then show ?thesis using assms(3) by (cases r) auto
qed

text \<open>
  C15. The migration key of a guest arrives on the other host. When both ends reach each other and the
  handshake succeeds, the client sends the name of the guest and a package, nothing else, and the
  server that receives these messages stores exactly the key the source device holds for the guest
  in its own device, and both start the integrity thread. The guest it stores the key for is the one
  the device finds for the name the server reads: the name that was sent, followed by whatever the
  server's uninitialised stack buffer holds behind it up to the next zero byte. That is the name that
  was sent exactly when the byte behind it is zero. The name has to fit the buffer of 64 bytes with
  a terminator, the buffer to have a zero somewhere, and the device a guest of the name read.
\<close>
theorem host_key_handover:
  assumes "host_ok src lib" "tmi_ok (he_tmi src) key_of rd_of"
    and "net_socket (he_net src) (h_net sc) = (sock, w1)" "0 \<le> sock"
    and "net_connect (he_net src) (mt_ip cargs) (mt_port cargs) sock w1 = (r, w2)" "0 \<le> r"
    and "virtcca_tls_negotiate (queue_ssl lib) (h_handle sc) sock = (TLS_ERR_OK, Some (hc\<lparr>ssl := Ssl (ins, out1)\<rparr>))"
    and "c_name (ni_name info) = Some name" "name \<noteq> []" "length name < 64"
    and "host_ok dst lib'" "tmi_ok (he_tmi dst) key_of' rd_of'"
    and "net_accept (he_net dst) sockfd (h_net ss) = (cfd, w)" "0 \<le> cfd"
    and "virtcca_tls_init (\<lambda>_. True) (queue_ssl lib') (mig_conf True) (h_handle ss) = (TLS_ERR_OK, h1)"
    and "length (net_stack (he_net dst) w) = 64"
      "c_name (name @ drop (length name) (net_stack (he_net dst) w)) = Some name'"
    and "rd_of' (h_dev ss) name' = Some rd"
  shows "prefix name name' \<and> (net_stack (he_net dst) w ! length name = 0 \<longleftrightarrow> name' = name) \<and>
    (\<exists>ms sc'. mig_client_guest src cargs info sc = Some (True, sc') \<and>
    h_handle sc' = Some (hc\<lparr>ssl := Ssl (ins, out1 @ ms)\<rparr>) \<and> h_dev sc' = h_dev sc \<and>
    h_threads sc' = h_threads sc @ [io_params cargs (ni_rd info) sock 0 False] \<and>
    (\<forall>hs rest out2. virtcca_tls_negotiate (queue_ssl lib') h1 cfd = (TLS_ERR_OK, Some (hs\<lparr>ssl := Ssl (ms @ rest, out2)\<rparr>)) \<longrightarrow>
      (\<exists>ss'. serve_connection dst sargs sockfd ss = Some (True, cfd, ss') \<and>
        key_of' (h_dev ss') = (key_of' (h_dev ss))(rd := key_of (h_dev sc) (ni_rd info)) \<and>
        h_handle ss' = Some (hs\<lparr>ssl := Ssl (rest, out2)\<rparr>) \<and>
        h_threads ss' = h_threads ss @ [io_params sargs rd sockfd cfd True])))"
proof (intro conjI, goal_cases)
  have z: "0 \<notin> set name" using assms(8) by (auto simp: c_name_def split: if_splits dest: set_takeWhileD)
  have d: "drop (length name) (net_stack (he_net dst) w) ! 0 = net_stack (he_net dst) w ! length name"
    "length (drop (length name) (net_stack (he_net dst) w)) \<noteq> 0"
    using assms(10,16) by simp_all
  note n = c_name_behind [OF assms(17) z d(2), unfolded d(1)]
  {
    case 1
    show ?case using n by blast
  next
    case 2
    show ?case using n by blast
  }
next
  case 3
  have "key_wf (key_of (h_dev sc) (ni_rd info))" using assms(2) by (simp add: tmi_ok_def)
  then obtain p where p: "host_key_package (key_of (h_dev sc) (ni_rd info)) = Some p" "length p = 80"
    "host_key_of_package p = Some (key_of (h_dev sc) (ni_rd info))" using key_package_roundtrip by blast
  let ?sc = "sc\<lparr>h_net := w2, h_handle := Some (hc\<lparr>ssl := Ssl (ins, out1 @ [name, p])\<rparr>),
    h_threads := h_threads sc @ [io_params cargs (ni_rd info) sock 0 False]\<rparr>"
  show ?case
  proof (intro exI [of _ "[name, p]"] exI [of _ ?sc] conjI allI impI)
    show "mig_client_guest src cargs info sc = Some (True, ?sc)"
      by (rule client_guest_sends [OF assms(1-10) p(1,2)])
    fix hs rest out2
    assume "virtcca_tls_negotiate (queue_ssl lib') h1 cfd = (TLS_ERR_OK, Some (hs\<lparr>ssl := Ssl ([name, p] @ rest, out2)\<rparr>))"
    then show "\<exists>ss'. serve_connection dst sargs sockfd ss = Some (True, cfd, ss') \<and>
        key_of' (h_dev ss') = (key_of' (h_dev ss))(rd := key_of (h_dev sc) (ni_rd info)) \<and>
        h_handle ss' = Some (hs\<lparr>ssl := Ssl (rest, out2)\<rparr>) \<and>
        h_threads ss' = h_threads ss @ [io_params sargs rd sockfd cfd True]"
      using serve_connection_stores [where h = hs and ms = rest and sent = out2 and args = sargs,
          OF assms(11-15) _ assms(16,17,9,10,18) p(2,3)]
      by fastforce
  qed simp_all
qed

text \<open>Two ends for evaluation: devices that keep a key per guest, and sockets and sessions that always come up.\<close>

definition demo_tmi :: "bytes \<Rightarrow> (u64 \<Rightarrow> mig_host_key_info) tmi" where
  "demo_tmi name = \<lparr>tmi_fd = 5, ioc_notify = (\<lambda>_ cmd d. (0, cmd, d)),
     ioc_key = (\<lambda>_ cmd d. let (rd, k) = cmd_data cmd in
       if cmd_id cmd = VIRTCCA_GET_MIG_KEY then (0, cmd\<lparr>cmd_data := (rd, if key_wf (d rd) then d rd else zero_key_info)\<rparr>, d)
       else (0, cmd, d(rd := k))),
     ioc_name = (\<lambda>_ cmd d. if c_name (cmd_data cmd) = Some name then (0, cmd\<lparr>cmd_ret_val := 7\<rparr>, d) else (-1, cmd, d))\<rparr>"

definition demo_keys :: "(u64 \<Rightarrow> mig_host_key_info) \<Rightarrow> u64 \<Rightarrow> mig_host_key_info" where
  "demo_keys d rd = (if key_wf (d rd) then d rd else zero_key_info)"

lemma demo_tmi_ok: "tmi_ok (demo_tmi name) demo_keys (\<lambda>_ n. if n = name then Some 7 else None)"
  by (auto simp: tmi_ok_def demo_tmi_def demo_keys_def key_wf_def zero_key_info_def)

definition demo_ssl :: "msg_queue \<Rightarrow> (unit, msg_queue) openssl" where
  "demo_ssl q = queue_ssl \<lparr>ssl_ctx_new = (\<lambda>_. Some ()), use_certificate_file = (\<lambda>_ c. (1, c)), use_private_key_file = (\<lambda>_ c. (1, c)),
     load_verify_locations = (\<lambda>_ c. (1, c)), set_verify = (\<lambda>_ c. c), ssl_new = (\<lambda>_. Some q), ssl_handshake = (\<lambda>_ _ s. (1, s)),
     ssl_read = (\<lambda>_ s. (Inl 0, s)), ssl_write = (\<lambda>_ _ s. (0, s))\<rparr>"

definition demo_net :: "unit host_net" where
  "demo_net = \<lparr>net_socket = (\<lambda>w. (3, w)), net_connect = (\<lambda>_ _ _ w. (0, w)), net_option = (\<lambda>_ _ _. True),
     net_accept = (\<lambda>_ w. (4, w)), net_stack = (\<lambda>_. replicate 64 0)\<rparr>"

definition demo_host_env :: "bytes \<Rightarrow> msg_queue \<Rightarrow> (unit, msg_queue, u64 \<Rightarrow> mig_host_key_info, unit) host_env" where
  "demo_host_env name q = \<lparr>he_malloc = (\<lambda>_. True), he_ssl = demo_ssl q, he_tmi = demo_tmi name, he_net = demo_net\<rparr>"

definition demo_handle :: "(unit, msg_queue) tls_core_context" where
  "demo_handle = \<lparr>tls_config = mig_conf False, ssl_ctx = (), ssl = Ssl_unset\<rparr>"

definition demo_host :: "(unit, msg_queue) tls_handle \<Rightarrow> (u64 \<Rightarrow> mig_host_key_info)
    \<Rightarrow> (unit, msg_queue, u64 \<Rightarrow> mig_host_key_info, unit) host" where
  "demo_host h d = \<lparr>h_handle = h, h_dev = d, h_net = (), h_threads = [], h_closed = []\<rparr>"

definition demo_guest_key :: mig_host_key_info where
  "demo_guest_key = \<lparr>hk_msk = replicate 32 1, hk_rand_iv = replicate 32 2, hk_tag = replicate 16 3\<rparr>"

definition demo_guest :: notify_info where
  "demo_guest = zero_notify_info\<lparr>ni_name := [0x76, 0x6d] @ replicate 62 0, ni_rd := 9\<rparr>"

definition demo_thread_args :: mig_thread_args where
  "demo_thread_args = \<lparr>mt_ip = ''127.0.0.1'', mt_port = DEFAULT_PORT, mt_cpu_start = 1, mt_cpu_end = 16\<rparr>"

lemma demo_host_facts:
  "host_ok (demo_host_env name q) (demo_ssl q)" "he_tmi (demo_host_env name q) = demo_tmi name"
  "he_net (demo_host_env name q) = demo_net" "queue_ssl (demo_ssl q) = demo_ssl q"
  by (simp_all add: demo_host_env_def host_ok_def demo_ssl_def queue_ssl_def)

lemma demo_host_negotiate:
  "0 \<le> f \<Longrightarrow> virtcca_tls_negotiate (demo_ssl q) (Some h) f = (TLS_ERR_OK, Some (h\<lparr>ssl := Ssl q\<rparr>))"
  by (simp add: virtcca_tls_negotiate_def demo_ssl_def queue_ssl_def)

lemma demo_host_init:
  "virtcca_tls_init (\<lambda>_. True) (demo_ssl q) (mig_conf True) h = (TLS_ERR_OK, Some (demo_handle\<lparr>tls_config := mig_conf True\<rparr>))"
  by (simp add: virtcca_tls_init_def demo_ssl_def queue_ssl_def mig_conf_def demo_handle_def)

theorem host_key_handover_witness:
  "\<exists>ms sc'. mig_client_guest (demo_host_env [0x76, 0x6d] ([], [])) demo_thread_args demo_guest
      (demo_host (Some demo_handle) (\<lambda>_. demo_guest_key)) = Some (True, sc') \<and>
    h_handle sc' = Some (demo_handle\<lparr>ssl := Ssl ([], ms)\<rparr>) \<and>
    (\<exists>ss'. serve_connection (demo_host_env [0x76, 0x6d] (ms, [])) demo_thread_args 3 (demo_host None (\<lambda>_. zero_key_info)) =
        Some (True, 4, ss') \<and>
      demo_keys (h_dev ss') = (demo_keys (\<lambda>_. zero_key_info))(7 := demo_guest_key))"
proof -
  let ?n = "[0x76, 0x6d] :: bytes"
  have c: "c_name (ni_name demo_guest) = Some ?n" by (simp add: c_name_def demo_guest_def zero_notify_info_def)
  have k: "demo_keys (\<lambda>_. demo_guest_key) r = demo_guest_key" for r by (simp add: demo_keys_def demo_guest_key_def key_wf_def)
  let ?c = "demo_host (Some demo_handle) (\<lambda>_. demo_guest_key)" and ?s = "demo_host None (\<lambda>_. zero_key_info)"
  let ?rd = "\<lambda>(_ :: u64 \<Rightarrow> mig_host_key_info) n. if n = ?n then Some (7 :: u64) else None"
  have e: "host_ok (demo_host_env ?n q) (demo_ssl q)" "tmi_ok (he_tmi (demo_host_env ?n q)) demo_keys ?rd" for q
    using demo_tmi_ok [of ?n] by (simp_all add: demo_host_facts)
  have w: "net_socket (he_net (demo_host_env ?n q)) u = (3, ())" "net_connect (he_net (demo_host_env ?n q)) i pt f u = (0, ())"
    "net_accept (he_net (demo_host_env ?n q)) f u = (4, ())" "length (net_stack (he_net (demo_host_env ?n q)) u) = 64"
    "c_name (?n @ drop (length ?n) (net_stack (he_net (demo_host_env ?n q)) u)) = Some ?n" for q u i pt f
    by (simp_all add: demo_host_facts demo_net_def c_name_def)
  have t: "virtcca_tls_negotiate (queue_ssl (demo_ssl ([], []))) (h_handle ?c) 3 = (TLS_ERR_OK, Some (demo_handle\<lparr>ssl := Ssl ([], [])\<rparr>))"
    "virtcca_tls_init (\<lambda>_. True) (queue_ssl (demo_ssl q)) (mig_conf True) (h_handle ?s) =
      (TLS_ERR_OK, Some (demo_handle\<lparr>tls_config := mig_conf True\<rparr>))" for q
    by (simp_all add: demo_host_facts demo_host_negotiate demo_host_init, simp add: demo_host_def demo_host_negotiate)
  have h: "?rd (h_dev ?s) ?n = Some 7" "?n \<noteq> []" "length ?n < 64" "(0 :: int) \<le> 3" "(0 :: int) \<le> 0" "(0 :: int) \<le> 4" by simp_all
  note H = host_key_handover [OF e(1) e(2) w(1) h(4) w(2) h(5) t(1) c h(2,3) e(1) e(2) w(3) h(6) t(2) w(4,5) h(1), where sargs = demo_thread_args]
  obtain ms sc' where m: "mig_client_guest (demo_host_env ?n ([], [])) demo_thread_args demo_guest ?c = Some (True, sc')"
    "h_handle sc' = Some (demo_handle\<lparr>ssl := Ssl ([], [] @ ms)\<rparr>)" using H by blast
  obtain ms' sc'' where m': "mig_client_guest (demo_host_env ?n ([], [])) demo_thread_args demo_guest ?c = Some (True, sc'')"
    "h_handle sc'' = Some (demo_handle\<lparr>ssl := Ssl ([], [] @ ms')\<rparr>)"
    and s: "\<And>hs rest snt. virtcca_tls_negotiate (queue_ssl (demo_ssl (ms, []))) (Some (demo_handle\<lparr>tls_config := mig_conf True\<rparr>)) 4 =
        (TLS_ERR_OK, Some (hs\<lparr>ssl := Ssl (ms' @ rest, snt)\<rparr>)) \<Longrightarrow>
      \<exists>ss'. serve_connection (demo_host_env ?n (ms, [])) demo_thread_args 3 ?s = Some (True, 4, ss') \<and>
        demo_keys (h_dev ss') = (demo_keys (h_dev ?s))(7 := demo_keys (h_dev ?c) (ni_rd demo_guest))"
    using H [of "(ms, [])" demo_thread_args 3] by blast
  have "ms' = ms" using m m' by (simp add: demo_handle_def)
  then show ?thesis using m s [where hs = "demo_handle\<lparr>tls_config := mig_conf True\<rparr>" and rest = "[]" and snt = "[]"] k
    by (simp add: demo_host_facts demo_host_negotiate) (auto simp: demo_host_def)
qed


section \<open>Who can reach the device\<close>

text \<open>
  The changes the server may make to the device, from \<open>d0\<close> on: over a session with a trusted peer, look
  up the guest of a received name, and then give the guest found the key in a received package.
\<close>

inductive served :: "('c, 's, 'd, 'w) host_env \<Rightarrow> ('s \<Rightarrow> x509_ctx list) \<Rightarrow> 'd \<Rightarrow> 'd \<Rightarrow> bool"
  for env certs d0 where
  served_none: "served env certs d0 d0"
| served_lookup: "\<lbrakk>served env certs d0 d; trusted_peer certs q; ssl_receive (he_ssl env) MAX_NAME_LENGTH q = (TLS_ERR_OK, nm, q1);
    virtcca_tmi_ioctl (ioc_name (he_tmi env)) c VIRTCCA_GET_DSTVM_RD 0 (nm @ stk) d = Some (r, rd, x, d')\<rbrakk>
    \<Longrightarrow> served env certs d0 d'"
| served_key: "\<lbrakk>served env certs d0 d; trusted_peer certs q; ssl_receive (he_ssl env) MAX_NAME_LENGTH q = (TLS_ERR_OK, nm, q1);
    virtcca_tmi_ioctl (ioc_name (he_tmi env)) c VIRTCCA_GET_DSTVM_RD 0 (nm @ stk) d = Some (0, rd, x, d');
    ssl_receive (he_ssl env) 80 q1 = (TLS_ERR_OK, p, q2); length p = 80; host_key_of_package p = Some k;
    virtcca_tmi_ioctl (ioc_key (he_tmi env)) c' VIRTCCA_SET_MIG_KEY 0 (rd, k) d' = Some (r, v, y, d'')\<rbrakk>
    \<Longrightarrow> served env certs d0 d''"

lemma receive_session:
  assumes "virtcca_tls_receive lib (Some h) n = Some (e, d, h')" "ssl h = Ssl q"
  shows "\<exists>q'. ssl_receive lib n q = (e, d, q') \<and> h' = Some (h\<lparr>ssl := Ssl q'\<rparr>)"
  using assms by (auto simp: virtcca_tls_receive_def Let_def split: prod.splits)

lemma receive_mig_key_cases:
  assumes "virtcca_receive_mig_key malloc_ok lib dev (Some h) rd d = Some (ret, h', d')" "ssl h = Ssl q"
  obtains "d' = d"
  | p q2 k c r v y where "ssl_receive lib 80 q = (TLS_ERR_OK, p, q2)" "length p = 80" "host_key_of_package p = Some k"
    "virtcca_tmi_ioctl (ioc_key dev) c VIRTCCA_SET_MIG_KEY 0 (rd, k) d = Some (r, v, y, d')"
  using assms
  by (auto simp: virtcca_receive_mig_key_def split: bind_splits prod.splits if_splits dest!: receive_session)

lemma mem_write_front: "mem_write b 0 d = Some b' \<Longrightarrow> \<exists>r. b' = d @ r"
  by (auto simp: mem_write_def split: if_splits)

lemma serve_guest_device:
  assumes "serve_guest env args sockfd cf nm s = Some (go, cfd, s')" "h_handle s = Some h" "ssl h = Ssl q1"
  obtains c stk r rd x where
    "virtcca_tmi_ioctl (ioc_name (he_tmi env)) c VIRTCCA_GET_DSTVM_RD 0 (nm @ stk) (h_dev s) = Some (r, rd, x, h_dev s')"
  | c stk rd x d p q2 k c' r' v y where
    "virtcca_tmi_ioctl (ioc_name (he_tmi env)) c VIRTCCA_GET_DSTVM_RD 0 (nm @ stk) (h_dev s) = Some (0, rd, x, d)"
    "ssl_receive (he_ssl env) 80 q1 = (TLS_ERR_OK, p, q2)" "length p = 80" "host_key_of_package p = Some k"
    "virtcca_tmi_ioctl (ioc_key (he_tmi env)) c' VIRTCCA_SET_MIG_KEY 0 (rd, k) d = Some (r', v, y, h_dev s')"
proof -
  let ?c = "tmi_new_ctx (he_malloc env) (tmi_fd (he_tmi env))"
  obtain b where b: "mem_write (take MAX_NAME_LENGTH (net_stack (he_net env) (h_net s))) 0 nm = Some b"
    using assms(1) by (auto simp: serve_guest_def split: bind_splits)
  obtain stk where stk: "b = nm @ stk" using mem_write_front [OF b] by blast
  obtain r rd x d where l: "virtcca_tmi_ioctl (ioc_name (he_tmi env)) ?c VIRTCCA_GET_DSTVM_RD 0 (nm @ stk) (h_dev s) = Some (r, rd, x, d)"
    using assms(1) b stk by (auto simp: serve_guest_def split: bind_splits)
  show thesis
  proof (cases "r = 0")
    case False
    then show thesis using assms(1) b stk l that(1) by (auto simp: serve_guest_def)
  next
    case True
    then obtain r2 h4 where "virtcca_receive_mig_key (he_malloc env) (he_ssl env) (he_tmi env) (Some h) rd d = Some (r2, h4, h_dev s')"
      using assms b stk l by (auto simp: serve_guest_def host_close_def Let_def split: bind_splits if_splits)
    then show thesis by (rule receive_mig_key_cases [OF _ assms(3)]) (use that l True in blast)+
  qed
qed

lemma serve_connection_session:
  assumes "openssl_verifies (he_ssl env) certs" "serve_connection env args sockfd s = Some (go, cfd, s')"
  obtains "h_dev s' = h_dev s" "h_threads s' = h_threads s"
  | q nm q1 h cf s1 where "trusted_peer certs q" "ssl_receive (he_ssl env) MAX_NAME_LENGTH q = (TLS_ERR_OK, nm, q1)"
    "serve_guest env args sockfd cf nm s1 = Some (go, cfd, s')" "h_handle s1 = Some h" "ssl h = Ssl q1" "h_dev s1 = h_dev s"
proof -
  obtain cf w where a: "net_accept (he_net env) sockfd (h_net s) = (cf, w)" by (cases "net_accept (he_net env) sockfd (h_net s)")
  obtain e1 h1 where i: "virtcca_tls_init (he_malloc env) (he_ssl env) (mig_conf True) (h_handle s) = (e1, h1)"
    by (cases "virtcca_tls_init (he_malloc env) (he_ssl env) (mig_conf True) (h_handle s)")
  obtain e2 h2 where n: "virtcca_tls_negotiate (he_ssl env) h1 cf = (e2, h2)"
    by (cases "virtcca_tls_negotiate (he_ssl env) h1 cf")
  show thesis
  proof (cases "cf < 0 \<or> e1 \<noteq> TLS_ERR_OK \<or> e2 \<noteq> TLS_ERR_OK")
    case True
    then show thesis using assms(2) a i n that(1) by (auto simp: serve_connection_def Let_def split: if_splits)
  next
    case False
    then have e: "\<not> cf < 0" "e1 = TLS_ERR_OK" "e2 = TLS_ERR_OK" by simp_all
    have "verify_peer (mig_conf True) \<noteq> 0" by (simp add: mig_conf_def)
    then obtain h q where h: "h2 = Some h" "ssl h = Ssl q" and t: "trusted_peer certs q"
      using negotiated_peer_trusted [OF assms(1) _ i [unfolded e] n [unfolded e]] by auto
    obtain e3 nm h3 where r: "virtcca_tls_receive (he_ssl env) (Some h) MAX_NAME_LENGTH = Some (e3, nm, h3)"
      using assms(2) a i n e h by (auto simp: serve_connection_def Let_def split: bind_splits)
    obtain q1 where q1: "ssl_receive (he_ssl env) MAX_NAME_LENGTH q = (e3, nm, q1)" "h3 = Some (h\<lparr>ssl := Ssl q1\<rparr>)"
      using receive_session [OF r h(2)] by blast
    show thesis
    proof (cases "e3 = TLS_ERR_OK")
      case False
      then show thesis using assms(2) a i n e h r that(1) by (auto simp: serve_connection_def Let_def)
    next
      case True
      then have "serve_guest env args sockfd cf nm (s\<lparr>h_net := w, h_handle := h3\<rparr>) = Some (go, cfd, s')"
        using assms(2) a i n e h r by (simp add: serve_connection_def Let_def)
      then show thesis using that(2) [OF t] q1 True by simp
    qed
  qed
qed

lemma serve_connection_served:
  assumes "openssl_verifies (he_ssl env) certs" "serve_connection env args sockfd s = Some (go, cfd, s')"
    and "served env certs d0 (h_dev s)"
  shows "served env certs d0 (h_dev s')"
  using assms(1,2)
proof (cases rule: serve_connection_session)
  case (2 q nm q1 h cf s1)
  show ?thesis
    by (rule serve_guest_device [OF 2(3-5)])
      (use assms(3) 2(1,2,6) in \<open>auto intro: served_lookup served_key\<close>)
qed (use assms(3) in simp)

lemma serve_connections_served:
  fixes env :: "('c, 's, 'd, 'w) host_env" and s :: "('c, 's, 'd, 'w) host"
  assumes "host_serve_connections env args sockfd s = Some (cfd, s')" "openssl_verifies (he_ssl env) certs"
    and "served env certs d0 (h_dev s)"
  shows "served env certs d0 (h_dev s')"
proof -
  let ?P = "\<lambda>(e :: ('c, 's, 'd, 'w) host_env) (a :: mig_thread_args) (f :: int) (s :: ('c, 's, 'd, 'w) host)
    (y :: int \<times> ('c, 's, 'd, 'w) host).
    openssl_verifies (he_ssl e) certs \<longrightarrow> served e certs d0 (h_dev s) \<longrightarrow> served e certs d0 (h_dev (snd y))"
  have "?P env args sockfd s (cfd, s')"
  proof (rule host_serve_connections.raw_induct [where P = ?P, OF _ assms(1)], intro impI, goal_cases)
    case (1 f env args sockfd s y)
    then obtain go c s1 where c: "serve_connection env args sockfd s = Some (go, c, s1)" by (auto split: bind_splits)
    have "served env certs d0 (h_dev s1)" by (rule serve_connection_served [OF 1(3) c 1(4)])
    then show ?case using 1(1) [of env args sockfd s1 y] 1(2,3) c by (auto split: if_splits)
  qed
  then show ?thesis using assms(2,3) by simp
qed

text \<open>
  C12. The server reaches the device only for a trusted peer. Whatever connects to it, in a whole run of
  the server thread the device changes only by looking up the guest of a name, and storing for the
  guest found exactly the key of a package of 80 bytes, both received over a session whose peer
  presented certificates that are within their validity and have the issuer of the own certificate.
\<close>
theorem host_server_device_use:
  assumes "openssl_verifies (he_ssl env) certs" "virtcca_mig_server_thread_func env args s = Some s'"
  shows "served env certs (h_dev s) (h_dev s')"
proof -
  obtain sockfd w where w: "net_socket (he_net env) (h_net s) = (sockfd, w)" by (cases "net_socket (he_net env) (h_net s)")
  have c: "h_dev t' = h_dev t" if "server_cleanup f k t = Some t'" for f k and t t' :: "('a, 'b, 'c, 'd) host"
    using that by (auto simp: server_cleanup_def Let_def host_close_def split: bind_splits if_splits)
  have l: "served env certs (h_dev s) (h_dev t)"
    if "host_serve_connections env args sockfd (s\<lparr>h_handle := None, h_net := w\<rparr>) = Some (k, t)" for k t
    by (rule serve_connections_served [OF that assms(1)]) (simp add: served_none)
  show ?thesis using assms(2) w
    by (auto simp: virtcca_mig_server_thread_func_def Let_def split: if_splits bind_splits dest!: c l intro: served_none)
qed

text \<open>A library that keeps the callback and asks it about a fixed certificate.\<close>

definition demo_cert :: x509_ctx where
  "demo_cert = \<lparr>since_not_before = Some (1, 0), since_not_after = Some (-1, 0), cert_issuer = ''ca'', own_issuer = ''ca''\<rparr>"

type_synonym demo_session = "(int \<Rightarrow> x509_ctx \<Rightarrow> int) option \<times> bytes list"

definition verifying_ssl :: "bytes list \<Rightarrow> ((int \<Rightarrow> x509_ctx \<Rightarrow> int) option, demo_session) openssl" where
  "verifying_ssl ms = \<lparr>ssl_ctx_new = (\<lambda>_. Some None), use_certificate_file = (\<lambda>_ c. (1, c)), use_private_key_file = (\<lambda>_ c. (1, c)),
     load_verify_locations = (\<lambda>_ c. (1, c)), set_verify = (\<lambda>f _. Some f), ssl_new = (\<lambda>c. Some (c, ms)),
     ssl_handshake = (\<lambda>_ _ s. (case fst s of None \<Rightarrow> 1 | Some f \<Rightarrow> f 1 demo_cert, s)),
     ssl_read = (\<lambda>_ s. (case snd s of [] \<Rightarrow> Inl 0 | m # _ \<Rightarrow> Inr m, (fst s, tl (snd s)))), ssl_write = (\<lambda>_ _ s. (0, s))\<rparr>"

lemma verifying_ssl_ok: "openssl_verifies (verifying_ssl ms) (\<lambda>_. [demo_cert])"
  by (auto simp: openssl_verifies_def verifying_ssl_def)

definition once_net :: "nat host_net" where
  "once_net = \<lparr>net_socket = (\<lambda>w. (3, w)), net_connect = (\<lambda>_ _ _ w. (0, w)), net_option = (\<lambda>_ _ _. True),
     net_accept = (\<lambda>_ w. if w = 0 then (4, 1) else (-1, w)), net_stack = (\<lambda>_. replicate 64 0)\<rparr>"

definition once_env ::
    "bytes \<Rightarrow> bytes \<Rightarrow> ((int \<Rightarrow> x509_ctx \<Rightarrow> int) option, demo_session, u64 \<Rightarrow> mig_host_key_info, nat) host_env" where
  "once_env name pkg = \<lparr>he_malloc = (\<lambda>_. True), he_ssl = verifying_ssl [name, pkg], he_tmi = demo_tmi name, he_net = once_net\<rparr>"

theorem host_server_device_use_witness:
  "\<exists>s'. virtcca_mig_server_thread_func (once_env [0x76, 0x6d] (replicate 80 5)) demo_thread_args
      \<lparr>h_handle = None, h_dev = (\<lambda>_. zero_key_info), h_net = 0, h_threads = [], h_closed = []\<rparr> = Some s' \<and>
    hk_tag (h_dev s' 7) = replicate 16 5 \<and>
    served (once_env [0x76, 0x6d] (replicate 80 5)) (\<lambda>_. [demo_cert]) (\<lambda>_. zero_key_info) (h_dev s')"
proof -
  let ?e = "once_env [0x76, 0x6d] (replicate 80 5)"
  let ?s = "\<lparr>h_handle = None, h_dev = (\<lambda>_. zero_key_info), h_net = 0 :: nat, h_threads = [], h_closed = []\<rparr>"
  have k: "host_key_of_package (replicate 80 5) =
      Some \<lparr>hk_msk = replicate 32 5, hk_rand_iv = replicate 32 5, hk_tag = replicate 16 5\<rparr>"
    by (simp add: host_key_of_package_def mem_read_def)
  have "\<exists>s'. virtcca_mig_server_thread_func ?e demo_thread_args ?s = Some s' \<and> hk_tag (h_dev s' 7) = replicate 16 5"
    unfolding virtcca_mig_server_thread_func_def
    by (subst host_serve_connections.simps, subst host_serve_connections.simps)
      (simp add: k once_env_def once_net_def serve_connection_def serve_guest_def virtcca_tls_init_def virtcca_tls_negotiate_def
        virtcca_tls_receive_def ssl_receive_def verifying_ssl_def mig_conf_def verify_callback_def demo_cert_def
        mem_write_def tmi_new_ctx_def demo_tmi_def virtcca_tmi_ioctl_def c_name_def virtcca_receive_mig_key_def
        server_cleanup_def virtcca_tls_cleanup_def host_close_def)
  moreover have "openssl_verifies (he_ssl ?e) (\<lambda>_. [demo_cert])" by (simp add: once_env_def verifying_ssl_ok)
  ultimately show ?thesis using host_server_device_use [of ?e "\<lambda>_. [demo_cert]" demo_thread_args ?s] by auto
qed


section \<open>Errors of the agent\<close>

text \<open>
  Whoever connects first and fails the handshake ends the server thread in a double free: the failed
  negotiation frees the session and leaves the pointer in the handle, and the way out of the thread
  frees it again.
\<close>

lemma failed_handshake_double_free:
  assumes "net_socket (he_net env) (h_net s) = (sockfd, w)" "0 \<le> sockfd" "\<And>c. net_option (he_net env) c sockfd w"
    and "net_accept (he_net env) sockfd w = (cfd, w1)" "0 \<le> cfd"
    and "virtcca_tls_init (he_malloc env) (he_ssl env) (mig_conf True) None = (TLS_ERR_OK, Some h)"
    and "ssl_new (he_ssl env) (ssl_ctx h) = Some q" "fst (ssl_handshake (he_ssl env) True cfd q) \<noteq> 1"
  shows "virtcca_mig_server_thread_func env args s = None"
proof -
  obtain c where "h = \<lparr>tls_config = mig_conf True, ssl_ctx = set_verify (he_ssl env) verify_callback c, ssl = Ssl_unset\<rparr>"
    using virtcca_tls_init_ok [OF assms(6)] by (auto simp: mig_conf_def)
  then have "True = (tls_flags (tls_config h) AND VIRTCCA_TLS_CONF_FLAGS_SERVER \<noteq> 0)" by (simp add: mig_conf_def)
  then obtain h' where h': "virtcca_tls_negotiate (he_ssl env) (Some h) cfd = (TLS_ERR_NEGOTIATE_FAILED, h')" "virtcca_tls_cleanup h' = None"
    using cleanup_after_failed_handshake [OF assms(7,8,5)] by blast
  have "serve_connection env args sockfd (s\<lparr>h_handle := None, h_net := w\<rparr>) =
      Some (False, cfd, s\<lparr>h_handle := h', h_net := w1\<rparr>)"
    using assms(4-6) h'(1) by (simp add: serve_connection_def)
  then have "host_serve_connections env args sockfd (s\<lparr>h_handle := None, h_net := w\<rparr>) = Some (cfd, s\<lparr>h_handle := h', h_net := w1\<rparr>)"
    by (subst host_serve_connections.simps) simp
  then show ?thesis using assms(1-3) h'(2)
    by (auto simp: virtcca_mig_server_thread_func_def server_cleanup_def host_close_def Let_def)
qed

text \<open>A client that cannot connect for its first guest frees a session that was never set.\<close>

lemma failed_connect_frees_unset:
  assumes "virtcca_tls_init (he_malloc env) (he_ssl env) (mig_conf False) (h_handle s) = (TLS_ERR_OK, h)" "he_malloc env 96"
    and "get_virtcca_mig_info (he_malloc env) (he_tmi env) [zero_notify_info] 0 (h_dev s) = Some (0, [info], 1, d)"
    and "net_socket (he_net env) (h_net s) = (sock, w)" "0 \<le> sock"
    and "net_connect (he_net env) (mt_ip args) (mt_port args) sock w = (r, w')" "r < 0"
  shows "virtcca_mig_client_thread_func env args s = None"
proof -
  have "virtcca_mig_client env args [zero_notify_info] (s\<lparr>h_handle := h\<rparr>) =
      Some (Inr (-1), [info], host_close sock (s\<lparr>h_handle := h, h_dev := d, h_net := w'\<rparr>))"
    using assms(3-7) by (simp add: virtcca_mig_client_def mig_client_guest_def mem_at_def)
  then have "mig_client_rounds env args [zero_notify_info] (s\<lparr>h_handle := h\<rparr>) =
      Some (False, host_close sock (s\<lparr>h_handle := h, h_dev := d, h_net := w'\<rparr>))"
    by (subst mig_client_rounds.simps) simp
  then show ?thesis using assms(1,2) cleanup_before_negotiation [OF assms(1)]
    by (simp add: virtcca_mig_client_thread_func_def host_close_def)
qed

text \<open>
  A package of another length is not stored, but reported as success, the value of the transfer, so
  the server goes on and starts the integrity thread.
\<close>

lemma short_key_reported:
  assumes "ssl h = Ssl q" "ssl_receive lib 80 q = (TLS_ERR_OK, p, q')" "length p \<noteq> 80"
  shows "virtcca_receive_mig_key malloc_ok lib dev (Some h) rd d = Some (0, Some (h\<lparr>ssl := Ssl q'\<rparr>), d)"
  using assms by (simp add: virtcca_receive_mig_key_def virtcca_tls_receive_def)

text \<open>Without a terminator behind it the name the device reads goes on with what the stack holds.\<close>

lemma unterminated_name:
  assumes "0 \<notin> set nm" "b \<noteq> 0" "length (net_stack (he_net env) w) = 64" "length nm + 2 \<le> 64"
    and "drop (length nm) (net_stack (he_net env) w) = b # 0 # rest"
  shows "\<exists>c. mem_write (take 64 (net_stack (he_net env) w)) 0 nm = Some c \<and> c_name c = Some (nm @ [b])"
proof -
  have "x \<noteq> 0" if "x \<in> set nm" for x using assms(1) that by metis
  then show ?thesis using assms(2-5) by (auto simp: mem_write_def c_name_def takeWhile_append2)
qed

text \<open>A range of processors that is accepted has room for the integrity threads; the default is 1 to 16.\<close>

lemma host_cpu_range:
  assumes "host_parse_input malloc_ok opts = Some (Inr p)"
  shows "0 \<le> ip_cpu_start p \<and> ip_cpu_start p + IO_THREAD_NUM \<le> ip_cpu_end p + 1"
  using assms by (auto simp: host_parse_input_def split: if_splits sum.splits prod.splits option.splits)

lemma host_default_range:
  "host_parse_input (\<lambda>_. True) [] =
    Some (Inr \<lparr>ip_client = ''127.0.0.1'', ip_server = ''127.0.0.1'', ip_cpu_start = 1, ip_cpu_end = 16\<rparr>)"
  by (simp add: host_parse_input_def)

lemma host_range_example:
  "host_parse_input (\<lambda>_. True) [(CHR ''a'', ''0-15'')] =
    Some (Inr \<lparr>ip_client = ''127.0.0.1'', ip_server = ''127.0.0.1'', ip_cpu_start = 0, ip_cpu_end = 15\<rparr>)"
  by (simp add: host_parse_input_def scan_range_def scan_d_def scan_space_def scan_digits_def is_digit_def in_int_def)

end
