(* ===== verification/Rats_Stream.thy ===== *)
theory Rats_Stream
  imports Rats_Tls
begin

text \<open>
  The sending and receiving loops of the agent over a session that carries a stream of bytes: a
  transfer of less than \<open>2 ^ 31\<close> bytes takes or delivers at least one byte and at most what was asked
  for. Stated as the interface \<open>byte_stream\<close>; the loops then end and move exactly the bytes, however the stream is cut.
\<close>

locale byte_stream =
  fixes rt :: "('h, 'd) rats" and pending :: "'h \<Rightarrow> bytes" and sent :: "'h \<Rightarrow> bytes"
  assumes receive_some: "\<lbrakk>pending h \<noteq> []; 0 < n; n < 2 ^ 31\<rbrakk> \<Longrightarrow> \<exists>d h'. rt_receive rt n h = (0, d, h') \<and> d \<noteq> [] \<and> length d \<le> n \<and>
      pending h = d @ pending h' \<and> sent h' = sent h"
    and transmit_some: "\<lbrakk>bs \<noteq> []; length bs < 2 ^ 31\<rbrakk> \<Longrightarrow> \<exists>n h'. rt_transmit rt bs h = (0, n, h') \<and> 0 < n \<and> n \<le> length bs \<and>
      sent h' = sent h @ take n bs \<and> pending h' = pending h"
begin

lemma send_loop_rest:
  assumes "off \<le> length buf" "length buf < 2 ^ 31"
  shows "\<exists>h'. send_loop rt buf off h = Some (0, h') \<and> sent h' = sent h @ drop off buf \<and> pending h' = pending h"
  using assms
proof (induction "length buf - off" arbitrary: off h rule: less_induct)
  case less
  show ?case
  proof (cases "off < length buf")
    case True
    have "length (drop off buf) < 2 ^ 31" using less(3) by (rule le_less_trans [rotated]) simp
    with True obtain n h1 where t: "rt_transmit rt (drop off buf) h = (0, n, h1)" "0 < n" "n \<le> length (drop off buf)"
      "sent h1 = sent h @ take n (drop off buf)" "pending h1 = pending h"
      using transmit_some [of "drop off buf" h] by auto
    have "length buf - (off + n) < length buf - off" "off + n \<le> length buf" using t(2,3) True by simp_all
    then obtain h2 where "send_loop rt buf (off + n) h1 = Some (0, h2)" "sent h2 = sent h1 @ drop (off + n) buf"
      "pending h2 = pending h1" using less(1,3) by blast
    moreover have "take n (drop off buf) @ drop (off + n) buf = drop off buf"
      by (metis add.commute append_take_drop_id drop_drop)
    ultimately show ?thesis using True t by (subst send_loop.simps) (simp add: Let_def)
  next
    case False
    then show ?thesis using less(2) by (subst send_loop.simps) simp
  qed
qed

lemma send_loop_all:
  assumes "length buf < 2 ^ 31"
  shows "\<exists>h'. send_loop rt buf 0 h = Some (0, h') \<and> sent h' = sent h @ buf \<and> pending h' = pending h"
  using send_loop_rest [of 0 buf h] assms by simp

lemma recv_loop_rest:
  assumes "length acc \<le> n" "n - length acc \<le> length (pending h)" "n < 2 ^ 31"
  shows "\<exists>h'. recv_loop rt n acc h = Some (0, acc @ take (n - length acc) (pending h), h') \<and>
    pending h' = drop (n - length acc) (pending h) \<and> sent h' = sent h"
  using assms
proof (induction "n - length acc" arbitrary: acc h rule: less_induct)
  case less
  show ?case
  proof (cases "length acc < n")
    case True
    have "n - length acc < 2 ^ 31" using less(4) by linarith
    with True obtain d h1 where r: "rt_receive rt (n - length acc) h = (0, d, h1)" "d \<noteq> []" "length d \<le> n - length acc"
      "pending h = d @ pending h1" "sent h1 = sent h"
      using receive_some [of h "n - length acc"] less(3) by (cases "pending h = []") auto
    have "0 < length d" "length (pending h) = length d + length (pending h1)" using r(2,4) by simp_all
    then have l: "n - length (acc @ d) < n - length acc" "length (acc @ d) \<le> n"
      "n - length (acc @ d) \<le> length (pending h1)"
      using r(3) True less(3) unfolding length_append by linarith+
    obtain h2 where "recv_loop rt n (acc @ d) h1 =
        Some (0, (acc @ d) @ take (n - length (acc @ d)) (pending h1), h2)"
      "pending h2 = drop (n - length (acc @ d)) (pending h1)" "sent h2 = sent h1"
      using less(1) [OF l less(4)] by blast
    moreover have "n - length acc - length d = n - length (acc @ d)" by simp
    ultimately show ?thesis using True r by (subst recv_loop.simps) (simp add: Let_def)
  next
    case False
    then show ?thesis using less(2) by (subst recv_loop.simps) simp
  qed
qed

lemma recv_loop_all:
  assumes "n \<le> length (pending h)" "n < 2 ^ 31"
  shows "\<exists>h'. recv_loop rt n [] h = Some (0, take n (pending h), h') \<and> pending h' = drop n (pending h) \<and> sent h' = sent h"
  using recv_loop_rest [of "[]" n h] assms by simp

end

text \<open>
  The stream as a session: the bytes to be received, the bytes sent, and how many bytes the coming
  transfers move at most, at least one each.
\<close>

record stream =
  st_in :: bytes
  st_out :: bytes
  st_cuts :: "nat list"

definition next_cut :: "nat \<Rightarrow> nat list \<Rightarrow> nat" where
  "next_cut n cuts = (case cuts of [] \<Rightarrow> n | c # _ \<Rightarrow> min n (max 1 c))"

definition stream_receive :: "nat \<Rightarrow> stream \<Rightarrow> int \<times> bytes \<times> stream" where
  "stream_receive n s =
     (let k = next_cut n (st_cuts s) in
      (0, take k (st_in s), s\<lparr>st_in := drop k (st_in s), st_cuts := tl (st_cuts s)\<rparr>))"

definition stream_transmit :: "bytes \<Rightarrow> stream \<Rightarrow> int \<times> nat \<times> stream" where
  "stream_transmit bs s =
     (let k = next_cut (length bs) (st_cuts s) in
      (0, k, s\<lparr>st_out := st_out s @ take k bs, st_cuts := tl (st_cuts s)\<rparr>))"

definition stream_rats :: "(stream, 'd) rats \<Rightarrow> (stream, 'd) rats" where
  "stream_rats rt = rt\<lparr>rt_receive := stream_receive, rt_transmit := stream_transmit\<rparr>"

lemma stream_rats_simps [simp]:
  "rt_receive (stream_rats rt) = stream_receive" "rt_transmit (stream_rats rt) = stream_transmit"
  by (simp_all add: stream_rats_def)

lemma next_cut_bounds: "next_cut n cuts \<le> n" "0 < n \<Longrightarrow> 0 < next_cut n cuts"
  by (auto simp: next_cut_def split: list.splits)

interpretation stream: byte_stream "stream_rats rt" st_in st_out for rt
proof unfold_locales
  fix h :: stream and n :: nat
  assume "st_in h \<noteq> []" "0 < n"
  then show "\<exists>d h'. rt_receive (stream_rats rt) n h = (0, d, h') \<and> d \<noteq> [] \<and> length d \<le> n \<and>
      st_in h = d @ st_in h' \<and> st_out h' = st_out h"
    using next_cut_bounds [of n "st_cuts h"] by (auto simp: stream_receive_def Let_def)
next
  fix bs :: bytes and h :: stream
  assume "bs \<noteq> []"
  then show "\<exists>n h'. rt_transmit (stream_rats rt) bs h = (0, n, h') \<and> 0 < n \<and> n \<le> length bs \<and>
      st_out h' = st_out h @ take n bs \<and> st_in h' = st_in h"
    using next_cut_bounds [of "length bs" "st_cuts h"] by (auto simp: stream_transmit_def Let_def)
qed

end
