(* ===== verification/Integrity_Queue.thy ===== *)
theory Integrity_Queue
  imports Rats_Stream
begin

text \<open>
  The integrity check of a migration, \<open>integrity_check_handler.c\<close> of the agent in the guest: a
  thread moves data between the two ends through a queue in memory it shares with the security
  monitor. The monitor fills the send half and empties the receive half while the thread asks it
  for checksums; the thread sends the send half as one frame, its length first, and appends a
  received frame to the receive half.

  The shared memory is the record \<open>share_queue\<close>: the two buffers of \<open>QUEUE_SIZE\<close> bytes, the length word
  before the send buffer, and the offset words behind the buffers. The request to the monitor, the
  poll of the socket and the semaphores of the helper threads are the fields of \<open>io_ops\<close>, on a state
  of type \<open>'w\<close>; the request may change the queue.

  The transfer loops, the wait for room and the thread's loop may go on for ever. As partial functions
  they are then \<^term>\<open>None\<close>, as they are where memory would be left; the predicates whose names end in
  \<open>runs_on\<close> are the infinite runs in which every step is defined.
\<close>

section \<open>The queue\<close>

abbreviation QUEUE_SIZE :: nat where "QUEUE_SIZE \<equiv> 65520"
abbreviation (input) TSI_INCOMPLETE :: int where "TSI_INCOMPLETE \<equiv> 3"
abbreviation (input) TSI_ERROR_FAILED :: int where "TSI_ERROR_FAILED \<equiv> 4"
abbreviation (input) TSI_NOTIFY :: int where "TSI_NOTIFY \<equiv> 5"
abbreviation (input) RECV_CLOSE_REQ :: int where "RECV_CLOSE_REQ \<equiv> -2"

record share_queue =
  send_len :: u64
  send_buf :: bytes
  send_offset :: u64
  queue_recv :: bytes
  recv_offset :: u64

definition is_recv_queue_full :: "share_queue \<Rightarrow> u32 \<Rightarrow> bool" where
  "is_recv_queue_full q len \<longleftrightarrow> ucast len > of_nat QUEUE_SIZE - recv_offset q"

definition enqueue_recv_data :: "share_queue \<Rightarrow> bytes \<Rightarrow> u32 \<Rightarrow> (int \<times> share_queue) option" where
  "enqueue_recv_data q buffer len =
     (if recv_offset q \<ge> of_nat QUEUE_SIZE then Some (-1, q)
      else do {
        d \<leftarrow> mem_read buffer 0 (unat len);
        m \<leftarrow> mem_write (queue_recv q) (unat (recv_offset q)) d;
        let q = q\<lparr>queue_recv := m, recv_offset := recv_offset q + ucast len\<rparr>;
        Some (if recv_offset q \<ge> of_nat QUEUE_SIZE then -1 else 1, q)
      })"

text \<open>The frame: the length word and as many bytes of the buffer.\<close>

definition frame :: "share_queue \<Rightarrow> bytes option" where
  "frame q = mem_read (word_bytes (send_len q) @ send_buf q) 0 (unat (send_len q) + 8)"

definition send_queue_data :: "('h, 'd) rats \<Rightarrow> share_queue \<Rightarrow> 'h \<Rightarrow> (int \<times> share_queue \<times> 'h) option" where
  "send_queue_data rt q h =
     (if send_offset q > of_nat QUEUE_SIZE then Some (-1, q, h)
      else do {
        let n = unat (send_offset q);
        let q = q\<lparr>send_len := send_offset q\<rparr>;
        d \<leftarrow> frame q;
        (ret, h) \<leftarrow> send_loop rt d 0 h;
        if ret \<noteq> 0 then Some (-1, q, h)
        else do {
          m \<leftarrow> mem_write (send_buf q) 0 (replicate n 0);
          Some (0, q\<lparr>send_len := 0, send_buf := m, send_offset := 0\<rparr>, h)
        }
      })"

text \<open>What \<open>epoll_wait\<close> reports: an error (interrupted or not), or for each event what matters of it.\<close>

datatype ep_event = Ev_error | Ev_in | Ev_other
datatype ep_result = Wait_failed bool | Events "ep_event list"

record 'w io_ops =
  op_checksum :: "u64 \<Rightarrow> nat \<Rightarrow> share_queue \<Rightarrow> 'w \<Rightarrow> int \<times> share_queue \<times> 'w"
  op_epoll_ctl :: "bool \<Rightarrow> 'w \<Rightarrow> bool \<times> 'w"
  op_epoll_wait :: "'w \<Rightarrow> ep_result \<times> 'w"
  op_notify :: "'w \<Rightarrow> bool \<times> 'w"

record ('h, 'w) io_state =
  io_tls :: 'h
  io_world :: 'w
  io_queue :: share_queue

definition handle_send_event ::
    "('h, 'd) rats \<Rightarrow> 'w io_ops \<Rightarrow> ('h, 'w) io_state \<Rightarrow> (int \<times> ('h, 'w) io_state) option" where
  "handle_send_event rt ops s =
     (let (ok, w) = op_epoll_ctl ops True (io_world s); s = s\<lparr>io_world := w\<rparr> in
      if \<not> ok then Some (-1, s)
      else do {
        (ret, q, h) \<leftarrow> send_queue_data rt (io_queue s) (io_tls s);
        let s = s\<lparr>io_queue := q, io_tls := h\<rparr>;
        if ret < 0 then Some (ret, s)
        else
          let (ok, w) = op_epoll_ctl ops False (io_world s) in
          Some (if ok then ret else -1, s\<lparr>io_world := w\<rparr>)
      })"

text \<open>
  The loop that waits for room: it sends what the monitor produced and asks for checksums, which
  empties the queue. \<open>Inl\<close> is the way out of \<open>handle_recv_event\<close>, \<open>Inr\<close> has the last status.
\<close>

partial_function (option) make_room ::
    "('h, 'd) rats \<Rightarrow> 'w io_ops \<Rightarrow> u64 \<Rightarrow> nat \<Rightarrow> u32 \<Rightarrow> int \<Rightarrow> ('h, 'w) io_state
     \<Rightarrow> ((int + int) \<times> ('h, 'w) io_state) option" where
  "make_room rt ops guest tid len tsi_ret s =
     (if \<not> is_recv_queue_full (io_queue s) len then Some (Inr tsi_ret, s)
      else Option.bind (if send_offset (io_queue s) > 0 then handle_send_event rt ops s else Some (0, s)) (\<lambda>(r, s).
        if r < 0 then Some (Inl (-1), s)
        else
          let (tsi_ret, q, w) = op_checksum ops guest tid (io_queue s) (io_world s);
              s = s\<lparr>io_queue := q, io_world := w\<rparr> in
          if tsi_ret = TSI_ERROR_FAILED then Some (Inl tsi_ret, s)
          else make_room rt ops guest tid len tsi_ret s))"

definition handle_recv_event ::
    "(nat \<Rightarrow> bool) \<Rightarrow> ('h, 'd) rats \<Rightarrow> 'w io_ops \<Rightarrow> u64 \<Rightarrow> nat \<Rightarrow> ('h, 'w) io_state \<Rightarrow> (int \<times> ('h, 'w) io_state) option" where
  "handle_recv_event malloc_ok rt ops guest tid s = do {
     (ret, d, h) \<leftarrow> recv_loop rt 8 [] (io_tls s);
     let s = s\<lparr>io_tls := h\<rparr>;
     if ret \<noteq> 0 then Some (-1, s)
     else do {
       let recv_len = unat (word_of_bytes d :: u64);
       if recv_len > QUEUE_SIZE - 8 then Some (-1, s)
       else do {
         (r, s) \<leftarrow> make_room rt ops guest tid (of_nat recv_len) TSI_INCOMPLETE s;
         case r of
           Inl ret \<Rightarrow> Some (ret, s)
         | Inr tsi_ret \<Rightarrow>
             if \<not> malloc_ok recv_len then Some (-1, s)
             else do {
               (ret, buffer, h) \<leftarrow> recv_loop rt recv_len [] (io_tls s);
               let s = s\<lparr>io_tls := h\<rparr>;
               if ret \<noteq> 0 then Some (-1, s)
               else if recv_len \<ge> 12 \<and> take 12 buffer = bytes_of_string ''CLOSE_NOTIFY'' then Some (RECV_CLOSE_REQ, s)
               else do {
                 (ret, q) \<leftarrow> enqueue_recv_data (io_queue s) buffer (of_nat (length buffer));
                 let s = s\<lparr>io_queue := q\<rparr>;
                 Some (if ret < 0 then ret else tsi_ret, s)
               }
             }
       }
     }
   }"

definition send_close_notification :: "('h, 'd) rats \<Rightarrow> ('h, 'w) io_state \<Rightarrow> int \<times> ('h, 'w) io_state" where
  "send_close_notification rt s =
     (let (ret, _, h) = rt_transmit rt (word_bytes (12 :: u64)) (io_tls s); s = s\<lparr>io_tls := h\<rparr> in
      if ret \<noteq> 0 then (-1, s)
      else
        let (ret, _, h) = rt_transmit rt (bytes_of_string ''CLOSE_NOTIFY'') h in
        (if ret \<noteq> 0 then -1 else 0, s\<lparr>io_tls := h\<rparr>))"


section \<open>The thread\<close>

text \<open>The statuses at which an end stops: the source after success or failure, both on a wrong input.\<close>

definition io_ends :: "bool \<Rightarrow> int \<Rightarrow> bool" where
  "io_ends is_server ret \<longleftrightarrow>
     (\<not> is_server \<and> ret = TSI_ERROR_FAILED) \<or> (\<not> is_server \<and> ret = TSI_SUCCESS) \<or> ret = TSI_ERROR_INPUT"

text \<open>The diagnostic ring of 50 entries.\<close>

record io_dfx =
  tsi_start :: "u64 list"
  tsi_end :: "u64 list"
  tsi_type :: "u64 list"
  tsi_index :: nat

definition record_tsi_time :: "io_dfx \<Rightarrow> u64 \<Rightarrow> u64 \<Rightarrow> u64 \<Rightarrow> io_dfx option" where
  "record_tsi_time ctx t1 t2 ty =
     (let i = tsi_index ctx in
      do {
        s \<leftarrow> mem_write (tsi_start ctx) i [t1];
        e \<leftarrow> mem_write (tsi_end ctx) i [t2];
        y \<leftarrow> mem_write (tsi_type ctx) i [ty];
        Some \<lparr>tsi_start = s, tsi_end = e, tsi_type = y, tsi_index = (i + 1) mod 50\<rparr>
      })"

text \<open>
  The events of one poll. \<open>True\<close> leaves the thread; the entries of the diagnostic ring take the
  times \<open>clock\<close> gives.
\<close>

fun io_events ::
    "(nat \<Rightarrow> bool) \<Rightarrow> ('h, 'd) rats \<Rightarrow> 'w io_ops \<Rightarrow> ('w \<Rightarrow> u64 \<times> u64) \<Rightarrow> integrity_socket \<Rightarrow> nat \<Rightarrow> ep_event list
     \<Rightarrow> io_dfx \<Rightarrow> ('h, 'w) io_state \<Rightarrow> (bool \<times> io_dfx \<times> ('h, 'w) io_state) option" where
  "io_events malloc_ok rt ops clock params tid [] ctx s = Some (False, ctx, s)"
| "io_events malloc_ok rt ops clock params tid (e # es) ctx s =
     (if e = Ev_error then Some (True, ctx, s)
      else if e = Ev_in then
        do {
          (ret, s) \<leftarrow> handle_recv_event malloc_ok rt ops (io_guest_rd params) tid s;
          if ret < 0 \<or> io_ends (io_is_server params) ret then
            Some (True, ctx, if ret \<noteq> RECV_CLOSE_REQ then snd (send_close_notification rt s) else s)
          else
            let (ok, w) = (if ret = TSI_NOTIFY then op_notify ops (io_world s) else (True, io_world s));
                s = s\<lparr>io_world := w\<rparr> in
            if \<not> ok then Some (True, ctx, s)
            else do {
              ctx \<leftarrow> record_tsi_time ctx (fst (clock w)) (snd (clock w)) 1;
              io_events malloc_ok rt ops clock params tid es ctx s
            }
        }
      else io_events malloc_ok rt ops clock params tid es ctx s)"

text \<open>The loop of \<open>io_thread\<close>, after the devices were opened and the queue was mapped.\<close>

partial_function (option) io_loop ::
    "(nat \<Rightarrow> bool) \<Rightarrow> ('h, 'd) rats \<Rightarrow> 'w io_ops \<Rightarrow> ('w \<Rightarrow> u64 \<times> u64) \<Rightarrow> integrity_socket \<Rightarrow> nat
     \<Rightarrow> io_dfx \<Rightarrow> ('h, 'w) io_state \<Rightarrow> (io_dfx \<times> ('h, 'w) io_state) option" where
  "io_loop malloc_ok rt ops clock params tid ctx s =
     (let (ret, q, w) = op_checksum ops (io_guest_rd params) tid (io_queue s) (io_world s);
          s = s\<lparr>io_queue := q, io_world := w\<rparr> in
      if io_ends (io_is_server params) ret then Some (ctx, snd (send_close_notification rt s))
      else
        let (ok, w) = (if ret = TSI_NOTIFY then op_notify ops w else (True, w)); s = s\<lparr>io_world := w\<rparr> in
        if \<not> ok then Some (ctx, s)
        else Option.bind (if send_offset q > 0 then handle_send_event rt ops s else Some (0, s)) (\<lambda>(r, s).
          if r < 0 then Some (ctx, s)
          else
            let (res, w) = op_epoll_wait ops (io_world s); s = s\<lparr>io_world := w\<rparr> in
            case res of
              Wait_failed eintr \<Rightarrow>
                if eintr then io_loop malloc_ok rt ops clock params tid ctx s else Some (ctx, s)
            | Events es \<Rightarrow>
                Option.bind (io_events malloc_ok rt ops clock params tid es ctx s) (\<lambda>(stop, ctx, s).
                  if stop then Some (ctx, s) else io_loop malloc_ok rt ops clock params tid ctx s)))"

text \<open>An empty queue, and the empty ring with which \<open>io_thread\<close> enters the loop.\<close>

definition zero_queue :: share_queue where
  "zero_queue = \<lparr>send_len = 0, send_buf = replicate QUEUE_SIZE 0, send_offset = 0,
     queue_recv = replicate QUEUE_SIZE 0, recv_offset = 0\<rparr>"

definition zero_dfx :: io_dfx where
  "zero_dfx = \<lparr>tsi_start = replicate 50 0, tsi_end = replicate 50 0, tsi_type = replicate 50 0, tsi_index = 0\<rparr>"


section \<open>The shape of the queue\<close>

definition queue_wf :: "share_queue \<Rightarrow> bool" where
  "queue_wf q \<longleftrightarrow> length (send_buf q) = QUEUE_SIZE \<and> length (queue_recv q) = QUEUE_SIZE"

definition dfx_wf :: "io_dfx \<Rightarrow> bool" where
  "dfx_wf c \<longleftrightarrow> length (tsi_start c) = 50 \<and> length (tsi_end c) = 50 \<and> length (tsi_type c) = 50 \<and> tsi_index c < 50"

lemma record_tsi_time_ok:
  assumes "dfx_wf c"
  shows "\<exists>c'. record_tsi_time c t1 t2 ty = Some c' \<and> dfx_wf c'"
  using assms by (auto simp: record_tsi_time_def mem_write_def dfx_wf_def Let_def)

lemma unat_queue_size: "unat (of_nat QUEUE_SIZE :: u64) = QUEUE_SIZE"
  by simp

lemma unat_ucast_u64: "unat (ucast (len :: u32) :: u64) = unat len"
proof -
  have "unat len < 2 ^ 64" using unat_bound [of len] by simp
  then show ?thesis unfolding unsigned_ucast_eq by (simp add: take_bit_nat_eq_self)
qed

lemma queue_full_unat:
  assumes "unat (recv_offset q) \<le> QUEUE_SIZE"
  shows "is_recv_queue_full q len \<longleftrightarrow> unat (recv_offset q) + unat len > QUEUE_SIZE"
proof -
  have "recv_offset q \<le> of_nat QUEUE_SIZE" using assms by (simp add: word_le_nat_alt)
  then have "unat (of_nat QUEUE_SIZE - recv_offset q) = QUEUE_SIZE - unat (recv_offset q)"
    by (simp add: unat_sub)
  moreover have "unat (ucast len :: u64) = unat len" by (rule unat_ucast_u64)
  ultimately show ?thesis using assms unfolding is_recv_queue_full_def word_less_nat_alt by auto
qed

text \<open>
  Appending a frame that passed the check for room stays inside the buffer, whatever the offset word
  holds; the bytes before it are kept.
\<close>

lemma enqueue_in_bounds:
  assumes "queue_wf q" "\<not> is_recv_queue_full q len" "length buffer = unat len"
  shows "\<exists>r q'. enqueue_recv_data q buffer len = Some (r, q') \<and> queue_wf q' \<and> send_buf q' = send_buf q \<and>
    send_offset q' = send_offset q \<and> send_len q' = send_len q \<and>
    (if unat (recv_offset q) \<ge> QUEUE_SIZE then r = -1 \<and> q' = q
     else unat (recv_offset q') = unat (recv_offset q) + length buffer \<and>
       (r = -1 \<longleftrightarrow> unat (recv_offset q') = QUEUE_SIZE) \<and> (r = -1 \<or> r = 1) \<and>
       unat (recv_offset q') \<le> QUEUE_SIZE \<and>
       queue_recv q' = take (unat (recv_offset q)) (queue_recv q) @ buffer @ drop (unat (recv_offset q')) (queue_recv q))"
proof (cases "unat (recv_offset q) \<ge> QUEUE_SIZE")
  case True
  then have "recv_offset q \<ge> of_nat QUEUE_SIZE" by (simp add: word_le_nat_alt)
  then show ?thesis using True assms by (simp add: enqueue_recv_data_def)
next
  case False
  then have l: "unat (recv_offset q) + unat len \<le> QUEUE_SIZE"
    using queue_full_unat [of q len] assms(2) by simp
  have u: "unat (ucast len :: u64) = unat len" by (rule unat_ucast_u64)
  have a: "unat (recv_offset q + ucast len) = unat (recv_offset q) + unat len"
    using l u by (simp add: unat_word_ariths(1))
  have g: "\<not> recv_offset q \<ge> of_nat QUEUE_SIZE" using False by (simp add: word_le_nat_alt)
  have e: "(of_nat QUEUE_SIZE \<le> recv_offset q + ucast len) = (unat (recv_offset q) + unat len = QUEUE_SIZE)"
    unfolding word_le_nat_alt a unat_queue_size using l by auto
  have "mem_read buffer 0 (unat len) = Some buffer" using assms(3) by (simp add: mem_read_def)
  moreover have "mem_write (queue_recv q) (unat (recv_offset q)) buffer = Some
      (take (unat (recv_offset q)) (queue_recv q) @ buffer @ drop (unat (recv_offset q) + unat len) (queue_recv q))"
    using l assms(1,3) by (simp add: mem_write_def queue_wf_def)
  ultimately show ?thesis using False g a e l assms(1,3)
    by (simp add: enqueue_recv_data_def queue_wf_def Let_def)
qed

lemma make_room_Inr:
  fixes rt :: "('h, 'd) rats" and ops :: "'w io_ops" and s :: "('h, 'w) io_state"
  assumes "make_room rt ops guest tid len t s = Some (Inr r, s')"
  shows "\<not> is_recv_queue_full (io_queue s') len"
proof -
  let ?P = "\<lambda>(rt :: ('h, 'd) rats) (ops :: 'w io_ops) (guest :: u64) (tid :: nat) len (t :: int) (s :: ('h, 'w) io_state)
    (y :: (int + int) \<times> ('h, 'w) io_state). \<forall>r s'. y = (Inr r, s') \<longrightarrow> \<not> is_recv_queue_full (io_queue s') len"
  have "?P rt ops guest tid len t s (Inr r, s')"
    by (rule make_room.raw_induct [where P = ?P, OF _ assms])
      (auto simp: Let_def split: if_splits bind_splits prod.splits sum.splits)
  then show ?thesis by simp
qed

lemma make_room_enough:
  "\<not> is_recv_queue_full (io_queue s) len \<Longrightarrow> make_room rt ops guest tid len t s = Some (Inr t, s)"
  by (subst make_room.simps) simp


section \<open>Invariants of the thread\<close>

text \<open>The monitor keeps the shape of the memory; it may change all of its contents.\<close>

definition ops_wf :: "'w io_ops \<Rightarrow> bool" where
  "ops_wf ops \<longleftrightarrow> (\<forall>g t q w. queue_wf q \<longrightarrow> queue_wf (fst (snd (op_checksum ops g t q w))))"

lemma ops_wfD: "ops_wf ops \<Longrightarrow> queue_wf q \<Longrightarrow> op_checksum ops g t q w = (r, q', w') \<Longrightarrow> queue_wf q'"
  unfolding ops_wf_def by (metis fst_conv snd_conv)

lemma send_queue_data_wf:
  "send_queue_data rt q h = Some (r, q', h') \<Longrightarrow> queue_wf q \<Longrightarrow> queue_wf q'"
  by (auto simp: send_queue_data_def queue_wf_def Let_def split: if_splits bind_splits dest!: mem_write_SomeD)

lemma handle_send_event_wf:
  "handle_send_event rt ops s = Some (r, s') \<Longrightarrow> queue_wf (io_queue s) \<Longrightarrow> queue_wf (io_queue s')"
  by (auto simp: handle_send_event_def Let_def split: prod.splits if_splits bind_splits dest: send_queue_data_wf)

lemma make_room_wf:
  assumes "make_room rt ops guest tid len t s = Some (r, s')" "ops_wf ops" "queue_wf (io_queue s)"
  shows "queue_wf (io_queue s')"
proof -
  let ?P = "\<lambda>rt ops guest tid len t s y. ops_wf ops \<longrightarrow> queue_wf (io_queue s) \<longrightarrow> queue_wf (io_queue (snd y))"
  have "?P rt ops guest tid len t s (r, s')"
    by (rule make_room.raw_induct [where P = ?P, OF _ assms(1)])
      (fastforce simp: Let_def split: if_splits bind_splits prod.splits dest: handle_send_event_wf ops_wfD)
  then show ?thesis using assms by simp
qed

lemma recv_loop_length:
  fixes rt :: "('h, 'd) rats"
  assumes "recv_loop rt n acc h = Some (0, d, h')" "length acc \<le> n"
  shows "length d = n"
proof -
  let ?P = "\<lambda>(rt :: ('h, 'd) rats) n (acc :: bytes) (h :: 'h) (y :: int \<times> bytes \<times> 'h). length acc \<le> n \<longrightarrow> fst y = 0 \<longrightarrow> length (fst (snd y)) = n"
  have "?P rt n acc h (0, d, h')"
    by (rule recv_loop.raw_induct [where P = ?P, OF _ assms(1)])
      (fastforce simp: Let_def split: if_splits prod.splits)
  then show ?thesis using assms(2) by simp
qed

text \<open>What a received frame does to the receive half: nothing, or the bytes are appended within it.\<close>

definition appended :: "bytes \<Rightarrow> share_queue \<Rightarrow> share_queue \<Rightarrow> bool" where
  "appended b q q' \<longleftrightarrow>
     (let n = unat (recv_offset q) in
      n + length b \<le> QUEUE_SIZE \<and> unat (recv_offset q') = n + length b \<and>
      queue_recv q' = take n (queue_recv q) @ b @ drop (n + length b) (queue_recv q) \<and>
      send_buf q' = send_buf q \<and> send_offset q' = send_offset q \<and> send_len q' = send_len q)"

lemma enqueue_appends:
  assumes "queue_wf q" "\<not> is_recv_queue_full q (of_nat (length b))" "length b < 2 ^ 32"
  shows "\<exists>r q'. enqueue_recv_data q b (of_nat (length b)) = Some (r, q') \<and> queue_wf q' \<and> (q' = q \<or> appended b q q') \<and>
    (unat (recv_offset q) + length b < QUEUE_SIZE \<longrightarrow> r = 1 \<and> appended b q q')"
proof -
  have "length b = unat (of_nat (length b) :: u32)" using of_nat_u32_inverse [OF assms(3)] by simp
  from enqueue_in_bounds [OF assms(1,2) this] show ?thesis
    by (cases "unat (recv_offset q) \<ge> QUEUE_SIZE") (auto simp: appended_def Let_def)
qed

lemma announced_u32: "n \<le> QUEUE_SIZE - 8 \<Longrightarrow> unat (of_nat n :: u32) = n"
  by (rule of_nat_u32_inverse) simp


section \<open>The frame\<close>

definition frame_of :: "share_queue \<Rightarrow> bytes" where
  "frame_of q = word_bytes (send_offset q) @ take (unat (send_offset q)) (send_buf q)"

lemma length_frame_of: "queue_wf q \<Longrightarrow> unat (send_offset q) \<le> QUEUE_SIZE \<Longrightarrow> length (frame_of q) = unat (send_offset q) + 8"
  by (simp add: frame_of_def queue_wf_def)

lemma frame_eq:
  assumes "queue_wf q" "unat (send_offset q) \<le> QUEUE_SIZE"
  shows "frame (q\<lparr>send_len := send_offset q\<rparr>) = Some (frame_of q)"
  using assms by (simp add: frame_def frame_of_def mem_read_def queue_wf_def)

section \<open>Waiting and accessing outside\<close>

text \<open>
  A definition is \<^term>\<open>None\<close> where the code would leave a buffer, and where a loop never ends. The two
  are told apart by runs that go on for ever, each step of which is defined: of a transfer that
  keeps moving no byte, and of the wait for room. The library never writes more than it was asked for.
\<close>

definition rt_within :: "('h, 'd) rats \<Rightarrow> bool" where
  "rt_within rt \<longleftrightarrow> (\<forall>k h. length (fst (snd (rt_receive rt k h))) \<le> k)"

coinductive recv_runs_on :: "('h, 'd) rats \<Rightarrow> nat \<Rightarrow> bytes \<Rightarrow> 'h \<Rightarrow> bool" for rt n where
  recv_runs_on: "\<lbrakk>length acc < n; rt_receive rt (n - length acc) h = (0, d, h'); length d \<le> n - length acc;
     recv_runs_on rt n (acc @ d) h'\<rbrakk> \<Longrightarrow> recv_runs_on rt n acc h"

coinductive send_runs_on :: "('h, 'd) rats \<Rightarrow> bytes \<Rightarrow> nat \<Rightarrow> 'h \<Rightarrow> bool" for rt buf where
  send_runs_on: "\<lbrakk>k < length buf; rt_transmit rt (drop k buf) h = (0, m, h'); send_runs_on rt buf (k + m) h'\<rbrakk>
    \<Longrightarrow> send_runs_on rt buf k h"

definition send_event_runs_on :: "('h, 'd) rats \<Rightarrow> 'w io_ops \<Rightarrow> ('h, 'w) io_state \<Rightarrow> bool" where
  "send_event_runs_on rt ops s \<longleftrightarrow>
     (\<exists>w. op_epoll_ctl ops True (io_world s) = (True, w)) \<and> unat (send_offset (io_queue s)) \<le> QUEUE_SIZE \<and>
     send_runs_on rt (frame_of (io_queue s)) 0 (io_tls s)"

text \<open>One pass of the wait for room, up to the request for checksums.\<close>

definition room_sends :: "('h, 'd) rats \<Rightarrow> 'w io_ops \<Rightarrow> ('h, 'w) io_state \<Rightarrow> (int \<times> ('h, 'w) io_state) option" where
  "room_sends rt ops s = (if send_offset (io_queue s) > 0 then handle_send_event rt ops s else Some (0, s))"

coinductive room_runs_on :: "('h, 'd) rats \<Rightarrow> 'w io_ops \<Rightarrow> u64 \<Rightarrow> nat \<Rightarrow> u32 \<Rightarrow> ('h, 'w) io_state \<Rightarrow> bool"
  for rt ops guest tid len where
  room_sends_on: "\<lbrakk>is_recv_queue_full (io_queue s) len; send_offset (io_queue s) > 0; send_event_runs_on rt ops s\<rbrakk>
    \<Longrightarrow> room_runs_on rt ops guest tid len s"
| room_stays_full: "\<lbrakk>is_recv_queue_full (io_queue s) len; room_sends rt ops s = Some (r, s1); 0 \<le> r;
     op_checksum ops guest tid (io_queue s1) (io_world s1) = (t, q, w); t \<noteq> TSI_ERROR_FAILED;
     room_runs_on rt ops guest tid len (s1\<lparr>io_queue := q, io_world := w\<rparr>)\<rbrakk>
    \<Longrightarrow> room_runs_on rt ops guest tid len s"

text \<open>A receive event that never returns: in one of its two transfers, or in the wait for room.\<close>

definition recv_event_runs_on ::
    "(nat \<Rightarrow> bool) \<Rightarrow> ('h, 'd) rats \<Rightarrow> 'w io_ops \<Rightarrow> u64 \<Rightarrow> nat \<Rightarrow> ('h, 'w) io_state \<Rightarrow> bool" where
  "recv_event_runs_on malloc_ok rt ops guest tid s \<longleftrightarrow>
     recv_runs_on rt 8 [] (io_tls s) \<or>
     (\<exists>d h. recv_loop rt 8 [] (io_tls s) = Some (0, d, h) \<and>
        (let n = unat (word_of_bytes d :: u64) in
         n \<le> QUEUE_SIZE - 8 \<and>
         (room_runs_on rt ops guest tid (of_nat n) (s\<lparr>io_tls := h\<rparr>) \<or>
          (\<exists>t s1. make_room rt ops guest tid (of_nat n) TSI_INCOMPLETE (s\<lparr>io_tls := h\<rparr>) = Some (Inr t, s1) \<and>
             malloc_ok n \<and> recv_runs_on rt n [] (io_tls s1)))))"

lemma recv_loop_None:
  assumes "recv_loop rt n acc h = None" "rt_within rt"
  shows "recv_runs_on rt n acc h"
  using assms(1)
proof (coinduction arbitrary: acc h)
  case recv_runs_on
  obtain r d h' where r: "rt_receive rt (n - length acc) h = (r, d, h')" by (metis prod_cases3)
  then have "length d \<le> n - length acc" using assms(2) unfolding rt_within_def by (metis fst_conv snd_conv)
  then show ?case using recv_runs_on r by (subst (asm) recv_loop.simps) (auto split: if_splits)
qed

lemma send_loop_None:
  assumes "send_loop rt buf k h = None"
  shows "send_runs_on rt buf k h"
  using assms
proof (coinduction arbitrary: k h)
  case send_runs_on
  obtain r m h' where "rt_transmit rt (drop k buf) h = (r, m, h')" by (metis prod_cases3)
  then show ?case using send_runs_on by (subst (asm) send_loop.simps) (auto split: if_splits)
qed

text \<open>Sending the send half stays inside it: the only way not to return is a transfer that goes on.\<close>

lemma handle_send_event_None:
  assumes "handle_send_event rt ops s = None" "queue_wf (io_queue s)"
  shows "send_event_runs_on rt ops s"
proof -
  obtain ok w where e: "op_epoll_ctl ops True (io_world s) = (ok, w)" by (metis surj_pair)
  then have n: "ok" "send_queue_data rt (io_queue s) (io_tls s) = None"
    using assms(1) by (auto simp: handle_send_event_def Let_def split: if_splits bind_splits prod.splits)
  then have l: "unat (send_offset (io_queue s)) \<le> QUEUE_SIZE"
    by (auto simp: send_queue_data_def word_less_nat_alt split: if_splits)
  have "mem_write (send_buf (io_queue s)) 0 (replicate (unat (send_offset (io_queue s))) 0) \<noteq> None"
    using l assms(2) by (simp add: mem_write_def queue_wf_def)
  then have "send_loop rt (frame_of (io_queue s)) 0 (io_tls s) = None"
    using n(2) frame_eq [OF assms(2) l]
    by (auto simp: send_queue_data_def Let_def split: if_splits bind_splits option.splits)
  then show ?thesis using e n(1) l send_loop_None unfolding send_event_runs_on_def by auto
qed

lemma room_sends_wf: "room_sends rt ops s = Some (r, s') \<Longrightarrow> queue_wf (io_queue s) \<Longrightarrow> queue_wf (io_queue s')"
  by (auto simp: room_sends_def split: if_splits dest: handle_send_event_wf)

lemma make_room_None:
  assumes "make_room rt ops guest tid len t s = None" "ops_wf ops" "queue_wf (io_queue s)"
  shows "room_runs_on rt ops guest tid len s"
  using assms(1,3)
proof (coinduction arbitrary: t s)
  case (room_runs_on t s)
  have f: "is_recv_queue_full (io_queue s) len" using room_runs_on(1) by (metis make_room_enough option.distinct(1))
  show ?case
  proof (cases "room_sends rt ops s")
    case None
    then have "send_offset (io_queue s) > 0" "handle_send_event rt ops s = None"
      by (auto simp: room_sends_def split: if_splits)
    then show ?thesis using f handle_send_event_None room_runs_on(2) by blast
  next
    case (Some rs)
    obtain r s1 where r: "room_sends rt ops s = Some (r, s1)" using Some by (cases rs) auto
    obtain t' q w where c: "op_checksum ops guest tid (io_queue s1) (io_world s1) = (t', q, w)" by (metis prod_cases3)
    have "queue_wf q" using ops_wfD [OF assms(2) _ c] room_sends_wf [OF r room_runs_on(2)] by blast
    then show ?thesis using room_runs_on(1) f r c
      by (subst (asm) make_room.simps) (auto simp: room_sends_def [symmetric] Let_def split: if_splits)
  qed
qed

section \<open>The transfer of a frame\<close>

context byte_stream
begin

lemma send_queue_data_all:
  assumes "queue_wf q" "unat (send_offset q) \<le> QUEUE_SIZE"
  shows "\<exists>q' h'. send_queue_data rt q h = Some (0, q', h') \<and> sent h' = sent h @ frame_of q \<and> pending h' = pending h \<and>
    send_offset q' = 0 \<and> send_len q' = 0 \<and>
    send_buf q' = replicate (unat (send_offset q)) 0 @ drop (unat (send_offset q)) (send_buf q) \<and>
    queue_recv q' = queue_recv q \<and> recv_offset q' = recv_offset q"
proof -
  have "\<not> send_offset q > of_nat QUEUE_SIZE" using assms(2) by (simp add: word_less_nat_alt)
  moreover obtain h' where "send_loop rt (frame_of q) 0 h = Some (0, h')" "sent h' = sent h @ frame_of q" "pending h' = pending h"
    using send_loop_all [of "frame_of q" h] length_frame_of [OF assms] assms(2) by auto
  moreover have "mem_write (send_buf q) 0 (replicate (unat (send_offset q)) 0) =
      Some (replicate (unat (send_offset q)) 0 @ drop (unat (send_offset q)) (send_buf q))"
    using assms by (simp add: mem_write_def queue_wf_def)
  ultimately show ?thesis by (simp add: send_queue_data_def Let_def frame_eq [OF assms])
qed

lemma handle_recv_event_frame:
  assumes "queue_wf q" "unat (send_offset q) \<le> QUEUE_SIZE - 8" "pending (io_tls s) = frame_of q @ rest"
    and "queue_wf (io_queue s)" "unat (recv_offset (io_queue s)) + unat (send_offset q) < QUEUE_SIZE"
    and "malloc_ok (unat (send_offset q))"
    and "\<not> (12 \<le> unat (send_offset q) \<and> take 12 (send_buf q) = bytes_of_string ''CLOSE_NOTIFY'')"
  shows "\<exists>s'. handle_recv_event malloc_ok rt ops guest tid s = Some (TSI_INCOMPLETE, s') \<and> pending (io_tls s') = rest \<and>
    sent (io_tls s') = sent (io_tls s) \<and> appended (take (unat (send_offset q)) (send_buf q)) (io_queue s) (io_queue s')"
proof -
  let ?n = "unat (send_offset q)" and ?b = "take (unat (send_offset q)) (send_buf q)"
  have lb: "length ?b = ?n" using assms(1,2) by (simp add: queue_wf_def)
  obtain h1 where h1: "recv_loop rt 8 [] (io_tls s) = Some (0, word_bytes (send_offset q), h1)"
    "pending h1 = ?b @ rest" "sent h1 = sent (io_tls s)"
    using recv_loop_all [of 8 "io_tls s"] assms(3) by (auto simp: frame_of_def)
  obtain h2 where h2: "recv_loop rt ?n [] h1 = Some (0, ?b, h2)" "pending h2 = rest" "sent h2 = sent h1"
    using recv_loop_all [of ?n h1] h1(2) lb assms(2) by auto
  have w: "word_of_bytes (word_bytes (send_offset q)) = send_offset q" by (simp add: word_of_bytes_word_bytes)
  have f: "\<not> is_recv_queue_full (io_queue s) (of_nat ?n)"
    using queue_full_unat [of "io_queue s"] assms(2,5) announced_u32 [OF assms(2)] by simp
  have m: "make_room rt ops guest tid (of_nat ?n) TSI_INCOMPLETE (s\<lparr>io_tls := h1\<rparr>) = Some (Inr TSI_INCOMPLETE, s\<lparr>io_tls := h1\<rparr>)"
    by (rule make_room_enough) (use f in simp)
  have c: "\<not> (12 \<le> ?n \<and> take 12 ?b = bytes_of_string ''CLOSE_NOTIFY'')" using assms(7) by (auto simp: min_def)
  have "length ?b < 2 ^ 32" using lb assms(2) by simp
  then obtain q' where "enqueue_recv_data (io_queue s) ?b (of_nat (length ?b)) = Some (1, q')" "appended ?b (io_queue s) q'"
    using enqueue_appends [OF assms(4), of ?b] f lb assms(5) by auto
  then show ?thesis using h1 h2 m c assms(2,6)
    by (simp add: handle_recv_event_def w Let_def)
qed

end

text \<open>Two ends for evaluation: one with two bytes to send, one with an empty queue and the frame on its stream.\<close>

definition demo_ops :: "unit io_ops" where
  "demo_ops = \<lparr>op_checksum = (\<lambda>_ _ q w. (TSI_INCOMPLETE, q, w)), op_epoll_ctl = (\<lambda>_ w. (True, w)),
     op_epoll_wait = (\<lambda>w. (Events [], w)), op_notify = (\<lambda>w. (True, w))\<rparr>"

definition demo_stream_rats :: "(stream, unit) rats" where
  "demo_stream_rats = \<lparr>rt_receive = stream_receive, rt_transmit = stream_transmit, rt_init = (\<lambda>_. (1, None)),
     rt_set_callback = (\<lambda>h. (0, h)), rt_negotiate = (\<lambda>_ fs h. Some (0, fs, h)), rt_claims = (\<lambda>_. True),
     rt_evidence = (\<lambda>_. None), rt_err = (\<lambda>_. 1), rt_io = (\<lambda>_ _ _ i d. (1, i, d)),
     rt_tsi = \<lparr>dev_open = -1, dev_version = (\<lambda>_. (1, 0, 0)), dev_token = (\<lambda>_ cmd. (1, cmd)), dev_get_cert = (\<lambda>_ dc. (1, dc))\<rparr>\<rparr>"

definition demo_queue :: share_queue where
  "demo_queue = zero_queue\<lparr>send_offset := 2, send_buf := 5 # 6 # replicate 65518 0\<rparr>"

definition demo_io_state :: "(stream, unit) io_state" where
  "demo_io_state = \<lparr>io_tls = \<lparr>st_in = frame_of demo_queue @ [9], st_out = [], st_cuts = [1, 3, 1]\<rparr>, io_world = (),
     io_queue = zero_queue\<rparr>"

lemma demo_queue_facts:
  "queue_wf demo_queue" "send_offset demo_queue = 2" "take 12 (send_buf demo_queue) = 5 # 6 # replicate 10 0"
  "queue_wf zero_queue" "recv_offset zero_queue = 0" "ops_wf demo_ops"
  "st_in (io_tls demo_io_state) = frame_of demo_queue @ [9]" "io_queue demo_io_state = zero_queue"
  by (simp_all add: queue_wf_def demo_queue_def zero_queue_def ops_wf_def demo_ops_def demo_io_state_def)

text \<open>What a receive event that returns has done, whatever length was announced.\<close>

definition received ::
    "('h, 'd) rats \<Rightarrow> 'w io_ops \<Rightarrow> u64 \<Rightarrow> nat \<Rightarrow> ('h, 'w) io_state \<Rightarrow> int \<Rightarrow> ('h, 'w) io_state \<Rightarrow> bool" where
  "received rt ops guest tid s r s' \<longleftrightarrow>
     (\<exists>e d h. recv_loop rt 8 [] (io_tls s) = Some (e, d, h) \<and>
        (let n = unat (word_of_bytes d :: u64) in
         if e \<noteq> 0 \<or> n > QUEUE_SIZE - 8 then r = -1 \<and> s' = s\<lparr>io_tls := h\<rparr>
         else \<exists>m s1. make_room rt ops guest tid (of_nat n) TSI_INCOMPLETE (s\<lparr>io_tls := h\<rparr>) = Some (m, s1) \<and>
           (io_queue s' = io_queue s1 \<or>
            (\<exists>b. length b = n \<and> recv_loop rt n [] (io_tls s1) = Some (0, b, io_tls s') \<and>
               appended b (io_queue s1) (io_queue s')))))"

lemma handle_recv_event_cases:
  assumes "rt_within rt" "ops_wf ops" "queue_wf (io_queue s)"
  shows "recv_event_runs_on malloc_ok rt ops guest tid s \<or>
    (\<exists>r s'. handle_recv_event malloc_ok rt ops guest tid s = Some (r, s') \<and> queue_wf (io_queue s') \<and>
       received rt ops guest tid s r s')"
proof (cases "recv_loop rt 8 [] (io_tls s)")
  case None
  then show ?thesis using recv_loop_None [OF _ assms(1)] by (simp add: recv_event_runs_on_def)
next
  case (Some edh)
  obtain e d h where e: "recv_loop rt 8 [] (io_tls s) = Some (e, d, h)" using Some by (cases edh) auto
  let ?n = "unat (word_of_bytes d :: u64)" and ?s = "s\<lparr>io_tls := h\<rparr>"
  let ?room = "make_room rt ops guest tid (of_nat ?n) TSI_INCOMPLETE ?s"
  show ?thesis
  proof (cases "e \<noteq> 0 \<or> ?n > QUEUE_SIZE - 8")
    case True
    then show ?thesis using e assms(3) by (auto simp: handle_recv_event_def received_def Let_def)
  next
    case ok: False
    then have e0: "recv_loop rt 8 [] (io_tls s) = Some (0, d, h)" "?n \<le> QUEUE_SIZE - 8" using e by auto
    show ?thesis
    proof (cases ?room)
      case None
      have "room_runs_on rt ops guest tid (of_nat ?n) ?s" using make_room_None [OF None assms(2)] assms(3) by simp
      then show ?thesis using e0 unfolding recv_event_runs_on_def Let_def by blast
    next
      case (Some ms)
      obtain m s1 where m: "?room = Some (m, s1)" using Some by (cases ms) auto
      have w: "queue_wf (io_queue s1)" using make_room_wf [OF m assms(2)] assms(3) by simp
      have g: "received rt ops guest tid s r s'" if "io_queue s' = io_queue s1" for r s'
        using that e ok m unfolding received_def Let_def by fastforce
      show ?thesis
      proof (cases "\<exists>t. m = Inr t \<and> malloc_ok ?n")
        case False
        then show ?thesis using e ok m w g by (cases m) (auto simp: handle_recv_event_def Let_def)
      next
        case True
        then obtain t where t: "m = Inr t" "malloc_ok ?n" by blast
        show ?thesis
        proof (cases "recv_loop rt ?n [] (io_tls s1)")
          case None
          then show ?thesis using e0 m t recv_loop_None [OF None assms(1)]
            unfolding recv_event_runs_on_def Let_def by blast
        next
          case (Some ebh)
          obtain e2 b h2 where b: "recv_loop rt ?n [] (io_tls s1) = Some (e2, b, h2)" using Some by (cases ebh) auto
          show ?thesis
          proof (cases "e2 = 0 \<and> \<not> (12 \<le> ?n \<and> take 12 b = bytes_of_string ''CLOSE_NOTIFY'')")
            case False
            then show ?thesis using e ok m t b w g by (auto simp: handle_recv_event_def Let_def)
          next
            case True
            then have l: "length b = ?n" using recv_loop_length b by fastforce
            obtain r q where q: "enqueue_recv_data (io_queue s1) b (of_nat (length b)) = Some (r, q)" "queue_wf q"
                "q = io_queue s1 \<or> appended b (io_queue s1) q"
              using enqueue_appends [OF w, of b] make_room_Inr [OF m [unfolded t(1)]] l ok by auto
            let ?s' = "s1\<lparr>io_tls := h2, io_queue := q\<rparr>"
            have "received rt ops guest tid s k ?s'" for k
              using e ok m b True l q(3) g [of ?s'] unfolding received_def Let_def by fastforce
            then show ?thesis using e ok m t b True q by (auto simp: handle_recv_event_def Let_def)
          qed
        qed
      qed
    qed
  qed
qed

text \<open>Conversely, what goes on for ever does not return.\<close>

lemma recv_runs_on_None: "recv_runs_on rt n acc h \<Longrightarrow> recv_loop rt n acc h = None"
proof (rule ccontr)
  fix acc :: bytes and h :: 'h and n and rt :: "('h, 'd) rats"
  assume a: "recv_runs_on rt n acc h" "recv_loop rt n acc h \<noteq> None"
  then obtain y where y: "recv_loop rt n acc h = Some y" by blast
  let ?P = "\<lambda>(rt :: ('h, 'd) rats) n (acc :: bytes) (h :: 'h) (y :: int \<times> bytes \<times> 'h). \<not> recv_runs_on rt n acc h"
  have "?P rt n acc h y"
    by (rule recv_loop.raw_induct [where P = ?P, OF _ y], rule notI, erule recv_runs_on.cases)
      (auto simp: Let_def split: if_splits)
  then show False using a(1) by simp
qed

lemma send_runs_on_None: "send_runs_on rt buf k h \<Longrightarrow> send_loop rt buf k h = None"
proof (rule ccontr)
  fix buf :: bytes and h :: 'h and k and rt :: "('h, 'd) rats"
  assume a: "send_runs_on rt buf k h" "send_loop rt buf k h \<noteq> None"
  then obtain y where y: "send_loop rt buf k h = Some y" by blast
  let ?P = "\<lambda>(rt :: ('h, 'd) rats) (buf :: bytes) k (h :: 'h) (y :: int \<times> 'h). \<not> send_runs_on rt buf k h"
  have "?P rt buf k h y"
    by (rule send_loop.raw_induct [where P = ?P, OF _ y], rule notI, erule send_runs_on.cases)
      (auto simp: Let_def split: if_splits)
  then show False using a(1) by simp
qed

lemma send_event_runs_on_None:
  assumes "send_event_runs_on rt ops s" "queue_wf (io_queue s)"
  shows "handle_send_event rt ops s = None"
proof -
  obtain w where s: "op_epoll_ctl ops True (io_world s) = (True, w)" "unat (send_offset (io_queue s)) \<le> QUEUE_SIZE"
      "send_runs_on rt (frame_of (io_queue s)) 0 (io_tls s)"
    using assms(1) by (auto simp: send_event_runs_on_def)
  have "\<not> send_offset (io_queue s) > of_nat QUEUE_SIZE" using s(2) by (simp add: word_less_nat_alt)
  then show ?thesis using s send_runs_on_None [OF s(3)] frame_eq [OF assms(2) s(2)]
    by (simp add: handle_send_event_def send_queue_data_def Let_def)
qed

lemma room_runs_on_None:
  fixes rt :: "('h, 'd) rats" and ops :: "'w io_ops" and s :: "('h, 'w) io_state"
  assumes "room_runs_on rt ops guest tid len s" "ops_wf ops" "queue_wf (io_queue s)"
  shows "make_room rt ops guest tid len t s = None"
proof (rule ccontr)
  assume "make_room rt ops guest tid len t s \<noteq> None"
  then obtain y where y: "make_room rt ops guest tid len t s = Some y" by blast
  let ?P = "\<lambda>(rt :: ('h, 'd) rats) (ops :: 'w io_ops) (guest :: u64) (tid :: nat) len (t :: int) (s :: ('h, 'w) io_state)
    (y :: (int + int) \<times> ('h, 'w) io_state). ops_wf ops \<longrightarrow> queue_wf (io_queue s) \<longrightarrow> \<not> room_runs_on rt ops guest tid len s"
  have "?P rt ops guest tid len t s y"
  proof (rule make_room.raw_induct [where P = ?P, OF _ y], intro impI notI, erule room_runs_on.cases, goal_cases)
    case (1 f rt ops guest tid len t s y sa)
    then show ?case using send_event_runs_on_None [of rt ops sa] by simp
  next
    case (2 f rt ops guest tid len t s y sa r s1 t' q w)
    have "queue_wf (io_queue s1)" using room_sends_wf [OF 2(7)] 2(4,5) by simp
    then have "queue_wf q" using ops_wfD [OF 2(3) _ 2(9)] by simp
    moreover have "f rt ops guest tid len t' (s1\<lparr>io_queue := q, io_world := w\<rparr>) = Some y"
      using 2(2,5-) by (auto simp: room_sends_def [symmetric] Let_def)
    ultimately show ?case using 2(1) [of rt ops guest tid len t' "s1\<lparr>io_queue := q, io_world := w\<rparr>"] 2(3,11) by simp
  qed
  then show False using assms by simp
qed

lemma recv_event_runs_on_None:
  assumes "recv_event_runs_on malloc_ok rt ops guest tid s" "ops_wf ops" "queue_wf (io_queue s)"
  shows "handle_recv_event malloc_ok rt ops guest tid s = None"
  using assms recv_runs_on_None [where rt = rt] room_runs_on_None [OF _ assms(2)]
  unfolding recv_event_runs_on_def handle_recv_event_def by (fastforce simp: Let_def)

text \<open>
  C25. Receiving never leaves the shared memory. Whatever length the other side announces, whatever
  it sends and whatever offsets the monitor leaves in the queue, \<open>handle_recv_event\<close> returns with the
  queue in shape, or it goes on for ever: in a transfer that moves no more bytes, or waiting for room
  that the monitor never makes, with every step on the way defined. When it returns, a length above
  \<open>QUEUE_SIZE - 8\<close> was refused with -1 and nothing but the session changed; otherwise, relative to the
  queue after the wait for room, it changed nothing or appended exactly as many received bytes as
  announced, inside the receive half, leaving the send half alone. The library is taken not to write
  more than it was asked for, and the monitor to keep the size of the memory.
\<close>
theorem recv_event_in_bounds:
  assumes "rt_within rt" "ops_wf ops" "queue_wf (io_queue s)"
  shows "recv_event_runs_on malloc_ok rt ops guest tid s \<or>
    (\<exists>r s'. handle_recv_event malloc_ok rt ops guest tid s = Some (r, s') \<and> queue_wf (io_queue s') \<and>
       received rt ops guest tid s r s')"
  by (rule handle_recv_event_cases [OF assms])

lemma stream_within: "rt_within (stream_rats rt)"
  unfolding rt_within_def
proof (intro allI)
  fix k :: nat and h :: stream
  have "length (take (next_cut k (st_cuts h)) (st_in h)) \<le> next_cut k (st_cuts h)" by simp
  then show "length (fst (snd (rt_receive (stream_rats rt) k h))) \<le> k"
    using next_cut_bounds(1) [of k "st_cuts h"] by (simp add: stream_receive_def Let_def)
qed

text \<open>The receive event of the sample state stores the frame and returns.\<close>

lemma demo_received:
  "\<exists>s'. handle_recv_event (\<lambda>_. True) (stream_rats demo_stream_rats) ops 7 0 demo_io_state = Some (TSI_INCOMPLETE, s')"
  using stream.handle_recv_event_frame [OF demo_queue_facts(1) _ demo_queue_facts(7), of "\<lambda>_. True" demo_stream_rats ops 7 0]
  by (auto simp: demo_queue_facts)

theorem recv_event_in_bounds_witness:
  "\<exists>r s'. handle_recv_event (\<lambda>_. True) (stream_rats demo_stream_rats) demo_ops 7 0 demo_io_state = Some (r, s') \<and>
    queue_wf (io_queue s') \<and> received (stream_rats demo_stream_rats) demo_ops 7 0 demo_io_state r s'"
proof -
  have w: "queue_wf (io_queue demo_io_state)" by (simp add: demo_queue_facts)
  have "\<not> recv_event_runs_on (\<lambda>_. True) (stream_rats demo_stream_rats) demo_ops 7 0 demo_io_state"
    using demo_received [of demo_ops] recv_event_runs_on_None [OF _ demo_queue_facts(6) w] by (metis option.distinct(1))
  then show ?thesis using recv_event_in_bounds [OF stream_within demo_queue_facts(6) w] by metis
qed

text \<open>
  C18. A frame arrives as it was sent. Over a byte stream cut into arbitrary pieces, in both
  directions, \<open>send_queue_data\<close> sends the whole send half as one frame and clears it, and
  \<open>handle_recv_event\<close> on the other end, with room for the frame, appends exactly those bytes to its
  receive half and leaves the stream behind the frame, for every frame of at most
  \<open>QUEUE_SIZE - 8\<close> bytes that does not start with the close notification.
\<close>
theorem frame_transfer:
  assumes "queue_wf q" "unat (send_offset q) \<le> QUEUE_SIZE - 8" "st_in (io_tls s) = frame_of q @ rest"
    and "queue_wf (io_queue s)" "unat (recv_offset (io_queue s)) + unat (send_offset q) < QUEUE_SIZE"
    and "malloc_ok (unat (send_offset q))"
    and "\<not> (12 \<le> unat (send_offset q) \<and> take 12 (send_buf q) = bytes_of_string ''CLOSE_NOTIFY'')"
  shows "(\<exists>q' h'. send_queue_data (stream_rats rt) q h = Some (0, q', h') \<and> st_out h' = st_out h @ frame_of q \<and>
      send_offset q' = 0 \<and>
      send_buf q' = replicate (unat (send_offset q)) 0 @ drop (unat (send_offset q)) (send_buf q)) \<and>
    (\<exists>s'. handle_recv_event malloc_ok (stream_rats rt) ops guest tid s = Some (TSI_INCOMPLETE, s') \<and>
      st_in (io_tls s') = rest \<and> appended (take (unat (send_offset q)) (send_buf q)) (io_queue s) (io_queue s'))"
  using stream.send_queue_data_all [OF assms(1), of rt h] assms(2)
    stream.handle_recv_event_frame [where malloc_ok = malloc_ok, OF assms] by fastforce

theorem frame_transfer_witness:
  "\<exists>s'. handle_recv_event (\<lambda>_. True) (stream_rats demo_stream_rats) demo_ops 7 0 demo_io_state = Some (TSI_INCOMPLETE, s') \<and>
    st_in (io_tls s') = [9] \<and> appended (take (unat (send_offset demo_queue)) (send_buf demo_queue)) zero_queue (io_queue s')"
  using frame_transfer [of demo_queue demo_io_state "[9]" "\<lambda>_. True" demo_stream_rats "io_tls demo_io_state" demo_ops 7 0]
  by (simp add: demo_queue_facts)


section \<open>Limits of the frames\<close>

text \<open>
  A frame that fills the receive half exactly passes the check for room and is stored, but is
  reported as a failure, which ends the thread.
\<close>

lemma exact_fill_reported_as_failure:
  assumes "queue_wf q" "unat (recv_offset q) + length b = QUEUE_SIZE" "b \<noteq> []"
  shows "\<exists>q'. \<not> is_recv_queue_full q (of_nat (length b)) \<and>
    enqueue_recv_data q b (of_nat (length b)) = Some (-1, q') \<and> appended b q q'"
proof -
  have l: "length b = unat (of_nat (length b) :: u32)" using of_nat_u32_inverse [of "length b"] assms(2) by simp
  have f: "\<not> is_recv_queue_full q (of_nat (length b))"
    using queue_full_unat [of q "of_nat (length b)"] assms(2) l by simp
  have "0 < length b" using assms(3) by simp
  then have "\<not> unat (recv_offset q) \<ge> QUEUE_SIZE" using assms(2) by linarith
  then show ?thesis using enqueue_in_bounds [OF assms(1) f l] f assms(2) by (auto simp: appended_def Let_def)
qed

text \<open>A send half of more than \<open>QUEUE_SIZE - 8\<close> bytes is sent, and refused by the other end.\<close>

lemma oversize_frame_refused:
  assumes "queue_wf q" "QUEUE_SIZE - 8 < unat (send_offset q)" "unat (send_offset q) \<le> QUEUE_SIZE"
    "st_in (io_tls s) = frame_of q @ rest"
  shows "(\<exists>q' h'. send_queue_data (stream_rats rt) q h = Some (0, q', h')) \<and>
    (\<exists>s'. handle_recv_event malloc_ok (stream_rats rt) ops guest tid s = Some (-1, s'))"
proof -
  obtain h1 where "recv_loop (stream_rats rt) 8 [] (io_tls s) = Some (0, word_bytes (send_offset q), h1)"
    using stream.recv_loop_all [of 8 "io_tls s" rt] assms(4) by (auto simp: frame_of_def)
  moreover have "word_of_bytes (word_bytes (send_offset q)) = send_offset q" by (simp add: word_of_bytes_word_bytes)
  ultimately show ?thesis using assms(2) stream.send_queue_data_all [OF assms(1,3), of rt h]
    by (auto simp: handle_recv_event_def Let_def)
qed


section \<open>The whole thread\<close>

lemma enqueue_wf: "enqueue_recv_data q b len = Some (r, q') \<Longrightarrow> queue_wf q \<Longrightarrow> queue_wf q'"
  by (auto simp: enqueue_recv_data_def queue_wf_def Let_def split: if_splits bind_splits dest!: mem_write_SomeD)

lemma handle_recv_event_wf:
  assumes "handle_recv_event malloc_ok rt ops guest tid s = Some (r, s')" "ops_wf ops" "queue_wf (io_queue s)"
  shows "queue_wf (io_queue s')"
proof -
  obtain r1 d h1 where r1: "recv_loop rt 8 [] (io_tls s) = Some (r1, d, h1)"
    using assms(1) unfolding handle_recv_event_def by (auto split: bind_splits)
  have m: "queue_wf (io_queue s1)"
    if "make_room rt ops guest tid len t (s\<lparr>io_tls := h1\<rparr>) = Some (m, s1)" for len t m s1
    using make_room_wf [OF that assms(2)] assms(3) by simp
  have e: "queue_wf q'"
    if "make_room rt ops guest tid len t (s\<lparr>io_tls := h1\<rparr>) = Some (m, s1)" "enqueue_recv_data (io_queue s1) b l = Some (k, q')"
    for len t m s1 b l k q' using enqueue_wf [OF that(2)] m [OF that(1)] .
  show ?thesis
    using assms(1,3) unfolding handle_recv_event_def r1
    by (auto simp: Let_def split: if_splits bind_splits sum.splits) (erule m | erule (1) e)+
qed

lemma send_close_queue [simp]: "io_queue (snd (send_close_notification rt s)) = io_queue s"
  by (simp add: send_close_notification_def Let_def split: prod.splits)

definition io_wf :: "io_dfx \<Rightarrow> ('h, 'w) io_state \<Rightarrow> bool" where
  "io_wf ctx s \<longleftrightarrow> dfx_wf ctx \<and> queue_wf (io_queue s)"

lemma record_tsi_time_wf: "record_tsi_time c t1 t2 ty = Some c' \<Longrightarrow> dfx_wf c \<Longrightarrow> dfx_wf c'"
  by (drule record_tsi_time_ok [where ?t1.0 = t1 and ?t2.0 = t2 and ty = ty]) auto

lemma io_events_wf:
  assumes "io_events malloc_ok rt ops clock params tid es ctx s = Some (stop, ctx', s')" "ops_wf ops" "io_wf ctx s"
  shows "io_wf ctx' s'"
  using assms
proof (induction es arbitrary: ctx s)
  case (Cons e es)
  show ?case
  proof (cases "e = Ev_in")
    case True
    then obtain r s1 where r: "handle_recv_event malloc_ok rt ops (io_guest_rd params) tid s = Some (r, s1)"
      using Cons.prems(1) by (auto split: bind_splits)
    have w: "queue_wf (io_queue s1)" "dfx_wf ctx"
      using handle_recv_event_wf [OF r assms(2)] Cons.prems(3) by (simp_all add: io_wf_def)
    show ?thesis
      using Cons.prems(1) True r w Cons.IH [OF _ assms(2)]
      by (auto simp: io_wf_def Let_def split: if_splits bind_splits prod.splits dest: record_tsi_time_wf)
  next
    case False
    then show ?thesis using Cons by (auto split: if_splits)
  qed
qed simp

lemma io_loop_wf:
  fixes rt :: "('h, 'd) rats" and ops :: "'w io_ops" and s :: "('h, 'w) io_state"
  assumes "io_loop malloc_ok rt ops clock params tid ctx s = Some (ctx', s')" "ops_wf ops" "io_wf ctx s"
  shows "io_wf ctx' s'"
proof -
  let ?P = "\<lambda>(mo :: nat \<Rightarrow> bool) (rt :: ('h, 'd) rats) (ops :: 'w io_ops) (clock :: 'w \<Rightarrow> u64 \<times> u64) (params :: integrity_socket)
    (tid :: nat) ctx (s :: ('h, 'w) io_state) (y :: io_dfx \<times> ('h, 'w) io_state).
    ops_wf ops \<longrightarrow> io_wf ctx s \<longrightarrow> io_wf (fst y) (snd y)"
  have "?P malloc_ok rt ops clock params tid ctx s (ctx', s')"
  proof (rule io_loop.raw_induct [where P = ?P, OF _ assms(1)], intro impI, goal_cases)
    case (1 f mo rt ops clock params tid ctx s y)
    then have IH: "f mo rt ops clock params tid ctx s = Some y \<Longrightarrow> io_wf ctx s \<Longrightarrow> io_wf (fst y) (snd y)" for ctx s y by blast
    obtain r q w where c: "op_checksum ops (io_guest_rd params) tid (io_queue s) (io_world s) = (r, q, w)" by (metis prod_cases3)
    have q: "queue_wf q" "dfx_wf ctx" using ops_wfD [OF 1(3) _ c] 1(4) by (simp_all add: io_wf_def)
    have e: "queue_wf (io_queue s1)" if "handle_send_event rt ops (s\<lparr>io_queue := q, io_world := w'\<rparr>) = Some (k, s1)" for w' k s1
      using handle_send_event_wf [OF that] q by simp
    show ?case using 1(2) q unfolding c
      by (auto simp: Let_def io_wf_def split: if_splits bind_splits prod.splits ep_result.splits
          dest!: e IH io_events_wf [OF _ 1(3)])
  qed
  then show ?thesis using assms(2,3) by simp
qed

text \<open>
  One round of the loop, from one request for checksums to the next: \<open>True\<close> leaves the loop. The loop is
  the repetition of its rounds.
\<close>

definition io_round ::
    "(nat \<Rightarrow> bool) \<Rightarrow> ('h, 'd) rats \<Rightarrow> 'w io_ops \<Rightarrow> ('w \<Rightarrow> u64 \<times> u64) \<Rightarrow> integrity_socket \<Rightarrow> nat
     \<Rightarrow> io_dfx \<Rightarrow> ('h, 'w) io_state \<Rightarrow> (bool \<times> io_dfx \<times> ('h, 'w) io_state) option" where
  "io_round malloc_ok rt ops clock params tid ctx s =
     (let (ret, q, w) = op_checksum ops (io_guest_rd params) tid (io_queue s) (io_world s);
          s = s\<lparr>io_queue := q, io_world := w\<rparr> in
      if io_ends (io_is_server params) ret then Some (True, ctx, snd (send_close_notification rt s))
      else
        let (ok, w) = (if ret = TSI_NOTIFY then op_notify ops w else (True, w)); s = s\<lparr>io_world := w\<rparr> in
        if \<not> ok then Some (True, ctx, s)
        else Option.bind (room_sends rt ops s) (\<lambda>(r, s).
          if r < 0 then Some (True, ctx, s)
          else
            let (res, w) = op_epoll_wait ops (io_world s); s = s\<lparr>io_world := w\<rparr> in
            case res of
              Wait_failed eintr \<Rightarrow> Some (\<not> eintr, ctx, s)
            | Events es \<Rightarrow> io_events malloc_ok rt ops clock params tid es ctx s))"

lemma io_loop_rounds:
  "io_loop malloc_ok rt ops clock params tid ctx s =
     Option.bind (io_round malloc_ok rt ops clock params tid ctx s) (\<lambda>(stop, ctx, s).
       if stop then Some (ctx, s) else io_loop malloc_ok rt ops clock params tid ctx s)"
proof -
  obtain ret q w where c: "op_checksum ops (io_guest_rd params) tid (io_queue s) (io_world s) = (ret, q, w)"
    by (metis prod_cases3)
  obtain ok w1 where n: "(if ret = TSI_NOTIFY then op_notify ops w else (True, w)) = (ok, w1)" by (metis surj_pair)
  let ?s1 = "s\<lparr>io_queue := q, io_world := w1\<rparr>"
  have f: "(if send_offset q > 0 then handle_send_event rt ops ?s1 else Some (0, ?s1)) = room_sends rt ops ?s1"
    by (simp add: room_sends_def)
  show ?thesis
  proof (cases "io_ends (io_is_server params) ret \<or> \<not> ok")
    case True
    then show ?thesis by (subst io_loop.simps) (auto simp: io_round_def c n Let_def)
  next
    case False
    show ?thesis
    proof (cases "room_sends rt ops ?s1")
      case None
      then show ?thesis using False by (subst io_loop.simps) (simp add: io_round_def c n f)
    next
      case (Some rs)
      obtain r s2 where r: "rs = (r, s2)" by (cases rs)
      obtain res w2 where p: "op_epoll_wait ops (io_world s2) = (res, w2)" by (metis surj_pair)
      show ?thesis
        by (cases res; subst io_loop.simps) (use False Some r p in \<open>simp_all add: io_round_def c n f\<close>)
    qed
  qed
qed

text \<open>
  A round that never ends: in sending the send half, or in one of the receive events, after the events
  before it were handled.
\<close>

definition io_round_runs_on ::
    "(nat \<Rightarrow> bool) \<Rightarrow> ('h, 'd) rats \<Rightarrow> 'w io_ops \<Rightarrow> ('w \<Rightarrow> u64 \<times> u64) \<Rightarrow> integrity_socket \<Rightarrow> nat
     \<Rightarrow> io_dfx \<Rightarrow> ('h, 'w) io_state \<Rightarrow> bool" where
  "io_round_runs_on malloc_ok rt ops clock params tid ctx s \<longleftrightarrow>
     (\<exists>ret q w w1 s1. op_checksum ops (io_guest_rd params) tid (io_queue s) (io_world s) = (ret, q, w) \<and>
        \<not> io_ends (io_is_server params) ret \<and> (if ret = TSI_NOTIFY then op_notify ops w else (True, w)) = (True, w1) \<and>
        s1 = s\<lparr>io_queue := q, io_world := w1\<rparr> \<and>
        (send_offset q > 0 \<and> send_event_runs_on rt ops s1 \<or>
         (\<exists>r s2 es1 es2 w2 ctx3 s3. room_sends rt ops s1 = Some (r, s2) \<and> 0 \<le> r \<and>
            op_epoll_wait ops (io_world s2) = (Events (es1 @ Ev_in # es2), w2) \<and>
            io_events malloc_ok rt ops clock params tid es1 ctx (s2\<lparr>io_world := w2\<rparr>) = Some (False, ctx3, s3) \<and>
            recv_event_runs_on malloc_ok rt ops (io_guest_rd params) tid s3)))"

text \<open>
  A run of the loop that never ends: rounds without end, or a round that never ends; at the
  head of every round the queue and the ring are in shape.
\<close>

coinductive io_runs_on ::
    "(nat \<Rightarrow> bool) \<Rightarrow> ('h, 'd) rats \<Rightarrow> 'w io_ops \<Rightarrow> ('w \<Rightarrow> u64 \<times> u64) \<Rightarrow> integrity_socket \<Rightarrow> nat
     \<Rightarrow> io_dfx \<Rightarrow> ('h, 'w) io_state \<Rightarrow> bool" for malloc_ok rt ops clock params tid where
  round_goes_on: "\<lbrakk>io_wf ctx s; io_round_runs_on malloc_ok rt ops clock params tid ctx s\<rbrakk>
    \<Longrightarrow> io_runs_on malloc_ok rt ops clock params tid ctx s"
| next_round: "\<lbrakk>io_wf ctx s; io_round malloc_ok rt ops clock params tid ctx s = Some (False, ctx', s');
     io_runs_on malloc_ok rt ops clock params tid ctx' s'\<rbrakk>
    \<Longrightarrow> io_runs_on malloc_ok rt ops clock params tid ctx s"

lemma io_events_None:
  assumes "io_events malloc_ok rt ops clock params tid es ctx s = None" "rt_within rt" "ops_wf ops" "io_wf ctx s"
  shows "\<exists>es1 es2 ctx3 s3. es = es1 @ Ev_in # es2 \<and>
    io_events malloc_ok rt ops clock params tid es1 ctx s = Some (False, ctx3, s3) \<and>
    recv_event_runs_on malloc_ok rt ops (io_guest_rd params) tid s3"
  using assms(1,4)
proof (induction es arbitrary: ctx s)
  case (Cons e es)
  let ?ev = "io_events malloc_ok rt ops clock params tid"
  have later: ?case
    if "?ev es ctx1 s1 = None" "io_wf ctx1 s1" "\<And>es1. ?ev (e # es1) ctx s = ?ev es1 ctx1 s1" for ctx1 s1
    using Cons.IH [OF that(1,2)] that(3) by (metis append_Cons)
  show ?case
  proof (cases "e = Ev_in")
    case False
    then show ?thesis using Cons.prems later [of ctx s] by (cases e) auto
  next
    case True
    let ?rec = "handle_recv_event malloc_ok rt ops (io_guest_rd params) tid s"
    show ?thesis
    proof (cases ?rec)
      case None
      then have "recv_event_runs_on malloc_ok rt ops (io_guest_rd params) tid s"
        using handle_recv_event_cases [OF assms(2,3)] Cons.prems(2) by (metis io_wf_def option.distinct(1))
      then show ?thesis using True by (intro exI [of _ "[]"] exI [of _ es]) simp
    next
      case (Some rs)
      obtain r s1 where r: "?rec = Some (r, s1)" using Some by (cases rs) auto
      have w: "queue_wf (io_queue s1)" "dfx_wf ctx"
        using handle_recv_event_wf [OF r assms(3)] Cons.prems(2) by (simp_all add: io_wf_def)
      obtain ok w1 where n: "(if r = TSI_NOTIFY then op_notify ops (io_world s1) else (True, io_world s1)) = (ok, w1)"
        by (metis surj_pair)
      obtain ctx1 where c: "record_tsi_time ctx (fst (clock w1)) (snd (clock w1)) 1 = Some ctx1" "dfx_wf ctx1"
        using record_tsi_time_ok [OF w(2)] by blast
      have g: "\<not> r < 0" "\<not> io_ends (io_is_server params) r" ok
        using Cons.prems(1) True r n by (auto simp: Let_def split: if_splits)
      then have "?ev (e # es1) ctx s = ?ev es1 ctx1 (s1\<lparr>io_world := w1\<rparr>)" for es1
        using True r n c(1) by (simp add: Let_def)
      moreover have "io_wf ctx1 (s1\<lparr>io_world := w1\<rparr>)" using w(1) c(2) by (simp add: io_wf_def)
      moreover have "?ev es ctx1 (s1\<lparr>io_world := w1\<rparr>) = None" using Cons.prems(1) calculation(1) [of es] by simp
      ultimately show ?thesis using later by blast
    qed
  qed
qed simp

lemma io_round_event_runs_on:
  assumes c: "op_checksum ops (io_guest_rd params) tid (io_queue s) (io_world s) = (ret, q, w)"
    and e: "\<not> io_ends (io_is_server params) ret"
    and n: "(if ret = TSI_NOTIFY then op_notify ops w else (True, w)) = (True, w1)"
    and r: "room_sends rt ops (s\<lparr>io_queue := q, io_world := w1\<rparr>) = Some (r, s2)" and z: "0 \<le> r"
    and p: "op_epoll_wait ops (io_world s2) = (Events (es1 @ Ev_in # es2), w2)"
    and v: "io_events malloc_ok rt ops clock params tid es1 ctx (s2\<lparr>io_world := w2\<rparr>) = Some (False, ctx3, s3)"
    and b: "recv_event_runs_on malloc_ok rt ops (io_guest_rd params) tid s3"
  shows "io_round_runs_on malloc_ok rt ops clock params tid ctx s"
  unfolding io_round_runs_on_def
  by (intro exI conjI, rule c, rule e, rule n, rule refl, rule disjI2, intro exI conjI,
      rule r, rule z, rule p, rule v, rule b)

lemma io_round_cases:
  assumes "rt_within rt" "ops_wf ops" "io_wf ctx s"
  shows "io_round_runs_on malloc_ok rt ops clock params tid ctx s \<or>
    (\<exists>stop ctx' s'. io_round malloc_ok rt ops clock params tid ctx s = Some (stop, ctx', s') \<and> io_wf ctx' s')"
proof -
  obtain ret q w where c: "op_checksum ops (io_guest_rd params) tid (io_queue s) (io_world s) = (ret, q, w)"
    by (metis prod_cases3)
  obtain ok w1 where n: "(if ret = TSI_NOTIFY then op_notify ops w else (True, w)) = (ok, w1)" by (metis surj_pair)
  have wf: "queue_wf q" "dfx_wf ctx" using ops_wfD [OF assms(2) _ c] assms(3) by (simp_all add: io_wf_def)
  let ?s1 = "s\<lparr>io_queue := q, io_world := w1\<rparr>"
  show ?thesis
  proof (cases "io_ends (io_is_server params) ret \<or> \<not> ok")
    case True
    then show ?thesis using c n wf by (auto simp: io_round_def io_wf_def Let_def)
  next
    case on: False
    then have n1: "(if ret = TSI_NOTIFY then op_notify ops w else (True, w)) = (True, w1)" using n by simp
    show ?thesis
    proof (cases "room_sends rt ops ?s1")
      case None
      then have "send_offset q > 0" "send_event_runs_on rt ops ?s1"
        using handle_send_event_None [of rt ops ?s1] wf(1) by (auto simp: room_sends_def split: if_splits)
      then show ?thesis using c n1 on unfolding io_round_runs_on_def by blast
    next
      case (Some rs)
      obtain r s2 where r: "room_sends rt ops ?s1 = Some (r, s2)" using Some by (cases rs) auto
      have w2: "queue_wf (io_queue s2)" using room_sends_wf [OF r] wf(1) by simp
      obtain res w3 where p: "op_epoll_wait ops (io_world s2) = (res, w3)" by (metis surj_pair)
      let ?s3 = "s2\<lparr>io_world := w3\<rparr>"
      have w3: "io_wf ctx ?s3" using w2 wf(2) by (simp add: io_wf_def)
      show ?thesis
      proof (cases "\<exists>es. 0 \<le> r \<and> res = Events es")
        case False
        then show ?thesis using c n on r p w2 w3 wf(2)
          by (cases res) (auto simp: io_round_def io_wf_def Let_def)
      next
        case True
        then obtain es where es: "0 \<le> r" "res = Events es" by blast
        let ?ev = "io_events malloc_ok rt ops clock params tid es ctx ?s3"
        have rd: "io_round malloc_ok rt ops clock params tid ctx s = ?ev"
          using c n on r p es by (simp add: io_round_def Let_def)
        show ?thesis
        proof (cases ?ev)
          case None
          obtain es1 es2 ctx3 s3 where "es = es1 @ Ev_in # es2"
            "io_events malloc_ok rt ops clock params tid es1 ctx ?s3 = Some (False, ctx3, s3)"
            "recv_event_runs_on malloc_ok rt ops (io_guest_rd params) tid s3"
            using io_events_None [OF None assms(1,2) w3] by blast
          then show ?thesis using io_round_event_runs_on [OF c _ n1 r es(1)] p es(2) on by blast
        next
          case (Some y)
          then obtain stop ctx' s' where v: "?ev = Some (stop, ctx', s')" by (cases y) auto
          then show ?thesis using rd io_events_wf [OF v assms(2) w3] by auto
        qed
      qed
    qed
  qed
qed

lemma io_loop_cases:
  assumes "rt_within rt" "ops_wf ops" "io_wf ctx s"
  shows "(\<exists>ctx' s'. io_loop malloc_ok rt ops clock params tid ctx s = Some (ctx', s') \<and> io_wf ctx' s') \<or>
    io_runs_on malloc_ok rt ops clock params tid ctx s"
proof (cases "io_loop malloc_ok rt ops clock params tid ctx s")
  case (Some y)
  then show ?thesis using io_loop_wf [OF _ assms(2,3)] by (cases y) auto
next
  case None
  then have "io_runs_on malloc_ok rt ops clock params tid ctx s" using assms(3)
  proof (coinduction arbitrary: ctx s)
    case (io_runs_on ctx s)
    then show ?case using io_round_cases [OF assms(1,2) io_runs_on(2), of malloc_ok clock params tid]
      by (subst (asm) (1) io_loop_rounds) (auto split: if_splits)
  qed
  then show ?thesis ..
qed

text \<open>
  C26. The thread's loop never leaves its memory. Started on a queue of the right size and the empty
  ring, on whatever statuses, events and data, the loop ends with the queue and the diagnostic ring in
  shape, or it goes on for ever; then the queue and the ring are in shape at the head of every round, and
  every round ends, or one goes on for ever in a transfer that moves no more bytes or in waiting for
  room. The library is taken not to write more than it was asked for, and the monitor to keep the
  size of the memory.
\<close>
theorem io_loop_invariant:
  assumes "rt_within rt" "ops_wf ops" "queue_wf (io_queue s)"
  shows "(\<exists>ctx' s'. io_loop malloc_ok rt ops clock params tid zero_dfx s = Some (ctx', s') \<and> io_wf ctx' s') \<or>
    io_runs_on malloc_ok rt ops clock params tid zero_dfx s"
proof -
  have "io_wf zero_dfx s" using assms(3) by (simp add: io_wf_def dfx_wf_def zero_dfx_def)
  then show ?thesis by (rule io_loop_cases [OF assms(1,2)])
qed

text \<open>What goes on for ever does not return.\<close>

lemma io_events_append:
  "io_events malloc_ok rt ops clock params tid (es1 @ es2) ctx s =
     Option.bind (io_events malloc_ok rt ops clock params tid es1 ctx s) (\<lambda>(stop, ctx, s).
       if stop then Some (True, ctx, s) else io_events malloc_ok rt ops clock params tid es2 ctx s)"
proof (induction es1 arbitrary: ctx s)
  case (Cons e es1)
  show ?case
    by (cases "e = Ev_in")
      (auto simp: Cons.IH Let_def split: bind_split prod.splits)
qed simp

lemma io_round_runs_on_None:
  assumes "io_round_runs_on malloc_ok rt ops clock params tid ctx s" "ops_wf ops" "io_wf ctx s"
  shows "io_round malloc_ok rt ops clock params tid ctx s = None"
proof -
  obtain ret q w w1 s1 where c: "op_checksum ops (io_guest_rd params) tid (io_queue s) (io_world s) = (ret, q, w)"
    "\<not> io_ends (io_is_server params) ret" "(if ret = TSI_NOTIFY then op_notify ops w else (True, w)) = (True, w1)"
    "s1 = s\<lparr>io_queue := q, io_world := w1\<rparr>"
    "send_offset q > 0 \<and> send_event_runs_on rt ops s1 \<or>
     (\<exists>r s2 es1 es2 w2 ctx3 s3. room_sends rt ops s1 = Some (r, s2) \<and> 0 \<le> r \<and>
        op_epoll_wait ops (io_world s2) = (Events (es1 @ Ev_in # es2), w2) \<and>
        io_events malloc_ok rt ops clock params tid es1 ctx (s2\<lparr>io_world := w2\<rparr>) = Some (False, ctx3, s3) \<and>
        recv_event_runs_on malloc_ok rt ops (io_guest_rd params) tid s3)"
    using assms(1) unfolding io_round_runs_on_def by (elim exE conjE) (rule that)
  have w: "queue_wf (io_queue s1)" "dfx_wf ctx" using ops_wfD [OF assms(2) _ c(1)] assms(3) c(4) by (simp_all add: io_wf_def)
  from c(5) show ?thesis
  proof
    assume "send_offset q > 0 \<and> send_event_runs_on rt ops s1"
    then have "room_sends rt ops s1 = None"
      using send_event_runs_on_None [of rt ops s1] w(1) c(4) by (simp add: room_sends_def)
    then show ?thesis using c(1-4) by (simp add: io_round_def)
  next
    assume "\<exists>r s2 es1 es2 w2 ctx3 s3. room_sends rt ops s1 = Some (r, s2) \<and> 0 \<le> r \<and>
        op_epoll_wait ops (io_world s2) = (Events (es1 @ Ev_in # es2), w2) \<and>
        io_events malloc_ok rt ops clock params tid es1 ctx (s2\<lparr>io_world := w2\<rparr>) = Some (False, ctx3, s3) \<and>
        recv_event_runs_on malloc_ok rt ops (io_guest_rd params) tid s3"
    then obtain r s2 es1 es2 w2 ctx3 s3 where r: "room_sends rt ops s1 = Some (r, s2)" "0 \<le> r"
        "op_epoll_wait ops (io_world s2) = (Events (es1 @ Ev_in # es2), w2)"
        "io_events malloc_ok rt ops clock params tid es1 ctx (s2\<lparr>io_world := w2\<rparr>) = Some (False, ctx3, s3)"
        "recv_event_runs_on malloc_ok rt ops (io_guest_rd params) tid s3" by blast
    have "io_wf ctx (s2\<lparr>io_world := w2\<rparr>)" using room_sends_wf [OF r(1) w(1)] w(2) by (simp add: io_wf_def)
    then have "queue_wf (io_queue s3)" using io_events_wf [OF r(4) assms(2)] by (simp add: io_wf_def)
    then have "handle_recv_event malloc_ok rt ops (io_guest_rd params) tid s3 = None"
      using recv_event_runs_on_None [OF r(5) assms(2)] by blast
    then show ?thesis using c(1-4) r(1-4) by (simp add: io_round_def io_events_append)
  qed
qed

lemma io_runs_on_None:
  fixes rt :: "('h, 'd) rats" and ops :: "'w io_ops" and s :: "('h, 'w) io_state"
  assumes "io_runs_on malloc_ok rt ops clock params tid ctx s" "ops_wf ops"
  shows "io_loop malloc_ok rt ops clock params tid ctx s = None"
proof (rule ccontr)
  assume "io_loop malloc_ok rt ops clock params tid ctx s \<noteq> None"
  then obtain y where y: "io_loop malloc_ok rt ops clock params tid ctx s = Some y" by blast
  let ?P = "\<lambda>(mo :: nat \<Rightarrow> bool) (rt :: ('h, 'd) rats) (ops :: 'w io_ops) (clock :: 'w \<Rightarrow> u64 \<times> u64) (params :: integrity_socket)
    (tid :: nat) ctx (s :: ('h, 'w) io_state) (y :: io_dfx \<times> ('h, 'w) io_state).
    ops_wf ops \<longrightarrow> \<not> io_runs_on mo rt ops clock params tid ctx s"
  have "?P malloc_ok rt ops clock params tid ctx s y"
  proof (rule io_loop.raw_induct [where P = ?P, OF _ y], intro impI notI, goal_cases)
    case (1 f mo rt ops clock params tid ctx s y)
    obtain ret q w where c: "op_checksum ops (io_guest_rd params) tid (io_queue s) (io_world s) = (ret, q, w)"
      by (metis prod_cases3)
    obtain ok w1 where n: "(if ret = TSI_NOTIFY then op_notify ops w else (True, w)) = (ok, w1)" by (metis surj_pair)
    let ?s1 = "s\<lparr>io_queue := q, io_world := w1\<rparr>"
    have g: "(if send_offset q > 0 then handle_send_event rt ops ?s1 else Some (0, ?s1)) = room_sends rt ops ?s1"
      by (simp add: room_sends_def)
    have h: "(\<exists>c' s'. io_round mo rt ops clock params tid ctx s = Some (True, c', s')) \<or>
      (\<exists>c' s'. io_round mo rt ops clock params tid ctx s = Some (False, c', s') \<and> f mo rt ops clock params tid c' s' = Some y)"
    proof (cases "io_ends (io_is_server params) ret \<or> \<not> ok")
      case True
      then show ?thesis by (auto simp: io_round_def c n Let_def)
    next
      case on: False
      then obtain r s2 where r: "room_sends rt ops ?s1 = Some (r, s2)"
        using 1(2) by (cases "room_sends rt ops ?s1") (auto simp: c n g)
      obtain res w2 where p: "op_epoll_wait ops (io_world s2) = (res, w2)" by (metis surj_pair)
      show ?thesis
      proof (cases res)
        case (Wait_failed eintr)
        then show ?thesis using 1(2) on r p by (auto simp: io_round_def c n g split: if_splits)
      next
        case (Events es)
        then show ?thesis using 1(2) on r p by (auto simp: io_round_def c n g split: if_splits bind_splits)
      qed
    qed
    from 1(4) show ?case
    proof (cases rule: io_runs_on.cases)
      case round_goes_on
      then show ?thesis using h io_round_runs_on_None [OF round_goes_on(2) 1(3) round_goes_on(1)] by auto
    next
      case (next_round c' s')
      then have "f mo rt ops clock params tid c' s' = Some y" using h by auto
      then show ?thesis using 1(1) [of mo rt ops clock params tid c' s'] 1(3) next_round(3) by simp
    qed
  qed
  then show False using assms by simp
qed

lemma demo_loop:
  "io_loop (\<lambda>_. True) (stream_rats demo_stream_rats) (demo_ops\<lparr>op_epoll_wait := (\<lambda>w. (Events [Ev_in, Ev_error], w))\<rparr>)
     (\<lambda>_. (0, 0)) \<lparr>io_guest_rd = 7, io_is_server = True\<rparr> 0 zero_dfx demo_io_state \<noteq> None"
proof -
  let ?ops = "demo_ops\<lparr>op_epoll_wait := (\<lambda>w. (Events [Ev_in, Ev_error], w))\<rparr>"
  let ?rt = "stream_rats demo_stream_rats" and ?p = "\<lparr>io_guest_rd = 7, io_is_server = True\<rparr>"
  obtain s' where r: "handle_recv_event (\<lambda>_. True) ?rt ?ops 7 0 demo_io_state = Some (TSI_INCOMPLETE, s')"
    using demo_received by blast
  have "dfx_wf zero_dfx" by (simp add: dfx_wf_def zero_dfx_def)
  then obtain c where c: "record_tsi_time zero_dfx 0 0 1 = Some c" using record_tsi_time_ok by blast
  have s: "demo_io_state\<lparr>io_queue := zero_queue, io_world := ()\<rparr> = demo_io_state"
    by (simp add: demo_io_state_def)
  have "room_sends ?rt ?ops demo_io_state = Some (0, demo_io_state)"
    by (simp add: room_sends_def demo_queue_facts zero_queue_def)
  moreover have "op_checksum ?ops 7 0 zero_queue (io_world demo_io_state) = (TSI_INCOMPLETE, zero_queue, ())"
    "op_epoll_wait ?ops (io_world demo_io_state) = (Events [Ev_in, Ev_error], ())" "\<not> io_ends True TSI_INCOMPLETE"
    by (simp_all add: demo_ops_def io_ends_def)
  moreover have s2: "demo_io_state\<lparr>io_world := ()\<rparr> = demo_io_state" by (simp add: demo_io_state_def)
  moreover have "s'\<lparr>io_world := ()\<rparr> = s'" by (cases s') simp
  ultimately have "io_round (\<lambda>_. True) ?rt ?ops (\<lambda>_. (0, 0)) ?p 0 zero_dfx demo_io_state = Some (True, c, s')"
    using r c by (simp add: io_round_def demo_queue_facts s s2)
  then show ?thesis by (subst io_loop_rounds) simp
qed

theorem io_loop_invariant_witness:
  "\<exists>ctx' s'. io_loop (\<lambda>_. True) (stream_rats demo_stream_rats) (demo_ops\<lparr>op_epoll_wait := (\<lambda>w. (Events [Ev_in, Ev_error], w))\<rparr>)
     (\<lambda>_. (0, 0)) \<lparr>io_guest_rd = 7, io_is_server = True\<rparr> 0 zero_dfx demo_io_state = Some (ctx', s') \<and> io_wf ctx' s'"
proof -
  let ?ops = "demo_ops\<lparr>op_epoll_wait := (\<lambda>w. (Events [Ev_in, Ev_error], w))\<rparr>"
  have o: "ops_wf ?ops" by (simp add: ops_wf_def demo_ops_def)
  have w: "queue_wf (io_queue demo_io_state)" by (simp add: demo_queue_facts)
  from io_loop_invariant [OF stream_within o w] demo_loop io_runs_on_None [OF _ o] show ?thesis by metis
qed

end
