(* ===== verification/Slave_Threads.thy ===== *)
theory Slave_Threads
  imports Integrity_Queue
begin

text \<open>
  The helper threads of the integrity check, \<open>integrity_check_handler.c\<close> of the agent in the guest. The
  integrity thread creates 15 of them, wakes them through a semaphore each when the monitor asks for
  it, and stops them at its end: it sets a flag, wakes them once more, waits for each of them up to a
  time and cancels those that did not end.

  The threads interleave. A state has the position of the integrity thread in these functions and the
  context it shares with the helpers; the step relations have one rule per access to the shared
  state. A helper is at the test of its loop, in \<open>sem_wait\<close>, about to ask the monitor, or at its end.
\<close>

section \<open>The helpers\<close>

abbreviation SLAVE_THREAD_NUM :: nat where "SLAVE_THREAD_NUM \<equiv> 15"
abbreviation (input) SEM_VALUE_MAX :: nat where "SEM_VALUE_MAX \<equiv> 2147483647"

datatype slave_pc = S_none | S_init | S_test | S_wait | S_call | S_done

text \<open>\<open>thread_args_t\<close>: what changes of it, where the thread is, and whether it was cancelled.\<close>

record slave =
  thread_created :: bool
  wake_sem :: nat
  slave_at :: slave_pc
  cancelled :: bool

record io_ctx =
  should_exit :: bool
  slave_args :: "slave list"

definition upd_slave :: "nat \<Rightarrow> (slave \<Rightarrow> slave) \<Rightarrow> io_ctx \<Rightarrow> io_ctx" where
  "upd_slave i f c = c\<lparr>slave_args := (slave_args c)[i := f (slave_args c ! i)]\<rparr>"

definition goto_pc :: "slave_pc \<Rightarrow> slave \<Rightarrow> slave" where
  "goto_pc l a = a\<lparr>slave_at := l\<rparr>"

text \<open>
  A step of helper \<open>i\<close> in \<open>slave_io_thread\<close>. Setting the processor may fail, which ends it. A request
  that neither succeeds nor fails is repeated; a failure sets the flag for all. A cancelled helper may
  end in \<open>sem_wait\<close>.
\<close>

inductive slave_step :: "nat \<Rightarrow> io_ctx \<Rightarrow> io_ctx \<Rightarrow> bool" for i c where
  slave_init: "\<lbrakk>i < length (slave_args c); slave_at (slave_args c ! i) = S_init; l = S_test \<or> l = S_done\<rbrakk>
    \<Longrightarrow> slave_step i c (upd_slave i (goto_pc l) c)"
| slave_test: "\<lbrakk>i < length (slave_args c); slave_at (slave_args c ! i) = S_test\<rbrakk>
    \<Longrightarrow> slave_step i c (upd_slave i (goto_pc (if should_exit c then S_done else S_wait)) c)"
| slave_wake: "\<lbrakk>i < length (slave_args c); slave_at (slave_args c ! i) = S_wait; 0 < wake_sem (slave_args c ! i)\<rbrakk>
    \<Longrightarrow> slave_step i c (upd_slave i (\<lambda>a. a\<lparr>wake_sem := wake_sem a - 1, slave_at := S_call\<rparr>) c)"
| slave_ask: "\<lbrakk>i < length (slave_args c); slave_at (slave_args c ! i) = S_call; r \<notin> {TSI_SUCCESS, TSI_ERROR_INPUT, TSI_ERROR_FAILED}\<rbrakk>
    \<Longrightarrow> slave_step i c c"
| slave_success: "\<lbrakk>i < length (slave_args c); slave_at (slave_args c ! i) = S_call\<rbrakk> \<Longrightarrow> slave_step i c (upd_slave i (goto_pc S_test) c)"
| slave_failure: "\<lbrakk>i < length (slave_args c); slave_at (slave_args c ! i) = S_call\<rbrakk>
    \<Longrightarrow> slave_step i c (upd_slave i (goto_pc S_test) (c\<lparr>should_exit := True\<rparr>))"
| slave_cancel: "\<lbrakk>i < length (slave_args c); slave_at (slave_args c ! i) = S_wait; cancelled (slave_args c ! i)\<rbrakk>
    \<Longrightarrow> slave_step i c (upd_slave i (goto_pc S_done) c)"


section \<open>The integrity thread\<close>

text \<open>
  Where the integrity thread is: before or in the creation of helper \<open>i\<close>, undoing the creation of those
  before \<open>n\<close> (waking helper \<open>j\<close>, waiting for it), in its loop, waking helper \<open>i\<close> for the monitor; stopping
  them, where it wakes, waits for and destroys helper \<open>i\<close>; and after its end, when the context on its
  stack is gone.
\<close>

datatype master_pc =
    M_start | M_create nat | M_undo nat nat | M_undo_join nat nat | M_failed | M_run | M_notify nat
  | M_post nat | M_join nat | M_destroy nat | M_gone

record io_threads =
  master_at :: master_pc
  io_ctx :: io_ctx

definition sem_post :: "slave \<Rightarrow> slave" where
  "sem_post a = a\<lparr>wake_sem := wake_sem a + 1\<rparr>"

abbreviation slave_of :: "io_threads \<Rightarrow> nat \<Rightarrow> slave" where
  "slave_of s i \<equiv> slave_args (io_ctx s) ! i"

abbreviation move :: "master_pc \<Rightarrow> (io_ctx \<Rightarrow> io_ctx) \<Rightarrow> io_threads \<Rightarrow> io_threads" where
  "move l f s \<equiv> \<lparr>master_at = l, io_ctx = f (io_ctx s)\<rparr>"

text \<open>\<open>create_slave_thread\<close>; in the branch that undoes, \<open>pthread_join\<close> waits without limit.\<close>

inductive create_slave_thread :: "io_threads \<Rightarrow> io_threads \<Rightarrow> bool" for s where
  create_enter: "master_at s = M_start \<Longrightarrow> create_slave_thread s (move (M_create 0) (\<lambda>c. c\<lparr>should_exit := False\<rparr>) s)"
| create_ok: "\<lbrakk>master_at s = M_create i; i < SLAVE_THREAD_NUM\<rbrakk> \<Longrightarrow> create_slave_thread s
    (move (M_create (i + 1)) (upd_slave i (\<lambda>_. \<lparr>thread_created = True, wake_sem = 0, slave_at = S_init, cancelled = False\<rparr>)) s)"
| create_fails: "\<lbrakk>master_at s = M_create i; i < SLAVE_THREAD_NUM\<rbrakk> \<Longrightarrow> create_slave_thread s
    (move (M_undo i 0) (\<lambda>c. upd_slave i (\<lambda>a. a\<lparr>thread_created := False, wake_sem := 0\<rparr>) c\<lparr>should_exit := True\<rparr>) s)"
| create_undo: "\<lbrakk>master_at s = M_undo n j; j < n\<rbrakk> \<Longrightarrow> create_slave_thread s (move (M_undo_join n j) (upd_slave j sem_post) s)"
| create_undo_join: "\<lbrakk>master_at s = M_undo_join n j; slave_at (slave_of s j) = S_done\<rbrakk> \<Longrightarrow> create_slave_thread s
    (move (M_undo n (j + 1)) (upd_slave j (\<lambda>a. a\<lparr>thread_created := False\<rparr>)) s)"
| create_undone: "master_at s = M_undo n n \<Longrightarrow> create_slave_thread s (move M_failed (\<lambda>c. c) s)"
| create_all: "master_at s = M_create SLAVE_THREAD_NUM \<Longrightarrow> create_slave_thread s (move M_run (\<lambda>c. c) s)"

text \<open>\<open>notify_all_slave_thread\<close>; a semaphore at its limit ends the loop of the integrity thread.\<close>

inductive notify_all_slave_thread :: "io_threads \<Rightarrow> io_threads \<Rightarrow> bool" for s where
  notify_enter: "master_at s = M_run \<Longrightarrow> notify_all_slave_thread s (move (M_notify 0) (\<lambda>c. c) s)"
| notify_post: "\<lbrakk>master_at s = M_notify i; i < SLAVE_THREAD_NUM; thread_created (slave_of s i);
    wake_sem (slave_of s i) < SEM_VALUE_MAX\<rbrakk> \<Longrightarrow> notify_all_slave_thread s (move (M_notify (i + 1)) (upd_slave i sem_post) s)"
| notify_limit: "\<lbrakk>master_at s = M_notify i; i < SLAVE_THREAD_NUM; thread_created (slave_of s i);
    wake_sem (slave_of s i) = SEM_VALUE_MAX\<rbrakk> \<Longrightarrow> notify_all_slave_thread s (move M_failed (\<lambda>c. c) s)"
| notify_skip: "\<lbrakk>master_at s = M_notify i; i < SLAVE_THREAD_NUM; \<not> thread_created (slave_of s i)\<rbrakk>
    \<Longrightarrow> notify_all_slave_thread s (move (M_notify (i + 1)) (\<lambda>c. c) s)"
| notify_all: "master_at s = M_notify SLAVE_THREAD_NUM \<Longrightarrow> notify_all_slave_thread s (move M_run (\<lambda>c. c) s)"

text \<open>
  \<open>stop_all_slave_threads\<close>, reached from the loop, from a failed creation, or before any helper exists.
  The wait for a helper ends when the helper has ended or when the time is over.
\<close>

inductive stop_all_slave_threads :: "io_threads \<Rightarrow> io_threads \<Rightarrow> bool" for s where
  stop_enter: "master_at s \<in> {M_start, M_failed, M_run}
    \<Longrightarrow> stop_all_slave_threads s (move (M_post 0) (\<lambda>c. c\<lparr>should_exit := True\<rparr>) s)"
| stop_post: "\<lbrakk>master_at s = M_post i; i < SLAVE_THREAD_NUM; thread_created (slave_of s i)\<rbrakk> \<Longrightarrow> stop_all_slave_threads s
    (move (M_post (i + 1)) (upd_slave i (if wake_sem (slave_of s i) < SEM_VALUE_MAX then sem_post else (\<lambda>a. a))) s)"
| stop_post_skip: "\<lbrakk>master_at s = M_post i; i < SLAVE_THREAD_NUM; \<not> thread_created (slave_of s i)\<rbrakk>
    \<Longrightarrow> stop_all_slave_threads s (move (M_post (i + 1)) (\<lambda>c. c) s)"
| stop_posted: "master_at s = M_post SLAVE_THREAD_NUM \<Longrightarrow> stop_all_slave_threads s (move (M_join 0) (\<lambda>c. c) s)"
| stop_join: "\<lbrakk>master_at s = M_join i; i < SLAVE_THREAD_NUM; thread_created (slave_of s i) \<longrightarrow> slave_at (slave_of s i) = S_done\<rbrakk>
    \<Longrightarrow> stop_all_slave_threads s (move (M_join (i + 1)) (\<lambda>c. c) s)"
| stop_timeout: "\<lbrakk>master_at s = M_join i; i < SLAVE_THREAD_NUM; thread_created (slave_of s i); slave_at (slave_of s i) \<noteq> S_done\<rbrakk>
    \<Longrightarrow> stop_all_slave_threads s (move (M_join (i + 1)) (upd_slave i (\<lambda>a. a\<lparr>cancelled := True\<rparr>)) s)"
| stop_joined: "master_at s = M_join SLAVE_THREAD_NUM \<Longrightarrow> stop_all_slave_threads s (move (M_destroy 0) (\<lambda>c. c) s)"
| stop_destroy: "\<lbrakk>master_at s = M_destroy i; i < SLAVE_THREAD_NUM\<rbrakk> \<Longrightarrow> stop_all_slave_threads s
    (move (M_destroy (i + 1)) (upd_slave i (\<lambda>a. a\<lparr>thread_created := False\<rparr>)) s)"
| stop_end: "master_at s = M_destroy SLAVE_THREAD_NUM \<Longrightarrow> stop_all_slave_threads s (move M_gone (\<lambda>c. c) s)"

inductive io_step :: "io_threads \<Rightarrow> io_threads \<Rightarrow> bool" for s where
  by_slave: "slave_step i (io_ctx s) c \<Longrightarrow> io_step s (s\<lparr>io_ctx := c\<rparr>)"
| by_create: "create_slave_thread s s' \<Longrightarrow> io_step s s'"
| by_notify: "notify_all_slave_thread s s' \<Longrightarrow> io_step s s'"
| by_stop: "stop_all_slave_threads s s' \<Longrightarrow> io_step s s'"

text \<open>The context starts as zeros.\<close>

definition io_start :: io_threads where
  "io_start = \<lparr>master_at = M_start, io_ctx = \<lparr>should_exit = False,
     slave_args = replicate SLAVE_THREAD_NUM \<lparr>thread_created = False, wake_sem = 0, slave_at = S_none, cancelled = False\<rparr>\<rparr>\<rparr>"

inductive reachable :: "io_threads \<Rightarrow> bool" where
  reach_start: "reachable io_start"
| reach_step: "\<lbrakk>reachable s; io_step s s'\<rbrakk> \<Longrightarrow> reachable s'"


section \<open>The invariant\<close>

text \<open>
  When the integrity thread has woken helper \<open>i\<close> for the last time; when it sets the flag for good;
  and when it has waited for helper \<open>i\<close>.
\<close>

fun woken :: "master_pc \<Rightarrow> nat \<Rightarrow> bool" where
  "woken (M_undo_join n j) i = (i = j)"
| "woken (M_post k) i = (i < k)"
| "woken (M_join k) i = True"
| "woken (M_destroy k) i = True"
| "woken M_gone i = True"
| "woken _ i = False"

fun stopping :: "master_pc \<Rightarrow> bool" where
  "stopping (M_undo n j) = True"
| "stopping (M_undo_join n j) = True"
| "stopping (M_post k) = True"
| "stopping (M_join k) = True"
| "stopping (M_destroy k) = True"
| "stopping M_gone = True"
| "stopping _ = False"

fun waited :: "master_pc \<Rightarrow> nat \<Rightarrow> bool" where
  "waited (M_join k) i = (i < k)"
| "waited (M_destroy k) i = True"
| "waited M_gone i = True"
| "waited _ i = False"

text \<open>The helpers not created yet; and that the helpers undone are among those created.\<close>

fun fresh :: "master_pc \<Rightarrow> nat \<Rightarrow> bool" where
  "fresh M_start i = True"
| "fresh (M_create k) i = (k \<le> i)"
| "fresh _ i = False"

fun undo_wf :: "master_pc \<Rightarrow> bool" where
  "undo_wf (M_undo n j) = (n < SLAVE_THREAD_NUM)"
| "undo_wf (M_undo_join n j) = (j < n \<and> n < SLAVE_THREAD_NUM)"
| "undo_wf _ = True"

text \<open>
  \<open>slave_inv\<close> of the position and a helper: a helper in use exists; a helper not in use has no thread, or
  one that ended or was cancelled; one that was woken for the last time and waits finds its semaphore
  positive; one that was waited for has ended or was cancelled; one not created yet has no thread.
\<close>

definition slave_inv :: "master_pc \<Rightarrow> nat \<Rightarrow> slave \<Rightarrow> bool" where
  "slave_inv l i a \<longleftrightarrow>
     (thread_created a \<longrightarrow> slave_at a \<noteq> S_none) \<and>
     (\<not> thread_created a \<longrightarrow> slave_at a \<in> {S_none, S_done} \<or> cancelled a) \<and>
     (woken l i \<longrightarrow> slave_at a = S_wait \<longrightarrow> \<not> cancelled a \<longrightarrow> 0 < wake_sem a) \<and>
     (waited l i \<longrightarrow> slave_at a \<in> {S_none, S_done} \<or> cancelled a) \<and>
     (cancelled a \<longrightarrow> waited l i) \<and>
     (fresh l i \<longrightarrow> slave_at a = S_none)"

definition threads_inv :: "io_threads \<Rightarrow> bool" where
  "threads_inv s \<longleftrightarrow> length (slave_args (io_ctx s)) = SLAVE_THREAD_NUM \<and>
     undo_wf (master_at s) \<and> (stopping (master_at s) \<longrightarrow> should_exit (io_ctx s)) \<and>
     (\<forall>i < SLAVE_THREAD_NUM. slave_inv (master_at s) i (slave_of s i))"

lemma upd_slave_simps [simp]:
  "should_exit (upd_slave i f c) = should_exit c"
  "length (slave_args (upd_slave i f c)) = length (slave_args c)"
  "i < length (slave_args c) \<Longrightarrow> slave_args (upd_slave i f c) ! j = (if i = j then f (slave_args c ! i) else slave_args c ! j)"
  by (simp_all add: upd_slave_def nth_list_update)

lemma woken_stopping: "woken l i \<Longrightarrow> stopping l"
  by (cases "(l, i)" rule: woken.cases) auto

lemma waited_woken: "waited l i \<Longrightarrow> woken l i"
  by (cases "(l, i)" rule: waited.cases) auto

text \<open>A step of a helper keeps what the integrity thread relies on.\<close>

lemma slave_step_local:
  assumes "slave_step i c c'" "\<And>j. j < length (slave_args c) \<Longrightarrow> slave_inv l j (slave_args c ! j)" "stopping l \<longrightarrow> should_exit c"
  shows "length (slave_args c') = length (slave_args c)" "should_exit c \<longrightarrow> should_exit c'"
    "\<And>j. j < length (slave_args c) \<Longrightarrow> slave_inv l j (slave_args c' ! j)"
proof -
  show "length (slave_args c') = length (slave_args c)" "should_exit c \<longrightarrow> should_exit c'"
    using assms(1) by (auto elim!: slave_step.cases)
  show "slave_inv l j (slave_args c' ! j)" if "j < length (slave_args c)" for j
    using assms(1)
  proof cases
    case (slave_init l')
    then show ?thesis using assms(2) [OF that] by (cases "i = j") (auto simp: slave_inv_def goto_pc_def)
  next
    case slave_test
    then show ?thesis using assms(2) [OF that] assms(3) woken_stopping [of l i]
      by (cases "i = j") (auto simp: slave_inv_def goto_pc_def)
  next
    case slave_wake
    then show ?thesis using assms(2) [OF that] by (cases "i = j") (auto simp: slave_inv_def)
  next
    case (slave_ask r)
    then show ?thesis using assms(2) [OF that] by simp
  next
    case slave_success
    then show ?thesis using assms(2) [OF that] by (cases "i = j") (auto simp: slave_inv_def goto_pc_def)
  next
    case slave_failure
    then show ?thesis using assms(2) [OF that] by (cases "i = j") (auto simp: slave_inv_def goto_pc_def upd_slave_def)
  next
    case slave_cancel
    then show ?thesis using assms(2) [OF that] by (cases "i = j") (auto simp: slave_inv_def goto_pc_def)
  qed
qed

lemma threads_invI:
  assumes "length (slave_args c) = SLAVE_THREAD_NUM" "undo_wf l" "stopping l \<longrightarrow> should_exit c"
    "\<And>i. i < SLAVE_THREAD_NUM \<Longrightarrow> slave_inv l i (slave_args c ! i)"
  shows "threads_inv \<lparr>master_at = l, io_ctx = c\<rparr>"
  using assms by (simp add: threads_inv_def)

lemma threads_invD:
  assumes "threads_inv s"
  shows "length (slave_args (io_ctx s)) = SLAVE_THREAD_NUM" "undo_wf (master_at s)"
    "stopping (master_at s) \<longrightarrow> should_exit (io_ctx s)"
    "i < SLAVE_THREAD_NUM \<Longrightarrow> slave_inv (master_at s) i (slave_of s i)"
  using assms by (simp_all add: threads_inv_def)

lemma move_inv:
  assumes "threads_inv s" "length (slave_args c) = SLAVE_THREAD_NUM" "undo_wf l" "stopping l \<longrightarrow> should_exit c"
    "\<And>i. \<lbrakk>i < SLAVE_THREAD_NUM; slave_inv (master_at s) i (slave_of s i)\<rbrakk> \<Longrightarrow> slave_inv l i (slave_args c ! i)"
  shows "threads_inv \<lparr>master_at = l, io_ctx = c\<rparr>"
  using assms by (simp add: threads_inv_def)

lemma create_inv:
  assumes "create_slave_thread s s'" "threads_inv s"
  shows "threads_inv s'"
  using assms(1) threads_invD(1-3) [OF assms(2)]
  by cases (simp only:, rule move_inv [OF assms(2)]; auto simp: slave_inv_def sem_post_def split: if_splits)+

lemma notify_inv:
  assumes "notify_all_slave_thread s s'" "threads_inv s"
  shows "threads_inv s'"
  using assms(1) threads_invD(1-3) [OF assms(2)]
  by cases (simp only:, rule move_inv [OF assms(2)]; auto simp: slave_inv_def sem_post_def split: if_splits)+

lemma stop_inv:
  assumes "stop_all_slave_threads s s'" "threads_inv s"
  shows "threads_inv s'"
  using assms(1) threads_invD(1-3) [OF assms(2)]
  by cases (simp only:, rule move_inv [OF assms(2)]; auto simp: slave_inv_def sem_post_def less_Suc_eq split: if_splits)+

theorem reachable_inv:
  assumes "reachable s"
  shows "threads_inv s"
  using assms
proof induction
  case reach_start
  show ?case by (simp add: io_start_def threads_inv_def slave_inv_def)
next
  case (reach_step s s')
  from reach_step.hyps(2) show ?case
  proof cases
    case (by_slave i c)
    note D = threads_invD [OF reach_step.IH]
    have "slave_inv (master_at s) j (slave_args (io_ctx s) ! j)" if "j < length (slave_args (io_ctx s))" for j
      using D(4) [of j] that D(1) by simp
    from slave_step_local [OF by_slave(2) this D(3)] show ?thesis
      using D(1-3) unfolding by_slave(1) by (simp add: threads_inv_def)
  next
    case by_create
    then show ?thesis using create_inv reach_step.IH by blast
  next
    case by_notify
    then show ?thesis using notify_inv reach_step.IH by blast
  next
    case by_stop
    then show ?thesis using stop_inv reach_step.IH by blast
  qed
qed


section \<open>The helpers end\<close>

text \<open>How many steps a helper is from its end when the flag is set, requests that are repeated not counted.\<close>

fun slave_rank :: "slave_pc \<Rightarrow> nat" where
  "slave_rank S_wait = 3"
| "slave_rank S_call = 2"
| "slave_rank S_init = 2"
| "slave_rank S_test = 1"
| "slave_rank _ = 0"

lemma slave_steps_down:
  assumes "slave_step i c c'" "should_exit c"
  shows "c' = c \<or> slave_rank (slave_at (slave_args c' ! i)) < slave_rank (slave_at (slave_args c ! i))"
  using assms by (cases rule: slave_step.cases) (auto simp: goto_pc_def upd_slave_def)

lemma slave_can_step:
  assumes "i < length (slave_args c)" "slave_at (slave_args c ! i) \<notin> {S_none, S_done}" "should_exit c"
    "slave_at (slave_args c ! i) = S_wait \<Longrightarrow> 0 < wake_sem (slave_args c ! i) \<or> cancelled (slave_args c ! i)"
  shows "\<exists>c'. slave_step i c c' \<and> slave_rank (slave_at (slave_args c' ! i)) < slave_rank (slave_at (slave_args c ! i))"
proof (cases "slave_at (slave_args c ! i)")
  case S_init
  then show ?thesis using slave_init [OF assms(1) S_init, of S_test] assms(1) by (force simp: goto_pc_def)
next
  case S_test
  then show ?thesis using slave_test [OF assms(1) S_test] assms(1,3) by (force simp: goto_pc_def)
next
  case S_wait
  then consider "0 < wake_sem (slave_args c ! i)" | "cancelled (slave_args c ! i)" using assms(4) [OF S_wait] by auto
  then show ?thesis
  proof cases
    case 1
    then show ?thesis using slave_wake [OF assms(1) S_wait 1] assms(1) S_wait by force
  next
    case 2
    then show ?thesis using slave_cancel [OF assms(1) S_wait 2] assms(1) S_wait by (force simp: goto_pc_def)
  qed
next
  case S_call
  then show ?thesis using slave_success [OF assms(1) S_call] assms(1) by (force simp: goto_pc_def)
qed (use assms(2) in auto)

text \<open>
  C16. Stopping the helpers loses no wake-up, in every interleaving. Once the integrity thread has woken
  a helper for the last time, the flag is set, and a helper that has not ended can always take a
  step towards its end: it never waits on an empty semaphore. Each of its steps brings it closer to its
  end, except for a request the monitor asks to repeat, so it ends after at most three other steps.
\<close>
theorem helper_always_stops:
  assumes "reachable s" "i < SLAVE_THREAD_NUM" "woken (master_at s) i"
  shows "should_exit (io_ctx s) \<and>
    (slave_at (slave_of s i) \<in> {S_none, S_done} \<or>
     (\<exists>c. slave_step i (io_ctx s) c \<and> slave_rank (slave_at (slave_args c ! i)) < slave_rank (slave_at (slave_of s i)))) \<and>
    (\<forall>c. slave_step i (io_ctx s) c \<longrightarrow>
       c = io_ctx s \<or> slave_rank (slave_at (slave_args c ! i)) < slave_rank (slave_at (slave_of s i)))"
proof -
  note D = threads_invD [OF reachable_inv [OF assms(1)]]
  have e: "should_exit (io_ctx s)" using D(3) woken_stopping [OF assms(3)] by simp
  moreover have "0 < wake_sem (slave_of s i) \<or> cancelled (slave_of s i)" if "slave_at (slave_of s i) = S_wait"
    using D(4) [OF assms(2)] assms(3) that by (auto simp: slave_inv_def)
  ultimately show ?thesis using slave_can_step [of i "io_ctx s"] slave_steps_down [of i "io_ctx s"] D(1) assms(2) by auto
qed

text \<open>One helper was created, the second could not be: the first was woken and is waited for.\<close>

definition undo_state :: "slave_pc \<Rightarrow> io_threads" where
  "undo_state l = \<lparr>master_at = M_undo_join 1 0, io_ctx = \<lparr>should_exit = True,
     slave_args = \<lparr>thread_created = True, wake_sem = 1, slave_at = l, cancelled = False\<rparr> #
       replicate 14 \<lparr>thread_created = False, wake_sem = 0, slave_at = S_none, cancelled = False\<rparr>\<rparr>\<rparr>"

lemma replicate_15: "replicate 15 x = x # x # replicate 13 x"
  by (simp add: numeral_eq_Suc)

lemma undo_state_reachable: "reachable (undo_state S_init)"
proof -
  let ?z = "\<lparr>thread_created = False, wake_sem = 0, slave_at = S_none, cancelled = False\<rparr>"
  let ?c = "\<lambda>e a. \<lparr>should_exit = e, slave_args = a # replicate 14 ?z\<rparr>"
  let ?a = "\<lambda>n. \<lparr>thread_created = True, wake_sem = n, slave_at = S_init, cancelled = False\<rparr>"
  have z: "?z # ?z # replicate 13 ?z = replicate 15 ?z" "?z # replicate 13 ?z = replicate 14 ?z" by (simp_all add: numeral_eq_Suc)
  have "reachable \<lparr>master_at = M_create 0, io_ctx = ?c False ?z\<rparr>"
    using reach_step [OF reach_start by_create [OF create_enter]] by (simp add: io_start_def numeral_eq_Suc)
  then have "reachable \<lparr>master_at = M_create 1, io_ctx = ?c False (?a 0)\<rparr>"
    using reach_step [OF _ by_create [OF create_ok [where i = 0]]] by (fastforce simp: upd_slave_def)
  then have "reachable \<lparr>master_at = M_undo 1 0, io_ctx = ?c True (?a 0)\<rparr>"
    using reach_step [OF _ by_create [OF create_fails [where i = 1]]] by (fastforce simp: upd_slave_def numeral_eq_Suc)
  then show ?thesis
    using reach_step [OF _ by_create [OF create_undo [where n = 1 and j = 0]]]
    by (fastforce simp: upd_slave_def undo_state_def sem_post_def)
qed

theorem helper_always_stops_witness:
  "reachable (undo_state S_init) \<and> woken (master_at (undo_state S_init)) 0 \<and>
    (\<exists>c. slave_step 0 (io_ctx (undo_state S_init)) c \<and> slave_rank (slave_at (slave_args c ! 0)) < 2)"
  using helper_always_stops [OF undo_state_reachable, of 0] undo_state_reachable by (simp add: undo_state_def)


section \<open>The end of the context\<close>

text \<open>When no wait for a helper ran out of time, no helper is left when the context goes away.\<close>

lemma helpers_ended:
  assumes "reachable s" "master_at s = M_gone" "i < SLAVE_THREAD_NUM" "\<not> cancelled (slave_of s i)"
  shows "slave_at (slave_of s i) \<in> {S_none, S_done}"
  using threads_invD(4) [OF reachable_inv [OF assms(1)] assms(3)] assms(2,4) by (simp add: slave_inv_def)

text \<open>
  A cancelled helper is not waited for. One that is in a request to the monitor when the time is over
  goes on afterwards, and reads the context and its own arguments on a stack that is gone. The runs
  to that state follow the integrity thread through its loops while the first helper stays in its
  request.
\<close>

definition asking :: "io_threads \<Rightarrow> bool" where
  "asking s \<longleftrightarrow> reachable s \<and> thread_created (slave_of s 0) \<and> slave_at (slave_of s 0) = S_call"

lemma asking_len: "asking s \<Longrightarrow> length (slave_args (io_ctx s)) = SLAVE_THREAD_NUM"
  using threads_invD(1) reachable_inv by (auto simp: asking_def)

lemma asking_post:
  assumes "asking s" "master_at s = M_post k" "0 < k" "k \<le> SLAVE_THREAD_NUM"
  shows "\<exists>s'. asking s' \<and> master_at s' = M_post SLAVE_THREAD_NUM"
  using assms
proof (induction "SLAVE_THREAD_NUM - k" arbitrary: s k)
  case (Suc n)
  then have k: "k < SLAVE_THREAD_NUM" by simp
  obtain s1 where s1: "asking s1" "master_at s1 = M_post (k + 1)"
  proof (cases "thread_created (slave_of s k)")
    case True
    show thesis
      by (rule that, unfold asking_def, intro conjI, rule reach_step [OF _ by_stop [OF stop_post [OF Suc.prems(2) k True]]])
        (use Suc.prems asking_len [OF Suc.prems(1)] k in \<open>auto simp: asking_def sem_post_def\<close>)
  next
    case False
    show thesis
      by (rule that, unfold asking_def, intro conjI, rule reach_step [OF _ by_stop [OF stop_post_skip [OF Suc.prems(2) k False]]])
        (use Suc.prems in \<open>auto simp: asking_def\<close>)
  qed
  then show ?case using Suc.hyps(1) [of "k + 1" s1] Suc.hyps(2) k by simp
qed auto

lemma asking_join:
  assumes "asking s" "master_at s = M_join k" "k \<le> SLAVE_THREAD_NUM"
  shows "\<exists>s'. asking s' \<and> master_at s' = M_join SLAVE_THREAD_NUM"
  using assms
proof (induction "SLAVE_THREAD_NUM - k" arbitrary: s k)
  case (Suc n)
  then have k: "k < SLAVE_THREAD_NUM" by simp
  obtain s1 where s1: "asking s1" "master_at s1 = M_join (k + 1)"
  proof (cases "thread_created (slave_of s k) \<longrightarrow> slave_at (slave_of s k) = S_done")
    case True
    show thesis
      by (rule that, unfold asking_def, intro conjI, rule reach_step [OF _ by_stop [OF stop_join [OF Suc.prems(2) k True]]])
        (use Suc.prems in \<open>auto simp: asking_def\<close>)
  next
    case False
    then have f: "thread_created (slave_of s k)" "slave_at (slave_of s k) \<noteq> S_done" by simp_all
    show thesis
      by (rule that, unfold asking_def, intro conjI, rule reach_step [OF _ by_stop [OF stop_timeout [OF Suc.prems(2) k f]]])
        (use Suc.prems asking_len [OF Suc.prems(1)] k in \<open>auto simp: asking_def\<close>)
  qed
  then show ?case using Suc.hyps(1) [of "k + 1" s1] Suc.hyps(2) k by simp
qed auto

lemma asking_destroy:
  assumes "reachable s" "slave_at (slave_of s 0) = S_call" "master_at s = M_destroy k" "k \<le> SLAVE_THREAD_NUM"
  shows "\<exists>s'. reachable s' \<and> slave_at (slave_of s' 0) = S_call \<and> master_at s' = M_gone"
  using assms
proof (induction "SLAVE_THREAD_NUM - k" arbitrary: s k)
  case 0
  then show ?case using reach_step [OF 0(2) by_stop [OF stop_end]] by force
next
  case (Suc n)
  then have k: "k < SLAVE_THREAD_NUM" by simp
  let ?s = "move (M_destroy (k + 1)) (upd_slave k (\<lambda>a. a\<lparr>thread_created := False\<rparr>)) s"
  have "reachable ?s" by (rule reach_step [OF Suc.prems(1) by_stop [OF stop_destroy [OF Suc.prems(3) k]]])
  moreover have "slave_at (slave_of ?s 0) = S_call"
    using Suc.prems(2) threads_invD(1) [OF reachable_inv [OF Suc.prems(1)]] k by simp
  ultimately show ?case using Suc.hyps(1) [of "k + 1" ?s] Suc.hyps(2) k by simp
qed

lemma helpers_created:
  "k \<le> SLAVE_THREAD_NUM \<Longrightarrow> \<exists>s. reachable s \<and> master_at s = M_create k \<and> \<not> should_exit (io_ctx s) \<and>
    (0 < k \<longrightarrow> thread_created (slave_of s 0) \<and> slave_at (slave_of s 0) = S_init \<and> wake_sem (slave_of s 0) = 0)"
proof (induction k)
  case 0
  show ?case using reach_step [OF reach_start by_create [OF create_enter]] by (force simp: io_start_def)
next
  case (Suc k)
  then obtain s where s: "reachable s" "master_at s = M_create k" "\<not> should_exit (io_ctx s)"
    "0 < k \<longrightarrow> thread_created (slave_of s 0) \<and> slave_at (slave_of s 0) = S_init \<and> wake_sem (slave_of s 0) = 0" by auto
  have k: "k < SLAVE_THREAD_NUM" using Suc.prems by simp
  show ?case using reach_step [OF s(1) by_create [OF create_ok [OF s(2) k]]] s(3,4)
      threads_invD(1) [OF reachable_inv [OF s(1)]] k by force
qed

lemma asking_reachable: "\<exists>s. asking s \<and> master_at s = M_post 1"
proof -
  obtain s where s: "reachable s" "master_at s = M_create SLAVE_THREAD_NUM" "\<not> should_exit (io_ctx s)"
    "thread_created (slave_of s 0)" "slave_at (slave_of s 0) = S_init" "wake_sem (slave_of s 0) = 0"
    using helpers_created [of SLAVE_THREAD_NUM] by auto
  define P where "P l b w t \<longleftrightarrow> reachable t \<and> master_at t = l \<and> should_exit (io_ctx t) = b \<and>
    thread_created (slave_of t 0) \<and> wake_sem (slave_of t 0) = w" for l b w t
  have len: "0 < length (slave_args (io_ctx t))" if "P l b w t" for l b w t
    using that threads_invD(1) [OF reachable_inv] by (simp add: P_def)
  have a: "P M_run False 0 (move M_run (\<lambda>c. c) s)" using reach_step [OF s(1) by_create [OF create_all [OF s(2)]]] s by (simp add: P_def)
  have to: "P l b w (t\<lparr>io_ctx := upd_slave 0 (goto_pc p) (io_ctx t)\<rparr>)"
    if "P l b w t" "slave_step 0 (io_ctx t) (upd_slave 0 (goto_pc p) (io_ctx t))" for l b w t p
    using that len [OF that(1)] reach_step [OF _ by_slave [OF that(2)]] by (simp add: P_def goto_pc_def)
  obtain t where t: "P M_run False 0 t" "slave_at (slave_of t 0) = S_test"
    using to [OF a slave_init [where l = S_test]] len [OF a] s by (force simp: goto_pc_def)
  obtain u where u: "P M_run False 0 u" "slave_at (slave_of u 0) = S_wait"
    using to [OF t(1), of S_wait] slave_test [of 0 "io_ctx t"] len [OF t(1)] t by (force simp: P_def goto_pc_def)
  let ?v = "move (M_post 0) (\<lambda>c. c\<lparr>should_exit := True\<rparr>) u"
  have v: "P (M_post 0) True 0 ?v" "slave_at (slave_of ?v 0) = S_wait"
    using reach_step [OF _ by_stop [OF stop_enter [of u]]] u by (auto simp: P_def)
  let ?x = "move (M_post 1) (upd_slave 0 sem_post) ?v"
  have x: "P (M_post 1) True 1 ?x" "slave_at (slave_of ?x 0) = S_wait"
    using reach_step [OF _ by_stop [OF stop_post [of ?v 0]]] v len [OF v(1)] by (auto simp: P_def sem_post_def)
  let ?y = "?x\<lparr>io_ctx := upd_slave 0 (\<lambda>a. a\<lparr>wake_sem := wake_sem a - 1, slave_at := S_call\<rparr>) (io_ctx ?x)\<rparr>"
  have "reachable ?y"
    by (rule reach_step [OF _ by_slave [OF slave_wake]]) (use x len [OF x(1)] in \<open>auto simp: P_def\<close>)
  moreover have "thread_created (slave_of ?y 0)" "slave_at (slave_of ?y 0) = S_call" "master_at ?y = M_post 1"
    using x len [OF x(1)] by (simp_all add: P_def)
  ultimately show ?thesis unfolding asking_def by blast
qed

lemma helper_outlives_context:
  "\<exists>s c. reachable s \<and> master_at s = M_gone \<and> slave_at (slave_of s 0) = S_call \<and> slave_step 0 (io_ctx s) c"
proof -
  obtain s1 where s1: "asking s1" "master_at s1 = M_post SLAVE_THREAD_NUM" using asking_reachable asking_post [where k = 1] by auto
  then have "asking (move (M_join 0) (\<lambda>c. c) s1)" using reach_step [OF _ by_stop [OF stop_posted [OF s1(2)]]] by (simp add: asking_def)
  then obtain s2 where s2: "asking s2" "master_at s2 = M_join SLAVE_THREAD_NUM" using asking_join [where k = 0] by force
  then have "reachable (move (M_destroy 0) (\<lambda>c. c) s2)" using reach_step [OF _ by_stop [OF stop_joined [OF s2(2)]]] by (simp add: asking_def)
  then obtain s3 where s3: "reachable s3" "slave_at (slave_of s3 0) = S_call" "master_at s3 = M_gone"
    using asking_destroy [where k = 0 and s = "move (M_destroy 0) (\<lambda>c. c) s2"] s2 by (auto simp: asking_def)
  have "0 < length (slave_args (io_ctx s3))" using threads_invD(1) [OF reachable_inv [OF s3(1)]] by simp
  then show ?thesis using s3 slave_success [of 0 "io_ctx s3"] by blast
qed

end
