(* ===== verification/Io_Thread.thy ===== *)
theory Io_Thread
  imports Slave_Threads
begin

text \<open>
  The integrity thread as a whole, \<open>io_thread\<close> of \<open>integrity_check_handler.c\<close> in the guest: opening the
  devices, mapping the queue, the loop, and giving everything back. The results of the system calls
  are the record \<open>io_sys\<close>; the releases are recorded in order.
\<close>

section \<open>Set-up\<close>

abbreviation (input) PAGE_SIZE :: nat where "PAGE_SIZE \<equiv> 4096"
abbreviation (input) MAP_SIZE :: nat where "MAP_SIZE \<equiv> 65536"
abbreviation (input) TOTAL_CPU_COUNT :: int where "TOTAL_CPU_COUNT \<equiv> 16"
abbreviation (input) MASTER_THREAD_ID :: nat where "MASTER_THREAD_ID \<equiv> 16"

text \<open>A mapping that failed is \<^term>\<open>None\<close>, one that succeeded has the contents of the memory.\<close>

record io_sys =
  sys_open_dev :: int
  sys_create_queue :: int
  sys_map_send :: "bytes option"
  sys_map_recv :: "bytes option"
  sys_open_tsi :: int
  sys_epoll_create :: int
  sys_epoll_add :: int
  sys_create_slaves :: int
  sys_cores :: int
  sys_affinity :: int

text \<open>The sockets in the arguments of the thread.\<close>

record io_fds =
  socket_fd :: int
  connd_fd :: int

datatype map_ptr = Map_null | Map_failed | Mapped

text \<open>The variables of \<open>io_thread\<close> the clean-up reads.\<close>

record io_vars =
  v_dev :: int
  v_tsi :: int
  v_epoll :: int
  v_socket :: int
  v_send :: map_ptr
  v_recv :: map_ptr

definition start_vars :: io_vars where
  "start_vars = \<lparr>v_dev = -1, v_tsi = -1, v_epoll = -1, v_socket = -1, v_send = Map_null, v_recv = Map_null\<rparr>"

text \<open>
  The queue on the two mappings: only the first page of each is cleared. The length word is at the start
  of the first, the offset words follow the buffers.
\<close>

definition clear_page :: "bytes \<Rightarrow> bytes" where
  "clear_page m = replicate PAGE_SIZE 0 @ drop PAGE_SIZE m"

definition mapped_queue :: "bytes \<Rightarrow> bytes \<Rightarrow> share_queue" where
  "mapped_queue m1 m2 =
     \<lparr>send_len = word_of_bytes (take 8 (clear_page m1)), send_buf = take QUEUE_SIZE (drop 8 (clear_page m1)), send_offset = 0,
      queue_recv = take QUEUE_SIZE (clear_page m2), recv_offset = 0\<rparr>"

text \<open>The part of \<open>io_thread\<close> before the loop: what the variables hold, and the queue when the loop is reached.\<close>

definition io_setup :: "io_sys \<Rightarrow> bool \<Rightarrow> io_fds \<Rightarrow> io_vars \<times> share_queue option" where
  "io_setup sys is_server fds =
     (let v = start_vars\<lparr>v_dev := sys_open_dev sys\<rparr> in
      if v_dev v < 0 then (v, None)
      else if sys_create_queue sys < 0 then (v, None)
      else case sys_map_send sys of
          None \<Rightarrow> (v, None)
        | Some m1 \<Rightarrow>
            let v = v\<lparr>v_send := Mapped\<rparr> in
            (case sys_map_recv sys of
               None \<Rightarrow> (v\<lparr>v_recv := Map_failed\<rparr>, None)
             | Some m2 \<Rightarrow>
                 let v = v\<lparr>v_recv := Mapped, v_tsi := sys_open_tsi sys\<rparr> in
                 if v_tsi v < 0 then (v, None)
                 else let v = v\<lparr>v_epoll := sys_epoll_create sys\<rparr> in
                 if v_epoll v < 0 then (v, None)
                 else let v = v\<lparr>v_socket := if is_server then connd_fd fds else socket_fd fds\<rparr> in
                 if v_socket v < 0 \<or> sys_epoll_add sys < 0 \<or> sys_create_slaves sys \<noteq> 0 \<or>
                    (sys_cores sys > TOTAL_CPU_COUNT \<and> sys_affinity sys \<noteq> 0)
                 then (v, None)
                 else (v, Some (mapped_queue m1 m2))))"


section \<open>Clean-up\<close>

datatype release =
    Stop_helpers | Shutdown_wr int | Epoll_del int int | Reset_claims | Free_handle | Unmap_send | Unmap_recv | Unmap_failed
  | Destroy_queue int | Close int | Shutdown int | Free_params

text \<open>The entries of the diagnostic ring that are printed, the latest first.\<close>

fun show_loop :: "nat \<Rightarrow> nat \<Rightarrow> io_dfx \<Rightarrow> (u64 \<times> u64 \<times> u64) list option" where
  "show_loop 0 j ctx = Some []"
| "show_loop (Suc n) j ctx =
     (let j = (if j = 0 then 49 else j - 1) in
      do {
        a \<leftarrow> mem_at (tsi_start ctx) j;
        b \<leftarrow> mem_at (tsi_end ctx) j;
        c \<leftarrow> mem_at (tsi_type ctx) j;
        rest \<leftarrow> show_loop n j ctx;
        Some ((a, b, c) # rest)
      })"

definition show_tsi_time :: "io_dfx \<Rightarrow> (u64 \<times> u64 \<times> u64) list option" where
  "show_tsi_time ctx = show_loop 50 (tsi_index ctx) ctx"

definition close_connection :: "int \<Rightarrow> int \<Rightarrow> release list" where
  "close_connection epoll_fd sock =
     (if sock \<ge> 0 then Shutdown_wr sock # (if epoll_fd \<ge> 0 then [Epoll_del epoll_fd sock] else []) else [])"

text \<open>\<open>handle\<close> says whether the arguments have a handle and whether that has a session.\<close>

definition cleanup_resources :: "bool \<Rightarrow> io_fds \<Rightarrow> bool \<times> bool \<Rightarrow> io_vars \<Rightarrow> release list" where
  "cleanup_resources is_server fds handle v =
     (if fst handle then (if snd handle \<and> \<not> is_server then [Reset_claims] else []) @ [Free_handle] else []) @
     (if v_send v = Mapped then [Unmap_send] else []) @
     (case v_recv v of Map_null \<Rightarrow> [] | Map_failed \<Rightarrow> [Unmap_failed] | Mapped \<Rightarrow> [Unmap_recv]) @
     (if v_dev v \<ge> 0 then [Destroy_queue (v_dev v), Close (v_dev v)] else []) @
     (if v_tsi v \<ge> 0 then [Close (v_tsi v)] else []) @
     (if v_epoll v \<ge> 0 then [Close (v_epoll v)] else []) @
     (if is_server \<and> connd_fd fds \<ge> 0 then [Close (connd_fd fds)] else []) @
     (if socket_fd fds \<ge> 0 then [Shutdown (socket_fd fds), Close (socket_fd fds)] else [])"

text \<open>The number the thread gives itself in its requests, with enough processors that of its own.\<close>

definition master_thread_id :: "io_sys \<Rightarrow> nat" where
  "master_thread_id sys = (if sys_cores sys > TOTAL_CPU_COUNT then MASTER_THREAD_ID else 0)"

definition io_thread ::
    "(nat \<Rightarrow> bool) \<Rightarrow> ('h, 'd) rats \<Rightarrow> 'w io_ops \<Rightarrow> ('w \<Rightarrow> u64 \<times> u64) \<Rightarrow> io_sys \<Rightarrow> integrity_socket option \<Rightarrow> io_fds \<Rightarrow> bool \<times> bool
     \<Rightarrow> ('h, 'w) io_state \<Rightarrow> ((u64 \<times> u64 \<times> u64) list \<times> release list \<times> ('h, 'w) io_state) option" where
  "io_thread malloc_ok rt ops clock sys params fds handle s =
     (case params of
        None \<Rightarrow> Some ([], [], s)
      | Some p \<Rightarrow> do {
          let (v, q) = io_setup sys (io_is_server p) fds;
          (ctx, s) \<leftarrow> (case q of
             None \<Rightarrow> Some (zero_dfx, s)
           | Some q \<Rightarrow> io_loop malloc_ok rt ops clock p (master_thread_id sys) zero_dfx (s\<lparr>io_queue := q\<rparr>));
          ls \<leftarrow> show_tsi_time ctx;
          Some (ls, Stop_helpers # close_connection (v_epoll v) (v_socket v) @
            cleanup_resources (io_is_server p) fds handle v @ [Free_params], s)
        })"


section \<open>Everything is given back\<close>

lemma length_clear_page: "length m = MAP_SIZE \<Longrightarrow> length (clear_page m) = MAP_SIZE"
  by (simp add: clear_page_def)

lemma le_nat_zeros: "le_nat (replicate n 0) = 0"
  by (induction n) simp_all

lemma mapped_queue_wf:
  assumes "length m1 = MAP_SIZE" "length m2 = MAP_SIZE"
  shows "queue_wf (mapped_queue m1 m2)" "send_len (mapped_queue m1 m2) = 0"
proof -
  show "queue_wf (mapped_queue m1 m2)" using assms by (simp add: queue_wf_def mapped_queue_def length_clear_page)
  have "take 8 (clear_page m1) = replicate 8 0" by (simp add: clear_page_def)
  then show "send_len (mapped_queue m1 m2) = 0" by (simp add: mapped_queue_def word_of_bytes_def le_nat_zeros)
qed

text \<open>The printed entries are those of the ring, from the one before the index backwards.\<close>

lemma show_loop_ok:
  assumes "dfx_wf ctx" "j < 50"
  shows "\<exists>ls. show_loop n j ctx = Some ls \<and> length ls = n"
  using assms(2)
proof (induction n arbitrary: j)
  case (Suc n)
  let ?j = "if j = 0 then 49 else j - 1"
  have "?j < 50" using Suc.prems by (cases j) auto
  moreover from this obtain ls where "show_loop n ?j ctx = Some ls" "length ls = n" using Suc.IH by blast
  ultimately show ?case using assms(1) by (simp add: Let_def dfx_wf_def mem_at_def)
qed simp

lemma show_tsi_time_ok: "dfx_wf ctx \<Longrightarrow> \<exists>ls. show_tsi_time ctx = Some ls \<and> length ls = 50"
  using show_loop_ok [of ctx "tsi_index ctx" 50] by (simp add: show_tsi_time_def dfx_wf_def)

text \<open>
  What the thread owns when it cleans up: the descriptors it opened, as far as it came, and the sockets
  of its arguments.
\<close>

definition owned_fds :: "io_sys \<Rightarrow> bool \<Rightarrow> io_fds \<Rightarrow> int list" where
  "owned_fds sys is_server fds =
     filter (\<lambda>f. 0 \<le> f)
       ([sys_open_dev sys] @
        (if 0 \<le> sys_open_dev sys \<and> 0 \<le> sys_create_queue sys \<and> sys_map_send sys \<noteq> None \<and> sys_map_recv sys \<noteq> None
         then sys_open_tsi sys # (if 0 \<le> sys_open_tsi sys then [sys_epoll_create sys] else [])
         else []) @
        (if is_server then [connd_fd fds] else []) @ [socket_fd fds])"

definition maps_send :: "io_sys \<Rightarrow> bool" where
  "maps_send sys \<longleftrightarrow> 0 \<le> sys_open_dev sys \<and> 0 \<le> sys_create_queue sys \<and> sys_map_send sys \<noteq> None"

definition maps_recv :: "io_sys \<Rightarrow> bool" where
  "maps_recv sys \<longleftrightarrow> maps_send sys \<and> sys_map_recv sys \<noteq> None"

definition sys_wf :: "io_sys \<Rightarrow> bool" where
  "sys_wf sys \<longleftrightarrow> (\<forall>m. sys_map_send sys = Some m \<or> sys_map_recv sys = Some m \<longrightarrow> length m = MAP_SIZE)"

fun closes :: "release list \<Rightarrow> int list" where
  "closes [] = []"
| "closes (Close f # rs) = f # closes rs"
| "closes (_ # rs) = closes rs"

lemma closes_append [simp]: "closes (xs @ ys) = closes xs @ closes ys"
  by (induction xs rule: closes.induct) simp_all

lemma close_connection_closes [simp]: "closes (close_connection e k) = []"
  by (simp add: close_connection_def)

lemma setup_vars:
  assumes "io_setup sys is_server fds = (v, q)"
  shows "v_dev v = sys_open_dev sys" "v_send v = Mapped \<longleftrightarrow> maps_send sys" "v_recv v = Mapped \<longleftrightarrow> maps_recv sys"
    "v_tsi v = (if maps_recv sys then sys_open_tsi sys else -1)"
    "v_epoll v = (if maps_recv sys \<and> 0 \<le> sys_open_tsi sys then sys_epoll_create sys else -1)"
    "v_recv v = Map_failed \<longleftrightarrow> maps_send sys \<and> sys_map_recv sys = None"
  using assms
  by (auto simp: io_setup_def start_vars_def maps_send_def maps_recv_def Let_def split: if_splits option.splits)

lemma setup_queue:
  assumes "io_setup sys is_server fds = (v, Some q)" "sys_wf sys"
  shows "queue_wf q"
  using assms mapped_queue_wf
  by (auto simp: io_setup_def sys_wf_def Let_def split: if_splits option.splits)

lemma cleanup_closes:
  assumes "io_setup sys is_server fds = (v, q)"
  shows "closes (cleanup_resources is_server fds handle v) = owned_fds sys is_server fds"
  using setup_vars [OF assms]
  by (auto simp: cleanup_resources_def owned_fds_def maps_recv_def maps_send_def split: map_ptr.splits)

text \<open>
  C17. The integrity thread gives everything back on every path. Wherever its set-up stops, and whenever
  its loop ends, it stops the helpers first, closes exactly the descriptors it opened and the sockets it
  was given, each once and in order, removes each mapping it made exactly once, prints the whole
  diagnostic ring without leaving it, and frees its arguments last; and the queue has kept its shape.
  The only other way is a loop that goes on for ever, as in C26, on the queue it mapped and with the
  number of its thread. The library is taken not to write more than it was asked for, and the
  monitor to keep the size of the memory.
\<close>
theorem io_thread_releases:
  assumes "io_setup sys (io_is_server p) fds = (v, q)" "sys_wf sys" "ops_wf ops" "rt_within rt" "queue_wf (io_queue s)"
  shows "(\<exists>q'. q = Some q' \<and>
      io_runs_on malloc_ok rt ops clock p (if sys_cores sys > TOTAL_CPU_COUNT then MASTER_THREAD_ID else 0) zero_dfx
        (s\<lparr>io_queue := q'\<rparr>)) \<or>
    (\<exists>ls rel s'. io_thread malloc_ok rt ops clock sys (Some p) fds handle s = Some (ls, rel, s') \<and>
    length ls = 50 \<and> hd rel = Stop_helpers \<and> last rel = Free_params \<and> closes rel = owned_fds sys (io_is_server p) fds \<and>
    count_list rel Unmap_send = (if maps_send sys then 1 else 0) \<and>
    count_list rel Unmap_recv = (if maps_recv sys then 1 else 0) \<and> queue_wf (io_queue s'))"
proof (cases "\<exists>q'. q = Some q' \<and> io_runs_on malloc_ok rt ops clock p (master_thread_id sys) zero_dfx (s\<lparr>io_queue := q'\<rparr>)")
  case True
  then show ?thesis unfolding master_thread_id_def by blast
next
  case False
  have z: "dfx_wf zero_dfx" by (simp add: dfx_wf_def zero_dfx_def)
  obtain ctx s' where c: "(case q of None \<Rightarrow> Some (zero_dfx, s)
      | Some q \<Rightarrow> io_loop malloc_ok rt ops clock p (master_thread_id sys) zero_dfx (s\<lparr>io_queue := q\<rparr>)) = Some (ctx, s')"
    and w: "io_wf ctx s'"
  proof (cases q)
    case None
    then show thesis using that assms(5) z by (simp add: io_wf_def)
  next
    case (Some q')
    have "io_wf zero_dfx (s\<lparr>io_queue := q'\<rparr>)" using setup_queue [OF _ assms(2)] assms(1) Some z by (simp add: io_wf_def)
    then show thesis using that io_loop_cases [OF assms(4,3), of zero_dfx "s\<lparr>io_queue := q'\<rparr>" malloc_ok clock p "master_thread_id sys"]
        False Some by auto
  qed
  then obtain ls where ls: "show_tsi_time ctx = Some ls" "length ls = 50" using show_tsi_time_ok by (auto simp: io_wf_def)
  have "count_list (cleanup_resources b fds handle v) Unmap_send = (if v_send v = Mapped then 1 else 0)"
    "count_list (cleanup_resources b fds handle v) Unmap_recv = (if v_recv v = Mapped then 1 else 0)"
    "count_list (close_connection e k) Unmap_send = 0" "count_list (close_connection e k) Unmap_recv = 0" for b e k
    by (simp_all add: cleanup_resources_def close_connection_def split: map_ptr.splits)
  then show ?thesis using assms(1) c ls w cleanup_closes [OF assms(1)] setup_vars(2,3) [OF assms(1)]
    by (simp add: io_thread_def io_wf_def)
qed

text \<open>A set-up on 32 processors that reaches the loop, which ends on a socket error.\<close>

definition demo_sys :: io_sys where
  "demo_sys = \<lparr>sys_open_dev = 5, sys_create_queue = 0, sys_map_send = Some (replicate MAP_SIZE 7), sys_map_recv = Some (replicate MAP_SIZE 7),
     sys_open_tsi = 6, sys_epoll_create = 7, sys_epoll_add = 0, sys_create_slaves = 0, sys_cores = 32, sys_affinity = 0\<rparr>"

lemma hang_up_ends_loop:
  assumes "send_offset (io_queue s) = 0"
  shows "io_loop malloc_ok rt (demo_ops\<lparr>op_epoll_wait := (\<lambda>w. (Events [Ev_error], w))\<rparr>) clock p tid ctx s \<noteq> None"
proof -
  have "\<not> io_ends b TSI_INCOMPLETE" for b by (simp add: io_ends_def)
  then show ?thesis using assms by (subst io_loop.simps) (simp add: demo_ops_def)
qed

theorem io_thread_releases_witness:
  "\<exists>ls rel s'. io_thread (\<lambda>_. True) (stream_rats demo_stream_rats) (demo_ops\<lparr>op_epoll_wait := (\<lambda>w. (Events [Ev_error], w))\<rparr>)
      (\<lambda>_. (0, 0)) demo_sys (Some \<lparr>io_guest_rd = 7, io_is_server = True\<rparr>) \<lparr>socket_fd = 8, connd_fd = 9\<rparr> (True, True) demo_io_state =
        Some (ls, rel, s') \<and>
    closes rel = [5, 6, 7, 9, 8] \<and> count_list rel Unmap_recv = 1"
proof -
  let ?p = "\<lparr>io_guest_rd = 7, io_is_server = True\<rparr>" and ?f = "\<lparr>socket_fd = 8, connd_fd = 9\<rparr>"
  let ?ops = "demo_ops\<lparr>op_epoll_wait := (\<lambda>w. (Events [Ev_error], w))\<rparr>"
  let ?m = "replicate MAP_SIZE 7 :: bytes"
  obtain v where v: "io_setup demo_sys (io_is_server ?p) ?f = (v, Some (mapped_queue ?m ?m))"
    by (simp add: io_setup_def demo_sys_def start_vars_def)
  have o: "ops_wf ?ops" by (simp add: ops_wf_def demo_ops_def)
  have w: "sys_wf demo_sys" by (simp add: sys_wf_def demo_sys_def)
  have q: "queue_wf (io_queue demo_io_state)" by (simp add: demo_queue_facts)
  have "send_offset (io_queue (demo_io_state\<lparr>io_queue := mapped_queue ?m ?m\<rparr>)) = 0" by (simp add: mapped_queue_def)
  then have n: "\<not> io_runs_on (\<lambda>_. True) (stream_rats demo_stream_rats) ?ops (\<lambda>_. (0, 0)) ?p tid zero_dfx
      (demo_io_state\<lparr>io_queue := mapped_queue ?m ?m\<rparr>)" for tid
    using io_runs_on_None [OF _ o] hang_up_ends_loop by metis
  have "owned_fds demo_sys True ?f = [5, 6, 7, 9, 8]" "maps_recv demo_sys"
    by (simp_all add: owned_fds_def demo_sys_def maps_recv_def maps_send_def)
  then show ?thesis
    using io_thread_releases [OF v w o stream_within q, where malloc_ok = "\<lambda>_. True" and clock = "\<lambda>_. (0, 0)" and handle = "(True, True)"]
      n by fastforce
qed

text \<open>When the second mapping fails the clean-up removes a mapping at the address that marks the failure.\<close>

lemma failed_mapping_removed:
  assumes "io_setup sys is_server fds = (v, q)" "maps_send sys" "sys_map_recv sys = None"
  shows "Unmap_failed \<in> set (cleanup_resources is_server fds handle v)"
  using setup_vars(6) [OF assms(1)] assms(2,3) by (simp add: cleanup_resources_def)

end
