(* ===== verification/Host_Integrity.thy ===== *)
theory Host_Integrity
  imports Host_Mig Io_Thread
begin

text \<open>
  The integrity check on the host, \<open>integrity_check_handler.c\<close> of \<open>virtcca-mig-agent\<close>. The file is a
  variant of the one in the guest: the queue, the frames and the stop of the helpers are the same
  code over the TLS session of the host, so the definitions are those of the guest at that session.
  Different are the request to the monitor, whose status is a return value of its own beside the result
  of the call, the helpers, and the clean-up.
\<close>

section \<open>Processors\<close>

text \<open>The processors the thread is bound to; \<open>os\<close> is the result of the system call. \<open>CPU_SET\<close> ignores numbers from 1024 on.\<close>

definition set_affinity :: "(int list \<Rightarrow> int) \<Rightarrow> int \<Rightarrow> int \<Rightarrow> int" where
  "set_affinity os cpu_start cpu_end =
     (if cpu_start < 0 \<or> cpu_end < 0 \<or> cpu_start > cpu_end then -1
      else if os (filter (\<lambda>i. i < 1024) [cpu_start..cpu_end]) \<noteq> 0 then -1 else 0)"


section \<open>The queue\<close>

text \<open>
  The session of the host as the transfers the queue functions use: of the record only receiving and
  sending matter.
\<close>

definition tls_rats :: "('c, 's) openssl \<Rightarrow> ('s, unit) rats" where
  "tls_rats lib =
     \<lparr>rt_receive = (\<lambda>n s. let (e, d, s) = ssl_receive lib n s in (tls_code e, d, s)),
      rt_transmit = (\<lambda>bs s. let (e, n, s) = ssl_transmit lib bs s in (tls_code e, n, s)),
      rt_init = (\<lambda>_. (1, None)), rt_set_callback = (\<lambda>s. (1, s)), rt_negotiate = (\<lambda>_ _ _. None), rt_claims = (\<lambda>_. False),
      rt_evidence = (\<lambda>_. None), rt_err = (\<lambda>_. 1), rt_io = (\<lambda>_ _ _ i d. (1, i, d)),
      rt_tsi = \<lparr>dev_open = -1, dev_version = (\<lambda>_. (1, 0, 0)), dev_token = (\<lambda>_ cmd. (1, cmd)), dev_get_cert = (\<lambda>_ dc. (1, dc))\<rparr>\<rparr>"

definition host_is_recv_queue_full :: "share_queue \<Rightarrow> u32 \<Rightarrow> bool" where
  "host_is_recv_queue_full q len = is_recv_queue_full q len"

definition host_enqueue_recv_data :: "share_queue \<Rightarrow> bytes \<Rightarrow> u32 \<Rightarrow> (int \<times> share_queue) option" where
  "host_enqueue_recv_data q buffer len = enqueue_recv_data q buffer len"

definition host_send_queue_data :: "('c, 's) openssl \<Rightarrow> share_queue \<Rightarrow> 's \<Rightarrow> (int \<times> share_queue \<times> 's) option" where
  "host_send_queue_data lib q s = send_queue_data (tls_rats lib) q s"

text \<open>
  The request for checksums: the status is the return value of the command, whatever the call itself
  returns. The memory of the queue goes with the data.
\<close>

type_synonym 'w checksum_ioc = "(u64 \<times> u64 \<times> share_queue, 'w) ioc"

definition host_checksum :: "'w checksum_ioc \<Rightarrow> int \<Rightarrow> u64 \<Rightarrow> nat \<Rightarrow> share_queue \<Rightarrow> 'w \<Rightarrow> int \<times> share_queue \<times> 'w" where
  "host_checksum ioc f guest tid q w =
     (case virtcca_tmi_ioctl ioc (Some f) VIRTCCA_GET_MIGVM_MEM_CHECKSUM 0 (guest, of_nat tid, q) w of
        None \<Rightarrow> (0, q, w)
      | Some (_, ret_val, (_, _, q), w) \<Rightarrow> (uint ret_val, q, w))"

text \<open>What the host's thread works with: the polls and semaphores of \<open>ops\<close>, and the device.\<close>

definition host_ops :: "'w checksum_ioc \<Rightarrow> int \<Rightarrow> 'w io_ops \<Rightarrow> 'w io_ops" where
  "host_ops ioc f ops = ops\<lparr>op_checksum := host_checksum ioc f\<rparr>"

definition host_handle_send_event ::
    "('c, 's) openssl \<Rightarrow> 'w io_ops \<Rightarrow> ('s, 'w) io_state \<Rightarrow> (int \<times> ('s, 'w) io_state) option" where
  "host_handle_send_event lib ops s = handle_send_event (tls_rats lib) ops s"

text \<open>The result of \<open>handle_recv_event\<close> is the status converted to \<open>int\<close>.\<close>

definition int_of_status :: "int \<Rightarrow> int" where
  "int_of_status r = sint (of_int r :: u32)"

definition host_handle_recv_event ::
    "(nat \<Rightarrow> bool) \<Rightarrow> ('c, 's) openssl \<Rightarrow> 'w checksum_ioc \<Rightarrow> int \<Rightarrow> 'w io_ops \<Rightarrow> u64 \<Rightarrow> nat \<Rightarrow> ('s, 'w) io_state
     \<Rightarrow> (int \<times> ('s, 'w) io_state) option" where
  "host_handle_recv_event malloc_ok lib ioc f ops guest tid s = do {
     (ret, s) \<leftarrow> handle_recv_event malloc_ok (tls_rats lib) (host_ops ioc f ops) guest tid s;
     Some (int_of_status ret, s)
   }"

definition host_send_close_notification :: "('c, 's) openssl \<Rightarrow> ('s, 'w) io_state \<Rightarrow> int \<times> ('s, 'w) io_state" where
  "host_send_close_notification lib s = send_close_notification (tls_rats lib) s"


section \<open>The helpers\<close>

text \<open>
  One wake-up of a helper: \<open>ret\<close> is a variable of the thread that is never set before its first request
  and not reset afterwards; \<open>ans\<close> are the results and return values of the coming requests. The result has
  the variable, whether the helper set the flag, and the answers not asked for; a helper that is out
  of answers waits in its request.
\<close>

fun host_slave_wake :: "u64 \<Rightarrow> (int \<times> u64) list \<Rightarrow> u64 \<times> bool \<times> (int \<times> u64) list" where
  "host_slave_wake ret [] = (ret, False, [])"
| "host_slave_wake ret ((r, ret_val) # ans) =
     (if ret = 0 then (ret, False, (r, ret_val) # ans)
      else
        let ret = (if r \<noteq> 0 then -1 else 0) in
        if ret_val = 1 \<or> ret_val = 4 then (ret, True, ans)
        else host_slave_wake ret ans)"

text \<open>\<open>n\<close> wake-ups, as long as the flag is not set by this helper.\<close>

fun host_slave_wakes :: "nat \<Rightarrow> u64 \<Rightarrow> (int \<times> u64) list \<Rightarrow> u64 \<times> bool \<times> (int \<times> u64) list" where
  "host_slave_wakes 0 ret ans = (ret, False, ans)"
| "host_slave_wakes (Suc n) ret ans =
     (let (ret, stop, ans) = host_slave_wake ret ans in
      if stop then (ret, True, ans) else host_slave_wakes n ret ans)"

definition host_create_slave_thread :: "io_threads \<Rightarrow> io_threads \<Rightarrow> bool" where
  "host_create_slave_thread s s' \<longleftrightarrow> create_slave_thread s s'"

definition host_stop_all_slave_threads :: "io_threads \<Rightarrow> io_threads \<Rightarrow> bool" where
  "host_stop_all_slave_threads s s' \<longleftrightarrow> stop_all_slave_threads s s'"

definition host_notify_all_slave_thread :: "io_threads \<Rightarrow> io_threads \<Rightarrow> bool" where
  "host_notify_all_slave_thread s s' \<longleftrightarrow> notify_all_slave_thread s s'"


section \<open>The thread\<close>

fun host_io_events ::
    "(nat \<Rightarrow> bool) \<Rightarrow> ('c, 's) openssl \<Rightarrow> 'w checksum_ioc \<Rightarrow> int \<Rightarrow> 'w io_ops \<Rightarrow> ('w \<Rightarrow> u64 \<times> u64) \<Rightarrow> host_socket \<Rightarrow> nat
     \<Rightarrow> ep_event list \<Rightarrow> io_dfx \<Rightarrow> ('s, 'w) io_state \<Rightarrow> (bool \<times> io_dfx \<times> ('s, 'w) io_state) option" where
  "host_io_events malloc_ok lib ioc f ops clock params tid [] ctx s = Some (False, ctx, s)"
| "host_io_events malloc_ok lib ioc f ops clock params tid (e # es) ctx s =
     (if e = Ev_error then Some (True, ctx, s)
      else if e = Ev_in then
        do {
          (ret, s) \<leftarrow> host_handle_recv_event malloc_ok lib ioc f ops (hs_guest_rd params) tid s;
          if ret < 0 \<or> io_ends (hs_is_server params) ret then
            Some (True, ctx, if ret \<noteq> RECV_CLOSE_REQ then snd (host_send_close_notification lib s) else s)
          else
            let (ok, w) = (if ret = TSI_NOTIFY then op_notify ops (io_world s) else (True, io_world s));
                s = s\<lparr>io_world := w\<rparr> in
            if \<not> ok then Some (True, ctx, s)
            else do {
              ctx \<leftarrow> record_tsi_time ctx (fst (clock w)) (snd (clock w)) 1;
              host_io_events malloc_ok lib ioc f ops clock params tid es ctx s
            }
        }
      else host_io_events malloc_ok lib ioc f ops clock params tid es ctx s)"

partial_function (option) host_io_loop ::
    "(nat \<Rightarrow> bool) \<Rightarrow> ('c, 's) openssl \<Rightarrow> 'w checksum_ioc \<Rightarrow> int \<Rightarrow> 'w io_ops \<Rightarrow> ('w \<Rightarrow> u64 \<times> u64) \<Rightarrow> host_socket \<Rightarrow> nat
     \<Rightarrow> io_dfx \<Rightarrow> ('s, 'w) io_state \<Rightarrow> (io_dfx \<times> ('s, 'w) io_state) option" where
  "host_io_loop malloc_ok lib ioc f ops clock params tid ctx s =
     (let (ret_val, q, w) = host_checksum ioc f (hs_guest_rd params) tid (io_queue s) (io_world s);
          s = s\<lparr>io_queue := q, io_world := w\<rparr> in
      if io_ends (hs_is_server params) ret_val then Some (ctx, snd (host_send_close_notification lib s))
      else
        let (ok, w) = (if ret_val = TSI_NOTIFY then op_notify ops w else (True, w)); s = s\<lparr>io_world := w\<rparr> in
        if \<not> ok then Some (ctx, s)
        else Option.bind (if send_offset q > 0 then host_handle_send_event lib ops s else Some (0, s)) (\<lambda>(r, s).
          if r < 0 then Some (ctx, s)
          else
            let (res, w) = op_epoll_wait ops (io_world s); s = s\<lparr>io_world := w\<rparr> in
            case res of
              Wait_failed eintr \<Rightarrow>
                if eintr then host_io_loop malloc_ok lib ioc f ops clock params tid ctx s else Some (ctx, s)
            | Events es \<Rightarrow>
                Option.bind (host_io_events malloc_ok lib ioc f ops clock params tid es ctx s) (\<lambda>(stop, ctx, s).
                  if stop then Some (ctx, s) else host_io_loop malloc_ok lib ioc f ops clock params tid ctx s)))"

text \<open>
  The variables the clean-up reads: the context of the device is declared in the middle of the function and
  not initialised when the set-up jumps over its declaration, \<^term>\<open>None\<close>.
\<close>

record host_vars =
  hv_dev :: int
  hv_ctx :: "tmi_ctx option"
  hv_epoll :: int
  hv_socket :: int
  hv_send :: map_ptr
  hv_recv :: map_ptr

definition host_start_vars :: host_vars where
  "host_start_vars = \<lparr>hv_dev = -1, hv_ctx = None, hv_epoll = -1, hv_socket = -1, hv_send = Map_null, hv_recv = Map_null\<rparr>"

definition host_io_setup :: "(nat \<Rightarrow> bool) \<Rightarrow> io_sys \<Rightarrow> host_socket \<Rightarrow> host_vars \<times> share_queue option" where
  "host_io_setup malloc_ok sys params =
     (let v = host_start_vars\<lparr>hv_dev := sys_open_dev sys\<rparr> in
      if hv_dev v < 0 then (v, None)
      else if sys_create_queue sys < 0 then (v, None)
      else case sys_map_send sys of
          None \<Rightarrow> (v, None)
        | Some m1 \<Rightarrow>
            let v = v\<lparr>hv_send := Mapped\<rparr> in
            (case sys_map_recv sys of
               None \<Rightarrow> (v\<lparr>hv_recv := Map_failed\<rparr>, None)
             | Some m2 \<Rightarrow>
                 let v = v\<lparr>hv_recv := Mapped, hv_ctx := Some (tmi_new_ctx malloc_ok (sys_open_tsi sys))\<rparr> in
                 if hv_ctx v = Some None then (v, None)
                 else let v = v\<lparr>hv_epoll := sys_epoll_create sys\<rparr> in
                 if hv_epoll v < 0 then (v, None)
                 else let v = v\<lparr>hv_socket := if hs_is_server params then hs_connd_fd params else hs_socket_fd params\<rparr> in
                 if hv_socket v < 0 \<or> sys_epoll_add sys < 0 \<or> sys_create_slaves sys \<noteq> 0 \<or>
                    (sys_cores sys > 16 \<and> sys_affinity sys \<noteq> 0)
                 then (v, None)
                 else (v, Some (mapped_queue m1 m2))))"

definition cleanup_server :: "host_socket \<Rightarrow> int \<Rightarrow> release list" where
  "cleanup_server params epoll_fd =
     (if epoll_fd \<ge> 0 then [Epoll_del epoll_fd (hs_connd_fd params), Close epoll_fd] else []) @
     (if hs_connd_fd params \<ge> 0 then [Close (hs_connd_fd params)] else [])"

definition cleanup_client :: "host_socket \<Rightarrow> int \<Rightarrow> release list" where
  "cleanup_client params epoll_fd =
     (if epoll_fd \<ge> 0 then [Epoll_del epoll_fd (hs_socket_fd params), Close epoll_fd] else []) @
     (if hs_connd_fd params \<ge> 0 then [Close (hs_connd_fd params)] else []) @
     (if hs_socket_fd params \<ge> 0 then [Shutdown (hs_socket_fd params), Close (hs_socket_fd params)] else [])"

definition host_cleanup_resources :: "host_socket \<Rightarrow> host_vars \<Rightarrow> release list option" where
  "host_cleanup_resources params v = do {
     ctx \<leftarrow> hv_ctx v;
     Some ((if hv_send v = Mapped then [Unmap_send] else []) @
       (case hv_recv v of Map_null \<Rightarrow> [] | Map_failed \<Rightarrow> [Unmap_failed] | Mapped \<Rightarrow> [Unmap_recv]) @
       (if hv_dev v \<ge> 0 then [Destroy_queue (hv_dev v), Close (hv_dev v)] else []) @
       (case ctx of None \<Rightarrow> [] | Some f \<Rightarrow> [Close f]) @
       (if hs_is_server params then cleanup_server params (hv_epoll v) else cleanup_client params (hv_epoll v)))
   }"

text \<open>
  The number the thread gives itself in its requests: \<open>MASTER_THREAD_ID\<close> of this file is 0, also with more
  than 16 processors.
\<close>

abbreviation (input) HOST_MASTER_THREAD_ID :: nat where "HOST_MASTER_THREAD_ID \<equiv> 0"

definition host_master_thread_id :: "io_sys \<Rightarrow> nat" where
  "host_master_thread_id sys = (if sys_cores sys > TOTAL_CPU_COUNT then HOST_MASTER_THREAD_ID else 0)"

definition host_io_thread ::
    "(nat \<Rightarrow> bool) \<Rightarrow> ('c, 's) openssl \<Rightarrow> 'w checksum_ioc \<Rightarrow> 'w io_ops \<Rightarrow> ('w \<Rightarrow> u64 \<times> u64) \<Rightarrow> io_sys \<Rightarrow> host_socket option
     \<Rightarrow> ('s, 'w) io_state \<Rightarrow> ((u64 \<times> u64 \<times> u64) list \<times> release list \<times> ('s, 'w) io_state) option" where
  "host_io_thread malloc_ok lib ioc ops clock sys params s =
     (case params of
        None \<Rightarrow> Some ([], [], s)
      | Some p \<Rightarrow> do {
          let (v, q) = host_io_setup malloc_ok sys p;
          (ctx, s) \<leftarrow> (case q of
             None \<Rightarrow> Some (zero_dfx, s)
           | Some q \<Rightarrow> do {
               c \<leftarrow> hv_ctx v;
               f \<leftarrow> c;
               host_io_loop malloc_ok lib ioc f ops clock p (host_master_thread_id sys) zero_dfx (s\<lparr>io_queue := q\<rparr>)
             });
          ls \<leftarrow> show_tsi_time ctx;
          rel \<leftarrow> host_cleanup_resources p v;
          Some (ls, Stop_helpers # rel @ [Free_params], s)
        })"


section \<open>Frames between hosts\<close>

text \<open>A TLS session as a stream of bytes: each transfer moves a part of what was asked for.\<close>

definition stream_ssl :: "('c, stream) openssl \<Rightarrow> ('c, stream) openssl" where
  "stream_ssl lib = lib\<lparr>
     ssl_read := (\<lambda>n s. if n \<le> 0 then (Inl (-1), s) else let (_, d, s) = stream_receive (nat n) s in (Inr d, s)),
     ssl_write := (\<lambda>n bs s. if n \<le> 0 then (-1, s) else let (_, k, s) = stream_transmit (take (nat n) bs) s in (int k, s))\<rparr>"

lemma tls_rats_simps [simp]:
  "rt_receive (tls_rats lib) = (\<lambda>n s. let (e, d, s) = ssl_receive lib n s in (tls_code e, d, s))"
  "rt_transmit (tls_rats lib) = (\<lambda>bs s. let (e, n, s) = ssl_transmit lib bs s in (tls_code e, n, s))"
  by (simp_all add: tls_rats_def)

interpretation tls_stream: byte_stream "tls_rats (stream_ssl lib)" st_in st_out for lib
proof unfold_locales
  fix h :: stream and n :: nat
  assume a: "st_in h \<noteq> []" "0 < n" "n < 2 ^ 31"
  have k: "0 < next_cut n (st_cuts h)" "next_cut n (st_cuts h) \<le> n" using next_cut_bounds a(2) by auto
  then show "\<exists>d h'. rt_receive (tls_rats (stream_ssl lib)) n h = (0, d, h') \<and> d \<noteq> [] \<and> length d \<le> n \<and>
      st_in h = d @ st_in h' \<and> st_out h' = st_out h"
    using a int_of_size_small [OF a(3)] by (simp add: ssl_receive_def stream_ssl_def stream_receive_def Let_def)
next
  fix bs :: bytes and h :: stream
  assume a: "bs \<noteq> []" "length bs < 2 ^ 31"
  have k: "0 < next_cut (length bs) (st_cuts h)" "next_cut (length bs) (st_cuts h) \<le> length bs" using next_cut_bounds a(1) by auto
  then show "\<exists>n h'. rt_transmit (tls_rats (stream_ssl lib)) bs h = (0, n, h') \<and> 0 < n \<and> n \<le> length bs \<and>
      st_out h' = st_out h @ take n bs \<and> st_in h' = st_in h"
    using a int_of_size_small [OF a(2)] by (simp add: ssl_transmit_def stream_ssl_def stream_transmit_def Let_def)
qed

text \<open>
  C24. Between two hosts a frame arrives as it was sent: over a TLS session that moves arbitrary parts of
  what it is asked to, the send half is sent as one frame and cleared, and the other end, with room for
  the frame, appends exactly those bytes to its receive half, leaves the stream behind the frame, and
  goes on with the status that no request was needed.
\<close>
theorem host_frame_transfer:
  assumes "queue_wf q" "unat (send_offset q) \<le> QUEUE_SIZE - 8" "st_in (io_tls s) = frame_of q @ rest"
    and "queue_wf (io_queue s)" "unat (recv_offset (io_queue s)) + unat (send_offset q) < QUEUE_SIZE"
    and "malloc_ok (unat (send_offset q))"
    and "\<not> (12 \<le> unat (send_offset q) \<and> take 12 (send_buf q) = bytes_of_string ''CLOSE_NOTIFY'')"
  shows "(\<exists>q' h'. host_send_queue_data (stream_ssl lib) q h = Some (0, q', h') \<and> st_out h' = st_out h @ frame_of q \<and>
      send_offset q' = 0 \<and>
      send_buf q' = replicate (unat (send_offset q)) 0 @ drop (unat (send_offset q)) (send_buf q)) \<and>
    (\<exists>s'. host_handle_recv_event malloc_ok (stream_ssl lib') ioc f ops guest tid s = Some (TSI_INCOMPLETE, s') \<and>
      st_in (io_tls s') = rest \<and> appended (take (unat (send_offset q)) (send_buf q)) (io_queue s) (io_queue s'))"
proof -
  have "int_of_status TSI_INCOMPLETE = TSI_INCOMPLETE" by (simp add: int_of_status_def)
  then show ?thesis
    using tls_stream.send_queue_data_all [OF assms(1), of lib h] assms(2)
      tls_stream.handle_recv_event_frame [where malloc_ok = malloc_ok and lib = lib' and ops = "host_ops ioc f ops"
        and guest = guest and tid = tid, OF assms]
    unfolding host_send_queue_data_def host_handle_recv_event_def by fastforce
qed

definition demo_stream_ssl :: "(unit, stream) openssl" where
  "demo_stream_ssl = \<lparr>ssl_ctx_new = (\<lambda>_. None), use_certificate_file = (\<lambda>_ c. (0, c)), use_private_key_file = (\<lambda>_ c. (0, c)),
     load_verify_locations = (\<lambda>_ c. (0, c)), set_verify = (\<lambda>_ c. c), ssl_new = (\<lambda>_. None), ssl_handshake = (\<lambda>_ _ s. (0, s)),
     ssl_read = (\<lambda>_ s. (Inl 0, s)), ssl_write = (\<lambda>_ _ s. (0, s))\<rparr>"

theorem host_frame_transfer_witness:
  "\<exists>s'. host_handle_recv_event (\<lambda>_. True) (stream_ssl demo_stream_ssl) (\<lambda>_ c w. (0, c, w)) 5 demo_ops 7 0 demo_io_state =
      Some (TSI_INCOMPLETE, s') \<and>
    st_in (io_tls s') = [9] \<and> appended (take (unat (send_offset demo_queue)) (send_buf demo_queue)) zero_queue (io_queue s')"
  using host_frame_transfer [of demo_queue demo_io_state "[9]" "\<lambda>_. True" demo_stream_ssl "io_tls demo_io_state"
      demo_stream_ssl "\<lambda>_ c w. (0, c, w)" 5 demo_ops 7 0]
  by (simp add: demo_queue_facts)


section \<open>Errors of the thread\<close>

text \<open>
  A request that fails without a return value counts as success: the result of the call is not looked at,
  and the return value is zero, so the source ends the check as if it had succeeded.
\<close>

lemma failed_request_is_success:
  assumes "\<And>cmd. ioc f cmd (io_world s) = (-1, cmd\<lparr>cmd_ret_val := 0\<rparr>, io_world s)" "\<not> hs_is_server params"
  shows "host_io_loop malloc_ok lib ioc f ops clock params tid ctx s = Some (ctx, snd (host_send_close_notification lib s))"
  by (subst host_io_loop.simps)
    (simp add: host_checksum_def virtcca_tmi_ioctl_def assms io_ends_def)

text \<open>
  A helper asks the monitor once: after the first request the kernel accepted, its variable is zero and
  every later wake-up passes without a request, although the status was not final. When the variable
  happens to start as zero the helper never asks at all.
\<close>

lemma host_slave_idle: "host_slave_wake 0 ans = (0, False, ans)"
  by (cases ans) auto

lemma host_slave_asks_once:
  assumes "v \<noteq> 1" "v \<noteq> 4" "ret \<noteq> 0"
  shows "host_slave_wakes (Suc n) ret ((0, v) # ans) = (0, False, ans)"
proof -
  have "host_slave_wakes n 0 ans = (0, False, ans)" by (induction n) (simp_all add: host_slave_idle)
  then show ?thesis using assms by (simp add: host_slave_idle)
qed

text \<open>When the set-up fails before the context is created, the clean-up frees an uninitialised pointer.\<close>

lemma early_failure_frees_unset:
  assumes "sys_open_dev sys < 0 \<or> sys_create_queue sys < 0 \<or> sys_map_send sys = None \<or> sys_map_recv sys = None"
  shows "host_io_thread malloc_ok lib ioc ops clock sys (Some p) s = None"
  using assms
  by (auto simp: host_io_thread_def host_io_setup_def host_start_vars_def host_cleanup_resources_def Let_def
      split: option.splits bind_splits)

text \<open>The arguments of a client have no second socket, which the clean-up takes for descriptor 0 and closes.\<close>

lemma client_closes_descriptor_0:
  assumes "host_io_thread malloc_ok lib ioc ops clock sys (Some (io_params args rd sock 0 False)) s = Some (ls, rel, s')"
  shows "Close 0 \<in> set rel"
  using assms
  by (auto simp: host_io_thread_def host_cleanup_resources_def cleanup_client_def io_params_def split: prod.splits bind_splits)

end
