(* ===== verification/Image_Key.thy ===== *)
theory Image_Key
  imports Prelude
begin

text \<open>
  The image key SDK, \<open>image_key/sdk/src/image_key.c\<close>: a key of 32 bytes that the device derives, from
  parameters of the user or without. The device is a parameter: what \<open>open\<close> returns and what the request
  does to its argument. A \<open>NULL\<close> pointer is \<^term>\<open>None\<close>; the key buffer is returned as it is afterwards.
\<close>

abbreviation (input) IMAGE_KEY_LEN :: nat where "IMAGE_KEY_LEN \<equiv> 32"
abbreviation (input) USER_PARAM_LEN :: nat where "USER_PARAM_LEN \<equiv> 64"
abbreviation (input) HMAC_SHA256 :: int where "HMAC_SHA256 \<equiv> 0"

record image_key_params =
  ik_alg :: u32
  ik_user_param :: bytes
  ik_user_param_len :: u32
  ik_image_key :: bytes

definition zero_image_key_params :: image_key_params where
  "zero_image_key_params = \<lparr>ik_alg = 0, ik_user_param = replicate USER_PARAM_LEN 0, ik_user_param_len = 0,
     ik_image_key = replicate IMAGE_KEY_LEN 0\<rparr>"

definition get_image_key ::
    "int \<Rightarrow> (image_key_params \<Rightarrow> int \<times> image_key_params) \<Rightarrow> int \<Rightarrow> bytes option \<Rightarrow> u32 \<Rightarrow> bytes option \<Rightarrow> u32
     \<Rightarrow> (int \<times> bytes option) option" where
  "get_image_key fd ioctl alg user_param user_param_len image_key key_len =
     (if user_param \<noteq> None \<and> user_param_len \<noteq> of_nat USER_PARAM_LEN then Some (-1, image_key)
      else case image_key of
          None \<Rightarrow> Some (-1, None)
        | Some buf \<Rightarrow>
            if key_len < of_nat IMAGE_KEY_LEN then Some (-1, Some buf)
            else if alg \<noteq> HMAC_SHA256 then Some (-1, Some buf)
            else do {
              let args = zero_image_key_params\<lparr>ik_alg := of_int alg\<rparr>;
              args \<leftarrow> (case user_param of
                 None \<Rightarrow> Some args
               | Some p \<Rightarrow> do {
                   d \<leftarrow> mem_read p 0 (unat user_param_len);
                   u \<leftarrow> mem_write (ik_user_param args) 0 d;
                   Some (args\<lparr>ik_user_param := u, ik_user_param_len := user_param_len\<rparr>)
                 });
              if fd < 0 then Some (-1, Some buf)
              else
                let (rc, args) = ioctl args in
                if rc \<noteq> 0 then Some (-1, Some buf)
                else do {
                  k \<leftarrow> mem_read (ik_image_key args) 0 IMAGE_KEY_LEN;
                  buf \<leftarrow> mem_write buf 0 k;
                  Some (0, Some buf)
                }
            })"

text \<open>
  With arguments of the documented sizes the function is defined, whatever the device answers. It succeeds
  exactly when the device does; the buffer then starts with the key the device derived from exactly the
  parameters given, and is as it was otherwise.
\<close>

lemma get_image_key_behaviour:
  assumes "\<And>a. length (ik_image_key (snd (ioctl a))) = IMAGE_KEY_LEN" "length buf = unat key_len" "of_nat IMAGE_KEY_LEN \<le> key_len"
    and "case param of None \<Rightarrow> len = 0 | Some p \<Rightarrow> length p = USER_PARAM_LEN \<and> len = of_nat USER_PARAM_LEN"
  defines "args \<equiv> zero_image_key_params\<lparr>ik_user_param := case_option (replicate USER_PARAM_LEN 0) (\<lambda>p. p) param, ik_user_param_len := len\<rparr>"
  shows "get_image_key fd ioctl HMAC_SHA256 param len (Some buf) key_len =
    (if fd < 0 \<or> fst (ioctl args) \<noteq> 0 then Some (-1, Some buf)
     else Some (0, Some (ik_image_key (snd (ioctl args)) @ drop IMAGE_KEY_LEN buf)))"
proof -
  have "IMAGE_KEY_LEN \<le> length buf" using assms(2,3) by (simp add: word_le_nat_alt)
  moreover have "\<not> key_len < of_nat IMAGE_KEY_LEN" using assms(3) by (simp add: not_less)
  moreover have "args = zero_image_key_params" if "param = None"
    using that assms(4) unfolding args_def zero_image_key_params_def by simp
  ultimately show ?thesis
    using assms(1) [of args] assms(4)
    by (cases param)
      (simp_all add: get_image_key_def args_def zero_image_key_params_def mem_read_def mem_write_def Let_def case_prod_beta)
qed

text \<open>Every other call is refused, and the buffer is left alone.\<close>

lemma get_image_key_refuses:
  assumes "param \<noteq> None \<and> len \<noteq> of_nat USER_PARAM_LEN \<or> buf = None \<or> key_len < of_nat IMAGE_KEY_LEN \<or> alg \<noteq> HMAC_SHA256"
  shows "get_image_key fd ioctl alg param len buf key_len = Some (-1, buf)"
  using assms by (auto simp: get_image_key_def split: option.splits)

end
