(* ===== verification/Measure_Pe.thy ===== *)
theory Measure_Pe
  imports Utils "HOL-Library.Multiset"
begin

text \<open>
  The measurement of a PE image, \<open>cvm-image-rewriter/measure_pe.c\<close>: the reference value for a boot
  loader or kernel as the firmware measures it, a SHA-256 over the image without its checksum, the
  entry of the certificate table and the certificates behind the image.

  The image is the buffer of the file; a pointer into it is an offset, and an access outside the
  buffer is \<^term>\<open>None\<close>. The program itself checks no offset. OpenSSL is the argument \<open>md\<close>, and a
  running hash is the data given to it so far.
\<close>

section \<open>The headers\<close>

abbreviation (input) EFI_SUCCESS :: u64 where "EFI_SUCCESS \<equiv> 0"
abbreviation (input) EFI_UNSUPPORTED :: u64 where "EFI_UNSUPPORTED \<equiv> 2"
abbreviation (input) EFI_OUT_OF_RESOURCES :: u64 where "EFI_OUT_OF_RESOURCES \<equiv> 9"

definition field16 :: "bytes \<Rightarrow> nat \<Rightarrow> nat option" where
  "field16 img off = map_option le_nat (mem_read img off 2)"

definition field32 :: "bytes \<Rightarrow> nat \<Rightarrow> nat option" where
  "field32 img off = map_option le_nat (mem_read img off 4)"

text \<open>\<open>e_magic\<close> and \<open>e_lfanew\<close> of the DOS header; the members of the file header at \<open>pe\<close>, behind the signature.\<close>

definition e_magic :: "bytes \<Rightarrow> nat option" where "e_magic img = field16 img 0"
definition e_lfanew :: "bytes \<Rightarrow> nat option" where "e_lfanew img = field32 img 60"
definition nt_signature :: "bytes \<Rightarrow> nat \<Rightarrow> nat option" where "nt_signature img pe = field32 img pe"
definition number_of_sections :: "bytes \<Rightarrow> nat \<Rightarrow> nat option" where "number_of_sections img pe = field16 img (pe + 6)"
definition size_of_optional_header :: "bytes \<Rightarrow> nat \<Rightarrow> nat option" where
  "size_of_optional_header img pe = field16 img (pe + 20)"

text \<open>
  The optional header starts 24 bytes behind the signature. The two formats agree up to the checksum
  and differ in the width of five members.
\<close>

definition is_pe32 :: "bytes \<Rightarrow> nat \<Rightarrow> bool option" where
  "is_pe32 img pe = map_option (\<lambda>m. m = 0x10b) (field16 img (pe + 24))"

definition checksum_off :: "nat \<Rightarrow> nat" where "checksum_off pe = pe + 24 + 64"

definition size_of_headers :: "bytes \<Rightarrow> nat \<Rightarrow> nat option" where
  "size_of_headers img pe = field32 img (pe + 24 + 60)"

definition number_of_rva_and_sizes :: "bool \<Rightarrow> bytes \<Rightarrow> nat \<Rightarrow> nat option" where
  "number_of_rva_and_sizes pe32 img pe = field32 img (pe + 24 + (if pe32 then 92 else 108))"

definition security_off :: "bool \<Rightarrow> nat \<Rightarrow> nat" where
  "security_off pe32 pe = pe + 24 + (if pe32 then 96 else 112) + 4 * 8"

definition security_size :: "bool \<Rightarrow> bytes \<Rightarrow> nat \<Rightarrow> nat option" where
  "security_size pe32 img pe = field32 img (security_off pe32 pe + 4)"

record efi_image_section_header =
  sec_name :: bytes
  virtual_size :: nat
  virtual_address :: nat
  size_of_raw_data :: nat
  pointer_to_raw_data :: nat
  pointer_to_relocations :: nat
  pointer_to_linenumbers :: nat
  number_of_relocations :: nat
  number_of_linenumbers :: nat
  characteristics :: nat

definition section_of_bytes :: "bytes \<Rightarrow> efi_image_section_header" where
  "section_of_bytes b =
     (let w = (\<lambda>off n. le_nat (take n (drop off b))) in
      \<lparr>sec_name = take 8 b, virtual_size = w 8 4, virtual_address = w 12 4, size_of_raw_data = w 16 4,
       pointer_to_raw_data = w 20 4, pointer_to_relocations = w 24 4, pointer_to_linenumbers = w 28 4,
       number_of_relocations = w 32 2, number_of_linenumbers = w 34 2, characteristics = w 36 4\<rparr>)"


section \<open>The hash\<close>

record evp_md =
  md_new :: bool
  md_init :: bool
  md_update :: "bytes \<Rightarrow> bytes \<Rightarrow> bool"
  md_final :: "bytes \<Rightarrow> bytes option"

definition hash_start :: "(nat \<Rightarrow> bool) \<Rightarrow> evp_md \<Rightarrow> u64 \<times> bytes option" where
  "hash_start malloc_ok md =
     (if \<not> malloc_ok 8 then (EFI_OUT_OF_RESOURCES, None)
      else if \<not> md_new md then (EFI_OUT_OF_RESOURCES, None)
      else if \<not> md_init md then (EFI_UNSUPPORTED, None)
      else (EFI_SUCCESS, Some []))"

definition hash_update :: "evp_md \<Rightarrow> bytes \<Rightarrow> nat \<Rightarrow> nat \<Rightarrow> bytes \<Rightarrow> (u64 \<times> bytes) option" where
  "hash_update md img off n h = do {
     d \<leftarrow> mem_read img off n;
     Some (if md_update md h d then (EFI_SUCCESS, h @ d) else (EFI_UNSUPPORTED, h))
   }"

text \<open>The digest is written only on success.\<close>

definition hash_complete_and_extend :: "evp_md \<Rightarrow> bytes \<Rightarrow> u64 \<times> bytes option" where
  "hash_complete_and_extend md h =
     (case md_final md h of
        None \<Rightarrow> (EFI_UNSUPPORTED, None)
      | Some d \<Rightarrow> if length d \<noteq> 32 then (EFI_UNSUPPORTED, None) else (EFI_SUCCESS, Some d))"


section \<open>The measurement\<close>

definition parse_pe_headers :: "bytes \<Rightarrow> (u64 \<times> nat) option" where
  "parse_pe_headers img = do {
     m \<leftarrow> e_magic img;
     pe \<leftarrow> (if m = 0x5A4D then e_lfanew img else Some 0);
     s \<leftarrow> nt_signature img pe;
     Some (if s \<noteq> 0x4550 then EFI_UNSUPPORTED else EFI_SUCCESS, pe)
   }"

text \<open>A part of the header is hashed unless it is empty; its size is a difference of \<open>size_t\<close>.\<close>

definition hash_part :: "evp_md \<Rightarrow> bytes \<Rightarrow> nat \<Rightarrow> nat \<Rightarrow> bytes \<Rightarrow> (u64 \<times> bytes) option" where
  "hash_part md img off n h = (if n > 0 then hash_update md img off n h else Some (EFI_SUCCESS, h))"

definition hash_optional_header_part :: "evp_md \<Rightarrow> bytes \<Rightarrow> nat \<Rightarrow> bytes \<Rightarrow> nat \<Rightarrow> (u64 \<times> bytes \<times> nat) option" where
  "hash_optional_header_part md img pe h sum_hashed = do {
     pe32 \<leftarrow> is_pe32 img pe;
     n \<leftarrow> number_of_rva_and_sizes pe32 img pe;
     (status, h) \<leftarrow> hash_update md img 0 (checksum_off pe) h;
     if status \<noteq> EFI_SUCCESS then Some (status, h, sum_hashed)
     else do {
       let post_checksum = checksum_off pe + 4;
       header_size \<leftarrow> size_of_headers img pe;
       if n \<le> 4 then do {
         (status, h) \<leftarrow> hash_part md img post_checksum (size_sub header_size post_checksum) h;
         Some (status, h, header_size)
       }
       else do {
         (status, h) \<leftarrow> hash_part md img post_checksum (size_sub (security_off pe32 pe) post_checksum) h;
         if status \<noteq> EFI_SUCCESS then Some (status, h, sum_hashed)
         else do {
           let post_security = security_off pe32 pe + 8;
           (status, h) \<leftarrow> hash_part md img post_security (size_sub header_size post_security) h;
           Some (status, h, header_size)
         }
       }
     }
   }"

text \<open>The inner loop of the insertion sort, from index \<open>j\<close> down.\<close>

fun sift_down :: "efi_image_section_header list \<Rightarrow> nat \<Rightarrow> efi_image_section_header \<Rightarrow> efi_image_section_header list" where
  "sift_down xs 0 temp = xs[0 := temp]"
| "sift_down xs (Suc j) temp =
     (if pointer_to_raw_data (xs ! j) > pointer_to_raw_data temp then sift_down (xs[Suc j := xs ! j]) j temp
      else xs[Suc j := temp])"

definition sort_sections :: "efi_image_section_header list \<Rightarrow> efi_image_section_header list" where
  "sort_sections xs = fold (\<lambda>i xs. sift_down xs i (xs ! i)) [1..<length xs] xs"

definition section_table :: "bytes \<Rightarrow> nat \<Rightarrow> efi_image_section_header list" where
  "section_table b n = map (\<lambda>i. section_of_bytes (take 40 (drop (40 * i) b))) [0..<n]"

definition copy_and_sort_sections ::
    "(nat \<Rightarrow> bool) \<Rightarrow> bytes \<Rightarrow> nat \<Rightarrow> (u64 \<times> efi_image_section_header list) option" where
  "copy_and_sort_sections malloc_ok img pe = do {
     n \<leftarrow> number_of_sections img pe;
     if \<not> malloc_ok (n * 40) then Some (EFI_OUT_OF_RESOURCES, [])
     else do {
       soh \<leftarrow> size_of_optional_header img pe;
       b \<leftarrow> mem_read img (pe + 4 + 20 + soh) (n * 40);
       Some (EFI_SUCCESS, sort_sections (section_table b n))
     }
   }"

fun hash_section_data ::
    "evp_md \<Rightarrow> bytes \<Rightarrow> efi_image_section_header list \<Rightarrow> bytes \<Rightarrow> nat \<Rightarrow> (u64 \<times> bytes \<times> nat) option" where
  "hash_section_data md img [] h sum_hashed = Some (EFI_SUCCESS, h, sum_hashed)"
| "hash_section_data md img (s # ss) h sum_hashed =
     (if size_of_raw_data s = 0 then hash_section_data md img ss h sum_hashed
      else do {
        (status, h) \<leftarrow> hash_update md img (pointer_to_raw_data s) (size_of_raw_data s) h;
        if status \<noteq> EFI_SUCCESS then Some (status, h, sum_hashed)
        else hash_section_data md img ss h (size_add sum_hashed (size_of_raw_data s))
      })"

definition process_trailing_data :: "evp_md \<Rightarrow> bytes \<Rightarrow> nat \<Rightarrow> nat \<Rightarrow> bytes \<Rightarrow> (u64 \<times> bytes) option" where
  "process_trailing_data md img pe sum_hashed h = do {
     pe32 \<leftarrow> is_pe32 img pe;
     n \<leftarrow> number_of_rva_and_sizes pe32 img pe;
     cert_size \<leftarrow> (if n > 4 then security_size pe32 img pe else Some 0);
     if length img > size_add sum_hashed cert_size
     then hash_update md img sum_hashed (size_sub (size_sub (length img) sum_hashed) cert_size) h
     else Some (EFI_SUCCESS, h)
   }"

definition measure_pe_image_and_extend :: "(nat \<Rightarrow> bool) \<Rightarrow> evp_md \<Rightarrow> bytes \<Rightarrow> (u64 \<times> bytes option) option" where
  "measure_pe_image_and_extend malloc_ok md img = do {
     (status, pe) \<leftarrow> parse_pe_headers img;
     if status \<noteq> EFI_SUCCESS then Some (status, None)
     else
       case hash_start malloc_ok md of
         (status, None) \<Rightarrow> Some (status, None)
       | (status, Some h) \<Rightarrow> do {
           (status, h, sum_hashed) \<leftarrow> hash_optional_header_part md img pe h 0;
           if status \<noteq> EFI_SUCCESS then Some (status, None)
           else do {
             (status, sections) \<leftarrow> copy_and_sort_sections malloc_ok img pe;
             if status \<noteq> EFI_SUCCESS then Some (status, None)
             else do {
               (status, h, sum_hashed) \<leftarrow> hash_section_data md img sections h sum_hashed;
               if status \<noteq> EFI_SUCCESS then Some (status, None)
               else do {
                 (status, h) \<leftarrow> process_trailing_data md img pe sum_hashed h;
                 if status \<noteq> EFI_SUCCESS then Some (status, None)
                 else Some (hash_complete_and_extend md h)
               }
             }
           }
         }
   }"

text \<open>
  The program: its exit status and what it prints of the measurement. A failed measurement is
  printed with its status, and the exit status is still 0.
\<close>

definition pe_main :: "(nat \<Rightarrow> bool) \<Rightarrow> (string \<Rightarrow> bool) \<Rightarrow> evp_md \<Rightarrow> files \<Rightarrow> string list \<Rightarrow> (int \<times> string) option" where
  "pe_main malloc_ok io_ok md fs argv =
     (case argv of
        _ # filename # _ \<Rightarrow>
          (case fs filename of
             None \<Rightarrow> Some (-1, [])
           | Some img \<Rightarrow>
               if img = [] then Some (-1, ''File size invalid.'')
               else if \<not> malloc_ok (length img) then Some (-1, ''Out of memory.'')
               else if \<not> io_ok filename then Some (-1, ''Read file error.'')
               else do {
                 (status, digest) \<leftarrow> measure_pe_image_and_extend malloc_ok md img;
                 case digest of
                   Some d \<Rightarrow> Some (0, ''Measure PE image succeed, SHA-256 = '' @ hex_string d)
                 | None \<Rightarrow> Some (0, ''Measure PE image failed, EFI_STATUS = '' @ printf_nat (unat status))
               })
      | _ \<Rightarrow> Some (-1, ''Usage''))"


section \<open>Sorting\<close>

text \<open>One pass of the outer loop moves an element in front of the larger ones.\<close>

lemma sift_down_block:
  assumes "\<forall>y \<in> set b. pointer_to_raw_data y > pointer_to_raw_data t"
    and "a = [] \<or> pointer_to_raw_data (last a) \<le> pointer_to_raw_data t"
  shows "sift_down (a @ b @ x # post) (length a + length b) t = a @ t # b @ post"
  using assms(1)
proof (induction b arbitrary: x post rule: rev_induct)
  case Nil
  show ?case
  proof (cases a rule: rev_cases)
    case (snoc a' y)
    then show ?thesis using assms(2) by (simp add: nth_append list_update_append)
  qed simp
next
  case (snoc y b)
  then have "sift_down (a @ b @ y # y # post) (length a + length b) t = a @ t # b @ y # post" by simp
  moreover have "(a @ (b @ [y]) @ x # post) ! (length a + length b) = y" by (simp add: nth_append)
  moreover have "(a @ (b @ [y]) @ x # post)[Suc (length a + length b) := y] = a @ b @ y # y # post"
    by (simp add: list_update_append)
  ultimately show ?case using snoc.prems by simp
qed

lemma dropWhile_larger:
  fixes f :: "'a \<Rightarrow> 'b::linorder"
  shows "sorted (map f ys) \<Longrightarrow> y \<in> set (dropWhile (\<lambda>y. f y \<le> c) ys) \<Longrightarrow> c < f y"
  by (induction ys) (auto split: if_splits)

lemma sift_down_sorted:
  assumes "sorted (map pointer_to_raw_data ys)"
  shows "sift_down (ys @ t # post) (length ys) t =
    takeWhile (\<lambda>y. pointer_to_raw_data y \<le> pointer_to_raw_data t) ys @ t #
    dropWhile (\<lambda>y. pointer_to_raw_data y \<le> pointer_to_raw_data t) ys @ post"
proof -
  let ?P = "\<lambda>y. pointer_to_raw_data y \<le> pointer_to_raw_data t"
  let ?a = "takeWhile ?P ys" and ?b = "dropWhile ?P ys"
  have "?a = [] \<or> ?P (last ?a)" by (metis last_in_set set_takeWhileD)
  moreover have "\<forall>y \<in> set ?b. pointer_to_raw_data y > pointer_to_raw_data t"
    using dropWhile_larger [OF assms] by blast
  ultimately have "sift_down (?a @ ?b @ t # post) (length ?a + length ?b) t = ?a @ t # ?b @ post"
    by (intro sift_down_block)
  moreover have "length ?a + length ?b = length ys" by (metis length_append takeWhile_dropWhile_id)
  ultimately show ?thesis by (metis append.assoc takeWhile_dropWhile_id)
qed

lemma sorted_around:
  fixes f :: "'a \<Rightarrow> 'b::linorder"
  assumes "sorted (map f a)" "sorted (map f b)" "\<And>y. y \<in> set a \<Longrightarrow> f y \<le> f t" "\<And>y. y \<in> set b \<Longrightarrow> f t < f y"
  shows "sorted (map f (a @ t # b))"
  using assms by (fastforce simp: sorted_append)

lemma insert_after_sort:
  fixes f :: "'a \<Rightarrow> 'b::linorder"
  assumes "ys = sort_key f zs"
  shows "takeWhile (\<lambda>y. f y \<le> f t) ys @ t # dropWhile (\<lambda>y. f y \<le> f t) ys = sort_key f (zs @ [t])"
proof (rule properties_for_sort_key [symmetric])
  let ?a = "takeWhile (\<lambda>y. f y \<le> f t) ys" and ?b = "dropWhile (\<lambda>y. f y \<le> f t) ys"
  have ab: "?a @ ?b = ys" by simp
  have s: "sorted (map f ys)" using assms by simp
  have b: "f t < f y" if "y \<in> set ?b" for y
    using dropWhile_larger [OF s that] .
  have a: "f y \<le> f t" if "y \<in> set ?a" for y using that by (rule set_takeWhileD [THEN conjunct2])
  show "mset (?a @ t # ?b) = mset (zs @ [t])"
  proof -
    have "mset ?a + mset ?b = mset ys" by (metis ab mset_append)
    then show ?thesis using assms by simp
  qed
  show "sorted (map f (?a @ t # ?b))"
    using s ab a b by (intro sorted_around) (metis map_append sorted_append)+
  show "filter (\<lambda>x. f k = f x) (?a @ t # ?b) = filter (\<lambda>x. f k = f x) (zs @ [t])" if "k \<in> set (?a @ t # ?b)" for k
  proof -
    have "filter (\<lambda>x. f k = f x) ys = filter (\<lambda>x. f k = f x) zs"
      unfolding assms eq_commute [of "f k"] by (rule sort_key_stable)
    moreover have "filter (\<lambda>x. f k = f x) ?b = []" if "f k = f t"
      by (intro filter_False ballI) (use b that in force)
    moreover have "filter (\<lambda>x. f k = f x) ys = filter (\<lambda>x. f k = f x) ?a @ filter (\<lambda>x. f k = f x) ?b"
      by (metis ab filter_append)
    ultimately show ?thesis by (cases "f k = f t") simp_all
  qed
qed

lemma sort_sections_prefix:
  assumes "1 \<le> k" "k \<le> length xs"
  shows "fold (\<lambda>i xs. sift_down xs i (xs ! i)) [1..<k] xs = sort_key pointer_to_raw_data (take k xs) @ drop k xs"
  using assms
proof (induction k rule: dec_induct)
  case base
  then show ?case by (cases xs) simp_all
next
  case (step k)
  let ?ys = "sort_key pointer_to_raw_data (take k xs)"
  have l: "length ?ys = k" "drop k xs = xs ! k # drop (Suc k) xs" "take (Suc k) xs = take k xs @ [xs ! k]"
    using step by (simp_all add: Cons_nth_drop_Suc take_Suc_conv_app_nth)
  have "fold (\<lambda>i xs. sift_down xs i (xs ! i)) [1..<Suc k] xs = sift_down (?ys @ xs ! k # drop (Suc k) xs) k (xs ! k)"
    using step l by (simp add: nth_append)
  also have "\<dots> = sort_key pointer_to_raw_data (take k xs @ [xs ! k]) @ drop (Suc k) xs"
    using sift_down_sorted [of ?ys "xs ! k" "drop (Suc k) xs"] insert_after_sort [OF refl, where f = pointer_to_raw_data and zs = "take k xs" and t = "xs ! k"] l(1)
    by (metis append.assoc append_Cons sorted_sort_key)
  finally show ?case by (simp only: l(3))
qed

text \<open>The loops sort the table by position in the file and keep the order of equal positions.\<close>

lemma sort_sections_eq: "sort_sections xs = sort_key pointer_to_raw_data xs"
proof (cases xs)
  case (Cons x xs')
  then show ?thesis using sort_sections_prefix [of "length xs" xs] by (simp add: sort_sections_def)
qed (simp add: sort_sections_def)


section \<open>What is measured\<close>

definition part :: "bytes \<Rightarrow> nat \<Rightarrow> nat \<Rightarrow> bytes" where
  "part img a b = take (b - a) (drop a img)"

text \<open>Sections that follow each other in the file from \<open>a\<close> to \<open>e\<close>; empty ones may point anywhere.\<close>

fun tiles :: "nat \<Rightarrow> efi_image_section_header list \<Rightarrow> nat \<Rightarrow> bool" where
  "tiles a [] e \<longleftrightarrow> a = e"
| "tiles a (s # ss) e \<longleftrightarrow>
     (if size_of_raw_data s = 0 then tiles a ss e
      else pointer_to_raw_data s = a \<and> tiles (a + size_of_raw_data s) ss e)"

text \<open>
  A well-formed image with a certificate entry: the headers of \<open>hs\<close> bytes hold the entry, the
  sections, listed in any order, fill the file from the headers on up to \<open>e\<close>, and the certificates
  of \<open>cert\<close> bytes are at the end, possibly behind other data.
\<close>

definition pe_layout :: "bytes \<Rightarrow> nat \<Rightarrow> bool \<Rightarrow> nat \<Rightarrow> nat \<Rightarrow> bool" where
  "pe_layout img pe pe32 hs cert \<longleftrightarrow>
     length img < 2 ^ 64 \<and> parse_pe_headers img = Some (EFI_SUCCESS, pe) \<and> is_pe32 img pe = Some pe32 \<and>
     (case number_of_rva_and_sizes pe32 img pe of None \<Rightarrow> False | Some n \<Rightarrow> n > 4) \<and>
     size_of_headers img pe = Some hs \<and> security_off pe32 pe + 8 \<le> hs \<and> security_size pe32 img pe = Some cert \<and>
     (case (number_of_sections img pe, size_of_optional_header img pe) of
        (Some k, Some soh) \<Rightarrow>
          (case mem_read img (pe + 24 + soh) (k * 40) of
             None \<Rightarrow> False
           | Some b \<Rightarrow> list_ex (\<lambda>e. tiles hs (sort_key pointer_to_raw_data (section_table b k)) e) [hs..<Suc (length img - cert)])
      | _ \<Rightarrow> False) \<and>
     hs + cert \<le> length img"

definition md_ok :: "(bytes \<Rightarrow> bytes) \<Rightarrow> evp_md \<Rightarrow> bool" where
  "md_ok H md \<longleftrightarrow> md_new md \<and> md_init md \<and> (\<forall>h d. md_update md h d) \<and> (\<forall>h. md_final md h = Some (H h) \<and> length (H h) = 32)"

lemma hash_update_part:
  assumes "md_ok H md" "a \<le> b" "b \<le> length img"
  shows "hash_update md img a (b - a) h = Some (0, h @ part img a b)"
  using assms by (simp add: hash_update_def md_ok_def mem_read_def part_def)

lemma hash_part_part:
  assumes "md_ok H md" "a \<le> b" "b \<le> length img" "length img < 2 ^ 64"
  shows "hash_part md img a (size_sub b a) h = Some (0, h @ part img a b)"
proof -
  have "size_sub b a = b - a" using assms by simp
  then show ?thesis using hash_update_part [OF assms(1,2,3), of h] assms(2)
    by (auto simp: hash_part_def part_def)
qed

lemma part_append: "a \<le> b \<Longrightarrow> b \<le> c \<Longrightarrow> c \<le> length img \<Longrightarrow> part img a b @ part img b c = part img a c"
proof -
  assume "a \<le> b" "b \<le> c" "c \<le> length img"
  then have "c - a = (b - a) + (c - b)" "drop b img = drop (b - a) (drop a img)" by simp_all
  then show ?thesis unfolding part_def by (metis take_add)
qed

lemma hash_sections_tiles:
  assumes "md_ok H md" "tiles a ss e" "e \<le> length img" "length img < 2 ^ 64"
  shows "a \<le> e \<and> hash_section_data md img ss h a = Some (0, h @ part img a e, e)"
  using assms(2)
proof (induction ss arbitrary: a h)
  case Nil
  then show ?case by (simp add: part_def)
next
  case (Cons s ss)
  show ?case
  proof (cases "size_of_raw_data s = 0")
    case True
    then show ?thesis using Cons by simp
  next
    case False
    let ?b = "a + size_of_raw_data s"
    have t: "pointer_to_raw_data s = a" "tiles ?b ss e" using Cons.prems False by simp_all
    have b: "?b \<le> e" using Cons.IH [OF t(2)] by simp
    have "hash_update md img a (size_of_raw_data s) h = Some (0, h @ part img a ?b)"
      using hash_update_part [OF assms(1), of a ?b img h] b assms(3) by simp
    moreover have "size_add a (size_of_raw_data s) = ?b" using b assms(3,4) by simp
    ultimately show ?thesis
      using Cons.IH [OF t(2), of "h @ part img a ?b"] t False b part_append [of a ?b e img] assms(3) by simp
  qed
qed

lemma hash_header_part:
  assumes "md_ok H md" "pe_layout img pe pe32 hs cert"
  shows "hash_optional_header_part md img pe [] 0 =
    Some (0, part img 0 (checksum_off pe) @ part img (checksum_off pe + 4) (security_off pe32 pe) @
             part img (security_off pe32 pe + 8) hs, hs)"
proof -
  obtain n where l: "length img < 2 ^ 64" "is_pe32 img pe = Some pe32" "number_of_rva_and_sizes pe32 img pe = Some n" "n > 4"
    "size_of_headers img pe = Some hs" "security_off pe32 pe + 8 \<le> hs" "hs \<le> length img"
    using assms(2) by (auto simp: pe_layout_def split: option.splits)
  have o: "checksum_off pe + 4 \<le> security_off pe32 pe" by (simp add: checksum_off_def security_off_def)
  have "hash_update md img 0 (checksum_off pe) [] = Some (0, part img 0 (checksum_off pe))"
    using hash_update_part [OF assms(1), of 0 "checksum_off pe" img "[]"] l(6,7) o by simp
  moreover have "hash_part md img (checksum_off pe + 4) (size_sub (security_off pe32 pe) (checksum_off pe + 4)) h =
      Some (0, h @ part img (checksum_off pe + 4) (security_off pe32 pe))" for h
    using hash_part_part [OF assms(1) o] l(1,6,7) by simp
  moreover have "hash_part md img (security_off pe32 pe + 8) (size_sub hs (security_off pe32 pe + 8)) h =
      Some (0, h @ part img (security_off pe32 pe + 8) hs)" for h
    using hash_part_part [OF assms(1) l(6,7,1)] .
  ultimately show ?thesis using l(2-5) by (simp add: hash_optional_header_part_def Let_def)
qed

lemma trailing_part:
  assumes "md_ok H md" "pe_layout img pe pe32 hs cert" "e + cert \<le> length img"
  shows "process_trailing_data md img pe e h = Some (0, h @ part img e (length img - cert))"
proof -
  obtain n where l: "length img < 2 ^ 64" "is_pe32 img pe = Some pe32" "number_of_rva_and_sizes pe32 img pe = Some n" "n > 4"
    "security_size pe32 img pe = Some cert"
    using assms(2) by (auto simp: pe_layout_def split: option.splits)
  have "size_add e cert = e + cert" "size_sub (size_sub (length img) e) cert = length img - cert - e"
    using assms(3) l(1) by simp_all
  then show ?thesis
    using l(2-5) hash_update_part [OF assms(1), of e "length img - cert" img h] assms(3)
    by (auto simp: process_trailing_data_def part_def)
qed

text \<open>
  C28. On a well-formed image, whatever the order of its section table and in both formats, the
  program computes the SHA-256 of exactly the file without three parts: the four bytes of the
  checksum, the eight bytes of the entry of the certificate table, and the certificates at the end.
\<close>

theorem pe_digest_covers_image:
  assumes "pe_layout img pe pe32 hs cert" "md_ok H md" "\<And>n. malloc_ok n"
  shows "measure_pe_image_and_extend malloc_ok md img =
    Some (EFI_SUCCESS, Some (H (part img 0 (checksum_off pe) @ part img (checksum_off pe + 4) (security_off pe32 pe) @
       part img (security_off pe32 pe + 8) (length img - cert))))"
proof -
  obtain k soh b e where l: "length img < 2 ^ 64" "parse_pe_headers img = Some (EFI_SUCCESS, pe)"
    "number_of_sections img pe = Some k" "size_of_optional_header img pe = Some soh" "mem_read img (pe + 24 + soh) (k * 40) = Some b"
    "tiles hs (sort_key pointer_to_raw_data (section_table b k)) e" "hs \<le> e" "e \<le> length img - cert" "hs + cert \<le> length img"
    "security_off pe32 pe + 8 \<le> hs"
    using assms(1) by (auto simp: pe_layout_def list_ex_iff split: option.splits)
  let ?ss = "sort_key pointer_to_raw_data (section_table b k)"
  have c: "copy_and_sort_sections malloc_ok img pe = Some (EFI_SUCCESS, ?ss)"
    using l(3-5) assms(3) by (simp add: copy_and_sort_sections_def sort_sections_eq add.assoc)
  have d: "hash_section_data md img ?ss h hs = Some (0, h @ part img hs e, e)" for h
    using hash_sections_tiles [OF assms(2) l(6) _ l(1)] l(8) by simp
  have t: "process_trailing_data md img pe e h = Some (0, h @ part img e (length img - cert))" for h
    using trailing_part [OF assms(2,1)] l(8,9) by simp
  have p: "part img (security_off pe32 pe + 8) hs @ part img hs e @ part img e (length img - cert) =
      part img (security_off pe32 pe + 8) (length img - cert)"
    using l(7-10) by (simp add: part_append)
  have "hash_start malloc_ok md = (EFI_SUCCESS, Some [])" using assms(2,3) by (simp add: hash_start_def md_ok_def)
  then show ?thesis
    using l(2) c d t hash_header_part [OF assms(2,1)] assms(2) p
    by (simp add: measure_pe_image_and_extend_def hash_complete_and_extend_def md_ok_def)
qed

text \<open>An image of two sections, listed in the wrong order, with a certificate of four bytes.\<close>

definition demo_section :: "nat \<Rightarrow> nat \<Rightarrow> bytes" where
  "demo_section n ptr = replicate 16 0 @ le_bytes 4 n @ le_bytes 4 ptr @ replicate 16 0"

definition demo_pe :: bytes where
  "demo_pe = le_bytes 4 0x4550 @ replicate 2 0 @ le_bytes 2 2 @ replicate 12 0 @ le_bytes 2 136 @ replicate 2 0 @
     le_bytes 2 0x10b @ replicate 58 0 @ le_bytes 4 240 @ replicate 4 9 @ replicate 24 0 @ le_bytes 4 16 @ replicate 32 0 @
     le_bytes 4 256 @ le_bytes 4 4 @
     demo_section 8 248 @ demo_section 8 240 @ replicate 8 1 @ replicate 8 2 @ replicate 4 3"

definition toy_md :: evp_md where
  "toy_md = \<lparr>md_new = True, md_init = True, md_update = (\<lambda>_ _. True),
     md_final = (\<lambda>h. Some (take 32 (h @ replicate 32 0)))\<rparr>"

lemma take_le_bytes: "take k (le_bytes (k + m) n) = le_bytes k n"
  by (induction k arbitrary: n) simp_all

lemma demo_pe_magic: "e_magic demo_pe = Some 0x4550"
proof -
  have "take 2 demo_pe = take 2 (le_bytes 4 0x4550)" by (simp add: demo_pe_def)
  also have "\<dots> = le_bytes 2 0x4550" using take_le_bytes [of 2 2 "0x4550"] by simp
  finally show ?thesis by (simp add: e_magic_def field16_def mem_read_def demo_pe_def demo_section_def le_nat_le_bytes)
qed

lemma demo_pe_fields:
  "length demo_pe = 260" "nt_signature demo_pe 0 = Some 0x4550" "is_pe32 demo_pe 0 = Some True"
  "number_of_rva_and_sizes True demo_pe 0 = Some 16" "size_of_headers demo_pe 0 = Some 240"
  "security_size True demo_pe 0 = Some 4" "number_of_sections demo_pe 0 = Some 2" "size_of_optional_header demo_pe 0 = Some 136"
  "mem_read demo_pe 160 80 = Some (demo_section 8 248 @ demo_section 8 240)"
  by (simp_all add: demo_pe_def demo_section_def nt_signature_def is_pe32_def
      number_of_rva_and_sizes_def size_of_headers_def security_size_def security_off_def number_of_sections_def
      size_of_optional_header_def field16_def field32_def mem_read_def le_nat_le_bytes)

lemma demo_section_fields:
  "n < 2 ^ 32 \<Longrightarrow> size_of_raw_data (section_of_bytes (demo_section n ptr)) = n"
  "ptr < 2 ^ 32 \<Longrightarrow> pointer_to_raw_data (section_of_bytes (demo_section n ptr)) = ptr"
  by (simp_all add: section_of_bytes_def demo_section_def Let_def le_nat_le_bytes)

lemma demo_sections:
  "section_table (demo_section 8 248 @ demo_section 8 240) 2 =
    [section_of_bytes (demo_section 8 248), section_of_bytes (demo_section 8 240)]"
proof -
  have "[0..<2 :: nat] = [0, 1]" by code_simp
  moreover have "length (demo_section n ptr) = 40" for n ptr by (simp add: demo_section_def)
  ultimately show ?thesis by (simp add: section_table_def)
qed

lemma demo_pe_layout: "pe_layout demo_pe 0 True 240 4"
proof -
  have "tiles 240 (sort_key pointer_to_raw_data (section_table (demo_section 8 248 @ demo_section 8 240) 2)) 256"
    by (simp add: demo_sections demo_section_fields)
  then show ?thesis
    using demo_pe_fields demo_pe_magic
    by (auto simp: pe_layout_def parse_pe_headers_def security_off_def list_ex_iff intro!: bexI [of _ 256])
qed

theorem pe_digest_covers_image_witness:
  "measure_pe_image_and_extend (\<lambda>_. True) toy_md demo_pe =
    Some (EFI_SUCCESS, Some (take 32 (part demo_pe 0 88 @ part demo_pe 92 152 @ part demo_pe 160 256 @ replicate 32 0)))"
proof -
  have "md_ok (\<lambda>h. take 32 (h @ replicate 32 0)) toy_md" by (auto simp: md_ok_def toy_md_def min_def)
  from pe_digest_covers_image [OF demo_pe_layout this, of "\<lambda>_. True"] show ?thesis
    by (simp add: checksum_off_def security_off_def demo_pe_fields(1))
qed


section \<open>Images that are read past their end\<close>

text \<open>
  A header size that ends before the entry of the certificates makes the size of the last part of
  the header wrap around, and the hash reads far behind the buffer.
\<close>

lemma small_headers_overrun:
  assumes "md_ok H md" "is_pe32 img pe = Some pe32" "number_of_rva_and_sizes pe32 img pe = Some n" "n > 4"
    "size_of_headers img pe = Some hs" "hs < security_off pe32 pe + 8" "security_off pe32 pe + 8 \<le> length img" "length img < 2 ^ 63"
  shows "hash_optional_header_part md img pe h sum_hashed = None"
proof -
  let ?p = "security_off pe32 pe + 8"
  have o: "checksum_off pe + 4 \<le> security_off pe32 pe" by (simp add: checksum_off_def security_off_def)
  have "size_sub hs ?p = 2 ^ 64 - (?p - hs)" using assms(6-8) by (simp add: size_sub_def)
  then have "size_sub hs ?p > length img" using assms(6-8) by simp
  then have "hash_part md img ?p (size_sub hs ?p) h' = None" for h'
    by (simp add: hash_part_def hash_update_def mem_read_def)
  moreover have "hash_update md img 0 (checksum_off pe) h' = Some (0, h' @ part img 0 (checksum_off pe))" for h'
    using hash_update_part [OF assms(1), of 0 "checksum_off pe" img h'] assms(7) o by simp
  moreover have "hash_part md img (checksum_off pe + 4) (size_sub (security_off pe32 pe) (checksum_off pe + 4)) h' =
      Some (0, h' @ part img (checksum_off pe + 4) (security_off pe32 pe))" for h'
    using hash_part_part [OF assms(1) o] assms(7,8) by simp
  ultimately show ?thesis using assms(2-5) by (simp add: hash_optional_header_part_def Let_def)
qed

text \<open>A file that ends before the DOS header does.\<close>

lemma truncated_image_overrun:
  "e_magic img = Some 0x5A4D \<Longrightarrow> length img < 64 \<Longrightarrow> measure_pe_image_and_extend malloc_ok md img = None"
  by (simp add: measure_pe_image_and_extend_def parse_pe_headers_def e_lfanew_def field32_def mem_read_def)

end
