(* ===== verification/Socket_Agent.thy ===== *)
theory Socket_Agent
  imports Ima_Measure
begin

text \<open>
  The control channel between the host and the migration agent in the guest,
  \<open>migcvm-agent/src/socket/host_socket_agent.c\<close>: one message of 300 bytes per connection, read and
  written completely, and the payload it carries.

  A connection is a record of what its system calls yield: \<open>v_in\<close> has the results of the calls of
  \<open>read\<close>, where an empty piece or an exhausted list is the end of the stream, and \<open>v_wr\<close> those of the
  calls of \<open>write\<close>, where an exhausted list means that the rest is taken at once. What was written is
  \<open>v_out\<close>.
\<close>

section \<open>Reading and writing completely\<close>

datatype read_result = Got bytes | Read_intr | Read_failed
datatype write_result = Wrote nat | Write_intr | Write_failed

record vsock =
  v_in :: "read_result list"
  v_wr :: "write_result list"
  v_out :: bytes

text \<open>The result of \<open>readn\<close> is \<^term>\<open>None\<close> for \<open>-1\<close> and otherwise what was read.\<close>

fun readn_loop :: "read_result list \<Rightarrow> nat \<Rightarrow> bytes \<Rightarrow> bytes option \<times> read_result list" where
  "readn_loop [] left acc = (Some acc, [])"
| "readn_loop (r # rs) left acc =
     (if left = 0 then (Some acc, r # rs)
      else case r of
          Read_intr \<Rightarrow> readn_loop rs left acc
        | Read_failed \<Rightarrow> (None, rs)
        | Got bs \<Rightarrow>
            if bs = [] then (Some acc, rs)
            else if length bs \<le> left then readn_loop rs (left - length bs) (acc @ bs)
            else (Some (acc @ take left bs), Got (drop left bs) # rs))"

definition readn :: "nat \<Rightarrow> vsock \<Rightarrow> bytes option \<times> vsock" where
  "readn n c =
     (if n = 0 then (Some [], c)
      else let (r, rs) = readn_loop (v_in c) n [] in (r, c\<lparr>v_in := rs\<rparr>))"

fun writen_loop :: "write_result list \<Rightarrow> bytes \<Rightarrow> bytes \<Rightarrow> bool \<times> write_result list \<times> bytes" where
  "writen_loop [] buf acc = (True, [], acc @ buf)"
| "writen_loop (r # rs) buf acc =
     (if buf = [] then (True, r # rs, acc)
      else case r of
          Write_intr \<Rightarrow> writen_loop rs buf acc
        | Write_failed \<Rightarrow> (False, rs, acc)
        | Wrote k \<Rightarrow> writen_loop rs (drop k buf) (acc @ take k buf))"

text \<open>\<^term>\<open>True\<close> when all of the buffer was written, which is when \<open>writen\<close> returns its length.\<close>

definition writen :: "bytes \<Rightarrow> vsock \<Rightarrow> bool \<times> vsock" where
  "writen buf c = (let (ok, ws, outp) = writen_loop (v_wr c) buf (v_out c) in (ok, c\<lparr>v_wr := ws, v_out := outp\<rparr>))"


section \<open>Messages\<close>

abbreviation (input) MAX_PAYLOAD_SIZE :: nat where "MAX_PAYLOAD_SIZE \<equiv> 256"
abbreviation (input) PAYLOAD_TYPE_NONE :: u32 where "PAYLOAD_TYPE_NONE \<equiv> 0"
abbreviation (input) PAYLOAD_TYPE_CHAR :: u32 where "PAYLOAD_TYPE_CHAR \<equiv> 1"
abbreviation (input) PAYLOAD_TYPE_ULL :: u32 where "PAYLOAD_TYPE_ULL \<equiv> 2"
abbreviation (input) VSOCK_MSG_ACK :: u32 where "VSOCK_MSG_ACK \<equiv> 0xb"

record socket_payload =
  char_payload :: bytes
  ull_payload :: u64

record socket_msg =
  msg_payload :: socket_payload
  session_id :: u64
  msg_cmd :: bytes
  payload_type :: u32
  payload_char_len :: u32
  msg_success :: u32

definition zero_payload :: socket_payload where
  "zero_payload = \<lparr>char_payload = replicate MAX_PAYLOAD_SIZE 0, ull_payload = 0\<rparr>"

definition zero_msg :: socket_msg where
  "zero_msg = \<lparr>msg_payload = zero_payload, session_id = 0, msg_cmd = replicate 16 0, payload_type = 0,
     payload_char_len = 0, msg_success = 0\<rparr>"

text \<open>The structure is packed: its members follow each other in memory.\<close>

definition msg_bytes :: "socket_msg \<Rightarrow> bytes" where
  "msg_bytes m = char_payload (msg_payload m) @ word_bytes (ull_payload (msg_payload m)) @ word_bytes (session_id m) @
     msg_cmd m @ word_bytes (payload_type m) @ word_bytes (payload_char_len m) @ word_bytes (msg_success m)"

definition msg_of_bytes :: "bytes \<Rightarrow> socket_msg" where
  "msg_of_bytes b =
     \<lparr>msg_payload = \<lparr>char_payload = take 256 b, ull_payload = word_of_bytes (take 8 (drop 256 b))\<rparr>,
      session_id = word_of_bytes (take 8 (drop 264 b)), msg_cmd = take 16 (drop 272 b),
      payload_type = word_of_bytes (take 4 (drop 288 b)), payload_char_len = word_of_bytes (take 4 (drop 292 b)),
      msg_success = word_of_bytes (take 4 (drop 296 b))\<rparr>"

text \<open>
  \<open>strncpy\<close> of at most \<open>n\<close> bytes, the rest filled with zeros; here \<open>n\<close> is at most 255 and the
  source an array of 256.
\<close>

definition strncpy_bytes :: "nat \<Rightarrow> bytes \<Rightarrow> bytes" where
  "strncpy_bytes n src = (let s = takeWhile (\<lambda>b. b \<noteq> 0) (take n src) in s @ replicate (n - length s) 0)"

definition payload_encode_all :: "socket_msg \<Rightarrow> socket_payload \<Rightarrow> socket_msg" where
  "payload_encode_all msg inp =
     msg\<lparr>payload_type := PAYLOAD_TYPE_NONE,
         msg_payload := \<lparr>char_payload = strncpy_bytes (MAX_PAYLOAD_SIZE - 1) (char_payload inp) @ [0],
                         ull_payload = ull_payload inp\<rparr>,
         payload_char_len := of_nat (strnlen (char_payload inp) (MAX_PAYLOAD_SIZE - 1) + 1)\<rparr>"

definition payload_encode_char :: "socket_msg \<Rightarrow> bytes \<Rightarrow> socket_msg" where
  "payload_encode_char msg inp =
     msg\<lparr>payload_type := PAYLOAD_TYPE_CHAR,
         msg_payload := (msg_payload msg)\<lparr>char_payload := strncpy_bytes (MAX_PAYLOAD_SIZE - 1) inp @ [0]\<rparr>,
         payload_char_len := of_nat (strnlen inp (MAX_PAYLOAD_SIZE - 1) + 1)\<rparr>"

definition payload_encode_ull :: "socket_msg \<Rightarrow> u64 \<Rightarrow> socket_msg" where
  "payload_encode_ull msg inp =
     msg\<lparr>payload_type := PAYLOAD_TYPE_ULL, msg_payload := (msg_payload msg)\<lparr>ull_payload := inp\<rparr>\<rparr>"

definition copy_len :: "socket_msg \<Rightarrow> nat" where
  "copy_len msg = (if unat (payload_char_len msg) \<ge> MAX_PAYLOAD_SIZE then MAX_PAYLOAD_SIZE - 1 else unat (payload_char_len msg))"

definition payload_decode_one_type :: "socket_msg \<Rightarrow> socket_payload \<Rightarrow> socket_payload option" where
  "payload_decode_one_type msg outp =
     (if payload_type msg = PAYLOAD_TYPE_NONE then Some outp
      else if payload_type msg = PAYLOAD_TYPE_CHAR then do {
        b \<leftarrow> mem_write (char_payload outp) 0 (strncpy_bytes (copy_len msg) (char_payload (msg_payload msg)) @ [0]);
        Some (outp\<lparr>char_payload := b\<rparr>)
      }
      else if payload_type msg = PAYLOAD_TYPE_ULL then Some (outp\<lparr>ull_payload := ull_payload (msg_payload msg)\<rparr>)
      else Some outp)"

definition payload_decode_all :: "socket_msg \<Rightarrow> socket_payload \<Rightarrow> socket_payload option" where
  "payload_decode_all msg outp = do {
     let outp = (if payload_type msg \<noteq> PAYLOAD_TYPE_NONE then zero_payload else outp);
     b \<leftarrow> mem_write (char_payload outp) 0 (strncpy_bytes (copy_len msg) (char_payload (msg_payload msg)) @ [0]);
     Some \<lparr>char_payload = b, ull_payload = ull_payload (msg_payload msg)\<rparr>
   }"


section \<open>Serving connections\<close>

text \<open>
  One round of the listener: \<open>accept\<close> and \<open>getsockname\<close> may fail; a connection that ends before a
  whole message is closed without an answer. The state of the handler is of type \<open>'s\<close>.
\<close>

record incoming =
  in_accepted :: bool
  in_named :: bool
  in_conn :: vsock

definition calling_handler ::
    "(socket_msg \<Rightarrow> vsock \<Rightarrow> 's \<Rightarrow> (vsock \<times> 's) option) \<Rightarrow> incoming \<Rightarrow> 's \<Rightarrow> (bytes \<times> 's) option" where
  "calling_handler handler i s =
     (if \<not> in_accepted i \<or> \<not> in_named i then Some ([], s)
      else
        let (r, c) = readn 300 (in_conn i) in
        case r of
          Some b \<Rightarrow>
            if length b = 300 then do {
              (c, s) \<leftarrow> handler (msg_of_bytes b) c s;
              Some (v_out c, s)
            }
            else Some (v_out c, s)
        | None \<Rightarrow> Some (v_out c, s))"

text \<open>
  The listener after its socket is set up. The flag it tests is never cleared, so it serves every
  connection that comes; the state after a list of them has the answers given so far.
\<close>

definition serve_connections ::
    "(socket_msg \<Rightarrow> vsock \<Rightarrow> 's \<Rightarrow> (vsock \<times> 's) option) \<Rightarrow> incoming list \<Rightarrow> 's \<Rightarrow> (bytes list \<times> 's) option" where
  "serve_connections handler is s =
     foldM (\<lambda>i (acks, s). do { (b, s) \<leftarrow> calling_handler handler i s; Some (acks @ [b], s) }) is ([], s)"


section \<open>Laws\<close>

definition msg_wf :: "socket_msg \<Rightarrow> bool" where
  "msg_wf m \<longleftrightarrow> length (char_payload (msg_payload m)) = 256 \<and> length (msg_cmd m) = 16"

lemma length_msg_bytes: "msg_wf m \<Longrightarrow> length (msg_bytes m) = 300"
  by (simp add: msg_bytes_def msg_wf_def)

lemma msg_of_bytes_wf: "length b = 300 \<Longrightarrow> msg_wf (msg_of_bytes b)"
  by (simp add: msg_wf_def msg_of_bytes_def)

lemma msg_of_bytes_msg_bytes: "msg_wf m \<Longrightarrow> msg_of_bytes (msg_bytes m) = m"
  by (cases m; cases "msg_payload m") (simp add: msg_wf_def msg_of_bytes_def msg_bytes_def le_simps)

text \<open>
  What arrives in non-empty pieces, with interrupted calls between them, is read completely; a
  complete write needs no failing call.
\<close>

lemma readn_loop_pieces:
  assumes "[] \<notin> set cs" "filter (\<lambda>r. r \<noteq> Read_intr) rs = map Got cs"
  shows "fst (readn_loop (rs @ rest) (length (concat cs)) acc) = Some (acc @ concat cs)"
  using assms
proof (induction rs arbitrary: cs acc)
  case Nil
  then show ?case by (cases rest) auto
next
  case (Cons r rs)
  show ?case
  proof (cases "r = Read_intr")
    case True
    then show ?thesis using Cons.IH [of cs acc] Cons.prems by (auto simp: concat_eq_Nil_conv)
  next
    case False
    then obtain c cs' where cs: "cs = c # cs'" "r = Got c" "filter (\<lambda>r. r \<noteq> Read_intr) rs = map Got cs'"
      using Cons.prems(2) by (cases cs) auto
    then show ?thesis using Cons.IH [of cs' "acc @ c"] Cons.prems(1) by auto
  qed
qed

lemma readn_pieces:
  assumes "[] \<notin> set cs" "filter (\<lambda>r. r \<noteq> Read_intr) rs = map Got cs" "length (concat cs) = n" "0 < n"
  shows "\<exists>rs'. readn n (c\<lparr>v_in := rs @ rest\<rparr>) = (Some (concat cs), c\<lparr>v_in := rs'\<rparr>)"
  using readn_loop_pieces [OF assms(1,2), of rest "[]"] assms(3,4)
  by (auto simp: readn_def split: prod.splits)

lemma readn_loop_length: "readn_loop rs n acc = (Some b, rs') \<Longrightarrow> length b \<le> length acc + n"
  by (induction rs n acc rule: readn_loop.induct) (auto split: if_splits read_result.splits)

lemma readn_keeps: "readn n c = (r, c') \<Longrightarrow> v_out c' = v_out c \<and> v_wr c' = v_wr c"
  by (auto simp: readn_def split: prod.splits if_splits)

lemma writen_loop_all: "writen_loop ws buf acc = (True, ws', outp) \<Longrightarrow> outp = acc @ buf"
  by (induction ws buf acc rule: writen_loop.induct) (auto split: if_splits write_result.splits)

lemma writen_loop_ok: "Write_failed \<notin> set ws \<Longrightarrow> fst (writen_loop ws buf acc)"
  by (induction ws buf acc rule: writen_loop.induct) (auto split: write_result.splits)

lemma writen_loop_prefix: "writen_loop ws buf acc = (ok, ws', outp) \<Longrightarrow> \<exists>k. outp = acc @ take k buf"
proof (induction ws buf acc rule: writen_loop.induct)
  case (1 buf acc)
  then show ?case by (intro exI [of _ "length buf"]) simp
next
  case (2 r rs buf acc)
  show ?case
  proof (cases "buf = []")
    case True
    then show ?thesis using 2(3) by simp
  next
    case False
    show ?thesis
    proof (cases r)
      case (Wrote j)
      then obtain k where "outp = acc @ take j buf @ take k (drop j buf)" using 2 False by fastforce
      then show ?thesis by (metis take_add)
    next
      case Write_intr
      then show ?thesis using 2 False by simp
    next
      case Write_failed
      then show ?thesis using 2(3) False by (intro exI [of _ 0]) simp
    qed
  qed
qed

lemma writen_all:
  assumes "Write_failed \<notin> set (v_wr c)"
  obtains ws where "writen buf c = (True, c\<lparr>v_wr := ws, v_out := v_out c @ buf\<rparr>)"
proof -
  obtain ok ws outp where w: "writen_loop (v_wr c) buf (v_out c) = (ok, ws, outp)" by (metis prod_cases3)
  have "ok" using writen_loop_ok [OF assms, of buf "v_out c"] w by simp
  then have "outp = v_out c @ buf" using w writen_loop_all [of "v_wr c" buf "v_out c" ws outp] by simp
  then show ?thesis using that w \<open>ok\<close> by (simp add: writen_def)
qed

lemma length_strncpy_bytes: "n \<le> length src \<Longrightarrow> length (strncpy_bytes n src) = n"
  using length_takeWhile_le [of "\<lambda>b. b \<noteq> 0" "take n src"] by (simp add: strncpy_bytes_def Let_def)

text \<open>A payload as \<open>strncpy\<close> leaves it: a text without zero bytes, and zeros behind it.\<close>

definition payload_clean :: "socket_payload \<Rightarrow> bool" where
  "payload_clean p \<longleftrightarrow> (\<exists>s. 0 \<notin> set s \<and> length s < MAX_PAYLOAD_SIZE \<and>
     char_payload p = s @ replicate (MAX_PAYLOAD_SIZE - length s) 0)"

lemma takeWhile_nonzero: "0 \<notin> set s \<Longrightarrow> takeWhile (\<lambda>b. b \<noteq> 0) (s @ 0 # r) = s"
  by (induction s) auto

lemma strncpy_text:
  assumes "0 \<notin> set s" "length s < n" "n \<le> 256"
  shows "strncpy_bytes n (s @ replicate (256 - length s) 0) = s @ replicate (n - length s) 0"
    "strnlen (s @ replicate (256 - length s) 0) (n - 1) = length s"
proof -
  have t: "takeWhile (\<lambda>b. b \<noteq> (0::u8)) (s @ replicate k 0) = s" for k
    using assms(1) takeWhile_nonzero [of s "replicate (k - 1) 0"] takeWhile_eq_all_conv [of "\<lambda>b. b \<noteq> 0" s]
    by (cases k) fastforce+
  have r: "take m (s @ replicate (256 - length s) (0::u8)) = s @ replicate (m - length s) 0"
    if "length s \<le> m" "m \<le> n" for m
    using that assms(2,3) by (simp add: min_def)
  show "strncpy_bytes n (s @ replicate (256 - length s) 0) = s @ replicate (n - length s) 0"
    using assms(2) r [of n] t by (simp add: strncpy_bytes_def Let_def)
  show "strnlen (s @ replicate (256 - length s) 0) (n - 1) = length s"
    using assms(2) r [of "n - 1"] t by (simp add: strnlen_def)
qed

lemma encoded_payload:
  assumes "payload_clean p"
  obtains s where "0 \<notin> set s" "length s < 256" "char_payload p = s @ replicate (256 - length s) 0"
    "strncpy_bytes 255 (char_payload p) @ [0] = char_payload p" "strnlen (char_payload p) 255 = length s"
proof -
  obtain s where s: "0 \<notin> set s" "length s < 256" "char_payload p = s @ replicate (256 - length s) 0"
    using assms by (auto simp: payload_clean_def)
  have n: "strnlen (char_payload p) 255 = length s" using strncpy_text(2) [of s 256] s by simp
  have "strncpy_bytes 255 (char_payload p) @ [0] = char_payload p"
  proof (cases "length s < 255")
    case True
    then have "256 - length s = Suc (255 - length s)" by simp
    then show ?thesis using strncpy_text(1) [of s 255] s True by (simp add: replicate_append_same)
  next
    case False
    then have "length s = 255" using s(2) by simp
    moreover have "takeWhile (\<lambda>b. b \<noteq> 0) s = s" using s(1) by (induction s) auto
    ultimately show ?thesis by (simp add: strncpy_bytes_def s(3) Let_def del: takeWhile_eq_all_conv)
  qed
  then show ?thesis using that s n by blast
qed

lemma decoded_payload:
  assumes "payload_clean p" "unat (payload_char_len msg) = Suc (strnlen (char_payload p) 255)"
    "char_payload (msg_payload msg) = char_payload p"
  shows "mem_write (replicate 256 0) 0 (strncpy_bytes (copy_len msg) (char_payload (msg_payload msg)) @ [0]) = Some (char_payload p)"
proof -
  obtain s where s: "0 \<notin> set s" "length s < 256" "char_payload p = s @ replicate (256 - length s) 0"
    "strncpy_bytes 255 (char_payload p) @ [0] = char_payload p" "strnlen (char_payload p) 255 = length s"
    using encoded_payload [OF assms(1)] by blast
  show ?thesis
  proof (cases "length s < 255")
    case True
    then have c: "copy_len msg = Suc (length s)" using assms(2) s(5) by (simp add: copy_len_def)
    have "strncpy_bytes (Suc (length s)) (char_payload p) @ [0] = s @ [0, 0]"
      using strncpy_text(1) [OF s(1), of "Suc (length s)"] True s(3) by simp
    moreover have "256 - length s = Suc (Suc (254 - length s))" using True by simp
    ultimately show ?thesis using True assms(3) s(3) c by (simp add: mem_write_def)
  next
    case False
    then have "copy_len msg = 255" using assms(2) s(2,5) by (simp add: copy_len_def)
    moreover have "length (char_payload p) = 256" using s(2,3) by simp
    ultimately show ?thesis using s(4) assms(3) by (simp add: mem_write_def)
  qed
qed

text \<open>What the sender encodes is what the receiver decodes, for each way to fill the payload.\<close>

lemma payload_char_len_enc: "unat (of_nat (Suc (strnlen s 255)) :: u32) = Suc (strnlen s 255)"
proof -
  have "strnlen s 255 \<le> 255" unfolding strnlen_def by (metis length_takeWhile_le length_take min.boundedE)
  then show ?thesis by (simp only: unat_of_nat) simp
qed

lemma payload_all_roundtrip:
  assumes "payload_clean p"
  shows "payload_decode_all (payload_encode_all m p) zero_payload = Some p"
proof -
  let ?m = "payload_encode_all m p"
  have "char_payload (msg_payload ?m) = char_payload p"
    by (rule encoded_payload [OF assms]) (simp add: payload_encode_all_def)
  moreover have "unat (payload_char_len ?m) = Suc (strnlen (char_payload p) 255)"
    using payload_char_len_enc [of "char_payload p"] by (simp add: payload_encode_all_def)
  ultimately have "mem_write (replicate 256 0) 0 (strncpy_bytes (copy_len ?m) (char_payload (msg_payload ?m)) @ [0]) = Some (char_payload p)"
    using decoded_payload [OF assms] by blast
  moreover have "payload_type ?m = 0" "ull_payload (msg_payload ?m) = ull_payload p" by (simp_all add: payload_encode_all_def)
  ultimately show ?thesis by (simp add: payload_decode_all_def zero_payload_def)
qed

lemma payload_char_roundtrip:
  assumes "payload_clean p"
  shows "payload_decode_one_type (payload_encode_char m (char_payload p)) zero_payload = Some (p\<lparr>ull_payload := 0\<rparr>)"
proof -
  let ?m = "payload_encode_char m (char_payload p)"
  have "char_payload (msg_payload ?m) = char_payload p"
    by (rule encoded_payload [OF assms]) (simp add: payload_encode_char_def)
  moreover have "unat (payload_char_len ?m) = Suc (strnlen (char_payload p) 255)"
    using payload_char_len_enc [of "char_payload p"] by (simp add: payload_encode_char_def)
  ultimately have "mem_write (replicate 256 0) 0 (strncpy_bytes (copy_len ?m) (char_payload (msg_payload ?m)) @ [0]) = Some (char_payload p)"
    using decoded_payload [OF assms] by blast
  moreover have "payload_type ?m = 1" by (simp add: payload_encode_char_def)
  ultimately show ?thesis by (simp add: payload_decode_one_type_def zero_payload_def)
qed

lemma payload_ull_roundtrip:
  "payload_decode_one_type (payload_encode_ull m v) q = Some (q\<lparr>ull_payload := v\<rparr>)"
  by (simp add: payload_decode_one_type_def payload_encode_ull_def)

lemma decode_in_bounds:
  assumes "length (char_payload q) = MAX_PAYLOAD_SIZE" "msg_wf msg"
  shows "\<exists>r. payload_decode_all msg q = Some r \<and> length (char_payload r) = MAX_PAYLOAD_SIZE \<and> ull_payload r = ull_payload (msg_payload msg)"
    "\<exists>r. payload_decode_one_type msg q = Some r \<and> length (char_payload r) = MAX_PAYLOAD_SIZE"
proof -
  have c: "copy_len msg \<le> 255" by (simp add: copy_len_def)
  then have "length (strncpy_bytes (copy_len msg) (char_payload (msg_payload msg))) \<le> 255"
    using length_strncpy_bytes [of "copy_len msg"] assms(2) by (simp add: msg_wf_def)
  then show "\<exists>r. payload_decode_all msg q = Some r \<and> length (char_payload r) = MAX_PAYLOAD_SIZE \<and> ull_payload r = ull_payload (msg_payload msg)"
    "\<exists>r. payload_decode_one_type msg q = Some r \<and> length (char_payload r) = MAX_PAYLOAD_SIZE"
    using assms(1) by (auto simp: payload_decode_all_def payload_decode_one_type_def mem_write_def zero_payload_def)
qed


section \<open>The channel\<close>

text \<open>
  C21. The control channel delivers what the host encoded: a request that arrives on an accepted
  connection in any non-empty pieces, with interrupted calls between them, reaches the handler
  as the same message, and decoding its payload gives back the text and the number that were
  encoded into it.
\<close>

theorem control_channel_roundtrip:
  assumes "payload_clean p" "length (msg_cmd m) = 16" "[] \<notin> set cs" "concat cs = msg_bytes (payload_encode_all m p)"
    and "filter (\<lambda>r. r \<noteq> Read_intr) rs = map Got cs"
  shows "(\<exists>rs'. calling_handler handler \<lparr>in_accepted = True, in_named = True, in_conn = c\<lparr>v_in := rs @ rest\<rparr>\<rparr> s =
      map_option (\<lambda>(c', s'). (v_out c', s')) (handler (payload_encode_all m p) (c\<lparr>v_in := rs'\<rparr>) s)) \<and>
    payload_decode_all (payload_encode_all m p) zero_payload = Some p"
proof -
  let ?m = "payload_encode_all m p"
  have "char_payload (msg_payload ?m) = char_payload p"
    by (rule encoded_payload [OF assms(1)]) (simp add: payload_encode_all_def)
  moreover have "length (char_payload p) = 256" using assms(1) by (auto simp: payload_clean_def)
  ultimately have wf: "msg_wf ?m" using assms(2) by (simp add: msg_wf_def payload_encode_all_def)
  then obtain rs' where "readn 300 (c\<lparr>v_in := rs @ rest\<rparr>) = (Some (msg_bytes ?m), c\<lparr>v_in := rs'\<rparr>)"
    using readn_pieces [OF assms(3,5), where n = 300 and c = c and rest = rest] length_msg_bytes [OF wf] assms(4) by auto
  then have "calling_handler handler \<lparr>in_accepted = True, in_named = True, in_conn = c\<lparr>v_in := rs @ rest\<rparr>\<rparr> s =
      map_option (\<lambda>(c', s'). (v_out c', s')) (handler ?m (c\<lparr>v_in := rs'\<rparr>) s)"
    using msg_of_bytes_msg_bytes [OF wf] length_msg_bytes [OF wf]
    by (auto simp: calling_handler_def split: bind_splits)
  then show ?thesis using payload_all_roundtrip [OF assms(1)] by blast
qed

text \<open>A message of one text and one number, cut at byte 100 with an interrupted call between the pieces.\<close>

definition sample_payload :: socket_payload where
  "sample_payload = \<lparr>char_payload = [49, 48] @ replicate 254 0, ull_payload = 7\<rparr>"

definition sample_msg :: socket_msg where
  "sample_msg = payload_encode_all zero_msg sample_payload"

theorem control_channel_roundtrip_witness:
  "calling_handler (\<lambda>m c s. Some (c, s @ [m]))
     \<lparr>in_accepted = True, in_named = True, in_conn = \<lparr>v_in = [Got (take 100 (msg_bytes sample_msg)), Read_intr,
        Got (drop 100 (msg_bytes sample_msg))], v_wr = [], v_out = []\<rparr>\<rparr> [] = Some ([], [sample_msg]) \<and>
   payload_decode_all sample_msg zero_payload = Some sample_payload"
proof -
  let ?c = "\<lparr>v_in = [], v_wr = [], v_out = []\<rparr> :: vsock"
  let ?rs = "[Got (take 100 (msg_bytes sample_msg)), Read_intr, Got (drop 100 (msg_bytes sample_msg))]"
  have p: "payload_clean sample_payload" unfolding payload_clean_def sample_payload_def
    by (intro exI [of _ "[49, 48]"]) simp
  have l: "length (msg_cmd zero_msg) = 16" by (simp add: zero_msg_def)
  have "length (msg_bytes sample_msg) = 300"
    by (simp add: sample_msg_def msg_bytes_def payload_encode_all_def length_strncpy_bytes sample_payload_def zero_msg_def)
  then have n: "[] \<notin> set [take 100 (msg_bytes sample_msg), drop 100 (msg_bytes sample_msg)]" by auto
  have c: "concat [take 100 (msg_bytes sample_msg), drop 100 (msg_bytes sample_msg)] = msg_bytes (payload_encode_all zero_msg sample_payload)"
    by (simp flip: sample_msg_def)
  have f: "filter (\<lambda>r. r \<noteq> Read_intr) ?rs = map Got [take 100 (msg_bytes sample_msg), drop 100 (msg_bytes sample_msg)]" by simp
  show ?thesis
    using control_channel_roundtrip [OF p l n c f, where handler = "\<lambda>m c s. Some (c, s @ [m])" and c = ?c and rest = "[]" and s = "[]"]
    by (simp flip: sample_msg_def)
qed

end
