(* ===== verification/Mig_Agent.thy ===== *)
theory Mig_Agent
  imports Rats_Tls Socket_Agent
begin

text \<open>
  The migration agent in the guest, \<open>migcvm-agent/src/migcvm-agent.c\<close>: its arguments, the reference
  value it takes from its own token or the command line, and the two handlers the host starts over
  the control channel (theory \<open>Socket_Agent\<close>). \<open>START_CLIENT\<close> makes the agent the source of a migration
  and \<open>START_SERVER\<close> its destination (theory \<open>Rats_Tls\<close>).
\<close>

section \<open>Arguments\<close>

definition safe_strdup :: "(nat \<Rightarrow> bool) \<Rightarrow> string \<Rightarrow> string option" where
  "safe_strdup malloc_ok src = (if malloc_ok (length src + 1) then Some src else None)"

definition mig_agent_exit :: "mig_agent_args \<Rightarrow> mig_agent_args" where
  "mig_agent_exit args = args\<lparr>srv_ip := None, attester_type := None, verifier_type := None, tls_type := None,
     crypto_type := None, digest_file := None\<rparr>"

text \<open>One \<open>safe_strdup\<close> into a member; after a failure the rest is skipped.\<close>

definition dup_member ::
    "(nat \<Rightarrow> bool) \<Rightarrow> string \<times> (string \<Rightarrow> mig_agent_args \<Rightarrow> mig_agent_args) \<Rightarrow> bool \<times> mig_agent_args \<Rightarrow> bool \<times> mig_agent_args" where
  "dup_member malloc_ok = (\<lambda>(s, upd) (ok, args).
     if \<not> ok then (False, args)
     else case safe_strdup malloc_ok s of None \<Rightarrow> (False, args) | Some d \<Rightarrow> (True, upd d args))"

definition mig_agent_init :: "(nat \<Rightarrow> bool) \<Rightarrow> mig_agent_args \<Rightarrow> int \<times> mig_agent_args" where
  "mig_agent_init malloc_ok args =
     (let (ok, args) = fold (dup_member malloc_ok)
            [('''', \<lambda>d a. a\<lparr>attester_type := Some d\<rparr>), ('''', \<lambda>d a. a\<lparr>verifier_type := Some d\<rparr>),
             (''openssl'', \<lambda>d a. a\<lparr>tls_type := Some d\<rparr>), (''openssl'', \<lambda>d a. a\<lparr>crypto_type := Some d\<rparr>),
             ('''', \<lambda>d a. a\<lparr>digest_file := Some d\<rparr>)]
            (True, args\<lparr>agent_type := 0\<rparr>) in
      if \<not> ok then (-1, mig_agent_exit args)
      else (0, args\<lparr>port := 1234, mutual := True, provide_endorsements := False, use_firmware := False,
         dump_eventlog := False, ref_json_file := None, use_fde := False, rootfs_key_file := None,
         verify_platform_components := False, platform_ref_json_file := None\<rparr>))"


section \<open>The reference value\<close>

text \<open>
  The global variables \<open>g_rim_ref\<close>, an array of 64 bytes, and \<open>g_rim_ref_size\<close>. \<open>init_rim_ref\<close> passes
  the size both as the room of the array and as the place of the new size. The evidence structure
  is of the rats-tls library: \<open>evidence_size\<close> is its size and \<open>report_max\<close> that of its report.
\<close>

type_synonym rim_ref = "bytes \<times> nat"

definition no_rim_ref :: rim_ref where
  "no_rim_ref = (replicate 64 0, 64)"

definition init_rim_ref :: "string \<Rightarrow> rim_ref \<Rightarrow> (int \<times> rim_ref) option" where
  "init_rim_ref hex_str g = do {
     (r, buf, n) \<leftarrow> hex_to_bytes hex_str (length hex_str) (fst g) (snd g);
     Some (if r \<noteq> 0 then -1 else 0, buf, n)
   }"

definition own_challenge :: bytes where
  "own_challenge = - 1 # replicate 63 0"

definition request_own_token :: "('c, 'x, 'k) env \<Rightarrow> tsi_device \<Rightarrow> nat \<Rightarrow> (int \<times> bytes option \<times> nat option) option" where
  "request_own_token env dev report_max =
     get_attestation_token dev (tsi_new_ctx (e_malloc env) dev) (Some own_challenge) 64
       (Some (replicate (report_max - 8) 0)) (Some (report_max - 8))"

definition rim_initialize :: "('c, 'x, 'k) env \<Rightarrow> tsi_device \<Rightarrow> nat \<Rightarrow> nat \<Rightarrow> rim_ref \<Rightarrow> rim_ref option" where
  "rim_initialize env dev evidence_size report_max g = do {
     if \<not> e_malloc env evidence_size then Some g
     else do {
       (ret, tok, n) \<leftarrow> request_own_token env dev report_max;
       if ret \<noteq> 0 then Some g
       else do {
         tok \<leftarrow> tok;
         n \<leftarrow> n;
         d \<leftarrow> mem_read tok 0 n;
         (st, t) \<leftarrow> mig_parse_cca_attestation_token (e_malloc env) (e_qcbor env) zero_token (QBuf d);
         if st \<noteq> VIRTCCA_SUCCESS then Some g
         else
           case rim (cvm_token t) of
             QBuf r \<Rightarrow>
               if length r \<le> 64 then do { b \<leftarrow> mem_write (fst g) 0 r; Some (b, length r) }
               else do { b \<leftarrow> mem_write (fst g) 0 (take 64 r); Some (b, 64) }
           | NullBuf \<Rightarrow> Some (fst g, 0)
           | _ \<Rightarrow> None
       }
     }
   }"


section \<open>Addresses and options\<close>

text \<open>
  The interfaces \<open>getifaddrs\<close> lists, in \<open>host_server_ip.c\<close>: a name, the address if there is one (whether it
  is an IPv4 address, and its text), and whether the interface is up. \<open>ifs\<close> is the result of the
  first and of the second call.
\<close>

record iface =
  if_name :: string
  if_addr :: "(bool \<times> string) option"
  if_up :: bool

fun interface_ip :: "(nat \<Rightarrow> bool) \<Rightarrow> iface list \<Rightarrow> string \<Rightarrow> string option" where
  "interface_ip malloc_ok [] ifname = None"
| "interface_ip malloc_ok (i # is) ifname =
     (case if_addr i of
        Some (True, ip) \<Rightarrow>
          if if_name i = ifname then (if ip \<noteq> ''127.0.0.1'' then safe_strdup malloc_ok ip else None)
          else interface_ip malloc_ok is ifname
      | _ \<Rightarrow> interface_ip malloc_ok is ifname)"

definition get_interface_ip :: "(nat \<Rightarrow> bool) \<Rightarrow> iface list option \<Rightarrow> string \<Rightarrow> string option" where
  "get_interface_ip malloc_ok ifs ifname = Option.bind ifs (\<lambda>is. interface_ip malloc_ok is ifname)"

definition virtual_interface :: "string \<Rightarrow> bool" where
  "virtual_interface name \<longleftrightarrow>
     strstr name ''lo'' = Some name \<or> strstr name ''docker'' = Some name \<or>
     strstr name ''virbr'' = Some name \<or> strstr name ''veth'' = Some name"

fun first_ip :: "(nat \<Rightarrow> bool) \<Rightarrow> iface list \<Rightarrow> string option" where
  "first_ip malloc_ok [] = None"
| "first_ip malloc_ok (i # is) =
     (case if_addr i of
        Some (True, ip) \<Rightarrow>
          if ip = ''127.0.0.1'' then first_ip malloc_ok is
          else if if_up i \<and> \<not> virtual_interface (if_name i) then safe_strdup malloc_ok ip
          else first_ip malloc_ok is
      | _ \<Rightarrow> first_ip malloc_ok is)"

definition get_local_ipv4 :: "(nat \<Rightarrow> bool) \<Rightarrow> iface list option \<Rightarrow> iface list option \<Rightarrow> string option" where
  "get_local_ipv4 malloc_ok ifs1 ifs2 =
     (case ifs1 of
        None \<Rightarrow> None
      | Some is \<Rightarrow>
          (case first_ip malloc_ok is of
             Some ip \<Rightarrow> Some ip
           | None \<Rightarrow> get_interface_ip malloc_ok ifs2 ''eth0''))"

text \<open>
  The options are what \<open>getopt\<close> delivers, in order. \<open>Inl\<close> is the exit of the program; the
  addresses are those of the peer and of the agent.
\<close>

fun input_opts ::
    "(nat \<Rightarrow> bool) \<Rightarrow> (char \<times> string) list \<Rightarrow> string \<times> string \<times> string option \<Rightarrow> unit + string \<times> string \<times> string option" where
  "input_opts malloc_ok [] acc = Inr acc"
| "input_opts malloc_ok ((opt, optarg) # opts) (client_ip, server_ip, rim_hex) =
     (if opt \<notin> {CHR ''c'', CHR ''s'', CHR ''r''} then Inl ()
      else case safe_strdup malloc_ok optarg of
          None \<Rightarrow> Inl ()
        | Some d \<Rightarrow>
            input_opts malloc_ok opts
              (if opt = CHR ''c'' then (d, server_ip, rim_hex)
               else if opt = CHR ''s'' then (client_ip, d, rim_hex)
               else (client_ip, server_ip, Some d)))"

definition parse_input ::
    "(nat \<Rightarrow> bool) \<Rightarrow> string option \<Rightarrow> (char \<times> string) list \<Rightarrow> rim_ref \<Rightarrow> (unit + string \<times> string \<times> rim_ref) option" where
  "parse_input malloc_ok local_ip opts g =
     (case (safe_strdup malloc_ok ''127.0.0.1'',
            case local_ip of None \<Rightarrow> safe_strdup malloc_ok ''127.0.0.1'' | Some ip \<Rightarrow> Some ip) of
        (Some client_ip, Some server_ip) \<Rightarrow>
          (case input_opts malloc_ok opts (client_ip, server_ip, None) of
             Inl _ \<Rightarrow> Some (Inl ())
           | Inr (client_ip, server_ip, None) \<Rightarrow> Some (Inr (client_ip, server_ip, g))
           | Inr (client_ip, server_ip, Some rim_hex) \<Rightarrow> do {
               (r, g) \<leftarrow> init_rim_ref rim_hex g;
               Some (if r \<noteq> 0 then Inl () else Inr (client_ip, server_ip, g))
             })
      | _ \<Rightarrow> Some (Inl ()))"


section \<open>The handlers\<close>

text \<open>
  The state of one handler's thread: its end of a migration, with the arguments, and whether the
  address of the peer in them was freed and not replaced.
\<close>

record ('h, 'd) agent =
  a_peer :: "('h, 'd) peer"
  a_ip_freed :: bool
  a_threads :: "integrity_socket list"

definition a_args :: "('h, 'd) agent \<Rightarrow> mig_agent_args" where
  "a_args ag = p_args (a_peer ag)"

definition set_args :: "mig_agent_args \<Rightarrow> ('h, 'd) agent \<Rightarrow> ('h, 'd) agent" where
  "set_args args ag = ag\<lparr>a_peer := (a_peer ag)\<lparr>p_args := args\<rparr>\<rparr>"

text \<open>\<open>strcmp (msg->cmd, s) == 0\<close> on the array of 16 bytes.\<close>

definition cmd_is :: "socket_msg \<Rightarrow> string \<Rightarrow> bool" where
  "cmd_is msg s \<longleftrightarrow> take (length s + 1) (msg_cmd msg) = c_lit s"

text \<open>The acknowledgement; the texts \<open>START_CLIENT_ACK\<close> and \<open>START_SERVER_ACK\<close> fill the 16 bytes of the command.\<close>

definition ack_of :: "string \<Rightarrow> u32 \<Rightarrow> socket_msg \<Rightarrow> socket_msg" where
  "ack_of text16 ok msg = zero_msg\<lparr>msg_success := ok, msg_cmd := strncpy_bytes 16 (c_lit text16),
     payload_type := VSOCK_MSG_ACK, session_id := session_id msg\<rparr>"

definition send_ack :: "socket_msg \<Rightarrow> vsock \<Rightarrow> bool \<times> vsock" where
  "send_ack ack c =
     (let (ok, c) = writen (msg_bytes ack) c in
      (ok, if ok then snd (readn 8 c) else c))"

text \<open>
  What the source does with the device between the checks of the request and the answer: the
  guest must be bound to this agent, the device gives the key of the migration, the handover to the
  destination runs, and the slot of the guest is set ready.
\<close>

definition migrate_out ::
    "('c, 'x, 'k) env \<Rightarrow> ('h, 'd) rats \<Rightarrow> ima_lib \<Rightarrow> (net_call \<Rightarrow> bool) \<Rightarrow> rim_ref \<Rightarrow> tsi_ctx \<Rightarrow> ('h, 'd) peer
     \<Rightarrow> (int \<times> integrity_socket option \<times> ('h, 'd) peer) option" where
  "migrate_out env rt il net_ok g ctx p = do {
     (b, dev) \<leftarrow> bound_guest (e_malloc env) (rt_io rt) ctx TSI_ERROR_STATE (guest_rd (p_args p)) (p_dev p);
     case b of
       Inl ret \<Rightarrow> Some (ret, None, p\<lparr>p_dev := dev\<rparr>)
     | Inr (m, a) \<Rightarrow>
         (case get_migration_info_and_mask (rt_io rt) (Some ctx) (Some m) (Some a) dev of
            (ret, Some m, Some a, dev) \<Rightarrow>
              if ret \<noteq> TSI_SUCCESS then Some (ret, None, p\<lparr>p_dev := dev\<rparr>)
              else do {
                let p = p\<lparr>p_dev := dev, p_args := (p_args p)\<lparr>msk := mi_msk a, tag := mi_tag a, rand_iv := mi_rand_iv a\<rparr>\<rparr>;
                (ret, ios, p) \<leftarrow> rats_tls_client_startup env rt il net_ok (fst g) (snd g) p;
                if ret \<noteq> 0 then Some (ret, ios, p)
                else
                  let (ret, m, a, dev) = set_migration_bind_slot_and_mask (rt_io rt) (Some ctx) (Some m)
                         (Some (a\<lparr>slot_status := SLOT_IS_READY, set_key := True\<rparr>)) (p_dev p) in
                  Some (ret, ios, p\<lparr>p_dev := dev\<rparr>)
              }
          | _ \<Rightarrow> None)
   }"

text \<open>
  The request itself: the address of the destination and the guest. The old address is freed
  before the new one is copied, and stays in the arguments when there is no memory for the copy.
\<close>

definition start_client ::
    "('c, 'x, 'k) env \<Rightarrow> ('h, 'd) rats \<Rightarrow> ima_lib \<Rightarrow> (net_call \<Rightarrow> bool) \<Rightarrow> rim_ref \<Rightarrow> tsi_ctx \<Rightarrow> socket_msg
     \<Rightarrow> ('h, 'd) agent \<Rightarrow> (int \<times> ('h, 'd) agent) option" where
  "start_client env rt il net_ok g ctx msg ag =
     (if \<not> e_malloc env MAX_PAYLOAD_SIZE then Some (TSI_ERROR_STATE, ag)
      else if \<not> cmd_is msg ''START_CLIENT'' then Some (TSI_ERROR_INPUT, ag)
      else do {
        payload \<leftarrow> payload_decode_all msg zero_payload;
        let host_srv_ip = (if payload_char_len msg > 0 then c_string (strncpy_bytes (MAX_PAYLOAD_SIZE - 1) (char_payload payload)) else []);
        let ag = set_args ((a_args ag)\<lparr>guest_rd := ull_payload payload\<rparr>) ag;
        if a_ip_freed ag then None
        else if host_srv_ip \<noteq> ''127.0.0.1'' \<and> safe_strdup (e_malloc env) host_srv_ip = None
        then Some (TSI_ERROR_INPUT, ag\<lparr>a_ip_freed := True\<rparr>)
        else do {
          let ag = (if host_srv_ip \<noteq> ''127.0.0.1'' then set_args ((a_args ag)\<lparr>srv_ip := Some host_srv_ip\<rparr>) ag else ag);
          ip \<leftarrow> srv_ip (a_args ag);
          if ip = ''127.0.0.1'' \<or> guest_rd (a_args ag) = 0 then Some (TSI_ERROR_INPUT, ag)
          else do {
            (ret, ios, p) \<leftarrow> migrate_out env rt il net_ok g ctx (a_peer ag);
            Some (ret, ag\<lparr>a_peer := p, a_threads := a_threads ag @ (case ios of None \<Rightarrow> [] | Some t \<Rightarrow> [t])\<rparr>)
          }
        }
      })"

text \<open>
  The way out frees the buffer of the address, whose pointer is set only after the device was
  opened and the arguments were initialised: leaving before that is undefined.
\<close>

definition ras_tls_handler_client ::
    "('c, 'x, 'k) env \<Rightarrow> ('h, 'd) rats \<Rightarrow> ima_lib \<Rightarrow> (net_call \<Rightarrow> bool) \<Rightarrow> rim_ref \<Rightarrow> socket_msg \<Rightarrow> vsock
     \<Rightarrow> ('h, 'd) agent \<Rightarrow> (vsock \<times> ('h, 'd) agent) option" where
  "ras_tls_handler_client env rt il net_ok g msg c ag = do {
     ctx \<leftarrow> tsi_new_ctx (e_malloc env) (rt_tsi rt);
     let (ret, args) = mig_agent_init (e_malloc env) (a_args ag);
     if ret \<noteq> 0 then None
     else do {
       (ret, ag) \<leftarrow> start_client env rt il net_ok g ctx msg (set_args args ag);
       let (_, c) = send_ack (ack_of ''START_CLIENT_ACK'' (if ret \<noteq> TSI_SUCCESS then 0 else 1) msg) c;
       Some (c, set_args (wipe_args (a_args ag)) ag)
     }
   }"

definition ras_tls_handler_server ::
    "('c, 'x, 'k) env \<Rightarrow> ('h, 'd) rats \<Rightarrow> (net_call \<Rightarrow> bool) \<Rightarrow> socket_msg \<Rightarrow> vsock
     \<Rightarrow> ('h, 'd) agent \<Rightarrow> (vsock \<times> ('h, 'd) agent) option" where
  "ras_tls_handler_server env rt net_ok msg c ag = do {
     (ok, ag) \<leftarrow>
       (if \<not> cmd_is msg ''START_SERVER'' \<or> payload_type msg \<noteq> PAYLOAD_TYPE_ULL then Some (False, ag)
        else do {
          payload \<leftarrow> payload_decode_one_type msg zero_payload;
          let ag = set_args ((a_args ag)\<lparr>guest_rd := ull_payload payload\<rparr>) ag;
          Some (guest_rd (a_args ag) \<noteq> 0, ag)
        });
     let (sent, c) = send_ack (ack_of ''START_SERVER_ACK'' (if ok then 1 else 0) msg) c;
     if ok \<and> sent then do {
       (_, ios, p) \<leftarrow> rats_tls_server_startup env rt net_ok (a_peer ag);
       Some (c, ag\<lparr>a_peer := p, a_threads := a_threads ag @ (case ios of None \<Rightarrow> [] | Some t \<Rightarrow> [t])\<rparr>)
     }
     else Some (c, ag)
   }"


section \<open>The reference value\<close>

text \<open>The token the agent got for itself, as \<open>rim_initialize\<close> parses it.\<close>

definition own_token :: "('c, 'x, 'k) env \<Rightarrow> tsi_device \<Rightarrow> nat \<Rightarrow> cca_token option" where
  "own_token env dev report_max = do {
     (ret, tok, n) \<leftarrow> request_own_token env dev report_max;
     tok \<leftarrow> tok;
     n \<leftarrow> n;
     d \<leftarrow> mem_read tok 0 n;
     (st, t) \<leftarrow> mig_parse_cca_attestation_token (e_malloc env) (e_qcbor env) zero_token (QBuf d);
     if ret = 0 \<and> st = VIRTCCA_SUCCESS then Some t else None
   }"

lemma rim_initialize_own:
  assumes "own_token env dev report_max = Some t" "rim (cvm_token t) = QBuf r" "length r \<le> 64"
    "e_malloc env evidence_size" "length (fst g) = 64"
  shows "rim_initialize env dev evidence_size report_max g = Some (r @ drop (length r) (fst g), length r)"
proof -
  obtain tok n d where "request_own_token env dev report_max = Some (0, Some tok, Some n)"
      "mem_read tok 0 n = Some d"
      "mig_parse_cca_attestation_token (e_malloc env) (e_qcbor env) zero_token (QBuf d) = Some (VIRTCCA_SUCCESS, t)"
    using assms(1) by (auto simp: own_token_def split: bind_splits if_splits)
  then show ?thesis using assms(2-5) by (auto simp: rim_initialize_def mem_write_def)
qed

text \<open>
  An agent started without a reference value trusts only its own kind: when \<open>rim_initialize\<close> has
  read its own token, the verification callback accepts a destination only with evidence whose
  initial measurement equals the one in that token, which has at most 64 bytes.
\<close>

theorem peer_has_own_rim:
  assumes "own_token env dev report_max = Some t" "rim (cvm_token t) = QBuf r"
    "0 < length r" "length r \<le> 64" "e_malloc env evidence_size"
    and "rim_initialize env dev evidence_size report_max no_rim_ref = Some g"
    and "user_callback env (fst g) (snd g) fs evidence = Some (True, fs')"
  shows "\<exists>tb t'. token_buf_of_evidence evidence = Some tb \<and> parse_token_buf env tb = Some (VIRTCCA_SUCCESS, t') \<and>
    rim (cvm_token t') = rim (cvm_token t)"
proof -
  have g: "fst g = r @ drop (length r) (fst no_rim_ref)" "snd g = length r"
    using rim_initialize_own [OF assms(1,2,4,5), of no_rim_ref] assms(6) by (auto simp: no_rim_ref_def)
  obtain tb t' where t: "token_buf_of_evidence evidence = Some tb" "parse_token_buf env tb = Some (VIRTCCA_SUCCESS, t')"
    "buf_equals (rim (cvm_token t')) (fst g) (snd g) = Some True"
    using user_callback_accepts [OF assms(7)] by blast
  then have "rim (cvm_token t') = QBuf (take (length r) (fst g))" using buf_equals_True [OF t(3)] assms(3) g by simp
  then show ?thesis using t(1,2) g assms(2) by auto
qed

text \<open>A device that gives every caller the sample token.\<close>

definition token_dev :: tsi_device where
  "token_dev = \<lparr>dev_open = 3, dev_version = (\<lambda>_. (0, 1, 0)),
     dev_token = (\<lambda>_ cmd. (0, cmd\<lparr>cmd_token_size := 1\<rparr>)), dev_get_cert = (\<lambda>_ dc. (1, dc))\<rparr>"

lemma user_callback_take:
  assumes "n \<le> length g"
  shows "user_callback env (take n g) n fs ev = user_callback env g n fs ev"
proof -
  have "buf_equals b (take n g) n = buf_equals b g n" for b
    using assms by (cases b) (simp_all add: buf_equals_def mem_read_def)
  then show ?thesis unfolding user_callback_def by (simp only:)
qed

lemma token_dev_own: "own_token chain_env token_dev 4104 = Some sample_token"
proof -
  have "request_own_token chain_env token_dev 4104 = Some (0, Some (replicate 4096 0), Some 1)"
    by (simp add: request_own_token_def get_attestation_token_def token_dev_def tsi_new_ctx_def chain_env_def demo_env_def
        own_challenge_def mem_read_def mem_write_def replicate_Suc [of 4095, symmetric, simplified])
  then show ?thesis using sample_evidence_parses
    by (simp add: own_token_def parse_token_buf_def mem_read_def)
qed

theorem peer_has_own_rim_witness:
  "\<exists>tb t'. token_buf_of_evidence sample_evidence = Some tb \<and> parse_token_buf chain_env tb = Some (VIRTCCA_SUCCESS, t') \<and>
    rim (cvm_token t') = QBuf (replicate 32 3)"
proof -
  have r: "rim (cvm_token sample_token) = QBuf (replicate 32 3)"
    by (simp add: sample_token_def cvm_of_def sample_content_def)
  let ?g = "(replicate 32 3 @ replicate 32 0, 32 :: nat)"
  have m: "e_malloc chain_env 4104" by (simp add: chain_env_def demo_env_def)
  have g: "rim_initialize chain_env token_dev 4104 4104 no_rim_ref = Some ?g"
    using rim_initialize_own [OF token_dev_own r _ m, of no_rim_ref] by (simp add: no_rim_ref_def)
  have "user_callback chain_env (fst ?g) (snd ?g) toy_files sample_evidence = Some (True, toy_files)"
    using sample_evidence_accepted user_callback_take [of 32 "fst ?g" chain_env toy_files sample_evidence] by simp
  from peer_has_own_rim [OF token_dev_own r _ _ m g this] r show ?thesis by simp
qed

text \<open>
  The option \<open>-r\<close> is limited by the reference value read before: with a 32-byte value of its own the
  agent refuses every longer reference.
\<close>

lemma longer_reference_refused:
  "length hex_str > 2 * snd g \<Longrightarrow> init_rim_ref hex_str g = Some (-1, g)"
proof -
  assume "length hex_str > 2 * snd g"
  then have "length hex_str mod 2 \<noteq> 0 \<or> snd g < length hex_str div 2" by presburger
  then show ?thesis by (auto simp: init_rim_ref_def hex_to_bytes_def)
qed


section \<open>Requests\<close>

lemma a_args_set [simp]: "a_args (set_args x ag) = x" "a_threads (set_args x ag) = a_threads ag"
  "p_dev (a_peer (set_args x ag)) = p_dev (a_peer ag)" "set_args x (set_args y ag) = set_args x ag"
  by (simp_all add: a_args_def set_args_def)

text \<open>What a successful \<open>migrate_out\<close> did to the device, and with which key the handover ran.\<close>

definition handed_over ::
    "('c, 'x, 'k) env \<Rightarrow> ('h, 'd) rats \<Rightarrow> ima_lib \<Rightarrow> (net_call \<Rightarrow> bool) \<Rightarrow> rim_ref \<Rightarrow> u64 \<Rightarrow> ('h, 'd) peer \<Rightarrow> ('h, 'd) peer \<Rightarrow> bool" where
  "handed_over env rt il net_ok g guest p p' \<longleftrightarrow>
     (\<exists>ctx rds a dev1 a' dev2 q ios.
        tsi_new_ctx (e_malloc env) (rt_tsi rt) = Some ctx \<and>
        peek_rds (rt_io rt) ctx guest (p_dev p) = (0, a, dev1) \<and>
        pending_guest_rds a = Some rds \<and> guest \<in> set (take MAX_BIND_VM rds) \<and>
        rt_io rt (fd ctx) OP_MIGRATE_GET_ATTR guest a dev1 = (0, a', dev2) \<and>
        rats_tls_client_startup env rt il net_ok (fst g) (snd g)
          (p\<lparr>p_dev := dev2, p_args := (p_args p)\<lparr>msk := mi_msk a', tag := mi_tag a', rand_iv := mi_rand_iv a'\<rparr>\<rparr>)
          = Some (0, ios, q) \<and>
        dev_store rt ctx guest (a'\<lparr>slot_status := SLOT_IS_READY, set_key := True\<rparr>) (p_dev q) = (0, p_dev p') \<and>
        p' = q\<lparr>p_dev := p_dev p'\<rparr> \<and>
        p_static p' = (p_args p)\<lparr>msk := mi_msk a', tag := mi_tag a', rand_iv := mi_rand_iv a'\<rparr>)"

lemma bound_guest_Inl_nonzero:
  "bound_guest malloc_ok io ctx err guest dev = Some (Inl e, dev') \<Longrightarrow> err \<noteq> 0 \<Longrightarrow> e \<noteq> 0"
  by (auto simp: bound_guest_def split: if_splits option.splits bind_splits prod.splits)

lemma migrate_out_ok:
  assumes "migrate_out env rt il net_ok g ctx p = Some (0, ios, p')"
    "tsi_new_ctx (e_malloc env) (rt_tsi rt) = Some ctx"
  shows "handed_over env rt il net_ok g (guest_rd (p_args p)) p p'"
proof -
  obtain m a dev1 where b: "bound_guest (e_malloc env) (rt_io rt) ctx TSI_ERROR_STATE (guest_rd (p_args p)) (p_dev p)
      = Some (Inr (m, a), dev1)"
    using assms(1) bound_guest_Inl_nonzero [of _ _ _ TSI_ERROR_STATE] unfolding migrate_out_def
    by (fastforce split: bind_splits sum.splits)
  obtain rds where r: "peek_rds (rt_io rt) ctx (guest_rd (p_args p)) (p_dev p) = (0, a, dev1)"
    "pending_guest_rds a = Some rds" "guest_rd (p_args p) \<in> set (take MAX_BIND_VM rds)" "vm_guest_rd m = guest_rd (p_args p)"
    using bound_guest_Inr [OF b] by blast
  obtain ret a' dev2 where g: "rt_io rt (fd ctx) OP_MIGRATE_GET_ATTR (guest_rd (p_args p)) a dev1 = (ret, a', dev2)"
    by (metis prod_cases3)
  have "ret = 0" using assms(1) b g r(4)
    by (auto simp: migrate_out_def get_migration_info_and_mask_def Let_def split: if_splits)
  then obtain q where q: "rats_tls_client_startup env rt il net_ok (fst g) (snd g)
      (p\<lparr>p_dev := dev2, p_args := (p_args p)\<lparr>msk := mi_msk a', tag := mi_tag a', rand_iv := mi_rand_iv a'\<rparr>\<rparr>) = Some (0, ios, q)"
    "dev_store rt ctx (guest_rd (p_args p)) (a'\<lparr>slot_status := SLOT_IS_READY, set_key := True\<rparr>) (p_dev q) = (0, p_dev p')"
    "p' = q\<lparr>p_dev := p_dev p'\<rparr>"
    using assms(1) b g r(4)
    by (auto simp: migrate_out_def get_migration_info_and_mask_def set_migration_bind_slot_and_mask_def dev_store_def Let_def
        split: if_splits bind_splits prod.splits)
  have st: "p_static p' = p_static q" using arg_cong [OF q(3), of p_static] by simp
  show ?thesis unfolding handed_over_def
    using assms(2) r(1-3) g \<open>ret = 0\<close> q client_startup_static [OF q(1)] st by fastforce
qed

lemma start_client_ok:
  assumes "start_client env rt il net_ok g ctx msg ag = Some (0, ag')" "msg_wf msg"
    "tsi_new_ctx (e_malloc env) (rt_tsi rt) = Some ctx"
  shows "cmd_is msg ''START_CLIENT'' \<and> ull_payload (msg_payload msg) \<noteq> 0 \<and>
    (\<exists>args. guest_rd args = ull_payload (msg_payload msg) \<and>
       handed_over env rt il net_ok g (ull_payload (msg_payload msg)) ((a_peer ag)\<lparr>p_args := args\<rparr>) (a_peer ag'))"
proof -
  obtain payload where d: "payload_decode_all msg zero_payload = Some payload" "ull_payload payload = ull_payload (msg_payload msg)"
    using decode_in_bounds(1) [of zero_payload msg] assms(2) by (auto simp: zero_payload_def)
  obtain as ag1 ios p where m: "migrate_out env rt il net_ok g ctx (a_peer ag1) = Some (0, ios, p)" "a_peer ag' = p"
    "ag1 = set_args as ag" "guest_rd as = ull_payload payload" "guest_rd as \<noteq> 0"
    "cmd_is msg ''START_CLIENT''"
    using assms(1) d(1) unfolding start_client_def
    by (auto simp: Let_def split: if_splits bind_splits)
  moreover have "a_peer ag1 = (a_peer ag)\<lparr>p_args := as\<rparr>" using m(3) by (simp add: set_args_def)
  ultimately show ?thesis using migrate_out_ok [OF m(1) assms(3)] d(2) by auto
qed

lemma send_ack_out:
  assumes "Write_failed \<notin> set (v_wr c)" "send_ack ack c = (ok, c')"
  shows "ok \<and> v_out c' = v_out c @ msg_bytes ack"
proof -
  obtain ws where "writen (msg_bytes ack) c = (True, c\<lparr>v_wr := ws, v_out := v_out c @ msg_bytes ack\<rparr>)"
    using writen_all [OF assms(1)] by blast
  then show ?thesis using assms(2) readn_keeps [of 8 "c\<lparr>v_wr := ws, v_out := v_out c @ msg_bytes ack\<rparr>"]
    by (cases "readn 8 (c\<lparr>v_wr := ws, v_out := v_out c @ msg_bytes ack\<rparr>)") (auto simp: send_ack_def)
qed

text \<open>
  C4. The answer to \<open>START_CLIENT\<close>. Whenever the handler returns and the connection takes what is
  written, the host gets exactly one acknowledgement with the session number of its request, and the
  guest and the key material in the arguments of the agent are zero. The acknowledgement reports
  success only when the request named a guest that the device lists as bound to the agent, the
  handover with the key of that guest returned success, and the device then accepted the slot as
  ready. The key is then not forgotten altogether: the static copy that
  \<open>rats_tls_client_startup\<close> made of the arguments still has it, as the device gave it.
\<close>

theorem client_request_acknowledged:
  assumes "ras_tls_handler_client env rt il net_ok g msg c ag = Some (c', ag')"
    and "Write_failed \<notin> set (v_wr c)" "msg_wf msg"
  shows "\<exists>ok. v_out c' = v_out c @ msg_bytes (ack_of ''START_CLIENT_ACK'' (if ok then 1 else 0) msg) \<and>
    guest_rd (a_args ag') = 0 \<and> msk (a_args ag') = replicate 4 0 \<and> rand_iv (a_args ag') = replicate 4 0 \<and>
    tag (a_args ag') = replicate 2 0 \<and>
    (ok \<longrightarrow> cmd_is msg ''START_CLIENT'' \<and> ull_payload (msg_payload msg) \<noteq> 0 \<and>
       (\<exists>args p'. guest_rd args = ull_payload (msg_payload msg) \<and>
          handed_over env rt il net_ok g (guest_rd args) ((a_peer ag)\<lparr>p_args := args\<rparr>) p' \<and>
          a_peer ag' = p'\<lparr>p_args := wipe_args (p_args p')\<rparr>))"
proof -
  obtain ctx args ret ag1 where h: "tsi_new_ctx (e_malloc env) (rt_tsi rt) = Some ctx"
    "start_client env rt il net_ok g ctx msg (set_args args ag) = Some (ret, ag1)"
    "c' = snd (send_ack (ack_of ''START_CLIENT_ACK'' (if ret \<noteq> TSI_SUCCESS then 0 else 1) msg) c)"
    "ag' = set_args (wipe_args (a_args ag1)) ag1"
    using assms(1) unfolding ras_tls_handler_client_def
    by (auto simp: case_prod_beta split: bind_splits if_splits)
  have "v_out c' = v_out c @ msg_bytes (ack_of ''START_CLIENT_ACK'' (if ret = 0 then 1 else 0) msg)"
    using send_ack_out [OF assms(2) prod.collapse [symmetric]] h(3) by simp
  moreover have "ret = 0 \<Longrightarrow> cmd_is msg ''START_CLIENT'' \<and> ull_payload (msg_payload msg) \<noteq> 0 \<and>
      (\<exists>args. guest_rd args = ull_payload (msg_payload msg) \<and>
         handed_over env rt il net_ok g (guest_rd args) ((a_peer ag)\<lparr>p_args := args\<rparr>) (a_peer ag1))"
    using start_client_ok [OF _ assms(3) h(1), of il net_ok g "set_args args ag" ag1] h(2)
    by (auto simp: set_args_def)
  moreover have "a_peer ag' = (a_peer ag1)\<lparr>p_args := wipe_args (p_args (a_peer ag1))\<rparr>"
    using h(4) by (simp add: set_args_def a_args_def)
  ultimately show ?thesis using h(4)
    by (intro exI [of _ "ret = 0"]) (auto simp: wipe_args_def)
qed

text \<open>A request to migrate the guest 7, over the sample session.\<close>

definition demo_payload :: socket_payload where
  "demo_payload = \<lparr>char_payload = bytes_of_string ''10.0.0.2'' @ replicate 248 0, ull_payload = 7\<rparr>"

definition demo_request :: socket_msg where
  "demo_request = payload_encode_all (zero_msg\<lparr>msg_cmd := bytes_of_string ''START_CLIENT'' @ replicate 4 0, session_id := 5\<rparr>) demo_payload"

definition demo_agent :: "(msg_queue, (u64 \<times> migration_info) list) agent" where
  "demo_agent = \<lparr>a_peer = demo_src, a_ip_freed = False, a_threads = []\<rparr>"

definition demo_conn :: vsock where
  "demo_conn = \<lparr>v_in = [], v_wr = [], v_out = []\<rparr>"

abbreviation (input) demo_session :: "(msg_queue, (u64 \<times> migration_info) list) rats" where
  "demo_session \<equiv> session_rats [sample_evidence, ack_msg] demo_rats"

lemma demo_payload_clean: "payload_clean demo_payload"
  unfolding payload_clean_def demo_payload_def
  by (intro exI [of _ "bytes_of_string ''10.0.0.2''"]) (simp add: bytes_of_string_def)

lemma demo_request_facts:
  "msg_wf demo_request" "cmd_is demo_request ''START_CLIENT''"
  "payload_decode_all demo_request zero_payload = Some demo_payload" "payload_char_len demo_request = 9"
proof -
  show "msg_wf demo_request"
    by (simp add: msg_wf_def demo_request_def payload_encode_all_def length_strncpy_bytes demo_payload_def zero_msg_def)
  show "cmd_is demo_request ''START_CLIENT''"
    by (simp add: cmd_is_def demo_request_def payload_encode_all_def zero_msg_def c_lit_def bytes_of_string_def)
  show "payload_decode_all demo_request zero_payload = Some demo_payload"
    unfolding demo_request_def by (rule payload_all_roundtrip [OF demo_payload_clean])
  show "payload_char_len demo_request = 9"
    by (simp add: demo_request_def payload_encode_all_def demo_payload_def strnlen_def bytes_of_string_def)
qed

lemma demo_address: "c_string (strncpy_bytes 255 (char_payload demo_payload)) = ''10.0.0.2''"
  by (simp add: demo_payload_def strncpy_bytes_def Let_def bytes_of_string_def c_string_def) code_simp

lemma demo_init:
  "mig_agent_init (\<lambda>_. True) (demo_args 7) = (0, demo_args 7)"
  by (simp add: mig_agent_init_def dup_member_def safe_strdup_def demo_args_def)

lemma demo_migrate_out:
  assumes "p_args p = demo_args 7" "p_files p = toy_files" "p_dev p = []"
  shows "\<exists>p' ios. migrate_out chain_env demo_session demo_ima (\<lambda>_. True) (replicate 32 3, 32) demo_ctx p = Some (0, ios, p')"
proof -
  have e: "e_malloc chain_env = (\<lambda>_. True)" by (simp add: chain_env_def demo_env_def)
  have io: "rt_io demo_session = demo_io" by (simp add: session_rats_def demo_rats_def)
  obtain m where m: "vm_guest_rd m = 7"
    "bound_guest (\<lambda>_. True) demo_io demo_ctx TSI_ERROR_STATE 7 [] = Some (Inr (m, demo_bound), [])"
    using bound_guest_succeeds [of "\<lambda>_. True" demo_io demo_ctx 7 "[]" demo_bound "[]" "7 # replicate 255 0" TSI_ERROR_STATE]
      demo_facts(6) [of "[]"] demo_facts(8) by (auto simp: demo_rats_def)
  let ?p = "p\<lparr>p_dev := [], p_args := (demo_args 7)\<lparr>msk := mi_msk demo_bound, tag := mi_tag demo_bound, rand_iv := mi_rand_iv demo_bound\<rparr>\<rparr>"
  obtain conf where "client_conf (p_args ?p) = Some conf" by (simp add: client_conf_def conf_of_args_def demo_args_def)
  then have "rats_tls_client_startup chain_env demo_session demo_ima (\<lambda>_. True) (replicate 32 3) 32 ?p =
      Some (0, Some \<lparr>io_guest_rd = 7, io_is_server = False\<rparr>,
        ?p\<lparr>p_static := p_args ?p, p_tls := ([], [bytes_of_string ''MSK_SEND'', key_package (p_args ?p)])\<rparr>)"
    using plain_migration [of ?p conf] assms(2) by (simp add: demo_args_def)
  then show ?thesis
    using m assms(1,3) by (simp add: migrate_out_def e io demo_facts get_migration_info_and_mask_def
        set_migration_bind_slot_and_mask_def demo_io_def Let_def)
qed

lemma demo_handler:
  "\<exists>c' ag'. ras_tls_handler_client chain_env demo_session demo_ima (\<lambda>_. True) (replicate 32 3, 32) demo_request demo_conn demo_agent
     = Some (c', ag') \<and> v_out c' = msg_bytes (ack_of ''START_CLIENT_ACK'' 1 demo_request)"
proof -
  have e: "e_malloc chain_env = (\<lambda>_. True)" by (simp add: chain_env_def demo_env_def)
  have tsi: "tsi_new_ctx (\<lambda>_. True) (rt_tsi demo_session) = Some demo_ctx"
    by (simp add: session_rats_def demo_facts)
  let ?p = "demo_src\<lparr>p_args := (demo_args 7)\<lparr>guest_rd := 7, srv_ip := Some ''10.0.0.2''\<rparr>\<rparr>"
  have a: "p_args ?p = demo_args 7" by (simp add: demo_args_def)
  obtain p' ios where "migrate_out chain_env demo_session demo_ima (\<lambda>_. True) (replicate 32 3, 32) demo_ctx ?p = Some (0, ios, p')"
    using demo_migrate_out [OF a] by (auto simp: demo_src_def demo_peer_def)
  then have "\<exists>ag'. start_client chain_env demo_session demo_ima (\<lambda>_. True) (replicate 32 3, 32) demo_ctx demo_request
      (set_args (demo_args 7) demo_agent) = Some (0, ag')"
    by (simp add: start_client_def e demo_request_facts demo_address demo_agent_def set_args_def a_args_def
        safe_strdup_def Let_def) (simp add: demo_payload_def)
  moreover have "v_out (snd (send_ack ack demo_conn)) = msg_bytes ack" for ack
    using send_ack_out [OF _ prod.collapse [symmetric], of demo_conn ack] by (simp add: demo_conn_def)
  ultimately show ?thesis
    by (auto simp: ras_tls_handler_client_def e tsi demo_init demo_agent_def a_args_def demo_src_def demo_peer_def case_prod_beta)
qed

theorem client_request_acknowledged_witness:
  "\<exists>args p'. guest_rd args = 7 \<and>
     handed_over chain_env demo_session demo_ima (\<lambda>_. True) (replicate 32 3, 32) 7 ((a_peer demo_agent)\<lparr>p_args := args\<rparr>) p'"
proof -
  obtain c' ag' where h: "ras_tls_handler_client chain_env demo_session demo_ima (\<lambda>_. True) (replicate 32 3, 32)
      demo_request demo_conn demo_agent = Some (c', ag')" "v_out c' = msg_bytes (ack_of ''START_CLIENT_ACK'' 1 demo_request)"
    using demo_handler by blast
  have n: "msg_bytes (ack_of ''START_CLIENT_ACK'' 0 demo_request) \<noteq> msg_bytes (ack_of ''START_CLIENT_ACK'' 1 demo_request)"
    by (simp add: msg_bytes_def ack_of_def word_bytes_def) code_simp
  have u: "ull_payload (msg_payload demo_request) = 7"
    by (simp add: demo_request_def payload_encode_all_def demo_payload_def)
  have w: "Write_failed \<notin> set (v_wr demo_conn)" "v_out demo_conn = []" by (simp_all add: demo_conn_def)
  obtain ok where "msg_bytes (ack_of ''START_CLIENT_ACK'' 1 demo_request) = msg_bytes (ack_of ''START_CLIENT_ACK'' (if ok then 1 else 0) demo_request)"
    "ok \<longrightarrow> (\<exists>args p'. guest_rd args = 7 \<and>
       handed_over chain_env demo_session demo_ima (\<lambda>_. True) (replicate 32 3, 32) (guest_rd args) ((a_peer demo_agent)\<lparr>p_args := args\<rparr>) p')"
    using client_request_acknowledged [OF h(1) w(1) demo_request_facts(1)] unfolding h(2) w(2) u append_Nil by metis
  moreover from this(1) n have ok by (cases ok) auto
  ultimately show ?thesis by metis
qed


section \<open>The destination\<close>

text \<open>
  The answer to \<open>START_SERVER\<close> comes before the destination listens; it listens only for a request
  that names a guest, and only when the answer was written.
\<close>

lemma send_ack_True:
  assumes "send_ack ack c = (True, c')"
  shows "v_out c' = v_out c @ msg_bytes ack"
proof -
  obtain c1 where w: "writen (msg_bytes ack) c = (True, c1)" "c' = snd (readn 8 c1)"
    using assms by (auto simp: send_ack_def case_prod_beta) (metis prod.collapse)
  then have "v_out c1 = v_out c @ msg_bytes ack"
    using writen_loop_all [of "v_wr c" "msg_bytes ack" "v_out c"] by (auto simp: writen_def split: prod.splits)
  then show ?thesis using w(2) readn_keeps [OF prod.collapse [symmetric], of 8 c1] by simp
qed

lemma server_thread_on_request:
  assumes "ras_tls_handler_server env rt net_ok msg c ag = Some (c', ag')" "a_threads ag' \<noteq> a_threads ag"
  shows "cmd_is msg ''START_SERVER'' \<and> payload_type msg = PAYLOAD_TYPE_ULL \<and> ull_payload (msg_payload msg) \<noteq> 0 \<and>
    v_out c' = v_out c @ msg_bytes (ack_of ''START_SERVER_ACK'' 1 msg)"
proof -
  have "cmd_is msg ''START_SERVER''" "payload_type msg = PAYLOAD_TYPE_ULL" "ull_payload (msg_payload msg) \<noteq> 0"
    "send_ack (ack_of ''START_SERVER_ACK'' 1 msg) c = (True, c')"
    using assms unfolding ras_tls_handler_server_def
    by (auto simp: payload_decode_one_type_def Let_def split: bind_splits if_splits prod.splits)
  then show ?thesis using send_ack_True by blast
qed


section \<open>Requests that go wrong\<close>

text \<open>Without the device the handler frees a pointer that was never set.\<close>

lemma handler_without_device:
  "tsi_new_ctx (e_malloc env) (rt_tsi rt) = None \<Longrightarrow> ras_tls_handler_client env rt il net_ok g msg c ag = None"
  by (simp add: ras_tls_handler_client_def)

text \<open>
  When there is no memory for the address of the destination, the freed old one stays in the
  arguments, and the next request uses it.
\<close>

lemma freed_address_kept:
  assumes "payload_decode_all msg zero_payload = Some pl" "cmd_is msg ''START_CLIENT''" "e_malloc env 256"
    "\<not> a_ip_freed ag" "payload_char_len msg > 0"
    "c_string (strncpy_bytes 255 (char_payload pl)) = ip" "ip \<noteq> ''127.0.0.1''" "\<not> e_malloc env (length ip + 1)"
  shows "\<exists>ag'. start_client env rt il net_ok g ctx msg ag = Some (TSI_ERROR_INPUT, ag') \<and> a_ip_freed ag'"
  using assms by (simp add: start_client_def Let_def set_args_def safe_strdup_def)

lemma freed_address_used:
  assumes "cmd_is msg ''START_CLIENT''" "e_malloc env 256" "a_ip_freed ag"
  shows "start_client env rt il net_ok g ctx msg ag = None"
  using assms by (simp add: start_client_def Let_def set_args_def split: bind_split)

text \<open>
  The handover reports success when it could not allocate its handle, and the host is told that the
  migration was started although nothing was sent.
\<close>

lemma success_without_handover:
  assumes "bound_guest (e_malloc env) (rt_io rt) ctx TSI_ERROR_STATE (guest_rd (p_args p)) (p_dev p) = Some (Inr (m, a), dev1)"
    and "rt_io rt (fd ctx) OP_MIGRATE_GET_ATTR (vm_guest_rd m) a dev1 = (0, a', dev2)"
    and "\<not> e_malloc env 8" "\<And>c. net_ok c" "\<exists>conf. client_conf (p_args p) = Some conf"
    and "dev_store rt ctx (vm_guest_rd m) (a'\<lparr>slot_status := SLOT_IS_READY, set_key := True\<rparr>) dev2 = (0, dev3)"
  shows "\<exists>p'. migrate_out env rt il net_ok g ctx p = Some (0, None, p') \<and> p_tls p' = p_tls p"
proof -
  let ?p = "p\<lparr>p_dev := dev2, p_args := (p_args p)\<lparr>msk := mi_msk a', tag := mi_tag a', rand_iv := mi_rand_iv a'\<rparr>\<rparr>"
  obtain conf where "client_conf (p_args ?p) = Some conf"
    using assms(5) by (auto simp: client_conf_def conf_of_args_def split: bind_splits)
  from no_handle_reported [OF this assms(4,3)]
  have "rats_tls_client_startup env rt il net_ok (fst g) (snd g) ?p = Some (0, None, ?p\<lparr>p_static := p_args ?p\<rparr>)" .
  then show ?thesis using assms(1,2,6)
    by (auto simp: migrate_out_def get_migration_info_and_mask_def set_migration_bind_slot_and_mask_def dev_store_def Let_def
        split: if_splits prod.splits)
qed

end
