(* ===== verification/Sample_Server.thy ===== *)
theory Sample_Server
  imports Sample_Client Sdk_Attestation
begin

text \<open>
  The attester of the sample, \<open>attestation/samples/src/server.c\<close>: a loop over the messages of
  the relying party. The result of \<open>read\<close> into \<open>msg_id\<close> is not checked, so at the end of the
  stream the previous message is handled again; the initial value of the variable is the
  argument \<open>m0\<close>. \<^term>\<open>None\<close> is an access outside a buffer or a loop that does not end.
\<close>

abbreviation (input) SRV_CCEL_TABLE_PATH :: string
  where "SRV_CCEL_TABLE_PATH \<equiv> ''/sys/firmware/acpi/tables/CCEL''"
abbreviation (input) SRV_EVENT_LOG_PATH :: string
  where "SRV_EVENT_LOG_PATH \<equiv> ''/sys/firmware/acpi/tables/data/CCEL''"
abbreviation (input) KEY_FILE_PATH :: string where "KEY_FILE_PATH \<equiv> ''/root/rootfs_key.bin''"

record server_env =
  v_malloc :: "nat \<Rightarrow> bool"
  v_open :: "string \<Rightarrow> bool"
  v_io :: "string \<Rightarrow> bool"
  v_dev :: tsi_device
  v_sent :: "bytes \<Rightarrow> nat"

record server_state =
  srv_sock :: sock
  srv_files :: files
  srv_use_fde :: bool

text \<open>\<open>read (connfd, &msg_id, sizeof (msg_id))\<close>: what arrives overwrites the low bytes.\<close>

definition read_msg_id :: "u32 \<Rightarrow> sock \<Rightarrow> nat \<times> u32 \<times> sock" where
  "read_msg_id old s =
     (case sock_read 4 s of
        (None, s') \<Rightarrow> (0, old, s')
      | (Some bs, s') \<Rightarrow> (length bs, word_of_bytes (bs @ drop (length bs) (word_bytes old)), s'))"

text \<open>
  The sending loop of the event log: \<open>v_sent\<close> is how many bytes a \<open>write\<close> of the given data
  takes, zero for a failure. Result: whether everything was sent.
\<close>

function send_all :: "(bytes \<Rightarrow> nat) \<Rightarrow> bytes \<Rightarrow> sock \<Rightarrow> bool \<times> sock" where
  "send_all sent bs s =
     (if bs = [] then (True, s)
      else let n = min (sent bs) (length bs) in
           if n = 0 then (False, s) else send_all sent (drop n bs) (sock_write (take n bs) s))"
  by pat_completeness auto
termination
  by (relation "measure (\<lambda>(_, bs, _). length bs)") (auto simp: min_def)

declare send_all.simps [simp del]

section \<open>Handlers\<close>

text \<open>\<open>Inl (ret, st)\<close> leaves \<open>handle_connect\<close> with that value, \<open>Inr st\<close> goes on.\<close>

definition srv_device_cert :: "server_env \<Rightarrow> tsi_ctx \<Rightarrow> server_state \<Rightarrow> ((int \<times> server_state) + server_state) option" where
  "srv_device_cert env ctx st =
     do {
       (ret, buf, len) \<leftarrow> get_dev_cert (v_dev env) (Some ctx) (Some (replicate MAX_BUF 0)) (Some MAX_BUF);
       if ret \<noteq> TSI_SUCCESS then Some (Inl (ret, st))
       else do {
         b \<leftarrow> buf;
         n \<leftarrow> len;
         d \<leftarrow> mem_read b 0 n;
         Some (Inr (st\<lparr>srv_sock := sock_write d (srv_sock st)\<rparr>))
       }
     }"

definition srv_attest :: "server_env \<Rightarrow> tsi_ctx \<Rightarrow> server_state \<Rightarrow> ((int \<times> server_state) + server_state) option" where
  "srv_attest env ctx st =
     (let (r, s) = sock_read 64 (srv_sock st) in
      do {
        (ret, buf, len) \<leftarrow> get_attestation_token (v_dev env) (Some ctx) (Some (fill 64 r)) 64
                            (Some (replicate MAX_BUF 0)) (Some MAX_BUF);
        if ret \<noteq> TSI_SUCCESS then Some (Inl (ret, st\<lparr>srv_sock := s\<rparr>))
        else do {
          b \<leftarrow> buf;
          n \<leftarrow> len;
          d \<leftarrow> mem_read b 0 n;
          Some (Inr (st\<lparr>srv_sock := sock_write d s\<rparr>))
        }
      })"

definition srv_acpi_table :: "server_env \<Rightarrow> server_state \<Rightarrow> ((int \<times> server_state) + server_state) option" where
  "srv_acpi_table env st =
     do {
       (ret, d) \<leftarrow> read_file_data (v_malloc env) (v_io env) (srv_files st) SRV_CCEL_TABLE_PATH;
       if ret \<noteq> TSI_SUCCESS then Some (Inl (ret, st))
       else do { d \<leftarrow> d; Some (Inr (st\<lparr>srv_sock := sock_write d (srv_sock st)\<rparr>)) }
     }"

definition srv_event_log :: "server_env \<Rightarrow> server_state \<Rightarrow> ((int \<times> server_state) + server_state) option" where
  "srv_event_log env st =
     do {
       (ret, d) \<leftarrow> read_file_data (v_malloc env) (v_io env) (srv_files st) SRV_EVENT_LOG_PATH;
       if ret \<noteq> TSI_SUCCESS then Some (Inl (ret, st))
       else do {
         d \<leftarrow> d;
         let hdr = word_bytes (of_nat (length d) :: u64);
         if v_sent env hdr < 8 then Some (Inl (1, st\<lparr>srv_sock := sock_write (take (v_sent env hdr) hdr) (srv_sock st)\<rparr>))
         else
           let (ok, s) = send_all (v_sent env) d (sock_write hdr (srv_sock st)) in
           if \<not> ok then Some (Inl (1, st\<lparr>srv_sock := s\<rparr>)) else Some (Inr (st\<lparr>srv_sock := s\<rparr>))
       }
     }"

text \<open>The branch for a positive verdict: result code and final state.\<close>

definition srv_verify_success :: "server_env \<Rightarrow> u32 \<Rightarrow> server_state \<Rightarrow> int \<times> server_state" where
  "srv_verify_success env msg_id st =
     (let (n, msg_id, s) = read_msg_id msg_id (srv_sock st); st = st\<lparr>srv_sock := s\<rparr> in
      if n \<noteq> 4 then (VERIFY_FAILED, st)
      else
        let st = st\<lparr>srv_use_fde := (msg_id = USE_FDE_MSG_ID)\<rparr> in
        if srv_use_fde st then
          let (r, s) = sock_read MAX_BUF (srv_sock st); st = st\<lparr>srv_sock := s\<rparr> in
          case r of
            None \<Rightarrow> (VERIFY_FAILED, st)
          | Some key \<Rightarrow>
              if key = [] then (VERIFY_FAILED, st)
              else
                let (ret, fs) = save_file_data (v_open env) (v_io env) (srv_files st) KEY_FILE_PATH key;
                    st = st\<lparr>srv_files := fs\<rparr> in
                if ret \<noteq> 0 then (VERIFY_FAILED, st) else (ret, st)
        else (VERIFY_SUCCESS, st))"

partial_function (option) serve_loop ::
  "server_env \<Rightarrow> tsi_ctx \<Rightarrow> u32 \<Rightarrow> server_state \<Rightarrow> (int \<times> server_state) option"
where
  "serve_loop env ctx msg_id st =
     (let (_, msg_id, s) = read_msg_id msg_id (srv_sock st); st = st\<lparr>srv_sock := s\<rparr> in
      if msg_id = DEVICE_CERT_MSG_ID then
        Option.bind (srv_device_cert env ctx st) (\<lambda>r. case r of Inl ret \<Rightarrow> Some ret
          | Inr st \<Rightarrow> serve_loop env ctx msg_id st)
      else if msg_id = ATTEST_MSG_ID then
        Option.bind (srv_attest env ctx st) (\<lambda>r. case r of Inl ret \<Rightarrow> Some ret
          | Inr st \<Rightarrow> serve_loop env ctx msg_id st)
      else if msg_id = CCEL_ACPI_TABLE_ID then
        Option.bind (srv_acpi_table env st) (\<lambda>r. case r of Inl ret \<Rightarrow> Some ret
          | Inr st \<Rightarrow> serve_loop env ctx msg_id st)
      else if msg_id = CCEL_EVENT_LOG_ID then
        Option.bind (srv_event_log env st) (\<lambda>r. case r of Inl ret \<Rightarrow> Some ret
          | Inr st \<Rightarrow> serve_loop env ctx msg_id st)
      else if msg_id = VERIFY_SUCCESS_MSG_ID then Some (srv_verify_success env msg_id st)
      else Some (VERIFY_FAILED, st))"

definition server_handle_connect ::
  "server_env \<Rightarrow> tsi_ctx \<Rightarrow> u32 \<Rightarrow> server_state \<Rightarrow> (int \<times> server_state) option"
where
  "server_handle_connect env ctx m0 st =
     (let (ret, _) = get_version (v_dev env) (Some ctx) (Some (0, 0)) in
      if ret \<noteq> TSI_SUCCESS then Some (ret, st) else serve_loop env ctx m0 st)"



section \<open>The key file\<close>

lemma handlers_keep_files:
  "srv_device_cert env ctx st = Some (Inr st') \<Longrightarrow> srv_files st' = srv_files st"
  "srv_attest env ctx st = Some (Inr st') \<Longrightarrow> srv_files st' = srv_files st"
  "srv_acpi_table env st = Some (Inr st') \<Longrightarrow> srv_files st' = srv_files st"
  "srv_event_log env st = Some (Inr st') \<Longrightarrow> srv_files st' = srv_files st"
  "srv_device_cert env ctx st = Some (Inl r) \<Longrightarrow> srv_files (snd r) = srv_files st"
  "srv_attest env ctx st = Some (Inl r) \<Longrightarrow> srv_files (snd r) = srv_files st"
  "srv_acpi_table env st = Some (Inl r) \<Longrightarrow> srv_files (snd r) = srv_files st"
  "srv_event_log env st = Some (Inl r) \<Longrightarrow> srv_files (snd r) = srv_files st"
  by (auto simp: srv_device_cert_def srv_attest_def srv_acpi_table_def srv_event_log_def Let_def
      simp del: sock_read.simps split: bind_splits if_splits prod.splits)

text \<open>A run either leaves the files alone, or an FDE request wrote a key, and nothing but the key.\<close>

definition files_ok :: "files \<Rightarrow> int \<times> server_state \<Rightarrow> bool" where
  "files_ok fs r \<longleftrightarrow> srv_files (snd r) = fs \<or>
     srv_use_fde (snd r) \<and> (\<exists>key. srv_files (snd r) = fs(KEY_FILE_PATH \<mapsto> key)) \<and>
     (fst r = 0 \<longrightarrow> (\<exists>key. key \<noteq> [] \<and> srv_files (snd r) = fs(KEY_FILE_PATH \<mapsto> key)))"

lemma verify_success_files: "files_ok (srv_files st) (srv_verify_success env m st)"
  by (auto simp: srv_verify_success_def Let_def files_ok_def save_file_data_def simp del: sock_read.simps
      split: prod.splits if_splits option.splits)

lemma serve_loop_files:
  assumes "serve_loop env ctx m st = Some r"
  shows "files_ok (srv_files st) r"
proof (rule serve_loop.raw_induct [where P = "\<lambda>env ctx m st r. files_ok (srv_files st) r", OF _ assms])
  fix f :: "server_env \<Rightarrow> tsi_ctx \<Rightarrow> u32 \<Rightarrow> server_state \<Rightarrow> (int \<times> server_state) option"
    and env ctx m st r
  assume IH: "\<And>env ctx m st r. f env ctx m st = Some r \<Longrightarrow> files_ok (srv_files st) r"
    and eq: "(let (_, msg_id, s) = read_msg_id m (srv_sock st); st = st\<lparr>srv_sock := s\<rparr> in
      if msg_id = DEVICE_CERT_MSG_ID then
        Option.bind (srv_device_cert env ctx st) (\<lambda>r. case r of Inl ret \<Rightarrow> Some ret
          | Inr st \<Rightarrow> f env ctx msg_id st)
      else if msg_id = ATTEST_MSG_ID then
        Option.bind (srv_attest env ctx st) (\<lambda>r. case r of Inl ret \<Rightarrow> Some ret
          | Inr st \<Rightarrow> f env ctx msg_id st)
      else if msg_id = CCEL_ACPI_TABLE_ID then
        Option.bind (srv_acpi_table env st) (\<lambda>r. case r of Inl ret \<Rightarrow> Some ret
          | Inr st \<Rightarrow> f env ctx msg_id st)
      else if msg_id = CCEL_EVENT_LOG_ID then
        Option.bind (srv_event_log env st) (\<lambda>r. case r of Inl ret \<Rightarrow> Some ret
          | Inr st \<Rightarrow> f env ctx msg_id st)
      else if msg_id = VERIFY_SUCCESS_MSG_ID then Some (srv_verify_success env msg_id st)
      else Some (VERIFY_FAILED, st)) = Some r"
  obtain n m1 s1 where rd: "read_msg_id m (srv_sock st) = (n, m1, s1)" by (cases "read_msg_id m (srv_sock st)")
  let ?st = "st\<lparr>srv_sock := s1\<rparr>"
  have loop: "files_ok (srv_files st) r" if "f env ctx m1 st2 = Some r" "srv_files st2 = srv_files ?st" for st2
    using IH [OF that(1)] that(2) by simp
  have stop: "files_ok (srv_files st) x" if "srv_files (snd x) = srv_files ?st" for x :: "int \<times> server_state"
    using that by (simp add: files_ok_def)
  have succ: "files_ok (srv_files st) (srv_verify_success env m1 ?st)"
    using verify_success_files [of ?st env m1] by simp
  show "files_ok (srv_files st) r"
    using eq [unfolded rd Let_def prod.case] stop succ loop handlers_keep_files
    by (auto split: if_split_asm bind_splits sum.splits)
qed


section \<open>The end of the stream\<close>

lemma read_msg_id_eof: "s_in s = [] \<Longrightarrow> read_msg_id m s = (0, m, s)"
  by (simp add: read_msg_id_def le_simps)

text \<open>
  When the peer closes the connection after asking for the device certificate, the server
  sends the certificate again and again.
\<close>

definition cert_eof :: "server_env \<Rightarrow> tsi_ctx \<Rightarrow> bool" where
  "cert_eof env ctx \<longleftrightarrow> (\<exists>buf n. get_dev_cert (v_dev env) (Some ctx) (Some (replicate 4096 0)) (Some 4096)
     = Some (TSI_SUCCESS, Some buf, Some n) \<and> n \<le> length buf)"

lemma srv_device_cert_eof:
  "cert_eof env ctx \<Longrightarrow> s_in (srv_sock st) = [] \<Longrightarrow>
   \<exists>st'. srv_device_cert env ctx st = Some (Inr st') \<and> s_in (srv_sock st') = []"
  by (auto simp: cert_eof_def srv_device_cert_def mem_read_def)

lemma serve_loop_eof:
  assumes "cert_eof env ctx" "s_in (srv_sock st) = []"
  shows "serve_loop env ctx DEVICE_CERT_MSG_ID st = None"
proof -
  let ?P = "\<lambda>env ctx m st r. \<not> (cert_eof env ctx \<and> s_in (srv_sock st) = [] \<and> m = DEVICE_CERT_MSG_ID)"
  have "?P env ctx DEVICE_CERT_MSG_ID st r" if "serve_loop env ctx DEVICE_CERT_MSG_ID st = Some r" for r
  proof (rule serve_loop.raw_induct [where P = ?P, OF _ that], rule notI, elim conjE)
    fix f :: "server_env \<Rightarrow> tsi_ctx \<Rightarrow> u32 \<Rightarrow> server_state \<Rightarrow> (int \<times> server_state) option"
      and env ctx m st r
    assume IH: "\<And>env ctx m st r. f env ctx m st = Some r \<Longrightarrow> ?P env ctx m st r"
      and eq: "(let (_, msg_id, s) = read_msg_id m (srv_sock st); st = st\<lparr>srv_sock := s\<rparr> in
      if msg_id = DEVICE_CERT_MSG_ID then
        Option.bind (srv_device_cert env ctx st) (\<lambda>r. case r of Inl ret \<Rightarrow> Some ret
          | Inr st \<Rightarrow> f env ctx msg_id st)
      else if msg_id = ATTEST_MSG_ID then
        Option.bind (srv_attest env ctx st) (\<lambda>r. case r of Inl ret \<Rightarrow> Some ret
          | Inr st \<Rightarrow> f env ctx msg_id st)
      else if msg_id = CCEL_ACPI_TABLE_ID then
        Option.bind (srv_acpi_table env st) (\<lambda>r. case r of Inl ret \<Rightarrow> Some ret
          | Inr st \<Rightarrow> f env ctx msg_id st)
      else if msg_id = CCEL_EVENT_LOG_ID then
        Option.bind (srv_event_log env st) (\<lambda>r. case r of Inl ret \<Rightarrow> Some ret
          | Inr st \<Rightarrow> f env ctx msg_id st)
      else if msg_id = VERIFY_SUCCESS_MSG_ID then Some (srv_verify_success env msg_id st)
      else Some (VERIFY_FAILED, st)) = Some r"
      and c: "cert_eof env ctx" "s_in (srv_sock st) = []" "m = DEVICE_CERT_MSG_ID"
    obtain st' where "srv_device_cert env ctx (st\<lparr>srv_sock := srv_sock st\<rparr>) = Some (Inr st')" "s_in (srv_sock st') = []"
      using srv_device_cert_eof [OF c(1), of "st\<lparr>srv_sock := srv_sock st\<rparr>"] c(2) by auto
    then show False
      using eq c IH [of env ctx m st' r] by (simp add: read_msg_id_eof)
  qed
  then show ?thesis using assms by (cases "serve_loop env ctx DEVICE_CERT_MSG_ID st") auto
qed

lemma send_all_chunks:
  "send_all sent bs s = (True, s') \<Longrightarrow>
     \<exists>cs. s_out s' = s_out s @ cs \<and> concat cs = bs \<and> [] \<notin> set cs"
proof (induction sent bs s rule: send_all.induct)
  case (1 sent bs s)
  let ?n = "min (sent bs) (length bs)"
  show ?case
  proof (cases "bs = [] \<or> ?n = 0")
    case True
    then show ?thesis using "1.prems" by (subst (asm) send_all.simps) (auto simp: Let_def split: if_splits)
  next
    case False
    have "send_all sent (drop ?n bs) (sock_write (take ?n bs) s) = (True, s')"
      using "1.prems" False by (subst (asm) send_all.simps) (auto simp: Let_def split: if_splits)
    then obtain cs where cs: "s_out s' = s_out (sock_write (take ?n bs) s) @ cs" "concat cs = drop ?n bs" "[] \<notin> set cs"
      using "1.IH" [OF _ refl] False by blast
    then have "s_out s' = s_out s @ take ?n bs # cs" "concat (take ?n bs # cs) = bs" "[] \<notin> set (take ?n bs # cs)"
      using False by auto
    then show ?thesis by blast
  qed
qed


section \<open>Properties\<close>

text \<open>
  The attester's files: a run of the server either leaves all files as they were, or an FDE
  request was received and the only file that changed is the key file; when such a run reports
  success the key is not empty.
\<close>

theorem server_writes_key_only:
  assumes "server_handle_connect env ctx m0 st = Some (ret, st')"
  shows "srv_files st' = srv_files st \<or>
     srv_use_fde st' \<and> (\<exists>key. srv_files st' = (srv_files st)(KEY_FILE_PATH \<mapsto> key) \<and> (ret = 0 \<longrightarrow> key \<noteq> []))"
proof -
  have "files_ok (srv_files st) (ret, st')"
    using assms serve_loop_files [of env ctx m0 st "(ret, st')"]
    by (auto simp: server_handle_connect_def files_ok_def split: prod.splits if_splits)
  then show ?thesis by (auto simp: files_ok_def)
qed

definition demo_server :: server_env where
  "demo_server = \<lparr>v_malloc = (\<lambda>_. True), v_open = (\<lambda>_. True), v_io = (\<lambda>_. True),
     v_dev = \<lparr>dev_open = 3, dev_version = (\<lambda>_. (0, 1, 0)), dev_token = (\<lambda>_ cmd. (1, cmd)),
              dev_get_cert = (\<lambda>_ dc. (0, dc\<lparr>cert_size := 1\<rparr>))\<rparr>,
     v_sent = length\<rparr>"

theorem server_writes_key_only_witness:
  "\<exists>ret st'. server_handle_connect demo_server \<lparr>fd = 3\<rparr> 0 \<lparr>srv_sock = \<lparr>s_in = [Some (word_bytes VERIFY_SUCCESS_MSG_ID),
       Some (word_bytes USE_FDE_MSG_ID), Some [5, 6]], s_out = []\<rparr>, srv_files = Map.empty, srv_use_fde = False\<rparr> = Some (ret, st') \<and>
     (\<exists>key. srv_files st' = Map.empty(KEY_FILE_PATH \<mapsto> key) \<and> key \<noteq> [])"
proof -
  let ?st = "\<lparr>srv_sock = \<lparr>s_in = [Some (word_bytes VERIFY_SUCCESS_MSG_ID),
       Some (word_bytes USE_FDE_MSG_ID), Some [5, 6]], s_out = []\<rparr>, srv_files = Map.empty, srv_use_fde = False\<rparr>"
  have r: "read_msg_id old \<lparr>s_in = Some (word_bytes m) # rs, s_out = ob\<rparr> = (4, m, \<lparr>s_in = rs, s_out = ob\<rparr>)" for old m rs ob
    by (simp add: read_msg_id_def le_simps)
  have v: "get_version (v_dev demo_server) (Some \<lparr>fd = 3\<rparr>) (Some (0, 0)) = (0, Some (1, 0))"
    by (simp add: get_version_def demo_server_def)
  have "serve_loop demo_server \<lparr>fd = 3\<rparr> 0 ?st = Some (0, ?st\<lparr>srv_sock := \<lparr>s_in = [], s_out = []\<rparr>,
      srv_files := [KEY_FILE_PATH \<mapsto> [5, 6]], srv_use_fde := True\<rparr>)"
    by (subst serve_loop.simps) (simp add: r srv_verify_success_def save_file_data_def demo_server_def)
  then obtain st' where r1: "server_handle_connect demo_server \<lparr>fd = 3\<rparr> 0 ?st = Some (0, st')" "srv_files st' \<noteq> Map.empty"
    by (simp add: server_handle_connect_def v)
  then show ?thesis using server_writes_key_only [OF r1(1)] by auto
qed

text \<open>
  The server does not notice the end of the stream: after a request for the device certificate
  a closed connection makes it send the certificate for ever.
\<close>

theorem server_loops_at_eof:
  assumes "cert_eof env ctx" "get_version (v_dev env) (Some ctx) (Some (0, 0)) = (TSI_SUCCESS, v)"
    and "s_in (srv_sock st) = [Some (word_bytes DEVICE_CERT_MSG_ID)]"
  shows "server_handle_connect env ctx m0 st = None"
proof -
  have r: "read_msg_id m0 (srv_sock st) = (4, DEVICE_CERT_MSG_ID, (srv_sock st)\<lparr>s_in := []\<rparr>)"
    using assms(3) by (simp add: read_msg_id_def le_simps)
  obtain st' where "srv_device_cert env ctx (st\<lparr>srv_sock := (srv_sock st)\<lparr>s_in := []\<rparr>\<rparr>) = Some (Inr st')"
      "s_in (srv_sock st') = []"
    using srv_device_cert_eof [OF assms(1), of "st\<lparr>srv_sock := (srv_sock st)\<lparr>s_in := []\<rparr>\<rparr>"] by auto
  then have "serve_loop env ctx m0 st = None"
    using serve_loop_eof [OF assms(1)] by (subst serve_loop.simps) (simp add: r)
  then show ?thesis using assms(2) by (simp add: server_handle_connect_def)
qed

theorem server_loops_at_eof_witness:
  "server_handle_connect demo_server \<lparr>fd = 3\<rparr> 0 \<lparr>srv_sock = \<lparr>s_in = [Some (word_bytes DEVICE_CERT_MSG_ID)], s_out = []\<rparr>,
     srv_files = Map.empty, srv_use_fde = False\<rparr> = None"
proof (rule server_loops_at_eof)
  show "cert_eof demo_server \<lparr>fd = 3\<rparr>"
    by (simp add: cert_eof_def get_dev_cert_def demo_server_def mem_read_def mem_write_def)
qed (simp_all add: get_version_def demo_server_def)

end
