(* ===== verification/Sample_Main.thy ===== *)
theory Sample_Main
  imports Sample_Server
begin

text \<open>
  The programs of the attestation sample: the command line and \<open>main\<close> of \<open>client.c\<close> and
  \<open>server.c\<close>, around the protocol handlers of \<open>Sample_Client\<close> and \<open>Sample_Server\<close>. The options are
  the results \<open>getopt_long\<close> delivers, in order; the network is a record of what the socket calls
  return. Each program gives its exit status, the files, the stream of its connection if there was
  one, and the descriptors it leaves open. The last section lets the two programs talk to each
  other.
\<close>

abbreviation (input) PORT :: int where "PORT \<equiv> 7220"
abbreviation (input) MAX_MEASUREMENT_SIZE :: nat where "MAX_MEASUREMENT_SIZE \<equiv> 64"

section \<open>Addresses\<close>

text \<open>Network byte order; an \<open>int\<close> argument of \<open>htons\<close> is cut to 16 bits.\<close>

definition htons :: "int \<Rightarrow> u16" where
  "htons n = word_of_bytes (rev (word_bytes (of_int n :: u16)))"

definition htonl :: "u32 \<Rightarrow> u32" where
  "htonl w = word_of_bytes (rev (word_bytes w))"

text \<open>\<open>strtoul (s, &end, 0)\<close> on a text that starts with a digit: the value and the rest.\<close>

definition digits_base :: "nat \<Rightarrow> string \<Rightarrow> nat \<times> string" where
  "digits_base b s =
     (let dig = (\<lambda>c. case hex_value c of None \<Rightarrow> False | Some v \<Rightarrow> v < b) in
      (foldl (\<lambda>n c. b * n + the (hex_value c)) 0 (takeWhile dig s), dropWhile dig s))"

definition strtoul0 :: "string \<Rightarrow> nat \<times> string" where
  "strtoul0 s =
     (if length s \<ge> 3 \<and> s ! 0 = CHR ''0'' \<and> (s ! 1 = CHR ''x'' \<or> s ! 1 = CHR ''X'') \<and> hex_value (s ! 2) \<noteq> None
      then digits_base 16 (drop 2 s)
      else if s \<noteq> [] \<and> hd s = CHR ''0'' then digits_base 8 s
      else digits_base 10 s)"

text \<open>
  \<open>inet_addr\<close>: one to four numbers separated by dots, the last one filling the bytes that are
  left, white space allowed behind; \<open>INADDR_NONE\<close> for everything else.
\<close>

fun inet_parts :: "nat \<Rightarrow> bytes \<Rightarrow> string \<Rightarrow> u32 option" where
  "inet_parts n done s =
     (if s = [] \<or> \<not> (48 \<le> (of_char (hd s) :: nat) \<and> (of_char (hd s) :: nat) \<le> 57) then None
      else
        let (v, rest) = strtoul0 s in
        if v > 0xffffffff then None
        else if rest \<noteq> [] \<and> hd rest = CHR ''.'' then
          (case n of
             0 \<Rightarrow> None
           | Suc n' \<Rightarrow> if v > 0xff then None else inet_parts n' (done @ [of_nat v]) (tl rest))
        else if rest \<noteq> [] \<and> \<not> isspace (hd rest) then None
        else if v \<ge> 256 ^ (Suc n) then None
        else Some (word_of_bytes (done @ replicate (4 - length done) 0) OR htonl (of_nat v)))"

definition inet_addr :: "string \<Rightarrow> u32" where
  "inet_addr s = (case inet_parts 3 [] s of None \<Rightarrow> 0xffffffff | Some a \<Rightarrow> a)"

abbreviation (input) LOOPBACK :: u32 where "LOOPBACK \<equiv> 0x7f000001"


section \<open>The relying party\<close>

record client_args =
  ca_ip :: u32
  ca_port :: u16
  ca_cfg :: client_cfg

definition client_globals :: client_cfg where
  "client_globals = \<lparr>cfg_measurement = replicate MAX_MEASUREMENT_SIZE 0, cfg_measurement_len = MAX_MEASUREMENT_SIZE,
     cfg_use_firmware = False, cfg_dump_eventlog = False, cfg_ref_json_file = None, cfg_use_fde = False,
     cfg_rootfs_key_file = [], cfg_verify_platform = False, cfg_platform_ref_json = None\<rparr>"

definition client_defaults :: client_args where
  "client_defaults = \<lparr>ca_ip = htonl LOOPBACK, ca_port = htons PORT, ca_cfg = client_globals\<rparr>"

text \<open>One turn of the option loop: \<^term>\<open>Inl n\<close> is \<open>exit (n)\<close>.\<close>

definition client_option :: "char \<Rightarrow> string \<Rightarrow> client_args \<Rightarrow> (int + client_args) option" where
  "client_option opt optarg a =
     (let cfg = ca_cfg a in
      if opt = CHR ''i'' then Some (Inr (a\<lparr>ca_ip := inet_addr optarg\<rparr>))
      else if opt = CHR ''p'' then do { n \<leftarrow> atoi optarg; Some (Inr (a\<lparr>ca_port := htons n\<rparr>)) }
      else if opt = CHR ''m'' then do {
        (r, buf, len) \<leftarrow> hex_to_bytes optarg (length optarg) (cfg_measurement cfg) (cfg_measurement_len cfg);
        if r \<noteq> 0 then Some (Inl 1)
        else Some (Inr (a\<lparr>ca_cfg := cfg\<lparr>cfg_measurement := buf, cfg_measurement_len := len\<rparr>\<rparr>))
      }
      else if opt = CHR ''f'' then
        if cfg_dump_eventlog cfg then Some (Inl 1)
        else Some (Inr (a\<lparr>ca_cfg := cfg\<lparr>cfg_use_firmware := True, cfg_ref_json_file := Some optarg\<rparr>\<rparr>))
      else if opt = CHR ''e'' then
        if cfg_use_firmware cfg then Some (Inl 1)
        else Some (Inr (a\<lparr>ca_cfg := cfg\<lparr>cfg_dump_eventlog := True\<rparr>\<rparr>))
      else if opt = CHR ''k'' then
        Some (Inr (a\<lparr>ca_cfg := cfg\<lparr>cfg_use_fde := True, cfg_rootfs_key_file := optarg\<rparr>\<rparr>))
      else if opt = CHR ''P'' then
        Some (Inr (a\<lparr>ca_cfg := cfg\<lparr>cfg_verify_platform := True, cfg_platform_ref_json := Some optarg\<rparr>\<rparr>))
      else if opt = CHR ''h'' then Some (Inl 0)
      else Some (Inl 1))"

fun client_options :: "(char \<times> string) list \<Rightarrow> client_args \<Rightarrow> (int + client_args) option" where
  "client_options [] a = Some (Inr a)"
| "client_options ((opt, optarg) # opts) a =
     do {
       r \<leftarrow> client_option opt optarg a;
       case r of Inl n \<Rightarrow> Some (Inl n) | Inr a \<Rightarrow> client_options opts a
     }"

record client_net =
  cn_socket :: int
  cn_connect :: "u32 \<Rightarrow> u16 \<Rightarrow> sock option"

definition client_main ::
  "client_net \<Rightarrow> ('c, 'x, 'k) env \<Rightarrow> files \<Rightarrow> (char \<times> string) list \<Rightarrow> (int \<times> files \<times> sock option \<times> int list) option"
where
  "client_main net env fs opts =
     do {
       r \<leftarrow> client_options opts client_defaults;
       case r of
         Inl n \<Rightarrow> Some (n, fs, None, [])
       | Inr a \<Rightarrow>
           if cn_socket net = - 1 then Some (1, fs, None, [])
           else (case cn_connect net (ca_ip a) (ca_port a) of
               None \<Rightarrow> Some (1, fs, None, [cn_socket net])
             | Some s \<Rightarrow>
                 do {
                   (ret, fs, s) \<leftarrow> handle_connect env (ca_cfg a) fs s;
                   Some (ret, fs, Some s, [])
                 })
     }"


section \<open>The attester\<close>

record server_args =
  sa_ip :: u32
  sa_port :: u16
  sa_use_fde :: bool

definition server_defaults :: server_args where
  "server_defaults = \<lparr>sa_ip = htonl LOOPBACK, sa_port = htons PORT, sa_use_fde = False\<rparr>"

text \<open>The branch for \<open>-h\<close> has no \<open>break\<close> and ends like an unknown option.\<close>

fun server_options :: "(char \<times> string) list \<Rightarrow> server_args \<Rightarrow> (int + server_args) option" where
  "server_options [] a = Some (Inr a)"
| "server_options ((opt, optarg) # opts) a =
     (if opt = CHR ''i'' then server_options opts (a\<lparr>sa_ip := inet_addr optarg\<rparr>)
      else if opt = CHR ''p'' then do { n \<leftarrow> atoi optarg; server_options opts (a\<lparr>sa_port := htons n\<rparr>) }
      else if opt = CHR ''k'' then server_options opts (a\<lparr>sa_use_fde := True\<rparr>)
      else Some (Inl 1))"

record server_net =
  sn_socket :: int
  sn_bind :: "u32 \<Rightarrow> u16 \<Rightarrow> bool"
  sn_listen :: bool
  sn_accept :: "(int \<times> sock) option"

text \<open>
  \<open>main\<close> from \<open>socket\<close> on, up to the label \<open>end\<close>; the accepted connection is never closed, and the
  listening socket only on the straight path.
\<close>

definition server_serve ::
  "server_net \<Rightarrow> server_env \<Rightarrow> tsi_ctx \<Rightarrow> u32 \<Rightarrow> files \<Rightarrow> server_args \<Rightarrow> int list \<Rightarrow>
   (int \<times> files \<times> sock option \<times> int list) option"
where
  "server_serve net env ctx m0 fs a fds =
     (if sn_socket net = - 1 then Some (1, fs, None, fds)
      else
        let fds = sn_socket net # fds in
        if \<not> sn_bind net (sa_ip a) (sa_port a) then Some (1, fs, None, fds)
        else if \<not> sn_listen net then Some (1, fs, None, fds)
        else (case sn_accept net of
            None \<Rightarrow> Some (1, fs, None, fds)
          | Some (connfd, s) \<Rightarrow>
              do {
                let fds = connfd # fds;
                (ret, st) \<leftarrow> server_handle_connect env ctx m0
                  \<lparr>srv_sock = s, srv_files = fs, srv_use_fde = sa_use_fde a\<rparr>;
                Some (ret, srv_files st, Some (srv_sock st), removeAll (sn_socket net) fds)
              }))"

definition server_main ::
  "server_net \<Rightarrow> server_env \<Rightarrow> u32 \<Rightarrow> files \<Rightarrow> (char \<times> string) list \<Rightarrow> (int \<times> files \<times> sock option \<times> int list) option"
where
  "server_main net env m0 fs opts =
     do {
       r \<leftarrow> server_options opts server_defaults;
       case r of
         Inl n \<Rightarrow> Some (n, fs, None, [])
       | Inr a \<Rightarrow>
           (case tsi_new_ctx (v_malloc env) (v_dev env) of
              None \<Rightarrow> Some (1, fs, None, [])
            | Some ctx \<Rightarrow>
                do {
                  (ret, fs, s, fds) \<leftarrow> server_serve net env ctx m0 fs a [fd ctx];
                  Some (ret, fs, s, tsi_free_ctx (Some ctx) fds)
                })
     }"


section \<open>What the options set\<close>

text \<open>The argument of the last option with a letter: later options override earlier ones.\<close>

definition last_arg :: "char \<Rightarrow> (char \<times> string) list \<Rightarrow> string option" where
  "last_arg c opts = map_of (rev opts) c"

lemma last_arg_simps [simp]:
  "last_arg c [] = None"
  "last_arg c ((d, x) # opts) = (case last_arg c opts of None \<Rightarrow> if c = d then Some x else None | Some y \<Rightarrow> Some y)"
  by (auto simp: last_arg_def map_add_def split: option.splits)

definition cfg_wf :: "client_cfg \<Rightarrow> bool" where
  "cfg_wf cfg \<longleftrightarrow> length (cfg_measurement cfg) = MAX_MEASUREMENT_SIZE \<and> cfg_measurement_len cfg \<le> MAX_MEASUREMENT_SIZE
     \<and> \<not> (cfg_use_firmware cfg \<and> cfg_dump_eventlog cfg)"

lemma hex_to_bytes_loop_total:
  assumes "2 * (i + n) \<le> length inp" "i + n \<le> length buf"
  shows "\<exists>ok buf'. hex_to_bytes_loop inp n i buf = Some (ok, buf') \<and> length buf' = length buf"
  using assms
proof (induction n arbitrary: i buf)
  case (Suc n)
  show ?case
  proof (cases "sscanf_2x (drop (i * 2) inp)")
    case None
    then show ?thesis using Suc.prems by auto
  next
    case (Some b)
    then obtain buf1 where w: "mem_write buf i [b] = Some buf1" "length buf1 = length buf"
      using Suc.prems by (auto simp: mem_write_def)
    then show ?thesis using Suc.IH [of "Suc i" buf1] Suc.prems Some by simp
  qed
qed auto

lemma hex_to_bytes_total:
  assumes "len \<le> length buf"
  shows "\<exists>r buf' len'. hex_to_bytes h (length h) buf len = Some (r, buf', len') \<and> length buf' = length buf \<and> len' \<le> len"
proof (cases "length h mod 2 \<noteq> 0 \<or> length h div 2 > len")
  case True
  then show ?thesis by (simp add: hex_to_bytes_def)
next
  case False
  then show ?thesis using hex_to_bytes_loop_total [of 0 "length h div 2" h buf] assms
    by (auto simp: hex_to_bytes_def)
qed

lemma hex_to_bytes_hex:
  assumes "length bs \<le> len" "length bs \<le> length buf"
  shows "hex_to_bytes (hex_string bs) (2 * length bs) buf len = Some (0, bs @ drop (length bs) buf, length bs)"
  using hex_to_bytes_loop_hex [of "take (length bs) buf" bs "[]" "[]" "drop (length bs) buf"] assms
  by (simp add: hex_to_bytes_def)

lemma client_option_cases:
  assumes "cfg_wf (ca_cfg a)" "client_option opt x a = Some (Inr b)"
  shows "cfg_wf (ca_cfg b)"
    "cfg_use_fde (ca_cfg b) = (opt = CHR ''k'' \<or> cfg_use_fde (ca_cfg a))"
    "cfg_rootfs_key_file (ca_cfg b) = (if opt = CHR ''k'' then x else cfg_rootfs_key_file (ca_cfg a))"
    "cfg_use_firmware (ca_cfg b) = (opt = CHR ''f'' \<or> cfg_use_firmware (ca_cfg a))"
    "cfg_dump_eventlog (ca_cfg b) = (opt = CHR ''e'' \<or> cfg_dump_eventlog (ca_cfg a))"
    "cfg_ref_json_file (ca_cfg b) = (if opt = CHR ''f'' then Some x else cfg_ref_json_file (ca_cfg a))"
    "cfg_verify_platform (ca_cfg b) = (opt = CHR ''P'' \<or> cfg_verify_platform (ca_cfg a))"
    "cfg_platform_ref_json (ca_cfg b) = (if opt = CHR ''P'' then Some x else cfg_platform_ref_json (ca_cfg a))"
    "opt \<noteq> CHR ''m'' \<Longrightarrow> cfg_measurement (ca_cfg b) = cfg_measurement (ca_cfg a)
       \<and> cfg_measurement_len (ca_cfg b) = cfg_measurement_len (ca_cfg a)"
    "opt = CHR ''m'' \<Longrightarrow> hex_to_bytes x (length x) (cfg_measurement (ca_cfg a)) (cfg_measurement_len (ca_cfg a))
       = Some (0, cfg_measurement (ca_cfg b), cfg_measurement_len (ca_cfg b))"
  using assms hex_to_bytes_total [of "cfg_measurement_len (ca_cfg a)" "cfg_measurement (ca_cfg a)" x]
  by (auto simp: client_option_def Let_def cfg_wf_def split: if_splits bind_splits)

lemma client_options_fields:
  assumes "client_options opts a = Some (Inr b)" "cfg_wf (ca_cfg a)"
  shows "cfg_wf (ca_cfg b) \<and>
    cfg_use_fde (ca_cfg b) = (last_arg CHR ''k'' opts \<noteq> None \<or> cfg_use_fde (ca_cfg a)) \<and>
    cfg_rootfs_key_file (ca_cfg b) = (case last_arg CHR ''k'' opts of None \<Rightarrow> cfg_rootfs_key_file (ca_cfg a) | Some x \<Rightarrow> x) \<and>
    cfg_use_firmware (ca_cfg b) = (last_arg CHR ''f'' opts \<noteq> None \<or> cfg_use_firmware (ca_cfg a)) \<and>
    cfg_dump_eventlog (ca_cfg b) = (last_arg CHR ''e'' opts \<noteq> None \<or> cfg_dump_eventlog (ca_cfg a)) \<and>
    cfg_ref_json_file (ca_cfg b) = (case last_arg CHR ''f'' opts of None \<Rightarrow> cfg_ref_json_file (ca_cfg a) | x \<Rightarrow> x) \<and>
    cfg_verify_platform (ca_cfg b) = (last_arg CHR ''P'' opts \<noteq> None \<or> cfg_verify_platform (ca_cfg a)) \<and>
    cfg_platform_ref_json (ca_cfg b) = (case last_arg CHR ''P'' opts of None \<Rightarrow> cfg_platform_ref_json (ca_cfg a) | x \<Rightarrow> x)"
  using assms
proof (induction opts arbitrary: a)
  case (Cons o1 opts)
  obtain opt x where o: "o1 = (opt, x)" by (cases o1)
  obtain c where c: "client_option opt x a = Some (Inr c)" "client_options opts c = Some (Inr b)"
    using Cons.prems(1) o by (auto split: bind_splits sum.splits)
  note f = client_option_cases [OF Cons.prems(2) c(1)]
  show ?case using Cons.IH [OF c(2) f(1)] f(2-8) o by (auto split: option.splits)
qed simp

lemma client_options_measurement:
  assumes "client_options opts a = Some (Inr b)" "cfg_wf (ca_cfg a)"
  shows "case last_arg CHR ''m'' opts of
      None \<Rightarrow> cfg_measurement (ca_cfg b) = cfg_measurement (ca_cfg a) \<and> cfg_measurement_len (ca_cfg b) = cfg_measurement_len (ca_cfg a)
    | Some h \<Rightarrow> \<forall>bs. h = hex_string bs \<longrightarrow>
        cfg_measurement_len (ca_cfg b) = length bs \<and> take (length bs) (cfg_measurement (ca_cfg b)) = bs"
  using assms
proof (induction opts arbitrary: a)
  case (Cons o1 opts)
  obtain opt x where o: "o1 = (opt, x)" by (cases o1)
  obtain c where c: "client_option opt x a = Some (Inr c)" "client_options opts c = Some (Inr b)"
    using Cons.prems(1) o by (auto split: bind_splits sum.splits)
  note f = client_option_cases [OF Cons.prems(2) c(1)]
  note IH = Cons.IH [OF c(2) f(1)]
  have "cfg_measurement_len (ca_cfg c) = length bs \<and> take (length bs) (cfg_measurement (ca_cfg c)) = bs"
    if "opt = CHR ''m''" "x = hex_string bs" for bs
  proof -
    have h: "hex_to_bytes (hex_string bs) (2 * length bs) (cfg_measurement (ca_cfg a)) (cfg_measurement_len (ca_cfg a))
       = Some (0, cfg_measurement (ca_cfg c), cfg_measurement_len (ca_cfg c))" using f(10) that by simp
    then have "length bs \<le> cfg_measurement_len (ca_cfg a)" by (auto simp: hex_to_bytes_def split: if_splits)
    then have l: "length bs \<le> cfg_measurement_len (ca_cfg a)" "length bs \<le> length (cfg_measurement (ca_cfg a))"
      using Cons.prems(2) by (auto simp: cfg_wf_def)
    have "cfg_measurement (ca_cfg c) = bs @ drop (length bs) (cfg_measurement (ca_cfg a))"
      "cfg_measurement_len (ca_cfg c) = length bs" using h unfolding hex_to_bytes_hex [OF l] by auto
    then show ?thesis by simp
  qed
  then show ?case using IH f(9) o by (auto split: option.splits)
qed simp


lemma client_defaults_wf: "cfg_wf (ca_cfg client_defaults)"
  by (simp add: client_defaults_def client_globals_def cfg_wf_def)

text \<open>The reference value the options give: 64 zero bytes when there is no \<open>-m\<close>.\<close>

definition reference_is :: "(char \<times> string) list \<Rightarrow> bytes \<Rightarrow> bool" where
  "reference_is opts bs = (case last_arg CHR ''m'' opts of None \<Rightarrow> bs = replicate MAX_MEASUREMENT_SIZE 0
     | Some h \<Rightarrow> h = hex_string bs)"

lemma client_config:
  assumes "client_options opts client_defaults = Some (Inr a)"
  shows "cfg_wf (ca_cfg a)"
    "cfg_use_fde (ca_cfg a) = (last_arg CHR ''k'' opts \<noteq> None)"
    "last_arg CHR ''k'' opts = Some kf \<Longrightarrow> cfg_rootfs_key_file (ca_cfg a) = kf"
    "cfg_use_firmware (ca_cfg a) = (last_arg CHR ''f'' opts \<noteq> None)"
    "cfg_dump_eventlog (ca_cfg a) = (last_arg CHR ''e'' opts \<noteq> None)"
    "cfg_ref_json_file (ca_cfg a) = last_arg CHR ''f'' opts"
    "cfg_verify_platform (ca_cfg a) = (last_arg CHR ''P'' opts \<noteq> None)"
    "cfg_platform_ref_json (ca_cfg a) = last_arg CHR ''P'' opts"
    "reference_is opts bs \<Longrightarrow>
      cfg_measurement_len (ca_cfg a) = length bs \<and> take (length bs) (cfg_measurement (ca_cfg a)) = bs"
  using client_options_fields [OF assms client_defaults_wf] client_options_measurement [OF assms client_defaults_wf]
  by (auto simp: client_defaults_def client_globals_def reference_is_def split: option.splits)

lemma client_main_connected:
  assumes "client_main net env fs opts = Some (ret, fs', Some s', fds)"
  obtains a s where "client_options opts client_defaults = Some (Inr a)"
    "cn_connect net (ca_ip a) (ca_port a) = Some s" "handle_connect env (ca_cfg a) fs s = Some (ret, fs', s')" "fds = []"
  using assms by (auto simp: client_main_def split: bind_splits sum.splits if_splits option.splits)

lemma client_option_plain:
  "opt \<noteq> CHR ''p'' \<Longrightarrow> opt \<noteq> CHR ''m'' \<Longrightarrow> \<exists>v. client_option opt x a = Some v"
  by (simp add: client_option_def Let_def)

text \<open>
  The option parser is total on ports that are numbers, whatever the other arguments are: in
  particular no \<open>-m\<close> writes outside the buffer for the measurement.
\<close>

lemma client_options_total:
  assumes "cfg_wf (ca_cfg a)" "\<forall>x. (CHR ''p'', x) \<in> set opts \<longrightarrow> atoi x \<noteq> None"
  shows "client_options opts a \<noteq> None"
  using assms
proof (induction opts arbitrary: a)
  case (Cons o1 opts)
  obtain opt x where o: "o1 = (opt, x)" by (cases o1)
  obtain r buf len where h: "hex_to_bytes x (length x) (cfg_measurement (ca_cfg a)) (cfg_measurement_len (ca_cfg a)) = Some (r, buf, len)"
    using hex_to_bytes_total [of "cfg_measurement_len (ca_cfg a)" "cfg_measurement (ca_cfg a)" x] Cons.prems(1)
    by (auto simp: cfg_wf_def)
  have "\<exists>v. client_option opt x a = Some v"
  proof (cases "opt = CHR ''p''")
    case True
    then obtain y where "atoi x = Some y" using Cons.prems(2) o by auto
    then show ?thesis using True by (simp add: client_option_def Let_def)
  next
    case False
    show ?thesis using client_option_plain [OF False] h by (cases "opt = CHR ''m''") (simp_all add: client_option_def Let_def)
  qed
  then obtain v where v: "client_option opt x a = Some v" ..
  show ?case
  proof (cases v)
    case (Inl n)
    then show ?thesis using v o by simp
  next
    case (Inr c)
    then have "cfg_wf (ca_cfg c)" using client_option_cases(1) [OF Cons.prems(1)] v by blast
    moreover have "\<forall>y. (CHR ''p'', y) \<in> set opts \<longrightarrow> atoi y \<noteq> None" using Cons.prems(2) by simp
    ultimately show ?thesis using Cons.IH [of c] v o Inr by simp
  qed
qed simp

text \<open>Dumping the event log and verifying the firmware exclude each other, in either order.\<close>

lemma client_modes_exclusive:
  assumes "last_arg CHR ''e'' opts \<noteq> None" "last_arg CHR ''f'' opts \<noteq> None"
    and "client_main net env fs opts = Some (ret, fs', s', fds)"
  shows "s' = None \<and> fs' = fs \<and> fds = []"
proof -
  have "client_options opts client_defaults \<noteq> Some (Inr a)" for a
    using client_config(1,4,5) [of opts a] assms(1,2) by (auto simp: cfg_wf_def)
  then show ?thesis using assms(3) by (auto simp: client_main_def split: bind_splits sum.splits)
qed

text \<open>The room for a second \<open>-m\<close> is the length of the first.\<close>

lemma second_measurement_refused:
  assumes "length bs < length cs" "length bs \<le> 64"
  shows "client_options [(CHR ''m'', hex_string bs), (CHR ''m'', hex_string cs)] client_defaults = Some (Inl 1)"
proof -
  have "hex_to_bytes (hex_string bs) (2 * length bs) (replicate 64 0) 64 = Some (0, bs @ drop (length bs) (replicate 64 0), length bs)"
    using hex_to_bytes_hex [of bs 64 "replicate 64 0"] assms(2) by simp
  moreover have "hex_to_bytes (hex_string cs) (2 * length cs) buf (length bs) = Some (1, buf, length bs)" for buf
    using assms(1) by (simp add: hex_to_bytes_def)
  ultimately show ?thesis
    by (simp add: client_option_def client_defaults_def client_globals_def Let_def del: replicate.simps)
qed


section \<open>A session of the two programs\<close>

lemma receive_event_log_success_out:
  assumes "receive_event_log env fs s = Some (True, fs', s')"
  shows "s_out s' = s_out s @ [word_bytes CCEL_ACPI_TABLE_ID, word_bytes CCEL_EVENT_LOG_ID]"
proof -
  obtain r s1 where r1: "sock_read 4096 (sock_write (word_bytes CCEL_ACPI_TABLE_ID) s) = (r, s1)"
    by (cases "sock_read 4096 (sock_write (word_bytes CCEL_ACPI_TABLE_ID) s)")
  obtain r2 s2 where r2: "sock_read 8 (sock_write (word_bytes CCEL_EVENT_LOG_ID) s1) = (r2, s2)"
    by (cases "sock_read 8 (sock_write (word_bytes CCEL_EVENT_LOG_ID) s1)")
  have "\<exists>n d. recv_exact n [] s2 = (Some d, s')"
    using assms r1 r2
    by (auto simp: receive_event_log_def Let_def simp del: sock_read.simps
        split: bind_splits if_splits prod.splits option.splits)
  then show ?thesis using sock_read_out [OF r1] sock_read_out [OF r2] recv_exact_out by fastforce
qed

definition client_messages :: "bool \<Rightarrow> bytes \<Rightarrow> bytes \<Rightarrow> bytes list" where
  "client_messages fw chal key =
     [word_bytes DEVICE_CERT_MSG_ID, word_bytes ATTEST_MSG_ID @ chal] @
     (if fw then [word_bytes CCEL_ACPI_TABLE_ID, word_bytes CCEL_EVENT_LOG_ID] else []) @
     [word_bytes VERIFY_SUCCESS_MSG_ID, word_bytes USE_FDE_MSG_ID, key]"

lemma verify_and_reply_success_out:
  assumes h: "verify_and_reply env cfg fs chal raw s = Some (0, fs', s')"
    and c: "cfg_use_fde cfg" "\<not> cfg_dump_eventlog cfg"
  shows "\<exists>key. read_file_data_binary (e_malloc env) (e_io env) fs' (cfg_rootfs_key_file cfg) = Some key \<and>
    s_out s' = s_out s @ drop 2 (client_messages (cfg_use_firmware cfg) chal key)"
proof -
  obtain ok fs1 s1 where r: "(if cfg_use_firmware cfg \<or> cfg_dump_eventlog cfg
      then receive_event_log env fs s else Some (True, fs, s)) = Some (ok, fs1, s1)"
    using h by (auto simp: verify_and_reply_def split: bind_splits)
  have ok: ok using h unfolding verify_and_reply_def r by (auto split: if_splits)
  then obtain v fv where v: "send_verdict env cfg v fv s1 = (0, fs', s')"
    using h c unfolding verify_and_reply_def r by (auto split: bind_splits)
  have "s_out s1 = s_out s @ (if cfg_use_firmware cfg then [word_bytes CCEL_ACPI_TABLE_ID, word_bytes CCEL_EVENT_LOG_ID] else [])"
    using r ok c receive_event_log_success_out by (auto split: if_splits)
  then show ?thesis using v c by (auto simp: send_verdict_def Let_def client_messages_def split: if_splits option.splits)
qed

lemma handle_connect_success_out:
  assumes h: "handle_connect env cfg fs s = Some (0, fs', s')"
    and c: "cfg_use_fde cfg" "\<not> cfg_dump_eventlog cfg"
  shows "\<exists>key. read_file_data_binary (e_malloc env) (e_io env) fs' (cfg_rootfs_key_file cfg) = Some key \<and>
    s_out s' = s_out s @ client_messages (cfg_use_firmware cfg) (e_rand env) key"
proof -
  let ?s0 = "sock_write (word_bytes DEVICE_CERT_MSG_ID) s"
  obtain r s1 where r1: "sock_read 4096 ?s0 = (r, s1)" by (cases "sock_read 4096 ?s0")
  let ?s1 = "sock_write (word_bytes ATTEST_MSG_ID @ e_rand env) s1"
  obtain r2 s2 where r2: "sock_read 4096 ?s1 = (r2, s2)" by (cases "sock_read 4096 ?s1")
  obtain fs1 where "verify_and_reply env cfg fs1 (e_rand env) (case r2 of None \<Rightarrow> Wild | Some bs \<Rightarrow> QBuf bs) s2
      = Some (0, fs', s')"
    using h r1 r2 by (auto simp: handle_connect_def Let_def simp del: sock_read.simps split: bind_splits if_splits)
  from verify_and_reply_success_out [OF this c] sock_read_out [OF r1] sock_read_out [OF r2]
  show ?thesis by (auto simp: client_messages_def)
qed


text \<open>What the device of the attester answers: a certificate, and a token for a challenge.\<close>

definition attester_answers :: "tsi_device \<Rightarrow> int \<Rightarrow> bytes \<Rightarrow> bytes \<Rightarrow> bytes \<Rightarrow> bool" where
  "attester_answers dev h chal crt tok \<longleftrightarrow> tsi_device_ok dev \<and> length chal = 64 \<and>
     (\<exists>v w. dev_version dev h = (0, v, w)) \<and>
     (\<exists>dc. dev_get_cert dev h \<lparr>cert_size = 0, cert_value = replicate 4096 0\<rparr> = (0, dc) \<and>
        crt = take (cert_size dc) (cert_value dc)) \<and>
     (\<exists>cmd. dev_token dev h \<lparr>cmd_challenge = chal, cmd_token = replicate 8192 0, cmd_token_size = 0\<rparr> = (0, cmd) \<and>
        cmd_token_size cmd \<le> 4096 \<and> tok = take (cmd_token_size cmd) (cmd_token cmd))"

lemma mem_read_take: "n \<le> length a \<Longrightarrow> mem_read (take n a @ b) 0 n = Some (take n a)"
  by (simp add: mem_read_def)

lemma answers_cert:
  assumes "attester_answers (v_dev env) (fd ctx) chal crt tok"
  shows "srv_device_cert env ctx st = Some (Inr (st\<lparr>srv_sock := sock_write crt (srv_sock st)\<rparr>))"
proof -
  obtain dc where d: "tsi_device_ok (v_dev env)" "crt = take (cert_size dc) (cert_value dc)"
      "dev_get_cert (v_dev env) (fd ctx) \<lparr>cert_size = 0, cert_value = replicate 4096 0\<rparr> = (0, dc)"
    using assms by (auto simp: attester_answers_def)
  then have s: "length (cert_value dc) = 4096" "cert_size dc \<le> 4096"
    unfolding tsi_device_ok_def by (metis fst_conv snd_conv)+
  show ?thesis using get_dev_cert_cases [OF d(1) _ d(3), of "replicate 4096 0" 4096] s
    by (simp add: srv_device_cert_def mem_read_take d(2) del: replicate.simps)
qed

lemma answers_attest:
  assumes "attester_answers (v_dev env) (fd ctx) chal crt tok" "s_in (srv_sock st) = Some chal # rs"
  shows "srv_attest env ctx st = Some (Inr (st\<lparr>srv_sock := sock_write tok ((srv_sock st)\<lparr>s_in := rs\<rparr>)\<rparr>))"
proof -
  obtain cmd where d: "tsi_device_ok (v_dev env)" "length chal = 64" "cmd_token_size cmd \<le> 4096"
      "tok = take (cmd_token_size cmd) (cmd_token cmd)"
      "dev_token (v_dev env) (fd ctx) \<lparr>cmd_challenge = chal, cmd_token = replicate 8192 0, cmd_token_size = 0\<rparr> = (0, cmd)"
    using assms(1) by (auto simp: attester_answers_def)
  have p: "padded_challenge (take 64 chal) = chal" using d(2) by (simp add: padded_challenge_def)
  have q: "dev_token (v_dev env) (fd ctx) \<lparr>cmd_challenge = padded_challenge (take 64 chal), cmd_token = replicate 8192 0,
      cmd_token_size = 0\<rparr> = (0, cmd)" unfolding p by (rule d(5))
  have s: "length (cmd_token cmd) = 8192"
    using d(1,5) unfolding tsi_device_ok_def by (metis fst_conv snd_conv)
  have r: "sock_read 64 (srv_sock st) = (Some chal, (srv_sock st)\<lparr>s_in := rs\<rparr>)" using assms(2) d(2) by simp
  have f: "fill 64 (Some chal) = chal" using d(2) by (simp add: fill_def)
  show ?thesis
    using get_attestation_token_cases [OF d(1) _ _ _ q, of "replicate 4096 0" 4096] s d(2,3)
    by (simp add: srv_attest_def r f mem_read_take d(4) p del: replicate.simps sock_read.simps)
qed

lemma read_msg_id_whole:
  "s_in s = Some (word_bytes m @ x) # rs \<Longrightarrow>
   read_msg_id old s = (4, m, s\<lparr>s_in := (if x = [] then rs else Some x # rs)\<rparr>)"
  by (simp add: read_msg_id_def le_simps)

lemma serve_cert_step:
  assumes "attester_answers (v_dev env) (fd ctx) chal crt tok" "s_in (srv_sock st) = Some (word_bytes DEVICE_CERT_MSG_ID) # rs"
  shows "serve_loop env ctx m st = serve_loop env ctx DEVICE_CERT_MSG_ID
     (st\<lparr>srv_sock := sock_write crt ((srv_sock st)\<lparr>s_in := rs\<rparr>)\<rparr>)"
  using read_msg_id_whole [of "srv_sock st" DEVICE_CERT_MSG_ID "[]" rs m] assms
  by (subst serve_loop.simps) (simp add: answers_cert [OF assms(1)])

lemma serve_attest_step:
  assumes "attester_answers (v_dev env) (fd ctx) chal crt tok" "s_in (srv_sock st) = Some (word_bytes ATTEST_MSG_ID @ chal) # rs"
  shows "serve_loop env ctx m st = serve_loop env ctx ATTEST_MSG_ID
     (st\<lparr>srv_sock := sock_write tok ((srv_sock st)\<lparr>s_in := rs\<rparr>)\<rparr>)"
proof -
  have "chal \<noteq> []" using assms(1) by (auto simp: attester_answers_def)
  then show ?thesis
    using read_msg_id_whole [of "srv_sock st" ATTEST_MSG_ID chal rs m] assms
      answers_attest [OF assms(1), of "st\<lparr>srv_sock := (srv_sock st)\<lparr>s_in := Some chal # rs\<rparr>\<rparr>" rs]
    by (subst serve_loop.simps) simp
qed

definition readable :: "server_env \<Rightarrow> files \<Rightarrow> string \<Rightarrow> bytes \<Rightarrow> bool" where
  "readable env fs path d \<longleftrightarrow> fs path = Some d \<and> v_malloc env (length d + 1) \<and> v_io env path"

lemma serve_acpi_step:
  assumes "readable env (srv_files st) SRV_CCEL_TABLE_PATH d" "s_in (srv_sock st) = Some (word_bytes CCEL_ACPI_TABLE_ID) # rs"
  shows "serve_loop env ctx m st = serve_loop env ctx CCEL_ACPI_TABLE_ID
     (st\<lparr>srv_sock := sock_write d ((srv_sock st)\<lparr>s_in := rs\<rparr>)\<rparr>)"
  using read_msg_id_whole [of "srv_sock st" CCEL_ACPI_TABLE_ID "[]" rs m] assms
  by (subst serve_loop.simps) (simp add: srv_acpi_table_def read_file_data_def readable_def)

lemma serve_log_step:
  assumes "readable env (srv_files st) SRV_EVENT_LOG_PATH d" "s_in (srv_sock st) = Some (word_bytes CCEL_EVENT_LOG_ID) # rs"
    and "v_sent env = length" "d \<noteq> []"
  shows "serve_loop env ctx m st = serve_loop env ctx CCEL_EVENT_LOG_ID
     (st\<lparr>srv_sock := sock_write d (sock_write (word_bytes (of_nat (length d) :: u64)) ((srv_sock st)\<lparr>s_in := rs\<rparr>))\<rparr>)"
proof -
  have "send_all length d s = (True, sock_write d s)" for s
    using assms(4) by (subst send_all.simps) (simp add: send_all.simps)
  then show ?thesis
    using read_msg_id_whole [of "srv_sock st" CCEL_EVENT_LOG_ID "[]" rs m] assms
    by (subst serve_loop.simps) (simp add: srv_event_log_def read_file_data_def readable_def Let_def)
qed

text \<open>What one \<open>read\<close> of a message into a buffer of \<open>MAX_BUF\<close> bytes leaves in the stream.\<close>

definition unread :: "bytes \<Rightarrow> bytes option list" where
  "unread msg = (if length msg \<le> MAX_BUF then [] else [Some (drop MAX_BUF msg)])"

lemma serve_success_step:
  assumes "s_in (srv_sock st) = [Some (word_bytes VERIFY_SUCCESS_MSG_ID), Some (word_bytes USE_FDE_MSG_ID), Some key]"
    and "key \<noteq> []" "v_open env KEY_FILE_PATH" "v_io env KEY_FILE_PATH"
  shows "serve_loop env ctx m st = Some (0, st\<lparr>srv_sock := (srv_sock st)\<lparr>s_in := unread key\<rparr>, srv_use_fde := True,
     srv_files := (srv_files st)(KEY_FILE_PATH \<mapsto> take MAX_BUF key)\<rparr>)"
proof -
  have "read_msg_id m (srv_sock st) = (4, VERIFY_SUCCESS_MSG_ID,
      (srv_sock st)\<lparr>s_in := [Some (word_bytes USE_FDE_MSG_ID), Some key]\<rparr>)"
    using read_msg_id_whole [of "srv_sock st" VERIFY_SUCCESS_MSG_ID "[]" _ m] assms(1) by simp
  moreover have "read_msg_id n ((srv_sock st)\<lparr>s_in := [Some (word_bytes USE_FDE_MSG_ID), Some key]\<rparr>) =
      (4, USE_FDE_MSG_ID, (srv_sock st)\<lparr>s_in := [Some key]\<rparr>)" for n
    using read_msg_id_whole [of "(srv_sock st)\<lparr>s_in := [Some (word_bytes USE_FDE_MSG_ID), Some key]\<rparr>" USE_FDE_MSG_ID "[]" _ n] by simp
  ultimately show ?thesis using assms(2-4)
    by (subst serve_loop.simps) (simp add: srv_verify_success_def save_file_data_def unread_def)
qed

text \<open>What the attester sends to a relying party that asks \<^const>\<open>client_messages\<close>.\<close>

definition server_replies :: "bool \<Rightarrow> bytes \<Rightarrow> bytes \<Rightarrow> bytes \<Rightarrow> bytes \<Rightarrow> bytes list" where
  "server_replies fw crt tok table log =
     [crt, tok] @ (if fw then [table, word_bytes (of_nat (length log) :: u64), log] else [])"

lemma server_session:
  assumes a: "attester_answers (v_dev env) (fd ctx) chal crt tok"
    and i: "srv_sock st = \<lparr>s_in = map Some (client_messages fw chal key), s_out = []\<rparr>"
    and f: "fw \<Longrightarrow> readable env (srv_files st) SRV_CCEL_TABLE_PATH table \<and>
              readable env (srv_files st) SRV_EVENT_LOG_PATH log \<and> log \<noteq> []"
    and k: "key \<noteq> []" "v_open env KEY_FILE_PATH" "v_io env KEY_FILE_PATH" "v_sent env = length"
  shows "\<exists>st'. server_handle_connect env ctx m0 st = Some (0, st') \<and>
    srv_files st' = (srv_files st)(KEY_FILE_PATH \<mapsto> take MAX_BUF key) \<and>
    srv_sock st' = \<lparr>s_in = unread key, s_out = server_replies fw crt tok table log\<rparr>"
proof -
  let ?tail = "map Some (drop 2 (client_messages fw chal key))"
  let ?st1 = "st\<lparr>srv_sock := \<lparr>s_in = ?tail, s_out = [crt, tok]\<rparr>\<rparr>"
  have v: "get_version (v_dev env) (Some ctx) (Some (0, 0)) = (0, Some w)" if "snd (dev_version (v_dev env) (fd ctx)) = w" for w
    using a that by (auto simp: attester_answers_def get_version_def)
  have "serve_loop env ctx m0 st = serve_loop env ctx ATTEST_MSG_ID ?st1"
    using serve_cert_step [OF a, of st _ m0] serve_attest_step [OF a, of "st\<lparr>srv_sock := \<lparr>s_in =
        Some (word_bytes ATTEST_MSG_ID @ chal) # ?tail, s_out = [crt]\<rparr>\<rparr>" ?tail DEVICE_CERT_MSG_ID]
    by (simp add: i client_messages_def sock_write_def)
  also have "\<exists>m. \<dots> = serve_loop env ctx m (st\<lparr>srv_sock := \<lparr>s_in = [Some (word_bytes VERIFY_SUCCESS_MSG_ID),
      Some (word_bytes USE_FDE_MSG_ID), Some key], s_out = server_replies fw crt tok table log\<rparr>\<rparr>)"
  proof (cases fw)
    case True
    note fs = f [OF True]
    have "serve_loop env ctx ATTEST_MSG_ID ?st1 = serve_loop env ctx CCEL_ACPI_TABLE_ID
        (st\<lparr>srv_sock := \<lparr>s_in = tl ?tail, s_out = [crt, tok, table]\<rparr>\<rparr>)"
      using serve_acpi_step [of env ?st1 table "tl ?tail" ctx ATTEST_MSG_ID] fs True
      by (simp add: client_messages_def sock_write_def)
    then show ?thesis
      using serve_log_step [of env "st\<lparr>srv_sock := \<lparr>s_in = tl ?tail, s_out = [crt, tok, table]\<rparr>\<rparr>" log "tl (tl ?tail)" ctx
          CCEL_ACPI_TABLE_ID] fs True k(4)
      by (intro exI [of _ CCEL_EVENT_LOG_ID]) (simp add: client_messages_def server_replies_def sock_write_def)
  next
    case False
    then show ?thesis by (auto simp: client_messages_def server_replies_def)
  qed
  finally obtain m where "serve_loop env ctx m0 st = serve_loop env ctx m (st\<lparr>srv_sock := \<lparr>s_in = [Some (word_bytes VERIFY_SUCCESS_MSG_ID),
      Some (word_bytes USE_FDE_MSG_ID), Some key], s_out = server_replies fw crt tok table log\<rparr>\<rparr>)" ..
  then show ?thesis
    using serve_success_step [OF _ k(1-3), of "st\<lparr>srv_sock := \<lparr>s_in = [Some (word_bytes VERIFY_SUCCESS_MSG_ID),
      Some (word_bytes USE_FDE_MSG_ID), Some key], s_out = server_replies fw crt tok table log\<rparr>\<rparr>" ctx m]
    by (simp add: server_handle_connect_def v [OF refl])
qed



section \<open>Properties\<close>

text \<open>
  C13. The command line of the relying party means what it says: whatever \<open>client\<close> sends besides the
  fixed messages is the content of the file of the last \<open>-k\<close>, and then a token was accepted whose
  challenge is the fresh nonce, whose initial measurement is the value of the last \<open>-m\<close> (64 zero
  bytes without one), whose platform part was checked against the file of \<open>-P\<close>, and, with
  \<open>-f\<close>, whose registers are those of the received event log and whose boot was accepted by
  the named reference file.
\<close>

theorem client_program_releases_key:
  assumes r: "client_main net env fs opts = Some (ret, fs', Some s', fds)"
    and n: "\<forall>ip port s. cn_connect net ip port = Some s \<longrightarrow> s_out s = []"
    and m: "m \<in> set (s_out s')" "m \<notin> protocol_messages (e_rand env)"
    and l: "length (e_rand env) = 64" "reference_is opts bs" "bs \<noteq> []" "sha_ok (e_sha env)"
  shows "\<exists>kf. last_arg CHR ''k'' opts = Some kf \<and>
     read_file_data_binary (e_malloc env) (e_io env) fs' kf = Some m \<and>
     (\<exists>fs1 raw t cfg. parse_cca_attestation_token (e_malloc env) (e_qcbor env) wild_token raw = Some (VIRTCCA_SUCCESS, t) \<and>
        verify_signatures env cfg fs1 t = Some (True, fs') \<and>
        cfg_verify_platform cfg = (last_arg CHR ''P'' opts \<noteq> None) \<and> cfg_platform_ref_json cfg = last_arg CHR ''P'' opts \<and>
        challenge (cvm_token t) = QBuf (e_rand env) \<and> rim (cvm_token t) = QBuf bs \<and>
        (\<forall>json. last_arg CHR ''f'' opts = Some json \<longrightarrow> (\<exists>data log log' st st'.
           read_file_data_binary (e_malloc env) (e_io env) fs' CCEL_EVENT_LOG_PATH = Some data \<and>
           event_log_init (Some data) 0 = Some log \<and>
           event_log_replay (e_malloc env) (e_sha env) log = Some (True, log') \<and>
           rem_claim (cvm_token t) = map (\<lambda>r. QBuf (rem_data r)) (log_rems log') \<and>
           firmware_log_state_create (e_malloc env) = Some st \<and>
           firmware_log_state_extract (e_malloc env) (log_blob log) st = Some (True, st') \<and>
           verify_firmware_state (e_malloc env) (read_text_file (e_malloc env) (e_io env) fs' json) st' = Some True)))"
proof -
  obtain a s where c: "client_options opts client_defaults = Some (Inr a)" "cn_connect net (ca_ip a) (ca_port a) = Some s"
      "handle_connect env (ca_cfg a) fs s = Some (ret, fs', s')"
    by (rule client_main_connected [OF r])
  note cf = client_config [OF c(1)]
  have "m \<notin> set (s_out s)" using n c(2) by simp
  then obtain fs1 raw where v: "verify_token env (ca_cfg a) fs1 (e_rand env) raw = Some (VERIFY_SUCCESS, fs')"
    and k: "cfg_use_fde (ca_cfg a)" "read_file_data_binary (e_malloc env) (e_io env) fs' (cfg_rootfs_key_file (ca_cfg a)) = Some m"
    using handle_connect_messages [OF c(3) m(1) _ m(2)] by blast
  obtain kf where kf: "last_arg CHR ''k'' opts = Some kf" using cf(2) k(1) by auto
  obtain t where t: "parse_cca_attestation_token (e_malloc env) (e_qcbor env) wild_token raw = Some (VIRTCCA_SUCCESS, t)"
    "verify_signatures env (ca_cfg a) fs1 t = Some (True, fs')"
    "buf_equals (challenge (cvm_token t)) (e_rand env) 64 = Some True"
    "buf_equals (rim (cvm_token t)) (cfg_measurement (ca_cfg a)) (cfg_measurement_len (ca_cfg a)) = Some True"
    "cfg_use_firmware (ca_cfg a) \<Longrightarrow> verify_firmware env (ca_cfg a) fs' t = Some VERIFY_SUCCESS"
    by (rule verify_token_success [OF v]) blast
  have ch: "challenge (cvm_token t) = QBuf (e_rand env)" using buf_equals_True [OF t(3)] l(1) by simp
  have "cfg_measurement_len (ca_cfg a) \<le> length (cfg_measurement (ca_cfg a))" using cf(1) by (simp add: cfg_wf_def)
  then have rm: "rim (cvm_token t) = QBuf bs" using buf_equals_True [OF t(4)] cf(9) [OF l(2)] l(3) by simp
  have "\<exists>data log log' st st'.
           read_file_data_binary (e_malloc env) (e_io env) fs' CCEL_EVENT_LOG_PATH = Some data \<and>
           event_log_init (Some data) 0 = Some log \<and>
           event_log_replay (e_malloc env) (e_sha env) log = Some (True, log') \<and>
           rem_claim (cvm_token t) = map (\<lambda>r. QBuf (rem_data r)) (log_rems log') \<and>
           firmware_log_state_create (e_malloc env) = Some st \<and>
           firmware_log_state_extract (e_malloc env) (log_blob log) st = Some (True, st') \<and>
           verify_firmware_state (e_malloc env) (read_text_file (e_malloc env) (e_io env) fs' json) st' = Some True"
    if j: "last_arg CHR ''f'' opts = Some json" for json
  proof -
    have "cfg_use_firmware (ca_cfg a)" "cfg_ref_json_file (ca_cfg a) = Some json" using cf(4,6) j by simp_all
    then show ?thesis
      by (rule_tac verify_firmware_rems [OF t(5) l(4) parsed_rem_length [OF t(1)]]) blast+
  qed
  moreover have "read_file_data_binary (e_malloc env) (e_io env) fs' kf = Some m" using k(2) cf(3) [OF kf] by simp
  ultimately show ?thesis using kf t(1,2) ch rm cf(7,8) by blast
qed

text \<open>
  C14. The two programs together. The relying party is asked to release a key that is not empty
  (\<open>-k\<close>, without \<open>-e\<close>), each message written is read by one \<open>read\<close> of the other side as far as it fits,
  the attester's device answers, and its key file, with \<open>-f\<close> its event log and table too, can be
  used. When the relying party then succeeds on the replies of the attester, the attester, run on
  what the relying party sent, sends exactly those replies, stores the key of the relying party in
  its key file, changes no other file and ends with success. It reads the key once into a buffer of
  4096 bytes: of a longer key it stores the first 4096 bytes, leaves the rest unread, and reports
  success all the same.
\<close>

theorem sample_key_transfer:
  assumes c: "client_main cnet env fs copts = Some (0, fs', Some cs, fds)"
    and cn: "\<forall>ip port s. cn_connect cnet ip port = Some s \<longrightarrow>
         s = \<lparr>s_in = map Some (server_replies fw crt tok table log), s_out = []\<rparr>"
    and co: "last_arg CHR ''k'' copts = Some kf" "last_arg CHR ''e'' copts = None" "fw = (last_arg CHR ''f'' copts \<noteq> None)"
    and key: "read_file_data_binary (e_malloc env) (e_io env) fs' kf = Some key" "key \<noteq> []"
    and so: "server_options sopts server_defaults = Some (Inr b)"
    and sn: "sn_socket snet \<noteq> - 1" "sn_bind snet (sa_ip b) (sa_port b)" "sn_listen snet"
         "sn_accept snet = Some (connfd, \<lparr>s_in = map Some (s_out cs), s_out = []\<rparr>)"
    and dev: "v_malloc srv 4" "dev_open (v_dev srv) \<noteq> - 1"
         "attester_answers (v_dev srv) (dev_open (v_dev srv)) (e_rand env) crt tok"
    and io: "v_open srv KEY_FILE_PATH" "v_io srv KEY_FILE_PATH" "v_sent srv = length"
    and f: "fw \<longrightarrow> readable srv sfs SRV_CCEL_TABLE_PATH table \<and> readable srv sfs SRV_EVENT_LOG_PATH log \<and> log \<noteq> []"
  shows "\<exists>fds'. server_main snet srv m0 sfs sopts = Some (0, sfs(KEY_FILE_PATH \<mapsto> take MAX_BUF key),
     Some \<lparr>s_in = unread key, s_out = server_replies fw crt tok table log\<rparr>, fds')"
proof -
  obtain a s where a: "client_options copts client_defaults = Some (Inr a)" "cn_connect cnet (ca_ip a) (ca_port a) = Some s"
      "handle_connect env (ca_cfg a) fs s = Some (0, fs', cs)"
    by (rule client_main_connected [OF c])
  note cf = client_config [OF a(1)]
  have "s_out s = []" using cn a(2) by fastforce
  then have "s_out cs = client_messages fw (e_rand env) key"
    using handle_connect_success_out [OF a(3)] cf(2-5) co key(1) by auto
  then obtain st' where st': "server_handle_connect srv \<lparr>fd = dev_open (v_dev srv)\<rparr> m0
      \<lparr>srv_sock = \<lparr>s_in = map Some (s_out cs), s_out = []\<rparr>, srv_files = sfs, srv_use_fde = sa_use_fde b\<rparr> = Some (0, st')"
      "srv_files st' = sfs(KEY_FILE_PATH \<mapsto> take MAX_BUF key)" "srv_sock st' = \<lparr>s_in = unread key, s_out = server_replies fw crt tok table log\<rparr>"
    using server_session [of srv "\<lparr>fd = dev_open (v_dev srv)\<rparr>" "e_rand env" crt tok "\<lparr>srv_sock = \<lparr>s_in = map Some (s_out cs), s_out = []\<rparr>,
      srv_files = sfs, srv_use_fde = sa_use_fde b\<rparr>" fw key table log m0] dev(3) f key(2) io by auto
  then show ?thesis using so sn dev(1,2) by (simp add: server_main_def server_serve_def tsi_new_ctx_def Let_def)
qed

text \<open>A concrete session.\<close>

definition demo_opts :: "(char \<times> string) list" where
  "demo_opts = [(CHR ''p'', ''7220''), (CHR ''m'', hex_string (replicate 32 3)), (CHR ''k'', ''./key.bin'')]"

definition demo_net :: client_net where
  "demo_net = \<lparr>cn_socket = 5, cn_connect = (\<lambda>_ _. Some \<lparr>s_in = [Some [0], Some [0]], s_out = []\<rparr>)\<rparr>"

definition demo_device :: tsi_device where
  "demo_device = \<lparr>dev_open = 3, dev_version = (\<lambda>_. (0, 1, 0)),
     dev_token = (\<lambda>_ cmd. (0, cmd\<lparr>cmd_token := replicate 8192 0, cmd_token_size := 1\<rparr>)),
     dev_get_cert = (\<lambda>_ dc. (0, dc\<lparr>cert_size := 1, cert_value := replicate 4096 0\<rparr>))\<rparr>"

definition demo_msgs :: "bytes list" where
  "demo_msgs = [word_bytes DEVICE_CERT_MSG_ID, word_bytes ATTEST_MSG_ID @ replicate 64 1,
     word_bytes VERIFY_SUCCESS_MSG_ID, word_bytes USE_FDE_MSG_ID, [5, 6, 7]]"

lemma demo_options:
  "\<exists>a. client_options demo_opts client_defaults = Some (Inr a) \<and> ca_cfg a = demo_cfg_fde\<lparr>
     cfg_measurement := replicate 32 3 @ replicate 32 0, cfg_ref_json_file := None\<rparr>"
proof -
  have h: "hex_to_bytes (hex_string (replicate 32 3)) 64 (replicate 64 0) 64 = Some (0, replicate 32 3 @ replicate 32 0, 32)"
    using hex_to_bytes_hex [of "replicate 32 3" 64 "replicate 64 0"] by simp
  have "atoi ''7220'' = Some 7220" by (simp add: atoi_def isspace_def digits_value_def Let_def)
  then show ?thesis using h
    by (simp add: demo_opts_def client_option_def client_defaults_def client_globals_def demo_cfg_fde_def demo_cfg_def Let_def
        del: replicate.simps)
qed

lemma demo_client_main:
  "client_main demo_net demo_env demo_files demo_opts =
     Some (0, demo_files, Some \<lparr>s_in = [], s_out = demo_msgs\<rparr>, [])"
proof -
  let ?cfg = "demo_cfg_fde\<lparr>cfg_measurement := replicate 32 3 @ replicate 32 0, cfg_ref_json_file := None\<rparr>"
  have d: "challenge (cvm_token sample_token) = QBuf (replicate 64 1)" "rim (cvm_token sample_token) = QBuf (replicate 32 3)"
    by (simp_all add: sample_token_def cvm_of_def sample_content_def)
  have "buf_equals (challenge (cvm_token sample_token)) (replicate 64 1) 64 = Some True"
    "buf_equals (rim (cvm_token sample_token)) (cfg_measurement ?cfg) (cfg_measurement_len ?cfg) = Some True"
    unfolding d by (simp_all add: buf_equals_def mem_read_def demo_cfg_def demo_cfg_fde_def)
  moreover have "\<not> cfg_use_firmware ?cfg" by (simp add: demo_cfg_fde_def)
  moreover have "parse_cca_attestation_token (e_malloc demo_env) (e_qcbor demo_env) wild_token (QBuf [0]) = Some (0, sample_token)"
    using demo_parses by (simp add: demo_env_def)
  ultimately have v: "verify_token demo_env ?cfg demo_files (replicate 64 1) (QBuf [0]) = Some (VERIFY_SUCCESS, demo_files)"
    using demo_prints demo_signatures [OF demo_files_read(1), of ?cfg] by (auto simp: verify_token_def)
  have f: "demo_files(''./aik_cert.pem'' \<mapsto> [1]) = demo_files" by (rule ext) (simp add: demo_files_def)
  have r: "e_rand demo_env = replicate 64 1" by (simp add: demo_env_def)
  have "read_file_data_binary (e_malloc demo_env) (e_io demo_env) demo_files (cfg_rootfs_key_file ?cfg) = Some [5, 6, 7]"
    using demo_files_read(4) by (simp add: demo_env_def demo_cfg_def demo_cfg_fde_def)
  then have "send_verdict demo_env ?cfg 0 demo_files s = (0, demo_files, s\<lparr>s_out := s_out s @ [word_bytes VERIFY_SUCCESS_MSG_ID,
      word_bytes USE_FDE_MSG_ID, [5, 6, 7]]\<rparr>)" for s
    by (simp add: send_verdict_def sock_write_def demo_cfg_fde_def demo_cfg_def)
  then have "handle_connect demo_env ?cfg demo_files \<lparr>s_in = [Some [0], Some [0]], s_out = []\<rparr> =
     Some (0, demo_files, \<lparr>s_in = [], s_out = demo_msgs\<rparr>)"
    using demo_cert [of demo_files] v
    by (simp add: handle_connect_def verify_and_reply_def sock_write_def f r demo_msgs_def del: replicate.simps)
      (simp add: demo_cfg_fde_def demo_cfg_def)
  then show ?thesis using demo_options by (auto simp: client_main_def demo_net_def)
qed

lemma demo_args:
  "last_arg CHR ''k'' demo_opts = Some ''./key.bin''" "last_arg CHR ''e'' demo_opts = None"
  "last_arg CHR ''f'' demo_opts = None" "reference_is demo_opts (replicate 32 3)"
  by (simp_all add: demo_opts_def reference_is_def del: replicate.simps)

lemma demo_key_new: "[5, 6, 7] \<notin> protocol_messages (e_rand demo_env)"
proof -
  have "4 \<le> length x" if "x \<in> protocol_messages c" for x c
    using that by (auto simp: protocol_messages_def)
  then show ?thesis by fastforce
qed

theorem client_program_releases_key_witness:
  "\<exists>fs1 t cfg. verify_signatures demo_env cfg fs1 t = Some (True, demo_files) \<and>
     challenge (cvm_token t) = QBuf (replicate 64 1) \<and> rim (cvm_token t) = QBuf (replicate 32 3)"
proof -
  have "\<forall>ip port s. cn_connect demo_net ip port = Some s \<longrightarrow> s_out s = []" by (simp add: demo_net_def)
  moreover have "sha_ok (e_sha demo_env)" "e_rand demo_env = replicate 64 1" using toy_sha_ok by (simp_all add: demo_env_def)
  moreover have "[5, 6, 7] \<in> set (s_out \<lparr>s_in = [], s_out = demo_msgs\<rparr>)" by (simp add: demo_msgs_def)
  ultimately show ?thesis
    using client_program_releases_key [OF demo_client_main, where m = "[5, 6, 7]" and bs = "replicate 32 3"]
      demo_args(4) demo_key_new by auto
qed

theorem sample_key_transfer_witness:
  "\<exists>fds'. server_main \<lparr>sn_socket = 4, sn_bind = (\<lambda>_ _. True), sn_listen = True,
       sn_accept = Some (6, \<lparr>s_in = map Some demo_msgs, s_out = []\<rparr>)\<rparr>
     (demo_server\<lparr>v_dev := demo_device\<rparr>) 0 Map.empty [] =
     Some (0, [KEY_FILE_PATH \<mapsto> [5, 6, 7]], Some \<lparr>s_in = [], s_out = [[0], [0]]\<rparr>, fds')"
proof -
  have a: "attester_answers demo_device 3 (e_rand demo_env) [0] [0]"
    by (auto simp: attester_answers_def demo_device_def tsi_device_ok_def demo_env_def take_replicate)
  have r: "server_replies False [0] [0] [] [] = [[0], [0]]" by (simp add: server_replies_def)
  have k: "read_file_data_binary (e_malloc demo_env) (e_io demo_env) demo_files ''./key.bin'' = Some [5, 6, 7]"
    using demo_files_read(4) by (simp add: demo_env_def)
  show ?thesis
    using sample_key_transfer [OF demo_client_main, where fw = False and crt = "[0]" and tok = "[0]" and table = "[]" and log = "[]"
        and kf = "''./key.bin''" and key = "[5, 6, 7]" and sopts = "[]" and b = server_defaults
        and snet = "\<lparr>sn_socket = 4, sn_bind = (\<lambda>_ _. True), sn_listen = True,
           sn_accept = Some (6, \<lparr>s_in = map Some demo_msgs, s_out = []\<rparr>)\<rparr>" and connfd = 6
        and srv = "demo_server\<lparr>v_dev := demo_device\<rparr>" and sfs = Map.empty and ?m0.0 = 0]
      a r k demo_args by (simp add: demo_net_def demo_server_def unread_def) (simp add: demo_device_def)
qed

end
