(* ===== verification/Programs.thy ===== *)
theory Programs
  imports Mig_Agent Host_Mig Sample_Main
begin

text \<open>
  The two migration programs: \<open>main\<close> and the thread functions of the guest's agent
  (\<open>migcvm-agent/src/migcvm-agent.c\<close>) with the set-up of its listeners (\<open>socket/host_socket_agent.c\<close>),
  \<open>main\<close> of the agent on the host (\<open>virtcca-mig-agent/src/main.c\<close>), and the remaining ways to find an
  address (\<open>socket/host_server_ip.c\<close>). What the kernel answers is in records; a program either ends
  with a status or runs its two threads, which serve connections for ever.
\<close>

abbreviation (input) SERVER_AGENT_PORT :: u32 where "SERVER_AGENT_PORT \<equiv> 9001"
abbreviation (input) CLIENT_AGENT_PORT :: u32 where "CLIENT_AGENT_PORT \<equiv> 9000"

section \<open>Addresses from the system\<close>

definition get_ip_by_ioctl :: "(nat \<Rightarrow> bool) \<Rightarrow> bool \<Rightarrow> (string \<Rightarrow> string option) \<Rightarrow> string \<Rightarrow> string option" where
  "get_ip_by_ioctl malloc_ok socket_ok siocgifaddr ifname =
     (if \<not> socket_ok then None
      else case siocgifaddr (take 15 ifname) of
          None \<Rightarrow> None
        | Some ip \<Rightarrow> if ip \<noteq> ''127.0.0.1'' then safe_strdup malloc_ok ip else None)"

text \<open>\<open>fgets\<close> with room for \<open>n\<close> characters, and \<open>strtok (s, "=")\<close> with the text it goes on with.\<close>

fun fgets :: "nat \<Rightarrow> string \<Rightarrow> string \<times> string" where
  "fgets 0 s = ([], s)"
| "fgets (Suc n) [] = ([], [])"
| "fgets (Suc n) (c # s) =
     (if c = CHR 0x0A then ([c], s) else let (l, r) = fgets n s in (c # l, r))"

definition strtok_eq :: "string \<Rightarrow> string option \<times> string" where
  "strtok_eq s =
     (let s = dropWhile (\<lambda>c. c = CHR ''='') s in
      if s = [] then (None, [])
      else (Some (takeWhile (\<lambda>c. c \<noteq> CHR ''='') s), drop 1 (dropWhile (\<lambda>c. c \<noteq> CHR ''='') s)))"

definition trim :: "string \<Rightarrow> string" where
  "trim v = rev (dropWhile isspace (rev (dropWhile isspace v)))"

text \<open>The address a line gives, if its key begins with \<open>IPADDR\<close>.\<close>

definition config_line :: "string \<Rightarrow> string option" where
  "config_line line =
     (let (key, rest) = strtok_eq (takeWhile (\<lambda>c. c \<noteq> CHR 0x00) line); (val, _) = strtok_eq rest in
      case (key, val) of
        (Some k, Some v) \<Rightarrow> if prefix ''IPADDR'' (dropWhile isspace k) then Some (trim v) else None
      | _ \<Rightarrow> None)"

lemma fgets_shrinks: "s \<noteq> [] \<Longrightarrow> length (snd (fgets (Suc n) s)) < length s"
proof (induction n arbitrary: s)
  case 0
  then show ?case by (cases s) auto
next
  case (Suc n)
  then obtain c t where s: "s = c # t" by (cases s) auto
  show ?case
  proof (cases "t = []")
    case True
    then show ?thesis using s by (auto split: prod.splits)
  next
    case False
    then show ?thesis using Suc.IH [OF False] s by (auto simp del: fgets.simps(2,3) simp: fgets.simps(3) [of "Suc n"] split: prod.splits)
  qed
qed

function config_lines :: "string \<Rightarrow> string option" where
  "config_lines s =
     (if s = [] then None
      else case config_line (fst (fgets 255 s)) of
          Some ip \<Rightarrow> Some ip
        | None \<Rightarrow> config_lines (snd (fgets 255 s)))"
  by pat_completeness auto
termination
  by (relation "measure length") (use fgets_shrinks [of _ 254] in auto)

declare config_lines.simps [simp del]

definition file_text :: "bytes \<Rightarrow> string" where
  "file_text d = map (\<lambda>b. char_of (unat b)) d"

definition get_ip_from_config :: "(nat \<Rightarrow> bool) \<Rightarrow> files \<Rightarrow> string \<Rightarrow> string option" where
  "get_ip_from_config malloc_ok fs ifname =
     (let ifcfg = take 255 (''/etc/sysconfig/network-scripts/ifcfg-'' @ ifname);
          nm = take 255 (''/etc/NetworkManager/system-connections/'' @ ifname @ ''.nmconnection'') in
      case (case fs ifcfg of None \<Rightarrow> fs nm | f \<Rightarrow> f) of
        None \<Rightarrow> None
      | Some d \<Rightarrow> Option.bind (config_lines (file_text d)) (safe_strdup malloc_ok))"


section \<open>The agent in the guest\<close>

text \<open>The socket calls for a listener; \<open>bind\<close> sees the context id and the port.\<close>

record vsock_net =
  vn_socket :: bool
  vn_setsockopt :: bool
  vn_bind :: "u32 \<Rightarrow> u32 \<Rightarrow> bool"
  vn_listen :: bool

text \<open>
  The listener: \<open>Inl\<close> is the code it returns when it cannot be set up, otherwise it serves every
  connection that comes; \<open>Inr\<close> has its state after those of the list.
\<close>

definition socket_agent_start_with_handler ::
    "vsock_net \<Rightarrow> u32 \<Rightarrow> u32 \<Rightarrow> (socket_msg \<Rightarrow> vsock \<Rightarrow> 's \<Rightarrow> (vsock \<times> 's) option) \<Rightarrow> incoming list \<Rightarrow> 's
     \<Rightarrow> (int + bytes list \<times> 's) option" where
  "socket_agent_start_with_handler net cid p handler is s =
     (if \<not> vn_socket net then Some (Inl TSI_ERROR_STATE)
      else if \<not> vn_setsockopt net then Some (Inl TSI_ERROR_STATE)
      else if \<not> vn_bind net cid p then Some (Inl TSI_ERROR_INPUT)
      else if \<not> vn_listen net then Some (Inl TSI_ERROR_STATE)
      else map_option Inr (serve_connections handler is s))"

text \<open>
  What a run of the agent needs besides the libraries: the interfaces, the device \<open>/dev/vsock\<close> with
  the context id it reports, and whether threads and their processors are granted: \<^term>\<open>None\<close> is the
  program, \<^term>\<open>Some True\<close> its server and \<^term>\<open>Some False\<close> its client.
\<close>

record agent_sys =
  as_affinity :: "bool option \<Rightarrow> bool"
  as_ifs1 :: "iface list option"
  as_ifs2 :: "iface list option"
  as_vsock :: int
  as_cid :: "u32 option"
  as_thread :: "bool \<Rightarrow> bool"
  as_net :: vsock_net
  as_evidence_size :: nat
  as_report_max :: nat

text \<open>The thread of the server and of the client; \<open>Inl ()\<close> is its end without a listener.\<close>

definition server_thread_func ::
    "('c, 'x, 'k) env \<Rightarrow> agent_sys \<Rightarrow> ('h, 'd) rats \<Rightarrow> (net_call \<Rightarrow> bool) \<Rightarrow> u32 \<Rightarrow> incoming list \<Rightarrow> ('h, 'd) agent
     \<Rightarrow> (unit + bytes list \<times> ('h, 'd) agent) option" where
  "server_thread_func env sys rt net_ok cid is ag =
     (if \<not> as_affinity sys (Some True) then Some (Inl ())
      else
        let (ret, args) = mig_agent_init (e_malloc env) (a_args ag) in
        if ret \<noteq> 0 \<or> \<not> e_malloc env 32 then Some (Inl ())
        else do {
          r \<leftarrow> socket_agent_start_with_handler (as_net sys) cid SERVER_AGENT_PORT
                 (ras_tls_handler_server env rt net_ok) is (set_args args ag);
          Some (case r of Inl _ \<Rightarrow> Inl () | Inr x \<Rightarrow> Inr x)
        })"

definition client_thread_func ::
    "('c, 'x, 'k) env \<Rightarrow> agent_sys \<Rightarrow> ('h, 'd) rats \<Rightarrow> ima_lib \<Rightarrow> (net_call \<Rightarrow> bool) \<Rightarrow> rim_ref \<Rightarrow> u32 \<Rightarrow> incoming list
     \<Rightarrow> ('h, 'd) agent \<Rightarrow> (unit + bytes list \<times> ('h, 'd) agent) option" where
  "client_thread_func env sys rt il net_ok g cid is ag =
     (if \<not> as_affinity sys (Some False) \<or> \<not> e_malloc env 32 then Some (Inl ())
      else do {
        r \<leftarrow> socket_agent_start_with_handler (as_net sys) cid CLIENT_AGENT_PORT
               (ras_tls_handler_client env rt il net_ok g) is ag;
        Some (case r of Inl _ \<Rightarrow> Inl () | Inr x \<Rightarrow> Inr x)
      })"

text \<open>The arguments after \<open>calloc\<close>: all zero.\<close>

definition zero_args :: mig_agent_args where
  "zero_args = \<lparr>agent_type = 0, attester_type = None, verifier_type = None, tls_type = None, crypto_type = None,
     srv_ip = None, port = 0, digest_file = None, mutual = False, provide_endorsements = False, use_firmware = False,
     dump_eventlog = False, ref_json_file = None, use_fde = False, rootfs_key_file = None,
     verify_platform_components = False, platform_ref_json_file = None, guest_rd = 0, msk = replicate 4 0,
     rand_iv = replicate 4 0, tag = replicate 2 0\<rparr>"

text \<open>
  What \<open>main\<close> leaves to its threads: the reference value, the context id and the arguments of the
  server and of the client; the client is \<^term>\<open>None\<close> when its thread could not be created, and the program
  then waits for the server alone.
\<close>

record agent_start =
  ag_rim :: rim_ref
  ag_cid :: u32
  ag_server :: mig_agent_args
  ag_client :: "mig_agent_args option"

definition guest_main ::
    "('c, 'x, 'k) env \<Rightarrow> agent_sys \<Rightarrow> tsi_device \<Rightarrow> (char \<times> string) list \<Rightarrow> (int + agent_start) option" where
  "guest_main env sys dev opts =
     (if \<not> as_affinity sys None then Some (Inl 1)
      else do {
        g \<leftarrow> rim_initialize env dev (as_evidence_size sys) (as_report_max sys) no_rim_ref;
        inp \<leftarrow> parse_input (e_malloc env) (get_local_ipv4 (e_malloc env) (as_ifs1 sys) (as_ifs2 sys)) opts g;
        case inp of
          Inl _ \<Rightarrow> Some (Inl 1)
        | Inr (client_ip, server_ip, g) \<Rightarrow>
            if as_vsock sys < 0 then Some (Inl 1)
            else case as_cid sys of
                None \<Rightarrow> Some (Inl 1)
              | Some cid \<Rightarrow>
                  if \<not> e_malloc env 208 then Some (Inl 1)
                  else case (safe_strdup (e_malloc env) server_ip, safe_strdup (e_malloc env) client_ip) of
                      (Some sip, Some cip) \<Rightarrow>
                        if \<not> as_thread sys True then Some (Inl (- 1))
                        else Some (Inr \<lparr>ag_rim = g, ag_cid = cid, ag_server = zero_args\<lparr>srv_ip := Some sip\<rparr>,
                          ag_client = (if as_thread sys False then Some (zero_args\<lparr>srv_ip := Some cip\<rparr>) else None)\<rparr>)
                    | _ \<Rightarrow> Some (Inl 1)
      })"


section \<open>The agent on the host\<close>

text \<open>
  The addresses are copied without a check, and printed: without memory for a copy that is
  undefined. The client is \<^term>\<open>None\<close> when only the server's thread was created.
\<close>

definition host_main ::
    "(nat \<Rightarrow> bool) \<Rightarrow> (bool \<Rightarrow> bool) \<Rightarrow> (char \<times> string) list \<Rightarrow> (int + mig_thread_args \<times> mig_thread_args option) option" where
  "host_main malloc_ok thread_ok opts = do {
     r \<leftarrow> host_parse_input malloc_ok opts;
     case r of
       Inl _ \<Rightarrow> Some (Inl 1)
     | Inr p \<Rightarrow>
         if \<not> malloc_ok 24 then Some (Inl (- 1))
         else if \<not> malloc_ok (length (ip_client p) + 1) \<or> \<not> malloc_ok (length (ip_server p) + 1) then None
         else if \<not> thread_ok True then Some (Inl (- 1))
         else Some (Inr (host_server_args p, if thread_ok False then Some (host_client_args p) else None))
   }"



section \<open>Looking up a configured address\<close>

definition render_config :: "(string \<times> string) list \<Rightarrow> string" where
  "render_config es = concat (map (\<lambda>(k, v). k @ ''='' @ v @ [CHR 0x0A]) es)"

text \<open>A line of a configuration file: a key and a value without the characters that end them.\<close>

definition config_entry_ok :: "string \<times> string \<Rightarrow> bool" where
  "config_entry_ok e = (fst e \<noteq> [] \<and> length (fst e) + length (snd e) + 2 \<le> 255 \<and>
     set (fst e @ snd e) \<inter> {CHR ''='', CHR 0x0A, CHR 0x00} = {})"

lemma fgets_line:
  "CHR 0x0A \<notin> set l \<Longrightarrow> length l < n \<Longrightarrow> fgets n (l @ CHR 0x0A # r) = (l @ [CHR 0x0A], r)"
proof (induction l arbitrary: n)
  case Nil
  then show ?case by (cases n) auto
next
  case (Cons c l)
  then obtain m where m: "n = Suc m" by (cases n) auto
  have "fgets m (l @ CHR 0x0A # r) = (l @ [CHR 0x0A], r)" using Cons m by simp
  then show ?case using Cons.prems m by auto
qed

lemma takeWhile_until: "x \<notin> set l \<Longrightarrow> takeWhile (\<lambda>c. c \<noteq> x) (l @ x # r) = l"
  by (induction l) auto

lemma dropWhile_until: "x \<notin> set l \<Longrightarrow> dropWhile (\<lambda>c. c \<noteq> x) (l @ x # r) = x # r"
  by (induction l) auto

lemma strtok_eq_key: "k \<noteq> [] \<Longrightarrow> CHR ''='' \<notin> set k \<Longrightarrow> strtok_eq (k @ CHR ''='' # r) = (Some k, r)"
  by (cases k) (auto simp: strtok_eq_def takeWhile_until dropWhile_until)

lemma strtok_eq_value: "v \<noteq> [] \<Longrightarrow> CHR ''='' \<notin> set v \<Longrightarrow> fst (strtok_eq v) = Some v"
  by (cases v) (auto simp: strtok_eq_def takeWhile_eq_all_conv)

lemma trim_newline: "trim (v @ [CHR 0x0A]) = trim v"
proof -
  have sp: "isspace CHR 0x0A" by (simp add: isspace_def)
  show ?thesis
  proof (cases "\<forall>c \<in> set v. isspace c")
    case True
    then have "\<forall>c \<in> set (v @ [CHR 0x0A]). isspace c" using sp by auto
    then have "dropWhile isspace v = []" "dropWhile isspace (v @ [CHR 0x0A]) = []"
      using True by (simp_all only: dropWhile_eq_Nil_conv simp_thms)
    then show ?thesis by (simp only: trim_def)
  next
    case False
    then have "dropWhile isspace (v @ [CHR 0x0A]) = dropWhile isspace v @ [CHR 0x0A]"
      by (metis dropWhile_append1)
    then show ?thesis using sp by (simp add: trim_def)
  qed
qed

lemma config_line_entry:
  assumes "config_entry_ok (k, v)"
  shows "config_line (k @ ''='' @ v @ [CHR 0x0A]) = (if prefix ''IPADDR'' (dropWhile isspace k) then Some (trim v) else None)"
proof -
  have n: "takeWhile (\<lambda>c. c \<noteq> CHR 0x00) (k @ ''='' @ v @ [CHR 0x0A]) = k @ ''='' @ v @ [CHR 0x0A]"
    using assms by (auto simp: takeWhile_eq_all_conv config_entry_ok_def)
  have "fst (strtok_eq (v @ [CHR 0x0A])) = Some (v @ [CHR 0x0A])"
    using assms by (intro strtok_eq_value) (auto simp: config_entry_ok_def)
  then obtain r where "strtok_eq (v @ [CHR 0x0A]) = (Some (v @ [CHR 0x0A]), r)"
    by (metis prod.collapse)
  moreover have "strtok_eq (k @ ''='' @ v @ [CHR 0x0A]) = (Some k, v @ [CHR 0x0A])"
    using assms strtok_eq_key [of k "v @ [CHR 0x0A]"] by (auto simp: config_entry_ok_def)
  ultimately show ?thesis unfolding config_line_def n by (simp add: trim_newline)
qed

lemma config_lines_find:
  "list_all config_entry_ok es \<Longrightarrow> config_lines (render_config es) =
     map_option (\<lambda>e. trim (snd e)) (find (\<lambda>e. prefix ''IPADDR'' (dropWhile isspace (fst e))) es)"
proof (induction es)
  case Nil
  then show ?case by (simp add: render_config_def config_lines.simps)
next
  case (Cons e es)
  obtain k v where e: "e = (k, v)" by (cases e)
  have ok: "config_entry_ok (k, v)" using Cons.prems e by simp
  have r: "render_config (e # es) = (k @ ''='' @ v) @ CHR 0x0A # render_config es" by (simp add: render_config_def e)
  have "fgets 255 (render_config (e # es)) = ((k @ ''='' @ v) @ [CHR 0x0A], render_config es)"
    unfolding r by (rule fgets_line) (use ok in \<open>auto simp: config_entry_ok_def\<close>)
  moreover have "render_config (e # es) \<noteq> []" by (simp add: r)
  ultimately show ?case
    using Cons.IH Cons.prems config_line_entry [OF ok] e by (subst config_lines.simps) simp
qed


section \<open>What the threads are started with\<close>

text \<open>
  The reference value of an agent. With \<open>-r\<close> it is the value of the last such option, each byte what
  \<open>sscanf\<close> reads from two characters on; without it the measurement in the agent's own token, cut to
  64 bytes; and when the agent got no token it could parse, 64 zero bytes.
\<close>

definition reads_hex :: "string \<Rightarrow> bytes \<Rightarrow> bool" where
  "reads_hex h bs \<longleftrightarrow> length h = 2 * length bs \<and> (\<forall>i<length bs. sscanf_2x (drop (i * 2) h) = Some (bs ! i))"

definition own_rim :: "('c, 'x, 'k) env \<Rightarrow> agent_sys \<Rightarrow> tsi_device \<Rightarrow> bytes option" where
  "own_rim env sys dev =
     (if e_malloc env (as_evidence_size sys)
      then Option.bind (own_token env dev (as_report_max sys)) (\<lambda>t. qbuf_data (rim (cvm_token t)))
      else None)"

definition agent_reference :: "('c, 'x, 'k) env \<Rightarrow> agent_sys \<Rightarrow> tsi_device \<Rightarrow> (char \<times> string) list \<Rightarrow> bytes \<Rightarrow> bool" where
  "agent_reference env sys dev opts bs \<longleftrightarrow>
     (case last_arg CHR ''r'' opts of
        Some h \<Rightarrow> reads_hex h bs
      | None \<Rightarrow> bs = (case own_rim env sys dev of Some r \<Rightarrow> take 64 r | None \<Rightarrow> replicate 64 0))"

lemma input_opts_rim:
  "input_opts malloc_ok opts acc = Inr (c, s, h) \<Longrightarrow>
   h = (case last_arg CHR ''r'' opts of None \<Rightarrow> snd (snd acc) | x \<Rightarrow> x)"
proof (induction malloc_ok opts acc rule: input_opts.induct)
  case (2 malloc_ok opt optarg opts client_ip server_ip rim_hex)
  then show ?case by (auto simp: safe_strdup_def split: if_splits option.splits)
qed simp

lemma rim_initialize_wf:
  assumes "rim_initialize env dev evs rmax g = Some g'" "length (fst g) = 64" "snd g \<le> 64"
  shows "length (fst g') = 64 \<and> snd g' \<le> 64"
  using assms by (auto simp: rim_initialize_def mem_write_def split: bind_splits if_splits qbuf.splits)

lemma hex_to_bytes_loop_reads:
  "hex_to_bytes_loop inp n i outp = Some (True, outp1) \<Longrightarrow>
   length outp1 = length outp \<and> (\<forall>k<i. k < length outp \<longrightarrow> outp1 ! k = outp ! k) \<and> (0 < n \<longrightarrow> i + n \<le> length outp) \<and>
   (\<forall>k. i \<le> k \<longrightarrow> k < i + n \<longrightarrow> sscanf_2x (drop (k * 2) inp) = Some (outp1 ! k))"
proof (induction n arbitrary: i outp)
  case (Suc n)
  obtain b where b: "sscanf_2x (drop (i * 2) inp) = Some b" "i < length outp"
      "hex_to_bytes_loop inp n (Suc i) (outp[i := b]) = Some (True, outp1)"
    using Suc.prems by (auto simp: mem_write_def upd_conv_take_nth_drop split: if_splits option.splits bind_splits)
  have ih: "length outp1 = length outp" "\<forall>k<Suc i. k < length outp \<longrightarrow> outp1 ! k = outp[i := b] ! k"
      "0 < n \<longrightarrow> Suc i + n \<le> length outp"
      "\<forall>k. Suc i \<le> k \<longrightarrow> k < Suc i + n \<longrightarrow> sscanf_2x (drop (k * 2) inp) = Some (outp1 ! k)"
    using Suc.IH [OF b(3)] by simp_all
  have "outp1 ! i = b" using ih(2) b(2) by simp
  then have "sscanf_2x (drop (k * 2) inp) = Some (outp1 ! k)" if "i \<le> k" "k < i + Suc n" for k
    using that b(1) ih(4) by (cases "k = i") auto
  moreover have "\<forall>k<i. k < length outp \<longrightarrow> outp1 ! k = outp ! k" using ih(2) by simp
  ultimately show ?case using ih(1,3) b(2) by (cases n) auto
qed simp

lemma init_rim_ref_reads:
  assumes "init_rim_ref h g = Some (0, g')" "snd g \<le> 64" "length (fst g) = 64"
  shows "reads_hex h (take (snd g') (fst g')) \<and> length (fst g') = 64 \<and> snd g' \<le> 64"
proof -
  obtain outp where h: "length h mod 2 = 0" "length h div 2 \<le> snd g" "g' = (outp, length h div 2)"
      "hex_to_bytes_loop h (length h div 2) 0 (fst g) = Some (True, outp)"
    using assms(1) by (auto simp: init_rim_ref_def hex_to_bytes_def split: if_splits bind_splits)
  then show ?thesis using hex_to_bytes_loop_reads [OF h(4)] assms(2,3) by (auto simp: reads_hex_def)
qed

lemma guest_main_rim:
  assumes "guest_main env sys dev opts = Some (Inr st)"
  obtains g where "rim_initialize env dev (as_evidence_size sys) (as_report_max sys) no_rim_ref = Some g"
    "length (fst g) = 64" "snd g \<le> 64"
    "case last_arg CHR ''r'' opts of None \<Rightarrow> ag_rim st = g | Some h \<Rightarrow> init_rim_ref h g = Some (0, ag_rim st)"
proof -
  obtain g cip sip where g: "rim_initialize env dev (as_evidence_size sys) (as_report_max sys) no_rim_ref = Some g"
    and p: "parse_input (e_malloc env) (get_local_ipv4 (e_malloc env) (as_ifs1 sys) (as_ifs2 sys)) opts g
        = Some (Inr (cip, sip, ag_rim st))"
    using assms by (auto simp: guest_main_def split: bind_splits sum.splits option.splits if_splits)
  obtain c s h where i: "input_opts (e_malloc env) opts (c, s, None) = Inr (cip, sip, h)"
    and r: "case h of None \<Rightarrow> ag_rim st = g | Some x \<Rightarrow> init_rim_ref x g = Some (0, ag_rim st)"
    using p by (auto simp: parse_input_def split: bind_splits sum.splits option.splits if_splits prod.splits)
  have "length (fst g) = 64 \<and> snd g \<le> 64" using rim_initialize_wf [OF g] by (simp add: no_rim_ref_def)
  moreover have "h = last_arg CHR ''r'' opts" using input_opts_rim [OF i] by (auto split: option.splits)
  ultimately show ?thesis using that g r by blast
qed

lemma rim_initialize_reference:
  assumes "rim_initialize env dev (as_evidence_size sys) (as_report_max sys) no_rim_ref = Some g"
  shows "take (snd g) (fst g) = (case own_rim env sys dev of Some r \<Rightarrow> take 64 r | None \<Rightarrow> replicate 64 0)"
proof (cases "e_malloc env (as_evidence_size sys)")
  case False
  then show ?thesis using assms by (auto simp: rim_initialize_def own_rim_def no_rim_ref_def)
next
  case True
  then show ?thesis using assms
    by (auto simp: rim_initialize_def own_rim_def own_token_def no_rim_ref_def mem_write_def 
        split: bind_splits if_splits qbuf.splits)
qed

lemma guest_main_reference:
  assumes "guest_main env sys dev opts = Some (Inr st)"
  shows "agent_reference env sys dev opts (take (snd (ag_rim st)) (fst (ag_rim st)))"
    and "snd (ag_rim st) \<le> length (fst (ag_rim st))"
proof -
  obtain g where g: "rim_initialize env dev (as_evidence_size sys) (as_report_max sys) no_rim_ref = Some g"
    "length (fst g) = 64" "snd g \<le> 64"
    "case last_arg CHR ''r'' opts of None \<Rightarrow> ag_rim st = g | Some h \<Rightarrow> init_rim_ref h g = Some (0, ag_rim st)"
    by (rule guest_main_rim [OF assms])
  show "agent_reference env sys dev opts (take (snd (ag_rim st)) (fst (ag_rim st)))"
    using g(4) rim_initialize_reference [OF g(1)] init_rim_ref_reads [OF _ g(3,2)]
    by (auto simp: agent_reference_def split: option.splits)
  show "snd (ag_rim st) \<le> length (fst (ag_rim st))"
    using g(2-4) init_rim_ref_reads [OF _ g(3,2)] by (auto split: option.splits)
qed

lemma buf_equals_data: "n \<le> length e \<Longrightarrow> buf_equals b e n = Some True \<Longrightarrow> qbuf_data b = Some (take n e)"
  by (auto simp: buf_equals_def mem_read_def split: bind_splits if_splits)

text \<open>
  The request a connection delivers to a handler, and the integrity threads a server may start for
  a connection on which \<open>b\<close> is what was sent in the end: one, for the guest of the request, when the
  request is \<open>START_SERVER\<close> with a guest and the positive acknowledgement was sent, and otherwise none.
\<close>

definition request_of :: "incoming \<Rightarrow> socket_msg option" where
  "request_of i =
     (if in_accepted i \<and> in_named i
      then (case fst (readn 300 (in_conn i)) of
              Some b \<Rightarrow> if length b = 300 then Some (msg_of_bytes b) else None
            | None \<Rightarrow> None)
      else None)"

definition acknowledged_threads :: "incoming \<times> bytes \<Rightarrow> integrity_socket list" where
  "acknowledged_threads = (\<lambda>(i, b).
     case request_of i of
       Some m \<Rightarrow>
         if cmd_is m ''START_SERVER'' \<and> payload_type m = PAYLOAD_TYPE_ULL \<and> ull_payload (msg_payload m) \<noteq> 0 \<and>
            b = v_out (in_conn i) @ msg_bytes (ack_of ''START_SERVER_ACK'' 1 m)
         then [\<lparr>io_guest_rd = ull_payload (msg_payload m), io_is_server = True\<rparr>] else []
     | None \<Rightarrow> [])"

lemma server_startup_thread:
  "rats_tls_server_startup env rt net_ok p = Some (r, Some t, p') \<Longrightarrow> t = \<lparr>io_guest_rd = guest_rd (p_args p), io_is_server = True\<rparr>"
  by (auto simp: rats_tls_server_startup_def start_io_thread_def Let_def split: bind_splits if_splits prod.splits)

lemma server_handler_threads:
  assumes "ras_tls_handler_server env rt net_ok msg c ag = Some (c', ag')"
  shows "a_threads ag' = a_threads ag \<or>
    a_threads ag' = a_threads ag @ [\<lparr>io_guest_rd = ull_payload (msg_payload msg), io_is_server = True\<rparr>]"
  using assms
  by (auto simp: ras_tls_handler_server_def payload_decode_one_type_def Let_def set_args_def
      split: bind_splits if_splits prod.splits option.splits dest!: server_startup_thread)

lemma server_connection_threads:
  assumes "calling_handler (ras_tls_handler_server env rt net_ok) i ag = Some (b, ag')"
  shows "\<exists>ts. a_threads ag' = a_threads ag @ ts \<and> subseq ts (acknowledged_threads (i, b))"
proof (cases "a_threads ag' = a_threads ag")
  case False
  obtain bs c c' where r: "in_accepted i" "in_named i" "readn 300 (in_conn i) = (Some bs, c)" "length bs = 300" "b = v_out c'"
      "ras_tls_handler_server env rt net_ok (msg_of_bytes bs) c ag = Some (c', ag')"
    using assms False by (auto simp: calling_handler_def Let_def split: if_splits prod.splits option.splits bind_splits)
  then have q: "request_of i = Some (msg_of_bytes bs)" by (simp add: request_of_def)
  show ?thesis
    using server_handler_threads [OF r(6)] server_thread_on_request [OF r(6) False] readn_keeps [OF r(3)] r(5) q False
    by (auto simp: acknowledged_threads_def)
qed auto

lemma serve_connections_snoc:
  "serve_connections h (is @ [i]) s = do { (acks, s) \<leftarrow> serve_connections h is s; (b, s) \<leftarrow> calling_handler h i s; Some (acks @ [b], s) }"
  by (cases "serve_connections h is s"; cases "calling_handler h i (snd (the (serve_connections h is s)))")
    (auto simp: serve_connections_def foldM_append split: prod.splits)

lemma server_connections_threads:
  "serve_connections (ras_tls_handler_server env rt net_ok) is ag = Some (acks, ag') \<Longrightarrow>
     length acks = length is \<and>
     (\<exists>ts. a_threads ag' = a_threads ag @ ts \<and> subseq ts (concat (map acknowledged_threads (zip is acks))))"
proof (induction "is" arbitrary: acks ag' rule: rev_induct)
  case Nil
  then show ?case by (simp add: serve_connections_def)
next
  case (snoc i "is")
  obtain bs ag1 b where r: "serve_connections (ras_tls_handler_server env rt net_ok) is ag = Some (bs, ag1)"
      "calling_handler (ras_tls_handler_server env rt net_ok) i ag1 = Some (b, ag')" "acks = bs @ [b]"
    using snoc.prems by (auto simp: serve_connections_snoc split: bind_splits)
  obtain ts where ts: "length bs = length is" "a_threads ag1 = a_threads ag @ ts"
      "subseq ts (concat (map acknowledged_threads (zip is bs)))"
    using snoc.IH [OF r(1)] by blast
  obtain us where us: "a_threads ag' = a_threads ag1 @ us" "subseq us (acknowledged_threads (i, b))"
    using server_connection_threads [OF r(2)] by blast
  have "subseq (ts @ us) (concat (map acknowledged_threads (zip (is @ [i]) acks)))"
    using ts us r(3) by (simp add: list_emb_append_mono)
  then show ?case using ts us r(3) by auto
qed


section \<open>Properties\<close>

text \<open>
  C8. The reference value of the agent, for every run of \<open>main\<close> that comes to start its threads. The
  verification callback accepts only evidence that parses as a token whose initial measurement is,
  byte for byte and at its length, the value of the last option \<open>-r\<close>; without that option, the
  measurement in the agent's own token, cut to 64 bytes; and without a token of its own that it
  could get and parse, 64 zero bytes, which \<open>main\<close> does not distinguish from a value.
\<close>


theorem agent_program_reference:
  assumes "guest_main env sys dev opts = Some (Inr st)"
    and "user_callback env (fst (ag_rim st)) (snd (ag_rim st)) fs evidence = Some (True, fs')"
  shows "\<exists>bs tb t. agent_reference env sys dev opts bs \<and>
    token_buf_of_evidence evidence = Some tb \<and> parse_token_buf env tb = Some (VIRTCCA_SUCCESS, t) \<and>
    qbuf_data (rim (cvm_token t)) = Some bs"
proof -
  obtain tb t where t: "token_buf_of_evidence evidence = Some tb" "parse_token_buf env tb = Some (VIRTCCA_SUCCESS, t)"
    "buf_equals (rim (cvm_token t)) (fst (ag_rim st)) (snd (ag_rim st)) = Some True"
    using user_callback_accepts [OF assms(2)] by blast
  then show ?thesis using guest_main_reference [OF assms(1)] buf_equals_data [OF _ t(3)] by blast
qed

text \<open>
  C22. The server thread of the agent, over any connections in any order: each connection has one
  result, and the integrity threads it starts are, in the order of the connections, at most one for
  each connection on which it received a complete \<open>START_SERVER\<close> request with a guest of the right
  type and sent the whole positive acknowledgement of that request, each for the guest the request
  names, on the side of the server.
\<close>

theorem server_threads_acknowledged:
  assumes "server_thread_func env sys rt net_ok cid is ag = Some (Inr (acks, ag'))"
  shows "length acks = length is \<and>
    (\<exists>ts. a_threads ag' = a_threads ag @ ts \<and> subseq ts (concat (map acknowledged_threads (zip is acks))))"
proof -
  obtain args where "serve_connections (ras_tls_handler_server env rt net_ok) is (set_args args ag) = Some (acks, ag')"
    using assms by (auto simp: server_thread_func_def socket_agent_start_with_handler_def Let_def
        split: bind_splits if_splits prod.splits sum.splits)
  from server_connections_threads [OF this] show ?thesis by simp
qed

text \<open>
  The address in a configuration file: for a file of key and value lines \<open>get_ip_from_config\<close> gives
  the value of the first key that begins with \<open>IPADDR\<close>, without the white space around it.
\<close>

theorem config_address:
  assumes "list_all config_entry_ok es" "file_text d = render_config es"
    and "fs (take 255 (''/etc/sysconfig/network-scripts/ifcfg-'' @ ifname)) = Some d"
  shows "get_ip_from_config malloc_ok fs ifname = Option.bind
    (map_option (\<lambda>e. trim (snd e)) (find (\<lambda>e. prefix ''IPADDR'' (dropWhile isspace (fst e))) es)) (safe_strdup malloc_ok)"
  using assms by (simp add: get_ip_from_config_def config_lines_find)


text \<open>Concrete runs.\<close>

definition demo_sys :: agent_sys where
  "demo_sys = \<lparr>as_affinity = (\<lambda>_. True), as_ifs1 = None, as_ifs2 = None, as_vsock = 3, as_cid = Some 7,
     as_thread = (\<lambda>_. True), as_net = \<lparr>vn_socket = True, vn_setsockopt = True, vn_bind = (\<lambda>_ _. True), vn_listen = True\<rparr>,
     as_evidence_size = 4104, as_report_max = 4104\<rparr>"

lemma demo_guest_main:
  "\<exists>st. guest_main chain_env demo_sys token_dev [] = Some (Inr st) \<and> ag_rim st = (replicate 32 3 @ replicate 32 0, 32)"
proof -
  let ?g = "(replicate 32 3 @ replicate 32 0, 32 :: nat)"
  have r: "rim (cvm_token sample_token) = QBuf (replicate 32 3)"
    by (simp add: sample_token_def cvm_of_def sample_content_def)
  have m: "e_malloc chain_env = (\<lambda>_. True)" by (simp add: chain_env_def demo_env_def)
  have g: "rim_initialize chain_env token_dev 4104 4104 no_rim_ref = Some ?g"
    using rim_initialize_own [OF token_dev_own r, of 4104 no_rim_ref] m by (simp add: no_rim_ref_def)
  show ?thesis
    by (simp add: guest_main_def demo_sys_def g m parse_input_def get_local_ipv4_def safe_strdup_def del: replicate.simps)
qed

theorem agent_program_reference_witness:
  "agent_reference chain_env demo_sys token_dev [] (replicate 32 3) \<and>
   (\<exists>tb t. token_buf_of_evidence sample_evidence = Some tb \<and> parse_token_buf chain_env tb = Some (VIRTCCA_SUCCESS, t) \<and>
      qbuf_data (rim (cvm_token t)) = Some (replicate 32 3))"
proof -
  obtain st where st: "guest_main chain_env demo_sys token_dev [] = Some (Inr st)"
      "ag_rim st = (replicate 32 3 @ replicate 32 0, 32)" using demo_guest_main by blast
  have "rim (cvm_token sample_token) = QBuf (replicate 32 3)" "e_malloc chain_env = (\<lambda>_. True)"
    by (simp_all add: sample_token_def cvm_of_def sample_content_def chain_env_def demo_env_def)
  then have a: "agent_reference chain_env demo_sys token_dev [] bs \<longleftrightarrow> bs = replicate 32 3" for bs
    by (simp add: agent_reference_def own_rim_def demo_sys_def token_dev_own)
  have "user_callback chain_env (fst (ag_rim st)) (snd (ag_rim st)) toy_files sample_evidence = Some (True, toy_files)"
    using sample_evidence_accepted user_callback_take [of 32 "fst (ag_rim st)" chain_env toy_files sample_evidence] st(2) by simp
  from agent_program_reference [OF st(1) this] show ?thesis unfolding a by blast
qed

text \<open>A connection with a \<open>START_SERVER\<close> request for the guest 7, and a source that passes its attestation.\<close>

definition start_server_msg :: socket_msg where
  "start_server_msg = zero_msg\<lparr>msg_cmd := bytes_of_string ''START_SERVER'' @ replicate 4 0, payload_type := PAYLOAD_TYPE_ULL,
     msg_payload := \<lparr>char_payload = replicate 256 0, ull_payload = 7\<rparr>\<rparr>"

definition start_server_conn :: incoming where
  "start_server_conn = \<lparr>in_accepted = True, in_named = True,
     in_conn = \<lparr>v_in = [Got (msg_bytes start_server_msg)], v_wr = [], v_out = []\<rparr>\<rparr>"

abbreviation (input) passing_session :: "(msg_queue, (u64 \<times> migration_info) list) rats" where
  "passing_session \<equiv> session_rats [bytes_of_string ''ATTESTATION_PASS''] demo_rats"

lemma start_server_facts:
  "msg_of_bytes (msg_bytes start_server_msg) = start_server_msg" "length (msg_bytes start_server_msg) = 300"
  "cmd_is start_server_msg ''START_SERVER''" "payload_type start_server_msg = PAYLOAD_TYPE_ULL"
  "ull_payload (msg_payload start_server_msg) = 7"
proof -
  have "msg_wf start_server_msg"
    by (simp add: msg_wf_def start_server_msg_def bytes_of_string_def)
  then show "msg_of_bytes (msg_bytes start_server_msg) = start_server_msg" "length (msg_bytes start_server_msg) = 300"
    by (simp_all add: msg_of_bytes_msg_bytes length_msg_bytes)
qed (simp_all add: start_server_msg_def cmd_is_def c_lit_def bytes_of_string_def)

lemma start_server_read:
  "readn 300 (in_conn start_server_conn) = (Some (msg_bytes start_server_msg), \<lparr>v_in = [], v_wr = [], v_out = []\<rparr>)"
  using start_server_facts(2) by (auto simp: readn_def start_server_conn_def)

lemma passing_server:
  assumes "conf_of_args (p_args p) True None \<noteq> None"
  shows "\<exists>p'. rats_tls_server_startup chain_env passing_session (\<lambda>_. True) p =
    Some (0x67, Some \<lparr>io_guest_rd = guest_rd (p_args p), io_is_server = True\<rparr>, p')"
proof -
  let ?m = "bytes_of_string ''ATTESTATION_PASS''"
  have "receive_request passing_session ([?m], []) = Some (0, ?m @ replicate 240 0, [], [])"
    by (simp add: receive_request_queue bytes_of_string_def)
  then have "\<exists>q. deal_client_req chain_env passing_session (p\<lparr>p_tls := ([?m], [])\<rparr>) = Some (0, q)"
    by (subst deal_client_req.simps)
      (simp add: starts_with_def bytes_of_string_def send_reply_def q_transmit_def)
  then show ?thesis using assms
    by (auto simp: rats_tls_server_startup_def q_negotiate_def start_io_thread_def chain_env_def demo_env_def)
qed

theorem server_threads_acknowledged_witness:
  "\<exists>acks ag'. server_thread_func chain_env demo_sys passing_session (\<lambda>_. True) 7 [start_server_conn] demo_agent
       = Some (Inr (acks, ag')) \<and> length acks = 1 \<and>
     a_threads ag' = a_threads demo_agent @ [\<lparr>io_guest_rd = 7, io_is_server = True\<rparr>] \<and>
     subseq [\<lparr>io_guest_rd = 7, io_is_server = True\<rparr>] (concat (map acknowledged_threads (zip [start_server_conn] acks)))"
proof -
  let ?m = start_server_msg and ?t = "\<lparr>io_guest_rd = 7, io_is_server = True\<rparr>"
  let ?c = "\<lparr>v_in = [], v_wr = [], v_out = []\<rparr> :: vsock"
  let ?ag = "set_args ((demo_args 7)\<lparr>guest_rd := 7\<rparr>) demo_agent"
  have m: "e_malloc chain_env = (\<lambda>_. True)" by (simp add: chain_env_def demo_env_def)
  have a: "a_args demo_agent = demo_args 7" by (simp add: demo_agent_def a_args_def demo_src_def demo_peer_def)
  obtain c where c: "send_ack (ack_of ''START_SERVER_ACK'' 1 ?m) ?c = (True, c)"
    using send_ack_out [OF _ prod.collapse [symmetric], of ?c "ack_of ''START_SERVER_ACK'' 1 ?m"]
    by (cases "send_ack (ack_of ''START_SERVER_ACK'' 1 ?m) ?c") auto
  obtain p where "rats_tls_server_startup chain_env passing_session (\<lambda>_. True) (a_peer ?ag) = Some (0x67, Some ?t, p)"
    using passing_server [of "a_peer ?ag"] by (auto simp: set_args_def conf_of_args_def demo_args_def)
  then have h: "ras_tls_handler_server chain_env passing_session (\<lambda>_. True) ?m ?c (set_args (demo_args 7) demo_agent) =
      Some (c, ?ag\<lparr>a_peer := p, a_threads := a_threads demo_agent @ [?t]\<rparr>)"
    using c by (simp add: ras_tls_handler_server_def start_server_facts payload_decode_one_type_def zero_payload_def demo_args_def)
  have k: "calling_handler (ras_tls_handler_server chain_env passing_session (\<lambda>_. True)) start_server_conn
      (set_args (demo_args 7) demo_agent) = Some (v_out c, ?ag\<lparr>a_peer := p, a_threads := a_threads demo_agent @ [?t]\<rparr>)"
    unfolding calling_handler_def start_server_read Let_def prod.case option.case start_server_facts(1,2)
    using h by (simp add: start_server_conn_def)
  have "as_affinity demo_sys (Some True)" "as_net demo_sys = \<lparr>vn_socket = True, vn_setsockopt = True, vn_bind = (\<lambda>_ _. True), vn_listen = True\<rparr>"
    by (simp_all add: demo_sys_def)
  then have r: "server_thread_func chain_env demo_sys passing_session (\<lambda>_. True) 7 [start_server_conn] demo_agent =
      Some (Inr ([v_out c], ?ag\<lparr>a_peer := p, a_threads := a_threads demo_agent @ [?t]\<rparr>))"
    by (simp add: server_thread_func_def m a demo_init socket_agent_start_with_handler_def serve_connections_def k)
  show ?thesis using server_threads_acknowledged [OF r] r by auto
qed

theorem config_address_witness:
  "get_ip_from_config (\<lambda>_. True) [''/etc/sysconfig/network-scripts/ifcfg-eth0'' \<mapsto>
     map (\<lambda>c. of_char c) (render_config [(''DEVICE'', ''eth0''), (''IPADDR'', '' 10.0.0.2 '')])] ''eth0'' = Some ''10.0.0.2''"
proof -
  let ?es = "[(''DEVICE'', ''eth0''), (''IPADDR'', '' 10.0.0.2 '')]"
  have "list_all config_entry_ok ?es" by (simp add: config_entry_ok_def)
  moreover have "char_of (unat (of_char c :: u8)) = c" for c :: char by (simp add: unat_of_char)
  then have "file_text (map of_char (render_config ?es)) = render_config ?es"
    by (simp add: file_text_def comp_def)
  ultimately show ?thesis
    using config_address [of ?es "map of_char (render_config ?es)"
        "[''/etc/sysconfig/network-scripts/ifcfg-eth0'' \<mapsto> map of_char (render_config ?es)]" "''eth0''" "\<lambda>_. True"]
    by (simp add: safe_strdup_def trim_def isspace_def)
qed

text \<open>
  The agent on the host starts its threads on a range of processors large enough for the helpers
  of the integrity check.
\<close>

lemma host_main_range:
  assumes "host_main malloc_ok thread_ok opts = Some (Inr (srv, cl))"
  shows "0 \<le> mt_cpu_start srv \<and> mt_cpu_start srv + IO_THREAD_NUM - 1 \<le> mt_cpu_end srv \<and>
    (\<forall>c. cl = Some c \<longrightarrow> mt_cpu_start c = mt_cpu_start srv \<and> mt_cpu_end c = mt_cpu_end srv)"
  using assms
  by (auto simp: host_main_def host_parse_input_def host_server_args_def host_client_args_def
      split: bind_splits sum.splits if_splits prod.splits option.splits)

text \<open>Without memory for the copies of the addresses the host's agent goes on with null pointers.\<close>

lemma host_main_unchecked_copy:
  assumes "host_parse_input malloc_ok opts = Some (Inr p)" "malloc_ok 24" "\<not> malloc_ok (length (ip_client p) + 1)"
  shows "host_main malloc_ok thread_ok opts = None"
  using assms by (simp add: host_main_def)

end
