(* ===== verification/Gen_Dtb.thy ===== *)
theory Gen_Dtb
  imports Utils
begin

text \<open>
  The device tree step of the reference value generator,
  \<open>attestation/rim_ref/src/gen_dtb.c\<close>: the QEMU command line of a confidential container is
  rewritten, option by option, into one that only dumps the device tree, and is run.

  A command buffer is the string it holds, without the terminator; a pointer into it is the
  suffix it designates. \<open>strcat\<close> into a buffer that is too small is \<^term>\<open>None\<close>, as is the use of a
  pointer obtained from a failed search; \<open>snprintf\<close> truncates.
\<close>

section \<open>Buffers and searches\<close>

abbreviation MAX_CMD_LENGTH :: nat where "MAX_CMD_LENGTH \<equiv> 8192"
abbreviation MAX_OPTION_LENGTH :: nat where "MAX_OPTION_LENGTH \<equiv> 2048"

definition DEFAULT_MACHINE :: string where
  "DEFAULT_MACHINE = '' -machine virt,dumpdtb=/tmp/dump.dtb''"

definition DEFAULT_DUMPDTB_PATH :: string where
  "DEFAULT_DUMPDTB_PATH = ''./dump.dtb''"

definition DUMPDTB_LOG_PATH :: string where
  "DUMPDTB_LOG_PATH = ''./dumpdtb.log''"

text \<open>\<open>strcat\<close> and \<open>strncat\<close> into a buffer of \<open>cap\<close> bytes, and \<open>strncat\<close> bounded by the room left.\<close>

definition strcat :: "nat \<Rightarrow> string \<Rightarrow> string \<Rightarrow> string option" where
  "strcat cap dst src = (if length dst + length src < cap then Some (dst @ src) else None)"

definition strncat :: "nat \<Rightarrow> string \<Rightarrow> string \<Rightarrow> nat \<Rightarrow> string option" where
  "strncat cap dst src n = strcat cap dst (take n src)"

definition strncat_room :: "nat \<Rightarrow> string \<Rightarrow> string \<Rightarrow> string" where
  "strncat_room cap dst src = dst @ take (cap - length dst - 1) src"

text \<open>What \<open>snprintf\<close> leaves in a buffer of \<open>cap\<close> bytes.\<close>

definition snprintf :: "nat \<Rightarrow> string \<Rightarrow> string" where
  "snprintf cap s = take (cap - 1) s"

definition strrchr :: "string \<Rightarrow> char \<Rightarrow> string option" where
  "strrchr s c = (if c \<in> set s then Some (c # rev (takeWhile (\<lambda>d. d \<noteq> c) (rev s))) else None)"

definition removable_devices :: "string list" where
  "removable_devices = [''vhost-user-fs-pci'', ''vhost-vsock-pci'']"

definition removable_flags :: "(string \<times> bool) list" where
  "removable_flags =
     [(''-name'', True), (''-uuid'', True), (''-pidfile'', True), (''-qmp'', True), (''-netdev'', True)]"

definition skip_spaces :: "string \<Rightarrow> string" where
  "skip_spaces p = dropWhile isspace p"

definition skip_no_spaces :: "string \<Rightarrow> string" where
  "skip_no_spaces p = dropWhile (\<lambda>c. \<not> isspace c) p"

text \<open>The text between two pointers into one string, and the character a pointer designates.\<close>

definition text_upto :: "string \<Rightarrow> string \<Rightarrow> string" where
  "text_upto p q = take (length p - length q) p"

definition space_at :: "string \<Rightarrow> nat \<Rightarrow> bool" where
  "space_at p i = (i < length p \<and> isspace (p ! i))"


section \<open>The rewriting steps\<close>

definition modify_machine_param :: "string \<Rightarrow> string \<Rightarrow> string option" where
  "modify_machine_param cmd dtb_dump_param =
     (case strstr cmd ''-machine'' of
        Some machine_pos \<Rightarrow>
          (case strchr machine_pos CHR '' '' of
             None \<Rightarrow> Some cmd
           | Some sp \<Rightarrow>
               let machine_start = tl sp;
                   machine_end = strchr machine_start CHR '' '';
                   machine_value = (case machine_end of None \<Rightarrow> machine_start
                                    | Some e \<Rightarrow> text_upto machine_start e) in
               if MAX_CMD_LENGTH \<le> length machine_value then Some cmd
               else if strstr machine_value ''dumpdtb='' \<noteq> None then Some cmd
               else
                 let added = '',dumpdtb='' @ dtb_dump_param in
                 if MAX_CMD_LENGTH - length machine_value \<le> length added then Some cmd
                 else if MAX_CMD_LENGTH \<le> length (text_upto cmd machine_start) then Some cmd
                 else do {
                   m \<leftarrow> strcat MAX_CMD_LENGTH (text_upto cmd machine_start) (machine_value @ added);
                   m \<leftarrow> (case machine_end of None \<Rightarrow> Some m | Some e \<Rightarrow> strcat MAX_CMD_LENGTH m e);
                   Some (snprintf MAX_CMD_LENGTH m)
                 })
      | None \<Rightarrow>
          (case strchr cmd CHR '' '' of
             Some sp \<Rightarrow> do {
               m \<leftarrow> strcat MAX_CMD_LENGTH [] (text_upto cmd (tl sp));
               m \<leftarrow> strcat MAX_CMD_LENGTH m DEFAULT_MACHINE;
               strcat MAX_CMD_LENGTH m (tl sp)
             }
           | None \<Rightarrow> do {
               c \<leftarrow> strcat MAX_CMD_LENGTH cmd '' '';
               strcat MAX_CMD_LENGTH c DEFAULT_MACHINE
             }))"

text \<open>
  The end of the value of \<open>-append\<close>: the next dash at the start of the value or after white
  space (\<open>b\<close>), or the end of the command.
\<close>

fun find_next_flag :: "bool \<Rightarrow> string \<Rightarrow> string" where
  "find_next_flag b [] = []"
| "find_next_flag b (c # cs) =
     (if c = CHR ''-'' \<and> b then c # cs else find_next_flag (isspace c) cs)"

definition trim_end :: "string \<Rightarrow> string" where
  "trim_end v = rev (dropWhile isspace (rev v))"

definition modify_append_arguments :: "string \<Rightarrow> string" where
  "modify_append_arguments cmd =
     (case strstr cmd ''-append'' of
        None \<Rightarrow> cmd
      | Some append_pos \<Rightarrow>
          (case strchr append_pos CHR '' '' of
             None \<Rightarrow> cmd
           | Some sp \<Rightarrow>
               let value_start = tl sp in
               if value_start \<noteq> [] \<and> hd value_start = CHR 0x22 then cmd
               else
                 let next_flag = find_next_flag True value_start;
                     append_value = text_upto value_start next_flag in
                 if MAX_CMD_LENGTH div 2 \<le> length append_value then cmd
                 else snprintf MAX_CMD_LENGTH (snprintf MAX_CMD_LENGTH
                        (text_upto cmd value_start @ [CHR 0x22] @ trim_end append_value @ [CHR 0x22] @ '' ''
                         @ next_flag))))"

fun match_flags :: "(string \<times> bool) list \<Rightarrow> string \<Rightarrow> string \<times> bool" where
  "match_flags [] current = (current, False)"
| "match_flags ((flag, has_value) # fs) current =
     (if prefix flag current \<and> space_at current (length flag) then
        let p = skip_spaces (drop (length flag) current) in
        (if has_value then skip_spaces (skip_no_spaces p) else p, True)
      else match_flags fs current)"

definition match_remove_target_flags :: "string \<Rightarrow> string \<times> bool" where
  "match_remove_target_flags current = match_flags removable_flags current"

lemma length_skip_spaces: "length (skip_spaces p) \<le> length p"
  by (simp add: skip_spaces_def length_dropWhile_le)

lemma length_skip_no_spaces: "length (skip_no_spaces p) \<le> length p"
  by (simp add: skip_no_spaces_def length_dropWhile_le)

lemma length_skip_both: "p \<noteq> [] \<Longrightarrow> length (skip_spaces (skip_no_spaces p)) < length p"
proof (cases p)
  case (Cons c cs)
  show ?thesis
  proof (cases "isspace c")
    case True
    then show ?thesis using Cons length_dropWhile_le [of isspace cs]
      by (simp add: skip_spaces_def skip_no_spaces_def)
  next
    case False
    then have "skip_no_spaces p = skip_no_spaces cs" using Cons by (simp add: skip_no_spaces_def)
    then show ?thesis using Cons length_skip_spaces [of "skip_no_spaces cs"]
        length_skip_no_spaces [of cs] by simp
  qed
qed simp

lemma length_skip_option:
  "length (skip_spaces (skip_no_spaces (skip_spaces (drop n p)))) \<le> length p - n"
  using length_skip_spaces [of "skip_no_spaces (skip_spaces (drop n p))"]
    length_skip_no_spaces [of "skip_spaces (drop n p)"] length_skip_spaces [of "drop n p"]
  by simp

lemma match_flags_length:
  "match_flags fs p = (q, True) \<Longrightarrow> \<forall>(f, b) \<in> set fs. f \<noteq> [] \<Longrightarrow> length q < length p"
proof (induction fs p rule: match_flags.induct)
  case (2 flag has_value fs current)
  show ?case
  proof (cases "prefix flag current \<and> space_at current (length flag)")
    case True
    let ?p = "skip_spaces (drop (length flag) current)"
    have "flag \<noteq> []" using 2(3) by simp
    then have "length (drop (length flag) current) < length current"
      using True by (auto simp: space_at_def intro!: diff_less)
    then have "length ?p < length current"
      using length_skip_spaces [of "drop (length flag) current"] by linarith
    moreover have "length (skip_spaces (skip_no_spaces ?p)) \<le> length ?p"
      using length_skip_spaces [of "skip_no_spaces ?p"] length_skip_no_spaces [of ?p] by linarith
    ultimately show ?thesis using 2(2) True by (auto simp: Let_def split: if_splits)
  next
    case False
    then show ?thesis using 2 by auto
  qed
qed simp

lemma match_remove_target_flags_length:
  "match_remove_target_flags p = (q, True) \<Longrightarrow> length q < length p"
  unfolding match_remove_target_flags_def
  by (erule match_flags_length) (auto simp: removable_flags_def)

function remove_flags_loop :: "string \<Rightarrow> string \<Rightarrow> string option" where
  "remove_flags_loop current m =
     (if current = [] then Some m
      else case match_remove_target_flags current of
        (rest, True) \<Rightarrow> remove_flags_loop rest m
      | (_, False) \<Rightarrow> do {
          let next = skip_no_spaces current;
          m \<leftarrow> strncat MAX_CMD_LENGTH m current (length current - length next);
          m \<leftarrow> strcat MAX_CMD_LENGTH m '' '';
          remove_flags_loop (skip_spaces next) m
        })"
  by pat_completeness auto

termination
  by (relation "measure (\<lambda>(p, m). length p)")
    (auto simp: match_remove_target_flags_length length_skip_both)

declare remove_flags_loop.simps [simp del]

definition remove_flags_from_command :: "string \<Rightarrow> string option" where
  "remove_flags_from_command cmd = do {
     m \<leftarrow> remove_flags_loop cmd [];
     Some (snprintf MAX_CMD_LENGTH m)
   }"

definition remove_netdev_option :: "string \<Rightarrow> string" where
  "remove_netdev_option device =
     (case strstr device '',netdev='' of None \<Rightarrow> device | Some p \<Rightarrow> text_upto device p)"

definition match_remove_target_devices :: "string \<Rightarrow> bool" where
  "match_remove_target_devices device_value =
     list_ex (\<lambda>d. strstr device_value d \<noteq> None) removable_devices"

text \<open>
  One option of \<open>remove_specific_devices\<close>: \<open>current\<close> stands at \<open>-device\<close>. The value is copied only
  when it fits the option buffer, which is empty otherwise.
\<close>

definition device_step :: "string \<Rightarrow> string \<Rightarrow> (string \<times> string) option" where
  "device_step current m =
     (let device_start = skip_spaces (drop (length ''-device'') current);
          next = skip_no_spaces device_start;
          value = text_upto device_start next;
          device_value = (if length value < MAX_OPTION_LENGTH then value else []) in
      if length value < MAX_OPTION_LENGTH \<and> match_remove_target_devices device_value
      then Some (skip_spaces next, m)
      else do {
        let m = strncat_room MAX_CMD_LENGTH m ''-device '';
        let m = strncat_room MAX_CMD_LENGTH m (remove_netdev_option device_value);
        m \<leftarrow> strcat MAX_CMD_LENGTH m '' '';
        Some (skip_spaces next, m)
      })"

lemma device_step_length:
  assumes "device_step p m = Some (q, m')" "prefix ''-device'' p"
  shows "length q < length p"
proof -
  let ?d = "skip_spaces (drop (length ''-device'') p)"
  have "q = skip_spaces (skip_no_spaces ?d)"
    using assms(1) by (auto simp: device_step_def Let_def split: if_splits bind_splits)
  moreover have "7 \<le> length p" using assms(2) by (auto dest: prefix_length_le)
  ultimately show ?thesis using length_skip_option [of "length ''-device''" p] by simp
qed

function remove_devices_loop :: "string \<Rightarrow> string \<Rightarrow> string option" where
  "remove_devices_loop current m =
     (if current = [] then Some m
      else if prefix ''-device'' current \<and> space_at current (length ''-device'') then
        (case device_step current m of None \<Rightarrow> None | Some (p, m') \<Rightarrow> remove_devices_loop p m')
      else do {
        let next = skip_no_spaces current;
        m \<leftarrow> strncat MAX_CMD_LENGTH m current (length current - length next);
        m \<leftarrow> strcat MAX_CMD_LENGTH m '' '';
        remove_devices_loop (skip_spaces next) m
      })"
  by pat_completeness auto

termination
  by (relation "measure (\<lambda>(p, m). length p)")
    (auto intro: device_step_length simp: length_skip_both)

declare remove_devices_loop.simps [simp del]

definition remove_specific_devices :: "string \<Rightarrow> string option" where
  "remove_specific_devices cmd = do {
     m \<leftarrow> remove_devices_loop cmd [];
     Some (snprintf MAX_CMD_LENGTH m)
   }"

text \<open>
  The value of a \<open>-chardev\<close> or \<open>-monitor\<close> option with its socket moved to \<open>/tmp\<close>. The search for
  \<open>path=\<close> is not tested in the source, so an option without it is a bad pointer.
\<close>

definition new_socket_value :: "string \<Rightarrow> string option" where
  "new_socket_value socket_value =
     (case strstr socket_value ''path='' of
        None \<Rightarrow> None
      | Some p \<Rightarrow>
          let path_start = drop (length ''path='') p;
              path_end = strchr path_start CHR '','';
              original_path = (case path_end of Some e \<Rightarrow> text_upto path_start e
                               | None \<Rightarrow> take (MAX_OPTION_LENGTH - 1) path_start);
              filename = (case strrchr original_path CHR ''/'' of Some f \<Rightarrow> tl f | None \<Rightarrow> original_path);
              before = text_upto socket_value path_start;
              v = before @ snprintf (MAX_OPTION_LENGTH - length before) (''/tmp/'' @ filename);
              v = (case path_end of Some e \<Rightarrow> strncat_room MAX_OPTION_LENGTH v e | None \<Rightarrow> v);
              v = (if strstr v ''server=on'' = None then strncat_room MAX_OPTION_LENGTH v '',server=on'' else v);
              v = (if strstr v ''wait=off'' = None then strncat_room MAX_OPTION_LENGTH v '',wait=off'' else v) in
          Some v)"

definition socket_step :: "string \<Rightarrow> string \<Rightarrow> (string \<times> string) option" where
  "socket_step current m = do {
     let param_start = skip_spaces (drop (length ''-chardev'') current);
     let next = skip_no_spaces param_start;
     let socket_value = text_upto param_start next;
     v \<leftarrow> (if length socket_value < MAX_OPTION_LENGTH then new_socket_value socket_value else None);
     let m = strncat_room MAX_CMD_LENGTH m
               (if prefix ''-chardev'' current then ''-chardev '' else ''-monitor '');
     let m = strncat_room MAX_CMD_LENGTH m v;
     let m = strncat_room MAX_CMD_LENGTH m '' '';
     Some (skip_spaces next, m)
   }"

lemma socket_step_length:
  assumes "socket_step p m = Some (q, m')" "prefix ''-chardev'' p \<or> prefix ''-monitor'' p"
  shows "length q < length p"
proof -
  let ?d = "skip_spaces (drop (length ''-chardev'') p)"
  have "q = skip_spaces (skip_no_spaces ?d)"
    using assms(1) by (auto simp: socket_step_def Let_def split: if_splits bind_splits)
  moreover have "8 \<le> length p" using assms(2) by (auto dest: prefix_length_le)
  ultimately show ?thesis using length_skip_option [of "length ''-chardev''" p] by simp
qed

function socket_path_loop :: "string \<Rightarrow> string \<Rightarrow> string option" where
  "socket_path_loop current m =
     (if current = [] then Some m
      else if (prefix ''-chardev'' current \<or> prefix ''-monitor'' current)
              \<and> space_at current (length ''-chardev'') then
        (case socket_step current m of None \<Rightarrow> None | Some (p, m') \<Rightarrow> socket_path_loop p m')
      else do {
        let next = skip_no_spaces current;
        m \<leftarrow> strncat MAX_CMD_LENGTH m current (length current - length next);
        m \<leftarrow> strcat MAX_CMD_LENGTH m '' '';
        socket_path_loop (skip_spaces next) m
      })"
  by pat_completeness auto

termination
  by (relation "measure (\<lambda>(p, m). length p)")
    (auto intro: socket_step_length simp: length_skip_both)

declare socket_path_loop.simps [simp del]

definition modify_socket_path :: "string \<Rightarrow> string option" where
  "modify_socket_path cmd = do {
     m \<leftarrow> socket_path_loop cmd [];
     Some (snprintf MAX_CMD_LENGTH m)
   }"

definition modify_fs_path :: "string \<Rightarrow> string \<Rightarrow> string" where
  "modify_fs_path cmd initramfs_path =
     (case strstr cmd ''-drive'' of
        None \<Rightarrow> cmd
      | Some drive_start \<Rightarrow>
          let drive_params = skip_spaces (drop (length ''-drive'') drive_start);
              drive_end = dropWhile (\<lambda>c. c \<noteq> CHR '' '') drive_params;
              params = text_upto drive_params drive_end in
          (case strstr params ''file='' of
             None \<Rightarrow> cmd
           | Some p \<Rightarrow>
               let file_path_start = drop (length ''file='') p;
                   file_path_end = dropWhile (\<lambda>c. c \<noteq> CHR '','' \<and> c \<noteq> CHR '' '') file_path_start;
                   before = text_upto cmd (file_path_start @ drive_end) in
               if MAX_CMD_LENGTH \<le> length before + length initramfs_path then cmd
               else snprintf MAX_CMD_LENGTH (strncat_room MAX_CMD_LENGTH
                      (snprintf MAX_CMD_LENGTH (before @ initramfs_path @ file_path_end)) drive_end)))"

definition modify_kernel_path :: "(nat \<Rightarrow> bool) \<Rightarrow> string \<Rightarrow> string \<Rightarrow> string option" where
  "modify_kernel_path malloc_ok cmd kernel_path =
     (case strstr cmd ''-kernel'' of
        None \<Rightarrow> Some cmd
      | Some kernel_pos \<Rightarrow>
          let kernel_path_start = dropWhile (\<lambda>c. c = CHR '' '') (drop (length ''-kernel'') kernel_pos);
              kernel_path_end = dropWhile (\<lambda>c. c \<noteq> CHR '' '') kernel_path_start;
              new_cmd = text_upto cmd kernel_path_start @ kernel_path @ kernel_path_end in
          if \<not> malloc_ok (length new_cmd + 1) then Some cmd
          else if length new_cmd < MAX_CMD_LENGTH then Some new_cmd else None)"


section \<open>Running the command\<close>

text \<open>
  The shell is the parameter \<open>shell\<close>: the status of \<open>system\<close> and what the command leaves of the file
  system. The command line is cut to the buffer of \<open>execute_command\<close>.
\<close>

type_synonym shell = "string \<Rightarrow> files \<Rightarrow> int \<times> files"

definition execute_command :: "shell \<Rightarrow> string \<Rightarrow> string \<Rightarrow> string \<Rightarrow> files \<Rightarrow> int \<times> files" where
  "execute_command shell command qemu_bin_path log_path fs =
     (let cmd = snprintf (MAX_CMD_LENGTH + 16)
                  (qemu_bin_path @ '' '' @ command @ ''  > '' @ log_path @ '' 2>&1'');
          (ret, fs') = shell cmd fs in
      (if ret = -1 then -1 else (ret div 256) mod 256, fs'))"

definition dtb_command :: "string \<Rightarrow> string option" where
  "dtb_command cmd = do {
     c \<leftarrow> modify_machine_param (snprintf MAX_CMD_LENGTH cmd) DEFAULT_DUMPDTB_PATH;
     let c = modify_append_arguments c;
     c \<leftarrow> remove_flags_from_command c;
     c \<leftarrow> remove_specific_devices c;
     modify_socket_path c
   }"

definition generate_dtb_with_kata_config ::
    "(nat \<Rightarrow> bool) \<Rightarrow> shell \<Rightarrow> string \<Rightarrow> string \<Rightarrow> files \<Rightarrow> files option" where
  "generate_dtb_with_kata_config malloc_ok shell qemu_bin_path cmd fs =
     (if \<not> malloc_ok MAX_CMD_LENGTH then Some fs
      else do {
        command \<leftarrow> dtb_command cmd;
        Some (snd (execute_command shell command qemu_bin_path DUMPDTB_LOG_PATH fs))
      })"


section \<open>The filters on the tokens of a command line\<close>

text \<open>
  The reference view of the two filters: a command line is a list of tokens, each followed by
  a space; \<open>strip_flags\<close> drops a removable flag with its value, \<open>strip_devices\<close> drops a \<open>-device\<close>
  option that names a removable device and cuts the \<open>netdev\<close> part off the others.
\<close>

definition token :: "string \<Rightarrow> bool" where
  "token t = (t \<noteq> [] \<and> list_all (\<lambda>c. \<not> isspace c) t)"

definition render :: "string list \<Rightarrow> string" where
  "render ts = concat (map (\<lambda>t. t @ '' '') ts)"

definition is_removable_flag :: "string \<Rightarrow> bool" where
  "is_removable_flag t = (t \<in> set (map fst removable_flags))"

fun strip_flags :: "string list \<Rightarrow> string list" where
  "strip_flags [] = []"
| "strip_flags [t] = (if is_removable_flag t then [] else [t])"
| "strip_flags (t # v # ts) = (if is_removable_flag t then strip_flags ts else t # strip_flags (v # ts))"

fun strip_devices :: "string list \<Rightarrow> string list" where
  "strip_devices [] = []"
| "strip_devices [t] = [t]"
| "strip_devices (t # v # ts) =
     (if t = ''-device'' then
        (if match_remove_target_devices v then strip_devices ts
         else t # remove_netdev_option v # strip_devices ts)
      else t # strip_devices (v # ts))"

text \<open>A string that holds these tokens: the space after the last one may be missing.\<close>

definition holds_tokens :: "string \<Rightarrow> string list \<Rightarrow> bool" where
  "holds_tokens s ts = (s = render ts \<or> ts \<noteq> [] \<and> s @ '' '' = render ts)"

lemma isspace_blank [simp]: "isspace CHR '' ''"
  by code_simp

lemma render_simps [simp]: "render [] = []" "render (t # ts) = t @ CHR '' '' # render ts"
  by (simp_all add: render_def)

lemma tokenD: "token t \<Longrightarrow> t \<noteq> [] \<and> (\<forall>c \<in> set t. \<not> isspace c)"
  by (simp add: token_def list_all_iff)

lemma skip_no_spaces_token:
  "token t \<Longrightarrow> rest = [] \<or> isspace (hd rest) \<Longrightarrow> skip_no_spaces (t @ rest) = rest"
  unfolding skip_no_spaces_def by (cases rest) (auto dest!: tokenD simp: dropWhile_append)

lemma skip_spaces_token: "token t \<Longrightarrow> skip_spaces (t @ rest) = t @ rest"
  unfolding skip_spaces_def by (cases t) (auto dest: tokenD)

lemma skip_spaces_render: "list_all token ts \<Longrightarrow> skip_spaces (render ts) = render ts"
  by (cases ts) (auto simp: skip_spaces_token, simp add: skip_spaces_def)

lemma token_prefix_space:
  assumes "token t" "token f" "rest = [] \<or> isspace (hd rest)"
  shows "prefix f (t @ rest) \<and> space_at (t @ rest) (length f) \<longleftrightarrow> f = t \<and> rest \<noteq> []"
proof
  assume "f = t \<and> rest \<noteq> []"
  with assms show "prefix f (t @ rest) \<and> space_at (t @ rest) (length f)"
    by (auto simp: space_at_def hd_conv_nth nth_append)
next
  assume a: "prefix f (t @ rest) \<and> space_at (t @ rest) (length f)"
  then have "length f < length (t @ rest)" and sp: "isspace ((t @ rest) ! length f)"
    by (auto simp: space_at_def)
  have ge: "length t \<le> length f"
  proof (rule ccontr)
    assume "\<not> length t \<le> length f"
    then have "(t @ rest) ! length f \<in> set t" by (simp add: nth_append)
    then show False using sp tokenD [OF assms(1)] by auto
  qed
  obtain r where r: "f = t @ r" using a ge by (metis prefix_append prefix_length_prefix prefixE prefixI)
  have "r = []"
  proof (rule ccontr)
    assume "r \<noteq> []"
    then obtain c cs where "r = c # cs" by (cases r) auto
    then have "c = hd rest" "rest \<noteq> []" using a r by (auto simp: prefix_def)
    then show False using assms(3) tokenD [OF assms(2)] r \<open>r = c # cs\<close> by auto
  qed
  then show "f = t \<and> rest \<noteq> []" using r a by (auto simp: space_at_def)
qed

lemma removable_flags_token: "(f, b) \<in> set removable_flags \<Longrightarrow> token f \<and> b"
proof -
  have "list_all (\<lambda>(f, b). token f \<and> b) removable_flags" by code_simp
  then show "(f, b) \<in> set removable_flags \<Longrightarrow> token f \<and> b" by (auto simp: list_all_iff)
qed

lemma match_flags_token:
  assumes "token t" "rest = [] \<or> isspace (hd rest)"
    and "\<And>f b. (f, b) \<in> set fs \<Longrightarrow> token f \<and> b"
  shows "match_flags fs (t @ rest) =
    (if t \<in> fst ` set fs \<and> rest \<noteq> [] then (skip_spaces (skip_no_spaces (skip_spaces rest)), True)
     else (t @ rest, False))"
  using assms(3)
proof (induction fs)
  case (Cons fb fs)
  obtain f b where fb: "fb = (f, b)" by force
  have f: "token f" "b" using Cons.prems [of f b] by (simp_all add: fb)
  note m = token_prefix_space [OF assms(1) f(1) assms(2)]
  have IH: "match_flags fs (t @ rest) =
      (if t \<in> fst ` set fs \<and> rest \<noteq> [] then (skip_spaces (skip_no_spaces (skip_spaces rest)), True)
       else (t @ rest, False))"
    by (rule Cons.IH) (use Cons.prems in auto)
  show ?case
  proof (cases "f = t \<and> rest \<noteq> []")
    case True
    then show ?thesis using f(2) m by (simp add: fb Let_def)
  next
    case False
    then have "\<not> (prefix f (t @ rest) \<and> space_at (t @ rest) (length f))" using m by blast
    then have "match_flags (fb # fs) (t @ rest) = match_flags fs (t @ rest)" by (auto simp: fb)
    then show ?thesis using IH False by (auto simp: fb)
  qed
qed simp

lemma match_remove_target_flags_token:
  assumes "token t" "rest = [] \<or> isspace (hd rest)"
  shows "match_remove_target_flags (t @ rest) =
    (if is_removable_flag t \<and> rest \<noteq> [] then (skip_spaces (skip_no_spaces (skip_spaces rest)), True)
     else (t @ rest, False))"
  unfolding match_remove_target_flags_def is_removable_flag_def
  using match_flags_token [OF assms removable_flags_token] by (auto simp: image_iff)

text \<open>The first token of a string that holds tokens, and what follows it.\<close>

lemma holds_tokens_Cons:
  assumes "holds_tokens s (t # ts)" "list_all token (t # ts)"
  obtains rest where "s = t @ rest" "rest = [] \<and> ts = [] \<or> rest \<noteq> [] \<and> isspace (hd rest)"
    "holds_tokens (skip_spaces rest) ts" "s = render (t # ts) \<longrightarrow> skip_spaces rest = render ts"
proof -
  consider "s = t @ CHR '' '' # render ts" | "ts = []" "s = t" |
    v us where "ts = v # us" "s @ '' '' = t @ CHR '' '' # render ts"
    using assms(1) by (cases ts) (auto simp: holds_tokens_def)
  then show ?thesis
  proof cases
    case 1
    have "skip_spaces (CHR '' '' # render ts) = render ts"
      using skip_spaces_render [of ts] assms(2) by (simp add: skip_spaces_def)
    with 1 show ?thesis by (intro that [of "CHR '' '' # render ts"]) (simp_all add: holds_tokens_def)
  next
    case 2
    then show ?thesis by (intro that [of "[]"]) (simp_all add: holds_tokens_def skip_spaces_def)
  next
    case 3
    define r where "r = butlast (render ts)"
    have ne: "render ts \<noteq> []" "last (render ts) = CHR '' ''"
      by (simp add: 3(1), cases us rule: rev_cases) (auto simp: 3(1) render_def)
    then have r: "render ts = r @ '' ''" by (metis r_def append_butlast_last_id)
    have s: "s = t @ CHR '' '' # r" using 3(2) by (simp add: r)
    have v: "r = v @ butlast (CHR '' '' # render us)"
      using 3(1) by (auto simp: r_def butlast_append)
    have "skip_spaces (CHR '' '' # r) = r"
      using assms(2) 3(1) skip_spaces_token [of v] by (simp add: v skip_spaces_def)
    then show ?thesis using s 3(1) r by (intro that [of "CHR '' '' # r"]) (simp_all add: holds_tokens_def)
  qed
qed

lemma holds_tokens_Nil [simp]: "holds_tokens s [] \<longleftrightarrow> s = []"
  by (auto simp: holds_tokens_def)


lemma strcat_fits: "length dst + length src < cap \<Longrightarrow> strcat cap dst src = Some (dst @ src)"
  by (simp add: strcat_def)

text \<open>A kept token is copied with a space, in each of the three filters.\<close>

lemma copy_token:
  assumes "token t" "rest = [] \<or> isspace (hd rest)" "length m + length t + 1 < MAX_CMD_LENGTH"
  shows "strncat MAX_CMD_LENGTH m (t @ rest) (length (t @ rest) - length (skip_no_spaces (t @ rest))) =
    Some (m @ t)" "strcat MAX_CMD_LENGTH (m @ t) '' '' = Some (m @ t @ '' '')"
  using assms by (simp_all add: skip_no_spaces_token strncat_def strcat_fits)

lemma skip_Nil [simp]: "skip_spaces [] = []" "skip_no_spaces [] = []"
  by (simp_all add: skip_spaces_def skip_no_spaces_def)

lemma remove_loops_Nil [simp]: "remove_flags_loop [] m = Some m" "remove_devices_loop [] m = Some m"
  by (simp_all add: remove_flags_loop.simps remove_devices_loop.simps)

text \<open>The tokens left to read: a flag at the very end of the line needs the space behind it.\<close>

definition at_tokens :: "string \<Rightarrow> string list \<Rightarrow> bool" where
  "at_tokens s ts = (holds_tokens s ts \<and> list_all token ts
     \<and> (s = render ts \<or> \<not> is_removable_flag (last ts)))"

lemma at_tokens_Cons:
  assumes "at_tokens s (t # ts)"
  obtains rest where "s = t @ rest" "token t" "rest = [] \<or> isspace (hd rest)"
    "at_tokens (skip_spaces rest) ts" "is_removable_flag t \<longrightarrow> rest \<noteq> []"
proof -
  have a: "holds_tokens s (t # ts)" "list_all token (t # ts)"
    using assms by (simp_all add: at_tokens_def)
  obtain rest where r: "s = t @ rest" "rest = [] \<and> ts = [] \<or> rest \<noteq> [] \<and> isspace (hd rest)"
    "holds_tokens (skip_spaces rest) ts" "s = render (t # ts) \<longrightarrow> skip_spaces rest = render ts"
    by (rule holds_tokens_Cons [OF a])
  show ?thesis
  proof (rule that [of rest])
    show "at_tokens (skip_spaces rest) ts"
      using assms r(3,4) a(2) by (auto simp: at_tokens_def split: if_splits)
    show "is_removable_flag t \<longrightarrow> rest \<noteq> []"
      using assms r(1,2) by (auto simp: at_tokens_def)
  qed (use r a in auto)
qed

lemma remove_flags_loop_tokens:
  assumes "at_tokens s ts" "length m + length (render ts) < MAX_CMD_LENGTH"
  shows "remove_flags_loop s m = Some (m @ render (strip_flags ts))"
  using assms
proof (induction ts arbitrary: s m rule: strip_flags.induct)
  case 1
  then show ?case by (simp add: remove_flags_loop.simps at_tokens_def)
next
  case (2 t)
  obtain rest where r: "s = t @ rest" "token t" "rest = [] \<or> isspace (hd rest)"
    "at_tokens (skip_spaces rest) []" "is_removable_flag t \<longrightarrow> rest \<noteq> []"
    by (rule at_tokens_Cons [OF 2(1)])
  note m = match_remove_target_flags_token [OF r(2,3)] copy_token [OF r(2,3), of m]
  have "skip_spaces rest = []" "t \<noteq> []" using r(4) tokenD [OF r(2)] by (simp_all add: at_tokens_def)
  then show ?case using m r(1,5) 2(2) skip_no_spaces_token [OF r(2,3)]
    by (subst remove_flags_loop.simps)
      auto
next
  case (3 t v ts)
  obtain rest where r: "s = t @ rest" "token t" "rest = [] \<or> isspace (hd rest)"
    "at_tokens (skip_spaces rest) (v # ts)" "is_removable_flag t \<longrightarrow> rest \<noteq> []"
    by (rule at_tokens_Cons [OF 3(3)])
  obtain rest' where q: "skip_spaces rest = v @ rest'" "token v" "rest' = [] \<or> isspace (hd rest')"
    "at_tokens (skip_spaces rest') ts"
    using at_tokens_Cons [OF r(4)] by metis
  note m = match_remove_target_flags_token [OF r(2,3)] copy_token [OF r(2,3), of m]
  have ne: "s \<noteq> []" using r(1) tokenD [OF r(2)] by simp
  show ?case
  proof (cases "is_removable_flag t")
    case True
    then have "remove_flags_loop s m = remove_flags_loop (skip_spaces rest') m"
      using m(1) r(1,5) ne q by (subst remove_flags_loop.simps) (simp add: skip_no_spaces_token)
    then show ?thesis using 3(1) [OF True q(4)] 3(4) True by simp
  next
    case False
    then have "remove_flags_loop s m = remove_flags_loop (skip_spaces rest) (m @ t @ '' '')"
      using m r(1) ne 3(4) skip_no_spaces_token [OF r(2,3)]
      by (subst remove_flags_loop.simps) simp
    then show ?thesis using 3(2) [OF False r(4), of "m @ t @ '' ''"] 3(4) False by simp
  qed
qed


text \<open>The devices filter: the values fit the option buffer.\<close>

lemma remove_netdev_option_le: "length (remove_netdev_option v) \<le> length v"
  by (auto simp: remove_netdev_option_def text_upto_def split: option.splits)

lemma strncat_room_fits: "length dst + length src < cap \<Longrightarrow> strncat_room cap dst src = dst @ src"
  by (simp add: strncat_room_def)

lemma device_step_token:
  assumes "token v" "rest' = [] \<or> isspace (hd rest')" "skip_spaces rest = v @ rest'"
    and "length v < MAX_OPTION_LENGTH" "length m + 8 + length v + 1 < MAX_CMD_LENGTH"
  shows "device_step (''-device'' @ rest) m =
    Some (skip_spaces rest', if match_remove_target_devices v then m
                             else m @ ''-device '' @ remove_netdev_option v @ '' '')"
proof -
  have u: "text_upto (v @ rest') rest' = v" by (simp add: text_upto_def)
  have l: "length (remove_netdev_option v) \<le> length v" by (rule remove_netdev_option_le)
  show ?thesis
    using assms l u skip_no_spaces_token [OF assms(1,2)]
    by (simp add: device_step_def strncat_room_fits strcat_fits)
qed

lemma device_token: "token ''-device''"
  by code_simp

lemma no_device_option:
  assumes "token t" "rest = [] \<or> isspace (hd rest)" "t \<noteq> ''-device'' \<or> rest = []"
  shows "\<not> (prefix ''-device'' (t @ rest) \<and> space_at (t @ rest) (length ''-device''))"
  using token_prefix_space [OF assms(1) device_token assms(2)] assms(3) by blast

lemma remove_devices_loop_keep:
  assumes "token t" "rest = [] \<or> isspace (hd rest)" "t \<noteq> ''-device'' \<or> rest = []"
    and "length m + length t + 1 < MAX_CMD_LENGTH"
  shows "remove_devices_loop (t @ rest) m = remove_devices_loop (skip_spaces rest) (m @ t @ '' '')"
  using no_device_option [OF assms(1-3)] tokenD [OF assms(1)] copy_token [OF assms(1,2,4)]
    skip_no_spaces_token [OF assms(1,2)]
  by (subst remove_devices_loop.simps) auto

lemma holds_tokens_ConsE:
  assumes "holds_tokens s (t # ts)" "list_all token (t # ts)"
  obtains rest where "s = t @ rest" "token t" "list_all token ts" "rest = [] \<or> isspace (hd rest)"
    "rest = [] \<longrightarrow> ts = []" "holds_tokens (skip_spaces rest) ts"
  using holds_tokens_Cons [OF assms] assms(2) by (metis list.pred_inject(2))

lemma remove_devices_loop_tokens:
  assumes "holds_tokens s ts" "list_all token ts" "\<forall>t \<in> set ts. length t < MAX_OPTION_LENGTH"
    and "ts \<noteq> [] \<longrightarrow> last ts \<noteq> ''-device''" "length m + length (render ts) < MAX_CMD_LENGTH"
  shows "remove_devices_loop s m = Some (m @ render (strip_devices ts))"
  using assms
proof (induction ts arbitrary: s m rule: strip_devices.induct)
  case 1
  then show ?case by simp
next
  case (2 t)
  obtain rest where r: "s = t @ rest" "token t" "rest = [] \<or> isspace (hd rest)"
    "holds_tokens (skip_spaces rest) []"
    by (rule holds_tokens_ConsE [OF 2(1,2)])
  then show ?case using remove_devices_loop_keep [OF r(2,3), of m] 2(4,5) by simp
next
  case (3 t v ts)
  obtain rest where r: "s = t @ rest" "token t" "list_all token (v # ts)" "rest = [] \<or> isspace (hd rest)"
    "rest = [] \<longrightarrow> v # ts = []" "holds_tokens (skip_spaces rest) (v # ts)"
    by (rule holds_tokens_ConsE [OF 3(4,5)])
  obtain rest' where q: "skip_spaces rest = v @ rest'" "token v" "list_all token ts"
    "rest' = [] \<or> isspace (hd rest')" "holds_tokens (skip_spaces rest') ts"
    using holds_tokens_ConsE [OF r(6,3)] by metis
  show ?case
  proof (cases "t = ''-device''")
    case True
    let ?m = "if match_remove_target_devices v then m else m @ ''-device '' @ remove_netdev_option v @ '' ''"
    have "remove_devices_loop s m = remove_devices_loop (skip_spaces rest') ?m"
      using token_prefix_space [OF r(2) device_token r(4)] r(1,5) True 3(6,8)
        device_step_token [OF q(2,4,1), of m]
      by (subst remove_devices_loop.simps) auto
    moreover have "length ?m + length (render ts) < MAX_CMD_LENGTH"
      using 3(8) True remove_netdev_option_le [of v] by auto
    moreover have "\<forall>t \<in> set ts. length t < MAX_OPTION_LENGTH" "ts \<noteq> [] \<longrightarrow> last ts \<noteq> ''-device''"
      using 3(6,7) by auto
    ultimately have "remove_devices_loop s m = Some (?m @ render (strip_devices ts))"
      using 3(1,2) [OF True _ q(5,3), of ?m] by (cases "match_remove_target_devices v") simp_all
    then show ?thesis using True by (cases "match_remove_target_devices v") simp_all
  next
    case False
    then show ?thesis
      using remove_devices_loop_keep [OF r(2,4), of m] 3(3) [OF False r(6,3), of "m @ t @ '' ''"] r(1) 3(6-8)
      by simp
  qed
qed


text \<open>The tokens the flag filter leaves.\<close>

lemma strip_flags_set: "set (strip_flags ts) \<subseteq> set ts"
  by (induction ts rule: strip_flags.induct) auto

lemma length_render_strip_devices: "length (render (strip_devices ts)) \<le> length (render ts)"
proof (induction ts rule: strip_devices.induct)
  case (3 t v ts)
  then show ?case using remove_netdev_option_le [of v] by auto
qed auto

lemma length_render_strip_flags: "length (render (strip_flags ts)) \<le> length (render ts)"
  by (induction ts rule: strip_flags.induct) auto

lemma snprintf_fits: "length s < cap \<Longrightarrow> snprintf cap s = s"
  by (simp add: snprintf_def)

text \<open>
  C23. The two filters of the command line, scanning the text character by character into a
  fixed buffer, compute what they should on the tokens of the line: every removable flag is
  dropped with its value, then every removable device is dropped and the \<open>netdev\<close> part of the
  other devices is cut, and everything else is kept in order. The line has to fit the buffer
  and each token the option buffer; it may lack the space behind the last token, which must not
  itself be a flag or option without its value.
\<close>

theorem dtb_filters_tokens:
  assumes "holds_tokens s ts" "list_all token ts" "list_all (\<lambda>t. length t < MAX_OPTION_LENGTH) ts"
    and "ts \<noteq> []" "\<not> is_removable_flag (last ts)" "strip_flags ts = [] \<or> last (strip_flags ts) \<noteq> ''-device''"
    and "length (render ts) < MAX_CMD_LENGTH"
  shows "Option.bind (remove_flags_from_command s) remove_specific_devices =
         Some (render (strip_devices (strip_flags ts)))"
proof -
  have "remove_flags_loop s [] = Some (render (strip_flags ts))"
    using remove_flags_loop_tokens [of s ts "[]"] assms by (simp add: at_tokens_def)
  moreover have l: "length (render (strip_flags ts)) < MAX_CMD_LENGTH"
    using length_render_strip_flags [of ts] assms(7) by linarith
  moreover have "remove_devices_loop (render (strip_flags ts)) [] =
      Some (render (strip_devices (strip_flags ts)))"
    using remove_devices_loop_tokens [of "render (strip_flags ts)" "strip_flags ts" "[]"]
      strip_flags_set [of ts] assms(2,3,6) l by (auto simp: holds_tokens_def list_all_iff)
  moreover have "length (render (strip_devices (strip_flags ts))) < MAX_CMD_LENGTH"
    using length_render_strip_devices [of "strip_flags ts"] l by linarith
  ultimately show ?thesis
    by (simp add: remove_flags_from_command_def remove_specific_devices_def snprintf_fits)
qed


definition sample_tokens :: "string list" where
  "sample_tokens = [''-name'', ''sandbox-1'', ''-device'', ''vhost-vsock-pci,guest-cid=3'', ''-device'',
     ''virtio-net-pci,id=n0,netdev=nd0,mac=02'', ''-m'', ''2048M'']"

theorem dtb_filters_tokens_witness:
  "Option.bind (remove_flags_from_command
       ''-name sandbox-1 -device vhost-vsock-pci,guest-cid=3 -device virtio-net-pci,id=n0,netdev=nd0,mac=02 -m 2048M'')
     remove_specific_devices = Some ''-device virtio-net-pci,id=n0 -m 2048M ''"
proof -
  have h: "holds_tokens
     ''-name sandbox-1 -device vhost-vsock-pci,guest-cid=3 -device virtio-net-pci,id=n0,netdev=nd0,mac=02 -m 2048M''
     sample_tokens" by code_simp
  have t: "list_all token sample_tokens" "list_all (\<lambda>t. length t < MAX_OPTION_LENGTH) sample_tokens"
    "sample_tokens \<noteq> []" "\<not> is_removable_flag (last sample_tokens)"
    "strip_flags sample_tokens = [] \<or> last (strip_flags sample_tokens) \<noteq> ''-device''"
    "length (render sample_tokens) < MAX_CMD_LENGTH" by code_simp+
  have "render (strip_devices (strip_flags sample_tokens)) = ''-device virtio-net-pci,id=n0 -m 2048M ''"
    by code_simp
  then show ?thesis using dtb_filters_tokens [OF h t] by (simp only:)
qed


section \<open>The dump of the device tree\<close>

text \<open>
  A \<open>-machine\<close> option without \<open>dumpdtb\<close> gets it appended to its value; everything around it stays.
\<close>

lemma modify_machine_param_dumps:
  assumes "strstr cmd ''-machine'' = Some (''-machine '' @ v @ rest)" "CHR '' '' \<notin> set v"
    and "rest = [] \<or> hd rest = CHR '' ''" "strstr v ''dumpdtb='' = None"
    and "length cmd + length '',dumpdtb='' + length d < MAX_CMD_LENGTH"
  shows "modify_machine_param cmd d =
    Some (text_upto cmd (v @ rest) @ v @ '',dumpdtb='' @ d @ rest)"
proof -
  have c: "strchr (''-machine '' @ v @ rest) CHR '' '' = Some (CHR '' '' # v @ rest)" by simp
  have "suffix (''-machine '' @ v @ rest) cmd" using strstr_SomeD [OF assms(1)] by simp
  then obtain pre where cmd: "cmd = pre @ ''-machine '' @ v @ rest" by (auto simp: suffix_def)
  have u: "text_upto cmd (v @ rest) = pre @ ''-machine ''" by (simp add: cmd text_upto_def)
  have l: "length cmd = length pre + 9 + length v + length rest" by (simp add: cmd)
  have f: "\<not> MAX_CMD_LENGTH - length v \<le> length ('',dumpdtb='' @ d)" "\<not> MAX_CMD_LENGTH \<le> length v"
    using assms(5) l by auto
  show ?thesis
  proof (cases rest)
    case Nil
    have "strchr v CHR '' '' = None" using assms(2) by (simp add: strchr_None_iff)
    then show ?thesis using Nil assms(1,4,5) l c u f
      by (simp add: modify_machine_param_def Let_def strcat_def snprintf_def)
  next
    case (Cons x xs)
    then have "strchr (v @ rest) CHR '' '' = Some rest"
      using strchr_append [OF assms(2), of xs] assms(3) by simp
    moreover have "text_upto (v @ rest) rest = v" by (simp add: text_upto_def)
    ultimately show ?thesis using assms(1,4,5) l c u f
      by (simp add: modify_machine_param_def Let_def strcat_def snprintf_def)
  qed
qed

text \<open>
  A command without \<open>-machine\<close> gets a default one behind its first word, pointing at a file
  other than the one that is read afterwards, and with no space behind it: the next word is
  glued to the name of the file.
\<close>

lemma modify_machine_param_default:
  assumes "strstr cmd ''-machine'' = None" "cmd = w @ CHR '' '' # rest" "CHR '' '' \<notin> set w"
    and "length cmd + length DEFAULT_MACHINE < MAX_CMD_LENGTH"
  shows "modify_machine_param cmd d = Some (w @ ''  -machine virt,dumpdtb=/tmp/dump.dtb'' @ rest)"
proof -
  have "strchr cmd CHR '' '' = Some (CHR '' '' # rest)" by (simp add: assms(2,3) strchr_append)
  moreover have "text_upto cmd rest = w @ '' ''" by (simp add: assms(2) text_upto_def)
  ultimately show ?thesis using assms(1,2,4)
    by (simp add: modify_machine_param_def DEFAULT_MACHINE_def strcat_def)
qed

text \<open>An option \<open>-chardev\<close> whose value has no \<open>path=\<close> is followed through a bad pointer.\<close>

lemma socket_without_path:
  assumes "token v" "strstr v ''path='' = None"
  shows "modify_socket_path (''-chardev '' @ v) = None"
proof -
  have "skip_spaces (CHR '' '' # v) = v" "skip_no_spaces v = []"
    using skip_spaces_token [OF assms(1), of "[]"] skip_no_spaces_token [OF assms(1), of "[]"]
    by (simp_all add: skip_spaces_def)
  then have "socket_step (''-chardev '' @ v) [] = None"
    using assms(2) by (simp add: socket_step_def new_socket_value_def text_upto_def)
  moreover have "space_at (''-chardev '' @ v) (length ''-chardev'')" by (simp add: space_at_def)
  ultimately have "socket_path_loop (''-chardev '' @ v) [] = None"
    by (subst socket_path_loop.simps) simp
  then show ?thesis by (simp add: modify_socket_path_def)
qed

end
