(* ===== verification/Rim_Ref.thy ===== *)
theory Rim_Ref
  imports Gen_Dtb "HOL-Library.Multiset"
begin

text \<open>
  The reference value generator \<open>attestation/rim_ref/src/gen_rim_ref.c\<close>: it predicts the initial
  measurement (RIM) of a confidential virtual machine from the files it boots, by replaying the
  measurements the platform takes when the machine is created. The blobs of guest memory are
  kept in a list ordered by address, each page is hashed into a descriptor that chains on the
  current RIM, and the virtual processors follow.

  OpenSSL is the parameter \<^term>\<open>evp\<close>: whether a context can be made and the digest of a buffer,
  \<^term>\<open>None\<close> when one of the digest calls fails. A failed assertion is \<^term>\<open>None\<close>. The Go library that
  reads a Kata configuration is the parameter \<open>qemu_gen\<close>.
\<close>

section \<open>Hashes and descriptors\<close>

abbreviation HASH_ALGO_SHA256 :: u32 where "HASH_ALGO_SHA256 \<equiv> 0"
abbreviation HASH_ALGO_SHA512 :: u32 where "HASH_ALGO_SHA512 \<equiv> 1"
abbreviation MAX_MEASUREMENT_SIZE :: nat where "MAX_MEASUREMENT_SIZE \<equiv> 64"
abbreviation L2_GRANULE :: nat where "L2_GRANULE \<equiv> 2097152"
abbreviation L3_GRANULE :: nat where "L3_GRANULE \<equiv> 4096"
abbreviation UEFI_LOAD_SIZE :: nat where "UEFI_LOAD_SIZE \<equiv> 134217728"
abbreviation FILE_SIZE_MAX :: nat where "FILE_SIZE_MAX \<equiv> 1073741824"
abbreviation LOADER_START_ADDR :: u64 where "LOADER_START_ADDR \<equiv> 0x40000000"
abbreviation KERNEL_LOAD_OFFSET :: u64 where "KERNEL_LOAD_OFFSET \<equiv> 0x200000"
abbreviation INITRD_LOAD_OFFSET :: u64 where "INITRD_LOAD_OFFSET \<equiv> 0x8000000"

record evp =
  md_ctx_ok :: bool
  digest :: "u32 \<Rightarrow> bytes \<Rightarrow> bytes option"

definition measurement_get_size :: "u32 \<Rightarrow> nat option" where
  "measurement_get_size algorithm =
     (if algorithm = HASH_ALGO_SHA256 then Some 32
      else if algorithm = HASH_ALGO_SHA512 then Some 64 else None)"

text \<open>A failure of a digest call is reported, leaves \<open>out\<close> as it is and yields 0 all the same.\<close>

definition do_hash :: "evp \<Rightarrow> u32 \<Rightarrow> bytes \<Rightarrow> bytes \<Rightarrow> (int \<times> bytes) option" where
  "do_hash evp hash_algo data buf =
     (if hash_algo \<noteq> HASH_ALGO_SHA256 \<and> hash_algo \<noteq> HASH_ALGO_SHA512 then Some (-1, buf)
      else if \<not> md_ctx_ok evp then Some (-1, buf)
      else case digest evp hash_algo data of
        None \<Rightarrow> Some (0, buf)
      | Some d \<Rightarrow> map_option (Pair 0) (mem_write buf 0 d))"

record tmi_cvm_create_params =
  cp_flags :: u64
  cp_s2sz :: u64
  cp_sve_vl :: u64
  cp_num_bps :: u64
  cp_num_wps :: u64
  cp_pmu_num_cnts :: u64
  cp_measurement_algo :: u64

record tmi_tec_create_params =
  tp_gprs :: "u64 list"
  tp_pc :: u64
  tp_flags :: u64

record tmi_data_create_params =
  dp_data :: bytes
  dp_size :: u64
  dp_flags :: u64
  dp_ipa :: u64

record cvm_init_measure =
  measurement_algo :: u32
  rim :: bytes

text \<open>A member of a descriptor in the field of \<open>n\<close> bytes the header gives it.\<close>

definition set_member :: "nat \<Rightarrow> bytes \<Rightarrow> bytes" where
  "set_member n bs = bs @ replicate (n - length bs) 0"

definition tmi_measure_cvm :: "tmi_cvm_create_params \<Rightarrow> bytes" where
  "tmi_measure_cvm params =
     set_member 8 (word_bytes (cp_flags params))
     @ set_member 8 (word_bytes (ucast (cp_s2sz params) :: u32))
     @ set_member 8 (word_bytes (ucast (cp_sve_vl params) :: u32))
     @ set_member 8 (word_bytes (ucast (cp_num_bps params) :: u32))
     @ set_member 8 (word_bytes (ucast (cp_num_wps params) :: u32))
     @ set_member 8 (word_bytes (ucast (cp_pmu_num_cnts params) :: u32))
     @ set_member 976 [ucast (cp_measurement_algo params)]
     @ replicate 1024 0 @ replicate 2048 0"

definition tmi_tec_params :: "tmi_tec_create_params \<Rightarrow> bytes" where
  "tmi_tec_params params =
     concat (map word_bytes (tp_gprs params)) @ word_bytes (tp_pc params) @ word_bytes (tp_flags params)"

definition tmi_measure_tec :: "bytes \<Rightarrow> bytes \<Rightarrow> bytes" where
  "tmi_measure_tec rim_field content =
     set_member 8 [1] @ set_member 8 (word_bytes (256 :: u64)) @ rim_field @ set_member 176 content"

definition tmi_measure_data :: "bytes \<Rightarrow> u64 \<Rightarrow> u64 \<Rightarrow> bytes \<Rightarrow> bytes" where
  "tmi_measure_data rim_field ipa flags content =
     set_member 8 [0] @ set_member 8 (word_bytes (256 :: u64)) @ rim_field
     @ word_bytes ipa @ word_bytes flags @ set_member 160 content"


section \<open>The measurements\<close>

definition measure_tmi_cvm_create ::
    "evp \<Rightarrow> cvm_init_measure \<Rightarrow> tmi_cvm_create_params \<Rightarrow> cvm_init_measure option" where
  "measure_tmi_cvm_create evp meas params = do {
     let alg = (ucast (cp_measurement_algo params) :: u32);
     (_, r) \<leftarrow> do_hash evp alg (tmi_measure_cvm params) (rim meas);
     Some \<lparr>measurement_algo = alg, rim = r\<rparr>
   }"

text \<open>The \<open>rim\<close> field of a descriptor: as many bytes of the current RIM as the algorithm has.\<close>

definition rim_member :: "cvm_init_measure \<Rightarrow> bytes option" where
  "rim_member meas = do {
     n \<leftarrow> measurement_get_size (measurement_algo meas);
     r \<leftarrow> mem_read (rim meas) 0 n;
     mem_write (replicate MAX_MEASUREMENT_SIZE 0) 0 r
   }"

definition measure_tmi_tec_create ::
    "evp \<Rightarrow> cvm_init_measure \<Rightarrow> tmi_tec_create_params \<Rightarrow> cvm_init_measure option" where
  "measure_tmi_tec_create evp meas params = do {
     rim_field \<leftarrow> rim_member meas;
     (_, content) \<leftarrow> do_hash evp (measurement_algo meas) (tmi_tec_params params)
                      (replicate MAX_MEASUREMENT_SIZE 0);
     (_, r) \<leftarrow> do_hash evp (measurement_algo meas) (tmi_measure_tec rim_field content) (rim meas);
     Some (meas\<lparr>rim := r\<rparr>)
   }"

definition measure_tmi_data_create ::
    "evp \<Rightarrow> cvm_init_measure \<Rightarrow> tmi_data_create_params \<Rightarrow> cvm_init_measure option" where
  "measure_tmi_data_create evp meas params = do {
     rim_field \<leftarrow> rim_member meas;
     content \<leftarrow> (if dp_flags params = 1 then do {
                   d \<leftarrow> mem_read (dp_data params) 0 (unat (dp_size params));
                   (_, c) \<leftarrow> do_hash evp (measurement_algo meas) d (replicate MAX_MEASUREMENT_SIZE 0);
                   Some c
                 } else Some (replicate MAX_MEASUREMENT_SIZE 0));
     (_, r) \<leftarrow> do_hash evp (measurement_algo meas)
                (tmi_measure_data rim_field (dp_ipa params) (dp_flags params) content) (rim meas);
     Some (meas\<lparr>rim := r\<rparr>)
   }"

definition set_bit64 :: "u64 \<Rightarrow> nat \<Rightarrow> u64" where
  "set_bit64 number n = number OR push_bit n 1"

definition clear_bit64 :: "u64 \<Rightarrow> nat \<Rightarrow> u64" where
  "clear_bit64 number n = number AND NOT (push_bit n 1)"

definition tec_params :: "u64 \<Rightarrow> nat \<Rightarrow> tmi_tec_create_params" where
  "tec_params loader_start i =
     (let params = \<lparr>tp_gprs = replicate 8 0, tp_pc = 0, tp_flags = 0\<rparr> in
      if i = 0 then params\<lparr>tp_pc := loader_start, tp_flags := set_bit64 0 0\<rparr> else params)"

definition measure_create_tecs ::
    "evp \<Rightarrow> cvm_init_measure \<Rightarrow> u64 \<Rightarrow> u32 \<Rightarrow> cvm_init_measure option" where
  "measure_create_tecs evp meas loader_start tec_num =
     foldM (\<lambda>i meas. measure_tmi_tec_create evp meas (tec_params loader_start i)) [0..<unat tec_num] meas"

definition measure_create_cvm ::
    "evp \<Rightarrow> cvm_init_measure \<Rightarrow> bool \<Rightarrow> bool \<Rightarrow> bool \<Rightarrow> u64 \<Rightarrow> u64 \<Rightarrow> u64 \<Rightarrow> u64 \<Rightarrow> u64 \<Rightarrow> u64
     \<Rightarrow> cvm_init_measure option" where
  "measure_create_cvm evp meas lpa2_enable sve_enable pmu_enable ipa_width sve_vector_length
      num_bps num_wps num_pmu hash_algo =
     (let flags = (if lpa2_enable then set_bit64 0 0 else clear_bit64 0 0);
          flags = (if sve_enable then set_bit64 flags 1 else clear_bit64 flags 1);
          flags = (if pmu_enable then set_bit64 flags 2 else clear_bit64 flags 2) in
      measure_tmi_cvm_create evp meas
        \<lparr>cp_flags = flags, cp_s2sz = ipa_width, cp_sve_vl = sve_vector_length, cp_num_bps = num_bps,
         cp_num_wps = num_wps, cp_pmu_num_cnts = num_pmu, cp_measurement_algo = hash_algo\<rparr>)"


section \<open>The list of blobs\<close>

record blob =
  guest_start :: u64
  blob_data :: bytes
  blob_size :: nat

type_synonym blob_list = "blob list"

definition init_rim_blobs :: blob_list where
  "init_rim_blobs = []"

definition free_rim_blobs :: "blob_list \<Rightarrow> blob_list" where
  "free_rim_blobs rim_blobs = []"

text \<open>
  The walk over the links of the list to the place of the new blob; \<^term>\<open>None\<close> when a blob has its
  address already.
\<close>

fun link_blob :: "blob \<Rightarrow> blob_list \<Rightarrow> blob_list option" where
  "link_blob new_blob [] = Some [new_blob]"
| "link_blob new_blob (cur # rest) =
     (if guest_start cur < guest_start new_blob then map_option ((#) cur) (link_blob new_blob rest)
      else if guest_start cur = guest_start new_blob then None
      else Some (new_blob # cur # rest))"

definition add_rim_blob ::
    "(nat \<Rightarrow> bool) \<Rightarrow> blob_list \<Rightarrow> u64 \<Rightarrow> bytes \<Rightarrow> nat \<Rightarrow> blob_list \<times> blob option" where
  "add_rim_blob malloc_ok rim_blobs start data n =
     (if \<not> malloc_ok 32 then (rim_blobs, None)
      else let new_blob = \<lparr>guest_start = start, blob_data = data, blob_size = n\<rparr> in
        case link_blob new_blob rim_blobs of
          None \<Rightarrow> (rim_blobs, None)
        | Some bs \<Rightarrow> (bs, Some new_blob))"

definition page_params :: "blob \<Rightarrow> nat \<Rightarrow> tmi_data_create_params" where
  "page_params b i =
     \<lparr>dp_data = drop (i * L3_GRANULE) (blob_data b), dp_size = of_nat L3_GRANULE,
      dp_flags = set_bit64 0 0, dp_ipa = guest_start b + of_nat (i * L3_GRANULE)\<rparr>"

definition measure_rim_blobs ::
    "evp \<Rightarrow> cvm_init_measure \<Rightarrow> blob_list \<Rightarrow> cvm_init_measure option" where
  "measure_rim_blobs evp meas rim_blobs =
     foldM (\<lambda>cur. foldM (\<lambda>i meas. measure_tmi_data_create evp meas (page_params cur i))
                         [0..<blob_size cur div L3_GRANULE])
       rim_blobs meas"

text \<open>The line the program prints: \<open>RIM-HASH:\<close> and the digest in upper case.\<close>

definition hexDigits :: string where
  "hexDigits = ''0123456789ABCDEF''"

definition print_data :: "bytes \<Rightarrow> nat \<Rightarrow> string \<Rightarrow> string option" where
  "print_data data n name = do {
     bs \<leftarrow> mem_read data 0 (min n 64);
     Some (name @ '': '' @ concat (map (\<lambda>b. [hexDigits ! unat (drop_bit 4 b AND 0x0F),
                                            hexDigits ! unat (b AND 0x0F)]) bs) @ [CHR 0x0A])
   }"

definition print_hash :: "bytes \<Rightarrow> u32 \<Rightarrow> string option" where
  "print_hash measurement algorithm =
     (if algorithm = HASH_ALGO_SHA256 then print_data measurement 32 ''HASH''
      else if algorithm = HASH_ALGO_SHA512 then print_data measurement 64 ''HASH''
      else None)"

definition generate_rim_reference :: "evp \<Rightarrow> u64 \<Rightarrow> u64 \<Rightarrow> u64 \<Rightarrow> blob_list \<Rightarrow> bool \<Rightarrow> string option" where
  "generate_rim_reference evp tec_num sve_vector_size pmu_counter_num rim_blobs use_firmware = do {
     let sve_enable = sve_vector_size > 0;
     let sve_vector_length = (if sve_enable then sve_vector_size div 128 else 0);
     meas \<leftarrow> measure_create_cvm evp \<lparr>measurement_algo = 0, rim = replicate MAX_MEASUREMENT_SIZE 0\<rparr>
               False sve_enable (pmu_counter_num > 0) 40 sve_vector_length 0 0 pmu_counter_num 0;
     meas \<leftarrow> measure_rim_blobs evp meas rim_blobs;
     meas \<leftarrow> measure_create_tecs evp meas (if use_firmware then 0 else LOADER_START_ADDR) (ucast tec_num);
     line \<leftarrow> print_hash (rim meas) (measurement_algo meas);
     Some (''RIM-'' @ line)
   }"


section \<open>Loading the files\<close>

datatype file_type = KERNEL_FILE | UEFI_FILE | DEFAULT_FILE

definition round_up :: "u64 \<Rightarrow> u64 \<Rightarrow> u64" where
  "round_up x y = ((x - 1) OR (y - 1)) + 1"

text \<open>
  The size of the buffer a file is loaded into, \<^term>\<open>None\<close> for firmware that is too large. A kernel
  image has its size in the header behind the magic \<open>ARM\x64\<close>; without it the size stays 0.
\<close>

definition load_size :: "bytes \<Rightarrow> file_type \<Rightarrow> nat option" where
  "load_size content type =
     (case type of
        KERNEL_FILE \<Rightarrow>
          Some (if length content > 60 \<and> take 4 (drop 56 content) = [0x41, 0x52, 0x4D, 0x64]
                then unat (round_up (word_of_bytes (take 8 (drop 16 content))) (of_nat L3_GRANULE))
                else 0)
      | UEFI_FILE \<Rightarrow> if length content > UEFI_LOAD_SIZE then None else Some UEFI_LOAD_SIZE
      | DEFAULT_FILE \<Rightarrow> Some (unat (round_up (of_nat (length content) + 1) (of_nat L2_GRANULE))))"

text \<open>\<^term>\<open>Some None\<close> is the return value \<open>-1\<close>.\<close>

definition load_file_data ::
    "(nat \<Rightarrow> bool) \<Rightarrow> files \<Rightarrow> string \<Rightarrow> file_type \<Rightarrow> (bytes \<times> nat) option option" where
  "load_file_data malloc_ok fs file_path type =
     (case fs file_path of
        None \<Rightarrow> Some None
      | Some content \<Rightarrow>
          (case load_size content type of
             None \<Rightarrow> Some None
           | Some n \<Rightarrow>
               if n = 0 \<or> n > FILE_SIZE_MAX then Some None
               else if \<not> malloc_ok n then Some None
               else do {
                 data \<leftarrow> mem_write (replicate n 0) 0 content;
                 Some (Some (data, n))
               }))"

definition bootloader :: "u64 \<Rightarrow> u64 \<Rightarrow> u32 list" where
  "bootloader kernel_start dtb_start =
     [0x580000c0, 0xaa1f03e1, 0xaa1f03e2, 0xaa1f03e3, 0x58000084, 0xd61f0080,
      ucast dtb_start, ucast (drop_bit 32 dtb_start), ucast kernel_start, ucast (drop_bit 32 kernel_start)]"

definition get_bootloader_aarch64 :: "(nat \<Rightarrow> bool) \<Rightarrow> u64 \<Rightarrow> u64 \<Rightarrow> (bytes \<times> nat) option option" where
  "get_bootloader_aarch64 malloc_ok kernel_start dtb_start =
     (if \<not> malloc_ok L2_GRANULE then Some None
      else do {
        data \<leftarrow> mem_write (replicate L2_GRANULE 0) 0
                  (concat (map word_bytes (bootloader kernel_start dtb_start)));
        Some (Some (data, L2_GRANULE))
      })"

definition load_data_to_blobs ::
    "(nat \<Rightarrow> bool) \<Rightarrow> files \<Rightarrow> blob_list \<Rightarrow> string \<Rightarrow> file_type \<Rightarrow> u64 \<Rightarrow> (blob_list \<times> blob option) option" where
  "load_data_to_blobs malloc_ok fs rim_blobs path type start_addr = do {
     loaded \<leftarrow> load_file_data malloc_ok fs path type;
     case loaded of
       None \<Rightarrow> Some (rim_blobs, None)
     | Some (data, n) \<Rightarrow> Some (add_rim_blob malloc_ok rim_blobs start_addr data n)
   }"

definition load_loader_to_blobs ::
    "(nat \<Rightarrow> bool) \<Rightarrow> blob_list \<Rightarrow> u64 \<Rightarrow> u64 \<Rightarrow> u64 \<Rightarrow> (blob_list \<times> blob option) option" where
  "load_loader_to_blobs malloc_ok rim_blobs kernel_start dtb_start start_addr = do {
     loaded \<leftarrow> get_bootloader_aarch64 malloc_ok kernel_start dtb_start;
     case loaded of
       None \<Rightarrow> Some (rim_blobs, None)
     | Some (data, n) \<Rightarrow> Some (add_rim_blob malloc_ok rim_blobs start_addr data n)
   }"


section \<open>Building the list\<close>

record tools_args =
  kernel_path_arg :: string
  dtb_path :: string
  initramfs_path :: string
  firmware_path :: string
  kata_config_path :: string
  pod_config_path :: string
  vcpu_num :: u64
  sve_vector_length :: int
  pmu_counter_num :: int

text \<open>
  Each step adds a blob; when one fails the list is freed and \<open>-1\<close> returned. The blob that a
  step added is passed on.
\<close>

definition then_blob ::
    "(blob_list \<times> blob option) option \<Rightarrow> (blob_list \<Rightarrow> blob \<Rightarrow> (int \<times> blob_list) option)
     \<Rightarrow> (int \<times> blob_list) option" where
  "then_blob r k = do {
     (bs, b) \<leftarrow> r;
     case b of None \<Rightarrow> Some (-1, free_rim_blobs bs) | Some cur_blob \<Rightarrow> k bs cur_blob
   }"

definition build_kernel_blobs ::
    "(nat \<Rightarrow> bool) \<Rightarrow> files \<Rightarrow> blob_list \<Rightarrow> tools_args \<Rightarrow> (int \<times> blob_list) option" where
  "build_kernel_blobs malloc_ok fs rim_blobs args =
     (let loader_start = LOADER_START_ADDR;
          kernel_start = loader_start + KERNEL_LOAD_OFFSET;
          initrd_start = loader_start + INITRD_LOAD_OFFSET;
          rest = (\<lambda>bs dtb_start.
            then_blob (load_data_to_blobs malloc_ok fs bs (dtb_path args) DEFAULT_FILE dtb_start) (\<lambda>bs _.
            then_blob (load_loader_to_blobs malloc_ok bs kernel_start dtb_start loader_start) (\<lambda>bs _.
            Some (0, bs)))) in
      then_blob (load_data_to_blobs malloc_ok fs rim_blobs (kernel_path_arg args) KERNEL_FILE kernel_start) (\<lambda>bs _.
      if initramfs_path args \<noteq> [] then
        then_blob (load_data_to_blobs malloc_ok fs bs (initramfs_path args) DEFAULT_FILE initrd_start) (\<lambda>bs cur_blob.
        rest bs (initrd_start + of_nat (blob_size cur_blob)))
      else rest bs initrd_start))"

definition build_firmware_blobs ::
    "(nat \<Rightarrow> bool) \<Rightarrow> files \<Rightarrow> blob_list \<Rightarrow> tools_args \<Rightarrow> (int \<times> blob_list) option" where
  "build_firmware_blobs malloc_ok fs rim_blobs args =
     then_blob (load_data_to_blobs malloc_ok fs rim_blobs (firmware_path args) UEFI_FILE 0) (\<lambda>bs _.
     then_blob (load_data_to_blobs malloc_ok fs bs (dtb_path args) DEFAULT_FILE LOADER_START_ADDR) (\<lambda>bs _.
     Some (0, bs)))"

text \<open>What \<open>GenerateQemuInstr\<close> returns: success, processors, command line, QEMU binary, kernel.\<close>

type_synonym qemu_gen = "string \<Rightarrow> string \<Rightarrow> bool \<times> u32 \<times> string \<times> string \<times> string"

definition build_coco_blobs ::
    "(nat \<Rightarrow> bool) \<Rightarrow> shell \<Rightarrow> qemu_gen \<Rightarrow> files \<Rightarrow> blob_list \<Rightarrow> tools_args
     \<Rightarrow> (int \<times> blob_list \<times> tools_args \<times> files) option" where
  "build_coco_blobs malloc_ok shell qemu_gen fs rim_blobs args = do {
     let loader_start = LOADER_START_ADDR;
     let kernel_start = loader_start + KERNEL_LOAD_OFFSET;
     let dtb_start = loader_start + INITRD_LOAD_OFFSET;
     let (r0, r1, r2, r3, r4) = qemu_gen (kata_config_path args) (pod_config_path args);
     if malloc_ok MAX_CMD_LENGTH \<and> malloc_ok MAX_OPTION_LENGTH then do {
       let qemu_instr = snprintf MAX_CMD_LENGTH r2;
       let qemu_bin_path = snprintf MAX_OPTION_LENGTH r3;
       let kernel_path = snprintf MAX_OPTION_LENGTH r4;
       fs \<leftarrow> (if r0 then generate_dtb_with_kata_config malloc_ok shell qemu_bin_path qemu_instr fs
              else Some fs);
       let args = args\<lparr>vcpu_num := ucast r1\<rparr>;
       (ret, bs) \<leftarrow>
         then_blob (load_data_to_blobs malloc_ok fs rim_blobs kernel_path KERNEL_FILE kernel_start) (\<lambda>bs _.
         then_blob (load_data_to_blobs malloc_ok fs bs DEFAULT_DUMPDTB_PATH DEFAULT_FILE dtb_start) (\<lambda>bs _.
         then_blob (load_loader_to_blobs malloc_ok bs kernel_start dtb_start loader_start) (\<lambda>bs _.
         Some (0, bs))));
       Some (ret, bs, args, fs)
     } else None
   }"

definition build_rim_blobs ::
    "(nat \<Rightarrow> bool) \<Rightarrow> shell \<Rightarrow> qemu_gen \<Rightarrow> files \<Rightarrow> blob_list \<Rightarrow> tools_args
     \<Rightarrow> (int \<times> blob_list \<times> tools_args \<times> files) option" where
  "build_rim_blobs malloc_ok shell qemu_gen fs rim_blobs args =
     (let use_firmware = firmware_path args \<noteq> [];
          use_kernel = kernel_path_arg args \<noteq> [];
          use_kata_config = kata_config_path args \<noteq> [];
          use_pod_config = pod_config_path args \<noteq> [] in
      if use_kata_config \<or> use_pod_config then
        if use_kata_config \<noteq> use_pod_config then Some (-1, rim_blobs, args, fs)
        else build_coco_blobs malloc_ok shell qemu_gen fs rim_blobs args
      else if \<not> (use_firmware \<noteq> use_kernel) then Some (-1, rim_blobs, args, fs)
      else if dtb_path args = [] then Some (-1, rim_blobs, args, fs)
      else do {
        (ret, bs) \<leftarrow> (if use_kernel then build_kernel_blobs malloc_ok fs rim_blobs args
                      else build_firmware_blobs malloc_ok fs rim_blobs args);
        Some (ret, bs, args, fs)
      })"


section \<open>The command line and the program\<close>

text \<open>\<open>strncpy\<close> of an argument into a path of the arguments record.\<close>

definition path_arg :: "string \<Rightarrow> string" where
  "path_arg optarg = take 999 optarg"

text \<open>
  The options of the command line are the results \<open>getopt_long\<close> delivers, in order: the option's
  letter (a question mark for one it does not know) and its argument.
\<close>

fun parse_opts :: "(char \<times> string) list \<Rightarrow> tools_args \<Rightarrow> (int \<times> tools_args) option" where
  "parse_opts [] args = Some (0, args)"
| "parse_opts ((opt, optarg) # opts) args =
     (if opt = CHR ''k'' then parse_opts opts (args\<lparr>kernel_path_arg := path_arg optarg\<rparr>)
      else if opt = CHR ''i'' then parse_opts opts (args\<lparr>initramfs_path := path_arg optarg\<rparr>)
      else if opt = CHR ''d'' then parse_opts opts (args\<lparr>dtb_path := path_arg optarg\<rparr>)
      else if opt = CHR ''f'' then parse_opts opts (args\<lparr>firmware_path := path_arg optarg\<rparr>)
      else if opt = CHR ''v'' then do {
        v \<leftarrow> atoi optarg;
        let args = args\<lparr>vcpu_num := of_int v\<rparr>;
        if vcpu_num args \<le> 0 then Some (-1, args) else parse_opts opts args
      }
      else if opt = CHR ''s'' then do {
        v \<leftarrow> atoi optarg;
        let args = args\<lparr>sve_vector_length := v\<rparr>;
        if v < 0 \<or> v mod 128 \<noteq> 0 then Some (-1, args) else parse_opts opts args
      }
      else if opt = CHR ''m'' then do {
        v \<leftarrow> atoi optarg;
        let args = args\<lparr>pmu_counter_num := v\<rparr>;
        if v < 0 then Some (-1, args) else parse_opts opts args
      }
      else if opt = CHR ''c'' then parse_opts opts (args\<lparr>kata_config_path := path_arg optarg\<rparr>)
      else if opt = CHR ''p'' then parse_opts opts (args\<lparr>pod_config_path := path_arg optarg\<rparr>)
      else Some (-1, args))"

definition no_args :: tools_args where
  "no_args = \<lparr>kernel_path_arg = [], dtb_path = [], initramfs_path = [], firmware_path = [],
     kata_config_path = [], pod_config_path = [], vcpu_num = 0, sve_vector_length = 0, pmu_counter_num = 0\<rparr>"

definition parse_args :: "nat \<Rightarrow> (char \<times> string) list \<Rightarrow> tools_args \<Rightarrow> (int \<times> tools_args) option" where
  "parse_args argc opts args = (if argc < 2 then Some (-1, args) else parse_opts opts no_args)"

text \<open>The exit status and what is printed of the reference value.\<close>

definition gen_rim_main ::
    "(nat \<Rightarrow> bool) \<Rightarrow> evp \<Rightarrow> shell \<Rightarrow> qemu_gen \<Rightarrow> files \<Rightarrow> nat \<Rightarrow> (char \<times> string) list \<Rightarrow> (int \<times> string) option" where
  "gen_rim_main malloc_ok evp shell qemu_gen fs argc opts = do {
     (r, args) \<leftarrow> parse_args argc opts no_args;
     if r \<noteq> 0 then Some (-1, [])
     else do {
       (r, bs, args, fs) \<leftarrow> build_rim_blobs malloc_ok shell qemu_gen fs init_rim_blobs args;
       if r \<noteq> 0 then Some (-1, [])
       else do {
         line \<leftarrow> generate_rim_reference evp (vcpu_num args) (of_int (sve_vector_length args))
                   (of_int (pmu_counter_num args)) bs (firmware_path args \<noteq> []);
         Some (0, line)
       }
     }
   }"


section \<open>The list of blobs as an ordered store\<close>

text \<open>
  The contract of a store of items with distinct keys whose contents determine it: an item is
  refused exactly when its key is taken. Under it the order in which items are added does not
  matter.
\<close>

locale canonical_store =
  fixes new_store :: 's and add :: "'a \<Rightarrow> 's \<Rightarrow> 's option"
    and elems :: "'s \<Rightarrow> 'a set" and invar :: "'s \<Rightarrow> bool" and key :: "'a \<Rightarrow> 'k"
  assumes invar_new: "invar new_store" and elems_new: "elems new_store = {}"
    and invar_add: "invar s \<Longrightarrow> add x s = Some s' \<Longrightarrow> invar s'"
    and elems_add: "invar s \<Longrightarrow> add x s = Some s' \<Longrightarrow> elems s' = insert x (elems s)"
    and add_refused: "invar s \<Longrightarrow> add x s = None \<longleftrightarrow> key x \<in> key ` elems s"
    and canonical: "invar s \<Longrightarrow> invar t \<Longrightarrow> elems s = elems t \<Longrightarrow> s = t"
begin

lemma add_all:
  assumes "invar s" "distinct (map key xs)" "key ` set xs \<inter> key ` elems s = {}"
  shows "\<exists>t. foldM add xs s = Some t \<and> invar t \<and> elems t = elems s \<union> set xs"
  using assms
proof (induction xs arbitrary: s)
  case (Cons x xs)
  have "add x s \<noteq> None" using add_refused [OF Cons.prems(1)] Cons.prems(3) by auto
  then obtain s' where s': "add x s = Some s'" by auto
  note i = invar_add [OF Cons.prems(1) s'] elems_add [OF Cons.prems(1) s']
  have "\<exists>t. foldM add xs s' = Some t \<and> invar t \<and> elems t = elems s' \<union> set xs"
  proof (rule Cons.IH [OF i(1)])
    show "distinct (map key xs)" using Cons.prems(2) by simp
    show "key ` set xs \<inter> key ` elems s' = {}" using Cons.prems(2,3) i(2) by auto
  qed
  then show ?case using s' i(2) by auto
qed auto

lemma add_order_irrelevant:
  assumes "distinct (map key xs)" "mset xs = mset ys"
  shows "\<exists>t. foldM add xs new_store = Some t \<and> foldM add ys new_store = Some t"
proof -
  have ys: "distinct (map key ys)" "set ys = set xs"
    using assms mset_eq_imp_distinct_iff [of "map key xs" "map key ys"]
      mset_eq_setD [OF assms(2)] by auto
  obtain t where t: "foldM add xs new_store = Some t" "invar t" "elems t = set xs"
    using add_all [OF invar_new assms(1)] elems_new by auto
  obtain u where u: "foldM add ys new_store = Some u" "invar u" "elems u = set ys"
    using add_all [OF invar_new ys(1)] elems_new by auto
  show ?thesis using t u canonical [OF t(2) u(2)] ys(2) by auto
qed

end

definition blobs_ordered :: "blob_list \<Rightarrow> bool" where
  "blobs_ordered bs = sorted_wrt (\<lambda>a b. guest_start a < guest_start b) bs"

lemma set_link_blob: "link_blob b bs = Some cs \<Longrightarrow> set cs = insert b (set bs)"
  by (induction bs arbitrary: cs) (auto split: if_splits)

lemma link_blob_ordered: "blobs_ordered bs \<Longrightarrow> link_blob b bs = Some cs \<Longrightarrow> blobs_ordered cs"
proof (induction bs arbitrary: cs)
  case (Cons c bs)
  show ?case
  proof (cases "guest_start c < guest_start b")
    case True
    then obtain ds where ds: "link_blob b bs = Some ds" "cs = c # ds" using Cons.prems(2) by auto
    have "blobs_ordered ds" using Cons ds(1) by (simp add: blobs_ordered_def)
    then show ?thesis using True ds Cons.prems(1) set_link_blob [OF ds(1)]
      by (auto simp: blobs_ordered_def)
  next
    case False
    then have "guest_start b < guest_start c" "cs = b # c # bs"
      using Cons.prems(2) by (auto split: if_splits)
    then show ?thesis using Cons.prems(1) by (auto simp: blobs_ordered_def)
  qed
qed (auto simp: blobs_ordered_def)

lemma link_blob_refused:
  "blobs_ordered bs \<Longrightarrow> link_blob b bs = None \<longleftrightarrow> guest_start b \<in> guest_start ` set bs"
  by (induction bs) (auto simp: blobs_ordered_def)

lemma blobs_ordered_unique:
  assumes "blobs_ordered bs" "blobs_ordered cs" "set bs = set cs" shows "bs = cs"
proof (rule map_sorted_distinct_set_unique [OF _ _ _ _ _ assms(3), of guest_start])
  have inj: "inj_on guest_start (set xs)" "sorted_wrt (<) (map guest_start xs)" if "blobs_ordered xs" for xs
    using that by (induction xs) (auto simp: blobs_ordered_def)
  show "inj_on guest_start (set bs \<union> set cs)" using inj(1) [OF assms(1)] assms(3) by simp
  show "sorted (map guest_start bs)" "distinct (map guest_start bs)"
    "sorted (map guest_start cs)" "distinct (map guest_start cs)"
    using inj(2) [OF assms(1)] inj(2) [OF assms(2)] by (simp_all add: strict_sorted_iff)
qed

interpretation rim_store: canonical_store "[]" link_blob set blobs_ordered guest_start
proof
  show "blobs_ordered []" by (simp add: blobs_ordered_def)
qed (auto simp: set_link_blob link_blob_refused intro: link_blob_ordered blobs_ordered_unique)

lemma add_rim_blob_fst:
  "fst (add_rim_blob malloc_ok bs start data n) = bs \<or>
   link_blob \<lparr>guest_start = start, blob_data = data, blob_size = n\<rparr> bs =
     Some (fst (add_rim_blob malloc_ok bs start data n))"
  by (auto simp: add_rim_blob_def Let_def split: option.splits)

lemma add_rim_blob_ordered:
  "blobs_ordered bs \<Longrightarrow> blobs_ordered (fst (add_rim_blob malloc_ok bs start data n))"
  using add_rim_blob_fst [of malloc_ok bs start data n] link_blob_ordered by metis



section \<open>The reference value as a chain of extensions\<close>

text \<open>
  What the platform computes, given the digest \<open>H\<close>: the hash of the machine's parameters,
  extended by every page of guest memory in the order of addresses and then by every virtual
  processor, the first of which is runnable at \<open>pc\<close>. The 32 bytes of a digest are followed by
  zeros in the fields of a descriptor.
\<close>

definition pad64 :: "bytes \<Rightarrow> bytes" where
  "pad64 d = d @ replicate 32 0"

definition extend_data :: "(bytes \<Rightarrow> bytes) \<Rightarrow> u64 \<times> bytes \<Rightarrow> bytes \<Rightarrow> bytes" where
  "extend_data H = (\<lambda>(ipa, page) r. H (tmi_measure_data (pad64 r) ipa 1 (pad64 (H page))))"

definition extend_tec :: "(bytes \<Rightarrow> bytes) \<Rightarrow> u64 \<times> u64 \<Rightarrow> bytes \<Rightarrow> bytes" where
  "extend_tec H = (\<lambda>(pc, flags) r.
     H (tmi_measure_tec (pad64 r) (pad64 (H (replicate 64 0 @ word_bytes pc @ word_bytes flags)))))"

function pages :: "u64 \<Rightarrow> bytes \<Rightarrow> (u64 \<times> bytes) list" where
  "pages ipa bs = (if length bs < L3_GRANULE then []
     else (ipa, take L3_GRANULE bs) # pages (ipa + 0x1000) (drop L3_GRANULE bs))"
  by pat_completeness auto
termination
  by (relation "measure (\<lambda>(_, bs). length bs)") auto

declare pages.simps [simp del]

definition tecs :: "u64 \<Rightarrow> nat \<Rightarrow> (u64 \<times> u64) list" where
  "tecs pc n = (if n = 0 then [] else (pc, 1) # replicate (n - 1) (0, 0))"

definition cvm_params :: "u64 \<Rightarrow> u64 \<Rightarrow> tmi_cvm_create_params" where
  "cvm_params sve pmu =
     \<lparr>cp_flags = (if sve > 0 then 2 else 0) + (if pmu > 0 then 4 else 0), cp_s2sz = 40,
      cp_sve_vl = sve div 128, cp_num_bps = 0, cp_num_wps = 0, cp_pmu_num_cnts = pmu,
      cp_measurement_algo = 0\<rparr>"

definition rim_spec :: "(bytes \<Rightarrow> bytes) \<Rightarrow> u64 \<Rightarrow> u64 \<Rightarrow> (u64 \<times> bytes) list \<Rightarrow> u64 \<Rightarrow> nat \<Rightarrow> bytes" where
  "rim_spec H sve pmu mem pc n =
     fold (extend_tec H) (tecs pc n)
       (fold (extend_data H) (concat (map (\<lambda>(ipa, bs). pages ipa bs) mem))
         (H (tmi_measure_cvm (cvm_params sve pmu))))"

definition hex_upper :: "bytes \<Rightarrow> string" where
  "hex_upper bs = concat (map (\<lambda>b. [hexDigits ! (unat b div 16), hexDigits ! (unat b mod 16)]) bs)"

text \<open>What the program relies on of OpenSSL: SHA-256 never fails and has 32 bytes.\<close>

definition evp_ok :: "(bytes \<Rightarrow> bytes) \<Rightarrow> evp \<Rightarrow> bool" where
  "evp_ok H evp = (md_ctx_ok evp \<and> (\<forall>data. digest evp HASH_ALGO_SHA256 data = Some (H data)
     \<and> length (H data) = 32))"

definition rim_state :: "bytes \<Rightarrow> cvm_init_measure" where
  "rim_state r = \<lparr>measurement_algo = HASH_ALGO_SHA256, rim = pad64 r\<rparr>"

lemma length_digest: "evp_ok H evp \<Longrightarrow> length (H data) = 32"
  by (simp add: evp_ok_def)

lemma do_hash_ok:
  assumes "evp_ok H evp" "length buf = 64" "drop 32 buf = replicate 32 0"
  shows "do_hash evp HASH_ALGO_SHA256 data buf = Some (0, pad64 (H data))"
  using assms length_digest [OF assms(1), of data]
  by (simp add: do_hash_def evp_ok_def mem_write_def pad64_def)

lemma length_pad64: "length r = 32 \<Longrightarrow> length (pad64 r) = 64"
  by (simp add: pad64_def)

lemma drop_pad64: "length r = 32 \<Longrightarrow> drop 32 (pad64 r) = replicate 32 0"
  by (simp add: pad64_def)

lemma rim_member_state: "length r = 32 \<Longrightarrow> rim_member (rim_state r) = Some (pad64 r)"
  by (simp add: rim_member_def rim_state_def measurement_get_size_def mem_read_def mem_write_def pad64_def)

lemma do_hash_zeros:
  "evp_ok H evp \<Longrightarrow> do_hash evp HASH_ALGO_SHA256 data (replicate 64 0) = Some (0, pad64 (H data))"
  by (rule do_hash_ok) simp_all

lemma do_hash_state:
  "evp_ok H evp \<Longrightarrow> length r = 32 \<Longrightarrow>
   do_hash evp HASH_ALGO_SHA256 data (pad64 r) = Some (0, pad64 (H data))"
  by (rule do_hash_ok) (simp_all add: length_pad64 drop_pad64)

lemmas measure_simps = rim_member_state do_hash_zeros do_hash_state

lemma tec_params_bytes:
  "tmi_tec_params (tec_params pc i) =
   replicate 64 0 @ word_bytes (if i = 0 then pc else 0) @ word_bytes (if i = 0 then 1 else 0 :: u64)"
proof -
  have z: "concat (replicate 8 (word_bytes (0 :: u64))) = replicate 64 0" by code_simp
  have b: "set_bit64 0 0 = 1" by code_simp
  show ?thesis by (simp add: tmi_tec_params_def tec_params_def z b)
qed

lemma measure_tmi_tec_create_ok:
  assumes "evp_ok H evp" "length r = 32"
  shows "measure_tmi_tec_create evp (rim_state r) (tec_params pc i) =
    Some (rim_state (extend_tec H (if i = 0 then (pc, 1) else (0, 0)) r))"
proof -
  have a: "measurement_algo (rim_state r) = 0" "rim (rim_state r) = pad64 r"
    "rim_state r\<lparr>rim := pad64 x\<rparr> = rim_state x" for x by (simp_all add: rim_state_def)
  show ?thesis using assms
    by (simp add: measure_tmi_tec_create_def measure_simps a extend_tec_def tec_params_bytes)
qed

lemma foldM_state:
  assumes "\<And>x r. x \<in> set xs \<Longrightarrow> length r = 32 \<Longrightarrow> f x (st r) = Some (st (g x r)) \<and> length (g x r) = 32"
    and "length r = 32"
  shows "foldM f xs (st r) = Some (st (fold g xs r)) \<and> length (fold g xs r) = 32"
  using assms
proof (induction xs arbitrary: r)
  case (Cons x xs)
  then have "f x (st r) = Some (st (g x r))" "length (g x r) = 32" by auto
  then show ?case using Cons.IH [of "g x r"] Cons.prems(1) by simp
qed simp

lemma tecs_map: "tecs pc n = map (\<lambda>i. if i = 0 then (pc, 1) else (0, 0)) [0..<n]"
proof (cases n)
  case (Suc m)
  have "map (\<lambda>i. if i = 0 then (pc, 1) else (0, 0)) [Suc 0..<Suc m] = replicate m (0, 0 :: u64)"
    by (rule nth_equalityI) (auto simp del: upt_Suc)
  then show ?thesis using Suc by (simp add: tecs_def upt_conv_Cons del: upt_Suc)
qed (simp add: tecs_def)

lemma measure_create_tecs_ok:
  assumes "evp_ok H evp" "length r = 32"
  shows "measure_create_tecs evp (rim_state r) pc n =
    Some (rim_state (fold (extend_tec H) (tecs pc (unat n)) r)) \<and>
    length (fold (extend_tec H) (tecs pc (unat n)) r) = 32"
  unfolding measure_create_tecs_def tecs_map fold_map comp_def
  by (rule foldM_state)
    (use assms in \<open>auto simp: measure_tmi_tec_create_ok extend_tec_def length_digest [OF assms(1)]\<close>)


lemma pages_map:
  "pages ipa bs = map (\<lambda>i. (ipa + of_nat (i * L3_GRANULE), take L3_GRANULE (drop (i * L3_GRANULE) bs)))
     [0..<length bs div L3_GRANULE]"
proof (induction ipa bs rule: pages.induct)
  case (1 ipa bs)
  show ?case
  proof (cases "length bs < L3_GRANULE")
    case True
    then show ?thesis by (subst pages.simps) simp
  next
    case False
    let ?n = "length (drop L3_GRANULE bs) div L3_GRANULE"
    let ?f = "\<lambda>i. (ipa + of_nat (i * L3_GRANULE), take L3_GRANULE (drop (i * L3_GRANULE) bs))"
    have n: "length bs div L3_GRANULE = Suc ?n"
      using False by (simp add: le_div_geq)
    have "pages (ipa + 0x1000) (drop L3_GRANULE bs) = map (?f \<circ> Suc) [0..<?n]"
      using 1 [OF False] by (simp add: add.commute add.left_commute)
    then have "pages ipa bs = ?f 0 # map (?f \<circ> Suc) [0..<?n]"
      using False by (subst pages.simps) simp
    also have "\<dots> = map ?f [0..<Suc ?n]"
      by (simp only: map_upt_Suc) simp
    finally show ?thesis by (simp only: n)
  qed
qed

lemma read_page:
  assumes "length (blob_data b) = blob_size b" "i < blob_size b div L3_GRANULE"
  shows "mem_read (drop (i * L3_GRANULE) (blob_data b)) 0 L3_GRANULE =
    Some (take L3_GRANULE (drop (i * L3_GRANULE) (blob_data b)))"
proof -
  have "Suc i * L3_GRANULE \<le> blob_size b" using assms(2)
    by (metis Suc_leI div_times_less_eq_dividend le_trans mult_le_mono1)
  then show ?thesis using assms(1) by (simp add: mem_read_def)
qed

lemma measure_tmi_data_create_ok:
  assumes "evp_ok H evp" "length r = 32" "length (blob_data b) = blob_size b"
    "i < blob_size b div L3_GRANULE"
  shows "measure_tmi_data_create evp (rim_state r) (page_params b i) =
    Some (rim_state (extend_data H (guest_start b + of_nat (i * L3_GRANULE),
            take L3_GRANULE (drop (i * L3_GRANULE) (blob_data b))) r))"
proof -
  have a: "measurement_algo (rim_state r) = 0" "rim (rim_state r) = pad64 r"
    "rim_state r\<lparr>rim := pad64 x\<rparr> = rim_state x" for x by (simp_all add: rim_state_def)
  have b: "set_bit64 0 0 = 1" "unat (of_nat L3_GRANULE :: u64) = L3_GRANULE" by code_simp+
  note read_page [OF assms(3,4)]
  then show ?thesis using assms(1,2)
    by (simp add: measure_tmi_data_create_def measure_simps a b page_params_def extend_data_def)
qed

lemma fold_concat: "fold f (concat xss) = fold (fold f) xss"
  by (induction xss) auto

lemma measure_rim_blobs_ok:
  assumes "evp_ok H evp" "length r = 32" "\<forall>b \<in> set bs. length (blob_data b) = blob_size b"
  shows "measure_rim_blobs evp (rim_state r) bs =
    Some (rim_state (fold (extend_data H) (concat (map (\<lambda>b. pages (guest_start b) (blob_data b)) bs)) r)) \<and>
    length (fold (extend_data H) (concat (map (\<lambda>b. pages (guest_start b) (blob_data b)) bs)) r) = 32"
  unfolding measure_rim_blobs_def fold_concat fold_map comp_def
proof (rule foldM_state [OF _ assms(2)])
  fix b r assume b: "b \<in> set bs" and r: "length (r :: bytes) = 32"
  show "foldM (\<lambda>i meas. measure_tmi_data_create evp meas (page_params b i)) [0..<blob_size b div L3_GRANULE]
      (rim_state r) = Some (rim_state (fold (extend_data H) (pages (guest_start b) (blob_data b)) r)) \<and>
      length (fold (extend_data H) (pages (guest_start b) (blob_data b)) r) = 32"
    unfolding pages_map fold_map comp_def using assms(3) b
    by (simp, intro foldM_state [OF _ r])
      (auto simp: measure_tmi_data_create_ok [OF assms(1)] extend_data_def length_digest [OF assms(1)])
qed

lemma cvm_flags:
  "measure_create_cvm evp meas False (sve > 0) (pmu > 0) 40 (if sve > 0 then sve div 128 else 0) 0 0 pmu 0 =
   measure_tmi_cvm_create evp meas (cvm_params sve pmu)"
proof -
  have f: "clear_bit64 0 0 = 0" "clear_bit64 0 1 = 0" "set_bit64 0 1 = 2" "clear_bit64 0 2 = 0"
    "clear_bit64 2 2 = 2" "set_bit64 0 2 = 4" "set_bit64 2 2 = 6" by code_simp+
  have z: "sve div 128 = 0" if "\<not> 0 < sve" using that by (simp add: word_gt_0)
  show ?thesis using z f by (auto simp: measure_create_cvm_def cvm_params_def Let_def)
qed

lemma hex_upper_digits:
  "unat (drop_bit 4 b) mod 16 = unat b div 16" "unat (b AND 0x0F) = unat b mod 16" for b :: u8
proof -
  have m: "(0x0F :: u8) = mask 4" by code_simp
  have t: "unat (take_bit 4 w) = unat w mod 16" for w :: u8
    by (simp only: unsigned_take_bit_eq) (simp add: take_bit_eq_mod)
  have "unat b < 256" using unat_bound [of b] by simp
  moreover have "unat (drop_bit 4 b) = unat b div 16"
    by (simp only: unat_drop_bit_eq) (simp add: drop_bit_eq_div)
  ultimately show "unat (drop_bit 4 b) mod 16 = unat b div 16" "unat (b AND 0x0F) = unat b mod 16"
    by (simp_all only: m take_bit_eq_mask [symmetric] t) simp
qed

lemma print_hash_state:
  "length r = 32 \<Longrightarrow> print_hash (pad64 r) HASH_ALGO_SHA256 = Some (''HASH: '' @ hex_upper r @ [CHR 0x0A])"
  unfolding print_hash_def print_data_def hex_upper_digits
  by (simp add: mem_read_def pad64_def hex_upper_def)

lemma generate_rim_reference_eq:
  assumes "evp_ok H evp" "\<forall>b \<in> set bs. length (blob_data b) = blob_size b"
  shows "generate_rim_reference evp tec_num sve pmu bs use_firmware =
    Some (''RIM-HASH: ''
      @ hex_upper (rim_spec H sve pmu (map (\<lambda>b. (guest_start b, blob_data b)) bs)
          (if use_firmware then 0 else LOADER_START_ADDR) (unat (ucast tec_num :: u32)))
      @ [CHR 0x0A])"
proof -
  let ?c = "H (tmi_measure_cvm (cvm_params sve pmu))"
  let ?pc = "if use_firmware then 0 else LOADER_START_ADDR"
  have c: "measure_tmi_cvm_create evp \<lparr>measurement_algo = 0, rim = replicate 64 0\<rparr> (cvm_params sve pmu) =
      Some (rim_state ?c)"
    using do_hash_zeros [OF assms(1)]
    by (simp add: measure_tmi_cvm_create_def cvm_params_def rim_state_def)
  note d = measure_rim_blobs_ok [OF assms(1) length_digest [OF assms(1)] assms(2)]
  note t = measure_create_tecs_ok [OF assms(1) d [THEN conjunct2], of _ ?pc "ucast tec_num"]
  have m: "concat (map (\<lambda>(ipa, bs). pages ipa bs) (map (\<lambda>b. (guest_start b, blob_data b)) bs)) =
      concat (map (\<lambda>b. pages (guest_start b) (blob_data b)) bs)" by (simp add: comp_def)
  have s: "measurement_algo (rim_state r) = 0" "rim (rim_state r) = pad64 r" for r
    by (simp_all add: rim_state_def)
  show ?thesis
    unfolding generate_rim_reference_def Let_def cvm_flags c bind.bind_lunit d [THEN conjunct1]
      t [THEN conjunct1] s print_hash_state [OF t [THEN conjunct2]] rim_spec_def m by simp
qed



section \<open>The memory of a direct kernel boot\<close>

definition padded :: "nat \<Rightarrow> bytes \<Rightarrow> bytes" where
  "padded n c = c @ replicate (n - length c) 0"

text \<open>A file that exists, gets a buffer and fits into it.\<close>

definition loads :: "files \<Rightarrow> string \<Rightarrow> file_type \<Rightarrow> bytes \<Rightarrow> nat \<Rightarrow> bool" where
  "loads fs path type c n = (fs path = Some c \<and> load_size c type = Some n \<and> 0 < n
     \<and> n \<le> FILE_SIZE_MAX \<and> length c \<le> n)"

lemma length_padded [simp]: "length c \<le> n \<Longrightarrow> length (padded n c) = n"
  by (simp add: padded_def)

lemma load_file_data_ok:
  assumes "loads fs path type c n" "malloc_ok n"
  shows "load_file_data malloc_ok fs path type = Some (Some (padded n c, n))"
  using assms by (simp add: loads_def load_file_data_def mem_write_def padded_def)

text \<open>
  A kernel file longer than the size in its header overruns the buffer.
\<close>

lemma load_file_data_overrun:
  assumes "fs path = Some c" "load_size c KERNEL_FILE = Some n" "0 < n" "n \<le> FILE_SIZE_MAX"
    and "n < length c" "malloc_ok n"
  shows "load_file_data malloc_ok fs path KERNEL_FILE = None"
  using assms by (simp add: load_file_data_def mem_write_def)

lemma load_data_to_blobs_ok:
  assumes "loads fs path type c n" "\<And>n. malloc_ok n"
    and "link_blob \<lparr>guest_start = a, blob_data = padded n c, blob_size = n\<rparr> bs = Some cs"
  shows "load_data_to_blobs malloc_ok fs bs path type a =
    Some (cs, Some \<lparr>guest_start = a, blob_data = padded n c, blob_size = n\<rparr>)"
  using assms
  by (simp add: load_data_to_blobs_def load_file_data_ok [where malloc_ok = malloc_ok] add_rim_blob_def)

definition loader_bytes :: "u64 \<Rightarrow> u64 \<Rightarrow> bytes" where
  "loader_bytes kernel_start dtb_start = concat (map word_bytes (bootloader kernel_start dtb_start))"

lemma length_loader_bytes [simp]: "length (loader_bytes k d) = 40"
  by (simp add: loader_bytes_def bootloader_def)

lemma load_loader_to_blobs_ok:
  assumes "\<And>n. malloc_ok n"
    and "link_blob \<lparr>guest_start = a, blob_data = padded L2_GRANULE (loader_bytes k d), blob_size = L2_GRANULE\<rparr> bs
         = Some cs"
  shows "load_loader_to_blobs malloc_ok bs k d a =
    Some (cs, Some \<lparr>guest_start = a, blob_data = padded L2_GRANULE (loader_bytes k d), blob_size = L2_GRANULE\<rparr>)"
proof -
  have "get_bootloader_aarch64 malloc_ok k d = Some (Some (padded L2_GRANULE (loader_bytes k d), L2_GRANULE))"
    using length_loader_bytes [of k d] assms(1)
    by (simp only: get_bootloader_aarch64_def mem_write_def loader_bytes_def padded_def) simp
  then show ?thesis using assms by (simp add: load_loader_to_blobs_def add_rim_blob_def)
qed

text \<open>
  The memory the machine starts with: boot loader, kernel, the initial RAM disk if there is one,
  and behind it the device tree.
\<close>

definition boot_blob :: "u64 \<Rightarrow> nat \<Rightarrow> bytes \<Rightarrow> blob" where
  "boot_blob a n c = \<lparr>guest_start = a, blob_data = padded n c, blob_size = n\<rparr>"

definition initrd_blobs :: "(bytes \<times> nat) option \<Rightarrow> blob list" where
  "initrd_blobs initrd = (case initrd of None \<Rightarrow> [] | Some (c, n) \<Rightarrow> [boot_blob 0x48000000 n c])"

definition dtb_address :: "(bytes \<times> nat) option \<Rightarrow> u64" where
  "dtb_address initrd = 0x48000000 + (case initrd of None \<Rightarrow> 0 | Some (c, n) \<Rightarrow> of_nat n)"

definition kernel_boot_blobs ::
    "bytes \<times> nat \<Rightarrow> (bytes \<times> nat) option \<Rightarrow> bytes \<times> nat \<Rightarrow> blob list" where
  "kernel_boot_blobs kern initrd dtb =
     [boot_blob 0x40000000 L2_GRANULE (loader_bytes 0x40200000 (dtb_address initrd)),
      boot_blob 0x40200000 (snd kern) (fst kern)]
     @ initrd_blobs initrd @ [boot_blob (dtb_address initrd) (snd dtb) (fst dtb)]"

definition initrd_loads :: "files \<Rightarrow> string \<Rightarrow> (bytes \<times> nat) option \<Rightarrow> bool" where
  "initrd_loads fs path initrd = (case initrd of
       None \<Rightarrow> path = []
     | Some (c, n) \<Rightarrow> path \<noteq> [] \<and> loads fs path DEFAULT_FILE c n)"

lemma after_initrd:
  assumes "0 < n" "n \<le> FILE_SIZE_MAX"
  shows "(0x48000000 :: u64) < 0x48000000 + of_nat n"
proof -
  have "unat (of_nat n :: u64) = n" using assms(2) by (simp add: unat_of_nat)
  then have "unat (0x48000000 + of_nat n :: u64) = 0x48000000 + n"
    using assms(2) by (simp add: unat_word_ariths)
  then show ?thesis using assms(1) by (simp add: word_less_nat_alt)
qed

lemma build_kernel_blobs_ok:
  assumes "\<And>n. malloc_ok n" "loads fs (kernel_path_arg args) KERNEL_FILE k nk"
    "initrd_loads fs (initramfs_path args) initrd" "loads fs (dtb_path args) DEFAULT_FILE d nd"
  shows "build_kernel_blobs malloc_ok fs [] args = Some (0, kernel_boot_blobs (k, nk) initrd (d, nd))"
proof -
  have a: "LOADER_START_ADDR + KERNEL_LOAD_OFFSET = 0x40200000"
    "LOADER_START_ADDR + INITRD_LOAD_OFFSET = 0x48000000" by simp_all
  note load = load_data_to_blobs_ok [where malloc_ok = malloc_ok, OF _ assms(1)]
  note loader = load_loader_to_blobs_ok [where malloc_ok = malloc_ok, OF assms(1)]
  note defs = build_kernel_blobs_def Let_def a then_blob_def kernel_boot_blobs_def initrd_blobs_def
    dtb_address_def boot_blob_def
  show ?thesis
  proof (cases initrd)
    case None
    then show ?thesis using assms(3)
      by (simp add: defs loader load [OF assms(2)] load [OF assms(4)] initrd_loads_def)
  next
    case (Some cn)
    obtain c n where cn: "cn = (c, n)" by force
    have i: "initramfs_path args \<noteq> []" "loads fs (initramfs_path args) DEFAULT_FILE c n"
      using assms(3) Some cn by (simp_all add: initrd_loads_def)
    have lt: "(0x48000000 :: u64) < 0x48000000 + of_nat n"
      using i(2) after_initrd by (simp add: loads_def)
    then have lt': "(0x40200000 :: u64) < 0x48000000 + of_nat n" "(0x40000000 :: u64) < 0x48000000 + of_nat n"
      by (rule order.strict_trans [rotated], simp)+
    show ?thesis
      using lt lt' i(1) Some cn
      by (simp add: defs loader load [OF assms(2)] load [OF assms(4)] load [OF i(2)])
  qed
qed


definition memory_of :: "blob list \<Rightarrow> (u64 \<times> bytes) list" where
  "memory_of bs = map (\<lambda>b. (guest_start b, blob_data b)) bs"

lemma kernel_boot_blobs_sizes:
  assumes "length (fst kern) \<le> snd kern" "length (fst dtb) \<le> snd dtb"
    "\<And>c n. initrd = Some (c, n) \<Longrightarrow> length c \<le> n"
  shows "\<forall>b \<in> set (kernel_boot_blobs kern initrd dtb). length (blob_data b) = blob_size b"
  using assms
  by (auto simp: kernel_boot_blobs_def boot_blob_def initrd_blobs_def split: option.splits)

text \<open>
  C5. Started for a direct kernel boot, the generator prints the measurement of exactly the
  memory the machine starts with: its boot loader at 1 GiB, the kernel 2 MiB above, the initial
  RAM disk at 0x48000000 and the device tree behind it, every file filled up with zeros to the
  size it is loaded with, cut into pages in the order of their addresses, and followed by the
  virtual processors, the first one starting at the boot loader. The digest is SHA-256, which
  OpenSSL is relied upon to compute; the files must exist and fit their buffers.
\<close>

theorem gen_rim_main_kernel:
  assumes "evp_ok H evp" "\<And>n. malloc_ok n" "2 \<le> argc" "parse_opts opts no_args = Some (0, args)"
    and "kata_config_path args = []" "pod_config_path args = []" "firmware_path args = []"
    and "kernel_path_arg args \<noteq> []" "dtb_path args \<noteq> []"
    and "loads fs (kernel_path_arg args) KERNEL_FILE k nk"
    and "initrd_loads fs (initramfs_path args) initrd"
    and "loads fs (dtb_path args) DEFAULT_FILE d nd"
  shows "gen_rim_main malloc_ok evp shell qemu_gen fs argc opts =
    Some (0, ''RIM-HASH: '' @ hex_upper (rim_spec H (of_int (sve_vector_length args))
        (of_int (pmu_counter_num args)) (memory_of (kernel_boot_blobs (k, nk) initrd (d, nd)))
        LOADER_START_ADDR (unat (vcpu_num args) mod 2 ^ 32)) @ [CHR 0x0A])"
proof -
  let ?bs = "kernel_boot_blobs (k, nk) initrd (d, nd)"
  have "parse_args argc opts no_args = Some (0, args)" using assms(3,4) by (simp add: parse_args_def)
  moreover have "build_rim_blobs malloc_ok shell qemu_gen fs init_rim_blobs args = Some (0, ?bs, args, fs)"
    using build_kernel_blobs_ok [of malloc_ok, OF assms(2,10-12)] assms(5-9)
    by (simp add: build_rim_blobs_def init_rim_blobs_def)
  moreover have "\<forall>b \<in> set ?bs. length (blob_data b) = blob_size b"
    by (rule kernel_boot_blobs_sizes)
      (use assms(10-12) in \<open>auto simp: loads_def initrd_loads_def\<close>)
  moreover have "unat (ucast (vcpu_num args) :: u32) = unat (vcpu_num args) mod 2 ^ 32"
    by (simp add: unsigned_ucast_eq take_bit_eq_mod)
  ultimately show ?thesis using assms(7)
    by (simp add: gen_rim_main_def generate_rim_reference_eq [OF assms(1)] memory_of_def)
qed

definition toy_digest :: "bytes \<Rightarrow> bytes" where
  "toy_digest m = take 32 (m @ replicate 32 0)"

definition toy_evp :: evp where
  "toy_evp = \<lparr>md_ctx_ok = True, digest = (\<lambda>_ m. Some (toy_digest m))\<rparr>"

definition demo_kernel :: bytes where
  "demo_kernel = replicate 16 0 @ [0, 0x10, 0, 0, 0, 0, 0, 0] @ replicate 32 0 @ [0x41, 0x52, 0x4D, 0x64]
     @ replicate 4 7"

definition boot_files :: files where
  "boot_files = [''Image'' \<mapsto> demo_kernel, ''virt.dtb'' \<mapsto> [0xD0, 0x0D, 0xFE, 0xED], ''initrd'' \<mapsto> [1, 2, 3]]"

definition boot_opts :: "(char \<times> string) list" where
  "boot_opts = [(CHR ''k'', ''Image''), (CHR ''d'', ''virt.dtb''), (CHR ''i'', ''initrd''), (CHR ''v'', ''2''),
     (CHR ''s'', ''256''), (CHR ''m'', ''8'')]"

definition boot_args :: tools_args where
  "boot_args = no_args\<lparr>kernel_path_arg := ''Image'', dtb_path := ''virt.dtb'', initramfs_path := ''initrd'',
     vcpu_num := 2, sve_vector_length := 256, pmu_counter_num := 8\<rparr>"

lemma toy_evp_ok: "evp_ok toy_digest toy_evp"
  by (auto simp: evp_ok_def toy_evp_def toy_digest_def)

lemma boot_opts_parse: "parse_opts boot_opts no_args = Some (0, boot_args)"
  by code_simp

lemma demo_load_size:
  "load_size demo_kernel KERNEL_FILE = Some 4096" "load_size [1, 2, 3] DEFAULT_FILE = Some 2097152"
  "load_size [0xD0, 0x0D, 0xFE, 0xED] DEFAULT_FILE = Some 2097152"
proof -
  have "take 8 (drop 16 demo_kernel) = [0, 0x10, 0, 0, 0, 0, 0, 0]"
    "take 4 (drop 56 demo_kernel) = [0x41, 0x52, 0x4D, 0x64]" by code_simp+
  moreover have "length demo_kernel = 64" by (simp add: demo_kernel_def)
  ultimately show "load_size demo_kernel KERNEL_FILE = Some 4096"
    by (simp add: load_size_def round_up_def word_of_bytes_def)
qed (simp_all add: load_size_def round_up_def)

lemma boot_files_load:
  "loads boot_files ''Image'' KERNEL_FILE demo_kernel 4096"
  "loads boot_files ''initrd'' DEFAULT_FILE [1, 2, 3] 2097152"
  "loads boot_files ''virt.dtb'' DEFAULT_FILE [0xD0, 0x0D, 0xFE, 0xED] 2097152"
  by (simp_all add: loads_def boot_files_def demo_load_size) (simp add: demo_kernel_def)

theorem gen_rim_main_kernel_witness:
  "gen_rim_main (\<lambda>_. True) toy_evp (\<lambda>_ fs. (0, fs)) (\<lambda>_ _. (False, 0, [], [], [])) boot_files 13 boot_opts =
    Some (0, ''RIM-HASH: '' @ hex_upper (rim_spec toy_digest 256 8
      (memory_of (kernel_boot_blobs (demo_kernel, 4096) (Some ([1, 2, 3], 2097152))
         ([0xD0, 0x0D, 0xFE, 0xED], 2097152)))
      LOADER_START_ADDR 2) @ [CHR 0x0A])"
proof -
  have a: "kata_config_path boot_args = []" "pod_config_path boot_args = []" "firmware_path boot_args = []"
    "kernel_path_arg boot_args = ''Image''" "dtb_path boot_args = ''virt.dtb''"
    "initramfs_path boot_args = ''initrd''" "vcpu_num boot_args = 2" "sve_vector_length boot_args = 256"
    "pmu_counter_num boot_args = 8"
    by (simp_all add: boot_args_def no_args_def)
  have i: "initrd_loads boot_files (initramfs_path boot_args) (Some ([1, 2, 3], 2097152))"
    using boot_files_load(2) by (simp add: initrd_loads_def a)
  show ?thesis
    using gen_rim_main_kernel [of toy_digest toy_evp "\<lambda>_. True" 13 boot_opts boot_args boot_files
        demo_kernel 4096 "Some ([1, 2, 3], 2097152)" "[0xD0, 0x0D, 0xFE, 0xED]" 2097152,
        OF toy_evp_ok _ _ boot_opts_parse _ _ _ _ _ _ i] boot_files_load a by simp
qed

text \<open>
  The reference value depends on which blobs are loaded where, not on the order in which
  they are loaded: blobs at distinct addresses can be added in any order, none is refused, the
  list is ordered by address, and the printed value is the same.
\<close>

theorem rim_order_irrelevant:
  assumes "distinct (map guest_start xs)" "mset xs = mset ys"
  shows "\<exists>bs. foldM link_blob xs init_rim_blobs = Some bs \<and> foldM link_blob ys init_rim_blobs = Some bs
    \<and> blobs_ordered bs \<and> set bs = set xs
    \<and> Option.bind (foldM link_blob ys init_rim_blobs) (\<lambda>bs. generate_rim_reference evp n sve pmu bs fw)
      = generate_rim_reference evp n sve pmu bs fw"
proof -
  obtain bs where bs: "foldM link_blob xs [] = Some bs" "foldM link_blob ys [] = Some bs"
    using rim_store.add_order_irrelevant [OF assms] by blast
  moreover obtain cs where "foldM link_blob xs [] = Some cs" "blobs_ordered cs" "set cs = set xs"
    using rim_store.add_all [OF rim_store.invar_new assms(1)] by auto
  ultimately show ?thesis by (auto simp: init_rim_blobs_def)
qed

theorem rim_order_irrelevant_witness:
  "foldM link_blob [boot_blob 0x40200000 4096 [1], boot_blob 0x48000000 4096 [2], boot_blob 0x40000000 4096 [3]] [] =
   foldM link_blob [boot_blob 0x40000000 4096 [3], boot_blob 0x40200000 4096 [1], boot_blob 0x48000000 4096 [2]] []"
proof -
  have d: "distinct (map guest_start [boot_blob 0x40200000 4096 [1], boot_blob 0x48000000 4096 [2],
      boot_blob 0x40000000 4096 [3]])" by (simp add: boot_blob_def)
  have m: "mset [boot_blob 0x40200000 4096 [1], boot_blob 0x48000000 4096 [2], boot_blob 0x40000000 4096 [3]] =
      mset [boot_blob 0x40000000 4096 [3], boot_blob 0x40200000 4096 [1], boot_blob 0x48000000 4096 [2]]"
    by (simp add: add_mset_commute)
  show ?thesis using rim_order_irrelevant [OF d m] unfolding init_rim_blobs_def by metis
qed



section \<open>Blobs are whole pages in the order of addresses\<close>

lemma round_up_dvd:
  assumes "k < 64" shows "2 ^ k dvd unat (round_up x (2 ^ k))"
proof -
  let ?a = "x - 1 OR mask k"
  have "take_bit k ?a = mask k"
    by (rule bit_eqI) (auto simp: bit_simps)
  then have "take_bit k (unat ?a) = unat (mask k :: u64)"
    by (metis unsigned_take_bit_eq)
  moreover have "unat (mask k :: u64) = mask k"
    using assms by (intro bit_eqI) (auto simp: bit_simps)
  ultimately have m: "unat ?a mod 2 ^ k = 2 ^ k - 1"
    by (simp add: take_bit_eq_mod mask_eq_exp_minus_1)
  have "(unat ?a + 1) mod 2 ^ k = (unat ?a mod 2 ^ k + 1) mod 2 ^ k" by (simp only: mod_add_left_eq)
  then have "2 ^ k dvd unat ?a + 1" by (simp add: m dvd_eq_mod_eq_0)
  moreover have "(2 :: nat) ^ k dvd 2 ^ 64" using assms by (intro le_imp_power_dvd) simp
  ultimately have "2 ^ k dvd (unat ?a + 1) mod 2 ^ 64" by (rule dvd_mod)
  moreover have "unat (?a + 1) = (unat ?a + 1) mod 2 ^ 64"
    by (simp only: unat_word_ariths unsigned_1 len_num1 len_bit0) simp
  ultimately show ?thesis by (simp add: round_up_def mask_eq_exp_minus_1)
qed

lemma load_size_pages: "load_size c type = Some n \<Longrightarrow> L3_GRANULE dvd n"
proof (cases type)
  case KERNEL_FILE
  assume "load_size c type = Some n"
  then show ?thesis using KERNEL_FILE
      round_up_dvd [of 12 "word_of_bytes (take 8 (drop 16 c))"] by (auto simp: load_size_def split: if_splits)
next
  case DEFAULT_FILE
  assume "load_size c type = Some n"
  moreover have "L2_GRANULE dvd unat (round_up (of_nat (length c) + 1) 2097152)"
    using round_up_dvd [of 21 "of_nat (length c) + 1"] by simp
  moreover have "L3_GRANULE dvd L2_GRANULE" by simp
  ultimately show ?thesis using DEFAULT_FILE dvd_trans by (auto simp: load_size_def)
qed (auto simp: load_size_def split: if_splits)

definition rim_blob_wf :: "blob \<Rightarrow> bool" where
  "rim_blob_wf b = (length (blob_data b) = blob_size b \<and> 0 < blob_size b \<and> L3_GRANULE dvd blob_size b)"

definition blobs_wf :: "blob_list \<Rightarrow> bool" where
  "blobs_wf bs = (blobs_ordered bs \<and> list_all rim_blob_wf bs)"

lemma blobs_wf_Nil [simp]: "blobs_wf []"
  by (simp add: blobs_wf_def blobs_ordered_def)

lemma add_rim_blob_wf:
  assumes "blobs_wf bs" "rim_blob_wf \<lparr>guest_start = a, blob_data = d, blob_size = n\<rparr>"
  shows "blobs_wf (fst (add_rim_blob malloc_ok bs a d n))"
  using add_rim_blob_fst [of malloc_ok bs a d n] assms set_link_blob
    add_rim_blob_ordered [of bs malloc_ok a d n]
  unfolding blobs_wf_def list_all_iff by (metis insertE)

lemma load_file_data_wf:
  assumes "load_file_data malloc_ok fs path type = Some (Some (d, n))"
  shows "rim_blob_wf \<lparr>guest_start = a, blob_data = d, blob_size = n\<rparr>"
  using assms load_size_pages
  by (auto simp: load_file_data_def rim_blob_wf_def split: option.splits if_splits bind_splits dest!: mem_write_SomeD)

lemma load_blobs_wf:
  assumes "blobs_wf bs"
  shows "load_data_to_blobs malloc_ok fs bs path type a = Some (cs, b) \<Longrightarrow> blobs_wf cs"
    and "load_loader_to_blobs malloc_ok bs k dt a = Some (cs, b) \<Longrightarrow> blobs_wf cs"
proof -
  assume l: "load_data_to_blobs malloc_ok fs bs path type a = Some (cs, b)"
  then obtain r where r: "load_file_data malloc_ok fs path type = Some r"
    by (auto simp: load_data_to_blobs_def split: bind_splits)
  show "blobs_wf cs"
  proof (cases r)
    case None
    then show ?thesis using l r assms by (simp add: load_data_to_blobs_def)
  next
    case (Some dn)
    obtain d n where "dn = (d, n)" by force
    then have w: "load_file_data malloc_ok fs path type = Some (Some (d, n))"
      "cs = fst (add_rim_blob malloc_ok bs a d n)" using l r Some
      by (simp_all add: load_data_to_blobs_def)
    then show ?thesis using add_rim_blob_wf [OF assms load_file_data_wf [OF w(1)]] by blast
  qed
next
  assume l: "load_loader_to_blobs malloc_ok bs k dt a = Some (cs, b)"
  then obtain r where r: "get_bootloader_aarch64 malloc_ok k dt = Some r"
    by (auto simp: load_loader_to_blobs_def split: bind_splits)
  show "blobs_wf cs"
  proof (cases r)
    case None
    then show ?thesis using l r assms by (simp add: load_loader_to_blobs_def)
  next
    case (Some dn)
    obtain d n where "dn = (d, n)" by force
    then have w: "get_bootloader_aarch64 malloc_ok k dt = Some (Some (d, n))"
      "cs = fst (add_rim_blob malloc_ok bs a d n)" using l r Some
      by (simp_all add: load_loader_to_blobs_def)
    have "rim_blob_wf \<lparr>guest_start = a, blob_data = d, blob_size = n\<rparr>"
      using w(1) by (auto simp: get_bootloader_aarch64_def rim_blob_wf_def split: if_splits bind_splits
          dest!: mem_write_SomeD)
    then show ?thesis using add_rim_blob_wf [OF assms] w(2) by blast
  qed
qed

lemma then_blob_wf:
  assumes "then_blob r k = Some (ret, bs)" "\<And>cs b. r = Some (cs, b) \<Longrightarrow> blobs_wf cs"
    and "\<And>cs b. blobs_wf cs \<Longrightarrow> k cs b = Some (ret, bs) \<Longrightarrow> blobs_wf bs"
  shows "blobs_wf bs"
  using assms
  by (auto simp: then_blob_def free_rim_blobs_def split: bind_splits option.splits)

lemma build_kernel_blobs_wf:
  assumes "build_kernel_blobs malloc_ok fs rb args = Some (ret, bs)" "blobs_wf rb" shows "blobs_wf bs"
proof -
  have rest: "blobs_wf bs" if "then_blob (load_data_to_blobs malloc_ok fs cs (dtb_path args) DEFAULT_FILE ds) (\<lambda>bs _.
      then_blob (load_loader_to_blobs malloc_ok bs ks ds ls) (\<lambda>bs _. Some (0, bs))) = Some (ret, bs)"
      "blobs_wf cs" for cs ds ks ls
    using that by (auto elim!: then_blob_wf dest: load_blobs_wf)
  show ?thesis using assms unfolding build_kernel_blobs_def Let_def
    by (auto elim!: then_blob_wf dest: load_blobs_wf rest split: if_splits)
qed

lemma build_firmware_blobs_wf:
  assumes "build_firmware_blobs malloc_ok fs rb args = Some (ret, bs)" "blobs_wf rb" shows "blobs_wf bs"
  using assms unfolding build_firmware_blobs_def by (auto elim!: then_blob_wf dest: load_blobs_wf)

lemma build_coco_blobs_wf:
  assumes "build_coco_blobs malloc_ok shell qemu_gen fs rb args = Some (ret, bs, args', fs')" "blobs_wf rb"
  shows "blobs_wf bs"
  using assms unfolding build_coco_blobs_def Let_def
  by (auto split: prod.splits if_splits bind_splits elim!: then_blob_wf dest: load_blobs_wf)


text \<open>A build that does not succeed returns \<open>-1\<close> and leaves no blob.\<close>

definition build_clean :: "int \<times> blob_list \<Rightarrow> bool" where
  "build_clean = (\<lambda>(ret, bs). ret = 0 \<or> ret = -1 \<and> bs = [])"

lemma then_blob_clean:
  assumes "then_blob r k = Some (ret, bs)" "\<And>cs b. k cs b = Some (ret, bs) \<Longrightarrow> build_clean (ret, bs)"
  shows "build_clean (ret, bs)"
  using assms by (auto simp: then_blob_def build_clean_def free_rim_blobs_def split: bind_splits option.splits)

lemma build_ok_clean: "Some (0, cs) = Some (ret, bs) \<Longrightarrow> build_clean (ret, bs)"
  by (simp add: build_clean_def)

lemma build_blobs_clean:
  "build_kernel_blobs malloc_ok fs rb args = Some (ret, bs) \<Longrightarrow> build_clean (ret, bs)"
  "build_firmware_blobs malloc_ok fs rb args = Some (ret, bs) \<Longrightarrow> build_clean (ret, bs)"
  "build_coco_blobs malloc_ok shell qemu_gen fs rb args = Some (ret, bs, args', fs') \<Longrightarrow> build_clean (ret, bs)"
proof -
  show "build_kernel_blobs malloc_ok fs rb args = Some (ret, bs) \<Longrightarrow> build_clean (ret, bs)"
    unfolding build_kernel_blobs_def Let_def
    by (auto elim!: then_blob_clean intro: build_ok_clean split: if_splits)
  show "build_firmware_blobs malloc_ok fs rb args = Some (ret, bs) \<Longrightarrow> build_clean (ret, bs)"
    unfolding build_firmware_blobs_def by (auto elim!: then_blob_clean intro: build_ok_clean)
  show "build_coco_blobs malloc_ok shell qemu_gen fs rb args = Some (ret, bs, args', fs') \<Longrightarrow> build_clean (ret, bs)"
    unfolding build_coco_blobs_def Let_def
    by (auto split: prod.splits if_splits bind_splits elim!: then_blob_clean intro: build_ok_clean)
qed

text \<open>The three ways of booting the generator accepts.\<close>

definition boot_mode :: "tools_args \<Rightarrow> bool" where
  "boot_mode args =
     (if kata_config_path args = [] \<and> pod_config_path args = []
      then (kernel_path_arg args = [] \<longleftrightarrow> firmware_path args \<noteq> []) \<and> dtb_path args \<noteq> []
      else kata_config_path args \<noteq> [] \<and> pod_config_path args \<noteq> [])"

text \<open>
  C27. Invariant of the list of blobs: whatever the arguments and the files are, the list that
  \<open>build_rim_blobs\<close> leaves is strictly ordered by guest address and every blob is a positive
  number of whole pages that its buffer holds completely. The function returns 0 only for an
  admissible combination of arguments, and otherwise \<open>-1\<close> with an empty list.
\<close>

theorem build_rim_blobs_inv:
  assumes "build_rim_blobs malloc_ok shell qemu_gen fs init_rim_blobs args = Some (ret, bs, args', fs')"
  shows "blobs_wf bs \<and> (if ret = 0 then boot_mode args else ret = -1 \<and> bs = [])"
proof -
  have "blobs_wf bs"
    using assms build_kernel_blobs_wf build_firmware_blobs_wf build_coco_blobs_wf
    by (fastforce simp: build_rim_blobs_def init_rim_blobs_def Let_def split: if_splits bind_splits)
  moreover have "build_clean (ret, bs)"
    using assms build_blobs_clean
    by (fastforce simp: build_rim_blobs_def init_rim_blobs_def Let_def build_clean_def
        split: if_splits bind_splits)
  moreover have "boot_mode args \<or> ret = -1"
    using assms by (auto simp: build_rim_blobs_def boot_mode_def Let_def split: if_splits)
  ultimately show ?thesis by (auto simp: build_clean_def)
qed

theorem build_rim_blobs_inv_witness:
  "blobs_wf (kernel_boot_blobs (demo_kernel, 4096) (Some ([1, 2, 3], 2097152)) ([0xD0, 0x0D, 0xFE, 0xED], 2097152))
   \<and> boot_mode boot_args"
proof -
  have a: "kernel_path_arg boot_args = ''Image''" "dtb_path boot_args = ''virt.dtb''"
    "initramfs_path boot_args = ''initrd''" "kata_config_path boot_args = []" "pod_config_path boot_args = []"
    "firmware_path boot_args = []" by (simp_all add: boot_args_def no_args_def)
  have "build_kernel_blobs (\<lambda>_. True) boot_files [] boot_args =
      Some (0, kernel_boot_blobs (demo_kernel, 4096) (Some ([1, 2, 3], 2097152)) ([0xD0, 0x0D, 0xFE, 0xED], 2097152))"
    by (rule build_kernel_blobs_ok) (simp_all add: a initrd_loads_def boot_files_load)
  then have "build_rim_blobs (\<lambda>_. True) (\<lambda>_ fs. (0, fs)) (\<lambda>_ _. (False, 0, [], [], [])) boot_files
      init_rim_blobs boot_args = Some (0, kernel_boot_blobs (demo_kernel, 4096) (Some ([1, 2, 3], 2097152))
        ([0xD0, 0x0D, 0xFE, 0xED], 2097152), boot_args, boot_files)"
    by (simp add: build_rim_blobs_def init_rim_blobs_def a)
  from build_rim_blobs_inv [OF this] show ?thesis by simp
qed


section \<open>Failures that go unnoticed\<close>

text \<open>
  The number of processors is unsigned, so its test only refuses 0; and a digest that fails
  leaves the measurement as it was, which is then printed as if it were the value.
\<close>

lemma vcpu_negative_accepted:
  "parse_opts [(CHR ''v'', ''-1'')] no_args = Some (0, no_args\<lparr>vcpu_num := 0xFFFFFFFFFFFFFFFF\<rparr>)"
  by code_simp

lemma foldM_const: "(\<And>x. x \<in> set xs \<Longrightarrow> f x s = Some s) \<Longrightarrow> foldM f xs s = Some s"
  by (induction xs) auto

lemma digest_failure_printed:
  assumes "\<not> md_ctx_ok evp \<or> (\<forall>data. digest evp HASH_ALGO_SHA256 data = None)"
    and "\<forall>b \<in> set bs. length (blob_data b) = blob_size b"
  shows "generate_rim_reference evp n sve pmu bs fw =
    Some (''RIM-HASH: '' @ hex_upper (replicate 32 0) @ [CHR 0x0A])"
proof -
  let ?m = "\<lparr>measurement_algo = 0, rim = replicate 64 0\<rparr>"
  have h: "\<exists>r. do_hash evp 0 data buf = Some (r, buf)" for data buf
    using assms(1) by (auto simp: do_hash_def)
  have z: "replicate 32 0 @ replicate 32 0 = (replicate 64 0 :: bytes)" by (simp flip: replicate_add)
  have r: "rim_member ?m = Some (replicate 64 0)"
    using rim_member_state [of "replicate 32 0"] by (simp add: rim_state_def pad64_def z)
  have t: "measure_tmi_tec_create evp ?m p = Some ?m" for p
    using h [of "tmi_tec_params p" "replicate 64 0"]
      h [of "tmi_measure_tec (replicate 64 0) (replicate 64 0)" "replicate 64 0"]
    by (auto simp: measure_tmi_tec_create_def r)
  have d: "measure_tmi_data_create evp ?m (page_params b i) = Some ?m"
    if "length (blob_data b) = blob_size b" "i < blob_size b div L3_GRANULE" for b i
  proof -
    have u: "unat (of_nat L3_GRANULE :: u64) = L3_GRANULE" "set_bit64 0 0 = 1" by code_simp+
    note pg = read_page [OF that]
    then obtain pg where "mem_read (drop (i * L3_GRANULE) (blob_data b)) 0 L3_GRANULE = Some pg" by blast
    then show ?thesis
      using h [of pg "replicate 64 0"] h [of "tmi_measure_data (replicate 64 0) (dp_ipa (page_params b i))
          1 (replicate 64 0)" "replicate 64 0"]
      by (auto simp: measure_tmi_data_create_def r u page_params_def)
  qed
  have c: "measure_tmi_cvm_create evp ?m (cvm_params sve pmu) = Some ?m"
    using h [of "tmi_measure_cvm (cvm_params sve pmu)" "replicate 64 0"]
    by (auto simp: measure_tmi_cvm_create_def cvm_params_def)
  have b: "measure_rim_blobs evp ?m bs = Some ?m"
    unfolding measure_rim_blobs_def by (intro foldM_const) (use d assms(2) in simp)
  have s: "measure_create_tecs evp ?m pc (ucast n) = Some ?m" for pc
    unfolding measure_create_tecs_def by (intro foldM_const) (simp add: t)
  have p: "print_hash (replicate 64 0) 0 = Some (''HASH: '' @ hex_upper (replicate 32 0) @ [CHR 0x0A])"
    using print_hash_state [of "replicate 32 0"] by (simp add: pad64_def z)
  show ?thesis
    unfolding generate_rim_reference_def Let_def cvm_flags c bind.bind_lunit b s using p by simp
qed

end
