(* ===== verification/Spec2Isabelle.thy ===== *)
theory Spec2Isabelle
  imports Dump_Command Host_Integrity Image_Key Measure_Pe Programs Rim_Ref
begin

text \<open>
  Verification of the virtCCA SDK: attestation of confidential VMs, their reference values, and the
  migration of a VM between hosts.

  \<^bold>\<open>The program.\<close> \<open>src/attestation\<close> holds the attestation SDK (\<open>sdk/src/attestation.c\<close>, a thin layer
  over the TSI driver of a confidential VM) and a pair of sample programs under \<open>samples/src\<close>.
  The attester (\<open>server.c\<close>) runs in the VM: it answers requests for the device certificate, the
  attestation token, the ACPI table and the firmware event log, and stores a disk key after a
  positive verdict. The relying party (\<open>client.c\<close>) sends a nonce, receives these, parses and
  validates the token (\<open>token_parse.c\<close>, \<open>token_validate.c\<close>, \<open>platform_verify.c\<close>), replays the event
  log (\<open>binary_blob.c\<close>, \<open>rem.c\<close>, \<open>event_log.c\<close>), extracts the measured boot
  (\<open>firmware_state.c\<close>), compares it with reference values (\<open>verify.c\<close>), and releases the key.
  The reference values come from the generator under \<open>rim_ref\<close> (the initial measurement of a VM) and
  from \<open>cvm-image-rewriter/measure_pe.c\<close> (the digest of a boot image); \<open>image_key\<close> derives disk keys.

  To migrate a VM, an agent in the guest (\<open>src/migcvm-agent\<close>) is told by the host over a control channel
  to connect to the agent of the destination; it attests the destination with a copy of the code
  above, hands the migration key over, and both start a thread that checks the integrity of the
  migrated memory with the security monitor. An agent on the host (\<open>src/virtcca-mig-agent\<close>) does the same
  between hosts, with certificates instead of attestation.

  \<^bold>\<open>Theories and what they model.\<close>
  \<^item> \<open>Prelude\<close>: C integers, \<open>size_t\<close> arithmetic with its wrap-around, bounds-checked memory,
    little-endian numbers, \<open>strstr\<close>, \<open>strchr\<close>, \<open>strncmp\<close>, folds of fallible steps.
  \<^item> \<open>Binary_Blob\<close> (\<open>binary_blob.c\<close>): the cursor reads. The locale of typed reads states what
    every reader promises (value and cursor inside, zero and unmoved cursor outside) and is
    interpreted for the 8, 16, 32 and 64-bit reads.
  \<^item> \<open>Rem\<close> (\<open>rem.c\<close>, \<open>update_rem\<close>): the registers; the locale \<open>register_bank\<close> with its run of
    extensions, interpreted on the register array.
  \<^item> \<open>Event_Log\<close> (\<open>event_log.c\<close>): one entry, and the walks over a log. \<open>Event_Codec\<close>: the events a
    firmware writes, their encoding, that the parser reads back what was written, its memory
    safety on arbitrary bytes, and the inputs on which it leaves its buffers or never ends.
    \<open>Event_Replay\<close>: \<open>event_log_replay\<close> as runs of the register bank.
  \<^item> \<open>Firmware_State\<close> (\<open>firmware_state.c\<close>): the extraction and its refinement of an abstract view
    of the boot.
  \<^item> \<open>Utils\<close> (\<open>utils.c\<close>) and \<open>Verify\<close> (\<open>verify.c\<close>): hexadecimal text, files, the JSON reader,
    comparison of registers and of a firmware state with the reference values.
  \<^item> \<open>Token_Parse\<close>, \<open>Token_Validate\<close>, \<open>Platform_Verify\<close>: the token parser and printer, the
    signature verdict with certificates, key binding and signature conversion, the software
    components.
  \<^item> \<open>Sdk_Attestation\<close> (\<open>attestation.c\<close>), \<open>Socket\<close>, \<open>Sample_Client\<close> (\<open>client.c\<close>) and
    \<open>Sample_Server\<close> (\<open>server.c\<close>): the SDK calls and the two protocol handlers. \<open>Sample_Main\<close>: the
    options and \<open>main\<close> of both programs, the addresses they read, and a session of the two.
  \<^item> \<open>Dump_Text\<close>: what is printed of a log and of a firmware state (\<open>event_log_process\<close>,
    \<open>binary_blob_dump\<close>, \<open>firmware_log_state_print\<close>). \<open>Dump_Command\<close>: the command \<open>-e\<close> of the client
    with all it prints.
  \<^item> \<open>Gen_Dtb\<close> (\<open>gen_dtb.c\<close>) and \<open>Rim_Ref\<close> (\<open>gen_rim_ref.c\<close>): rewriting the QEMU command, loading the files
    of a boot into blobs ordered by address, and the hash chain over them.
  \<^item> \<open>Measure_Pe\<close> (\<open>measure_pe.c\<close>) and \<open>Image_Key\<close> (\<open>image_key.c\<close>).
  \<^item> \<open>Ima_Measure\<close> (\<open>ima_measure.c\<close>), \<open>Mig_Attest\<close> (what the guest agent's copy of the attestation code
    changes, and the verification callback), \<open>Mig_Tsi\<close> (\<open>migcvm_tsi.c\<close>), \<open>Rats_Tls\<close>
    (\<open>rats_tls_handler.c\<close>: both ends of the handover), \<open>Socket_Agent\<close> (\<open>host_socket_agent.c\<close>) and
    \<open>Mig_Agent\<close> (\<open>migcvm-agent.c\<close>, \<open>host_server_ip.c\<close>). The locale \<open>session_log\<close> says what a session records
    of what is sent; the order of the messages is proved in it.
  \<^item> \<open>Rats_Stream\<close>: the locale \<open>byte_stream\<close> of sessions that move parts of what they are asked to, in
    which the transfer loops are proved; it is interpreted for the guest's and for the host's session.
  \<^item> \<open>Integrity_Queue\<close>, \<open>Slave_Threads\<close>, \<open>Io_Thread\<close> (\<open>integrity_check_handler.c\<close> of the guest): the queue
    shared with the monitor and the loop; the helper threads as steps of an interleaving, with
    reachable states and their invariant; set-up and clean-up.
  \<^item> \<open>Host_Tls\<close> (\<open>tls_core.c\<close>, \<open>tmi.c\<close>), \<open>Host_Mig\<close> (\<open>mig_thread.c\<close>, \<open>main.c\<close>) and \<open>Host_Integrity\<close>
    (\<open>integrity_check_handler.c\<close>): the agent on the host. \<open>Programs\<close>: \<open>main\<close> of both migration agents,
    the listeners and the threads of the guest's, and the remaining ways it finds an address.
  \<^item> This theory: the properties that span components.

  \<^bold>\<open>How the model reads.\<close> Each C function is one definition with the source's name; where two programs
  share a name, the one of the guest agent starts with \<open>mig\<close> and the one of the host agent with
  \<open>host\<close>. Long functions are cut at their blocks, and each block is a definition of its own. C
  structures are records, pointers that may be NULL are options. A function that can leave a buffer,
  follow a NULL pointer, use or free an unset or freed pointer, read an unset variable or not return
  has an option as its result: \<^term>\<open>None\<close> is that case, and everything the C code returns, errors
  included, is under \<^term>\<open>Some\<close>. Loops over lists and counters are recursive functions with a
  termination proof; the loops that may run for ever (the walks over a log, the claim loops, the
  servers, the integrity threads) are partial functions in the option type, so no fuel is needed, and
  that they return is proved where it holds. Where a loop of the integrity threads can go on for ever
  without leaving its memory, coinductive predicates (\<open>recv_runs_on\<close>, \<open>send_runs_on\<close>, \<open>room_runs_on\<close>,
  \<open>io_runs_on\<close>) tell that \<^term>\<open>None\<close> from an access that goes wrong: a run ends in shape or satisfies
  the predicate, in which every step is defined. Threads that share memory are step relations. Integers are
  kept at their width where the source can overflow them (the digest allocation, event sizes,
  \<open>size_t\<close> positions, queue offsets). \<open>malloc\<close> is a parameter that decides each allocation; theorems
  that need memory say so. Pointers to a caller's own local variables are not tested for NULL in the
  model.

  \<^bold>\<open>Parameters.\<close> Code outside the repository is an argument: the CBOR decoder QCBOR (record
  \<open>qcbor\<close>), OpenSSL and t_cose (records \<open>crypto\<close>, \<open>evp_md\<close> and, for the host's sessions, \<open>openssl\<close>),
  SHA-256 (\<open>sha_fun\<close>), rats-tls (\<open>rats\<close>), the drivers (\<open>tsi_device\<close>, \<open>mig_io\<close>, \<open>tmi\<close>), the monitor and
  the polls (\<open>io_ops\<close>), the file system (a finite map), sockets, the shell. What is assumed of them is a
  hypothesis of the theorem that needs it: \<open>sha_ok\<close> (digests have 32 bytes), \<open>tsi_device_ok\<close> (reported
  sizes fit), \<open>yields\<close> (the decoder delivers the items of a well-formed input in order),
  \<open>openssl_verifies\<close> (a completed handshake asked the callback about every certificate), \<open>tmi_ok\<close> (the
  device keeps keys by guest), \<open>ops_wf\<close> (the monitor keeps the size of the queue), \<open>rt_within\<close> (the library writes at most what it
  was asked for). Where the samples ignore what \<open>write\<close> returns, the model writes whole; where they look at
  it, the number of bytes taken is a parameter (\<open>v_sent\<close>). The witnesses
  instantiate them with concrete functions.

  \<^bold>\<open>What is shown.\<close> The relying party releases the key only after a successful verification bound
  to its nonce and the configured measurement; a successful verification ties the registers of
  the token to the received log, and the log to the reference values. The parser reads back
  every well-formed log and every CVM token, replay computes the hash chains, extraction
  implements the abstract view, the verifier decides acceptance exactly, both ends of the
  transport agree, and the attester writes nothing but the key file. Run against each other over
  the sockets, the two programs transfer the key, and the options on their command lines reach the
  verification as the usage text says. The dump of a log shows every event at its address, the
  registers they add up to and the boot they describe. The generator prints the hash
  chain of its specification, and the digest of an image covers all of it but the parts that are left
  out. The source of a migration sends the messages with the keys only after the destination was
  attested on the same session. What the handshake itself sends is not part of this: the source
  registers all its arguments, the keys in them, as a claim for it (\<open>client_conf\<close>), and the static
  copy that is made for this, \<open>p_static\<close> in the model, keeps them. The destination stores a key only
  for a guest bound to it, and exactly the one it received; the agent reports success only after a
  handover, and a key that is handed over arrives. The callback of the guest's agent compares with the value
  of \<open>-r\<close>, else with the measurement in its own token, else, when it has none, with zeros. The agent
  starts integrity threads only for requests it acknowledged. On the host the device is reached only by peers with trusted
  certificates. Frames cross the integrity channel unchanged and never leave the shared memory, the
  helper threads end in every interleaving, and the thread gives everything back unless its loop goes
  on for ever. A second group
  states what the code does on inputs where it goes wrong: the certificate chain and, for tokens
  without a platform part, the signature have no influence on the verdict, a digest count can
  overflow its allocation, trailing bytes keep the walk from ending, a failed handshake makes the host
  agent free a session twice, a disk key longer than 4096 bytes is stored cut off, helpers can outlive the memory they use, and others.

  \<^bold>\<open>Not modelled.\<close> The messages about failed calls and reads, freeing of memory that is not used again, and the clock
  of the diagnostic ring. \<open>getopt_long\<close> is an argument: the programs are run on the options it delivers. The guest agent's copies of
  \<open>event_log.c\<close>, \<open>firmware_state.c\<close>, \<open>verify.c\<close>, \<open>platform_verify.c\<close>, \<open>binary_blob.c\<close> and \<open>rem.c\<close> are the
  code of the samples, which is modelled once; what they change is in \<open>Mig_Attest\<close>. \<open>cJSON.c\<close> is a
  third-party library. The MPC demos (C++), the key distribution (Rust), the deployment service
  (Python), and the patches and scripts for Kata, images and SR-IOV are other programs.
\<close>

section \<open>Properties that span components\<close>

lemma firmware_verdict_enc:
  assumes init: "event_log_init (Some (enc_log evs @ t)) base = Some log"
    and evs: "list_all ev_ok evs" "list_all spec_id_ok evs" "length evs < 2 ^ 32"
    and t: "log_end t" "length (enc_log evs @ t) < 2 ^ 64"
    and m: "\<And>n. malloc_ok n" and st: "firmware_log_state_create malloc_ok = Some st"
    and json: "parse_json_file malloc_ok json zero_reference = (True, ref)"
  shows "\<exists>st'. firmware_log_state_extract malloc_ok (log_blob log) st = Some (True, st') \<and>
     verify_firmware_state malloc_ok json st' = Some (accepts ref (view_of (map entry_of evs)))"
proof -
  have es: "log_entries malloc_ok (log_blob log) 0 = Some (map entry_of evs)"
    using log_entries_enc_log [OF init_blob_at(1) [OF init t(2)] t(1) evs(1) m] .
  have ok: "list_all entry_ok (map entry_of evs)"
    using evs by (auto simp: list_all_iff intro!: entry_of_ok)
  obtain st' where "firmware_log_state_extract malloc_ok (log_blob log) st = Some (True, st')"
      "holds_view st' (view_of (map entry_of evs))"
    using firmware_log_state_extract_refines [OF es ok _ m st] evs(3) by auto
  then show ?thesis using verify_firmware_state_iff [OF json _ view_of_wf [OF ok]] by blast
qed

text \<open>
  C6. End to end: suppose \<open>verify_token\<close> with firmware verification succeeds and the received log file
  encodes well-formed events. Then the four register claims of the signed token are the hash
  chains of the events of that log, and, when a reference file is configured, it parses and the
  boot the log describes is one it accepts.
\<close>

theorem attestation_binds_boot_log:
  assumes v: "verify_token env cfg fs chal raw = Some (VERIFY_SUCCESS, fs')" and fw: "cfg_use_firmware cfg"
    and logf: "read_file_data_binary (e_malloc env) (e_io env) fs' CCEL_EVENT_LOG_PATH = Some (enc_log evs @ t)"
    and evs: "list_all ev_ok evs" "list_all spec_id_ok evs" "length evs < 2 ^ 32"
    and t: "log_end t" "length (enc_log evs @ t) < 2 ^ 64"
    and m: "\<And>n. e_malloc env n" and sha: "sha_ok (e_sha env)"
  shows "\<exists>tok. parse_cca_attestation_token (e_malloc env) (e_qcbor env) wild_token raw = Some (VIRTCCA_SUCCESS, tok) \<and>
     rem_claim (cvm_token tok) = map (\<lambda>i. QBuf (rem_data (foldl (update_rem (e_sha env)) \<lparr>rem_data = replicate 32 0\<rparr>
        (concat (map (event_extends i) evs))))) [0..<REM_COUNT] \<and>
     (\<forall>json. cfg_ref_json_file cfg = Some json \<longrightarrow> (\<exists>ref.
        parse_json_file (e_malloc env) (read_text_file (e_malloc env) (e_io env) fs' json) zero_reference = (True, ref) \<and>
        accepts ref (view_of (map entry_of evs))))"
proof -
  obtain tok where tok: "parse_cca_attestation_token (e_malloc env) (e_qcbor env) wild_token raw = Some (VIRTCCA_SUCCESS, tok)"
    "verify_firmware env cfg fs' tok = Some VERIFY_SUCCESS"
    by (rule verify_token_success [OF v]) (use fw in blast)
  obtain data log log' where d: "read_file_data_binary (e_malloc env) (e_io env) fs' CCEL_EVENT_LOG_PATH = Some data"
    "event_log_init (Some data) 0 = Some log"
    "event_log_replay (e_malloc env) (e_sha env) log = Some (True, log')"
    "rem_claim (cvm_token tok) = map (\<lambda>r. QBuf (rem_data r)) (log_rems log')"
    "\<And>json. cfg_ref_json_file cfg = Some json \<Longrightarrow>
       \<exists>st st'. firmware_log_state_create (e_malloc env) = Some st \<and>
         firmware_log_state_extract (e_malloc env) (log_blob log) st = Some (True, st') \<and>
         verify_firmware_state (e_malloc env) (read_text_file (e_malloc env) (e_io env) fs' json) st' = Some True"
    by (rule verify_firmware_rems [OF tok(2) sha parsed_rem_length [OF tok(1)]]) blast
  have init: "event_log_init (Some (enc_log evs @ t)) 0 = Some log" using d(1,2) logf by simp
  note view = firmware_verdict_enc [where malloc_ok = "e_malloc env", OF init evs t m]
  have "\<exists>ref. parse_json_file (e_malloc env) (read_text_file (e_malloc env) (e_io env) fs' json) zero_reference = (True, ref) \<and>
      accepts ref (view_of (map entry_of evs))" if "cfg_ref_json_file cfg = Some json" for json
    using d(5) [OF that] verify_firmware_state_parses view by (metis option.inject prod.inject)
  then show ?thesis
    using tok(1) d(3,4) event_log_replay_enc [where malloc_ok = "e_malloc env" and sha = "e_sha env", OF init evs t m]
    by (auto simp: comp_def)
qed

theorem attestation_binds_boot_log_witness:
  "\<exists>tok. parse_cca_attestation_token (e_malloc demo_env) (e_qcbor demo_env) wild_token (QBuf [0]) = Some (VIRTCCA_SUCCESS, tok) \<and>
     (\<exists>ref. parse_json_file (e_malloc demo_env) (read_text_file (e_malloc demo_env) (e_io demo_env) demo_files ''./ref.json'')
        zero_reference = (True, ref) \<and> accepts ref (view_of (map entry_of sample_events)))"
proof -
  have c: "cfg_use_firmware demo_cfg" "cfg_ref_json_file demo_cfg = Some ''./ref.json''" by (simp_all add: demo_cfg_def)
  have f: "read_file_data_binary (e_malloc demo_env) (e_io demo_env) demo_files CCEL_EVENT_LOG_PATH
      = Some (enc_log sample_events @ [])"
    using demo_files_read(2) by (simp add: demo_env_def)
  have e: "e_malloc demo_env n" "sha_ok (e_sha demo_env)" for n using toy_sha_ok by (simp_all add: demo_env_def)
  show ?thesis
    using attestation_binds_boot_log [OF demo_verify c(1) f sample_events_ok(1,2,3,6,5) e] c(2) by blast
qed

text \<open>
  C29. Firmware verification end to end: on a log that encodes any well-formed events, extraction
  succeeds, and with a reference file that parses \<open>verify_firmware_state\<close> accepts exactly the
  logs whose measured boot the reference lists: the algorithm is sha-256, some EFI image (if
  any is measured) is the reference grub, grub.cfg matches if measured, and one listed kernel
  version matches both the kernel and the initramfs that were measured.
\<close>

theorem firmware_verification_end_to_end:
  assumes init: "event_log_init (Some (enc_log evs @ t)) base = Some log"
    and evs: "list_all ev_ok evs" "list_all spec_id_ok evs" "length evs < 2 ^ 32"
    and t: "log_end t" "length (enc_log evs @ t) < 2 ^ 64"
    and m: "\<And>n. malloc_ok n" and st: "firmware_log_state_create malloc_ok = Some st"
    and json: "parse_json_file malloc_ok json zero_reference = (True, ref)"
  shows "\<exists>st'. firmware_log_state_extract malloc_ok (log_blob log) st = Some (True, st') \<and>
     verify_firmware_state malloc_ok json st' = Some (accepts ref (view_of (map entry_of evs)))"
  using firmware_verdict_enc [where malloc_ok = malloc_ok, OF init evs t m st json] .

theorem firmware_verification_end_to_end_witness:
  "\<exists>log st st'. event_log_init (Some (enc_log sample_events @ [])) 0 = Some log \<and>
     firmware_log_state_extract (\<lambda>_. True) (log_blob log) st = Some (True, st') \<and>
     verify_firmware_state (\<lambda>_. True) (Some sample_json) st' = Some True"
proof -
  obtain log where log: "event_log_init (Some (enc_log sample_events @ [])) 0 = Some log"
    using sample_log_init by blast
  obtain st where st: "firmware_log_state_create (\<lambda>_. True) = Some st"
    by (simp add: firmware_log_state_create_def)
  show ?thesis
    using log sample_accepted firmware_verification_end_to_end [OF log sample_events_ok(1,2,3,6,5) _ st sample_json_parses]
    by auto
qed

text \<open>
  C37. The register lines of the printed token: from the text \<open>print_cca_attestation_token\<close> writes for
  a token with 32-byte registers, \<open>read_token_rem\<close> reads back exactly those registers, whatever the
  other claims are.
\<close>

theorem printed_token_rems_read_back:
  assumes p: "print_cca_attestation_token tok = Some outp"
    and c: "challenge (cvm_token tok) = QBuf ch" "rpv (cvm_token tok) = QBuf pv" "cvm_claims.rim (cvm_token tok) = QBuf im"
    and r: "rem_claim (cvm_token tok) = map QBuf ds" "length ds = REM_COUNT"
      "list_all (\<lambda>d. length d = REM_LENGTH_BYTES) ds" "rems_wf rems"
  shows "\<exists>rems'. read_token_rem (Some outp) rems = Some (True, rems') \<and> map rem_data rems' = ds"
proof -
  obtain d0 d1 d2 d3 where ds: "ds = [d0, d1, d2, d3]"
    using r(2) by (auto simp: eval_nat_numeral length_Suc_conv)
  have d: "hex_digit 0 = CHR ''0''" "hex_digit (Suc 0) = CHR ''1''" "hex_digit (Suc (Suc 0)) = CHR ''2''"
    "hex_digit (Suc (Suc (Suc 0))) = CHR ''3''"
    by code_simp+
  obtain rest where t: "outp = ''Parsed CCA attestation token'' @ hex_string [] @ CHR 0x0A # (''CVM token'' @ hex_string [] @ CHR 0x0A #
      ((TAB @ ''Challenge: '') @ hex_string ch @ CHR 0x0A # ((TAB @ ''RPV: '') @ hex_string pv @ CHR 0x0A #
      ((TAB @ ''RIM: '') @ hex_string im @ CHR 0x0A # (rem_file 0 ds @ rest)))))"
    using p c r(1)
    by (auto simp: print_cca_attestation_token_def print_cvm_claims_def put_line_def ds mem_at_def rem_line_def d
        split: bind_splits)
  obtain rems' where "read_rem_lines (rem_file 0 ds @ rest) rems 0 = Some (True, rems', REM_COUNT)" "map rem_data rems' = ds"
    using read_token_rem_file [OF r(4,2,3)] by blast
  moreover have s: "read_rem_lines (''Parsed CCA attestation token'' @ hex_string [] @ CHR 0x0A # R) rems 0 = read_rem_lines R rems 0"
    "read_rem_lines (''CVM token'' @ hex_string [] @ CHR 0x0A # R) rems 0 = read_rem_lines R rems 0"
    "read_rem_lines ((TAB @ ''Challenge: '') @ hex_string b @ CHR 0x0A # R) rems 0 = read_rem_lines R rems 0"
    "read_rem_lines ((TAB @ ''RPV: '') @ hex_string b @ CHR 0x0A # R) rems 0 = read_rem_lines R rems 0"
    "read_rem_lines ((TAB @ ''RIM: '') @ hex_string b @ CHR 0x0A # R) rems 0 = read_rem_lines R rems 0" for R b
    by (rule skip_labelled; simp)+
  moreover have "read_rem_lines outp rems 0 = read_rem_lines (rem_file 0 ds @ rest) rems 0"
    unfolding t s ..
  ultimately show ?thesis by (simp add: read_token_rem_def)
qed


theorem printed_token_rems_read_back_witness:
  "\<exists>outp rems'. print_cca_attestation_token sample_token = Some outp \<and>
     read_token_rem (Some outp) init_rems = Some (True, rems') \<and>
     map rem_data rems' = map (replicate 32) [7, 8, 10, 0]"
proof -
  obtain outp where "print_cca_attestation_token sample_token = Some outp" using demo_prints(2) by blast
  moreover have "challenge (cvm_token sample_token) = QBuf (replicate 64 1)" "rpv (cvm_token sample_token) = QBuf (replicate 64 2)"
    "cvm_claims.rim (cvm_token sample_token) = QBuf (replicate 32 3)"
    "rem_claim (cvm_token sample_token) = map QBuf (map (replicate 32) [7, 8, 10, 0])"
    by (simp_all add: sample_token_def cvm_of_def sample_content_def)
  ultimately show ?thesis
    using printed_token_rems_read_back [of sample_token outp "replicate 64 1" "replicate 64 2" "replicate 32 3"
        "map (replicate 32) [7, 8, 10, 0]" init_rems] by simp
qed

text \<open>
  C35. Transport of the event log between the two samples: when the attester's handler succeeds, it
  has written the length of its log file and then the file in non-empty pieces; the eight length
  bytes decode to the length, and the relying party's receive loop puts the pieces together to
  the same file.
\<close>

theorem event_log_transport:
  assumes h: "srv_event_log env st = Some (Inr st')"
    and f: "srv_files st SRV_EVENT_LOG_PATH = Some d" "length d < 2 ^ 64"
  shows "\<exists>cs. s_out (srv_sock st') = s_out (srv_sock st) @ word_bytes (of_nat (length d) :: u64) # cs \<and>
     unat (word_of_bytes (word_bytes (of_nat (length d) :: u64)) :: u64) = length d \<and>
     recv_exact (length d) [] \<lparr>s_in = map Some cs @ rest, s_out = os\<rparr> = (Some d, \<lparr>s_in = rest, s_out = os\<rparr>)"
proof -
  obtain s where s: "send_all (v_sent env) d (sock_write (word_bytes (of_nat (length d) :: u64)) (srv_sock st)) = (True, s)"
      "st' = st\<lparr>srv_sock := s\<rparr>"
    using h f(1)
    by (auto simp: srv_event_log_def read_file_data_def Let_def split: bind_splits if_splits prod.splits)
  obtain cs where cs: "s_out s = s_out (srv_sock st) @ word_bytes (of_nat (length d) :: u64) # cs" "concat cs = d" "[] \<notin> set cs"
    using send_all_chunks [OF s(1)] by auto
  have "unat (of_nat (length d) :: u64) = length d" using f(2) by (simp add: unat_of_nat)
  moreover have "recv_exact (length d) [] \<lparr>s_in = map Some cs @ rest, s_out = os\<rparr> = (Some d, \<lparr>s_in = rest, s_out = os\<rparr>)"
    using recv_exact_chunks [of cs "[]" rest "\<lparr>s_in = [], s_out = os\<rparr>"] cs(2,3) by auto
  ultimately show ?thesis using cs(1) s(2) by (auto simp: le_simps)
qed

theorem event_log_transport_witness:
  "\<exists>st' cs. srv_event_log (demo_server\<lparr>v_sent := \<lambda>b. min 8 (length b)\<rparr>)
       \<lparr>srv_sock = \<lparr>s_in = [], s_out = []\<rparr>, srv_files = [SRV_EVENT_LOG_PATH \<mapsto> replicate 10 7], srv_use_fde = False\<rparr> = Some (Inr st') \<and>
     s_out (srv_sock st') = word_bytes (10 :: u64) # cs \<and>
     recv_exact 10 [] \<lparr>s_in = map Some cs, s_out = []\<rparr> = (Some (replicate 10 7), \<lparr>s_in = [], s_out = []\<rparr>)"
proof -
  let ?st = "\<lparr>srv_sock = \<lparr>s_in = [], s_out = []\<rparr>, srv_files = [SRV_EVENT_LOG_PATH \<mapsto> replicate 10 7], srv_use_fde = False\<rparr>"
  let ?env = "demo_server\<lparr>v_sent := \<lambda>b. min 8 (length b)\<rparr>"
  obtain st' where "srv_event_log ?env ?st = Some (Inr st')"
    by (simp add: srv_event_log_def read_file_data_def demo_server_def Let_def send_all.simps)
  then show ?thesis using event_log_transport [of ?env ?st st' "replicate 10 7" "[]" "[]"] by auto
qed

end
